(* ===== verification/Lsw_Prelude.thy ===== *)
theory Lsw_Prelude
  imports Main "HOL-Library.Word" "HOL-Library.Code_Target_Nat"
begin

text \<open>
  Shared vocabulary of the development.  Rust's fixed-width integers are words, a
  \<open>Vec<u8>\<close> is a list of 8-bit words, \<open>usize\<close> (64 bits on every supported host and
  guest) is \<open>nat\<close> with its bound written out where the source checks it, and a
  fallible function returns a sum whose left summand is the error.  The operator
  \<open>and_then\<close> is the \<open>?\<close> of the source: it hands on an error and otherwise runs the rest.

  The lemma collections \<open>ok_iff\<close> (when a fallible computation returns a value) and
  \<open>dec_iff\<close> (when a decoder returns a value, and on exactly which bytes) carry the proofs
  of the wire formats.
\<close>

unbundle bit_operations_syntax

named_theorems ok_iff \<open>when a fallible computation returns a value\<close>
named_theorems dec_iff \<open>which inputs a decoder accepts, and with which result\<close>

type_synonym u8 = "8 word"
type_synonym u16 = "16 word"
type_synonym u32 = "32 word"
type_synonym u64 = "64 word"
type_synonym bytes = "u8 list"

text \<open>Signed integers share the bit pattern of the word; \<^const>\<open>sint\<close> reads them.\<close>

type_synonym i16 = "16 word"
type_synonym i32 = "32 word"


section \<open>Results\<close>

fun and_then :: "'e + 'a \<Rightarrow> ('a \<Rightarrow> 'e + 'b) \<Rightarrow> 'e + 'b" where
  "and_then (Inl e) f = Inl e"
| "and_then (Inr x) f = f x"

fun is_ok :: "'e + 'a \<Rightarrow> bool" where
  "is_ok (Inl e) = False"
| "is_ok (Inr x) = True"

fun ok_or :: "'a option \<Rightarrow> 'e \<Rightarrow> 'e + 'a" where
  "ok_or None e = Inl e"
| "ok_or (Some x) e = Inr x"

text \<open>Collecting an iterator of results stops at the first error.\<close>

fun collect_results :: "('e + 'a) list \<Rightarrow> 'e + 'a list" where
  "collect_results [] = Inr []"
| "collect_results (r # rs) =
     and_then r (\<lambda>x. and_then (collect_results rs) (\<lambda>xs. Inr (x # xs)))"

lemma and_then_ok [ok_iff]:
  "and_then r f = Inr y \<longleftrightarrow> (\<exists>x. r = Inr x \<and> f x = Inr y)"
  by (cases r) auto

lemma and_then_error:
  "and_then r f = Inl e \<longleftrightarrow> r = Inl e \<or> (\<exists>x. r = Inr x \<and> f x = Inl e)"
  by (cases r) auto

lemma and_then_split:
  "P (and_then r f) \<longleftrightarrow> (\<forall>e. r = Inl e \<longrightarrow> P (Inl e)) \<and> (\<forall>x. r = Inr x \<longrightarrow> P (f x))"
  by (cases r) auto

lemma and_then_split_asm:
  "P (and_then r f) \<longleftrightarrow>
     \<not> ((\<exists>e. r = Inl e \<and> \<not> P (Inl e)) \<or> (\<exists>x. r = Inr x \<and> \<not> P (f x)))"
  by (cases r) auto

lemmas and_then_splits = and_then_split and_then_split_asm

lemma is_ok_iff [ok_iff]: "is_ok r \<longleftrightarrow> (\<exists>x. r = Inr x)"
  by (cases r) auto

lemma ok_or_ok [ok_iff]: "ok_or x e = Inr y \<longleftrightarrow> x = Some y"
  by (cases x) auto

lemma ok_or_error: "ok_or x e = Inl e' \<longleftrightarrow> x = None \<and> e' = e"
  by (cases x) auto

lemma if_error_ok [ok_iff]:
  "(if b then Inl e else r) = Inr y \<longleftrightarrow> \<not> b \<and> r = Inr y"
  "(if b then r else Inl e) = Inr y \<longleftrightarrow> b \<and> r = Inr y"
  by auto

lemma collect_results_ok [ok_iff]:
  "collect_results rs = Inr xs \<longleftrightarrow> rs = map Inr xs"
proof (induction rs arbitrary: xs)
  case Nil
  then show ?case by auto
next
  case (Cons r rs)
  then show ?case by (cases r; cases xs) (auto simp: ok_iff)
qed


section \<open>Messages\<close>

text \<open>
  The text of an error is kept as the pieces of its \<open>format!\<close> string: literal text,
  displayed numbers, hexadecimal numbers of a given width, displayed strings and strings in
  debug notation.
\<close>

datatype fragment =
    Text string
  | Num nat
  | Hex nat nat
  | Disp string
  | Dbg string

type_synonym message = "fragment list"


section \<open>Big- and little-endian bytes\<close>

fun be_nat :: "nat \<Rightarrow> nat \<Rightarrow> bytes" where
  "be_nat 0 v = []"
| "be_nat (Suc n) v = be_nat n (v div 256) @ [word_of_nat (v mod 256)]"

definition nat_of_be :: "bytes \<Rightarrow> nat" where
  "nat_of_be bs = foldl (\<lambda>acc b. acc * 256 + unat b) 0 bs"

definition be_bytes :: "'a::len word \<Rightarrow> bytes" where
  "be_bytes w = be_nat (LENGTH('a) div 8) (unat w)"

definition of_be_bytes :: "bytes \<Rightarrow> 'a::len word" where
  "of_be_bytes bs = word_of_nat (nat_of_be bs)"

definition le_bytes :: "'a::len word \<Rightarrow> bytes" where
  "le_bytes w = rev (be_bytes w)"

definition of_le_bytes :: "bytes \<Rightarrow> 'a::len word" where
  "of_le_bytes bs = of_be_bytes (rev bs)"

lemma length_be_nat [simp]: "length (be_nat n v) = n"
  by (induction n arbitrary: v) auto

lemma nat_of_be_snoc: "nat_of_be (bs @ [b]) = nat_of_be bs * 256 + unat b"
  by (simp add: nat_of_be_def)

lemma nat_of_be_bound: "nat_of_be bs < 256 ^ length bs"
proof (induction bs rule: rev_induct)
  case Nil
  then show ?case by (simp add: nat_of_be_def)
next
  case (snoc b bs)
  have "unat b < 256" using unsigned_less [of b] by simp
  moreover have "Suc (nat_of_be bs) * 256 \<le> 256 ^ length bs * 256"
    using snoc.IH by (intro mult_right_mono) auto
  ultimately show ?case by (simp add: nat_of_be_snoc)
qed

lemma unat_word_of_nat_less: "v < 2 ^ LENGTH('a) \<Longrightarrow> unat (word_of_nat v :: 'a::len word) = v"
  by (simp add: unsigned_of_nat take_bit_nat_eq_self)

lemma unat_word_of_nat_byte: "v < 256 \<Longrightarrow> unat (word_of_nat v :: u8) = v"
  by (simp add: unat_word_of_nat_less)

lemma nat_of_be_be_nat: "nat_of_be (be_nat n v) = v mod 256 ^ n"
proof (induction n arbitrary: v)
  case 0
  then show ?case by (simp add: nat_of_be_def)
next
  case (Suc n)
  have "v mod 256 ^ Suc n = 256 * (v div 256 mod 256 ^ n) + v mod 256"
    by (simp add: mod_mult2_eq)
  with Suc show ?case
    by (simp add: nat_of_be_snoc unat_word_of_nat_byte)
qed

lemma be_nat_nat_of_be: "be_nat (length bs) (nat_of_be bs) = bs"
proof (induction bs rule: rev_induct)
  case Nil
  then show ?case by simp
next
  case (snoc b bs)
  have b: "unat b < 256" using unsigned_less [of b] by simp
  then have "(nat_of_be bs * 256 + unat b) div 256 = nat_of_be bs"
    and "(nat_of_be bs * 256 + unat b) mod 256 = unat b" by simp_all
  with snoc show ?case by (simp add: nat_of_be_snoc)
qed

lemma length_be_bytes [simp]: "length (be_bytes (w :: 'a::len word)) = LENGTH('a) div 8"
  by (simp add: be_bytes_def)

lemma length_le_bytes [simp]: "length (le_bytes (w :: 'a::len word)) = LENGTH('a) div 8"
  by (simp add: le_bytes_def)

lemma two_pow_bytes: "8 dvd n \<Longrightarrow> (256::nat) ^ (n div 8) = 2 ^ n"
proof -
  assume "8 dvd n"
  then obtain k where n: "n = 8 * k" by (auto elim: dvdE)
  have "(256::nat) ^ k = (2 ^ 8) ^ k" by simp
  then show ?thesis by (simp add: n power_mult)
qed

lemma of_be_bytes_be_bytes:
  assumes "8 dvd LENGTH('a::len)"
  shows "of_be_bytes (be_bytes (w :: 'a word)) = w"
proof -
  have "unat w mod 2 ^ LENGTH('a) = unat w" by simp
  then show ?thesis
    using assms
    by (simp add: of_be_bytes_def be_bytes_def nat_of_be_be_nat two_pow_bytes del: mod_less)
qed

lemma be_bytes_of_be_bytes:
  assumes "8 dvd LENGTH('a::len)" and "length bs = LENGTH('a) div 8"
  shows "be_bytes (of_be_bytes bs :: 'a word) = bs"
proof -
  have "nat_of_be bs < 2 ^ LENGTH('a)"
    using nat_of_be_bound [of bs] assms by (simp add: two_pow_bytes)
  then show ?thesis
    using be_nat_nat_of_be [of bs] assms
    by (simp add: of_be_bytes_def be_bytes_def unat_word_of_nat_less)
qed

text \<open>The widths the protocols use.\<close>

lemma of_be_be_16 [simp]: "of_be_bytes (be_bytes (w :: u16)) = w"
  and of_be_be_32 [simp]: "of_be_bytes (be_bytes (x :: u32)) = x"
  and of_be_be_64 [simp]: "of_be_bytes (be_bytes (y :: u64)) = y"
  by (simp_all add: of_be_bytes_be_bytes)

lemma be_of_be_16 [simp]: "length bs = 2 \<Longrightarrow> be_bytes (of_be_bytes bs :: u16) = bs"
  and be_of_be_32 [simp]: "length bs = 4 \<Longrightarrow> be_bytes (of_be_bytes bs :: u32) = bs"
  and be_of_be_64 [simp]: "length bs = 8 \<Longrightarrow> be_bytes (of_be_bytes bs :: u64) = bs"
  by (simp_all add: be_bytes_of_be_bytes)

lemma of_le_le_32 [simp]: "of_le_bytes (le_bytes (w :: u32)) = w"
  by (simp add: of_le_bytes_def le_bytes_def)

lemma le_of_le_32 [simp]: "length bs = 4 \<Longrightarrow> le_bytes (of_le_bytes bs :: u32) = bs"
  by (simp add: of_le_bytes_def le_bytes_def)

text \<open>The bytes spelt out, for evaluating on concrete values.\<close>

lemma be_nat_2: "be_nat 2 v = [word_of_nat (v div 256 mod 256), word_of_nat (v mod 256)]"
proof -
  have "be_nat (Suc (Suc 0)) v = [word_of_nat (v div 256 mod 256), word_of_nat (v mod 256)]"
    by simp
  then show ?thesis by (simp only: numeral_2_eq_2)
qed

lemma be_nat_4:
  "be_nat 4 v = [word_of_nat (v div 16777216 mod 256), word_of_nat (v div 65536 mod 256),
     word_of_nat (v div 256 mod 256), word_of_nat (v mod 256)]"
proof -
  have "be_nat 4 v = be_nat (Suc (Suc 2)) v" by (rule arg_cong [where f = "\<lambda>n. be_nat n v"]) simp
  also have "\<dots> = be_nat 2 (v div 256 div 256) @ [word_of_nat (v div 256 mod 256), word_of_nat (v mod 256)]"
    by (simp only: be_nat.simps append.assoc append_Cons append_Nil)
  finally show ?thesis by (simp add: be_nat_2 div_mult2_eq [symmetric])
qed

lemma be_nat_8: "be_nat 8 v = be_nat 4 (v div 4294967296) @ be_nat 4 v"
proof -
  have "be_nat 8 v = be_nat (Suc (Suc (Suc (Suc 4)))) v"
    by (rule arg_cong [where f = "\<lambda>n. be_nat n v"]) simp
  also have "\<dots> = be_nat 4 (v div 256 div 256 div 256 div 256) @
      [word_of_nat (v div 256 div 256 div 256 mod 256), word_of_nat (v div 256 div 256 mod 256),
       word_of_nat (v div 256 mod 256), word_of_nat (v mod 256)]"
    by (simp only: be_nat.simps append.assoc append_Cons append_Nil)
  finally show ?thesis by (simp add: be_nat_4 div_mult2_eq [symmetric])
qed

lemma be_bytes_eval:
  "be_bytes (w :: u16) = be_nat 2 (unat w)" "be_bytes (x :: u32) = be_nat 4 (unat x)"
  "be_bytes (y :: u64) = be_nat 8 (unat y)"
  by (simp_all add: be_bytes_def)

lemmas be_eval = be_bytes_eval be_nat_8 be_nat_4 be_nat_2

lemma be_bytes_inj:
  "8 dvd LENGTH('a::len) \<Longrightarrow> be_bytes (v :: 'a word) = be_bytes w \<longleftrightarrow> v = w"
  by (metis of_be_bytes_be_bytes)


section \<open>Checked and saturating arithmetic\<close>

definition usize_limit :: nat where
  "usize_limit = 2 ^ 64"

definition checked_add_usize :: "nat \<Rightarrow> nat \<Rightarrow> nat option" where
  "checked_add_usize a b = (if a + b < usize_limit then Some (a + b) else None)"

definition checked_mul_usize :: "nat \<Rightarrow> nat \<Rightarrow> nat option" where
  "checked_mul_usize a b = (if a * b < usize_limit then Some (a * b) else None)"

definition checked_sub_usize :: "nat \<Rightarrow> nat \<Rightarrow> nat option" where
  "checked_sub_usize a b = (if b \<le> a then Some (a - b) else None)"

definition checked_add :: "'a::len word \<Rightarrow> 'a word \<Rightarrow> 'a word option" where
  "checked_add a b = (if unat a + unat b < 2 ^ LENGTH('a) then Some (a + b) else None)"

definition checked_sub :: "'a::len word \<Rightarrow> 'a word \<Rightarrow> 'a word option" where
  "checked_sub a b = (if b \<le> a then Some (a - b) else None)"

definition saturating_add :: "'a::len word \<Rightarrow> 'a word \<Rightarrow> 'a word" where
  "saturating_add a b = (if unat a + unat b < 2 ^ LENGTH('a) then a + b else - 1)"

definition saturating_sub :: "'a::len word \<Rightarrow> 'a word \<Rightarrow> 'a word" where
  "saturating_sub a b = (if b \<le> a then a - b else 0)"

lemma checked_add_Some:
  "checked_add (a :: 'a::len word) b = Some c \<Longrightarrow> unat c = unat a + unat b"
  by (auto simp: checked_add_def unat_word_ariths split: if_splits)

lemma checked_sub_Some: "checked_sub a b = Some c \<Longrightarrow> unat c = unat a - unat b \<and> b \<le> a"
  by (auto simp: checked_sub_def unat_sub word_le_nat_alt split: if_splits)

lemma unat_saturating_add:
  "unat (saturating_add (a :: 'a::len word) b) = min (unat a + unat b) (2 ^ LENGTH('a) - 1)"
proof (cases "unat a + unat b < 2 ^ LENGTH('a)")
  case True
  then show ?thesis by (simp add: saturating_add_def unat_word_ariths)
next
  case False
  then show ?thesis by (simp add: saturating_add_def unsigned_minus_1_eq_mask mask_eq_exp_minus_1)
qed

lemma saturating_add_mono: "a \<le> a' \<Longrightarrow> saturating_add a b \<le> saturating_add a' b"
  by (simp add: word_le_nat_alt unat_saturating_add)

lemma saturating_add_ge: "a \<le> saturating_add a b"
proof -
  have "unat a < 2 ^ LENGTH('a)" by simp
  then have "unat a \<le> 2 ^ LENGTH('a) - 1" by linarith
  then show ?thesis by (simp add: word_le_nat_alt unat_saturating_add)
qed


section \<open>List lemmas\<close>

lemma prefix_split: "p = xs @ ys \<longleftrightarrow> take (length xs) p = xs \<and> drop (length xs) p = ys"
  by (metis append_eq_conv_conj append_take_drop_id)

lemma take_split_iff: "n \<le> length p \<Longrightarrow> take n p = v \<and> drop n p = r \<longleftrightarrow> p = v @ r \<and> length v = n"
  by (metis append_eq_conv_conj append_take_drop_id length_take min.absorb2)

end
