(* ===== verification/Rust_Text.thy ===== *)
theory Rust_Text
  imports Lsw_Prelude
begin

text \<open>
  The parts of Rust's \<open>str\<close> and \<open>char\<close> the sources use.  A \<open>String\<close> is the sequence of
  its UTF-8 bytes, written as an Isabelle \<^typ>\<open>string\<close> (whose characters are bytes), so
  \<open>len\<close> is \<^const>\<open>length\<close>; that it is well-formed UTF-8 is the predicate \<open>utf8_valid\<close>,
  which \<open>from_utf8\<close> decides.  ASCII case mapping, control characters and UTF-16 lengths
  follow the standard library's documentation.
\<close>

section \<open>Bytes and characters\<close>

definition byte_of_char :: "char \<Rightarrow> u8" where
  "byte_of_char c = word_of_nat (of_char c)"

definition char_of_byte :: "u8 \<Rightarrow> char" where
  "char_of_byte b = char_of (unat b)"

definition as_bytes :: "string \<Rightarrow> bytes" where
  "as_bytes s = map byte_of_char s"

definition string_of_bytes :: "bytes \<Rightarrow> string" where
  "string_of_bytes bs = map char_of_byte bs"

definition char_code :: "char \<Rightarrow> nat" where
  "char_code c = of_char c"


section \<open>UTF-8\<close>

definition utf8_continuation :: "nat \<Rightarrow> bool" where
  "utf8_continuation b \<longleftrightarrow> 0x80 \<le> b \<and> b \<le> 0xBF"

text \<open>
  The first scalar value of a byte sequence and the bytes after it, or \<open>None\<close> when the
  sequence does not start with a well-formed character: overlong forms, surrogates and values
  above U+10FFFF are rejected by the bounds on the second byte.
\<close>

fun utf8_step :: "nat list \<Rightarrow> (nat \<times> nat list) option" where
  "utf8_step [] = None"
| "utf8_step (a # r) =
     (if a < 0x80 then Some (a, r)
      else if 0xC2 \<le> a \<and> a \<le> 0xDF then
        (case r of
           b # r1 \<Rightarrow>
             if utf8_continuation b then Some ((a - 0xC0) * 64 + (b - 0x80), r1) else None
         | _ \<Rightarrow> None)
      else if 0xE0 \<le> a \<and> a \<le> 0xEF then
        (case r of
           b # c # r2 \<Rightarrow>
             if (if a = 0xE0 then 0xA0 else 0x80) \<le> b
                \<and> b \<le> (if a = 0xED then 0x9F else 0xBF) \<and> utf8_continuation c
             then Some ((a - 0xE0) * 4096 + (b - 0x80) * 64 + (c - 0x80), r2)
             else None
         | _ \<Rightarrow> None)
      else if 0xF0 \<le> a \<and> a \<le> 0xF4 then
        (case r of
           b # c # d # r3 \<Rightarrow>
             if (if a = 0xF0 then 0x90 else 0x80) \<le> b
                \<and> b \<le> (if a = 0xF4 then 0x8F else 0xBF)
                \<and> utf8_continuation c \<and> utf8_continuation d
             then Some ((a - 0xF0) * 262144 + (b - 0x80) * 4096 + (c - 0x80) * 64 + (d - 0x80), r3)
             else None
         | _ \<Rightarrow> None)
      else None)"

lemma utf8_step_shorter: "utf8_step bs = Some (c, r) \<Longrightarrow> length r < length bs"
  by (cases bs) (auto split: if_splits list.splits)

text \<open>All scalar values of a byte sequence, or \<open>None\<close> when it is not well-formed.\<close>

function utf8_decode :: "nat list \<Rightarrow> nat list option" where
  "utf8_decode [] = Some []"
| "utf8_decode (a # r) =
     (case utf8_step (a # r) of
        None \<Rightarrow> None
      | Some (c, rest) \<Rightarrow> map_option (Cons c) (utf8_decode rest))"
  by pat_completeness auto
termination
  by (relation "measure length") (auto dest: utf8_step_shorter simp del: utf8_step.simps)

definition utf8_valid :: "string \<Rightarrow> bool" where
  "utf8_valid s \<longleftrightarrow> utf8_decode (map char_code s) \<noteq> None"

text \<open>\<open>str::chars\<close> as scalar values; a \<open>String\<close> is well-formed, so the other case is idle.\<close>

definition str_chars :: "string \<Rightarrow> nat list" where
  "str_chars s = (case utf8_decode (map char_code s) of Some cs \<Rightarrow> cs | None \<Rightarrow> [])"

definition from_utf8 :: "bytes \<Rightarrow> string option" where
  "from_utf8 bs = (let s = string_of_bytes bs in if utf8_valid s then Some s else None)"

text \<open>
  \<open>String::from_utf8_lossy\<close>: every maximal part of an ill-formed sequence becomes one U+FFFD.
  The part is the first byte, with the second and third as long as they continue a character.
\<close>

fun utf8_bad_length :: "nat list \<Rightarrow> nat" where
  "utf8_bad_length (a # b # r) =
     (if 0xE0 \<le> a \<and> a \<le> 0xEF
         \<and> (if a = 0xE0 then 0xA0 else 0x80) \<le> b \<and> b \<le> (if a = 0xED then 0x9F else 0xBF) then 2
      else if 0xF0 \<le> a \<and> a \<le> 0xF4
         \<and> (if a = 0xF0 then 0x90 else 0x80) \<le> b \<and> b \<le> (if a = 0xF4 then 0x8F else 0xBF)
      then (case r of c # _ \<Rightarrow> if utf8_continuation c then 3 else 2 | [] \<Rightarrow> 2)
      else 1)"
| "utf8_bad_length _ = 1"

lemma utf8_bad_length_pos: "1 \<le> utf8_bad_length bs"
  by (cases bs rule: utf8_bad_length.cases) (auto split: list.splits)

function utf8_lossy :: "nat list \<Rightarrow> nat list" where
  "utf8_lossy [] = []"
| "utf8_lossy (a # r) =
     (case utf8_step (a # r) of
        Some (_, rest) \<Rightarrow> take (length (a # r) - length rest) (a # r) @ utf8_lossy rest
      | None \<Rightarrow> [0xEF, 0xBF, 0xBD] @ utf8_lossy (drop (utf8_bad_length (a # r)) (a # r)))"
  by pat_completeness auto
termination
proof (relation "measure length")
  fix a r
  show "(drop (utf8_bad_length (a # r)) (a # r), a # r) \<in> measure length"
    using utf8_bad_length_pos [of "a # r"] by (simp del: utf8_bad_length.simps)
qed (auto dest: utf8_step_shorter simp del: utf8_step.simps)

definition from_utf8_lossy :: "bytes \<Rightarrow> string" where
  "from_utf8_lossy bs = map char_of (utf8_lossy (map unat bs))"

definition utf16_len :: "string \<Rightarrow> nat" where
  "utf16_len s = sum_list (map (\<lambda>c. if 0x10000 \<le> c then 2 else 1) (str_chars s))"


section \<open>Character classes and ASCII case\<close>

definition char_is_control :: "nat \<Rightarrow> bool" where
  "char_is_control c \<longleftrightarrow> c \<le> 0x1F \<or> (0x7F \<le> c \<and> c \<le> 0x9F)"

definition is_ascii_lowercase :: "char \<Rightarrow> bool" where
  "is_ascii_lowercase c \<longleftrightarrow> 97 \<le> char_code c \<and> char_code c \<le> 122"

definition is_ascii_uppercase :: "char \<Rightarrow> bool" where
  "is_ascii_uppercase c \<longleftrightarrow> 65 \<le> char_code c \<and> char_code c \<le> 90"

definition is_ascii_digit :: "char \<Rightarrow> bool" where
  "is_ascii_digit c \<longleftrightarrow> 48 \<le> char_code c \<and> char_code c \<le> 57"

definition is_ascii_alphabetic :: "char \<Rightarrow> bool" where
  "is_ascii_alphabetic c \<longleftrightarrow> is_ascii_lowercase c \<or> is_ascii_uppercase c"

definition is_ascii_alphanumeric :: "char \<Rightarrow> bool" where
  "is_ascii_alphanumeric c \<longleftrightarrow> is_ascii_alphabetic c \<or> is_ascii_digit c"

definition is_ascii_hexdigit :: "char \<Rightarrow> bool" where
  "is_ascii_hexdigit c \<longleftrightarrow> is_ascii_digit c
     \<or> (97 \<le> char_code c \<and> char_code c \<le> 102) \<or> (65 \<le> char_code c \<and> char_code c \<le> 70)"

definition ascii_lower_char :: "char \<Rightarrow> char" where
  "ascii_lower_char c = (if is_ascii_uppercase c then char_of (char_code c + 32) else c)"

definition ascii_upper_char :: "char \<Rightarrow> char" where
  "ascii_upper_char c = (if is_ascii_lowercase c then char_of (char_code c - 32) else c)"

definition to_ascii_lowercase :: "string \<Rightarrow> string" where
  "to_ascii_lowercase s = map ascii_lower_char s"

definition to_ascii_uppercase :: "string \<Rightarrow> string" where
  "to_ascii_uppercase s = map ascii_upper_char s"

definition eq_ignore_ascii_case :: "string \<Rightarrow> string \<Rightarrow> bool" where
  "eq_ignore_ascii_case a b \<longleftrightarrow> to_ascii_lowercase a = to_ascii_lowercase b"

definition ends_with :: "string \<Rightarrow> string \<Rightarrow> bool" where
  "ends_with s t \<longleftrightarrow> length t \<le> length s \<and> drop (length s - length t) s = t"

definition starts_with :: "string \<Rightarrow> string \<Rightarrow> bool" where
  "starts_with s t \<longleftrightarrow> take (length t) s = t"

definition ends_with_char :: "string \<Rightarrow> char list \<Rightarrow> bool" where
  "ends_with_char s cs \<longleftrightarrow> s \<noteq> [] \<and> last s \<in> set cs"


section \<open>Numbers\<close>

definition hex_digit :: "nat \<Rightarrow> char" where
  "hex_digit n = char_of (if n < 10 then 48 + n else 87 + n)"

definition hex_byte :: "u8 \<Rightarrow> string" where
  "hex_byte b = [hex_digit (unat b div 16), hex_digit (unat b mod 16)]"

fun decimal :: "nat \<Rightarrow> string" where
  "decimal n = (if n < 10 then [char_of (48 + n)] else decimal (n div 10) @ [char_of (48 + n mod 10)])"

declare decimal.simps [simp del]

text \<open>
  \<open>str::parse\<close> for an unsigned type with the given exclusive bound: an optional plus sign, at least
  one digit, no other character, no overflow; the error is its displayed text.
\<close>

fun parse_digits :: "nat \<Rightarrow> nat \<Rightarrow> string \<Rightarrow> string + nat" where
  "parse_digits bound acc [] = Inr acc"
| "parse_digits bound acc (c # cs) =
     (if \<not> is_ascii_digit c then Inl ''invalid digit found in string''
      else if acc * 10 + (char_code c - 48) \<ge> bound then Inl ''number too large to fit in target type''
      else parse_digits bound (acc * 10 + (char_code c - 48)) cs)"

definition parse_int :: "nat \<Rightarrow> string \<Rightarrow> string + nat" where
  "parse_int bound s =
     (if s = [] then Inl ''cannot parse integer from empty string''
      else if s = ''+'' then Inl ''invalid digit found in string''
      else parse_digits bound 0 (if hd s = CHR ''+'' then tl s else s))"

definition parse_word :: "string \<Rightarrow> string + 'a::len word" where
  "parse_word s = map_sum id word_of_nat (parse_int (2 ^ LENGTH('a)) s)"

definition parse_bool :: "string \<Rightarrow> string + bool" where
  "parse_bool s = (if s = ''true'' then Inr True else if s = ''false'' then Inr False
     else Inl ''provided string was not `true` or `false`'')"

definition bool_display :: "bool \<Rightarrow> string" where
  "bool_display b = (if b then ''true'' else ''false'')"


section \<open>Lemmas\<close>

lemma char_code_less [simp]: "char_code c < 256"
  by (simp add: char_code_def)

lemma char_of_code [simp]: "char_of (char_code c) = c"
  by (simp add: char_code_def)

lemma char_code_of: "n < 256 \<Longrightarrow> char_code (char_of n) = n"
  by (simp add: char_code_def)

lemma char_code_inj [simp]: "char_code c = char_code d \<longleftrightarrow> c = d"
  by (metis char_of_code)

lemma unat_byte_of_char: "unat (byte_of_char c) = char_code c"
  unfolding byte_of_char_def char_code_def [symmetric]
  by (rule unat_word_of_nat_byte) simp

lemma char_of_byte_of_char [simp]: "char_of_byte (byte_of_char c) = c"
  by (simp add: char_of_byte_def unat_byte_of_char)

lemma byte_of_char_of_byte [simp]: "byte_of_char (char_of_byte b) = b"
proof -
  have "unat b < 256" using unsigned_less [of b] by simp
  then have "char_code (char_of (unat b)) = unat b" by (rule char_code_of)
  then show ?thesis
    by (simp add: char_of_byte_def byte_of_char_def char_code_def)
qed

lemma string_of_as_bytes [simp]: "string_of_bytes (as_bytes s) = s"
  by (simp add: string_of_bytes_def as_bytes_def o_def)

lemma as_bytes_of_string [simp]: "as_bytes (string_of_bytes bs) = bs"
  by (simp add: string_of_bytes_def as_bytes_def o_def)

lemma length_as_bytes [simp]: "length (as_bytes s) = length s"
  by (simp add: as_bytes_def)

lemma length_string_of_bytes [simp]: "length (string_of_bytes bs) = length bs"
  by (simp add: string_of_bytes_def)

lemma as_bytes_inj [simp]: "as_bytes s = as_bytes t \<longleftrightarrow> s = t"
  by (metis string_of_as_bytes)

lemma as_bytes_Nil [simp]: "as_bytes [] = []"
  and as_bytes_Nil_iff [simp]: "as_bytes s = [] \<longleftrightarrow> s = []"
  by (simp_all add: as_bytes_def)

lemma from_utf8_Some: "from_utf8 bs = Some s \<longleftrightarrow> utf8_valid s \<and> bs = as_bytes s"
  by (auto simp: from_utf8_def Let_def)

lemma from_utf8_as_bytes: "utf8_valid s \<Longrightarrow> from_utf8 (as_bytes s) = Some s"
  by (simp add: from_utf8_Some)

text \<open>ASCII text is well-formed, and its scalar values are its bytes.\<close>

lemma utf8_decode_ascii: "\<forall>b \<in> set bs. b < 0x80 \<Longrightarrow> utf8_decode bs = Some bs"
  by (induction bs) auto

lemma utf8_valid_ascii: "\<forall>c \<in> set s. char_code c < 0x80 \<Longrightarrow> utf8_valid s"
  by (simp add: utf8_valid_def utf8_decode_ascii)

lemma utf8_valid_Nil [simp]: "utf8_valid []"
  by (simp add: utf8_valid_def)

lemma str_chars_ascii: "\<forall>c \<in> set s. char_code c < 0x80 \<Longrightarrow> str_chars s = map char_code s"
  by (simp add: str_chars_def utf8_decode_ascii)

lemma utf8_step_append: "utf8_step xs = Some (c, r) \<Longrightarrow> utf8_step (xs @ ys) = Some (c, r @ ys)"
  by (cases xs) (auto split: if_splits list.splits)

lemma utf8_decode_append:
  "utf8_decode xs = Some cs \<Longrightarrow> utf8_decode (xs @ ys) = map_option (append cs) (utf8_decode ys)"
proof (induction xs arbitrary: cs rule: utf8_decode.induct)
  case 1
  then show ?case by (simp add: option.map_ident)
next
  case (2 a r)
  from "2.prems" obtain c rest ds where
    step: "utf8_step (a # r) = Some (c, rest)" and ds: "utf8_decode rest = Some ds"
    and cs: "cs = c # ds"
    by (auto split: option.splits simp del: utf8_step.simps)
  have "utf8_decode (rest @ ys) = map_option (append ds) (utf8_decode ys)"
    using "2.IH" step ds by blast
  with utf8_step_append [OF step, of ys] cs show ?case
    by (simp add: option.map_comp o_def del: utf8_step.simps)
qed

lemma utf8_valid_append: "utf8_valid s \<Longrightarrow> utf8_valid t \<Longrightarrow> utf8_valid (s @ t)"
  by (auto simp: utf8_valid_def utf8_decode_append)

lemma hex_digit_code: "n < 16 \<Longrightarrow> char_code (hex_digit n) = (if n < 10 then 48 + n else 87 + n)"
  by (simp add: hex_digit_def char_code_of)

lemma hex_digit_class: "n < 16 \<Longrightarrow> is_ascii_hexdigit (hex_digit n) \<and> \<not> is_ascii_uppercase (hex_digit n)"
  by (auto simp: is_ascii_hexdigit_def is_ascii_digit_def is_ascii_uppercase_def hex_digit_code)

end
