(* ===== verification/Codec.thy ===== *)
theory Codec
  imports Rust_Text
begin

text \<open>
  The shared codec of the wire protocol: \<open>constants.rs\<close>, \<open>error.rs\<close> and \<open>codec.rs\<close> of
  \<open>lsw-protocol\<close>.  A \<open>Decoder\<close> is its remaining bytes; an operation on it takes those bytes
  and returns the value with the bytes after it, or the error.  Every operation has an exact
  characterisation in the collection \<open>dec_iff\<close>: it returns a value precisely when the input
  starts with the encoding of that value.  The locale \<open>wire_codec\<close> is the contract of every
  message type of the protocol; the theories of the messages interpret it.
\<close>

section \<open>Constants\<close>

definition AGENT_PROTOCOL_VERSION :: u16 where "AGENT_PROTOCOL_VERSION = 1"
definition SESSION_CANCEL_EXIT_CODE :: i32 where "SESSION_CANCEL_EXIT_CODE = 130"
definition DEFAULT_SESSION_LEASE_TIMEOUT_MILLIS :: u32 where
  "DEFAULT_SESSION_LEASE_TIMEOUT_MILLIS = 120000"
definition MIN_SESSION_LEASE_TIMEOUT_MILLIS :: u32 where
  "MIN_SESSION_LEASE_TIMEOUT_MILLIS = 1000"
definition MAX_SESSION_LEASE_TIMEOUT_MILLIS :: u32 where
  "MAX_SESSION_LEASE_TIMEOUT_MILLIS = 300000"
definition MAX_FRAME_BYTES :: nat where "MAX_FRAME_BYTES = 8 * 1024 * 1024"
definition MAX_ARGUMENTS :: nat where "MAX_ARGUMENTS = 1024"
definition MAX_STRING_BYTES :: nat where "MAX_STRING_BYTES = 1024 * 1024"
definition MAX_TERMINAL_DIMENSION :: u16 where "MAX_TERMINAL_DIMENSION = 32767"
definition MAX_GUI_WINDOW_DIMENSION :: u32 where "MAX_GUI_WINDOW_DIMENSION = 8192"
definition MAX_GUI_DAMAGE_DIMENSION :: u32 where "MAX_GUI_DAMAGE_DIMENSION = 512"
definition MAX_GUI_FRAME_BYTES :: nat where "MAX_GUI_FRAME_BYTES = 128 * 1024 * 1024"


section \<open>Errors\<close>

datatype io_error = UnexpectedEof | BrokenPipe | NotFound | AlreadyExists | InvalidUtf8 | OsError string

datatype ProtocolError = Io io_error | Protocol message


section \<open>Comparing tokens in constant time\<close>

definition byte_at :: "string \<Rightarrow> nat \<Rightarrow> u8" where
  "byte_at s i = (if i < length s then as_bytes s ! i else 0)"

definition constant_time_token_eq :: "string \<Rightarrow> string \<Rightarrow> bool" where
  "constant_time_token_eq left right =
     (let difference = length left XOR length right;
          maximum = max (length left) (length right)
      in fold (\<lambda>index d. d OR unat (byte_at left index XOR byte_at right index))
           [0..<maximum] difference = 0)"


section \<open>Encoding strings\<close>

definition push_string :: "bytes \<Rightarrow> string \<Rightarrow> ProtocolError + bytes" where
  "push_string payload s =
     (if length s > MAX_STRING_BYTES
      then Inl (Protocol [Text ''string exceeds the '', Num MAX_STRING_BYTES, Text '' byte limit''])
      else if 2 ^ 32 \<le> length s
      then Inl (Protocol [Text ''string length does not fit in u32''])
      else Inr (payload @ be_bytes (word_of_nat (length s) :: u32) @ as_bytes s))"

fun push_each :: "bytes \<Rightarrow> string list \<Rightarrow> ProtocolError + bytes" where
  "push_each payload [] = Inr payload"
| "push_each payload (s # ss) = and_then (push_string payload s) (\<lambda>p. push_each p ss)"

definition push_strings :: "bytes \<Rightarrow> string list \<Rightarrow> ProtocolError + bytes" where
  "push_strings payload ss =
     (if 2 ^ 16 \<le> length ss then Inl (Protocol [Text ''too many string values''])
      else if length ss > MAX_ARGUMENTS
      then Inl (Protocol [Text ''more than '', Num MAX_ARGUMENTS, Text '' string values''])
      else push_each (payload @ be_bytes (word_of_nat (length ss) :: u16)) ss)"


section \<open>The decoder\<close>

type_synonym 'a decoder = "bytes \<Rightarrow> ProtocolError + ('a \<times> bytes)"

definition dec_return :: "'a \<Rightarrow> 'a decoder" where
  "dec_return x remaining = Inr (x, remaining)"

definition dec_bind :: "'a decoder \<Rightarrow> ('a \<Rightarrow> 'b decoder) \<Rightarrow> 'b decoder" where
  "dec_bind d f remaining = and_then (d remaining) (\<lambda>(x, rest). f x rest)"

text \<open>A check or conversion that does not touch the decoder.\<close>

definition dec_lift :: "ProtocolError + 'a \<Rightarrow> 'a decoder" where
  "dec_lift r remaining = and_then r (\<lambda>x. Inr (x, remaining))"

definition dec_run :: "'a decoder \<Rightarrow> bytes \<Rightarrow> ProtocolError + 'a" where
  "dec_run d payload = and_then (d payload) (\<lambda>(x, _). Inr x)"

definition dec_take :: "nat \<Rightarrow> bytes decoder" where
  "dec_take n remaining =
     (if length remaining < n then Inl (Protocol [Text ''truncated payload''])
      else Inr (take n remaining, drop n remaining))"

definition dec_u8 :: "u8 decoder" where
  "dec_u8 remaining =
     (case remaining of
        [] \<Rightarrow> Inl (Protocol [Text ''truncated u8 field''])
      | b # rest \<Rightarrow> Inr (b, rest))"

definition dec_u16 :: "u16 decoder" where
  "dec_u16 = dec_bind (dec_take 2) (\<lambda>bs. dec_return (of_be_bytes bs))"

definition dec_u32 :: "u32 decoder" where
  "dec_u32 = dec_bind (dec_take 4) (\<lambda>bs. dec_return (of_be_bytes bs))"

definition dec_u64 :: "u64 decoder" where
  "dec_u64 = dec_bind (dec_take 8) (\<lambda>bs. dec_return (of_be_bytes bs))"

definition dec_i16 :: "i16 decoder" where
  "dec_i16 = dec_bind (dec_take 2) (\<lambda>bs. dec_return (of_be_bytes bs))"

definition dec_string :: "string decoder" where
  "dec_string =
     dec_bind dec_u32 (\<lambda>n.
       if unat n > MAX_STRING_BYTES
       then dec_lift (Inl (Protocol
              [Text ''string exceeds the '', Num MAX_STRING_BYTES, Text '' byte limit'']))
       else dec_bind (dec_take (unat n)) (\<lambda>bs.
         dec_lift (ok_or (from_utf8 bs) (Protocol [Text ''string is not valid UTF-8'']))))"

fun dec_repeat :: "nat \<Rightarrow> 'a decoder \<Rightarrow> 'a list decoder" where
  "dec_repeat 0 d = dec_return []"
| "dec_repeat (Suc n) d =
     dec_bind d (\<lambda>x. dec_bind (dec_repeat n d) (\<lambda>xs. dec_return (x # xs)))"

definition dec_strings :: "string list decoder" where
  "dec_strings =
     dec_bind dec_u16 (\<lambda>count.
       if unat count > MAX_ARGUMENTS
       then dec_lift (Inl (Protocol
              [Text ''more than '', Num MAX_ARGUMENTS, Text '' string values'']))
       else dec_repeat (unat count) dec_string)"

definition dec_finish :: "unit decoder" where
  "dec_finish remaining =
     (if remaining = [] then Inr ((), [])
      else Inl (Protocol [Text ''payload has trailing bytes'']))"

text \<open>Direct access to the field \<open>remaining\<close>: read everything and leave nothing.\<close>

definition dec_rest :: "bytes decoder" where
  "dec_rest remaining = Inr (remaining, [])"


section \<open>The bytes of strings\<close>

definition string_bytes :: "string \<Rightarrow> bytes" where
  "string_bytes s = be_bytes (word_of_nat (length s) :: u32) @ as_bytes s"

definition strings_bytes :: "string list \<Rightarrow> bytes" where
  "strings_bytes ss = be_bytes (word_of_nat (length ss) :: u16) @ concat (map string_bytes ss)"

text \<open>What Rust's types already guarantee (\<open>String\<close> is UTF-8), and the limit of one string.\<close>

definition wire_string :: "string \<Rightarrow> bool" where
  "wire_string s \<longleftrightarrow> utf8_valid s \<and> length s \<le> MAX_STRING_BYTES"

definition wire_strings :: "string list \<Rightarrow> bool" where
  "wire_strings ss \<longleftrightarrow> length ss \<le> MAX_ARGUMENTS \<and> list_all wire_string ss"


section \<open>The contract of a message type\<close>

text \<open>
  \<open>wf\<close> collects what the Rust types guarantee about a message and what its decoder insists
  on.  A provider promises that an encoded well-formed message is decoded to itself, that a
  decoded message is well-formed, and that the decoder accepts the canonical bytes only.
\<close>

locale wire_codec =
  fixes wf :: "'a \<Rightarrow> bool"
    and enc :: "'a \<Rightarrow> ProtocolError + bytes"
    and dec :: "bytes \<Rightarrow> ProtocolError + 'a"
  assumes round_trip: "wf x \<Longrightarrow> enc x = Inr p \<Longrightarrow> dec p = Inr x"
    and accepts_wf: "dec p = Inr x \<Longrightarrow> wf x"
    and canonical: "dec p = Inr x \<Longrightarrow> enc x = Inr p"
begin

lemma accepts_iff: "dec p = Inr x \<longleftrightarrow> wf x \<and> enc x = Inr p"
  using round_trip accepts_wf canonical by blast

lemma enc_inj: "wf x \<Longrightarrow> wf y \<Longrightarrow> enc x = Inr p \<Longrightarrow> enc y = Inr p \<Longrightarrow> x = y"
  using round_trip by (metis sum.inject(2))

lemma dec_inj: "dec p = Inr x \<Longrightarrow> dec q = Inr x \<Longrightarrow> p = q"
  using canonical by (metis sum.inject(2))

lemma rejects_iff: "(\<exists>e. dec p = Inl e) \<longleftrightarrow> \<not> (\<exists>x. wf x \<and> enc x = Inr p)"
proof -
  have "(\<exists>e. dec p = Inl e) \<longleftrightarrow> \<not> (\<exists>x. dec p = Inr x)" by (cases "dec p") auto
  then show ?thesis by (simp add: accepts_iff)
qed

end

text \<open>
  How the instances are proved: it is enough to show on which bytes the decoder returns a
  message.
\<close>

lemma wire_codecI:
  assumes "\<And>p x. dec p = Inr x \<longleftrightarrow> wf x \<and> enc x = Inr p"
  shows "wire_codec wf enc dec"
  using assms by unfold_locales blast+


section \<open>Lemmas\<close>

text \<open>The token comparison.\<close>

lemma nat_or_eq_0: "(a::nat) OR b = 0 \<longleftrightarrow> a = 0 \<and> b = 0"
  by (metis or_eq_0_iff)

lemma nat_xor_eq_0: "(a::nat) XOR b = 0 \<longleftrightarrow> a = b"
proof
  assume "a XOR b = 0"
  then have "b = (a XOR a) XOR b" by simp
  also have "\<dots> = a XOR (a XOR b)" by (simp only: xor.assoc)
  finally show "a = b" using \<open>a XOR b = 0\<close> by simp
qed simp

lemma word_xor_eq_0: "(a :: 'a::len word) XOR b = 0 \<longleftrightarrow> a = b"
proof
  assume "a XOR b = 0"
  then have "b = (a XOR a) XOR b" by simp
  also have "\<dots> = a XOR (a XOR b)" by (simp only: xor.assoc)
  finally show "a = b" using \<open>a XOR b = 0\<close> by simp
qed simp

lemma fold_or_eq_0: "fold (\<lambda>i d. d OR f i) xs (d::nat) = 0 \<longleftrightarrow> d = 0 \<and> (\<forall>i \<in> set xs. f i = 0)"
  by (induction xs arbitrary: d) (auto simp: nat_or_eq_0)

text \<open>The combinators.\<close>

lemma dec_return_iff [dec_iff]: "dec_return x p = Inr (y, r) \<longleftrightarrow> y = x \<and> r = p"
  by (auto simp: dec_return_def)

lemma dec_bind_iff [dec_iff]:
  "dec_bind d f p = Inr (y, r) \<longleftrightarrow> (\<exists>x q. d p = Inr (x, q) \<and> f x q = Inr (y, r))"
  by (auto simp: dec_bind_def ok_iff)

lemma dec_lift_iff [dec_iff]: "dec_lift e p = Inr (y, r) \<longleftrightarrow> e = Inr y \<and> r = p"
  by (auto simp: dec_lift_def ok_iff)

lemma dec_run_iff [dec_iff]: "dec_run d p = Inr x \<longleftrightarrow> (\<exists>r. d p = Inr (x, r))"
  by (auto simp: dec_run_def ok_iff)

lemma dec_if_iff [dec_iff]:
  "(if b then d else e) p = Inr (y, r) \<longleftrightarrow> (b \<and> d p = Inr (y, r)) \<or> (\<not> b \<and> e p = Inr (y, r))"
  by auto

text \<open>The fields.\<close>

lemma dec_take_iff [dec_iff]: "dec_take n p = Inr (v, r) \<longleftrightarrow> p = v @ r \<and> length v = n"
  by (auto simp: dec_take_def)

lemma dec_u8_iff [dec_iff]: "dec_u8 p = Inr (b, r) \<longleftrightarrow> p = b # r"
  by (auto simp: dec_u8_def split: list.splits)

lemma dec_u16_iff [dec_iff]: "dec_u16 p = Inr (v, r) \<longleftrightarrow> p = be_bytes v @ r"
  by (auto simp: dec_u16_def dec_iff)

lemma dec_u32_iff [dec_iff]: "dec_u32 p = Inr (v, r) \<longleftrightarrow> p = be_bytes v @ r"
  by (auto simp: dec_u32_def dec_iff)

lemma dec_u64_iff [dec_iff]: "dec_u64 p = Inr (v, r) \<longleftrightarrow> p = be_bytes v @ r"
  by (auto simp: dec_u64_def dec_iff)

lemma dec_i16_iff [dec_iff]: "dec_i16 p = Inr (v, r) \<longleftrightarrow> p = be_bytes v @ r"
  by (auto simp: dec_i16_def dec_iff)

lemma dec_finish_iff [dec_iff]: "dec_finish p = Inr (u, r) \<longleftrightarrow> p = [] \<and> r = []"
  by (auto simp: dec_finish_def)

lemma dec_rest_iff [dec_iff]: "dec_rest p = Inr (v, r) \<longleftrightarrow> p = v \<and> r = []"
  by (auto simp: dec_rest_def)

lemma u32_of_length: "n \<le> MAX_STRING_BYTES \<Longrightarrow> unat (word_of_nat n :: u32) = n"
  by (rule unat_word_of_nat_less) (simp add: MAX_STRING_BYTES_def)

lemma u16_of_count: "n \<le> MAX_ARGUMENTS \<Longrightarrow> unat (word_of_nat n :: u16) = n"
  by (rule unat_word_of_nat_less) (simp add: MAX_ARGUMENTS_def)

lemma dec_string_iff [dec_iff]:
  "dec_string p = Inr (s, r) \<longleftrightarrow> wire_string s \<and> p = string_bytes s @ r"
proof
  assume "dec_string p = Inr (s, r)"
  then obtain n where "unat n \<le> MAX_STRING_BYTES" "length s = unat n" "utf8_valid s"
    "p = be_bytes (n :: u32) @ as_bytes s @ r"
    by (auto simp: dec_string_def dec_iff ok_iff from_utf8_Some not_less)
  then show "wire_string s \<and> p = string_bytes s @ r"
    by (simp add: wire_string_def string_bytes_def)
next
  assume "wire_string s \<and> p = string_bytes s @ r"
  then show "dec_string p = Inr (s, r)"
    by (auto simp: dec_string_def dec_iff ok_iff from_utf8_Some wire_string_def string_bytes_def
        u32_of_length)
qed

lemma dec_repeat_string_iff:
  "dec_repeat n dec_string p = Inr (ss, r) \<longleftrightarrow>
     length ss = n \<and> list_all wire_string ss \<and> p = concat (map string_bytes ss) @ r"
proof (induction n arbitrary: p ss)
  case 0
  then show ?case by (auto simp: dec_iff)
next
  case (Suc n)
  then show ?case by (cases ss) (auto simp: dec_iff)
qed

lemma dec_strings_iff [dec_iff]:
  "dec_strings p = Inr (ss, r) \<longleftrightarrow> wire_strings ss \<and> p = strings_bytes ss @ r"
proof
  assume "dec_strings p = Inr (ss, r)"
  then obtain n where "unat n \<le> MAX_ARGUMENTS" "length ss = unat n" "list_all wire_string ss"
    "p = be_bytes (n :: u16) @ concat (map string_bytes ss) @ r"
    by (auto simp: dec_strings_def dec_iff dec_repeat_string_iff not_less)
  then show "wire_strings ss \<and> p = strings_bytes ss @ r"
    by (simp add: wire_strings_def strings_bytes_def)
next
  assume "wire_strings ss \<and> p = strings_bytes ss @ r"
  then show "dec_strings p = Inr (ss, r)"
    by (auto simp: dec_strings_def dec_iff dec_repeat_string_iff wire_strings_def
        strings_bytes_def u16_of_count)
qed

lemma push_string_ok [ok_iff]:
  "push_string p s = Inr q \<longleftrightarrow> length s \<le> MAX_STRING_BYTES \<and> q = p @ string_bytes s"
  by (auto simp: push_string_def string_bytes_def MAX_STRING_BYTES_def)

lemma push_each_ok:
  "push_each p ss = Inr q \<longleftrightarrow>
     list_all (\<lambda>s. length s \<le> MAX_STRING_BYTES) ss \<and> q = p @ concat (map string_bytes ss)"
  by (induction ss arbitrary: p) (auto simp: ok_iff)

lemma push_strings_ok [ok_iff]:
  "push_strings p ss = Inr q \<longleftrightarrow>
     length ss \<le> MAX_ARGUMENTS \<and> list_all (\<lambda>s. length s \<le> MAX_STRING_BYTES) ss
     \<and> q = p @ strings_bytes ss"
  by (auto simp: push_strings_def push_each_ok strings_bytes_def MAX_ARGUMENTS_def)

lemma wire_strings_lengths:
  "wire_strings ss \<longleftrightarrow> length ss \<le> MAX_ARGUMENTS
     \<and> list_all (\<lambda>s. length s \<le> MAX_STRING_BYTES) ss \<and> list_all utf8_valid ss"
  by (auto simp: wire_strings_def wire_string_def list_all_iff)

lemma length_string_bytes [simp]: "length (string_bytes s) = 4 + length s"
  by (simp add: string_bytes_def)

text \<open>Running a decoder forwards on the bytes an encoder wrote.\<close>

lemma dec_u8_forward: "dec_u8 (b # r) = Inr (b, r)"
  by (simp add: dec_u8_def)

lemma dec_words_forward:
  "dec_u16 (be_bytes a @ r) = Inr (a, r)" "dec_u32 (be_bytes b @ r) = Inr (b, r)"
  "dec_u64 (be_bytes c @ r) = Inr (c, r)" "dec_i16 (be_bytes d @ r) = Inr (d, r)"
  "dec_u16 (be_bytes a) = Inr (a, [])" "dec_u32 (be_bytes b) = Inr (b, [])"
  "dec_u64 (be_bytes c) = Inr (c, [])" "dec_i16 (be_bytes d) = Inr (d, [])"
  by (simp_all add: dec_iff)

lemma dec_string_forward:
  "wire_string s \<Longrightarrow> dec_string (string_bytes s @ r) = Inr (s, r)"
  "wire_string s \<Longrightarrow> dec_string (string_bytes s) = Inr (s, [])"
  "wire_strings ss \<Longrightarrow> dec_strings (strings_bytes ss @ r) = Inr (ss, r)"
  "wire_strings ss \<Longrightarrow> dec_strings (strings_bytes ss) = Inr (ss, [])"
  by (simp_all add: dec_iff)

lemma dec_take_forward:
  "length v = n \<Longrightarrow> dec_take n (v @ r) = Inr (v, r)" "length v = n \<Longrightarrow> dec_take n v = Inr (v, [])"
  by (simp_all add: dec_iff)

lemmas dec_forward = dec_bind_def dec_return_def dec_lift_def dec_run_def dec_finish_def dec_rest_def
  dec_u8_forward dec_words_forward dec_string_forward dec_take_forward

lemmas codec_iff = dec_iff ok_iff wire_strings_lengths wire_string_def

lemma constant_time_token_eq_iff: "constant_time_token_eq left right \<longleftrightarrow> left = right"
proof -
  have "constant_time_token_eq left right \<longleftrightarrow>
      length left = length right \<and>
      (\<forall>i < max (length left) (length right). byte_at left i = byte_at right i)"
    by (auto simp: constant_time_token_eq_def Let_def fold_or_eq_0 nat_xor_eq_0
        unsigned_eq_0_iff word_xor_eq_0)
  also have "\<dots> \<longleftrightarrow> as_bytes left = as_bytes right"
    by (auto simp: byte_at_def list_eq_iff_nth_eq)
  finally show ?thesis by simp
qed


end
