(* ===== verification/Framing.thy ===== *)
theory Framing
  imports Codec
begin

text \<open>
  Frames, from \<open>frame.rs\<close> of \<open>lsw-protocol\<close>: one kind byte, a big-endian length and the
  payload.  A reader is the bytes that arrive before the peer closes the stream; a writer is
  the bytes handed to the peer so far and, when the connection is going to break, how many
  more it will take.  Shown here: frames survive the stream unchanged, the receiver never
  allocates more than the frame limit, and a frame that was cut off is never delivered.
\<close>

section \<open>Kinds\<close>

datatype FrameKind =
    Hello
  | HelloOk
  | FK_Error
  | Ping
  | Pong
  | Start
  | Stdin
  | Stdout
  | Stderr
  | Resize
  | Exit
  | TerminalStart
  | SessionOptions
  | StdinClose
  | SessionCancel
  | FilePut
  | FileGet
  | FileData
  | FileDone
  | SessionLease
  | SessionHeartbeat
  | ProcessEnvironment
  | SessionDetach
  | Started
  | SessionSignal
  | PowerHibernate
  | UserCreate
  | MaintenanceTrim
  | MaintenanceHibernate
  | UserSetRole
  | WindowsSudoQuery
  | WindowsSudoConfigure
  | WindowsSudoStatus
  | LiveShareQuery
  | LiveShareConfigure
  | LiveShareStatus
  | MaintenanceShutdown
  | DesktopCompanionStart
  | GuiStart
  | GuiIcon
  | GuiIconData
  | DesktopLiveShareConfigure
  | GuiWindowOpen
  | GuiWindowReady
  | GuiWindowDamage
  | GuiWindowInput
  | GuiWindowResize
  | GuiWindowClose
  | GuiWindowClosed
  | GuiWindowAction
  | GuiWindowDragHint

primrec frame_kind_byte :: "FrameKind \<Rightarrow> u8" where
  "frame_kind_byte Hello = 1"
| "frame_kind_byte HelloOk = 2"
| "frame_kind_byte FK_Error = 3"
| "frame_kind_byte Ping = 4"
| "frame_kind_byte Pong = 5"
| "frame_kind_byte Start = 10"
| "frame_kind_byte Stdin = 11"
| "frame_kind_byte Stdout = 12"
| "frame_kind_byte Stderr = 13"
| "frame_kind_byte Resize = 14"
| "frame_kind_byte Exit = 15"
| "frame_kind_byte TerminalStart = 16"
| "frame_kind_byte SessionOptions = 17"
| "frame_kind_byte StdinClose = 18"
| "frame_kind_byte SessionCancel = 19"
| "frame_kind_byte FilePut = 20"
| "frame_kind_byte FileGet = 21"
| "frame_kind_byte FileData = 22"
| "frame_kind_byte FileDone = 23"
| "frame_kind_byte SessionLease = 24"
| "frame_kind_byte SessionHeartbeat = 25"
| "frame_kind_byte ProcessEnvironment = 26"
| "frame_kind_byte SessionDetach = 27"
| "frame_kind_byte Started = 28"
| "frame_kind_byte SessionSignal = 29"
| "frame_kind_byte PowerHibernate = 30"
| "frame_kind_byte UserCreate = 31"
| "frame_kind_byte MaintenanceTrim = 32"
| "frame_kind_byte MaintenanceHibernate = 33"
| "frame_kind_byte UserSetRole = 34"
| "frame_kind_byte WindowsSudoQuery = 35"
| "frame_kind_byte WindowsSudoConfigure = 36"
| "frame_kind_byte WindowsSudoStatus = 37"
| "frame_kind_byte LiveShareQuery = 38"
| "frame_kind_byte LiveShareConfigure = 39"
| "frame_kind_byte LiveShareStatus = 40"
| "frame_kind_byte MaintenanceShutdown = 41"
| "frame_kind_byte DesktopCompanionStart = 42"
| "frame_kind_byte GuiStart = 43"
| "frame_kind_byte GuiIcon = 44"
| "frame_kind_byte GuiIconData = 45"
| "frame_kind_byte DesktopLiveShareConfigure = 46"
| "frame_kind_byte GuiWindowOpen = 47"
| "frame_kind_byte GuiWindowReady = 48"
| "frame_kind_byte GuiWindowDamage = 49"
| "frame_kind_byte GuiWindowInput = 50"
| "frame_kind_byte GuiWindowResize = 51"
| "frame_kind_byte GuiWindowClose = 52"
| "frame_kind_byte GuiWindowClosed = 53"
| "frame_kind_byte GuiWindowAction = 54"
| "frame_kind_byte GuiWindowDragHint = 55"

text \<open>The arms of \<open>TryFrom<u8>\<close>, in their order.\<close>

definition frame_kind_table :: "(u8 \<times> FrameKind) list" where
  "frame_kind_table =
    [(1, Hello), (2, HelloOk), (3, FK_Error), (4, Ping),
     (5, Pong), (10, Start), (11, Stdin), (12, Stdout),
     (13, Stderr), (14, Resize), (15, Exit), (16, TerminalStart),
     (17, SessionOptions), (18, StdinClose), (19, SessionCancel), (20, FilePut),
     (21, FileGet), (22, FileData), (23, FileDone), (24, SessionLease),
     (25, SessionHeartbeat), (26, ProcessEnvironment), (27, SessionDetach), (28, Started),
     (29, SessionSignal), (30, PowerHibernate), (31, UserCreate), (32, MaintenanceTrim),
     (33, MaintenanceHibernate), (34, UserSetRole), (35, WindowsSudoQuery), (36, WindowsSudoConfigure),
     (37, WindowsSudoStatus), (38, LiveShareQuery), (39, LiveShareConfigure), (40, LiveShareStatus),
     (41, MaintenanceShutdown), (42, DesktopCompanionStart), (43, GuiStart), (44, GuiIcon),
     (45, GuiIconData), (46, DesktopLiveShareConfigure), (47, GuiWindowOpen), (48, GuiWindowReady),
     (49, GuiWindowDamage), (50, GuiWindowInput), (51, GuiWindowResize), (52, GuiWindowClose),
     (53, GuiWindowClosed), (54, GuiWindowAction), (55, GuiWindowDragHint)]"

definition frame_kind_try_from :: "u8 \<Rightarrow> ProtocolError + FrameKind" where
  "frame_kind_try_from b =
     (case map_of frame_kind_table b of
        Some k \<Rightarrow> Inr k
      | None \<Rightarrow> Inl (Protocol [Text ''unknown frame kind '', Num (unat b)]))"


section \<open>Frames and streams\<close>

record Frame =
  fr_kind :: FrameKind
  fr_payload :: bytes

definition frame_new :: "FrameKind \<Rightarrow> bytes \<Rightarrow> Frame" where
  "frame_new kind payload = \<lparr>fr_kind = kind, fr_payload = payload\<rparr>"

record Writer =
  w_out :: bytes
  w_budget :: "nat option"

definition write_all :: "Writer \<Rightarrow> bytes \<Rightarrow> Writer \<times> (ProtocolError + unit)" where
  "write_all w bs =
     (case w_budget w of
        None \<Rightarrow> (w\<lparr>w_out := w_out w @ bs\<rparr>, Inr ())
      | Some n \<Rightarrow>
          if length bs \<le> n
          then (w\<lparr>w_out := w_out w @ bs, w_budget := Some (n - length bs)\<rparr>, Inr ())
          else (w\<lparr>w_out := w_out w @ take n bs, w_budget := Some 0\<rparr>, Inl (Io BrokenPipe)))"

text \<open>Run a write, and the rest only if it succeeded.\<close>

definition write_then ::
  "Writer \<times> (ProtocolError + unit) \<Rightarrow> (Writer \<Rightarrow> Writer \<times> (ProtocolError + unit))
     \<Rightarrow> Writer \<times> (ProtocolError + unit)" where
  "write_then r f = (case r of (w, Inl e) \<Rightarrow> (w, Inl e) | (w, Inr _) \<Rightarrow> f w)"

definition read_exact :: "nat \<Rightarrow> bytes \<Rightarrow> ProtocolError + (bytes \<times> bytes)" where
  "read_exact n stream =
     (if length stream < n then Inl (Io UnexpectedEof)
      else Inr (take n stream, drop n stream))"

text \<open>
  The writers that frames go to are sockets and byte vectors: neither buffers anything, and their \<open>flush\<close>
  is the library's \<open>Ok(())\<close>.
\<close>

definition writer_flush :: "Writer \<Rightarrow> Writer \<times> (ProtocolError + unit)" where
  "writer_flush w = (w, Inr ())"

definition write_frame :: "Writer \<Rightarrow> Frame \<Rightarrow> Writer \<times> (ProtocolError + unit)" where
  "write_frame w frame =
     (let n = length (fr_payload frame);
          too_long = Protocol [Text ''frame exceeds the '', Num MAX_FRAME_BYTES, Text '' byte limit'']
      in if 2 ^ 32 \<le> n then (w, Inl too_long)
         else if n > MAX_FRAME_BYTES then (w, Inl too_long)
         else write_then (write_all w [frame_kind_byte (fr_kind frame)]) (\<lambda>w.
              write_then (write_all w (be_bytes (word_of_nat n :: u32))) (\<lambda>w.
              write_then (write_all w (fr_payload frame)) writer_flush)))"

definition read_frame :: "bytes \<Rightarrow> ProtocolError + (Frame \<times> bytes)" where
  "read_frame stream =
     and_then (read_exact 5 stream) (\<lambda>(header, stream).
     and_then (frame_kind_try_from (header ! 0)) (\<lambda>kind.
       let n = unat (of_be_bytes (take 4 (drop 1 header)) :: u32)
       in if n > MAX_FRAME_BYTES
          then Inl (Protocol [Text ''peer frame exceeds the '', Num MAX_FRAME_BYTES, Text '' byte limit''])
          else and_then (read_exact n stream) (\<lambda>(payload, stream).
               Inr (\<lparr>fr_kind = kind, fr_payload = payload\<rparr>, stream))))"


section \<open>The bytes of a frame\<close>

definition frame_bytes :: "Frame \<Rightarrow> bytes" where
  "frame_bytes f = frame_kind_byte (fr_kind f)
     # be_bytes (word_of_nat (length (fr_payload f)) :: u32) @ fr_payload f"

lemma length_frame_bytes [simp]: "length (frame_bytes f) = 5 + length (fr_payload f)"
  by (simp add: frame_bytes_def)

lemma frame_kind_table_bytes: "list_all (\<lambda>(b, k). frame_kind_byte k = b) frame_kind_table"
  by (simp add: frame_kind_table_def)

lemma frame_kind_in_table: "map_of frame_kind_table (frame_kind_byte k) = Some k"
  by (cases k) (simp_all add: frame_kind_table_def)

lemma frame_kind_try_from_iff [ok_iff]:
  "frame_kind_try_from b = Inr k \<longleftrightarrow> b = frame_kind_byte k"
proof
  assume "frame_kind_try_from b = Inr k"
  then have "(b, k) \<in> set frame_kind_table"
    by (auto simp: frame_kind_try_from_def dest: map_of_SomeD split: option.splits)
  then show "b = frame_kind_byte k"
    using frame_kind_table_bytes by (auto simp: list_all_iff)
qed (simp add: frame_kind_try_from_def frame_kind_in_table)

lemma frame_kind_byte_inj [simp]: "frame_kind_byte k = frame_kind_byte l \<longleftrightarrow> k = l"
  by (metis frame_kind_in_table option.inject)

lemma u32_of_frame_length: "n \<le> MAX_FRAME_BYTES \<Longrightarrow> unat (word_of_nat n :: u32) = n"
  by (rule unat_word_of_nat_less) (simp add: MAX_FRAME_BYTES_def)

lemma read_exact_ok [ok_iff]: "read_exact n s = Inr (v, r) \<longleftrightarrow> s = v @ r \<and> length v = n"
  by (auto simp: read_exact_def)

text \<open>A reader returns a frame exactly when the stream starts with the bytes of that frame.\<close>

lemma read_frame_iff:
  "read_frame s = Inr (f, r) \<longleftrightarrow>
     length (fr_payload f) \<le> MAX_FRAME_BYTES \<and> s = frame_bytes f @ r"
proof
  assume "read_frame s = Inr (f, r)"
  then obtain header s1 kind payload where
    header: "s = header @ s1" "length header = 5" and kind: "header ! 0 = frame_kind_byte kind"
    and len: "length payload = unat (of_be_bytes (take 4 (drop 1 header)) :: u32)"
      "length payload \<le> MAX_FRAME_BYTES"
    and s1: "s1 = payload @ r" and f: "f = \<lparr>fr_kind = kind, fr_payload = payload\<rparr>"
    by (auto simp: read_frame_def ok_iff Let_def)
  from header(2) obtain k n where hd: "header = k # n" "length n = 4"
    by (cases header) auto
  with len have "be_bytes (word_of_nat (length payload) :: u32) = n" by simp
  with header kind len s1 f hd
  show "length (fr_payload f) \<le> MAX_FRAME_BYTES \<and> s = frame_bytes f @ r"
    by (simp add: frame_bytes_def)
next
  assume rhs: "length (fr_payload f) \<le> MAX_FRAME_BYTES \<and> s = frame_bytes f @ r"
  let ?n = "be_bytes (word_of_nat (length (fr_payload f)) :: u32)"
  let ?h = "frame_kind_byte (fr_kind f) # ?n"
  have "read_exact 5 s = Inr (?h, fr_payload f @ r)"
    using rhs by (auto simp: read_exact_ok frame_bytes_def)
  moreover have "frame_kind_try_from (?h ! 0) = Inr (fr_kind f)" by (simp add: ok_iff)
  moreover have "read_exact (length (fr_payload f)) (fr_payload f @ r) = Inr (fr_payload f, r)"
    by (simp add: read_exact_ok)
  ultimately show "read_frame s = Inr (f, r)"
    using rhs by (simp add: read_frame_def Let_def u32_of_frame_length)
qed

text \<open>A successful write appends the bytes of the frame; a broken one a proper prefix of them.\<close>

lemma write_all_ok: "write_all w bs = (w', Inr ()) \<Longrightarrow> w_out w' = w_out w @ bs"
  by (auto simp: write_all_def split: option.splits if_splits)

lemma write_all_cases:
  obtains w' where "write_all w bs = (w', Inr ())" "w_out w' = w_out w @ bs"
  | w' n where "write_all w bs = (w', Inl (Io BrokenPipe))" "w_out w' = w_out w @ take n bs"
      "n < length bs"
proof (cases "write_all w bs")
  case (Pair w' r)
  then show ?thesis
    using that by (auto simp: write_all_def split: option.splits if_splits)
qed

lemma writer_flush_done [simp]: "writer_flush w = (w, Inr ())" "write_then r writer_flush = r"
  by (auto simp: writer_flush_def write_then_def split: prod.splits sum.splits)

lemma write_frame_ok:
  assumes "write_frame w f = (w', Inr ())"
  shows "w_out w' = w_out w @ frame_bytes f \<and> length (fr_payload f) \<le> MAX_FRAME_BYTES"
  using assms
  by (auto simp: write_frame_def write_then_def Let_def frame_bytes_def
      split: if_splits prod.splits sum.splits dest!: write_all_ok)

lemma write_frame_unlimited:
  assumes "w_budget w = None" and "length (fr_payload f) \<le> MAX_FRAME_BYTES"
  shows "write_frame w f = (w\<lparr>w_out := w_out w @ frame_bytes f\<rparr>, Inr ())"
  using assms
  by (simp add: write_frame_def write_then_def write_all_def Let_def frame_bytes_def
      MAX_FRAME_BYTES_def)

lemma write_frame_broken:
  assumes "write_frame w f = (w', Inl (Io e))"
  shows "\<exists>n < length (frame_bytes f). w_out w' = w_out w @ take n (frame_bytes f)"
proof -
  let ?k = "[frame_kind_byte (fr_kind f)]"
  let ?n = "be_bytes (word_of_nat (length (fr_payload f)) :: u32)"
  let ?p = "fr_payload f"
  have fb: "frame_bytes f = ?k @ ?n @ ?p" by (simp add: frame_bytes_def)
  have run: "write_then (write_all w ?k) (\<lambda>w. write_then (write_all w ?n) (\<lambda>w. write_all w ?p))
      = (w', Inl (Io e))"
    using assms by (auto simp: write_frame_def Let_def split: if_splits)
  show ?thesis
  proof (rule write_all_cases [of w ?k])
    fix w1 m
    assume "write_all w ?k = (w1, Inl (Io BrokenPipe))" "w_out w1 = w_out w @ take m ?k"
      "m < length ?k"
    with run show ?thesis by (auto simp: write_then_def fb)
  next
    fix w1
    assume 1: "write_all w ?k = (w1, Inr ())" "w_out w1 = w_out w @ ?k"
    show ?thesis
    proof (rule write_all_cases [of w1 ?n])
      fix w2 m
      assume "write_all w1 ?n = (w2, Inl (Io BrokenPipe))" "w_out w2 = w_out w1 @ take m ?n"
        "m < length ?n"
      with run 1 show ?thesis by (intro exI [of _ "Suc m"]) (auto simp: write_then_def fb)
    next
      fix w2
      assume 2: "write_all w1 ?n = (w2, Inr ())" "w_out w2 = w_out w1 @ ?n"
      show ?thesis
      proof (rule write_all_cases [of w2 ?p])
        fix w3 m
        assume "write_all w2 ?p = (w3, Inl (Io BrokenPipe))" "w_out w3 = w_out w2 @ take m ?p"
          "m < length ?p"
        with run 1 2 show ?thesis
          by (intro exI [of _ "5 + m"]) (auto simp: write_then_def fb take_Cons')
      next
        fix w3
        assume "write_all w2 ?p = (w3, Inr ())"
        with run 1 2 show ?thesis by (auto simp: write_then_def)
      qed
    qed
  qed
qed

lemma read_frame_cut:
  assumes "length (fr_payload f) \<le> MAX_FRAME_BYTES" and "n < length (frame_bytes f)"
  shows "read_frame (take n (frame_bytes f)) = Inl (Io UnexpectedEof)"
proof (cases "n < 5")
  case True
  then show ?thesis by (simp add: read_frame_def read_exact_def)
next
  case False
  let ?h = "frame_kind_byte (fr_kind f) # be_bytes (word_of_nat (length (fr_payload f)) :: u32)"
  let ?q = "take (n - 5) (fr_payload f)"
  have "take n (frame_bytes f) = ?h @ ?q"
    using False by (simp add: frame_bytes_def take_Cons')
  moreover have "read_exact 5 (?h @ ?q) = Inr (?h, ?q)" by (simp add: read_exact_ok)
  moreover have "frame_kind_try_from (?h ! 0) = Inr (fr_kind f)" by (simp add: ok_iff)
  moreover have "read_exact (length (fr_payload f)) ?q = Inl (Io UnexpectedEof)"
    using assms(2) False by (simp add: read_exact_def)
  ultimately show ?thesis
    using assms(1) by (simp add: read_frame_def Let_def u32_of_frame_length)
qed


section \<open>Messages in frames\<close>

text \<open>A message type together with the kind of the frames that carry it.\<close>

locale framed_codec = wire_codec wf enc dec
  for wf :: "'a \<Rightarrow> bool"
    and enc :: "'a \<Rightarrow> ProtocolError + bytes"
    and dec :: "bytes \<Rightarrow> ProtocolError + 'a" +
  fixes kind :: FrameKind
begin

lemma delivered:
  assumes "wf x" and "enc x = Inr p" and "write_frame w (frame_new kind p) = (w', Inr ())"
  shows "\<exists>sent. w_out w' = w_out w @ sent
    \<and> (\<forall>rest. read_frame (sent @ rest) = Inr (frame_new kind p, rest)) \<and> dec p = Inr x"
proof -
  from write_frame_ok [OF assms(3)] have out: "w_out w' = w_out w @ frame_bytes (frame_new kind p)"
    and len: "length (fr_payload (frame_new kind p)) \<le> MAX_FRAME_BYTES"
    by auto
  from len have "\<forall>rest. read_frame (frame_bytes (frame_new kind p) @ rest) = Inr (frame_new kind p, rest)"
    by (simp add: read_frame_iff)
  with out round_trip [OF assms(1,2)] show ?thesis by blast
qed

end


section \<open>Loops over the frames of a stream\<close>

text \<open>
  A thread that reads frames until one of them, or the end of the stream, makes it return.
  \<open>step\<close> handles one frame and gives the result when it ends the loop; \<open>failed\<close> handles the
  error of \<open>read_frame\<close>.
\<close>

fun run_steps :: "(Frame \<Rightarrow> 'b \<Rightarrow> 'b \<times> 'r option) \<Rightarrow> Frame list \<Rightarrow> 'b \<Rightarrow> 'b option" where
  "run_steps step [] b = Some b"
| "run_steps step (f # fs) b =
     (case step f b of (b', None) \<Rightarrow> run_steps step fs b' | (b', Some r) \<Rightarrow> None)"

lemma run_steps_append:
  "run_steps step (fs @ gs) b = (case run_steps step fs b of None \<Rightarrow> None | Some c \<Rightarrow> run_steps step gs c)"
  by (induction fs arbitrary: b) (auto split: prod.splits option.splits)

definition stream_of :: "Frame list \<Rightarrow> bytes" where
  "stream_of fs = concat (map frame_bytes fs)"

definition sendable :: "Frame list \<Rightarrow> bool" where
  "sendable fs \<longleftrightarrow> list_all (\<lambda>f. length (fr_payload f) \<le> MAX_FRAME_BYTES) fs"

lemma read_frame_empty [simp]: "read_frame [] = Inl (Io UnexpectedEof)"
  by (simp add: read_frame_def read_exact_def)

lemma read_frame_frame_bytes [simp]:
  "length (fr_payload f) \<le> MAX_FRAME_BYTES \<Longrightarrow> read_frame (frame_bytes f @ rest) = Inr (f, rest)"
  by (simp add: read_frame_iff)

lemma read_frame_shorter: "read_frame s = Inr (f, rest) \<Longrightarrow> length rest < length s"
  by (auto simp: read_frame_iff)

locale frame_loop =
  fixes loop :: "bytes \<Rightarrow> 'b \<Rightarrow> 'r"
    and step :: "Frame \<Rightarrow> 'b \<Rightarrow> 'b \<times> 'r option"
    and failed :: "ProtocolError \<Rightarrow> 'b \<Rightarrow> 'r"
  assumes loop_unfold: "loop stream b =
    (case read_frame stream of
       Inl e \<Rightarrow> failed e b
     | Inr (f, rest) \<Rightarrow> (case step f b of (b', None) \<Rightarrow> loop rest b' | (b', Some r) \<Rightarrow> r))"
begin

lemma loop_frames:
  "sendable fs \<Longrightarrow> run_steps step fs b = Some c \<Longrightarrow> loop (stream_of fs @ rest) b = loop rest c"
proof (induction fs arbitrary: b)
  case Nil
  then show ?case by (simp add: stream_of_def)
next
  case (Cons f fs)
  then obtain b' where "step f b = (b', None)" "run_steps step fs b' = Some c"
    by (auto split: prod.splits option.splits)
  with Cons show ?case
    by (subst loop_unfold) (simp add: stream_of_def sendable_def)
qed

lemma loop_invariant:
  assumes step_keeps:
      "\<And>f b b'. I b \<Longrightarrow> length (fr_payload f) \<le> MAX_FRAME_BYTES \<Longrightarrow> step f b = (b', None) \<Longrightarrow> I b'"
    and step_ends:
      "\<And>f b b' r. I b \<Longrightarrow> length (fr_payload f) \<le> MAX_FRAME_BYTES \<Longrightarrow> step f b = (b', Some r) \<Longrightarrow> Q r"
    and failed_ends: "\<And>e b. I b \<Longrightarrow> Q (failed e b)"
    and start: "I b"
  shows "Q (loop stream b)"
  using start
proof (induction "length stream" arbitrary: stream b rule: less_induct)
  case less
  show ?case
  proof (cases "read_frame stream")
    case (Inl e)
    with less.prems failed_ends show ?thesis by (subst loop_unfold) simp
  next
    case (Inr fr)
    obtain f rest where fr: "fr = (f, rest)" by (cases fr)
    obtain b' r where st: "step f b = (b', r)" by (cases "step f b")
    have short: "length (fr_payload f) \<le> MAX_FRAME_BYTES" using Inr fr by (simp add: read_frame_iff)
    show ?thesis
    proof (cases r)
      case None
      with less.hyps [of rest b'] read_frame_shorter [of stream f rest] step_keeps [OF less.prems short] Inr fr st
      show ?thesis by (subst loop_unfold) simp
    next
      case (Some x)
      with step_ends [OF less.prems short] Inr fr st show ?thesis by (subst loop_unfold) simp
    qed
  qed
qed

end


section \<open>Properties\<close>

text \<open>
  Whatever \<open>write_frame\<close> reports as written is read back by \<open>read_frame\<close> as the very same
  frame, and the reader stops exactly at the end of that frame, whatever follows.
\<close>

lemma frame_round_trip:
  assumes "write_frame w f = (w', Inr ())"
  shows "\<exists>sent. w_out w' = w_out w @ sent \<and> (\<forall>rest. read_frame (sent @ rest) = Inr (f, rest))"
  using write_frame_ok [OF assms] by (simp add: read_frame_iff)

text \<open>
  When the connection breaks while a frame is written, the peer has received a part of
  that frame from which \<open>read_frame\<close> reports the end of the stream, never a frame.
\<close>

lemma broken_frame_not_delivered:
  assumes "write_frame w f = (w', Inl (Io e))"
  shows "\<exists>sent. w_out w' = w_out w @ sent \<and> read_frame sent = Inl (Io UnexpectedEof)"
proof -
  from write_frame_broken [OF assms] obtain n where
    n: "n < length (frame_bytes f)" "w_out w' = w_out w @ take n (frame_bytes f)" by blast
  moreover have "length (fr_payload f) \<le> MAX_FRAME_BYTES"
    using assms by (auto simp: write_frame_def Let_def split: if_splits)
  ultimately show ?thesis using read_frame_cut by blast
qed

text \<open>
  C1: a frame accepted by \<open>read_frame\<close> consumed exactly its own bytes of the stream and its
  payload is within the limit of 8 MiB, whatever length the peer announced.
\<close>

theorem read_frame_bounded:
  assumes "read_frame s = Inr (f, rest)"
  shows "length (fr_payload f) \<le> 8 * 1024 * 1024 \<and> length s = 5 + length (fr_payload f) + length rest
    \<and> s ! 0 = frame_kind_byte (fr_kind f)"
  using assms by (auto simp: read_frame_iff MAX_FRAME_BYTES_def frame_bytes_def)

theorem read_frame_bounded_witness:
  "length (fr_payload (frame_new Ping [7])) \<le> 8 * 1024 * 1024
     \<and> length (frame_bytes (frame_new Ping [7]) @ [1, 2]) = 5 + length (fr_payload (frame_new Ping [7])) + length [1::u8, 2]
     \<and> (frame_bytes (frame_new Ping [7]) @ [1, 2]) ! 0 = frame_kind_byte (fr_kind (frame_new Ping [7]))"
  by (rule read_frame_bounded) (simp add: read_frame_iff MAX_FRAME_BYTES_def frame_new_def)

end
