(* ===== verification/Accounts.thy ===== *)
theory Accounts
  imports Framing
begin

text \<open>
  Windows accounts on the wire: \<open>role.rs\<close> and \<open>user.rs\<close> of \<open>lsw-protocol\<close>.  User names and
  passwords are validated on both sides; the two request types are instances of the message
  contract of \<open>Codec\<close>.
\<close>

section \<open>Roles and user names\<close>

datatype WindowsUserRole = Standard | Administrator

primrec role_display :: "WindowsUserRole \<Rightarrow> string" where
  "role_display Standard = ''standard''"
| "role_display Administrator = ''administrator''"

definition role_from_str :: "string \<Rightarrow> ProtocolError + WindowsUserRole" where
  "role_from_str s =
     (if s = ''standard'' then Inr Standard
      else if s = ''administrator'' then Inr Administrator
      else Inl (Protocol [Text ''unknown Windows user role '', Dbg s,
                          Text ''; expected standard or administrator'']))"

text \<open>The quotation mark and the separators of account names, as scalar values.\<close>

definition FORBIDDEN :: "nat list" where
  "FORBIDDEN = 34 # map char_code [CHR ''/'', CHR 0x5C, CHR ''['', CHR '']'', CHR '':'', CHR '';'',
     CHR ''|'', CHR ''='', CHR '','', CHR ''+'', CHR ''*'', CHR ''?'', CHR ''<'', CHR ''>'', CHR ''@'']"

definition windows_user_name_ok :: "string \<Rightarrow> bool" where
  "windows_user_name_ok name \<longleftrightarrow>
     name \<noteq> [] \<and> utf16_len name \<le> 20 \<and> name \<noteq> ''.'' \<and> name \<noteq> ''..''
     \<and> \<not> ends_with_char name [CHR '' '', CHR ''.'']
     \<and> \<not> list_ex (\<lambda>c. char_is_control c \<or> c \<in> set FORBIDDEN) (str_chars name)"

definition validate_windows_user_name :: "string \<Rightarrow> ProtocolError + unit" where
  "validate_windows_user_name name =
     (if windows_user_name_ok name then Inr ()
      else Inl (Protocol [Text ''Windows user name must be 1-20 UTF-16 code units and contain no account-name separators or trailing space/dot'']))"


section \<open>Creating a user\<close>

record UserCreateRequest =
  uc_user_name :: string
  uc_password :: bytes
  uc_administrator :: bool

text \<open>\<open>Drop\<close>: the password is overwritten before its memory is released.\<close>

definition user_create_drop :: "UserCreateRequest \<Rightarrow> UserCreateRequest" where
  "user_create_drop r = r\<lparr>uc_password := replicate (length (uc_password r)) 0\<rparr>"

definition validate_password :: "bytes \<Rightarrow> ProtocolError + unit" where
  "validate_password password =
     (if password = [] then Inl (Protocol [Text ''password must not be empty''])
      else if length password > 1024
      then Inl (Protocol [Text ''password exceeds the 1024 byte protocol limit''])
      else and_then (ok_or (from_utf8 password) (Protocol [Text ''password must be valid UTF-8'']))
        (\<lambda>s. if CHR 0x00 \<in> set s \<or> utf16_len s > 256
             then Inl (Protocol [Text ''password must contain at most 256 UTF-16 code units and no NUL''])
             else Inr ()))"

definition u8_of_bool :: "bool \<Rightarrow> u8" where
  "u8_of_bool b = (if b then 1 else 0)"

definition user_create_encode :: "UserCreateRequest \<Rightarrow> ProtocolError + bytes" where
  "user_create_encode r =
     and_then (validate_windows_user_name (uc_user_name r)) (\<lambda>_.
     and_then (validate_password (uc_password r)) (\<lambda>_.
     and_then (push_string [] (uc_user_name r)) (\<lambda>payload.
     if 2 ^ 32 \<le> length (uc_password r) then Inl (Protocol [Text ''password is too long''])
     else Inr (payload @ be_bytes (word_of_nat (length (uc_password r)) :: u32)
                 @ uc_password r @ [u8_of_bool (uc_administrator r)]))))"

definition user_create_decode :: "bytes \<Rightarrow> ProtocolError + UserCreateRequest" where
  "user_create_decode payload =
     and_then (dec_run (
       dec_bind dec_string (\<lambda>user_name.
       dec_bind dec_u32 (\<lambda>n.
       if unat n > 1024
       then dec_lift (Inl (Protocol [Text ''password exceeds the 1024 byte protocol limit'']))
       else dec_bind (dec_take (unat n)) (\<lambda>password.
       dec_bind dec_u8 (\<lambda>flag.
       dec_bind (dec_lift (if flag = 0 then Inr False else if flag = 1 then Inr True
                 else Inl (Protocol [Text ''administrator flag must be zero or one'']))) (\<lambda>administrator.
       dec_bind dec_finish (\<lambda>_.
       dec_return \<lparr>uc_user_name = user_name, uc_password = password,
                   uc_administrator = administrator\<rparr>))))))) payload) (\<lambda>request.
     and_then (validate_windows_user_name (uc_user_name request)) (\<lambda>_.
     and_then (validate_password (uc_password request)) (\<lambda>_.
     Inr request)))"


section \<open>Changing a role\<close>

record UserSetRoleRequest =
  usr_user_name :: string
  usr_role :: WindowsUserRole

primrec role_byte :: "WindowsUserRole \<Rightarrow> u8" where
  "role_byte Standard = 0"
| "role_byte Administrator = 1"

definition user_set_role_encode :: "UserSetRoleRequest \<Rightarrow> ProtocolError + bytes" where
  "user_set_role_encode r =
     and_then (validate_windows_user_name (usr_user_name r)) (\<lambda>_.
     and_then (push_string [] (usr_user_name r)) (\<lambda>payload.
     Inr (payload @ [role_byte (usr_role r)])))"

definition user_set_role_decode :: "bytes \<Rightarrow> ProtocolError + UserSetRoleRequest" where
  "user_set_role_decode payload =
     and_then (dec_run (
       dec_bind dec_string (\<lambda>user_name.
       dec_bind dec_u8 (\<lambda>flag.
       dec_bind (dec_lift (if flag = 0 then Inr Standard else if flag = 1 then Inr Administrator
                 else Inl (Protocol [Text ''Windows user role must be zero or one'']))) (\<lambda>role.
       dec_bind dec_finish (\<lambda>_.
       dec_return \<lparr>usr_user_name = user_name, usr_role = role\<rparr>))))) payload) (\<lambda>request.
     and_then (validate_windows_user_name (usr_user_name request)) (\<lambda>_.
     Inr request))"


section \<open>Lemmas\<close>

lemma u8_of_bool_simps [simp]: "u8_of_bool False = 0" "u8_of_bool True = 1"
  by (simp_all add: u8_of_bool_def)

lemma u8_of_bool_eq [simp]:
  "u8_of_bool b = 1 \<longleftrightarrow> b" "u8_of_bool b = 0 \<longleftrightarrow> \<not> b" "u8_of_bool b = u8_of_bool c \<longleftrightarrow> b = c"
  by (auto simp: u8_of_bool_def)

lemma bool_byte_iff: "(if (f::u8) = 0 then Inr False else if f = 1 then Inr True else Inl e) = Inr b
    \<longleftrightarrow> f = u8_of_bool b"
  by (auto simp: u8_of_bool_def)

lemma role_byte_iff: "(if (f::u8) = 0 then Inr Standard else if f = 1 then Inr Administrator else Inl e)
    = Inr r \<longleftrightarrow> f = role_byte r"
  by (cases r) auto

lemma validate_windows_user_name_ok [ok_iff]:
  "validate_windows_user_name n = Inr u \<longleftrightarrow> windows_user_name_ok n"
  by (simp add: validate_windows_user_name_def)

lemma validate_password_length: "validate_password p = Inr u \<Longrightarrow> p \<noteq> [] \<and> length p \<le> 1024"
  by (auto simp: validate_password_def split: if_splits)

lemma u32_of_password: "n \<le> 1024 \<Longrightarrow> unat (word_of_nat n :: u32) = n"
  by (rule unat_word_of_nat_less) simp

text \<open>What a well-formed request is: the strings are Rust strings.\<close>

definition user_create_wf :: "UserCreateRequest \<Rightarrow> bool" where
  "user_create_wf r \<longleftrightarrow> utf8_valid (uc_user_name r)"

definition user_set_role_wf :: "UserSetRoleRequest \<Rightarrow> bool" where
  "user_set_role_wf r \<longleftrightarrow> utf8_valid (usr_user_name r)"

lemma user_create_decode_iff:
  "user_create_decode p = Inr r \<longleftrightarrow> user_create_wf r \<and> user_create_encode r = Inr p"
proof
  assume "user_create_decode p = Inr r"
  then obtain n where *: "wire_string (uc_user_name r)" "length (uc_password r) = unat n"
    "unat n \<le> 1024" "windows_user_name_ok (uc_user_name r)" "validate_password (uc_password r) = Inr ()"
    "p = string_bytes (uc_user_name r) @ be_bytes (n :: u32) @ uc_password r
         @ [u8_of_bool (uc_administrator r)]"
    by (auto simp: user_create_decode_def dec_iff ok_iff bool_byte_iff not_less)
  then show "user_create_wf r \<and> user_create_encode r = Inr p"
    by (auto simp: user_create_wf_def user_create_encode_def wire_string_def ok_iff)
next
  assume r: "user_create_wf r \<and> user_create_encode r = Inr p"
  then have pw: "validate_password (uc_password r) = Inr ()" "length (uc_password r) \<le> 1024"
    and name: "windows_user_name_ok (uc_user_name r)" "wire_string (uc_user_name r)"
    and p: "p = string_bytes (uc_user_name r) @ be_bytes (word_of_nat (length (uc_password r)) :: u32)
        @ uc_password r @ [u8_of_bool (uc_administrator r)]"
    by (auto simp: user_create_wf_def user_create_encode_def wire_string_def ok_iff
        dest: validate_password_length)
  then show "user_create_decode p = Inr r"
    by (cases "uc_administrator r")
      (simp_all add: user_create_decode_def validate_windows_user_name_def dec_forward u32_of_password)
qed

interpretation user_create: framed_codec user_create_wf user_create_encode user_create_decode UserCreate
  by unfold_locales (simp_all add: user_create_decode_iff)

lemma user_set_role_decode_iff:
  "user_set_role_decode p = Inr r \<longleftrightarrow> user_set_role_wf r \<and> user_set_role_encode r = Inr p"
  by (cases r)
    (auto simp: user_set_role_decode_def user_set_role_encode_def user_set_role_wf_def
      wire_string_def ok_iff dec_iff role_byte_iff)

interpretation user_set_role: framed_codec user_set_role_wf user_set_role_encode user_set_role_decode UserSetRole
  by unfold_locales (simp_all add: user_set_role_decode_iff)


section \<open>Properties\<close>

text \<open>
  An account-creation request that the host encodes and frames reaches the agent
  unchanged: the frame is read back from the stream and its payload decodes to the same user
  name, password and administrator flag.
\<close>

theorem user_create_delivered:
  assumes "utf8_valid (uc_user_name r)" and "user_create_encode r = Inr p"
    and "write_frame w (frame_new UserCreate p) = (w', Inr ())"
  shows "\<exists>sent. w_out w' = w_out w @ sent
    \<and> (\<forall>rest. read_frame (sent @ rest) = Inr (frame_new UserCreate p, rest))
    \<and> user_create_decode p = Inr r"
  using assms by (intro user_create.delivered) (simp add: user_create_wf_def)

text \<open>
  Whatever bytes arrive, an accepted account-creation request names a user that satisfies
  the Windows rules and carries a password that is non-empty, at most 1024 bytes of UTF-8, at
  most 256 UTF-16 units and free of NUL; and there is only one payload that yields it.
\<close>

theorem user_create_accepts_only_valid:
  assumes "user_create_decode p = Inr r"
  shows "windows_user_name_ok (uc_user_name r)
    \<and> (\<exists>s. from_utf8 (uc_password r) = Some s \<and> s \<noteq> [] \<and> length s \<le> 1024
           \<and> CHR 0x00 \<notin> set s \<and> utf16_len s \<le> 256)
    \<and> (\<forall>q. user_create_decode q = Inr r \<longrightarrow> q = p)"
proof -
  from user_create.canonical [OF assms] have "windows_user_name_ok (uc_user_name r)"
    and "validate_password (uc_password r) = Inr ()"
    by (auto simp: user_create_encode_def ok_iff)
  then show ?thesis
    using user_create.dec_inj [OF assms]
    by (auto simp: validate_password_def ok_iff from_utf8_Some not_less split: if_splits)
qed

text \<open>Printing a role and parsing it back yields the role, and every other string is refused.\<close>

lemma role_round_trip: "role_from_str s = Inr r \<longleftrightarrow> s = role_display r"
  by (cases r) (auto simp: role_from_str_def)

end
