(* ===== verification/Session.thy ===== *)
theory Session
  imports Accounts
begin

text \<open>
  The session messages of \<open>session.rs\<close> of \<open>lsw-protocol\<close>: the handshake, the start of
  processes and terminals, their environment, signals and options.  Rust's \<open>to_uppercase\<close>
  folds names by the Unicode tables of its release; it is the parameter \<open>uc\<close>, and every
  theorem holds for any such function.
\<close>

section \<open>The handshake\<close>

record ClientHello =
  ch_version :: u16
  ch_token :: string

definition client_hello_encode :: "ClientHello \<Rightarrow> ProtocolError + bytes" where
  "client_hello_encode h = push_string (be_bytes (ch_version h)) (ch_token h)"

definition client_hello_decode :: "bytes \<Rightarrow> ProtocolError + ClientHello" where
  "client_hello_decode =
     dec_run (
       dec_bind dec_u16 (\<lambda>version.
       dec_bind dec_string (\<lambda>token.
       dec_bind dec_finish (\<lambda>_.
       dec_return \<lparr>ch_version = version, ch_token = token\<rparr>))))"

record ServerHello =
  sh_version :: u16
  sh_capabilities :: "string list"

definition server_hello_encode :: "ServerHello \<Rightarrow> ProtocolError + bytes" where
  "server_hello_encode h = push_strings (be_bytes (sh_version h)) (sh_capabilities h)"

definition server_hello_decode :: "bytes \<Rightarrow> ProtocolError + ServerHello" where
  "server_hello_decode =
     dec_run (
       dec_bind dec_u16 (\<lambda>version.
       dec_bind dec_strings (\<lambda>capabilities.
       dec_bind dec_finish (\<lambda>_.
       dec_return \<lparr>sh_version = version, sh_capabilities = capabilities\<rparr>))))"


section \<open>Starting a process\<close>

datatype SessionKind = Shell | Exec | Run

primrec session_kind_encode :: "SessionKind \<Rightarrow> u8" where
  "session_kind_encode Shell = 1"
| "session_kind_encode Exec = 2"
| "session_kind_encode Run = 3"

definition session_kind_decode :: "u8 \<Rightarrow> ProtocolError + SessionKind" where
  "session_kind_decode b =
     (if b = 1 then Inr Shell
      else if b = 2 then Inr Exec
      else if b = 3 then Inr Run
      else Inl (Protocol [Text ''unknown session kind '', Num (unat b)]))"

record StartRequest =
  sr_kind :: SessionKind
  sr_argv :: "string list"
  sr_working_directory :: "string option"

definition start_encode :: "StartRequest \<Rightarrow> ProtocolError + bytes" where
  "start_encode r =
     and_then (case sr_working_directory r of
                 Some directory \<Rightarrow> push_string [session_kind_encode (sr_kind r), 1] directory
               | None \<Rightarrow> Inr [session_kind_encode (sr_kind r), 0]) (\<lambda>payload.
     push_strings payload (sr_argv r))"

definition start_decode :: "bytes \<Rightarrow> ProtocolError + StartRequest" where
  "start_decode =
     dec_run (
       dec_bind dec_u8 (\<lambda>k.
       dec_bind (dec_lift (session_kind_decode k)) (\<lambda>kind.
       dec_bind dec_u8 (\<lambda>flag.
       dec_bind (if flag = 0 then dec_return None
                 else if flag = 1 then dec_bind dec_string (\<lambda>d. dec_return (Some d))
                 else dec_lift (Inl (Protocol
                        [Text ''invalid working-directory flag '', Num (unat flag)]))) (\<lambda>working_directory.
       dec_bind dec_strings (\<lambda>argv.
       dec_bind dec_finish (\<lambda>_.
       if argv = []
       then dec_lift (Inl (Protocol [Text ''a start request needs at least one command'']))
       else dec_return \<lparr>sr_kind = kind, sr_argv = argv,
                        sr_working_directory = working_directory\<rparr>)))))))"


section \<open>The environment of a process\<close>

record ProcessEnvironment =
  pe_variables :: "(string \<times> string) list"

fun validate_environment_loop ::
  "(string \<Rightarrow> string) \<Rightarrow> string set \<Rightarrow> (string \<times> string) list \<Rightarrow> ProtocolError + unit" where
  "validate_environment_loop uc names [] = Inr ()"
| "validate_environment_loop uc names ((name, v) # rest) =
     (if name = [] \<or> CHR ''='' \<in> set name \<or> CHR 0x00 \<in> set name
      then Inl (Protocol [Text ''environment variable names must be non-empty and contain neither '=' nor NUL''])
      else if CHR 0x00 \<in> set v
      then Inl (Protocol [Text ''environment variable values must not contain NUL''])
      else if uc name \<in> names
      then Inl (Protocol [Text ''environment variable '', Dbg name, Text '' was supplied more than once''])
      else validate_environment_loop uc (insert (uc name) names) rest)"

definition validate_environment ::
  "(string \<Rightarrow> string) \<Rightarrow> (string \<times> string) list \<Rightarrow> ProtocolError + unit" where
  "validate_environment uc variables =
     (if length variables > MAX_ARGUMENTS div 2
      then Inl (Protocol [Text ''more than '', Num (MAX_ARGUMENTS div 2), Text '' environment variables''])
      else validate_environment_loop uc {} variables)"

definition process_environment_new ::
  "(string \<Rightarrow> string) \<Rightarrow> (string \<times> string) list \<Rightarrow> ProtocolError + ProcessEnvironment" where
  "process_environment_new uc variables =
     and_then (validate_environment uc variables) (\<lambda>_. Inr \<lparr>pe_variables = variables\<rparr>)"

definition process_environment_is_empty :: "ProcessEnvironment \<Rightarrow> bool" where
  "process_environment_is_empty e \<longleftrightarrow> pe_variables e = []"

fun flatten_pairs :: "('a \<times> 'a) list \<Rightarrow> 'a list" where
  "flatten_pairs [] = []"
| "flatten_pairs ((a, b) # r) = a # b # flatten_pairs r"

text \<open>\<open>chunks_exact(2)\<close>.\<close>

fun pairs_of :: "'a list \<Rightarrow> ('a \<times> 'a) list" where
  "pairs_of (a # b # r) = (a, b) # pairs_of r"
| "pairs_of _ = []"

definition process_environment_encode ::
  "(string \<Rightarrow> string) \<Rightarrow> ProcessEnvironment \<Rightarrow> ProtocolError + bytes" where
  "process_environment_encode uc e =
     and_then (validate_environment uc (pe_variables e)) (\<lambda>_.
     push_strings [] (flatten_pairs (pe_variables e)))"

definition process_environment_decode ::
  "(string \<Rightarrow> string) \<Rightarrow> bytes \<Rightarrow> ProtocolError + ProcessEnvironment" where
  "process_environment_decode uc payload =
     and_then (dec_run (
       dec_bind dec_strings (\<lambda>flattened.
       dec_bind dec_finish (\<lambda>_.
       if length flattened mod 2 \<noteq> 0
       then dec_lift (Inl (Protocol [Text ''process environment must contain name/value pairs'']))
       else dec_return (pairs_of flattened)))) payload) (\<lambda>variables.
     process_environment_new uc variables)"


section \<open>Desktop requests\<close>

record DesktopUserRequest =
  du_user_name :: string

definition desktop_user_encode :: "DesktopUserRequest \<Rightarrow> ProtocolError + bytes" where
  "desktop_user_encode r =
     and_then (validate_windows_user_name (du_user_name r)) (\<lambda>_. push_string [] (du_user_name r))"

definition desktop_user_decode :: "bytes \<Rightarrow> ProtocolError + DesktopUserRequest" where
  "desktop_user_decode payload =
     and_then (dec_run (
       dec_bind dec_string (\<lambda>user_name.
       dec_bind dec_finish (\<lambda>_.
       dec_return user_name))) payload) (\<lambda>user_name.
     and_then (validate_windows_user_name user_name) (\<lambda>_.
     Inr \<lparr>du_user_name = user_name\<rparr>))"

record DesktopLiveShareRequest =
  dl_user_name :: string
  dl_enable :: bool

definition desktop_live_share_encode :: "DesktopLiveShareRequest \<Rightarrow> ProtocolError + bytes" where
  "desktop_live_share_encode r =
     and_then (validate_windows_user_name (dl_user_name r)) (\<lambda>_.
     and_then (push_string [] (dl_user_name r)) (\<lambda>payload.
     Inr (payload @ [u8_of_bool (dl_enable r)])))"

definition desktop_live_share_decode :: "bytes \<Rightarrow> ProtocolError + DesktopLiveShareRequest" where
  "desktop_live_share_decode payload =
     and_then (dec_run (
       dec_bind dec_string (\<lambda>user_name.
       dec_bind dec_u8 (\<lambda>flag.
       dec_bind (dec_lift (if flag = 0 then Inr False else if flag = 1 then Inr True
                 else Inl (Protocol [Text ''desktop live-share flag must be zero or one'']))) (\<lambda>enable.
       dec_bind dec_finish (\<lambda>_.
       dec_return \<lparr>dl_user_name = user_name, dl_enable = enable\<rparr>))))) payload) (\<lambda>request.
     and_then (validate_windows_user_name (dl_user_name request)) (\<lambda>_.
     Inr request))"


section \<open>Signals, process identifiers and options\<close>

datatype SessionSignal = Interrupt | Terminate

primrec session_signal_exit_code :: "SessionSignal \<Rightarrow> i32" where
  "session_signal_exit_code Interrupt = 130"
| "session_signal_exit_code Terminate = 143"

primrec session_signal_encode :: "SessionSignal \<Rightarrow> bytes" where
  "session_signal_encode Interrupt = [1]"
| "session_signal_encode Terminate = [2]"

definition session_signal_decode :: "bytes \<Rightarrow> ProtocolError + SessionSignal" where
  "session_signal_decode payload =
     (case payload of
        [b] \<Rightarrow> if b = 1 then Inr Interrupt
               else if b = 2 then Inr Terminate
               else Inl (Protocol [Text ''unknown session signal '', Num (unat b)])
      | _ \<Rightarrow> Inl (Protocol [Text ''session signal payload must contain one byte'']))"

definition encode_process_id :: "u32 \<Rightarrow> bytes" where
  "encode_process_id process_id = be_bytes process_id"

definition decode_process_id :: "bytes \<Rightarrow> ProtocolError + u32" where
  "decode_process_id payload =
     (if length payload \<noteq> 4 then Inl (Protocol [Text ''process ID must contain four bytes''])
      else Inr (of_be_bytes payload))"

record SessionOptions =
  so_cancel_on_disconnect :: bool

definition CANCEL_ON_DISCONNECT :: u8 where
  "CANCEL_ON_DISCONNECT = 1"

definition session_options_encode :: "SessionOptions \<Rightarrow> bytes" where
  "session_options_encode o' = [if so_cancel_on_disconnect o' then CANCEL_ON_DISCONNECT else 0]"

definition session_options_decode :: "bytes \<Rightarrow> ProtocolError + SessionOptions" where
  "session_options_decode payload =
     (case payload of
        [flags] \<Rightarrow>
          if flags AND NOT CANCEL_ON_DISCONNECT \<noteq> 0
          then Inl (Protocol [Text ''session options contain unknown flags 0x'', Hex 2 (unat flags)])
          else Inr \<lparr>so_cancel_on_disconnect = (flags AND CANCEL_ON_DISCONNECT \<noteq> 0)\<rparr>
      | _ \<Rightarrow> Inl (Protocol [Text ''session options payload must contain one byte'']))"


section \<open>Terminals\<close>

definition encode_exit :: "i32 \<Rightarrow> bytes" where
  "encode_exit code = be_bytes code"

definition decode_exit :: "bytes \<Rightarrow> ProtocolError + i32" where
  "decode_exit payload =
     (if length payload \<noteq> 4 then Inl (Protocol [Text ''exit payload must contain four bytes''])
      else Inr (of_be_bytes payload))"

definition encode_resize :: "u16 \<Rightarrow> u16 \<Rightarrow> bytes" where
  "encode_resize rows columns = be_bytes rows @ be_bytes columns"

definition decode_resize :: "bytes \<Rightarrow> ProtocolError + (u16 \<times> u16)" where
  "decode_resize payload =
     (if length payload \<noteq> 4 then Inl (Protocol [Text ''resize payload must contain four bytes''])
      else Inr (of_be_bytes (take 2 payload), of_be_bytes (drop 2 payload)))"

record TerminalSize =
  ts_rows :: u16
  ts_columns :: u16

definition terminal_size_default :: TerminalSize where
  "terminal_size_default = \<lparr>ts_rows = 24, ts_columns = 80\<rparr>"

definition terminal_size_new :: "u16 \<Rightarrow> u16 \<Rightarrow> ProtocolError + TerminalSize" where
  "terminal_size_new rows columns =
     (if rows = 0 \<or> columns = 0 then Inl (Protocol [Text ''terminal dimensions must be non-zero''])
      else if rows > MAX_TERMINAL_DIMENSION \<or> columns > MAX_TERMINAL_DIMENSION
      then Inl (Protocol [Text ''terminal dimensions must not exceed '', Num (unat MAX_TERMINAL_DIMENSION)])
      else Inr \<lparr>ts_rows = rows, ts_columns = columns\<rparr>)"

definition terminal_size_encode :: "TerminalSize \<Rightarrow> bytes" where
  "terminal_size_encode s = encode_resize (ts_rows s) (ts_columns s)"

definition terminal_size_decode :: "bytes \<Rightarrow> ProtocolError + TerminalSize" where
  "terminal_size_decode payload =
     and_then (decode_resize payload) (\<lambda>(rows, columns). terminal_size_new rows columns)"

record TerminalStartRequest =
  tr_size :: TerminalSize
  tr_request :: StartRequest

definition terminal_start_encode :: "TerminalStartRequest \<Rightarrow> ProtocolError + bytes" where
  "terminal_start_encode r =
     and_then (start_encode (tr_request r)) (\<lambda>request.
     Inr (terminal_size_encode (tr_size r) @ request))"

definition terminal_start_decode :: "bytes \<Rightarrow> ProtocolError + TerminalStartRequest" where
  "terminal_start_decode payload =
     (if length payload < 4 then Inl (Protocol [Text ''terminal start payload is truncated''])
      else and_then (terminal_size_decode (take 4 payload)) (\<lambda>size.
           and_then (start_decode (drop 4 payload)) (\<lambda>request.
           Inr \<lparr>tr_size = size, tr_request = request\<rparr>)))"


section \<open>Well-formed messages\<close>

definition client_hello_wf :: "ClientHello \<Rightarrow> bool" where
  "client_hello_wf h \<longleftrightarrow> utf8_valid (ch_token h)"

definition server_hello_wf :: "ServerHello \<Rightarrow> bool" where
  "server_hello_wf h \<longleftrightarrow> list_all utf8_valid (sh_capabilities h)"

definition start_wf :: "StartRequest \<Rightarrow> bool" where
  "start_wf r \<longleftrightarrow> list_all utf8_valid (sr_argv r) \<and> sr_argv r \<noteq> []
     \<and> pred_option utf8_valid (sr_working_directory r)"

definition process_environment_wf :: "ProcessEnvironment \<Rightarrow> bool" where
  "process_environment_wf e \<longleftrightarrow> list_all (\<lambda>(n, v). utf8_valid n \<and> utf8_valid v) (pe_variables e)"

definition terminal_size_wf :: "TerminalSize \<Rightarrow> bool" where
  "terminal_size_wf s \<longleftrightarrow> ts_rows s \<noteq> 0 \<and> ts_columns s \<noteq> 0
     \<and> ts_rows s \<le> MAX_TERMINAL_DIMENSION \<and> ts_columns s \<le> MAX_TERMINAL_DIMENSION"

definition terminal_start_wf :: "TerminalStartRequest \<Rightarrow> bool" where
  "terminal_start_wf r \<longleftrightarrow> terminal_size_wf (tr_size r) \<and> start_wf (tr_request r)"


section \<open>Lemmas\<close>

lemma client_hello_iff: "client_hello_decode p = Inr h \<longleftrightarrow> client_hello_wf h \<and> client_hello_encode h = Inr p"
  by (cases h) (auto simp: client_hello_decode_def client_hello_encode_def client_hello_wf_def codec_iff)

lemma server_hello_iff: "server_hello_decode p = Inr h \<longleftrightarrow> server_hello_wf h \<and> server_hello_encode h = Inr p"
  by (cases h) (auto simp: server_hello_decode_def server_hello_encode_def server_hello_wf_def codec_iff)

lemma session_kind_decode_ok [ok_iff]: "session_kind_decode b = Inr k \<longleftrightarrow> b = session_kind_encode k"
  by (cases k) (auto simp: session_kind_decode_def)

lemma start_iff: "start_decode p = Inr r \<longleftrightarrow> start_wf r \<and> start_encode r = Inr p"
proof
  assume "start_decode p = Inr r"
  then show "start_wf r \<and> start_encode r = Inr p"
    by (auto simp: start_decode_def start_encode_def start_wf_def session_kind_decode_ok codec_iff
        split: if_splits)
next
  assume r: "start_wf r \<and> start_encode r = Inr p"
  then have argv: "wire_strings (sr_argv r)" "sr_argv r \<noteq> []"
    by (auto simp: start_wf_def start_encode_def codec_iff)
  show "start_decode p = Inr r"
  proof (cases "sr_working_directory r")
    case None
    with r have "p = session_kind_encode (sr_kind r) # 0 # strings_bytes (sr_argv r)"
      by (auto simp: start_encode_def ok_iff)
    with None argv show ?thesis
      by (simp add: start_decode_def dec_forward session_kind_decode_ok [THEN iffD2])
  next
    case (Some d)
    with r have "p = session_kind_encode (sr_kind r) # 1 # string_bytes d @ strings_bytes (sr_argv r)"
      and "wire_string d"
      by (auto simp: start_encode_def start_wf_def codec_iff)
    with Some argv show ?thesis
      by (simp add: start_decode_def dec_forward session_kind_decode_ok [THEN iffD2])
  qed
qed

lemma length_flatten_pairs [simp]: "length (flatten_pairs ps) = 2 * length ps"
  by (induction ps rule: flatten_pairs.induct) auto

lemma pairs_of_flatten [simp]: "pairs_of (flatten_pairs ps) = ps"
  by (induction ps rule: flatten_pairs.induct) auto

lemma flatten_pairs_of: "length xs mod 2 = 0 \<Longrightarrow> flatten_pairs (pairs_of xs) = xs"
  by (induction xs rule: pairs_of.induct) auto

lemma flatten_pairs_utf8:
  "list_all utf8_valid (flatten_pairs ps) \<longleftrightarrow> list_all (\<lambda>(n, v). utf8_valid n \<and> utf8_valid v) ps"
  by (induction ps rule: flatten_pairs.induct) auto

lemma process_environment_iff:
  "process_environment_decode uc p = Inr e \<longleftrightarrow>
     process_environment_wf e \<and> process_environment_encode uc e = Inr p"
proof
  assume "process_environment_decode uc p = Inr e"
  then obtain ss where "wire_strings ss" "p = strings_bytes ss" "length ss mod 2 = 0"
    "validate_environment uc (pairs_of ss) = Inr ()" "e = \<lparr>pe_variables = pairs_of ss\<rparr>"
    by (auto simp: process_environment_decode_def process_environment_new_def dec_iff ok_iff
        split: if_splits)
  then show "process_environment_wf e \<and> process_environment_encode uc e = Inr p"
    by (auto simp: process_environment_wf_def process_environment_encode_def wire_strings_lengths
        flatten_pairs_of ok_iff flatten_pairs_utf8 [symmetric])
next
  assume "process_environment_wf e \<and> process_environment_encode uc e = Inr p"
  then have "validate_environment uc (pe_variables e) = Inr ()"
    "wire_strings (flatten_pairs (pe_variables e))" "p = strings_bytes (flatten_pairs (pe_variables e))"
    by (auto simp: process_environment_wf_def process_environment_encode_def wire_strings_lengths
        ok_iff flatten_pairs_utf8)
  then show "process_environment_decode uc p = Inr e"
    by (simp add: process_environment_decode_def process_environment_new_def dec_forward)
qed

lemma desktop_user_iff:
  "desktop_user_decode p = Inr r \<longleftrightarrow> utf8_valid (du_user_name r) \<and> desktop_user_encode r = Inr p"
  by (cases r) (auto simp: desktop_user_decode_def desktop_user_encode_def codec_iff)

lemma desktop_live_share_iff:
  "desktop_live_share_decode p = Inr r \<longleftrightarrow>
     utf8_valid (dl_user_name r) \<and> desktop_live_share_encode r = Inr p"
  by (cases r)
    (auto simp: desktop_live_share_decode_def desktop_live_share_encode_def bool_byte_iff codec_iff)

lemma session_signal_iff: "session_signal_decode p = Inr s \<longleftrightarrow> p = session_signal_encode s"
  by (cases s) (auto simp: session_signal_decode_def split: list.splits)

lemma byte_low_bit_only:
  assumes "(b :: u8) AND - 2 = 0"
  shows "b = 0 \<or> b = 1"
proof -
  have "b = (b AND 1) OR (b AND NOT 1)"
    by (simp only: bit_eq_iff bit_simps) blast
  with assms have "b = b AND 1" by simp
  then have "b = of_bool (odd b)" by (simp only: and_one_eq mod_2_eq_odd)
  then show ?thesis by (metis of_bool_eq(1,2))
qed

lemma session_options_iff: "session_options_decode p = Inr s \<longleftrightarrow> p = session_options_encode s"
  by (cases s)
    (auto simp: session_options_decode_def session_options_encode_def CANCEL_ON_DISCONNECT_def
      split: list.splits if_splits dest: byte_low_bit_only)

lemma decode_resize_iff: "decode_resize p = Inr (r, c) \<longleftrightarrow> p = encode_resize r c"
  by (auto simp: decode_resize_def encode_resize_def)

lemma terminal_size_new_ok [ok_iff]:
  "terminal_size_new r c = Inr s \<longleftrightarrow> s = \<lparr>ts_rows = r, ts_columns = c\<rparr> \<and> terminal_size_wf s"
  by (auto simp: terminal_size_new_def terminal_size_wf_def not_less)

lemma terminal_size_iff: "terminal_size_decode p = Inr s \<longleftrightarrow> terminal_size_wf s \<and> terminal_size_encode s = p"
  by (cases s) (auto simp: terminal_size_decode_def terminal_size_encode_def ok_iff decode_resize_iff)

lemma length_terminal_size_encode [simp]: "length (terminal_size_encode s) = 4"
  by (simp add: terminal_size_encode_def encode_resize_def)

lemma terminal_start_iff:
  "terminal_start_decode p = Inr r \<longleftrightarrow> terminal_start_wf r \<and> terminal_start_encode r = Inr p"
proof
  assume "terminal_start_decode p = Inr r"
  then show "terminal_start_wf r \<and> terminal_start_encode r = Inr p"
    by (auto simp: terminal_start_decode_def terminal_start_encode_def terminal_start_wf_def ok_iff
        terminal_size_iff start_iff)
next
  assume "terminal_start_wf r \<and> terminal_start_encode r = Inr p"
  then obtain q where "start_encode (tr_request r) = Inr q" "p = terminal_size_encode (tr_size r) @ q"
    "terminal_size_wf (tr_size r)" "start_wf (tr_request r)"
    by (auto simp: terminal_start_encode_def terminal_start_wf_def ok_iff)
  then have "start_decode q = Inr (tr_request r)"
    "terminal_size_decode (terminal_size_encode (tr_size r)) = Inr (tr_size r)"
    by (simp_all add: start_iff terminal_size_iff)
  with \<open>p = _\<close> show "terminal_start_decode p = Inr r"
    by (simp add: terminal_start_decode_def)
qed

lemma exit_iff: "decode_exit p = Inr c \<longleftrightarrow> p = encode_exit c"
  by (auto simp: decode_exit_def encode_exit_def)

lemma process_id_iff: "decode_process_id p = Inr c \<longleftrightarrow> p = encode_process_id c"
  by (auto simp: decode_process_id_def encode_process_id_def)

text \<open>What the validation of an environment guarantees.\<close>

definition environment_ok :: "(string \<Rightarrow> string) \<Rightarrow> (string \<times> string) list \<Rightarrow> bool" where
  "environment_ok uc vs \<longleftrightarrow> length vs \<le> MAX_ARGUMENTS div 2
     \<and> list_all (\<lambda>(n, v). n \<noteq> [] \<and> CHR ''='' \<notin> set n \<and> CHR 0x00 \<notin> set n \<and> CHR 0x00 \<notin> set v) vs
     \<and> distinct (map (uc \<circ> fst) vs)"

lemma validate_environment_loop_ok:
  "validate_environment_loop uc names vs = Inr () \<longleftrightarrow>
     list_all (\<lambda>(n, v). n \<noteq> [] \<and> CHR ''='' \<notin> set n \<and> CHR 0x00 \<notin> set n \<and> CHR 0x00 \<notin> set v) vs
     \<and> distinct (map (uc \<circ> fst) vs) \<and> (uc \<circ> fst) ` set vs \<inter> names = {}"
  by (induction uc names vs rule: validate_environment_loop.induct) auto

lemma validate_environment_ok [ok_iff]:
  "validate_environment uc vs = Inr () \<longleftrightarrow> environment_ok uc vs"
  by (auto simp: validate_environment_def environment_ok_def validate_environment_loop_ok)


section \<open>The messages as framed codecs\<close>

interpretation client_hello: framed_codec client_hello_wf client_hello_encode client_hello_decode Hello
  by unfold_locales (simp_all add: client_hello_iff)

interpretation server_hello: framed_codec server_hello_wf server_hello_encode server_hello_decode HelloOk
  by unfold_locales (simp_all add: server_hello_iff)

interpretation start_request: framed_codec start_wf start_encode start_decode Start
  by unfold_locales (simp_all add: start_iff)

interpretation terminal_start: framed_codec terminal_start_wf terminal_start_encode terminal_start_decode
  TerminalStart
  by unfold_locales (simp_all add: terminal_start_iff)

interpretation process_environment: framed_codec process_environment_wf "process_environment_encode uc"
  "process_environment_decode uc" FrameKind.ProcessEnvironment for uc
  by unfold_locales (simp_all add: process_environment_iff)

interpretation desktop_user: framed_codec "\<lambda>r. utf8_valid (du_user_name r)" desktop_user_encode
  desktop_user_decode DesktopCompanionStart
  by unfold_locales (simp_all add: desktop_user_iff)

interpretation desktop_live_share: framed_codec "\<lambda>r. utf8_valid (dl_user_name r)"
  desktop_live_share_encode desktop_live_share_decode DesktopLiveShareConfigure
  by unfold_locales (simp_all add: desktop_live_share_iff)

interpretation session_signal: framed_codec "\<lambda>_. True" "\<lambda>s. Inr (session_signal_encode s)"
  session_signal_decode FrameKind.SessionSignal
  by unfold_locales (auto simp: session_signal_iff)

interpretation session_options: framed_codec "\<lambda>_. True" "\<lambda>s. Inr (session_options_encode s)"
  session_options_decode FrameKind.SessionOptions
  by unfold_locales (auto simp: session_options_iff)

interpretation exit_code: framed_codec "\<lambda>_. True" "\<lambda>c. Inr (encode_exit c)" decode_exit Exit
  by unfold_locales (auto simp: exit_iff)

interpretation process_id: framed_codec "\<lambda>_. True" "\<lambda>c. Inr (encode_process_id c)"
  decode_process_id Started
  by unfold_locales (auto simp: process_id_iff)

interpretation resize: framed_codec terminal_size_wf "\<lambda>s. Inr (terminal_size_encode s)"
  terminal_size_decode Resize
  by unfold_locales (auto simp: terminal_size_iff)


section \<open>Properties\<close>

text \<open>
  C2: a start request sent as one frame arrives unchanged: a valid request with at least one
  argument that the encoder accepts is, after \<open>write_frame\<close> and \<open>read_frame\<close>, decoded to
  the same kind, working directory and argument vector, and whatever follows on the stream
  is left alone.
\<close>

theorem start_request_delivered:
  assumes "start_wf r" and "start_encode r = Inr p"
    and "write_frame w (frame_new Start p) = (w', Inr ())"
  shows "\<exists>sent. w_out w' = w_out w @ sent
    \<and> (\<forall>rest. read_frame (sent @ rest) = Inr (frame_new Start p, rest)) \<and> start_decode p = Inr r"
  using assms by (rule start_request.delivered)

theorem start_request_delivered_witness:
  "\<exists>p sent. (\<forall>rest. read_frame (sent @ rest) = Inr (frame_new Start p, rest))
    \<and> start_decode p = Inr \<lparr>sr_kind = Exec, sr_argv = [''cmd'', ''/c''], sr_working_directory = Some ''C''\<rparr>"
proof -
  let ?r = "\<lparr>sr_kind = Exec, sr_argv = [''cmd'', ''/c''], sr_working_directory = Some ''C''\<rparr>"
  let ?p = "[2, 1, 0, 0, 0, 1, 67, 0, 2, 0, 0, 0, 3, 99, 109, 100, 0, 0, 0, 2, 47, 99] :: bytes"
  have 1: "start_wf ?r"
    by (simp only: start_wf_def option.pred_inject StartRequest.simps) code_simp
  have 2: "start_encode ?r = Inr ?p" by code_simp
  have 3: "write_frame \<lparr>w_out = [], w_budget = None\<rparr> (frame_new Start ?p)
    = (\<lparr>w_out = frame_bytes (frame_new Start ?p), w_budget = None\<rparr>, Inr ())" by code_simp
  from start_request_delivered [OF 1 2 3] show ?thesis by auto
qed

text \<open>
  The agent accepts a process environment exactly when its bytes are the encoding of a
  list of at most 512 pairs of valid strings whose names are non-empty, contain neither
  \<open>=\<close> nor NUL, whose values contain no NUL, and whose names stay distinct after upper-casing.
\<close>

lemma process_environment_accepted_iff:
  "process_environment_decode uc p = Inr e \<longleftrightarrow>
     p = strings_bytes (flatten_pairs (pe_variables e))
     \<and> wire_strings (flatten_pairs (pe_variables e)) \<and> environment_ok uc (pe_variables e)"
  by (auto simp: process_environment_iff process_environment_wf_def process_environment_encode_def
      flatten_pairs_utf8 [symmetric] ok_iff wire_strings_lengths)

text \<open>
  A terminal start is decoded from exactly the bytes of a size of 1 to 32767 rows and
  columns followed by a start request, so no terminal is created with an empty or oversized
  screen buffer, and encoding what was decoded gives the received bytes.
\<close>

lemma terminal_start_decoded:
  assumes "terminal_start_decode p = Inr r"
  shows "terminal_start_encode r = Inr p \<and> start_decode (drop 4 p) = Inr (tr_request r)
    \<and> 0 < ts_rows (tr_size r) \<and> ts_rows (tr_size r) \<le> MAX_TERMINAL_DIMENSION
    \<and> 0 < ts_columns (tr_size r) \<and> ts_columns (tr_size r) \<le> MAX_TERMINAL_DIMENSION"
proof -
  from assms have "start_decode (drop 4 p) = Inr (tr_request r)"
    by (auto simp: terminal_start_decode_def ok_iff split: if_splits)
  with terminal_start.canonical [OF assms] terminal_start.accepts_wf [OF assms] show ?thesis
    by (auto simp: terminal_start_wf_def terminal_size_wf_def word_neq_0_conv)
qed

end
