(* ===== verification/Session_Lease.thy ===== *)
theory Session_Lease
  imports Session
begin

text \<open>
  The heartbeat lease of a session: \<open>SessionLease\<close> and \<open>SessionLeaseState\<close> of
  \<open>session.rs\<close> (\<open>lsw-protocol\<close>), and the agent's \<open>SessionMode\<close> and
  \<open>SessionLeaseMonitor\<close> of \<open>server.rs\<close> (\<open>lsw-agent\<close>), which reads the lease against
  the process clock.  An \<open>Instant\<close> is a number of nanoseconds since an arbitrary origin.
\<close>

section \<open>The lease\<close>

record SessionLease =
  sl_timeout_millis :: u32

definition session_lease_new :: "u32 \<Rightarrow> ProtocolError + SessionLease" where
  "session_lease_new timeout_millis =
     (if \<not> (MIN_SESSION_LEASE_TIMEOUT_MILLIS \<le> timeout_millis
            \<and> timeout_millis \<le> MAX_SESSION_LEASE_TIMEOUT_MILLIS)
      then Inl (Protocol [Text ''session lease timeout must be between '',
        Num (unat MIN_SESSION_LEASE_TIMEOUT_MILLIS), Text '' and '',
        Num (unat MAX_SESSION_LEASE_TIMEOUT_MILLIS), Text '' milliseconds''])
      else Inr \<lparr>sl_timeout_millis = timeout_millis\<rparr>)"

definition session_lease_standard :: SessionLease where
  "session_lease_standard = \<lparr>sl_timeout_millis = DEFAULT_SESSION_LEASE_TIMEOUT_MILLIS\<rparr>"

text \<open>The interval is a \<open>Duration\<close> in milliseconds.\<close>

definition heartbeat_interval :: "SessionLease \<Rightarrow> u64" where
  "heartbeat_interval l = ucast (max (sl_timeout_millis l div 4) 1)"

definition session_lease_encode :: "SessionLease \<Rightarrow> bytes" where
  "session_lease_encode l = be_bytes (sl_timeout_millis l)"

definition session_lease_decode :: "bytes \<Rightarrow> ProtocolError + SessionLease" where
  "session_lease_decode payload =
     (if length payload \<noteq> 4
      then Inl (Protocol [Text ''session lease payload must contain four bytes''])
      else session_lease_new (of_be_bytes payload))"

definition session_lease_wf :: "SessionLease \<Rightarrow> bool" where
  "session_lease_wf l \<longleftrightarrow> MIN_SESSION_LEASE_TIMEOUT_MILLIS \<le> sl_timeout_millis l
     \<and> sl_timeout_millis l \<le> MAX_SESSION_LEASE_TIMEOUT_MILLIS"


section \<open>The state of a lease\<close>

record SessionLeaseState =
  ls_timeout_millis :: u64
  ls_deadline_millis :: u64

definition lease_state_new :: "SessionLease \<Rightarrow> u64 \<Rightarrow> SessionLeaseState" where
  "lease_state_new lease now_millis =
     (let timeout_millis = ucast (sl_timeout_millis lease)
      in \<lparr>ls_timeout_millis = timeout_millis,
          ls_deadline_millis = saturating_add now_millis timeout_millis\<rparr>)"

definition lease_state_is_expired :: "SessionLeaseState \<Rightarrow> u64 \<Rightarrow> bool" where
  "lease_state_is_expired s now_millis \<longleftrightarrow> ls_deadline_millis s \<le> now_millis"

definition lease_state_observe_heartbeat :: "SessionLeaseState \<Rightarrow> u64 \<Rightarrow> SessionLeaseState \<times> bool" where
  "lease_state_observe_heartbeat s now_millis =
     (if lease_state_is_expired s now_millis then (s, False)
      else (s\<lparr>ls_deadline_millis := saturating_add now_millis (ls_timeout_millis s)\<rparr>, True))"


section \<open>The agent's session mode and lease monitor\<close>

datatype SessionMode = Legacy | Controlled SessionOptions "SessionLease option"

primrec is_controlled :: "SessionMode \<Rightarrow> bool" where
  "is_controlled Legacy = False"
| "is_controlled (Controlled options lease) = True"

primrec cancel_on_disconnect :: "SessionMode \<Rightarrow> bool" where
  "cancel_on_disconnect Legacy = False"
| "cancel_on_disconnect (Controlled options lease) = so_cancel_on_disconnect options"

primrec session_mode_lease :: "SessionMode \<Rightarrow> SessionLease option" where
  "session_mode_lease Legacy = None"
| "session_mode_lease (Controlled options lease) = lease"

type_synonym Instant = nat

record SessionLeaseMonitor =
  lm_origin :: Instant
  lm_state :: SessionLeaseState

definition lease_monitor_new :: "SessionLease \<Rightarrow> Instant \<Rightarrow> SessionLeaseMonitor" where
  "lease_monitor_new lease now = \<lparr>lm_origin = now, lm_state = lease_state_new lease 0\<rparr>"

definition millis_at :: "SessionLeaseMonitor \<Rightarrow> Instant \<Rightarrow> u64" where
  "millis_at m instant =
     (let elapsed = (instant - lm_origin m) div 1000000
      in if elapsed < 2 ^ 64 then of_nat elapsed else - 1)"

definition lease_monitor_observe_heartbeat ::
  "SessionLeaseMonitor \<Rightarrow> Instant \<Rightarrow> SessionLeaseMonitor \<times> bool" where
  "lease_monitor_observe_heartbeat m observed_at =
     (let (state, live) = lease_state_observe_heartbeat (lm_state m) (millis_at m observed_at)
      in (m\<lparr>lm_state := state\<rparr>, live))"

definition lease_monitor_is_expired :: "SessionLeaseMonitor \<Rightarrow> Instant \<Rightarrow> bool" where
  "lease_monitor_is_expired m now \<longleftrightarrow> lease_state_is_expired (lm_state m) (millis_at m now)"

text \<open>Durations of the agent are in milliseconds.\<close>

definition PROCESS_POLL_INTERVAL :: nat where "PROCESS_POLL_INTERVAL = 25"

definition wait_duration :: "SessionLeaseMonitor \<Rightarrow> Instant \<Rightarrow> nat" where
  "wait_duration m now =
     (let remaining = saturating_sub (ls_deadline_millis (lm_state m)) (millis_at m now)
      in min PROCESS_POLL_INTERVAL (unat remaining))"

text \<open>The verdicts of a run of heartbeats, in the order the agent observes them.\<close>

fun observe_heartbeats :: "SessionLeaseState \<Rightarrow> u64 list \<Rightarrow> SessionLeaseState \<times> bool list" where
  "observe_heartbeats s [] = (s, [])"
| "observe_heartbeats s (t # ts) =
     (let (s', live) = lease_state_observe_heartbeat s t;
          (s'', rest) = observe_heartbeats s' ts
      in (s'', live # rest))"


section \<open>Lemmas\<close>

lemma session_lease_new_ok [ok_iff]:
  "session_lease_new t = Inr l \<longleftrightarrow> l = \<lparr>sl_timeout_millis = t\<rparr> \<and> session_lease_wf l"
  by (auto simp: session_lease_new_def session_lease_wf_def)

lemma session_lease_iff:
  "session_lease_decode p = Inr l \<longleftrightarrow> session_lease_wf l \<and> p = session_lease_encode l"
  by (cases l) (auto simp: session_lease_decode_def session_lease_encode_def session_lease_new_ok)

lemma session_lease_standard_wf: "session_lease_wf session_lease_standard"
  by code_simp

interpretation session_lease: framed_codec session_lease_wf "\<lambda>l. Inr (session_lease_encode l)"
  session_lease_decode FrameKind.SessionLease
  by unfold_locales (auto simp: session_lease_iff)

lemma session_lease_wf_unat:
  "session_lease_wf l \<longleftrightarrow> 1000 \<le> unat (sl_timeout_millis l) \<and> unat (sl_timeout_millis l) \<le> 300000"
  by (simp add: session_lease_wf_def MIN_SESSION_LEASE_TIMEOUT_MILLIS_def
      MAX_SESSION_LEASE_TIMEOUT_MILLIS_def word_le_nat_alt)

lemma unat_ucast_u32 [simp]: "unat (ucast (t :: u32) :: u64) = unat t"
proof -
  have "unat t < 2 ^ 32" using unsigned_less [of t] by simp
  then show ?thesis by (simp add: unsigned_ucast_eq take_bit_nat_eq_self)
qed

lemma unat_heartbeat_interval: "unat (heartbeat_interval l) = max (unat (sl_timeout_millis l) div 4) 1"
  by (simp add: heartbeat_interval_def max_def word_le_nat_alt unat_div)

lemma lease_state_new_sel [simp]:
  "ls_timeout_millis (lease_state_new l t) = ucast (sl_timeout_millis l)"
  "ls_deadline_millis (lease_state_new l t) = saturating_add t (ucast (sl_timeout_millis l))"
  by (simp_all add: lease_state_new_def Let_def)

lemma observe_heartbeat_timeout [simp]:
  "ls_timeout_millis (fst (lease_state_observe_heartbeat s t)) = ls_timeout_millis s"
  by (simp add: lease_state_observe_heartbeat_def)

lemma observe_heartbeats_expired:
  "lease_state_is_expired s t \<Longrightarrow> list_all (\<lambda>u. t \<le> u) ts \<Longrightarrow>
     observe_heartbeats s ts = (s, replicate (length ts) False)"
  by (induction ts)
    (auto simp: lease_state_observe_heartbeat_def lease_state_is_expired_def)

definition live_heartbeats :: "SessionLeaseState \<Rightarrow> u64 list \<Rightarrow> u64 list" where
  "live_heartbeats s ts = map fst (filter snd (zip ts (snd (observe_heartbeats s ts))))"

lemma live_heartbeats_simps [simp]:
  "live_heartbeats s [] = []"
  "live_heartbeats s (t # ts) =
     (if lease_state_is_expired s t then live_heartbeats s ts
      else t # live_heartbeats (s\<lparr>ls_deadline_millis := saturating_add t (ls_timeout_millis s)\<rparr>) ts)"
  by (simp_all add: live_heartbeats_def lease_state_observe_heartbeat_def split: prod.splits)

lemma observe_heartbeats_deadline:
  "ls_deadline_millis s = saturating_add prev (ls_timeout_millis s) \<Longrightarrow>
   ls_deadline_millis (fst (observe_heartbeats s ts))
     = saturating_add (last (prev # live_heartbeats s ts)) (ls_timeout_millis s)"
proof (induction ts arbitrary: s prev)
  case Nil
  then show ?case by simp
next
  case (Cons t ts)
  show ?case
  proof (cases "lease_state_is_expired s t")
    case True
    with Cons.IH [OF Cons.prems] show ?thesis
      by (auto simp: lease_state_observe_heartbeat_def split: prod.splits)
  next
    case False
    let ?s = "s\<lparr>ls_deadline_millis := saturating_add t (ls_timeout_millis s)\<rparr>"
    from Cons.IH [of ?s t] False show ?thesis
      by (auto simp: lease_state_observe_heartbeat_def split: prod.splits)
  qed
qed

text \<open>Heartbeats with gaps below the timeout keep a lease alive.\<close>

fun gaps_below :: "nat \<Rightarrow> u64 \<Rightarrow> u64 list \<Rightarrow> bool" where
  "gaps_below d prev [] \<longleftrightarrow> True"
| "gaps_below d prev (t # ts) \<longleftrightarrow> t < - 1 \<and> unat t < unat prev + d \<and> gaps_below d t ts"

lemma unat_lt_minus_1: "(t :: u64) < - 1 \<longleftrightarrow> unat t < 2 ^ 64 - 1"
  by (simp add: word_less_nat_alt unsigned_minus_1_eq_mask mask_eq_exp_minus_1)

lemma observe_heartbeats_alive:
  "ls_deadline_millis s = saturating_add prev (ls_timeout_millis s) \<Longrightarrow>
   gaps_below (unat (ls_timeout_millis s)) prev ts \<Longrightarrow>
   snd (observe_heartbeats s ts) = replicate (length ts) True"
proof (induction ts arbitrary: s prev)
  case Nil
  then show ?case by simp
next
  case (Cons t ts)
  let ?s = "s\<lparr>ls_deadline_millis := saturating_add t (ls_timeout_millis s)\<rparr>"
  from Cons.prems have "unat t < 2 ^ 64 - 1" by (simp only: gaps_below.simps unat_lt_minus_1)
  with Cons.prems have "\<not> lease_state_is_expired s t"
    by (simp add: lease_state_is_expired_def not_le word_less_nat_alt unat_saturating_add)
  with Cons.IH [of ?s t] Cons.prems show ?case
    by (auto simp: lease_state_observe_heartbeat_def split: prod.splits)
qed

text \<open>The gaps a client makes when it misses at most two of its heartbeat opportunities.\<close>

fun gaps_at_most :: "nat \<Rightarrow> u64 \<Rightarrow> u64 list \<Rightarrow> bool" where
  "gaps_at_most d prev [] \<longleftrightarrow> True"
| "gaps_at_most d prev (t # ts) \<longleftrightarrow> t < - 1 \<and> unat t \<le> unat prev + d \<and> gaps_at_most d t ts"

lemma gaps_at_most_below: "gaps_at_most d prev ts \<Longrightarrow> d < e \<Longrightarrow> gaps_below e prev ts"
  by (induction d prev ts rule: gaps_at_most.induct) auto

lemma three_intervals_below_timeout:
  "session_lease_wf l \<Longrightarrow> 3 * unat (heartbeat_interval l) < unat (sl_timeout_millis l)"
  by (auto simp: session_lease_wf_unat unat_heartbeat_interval)


section \<open>Properties\<close>

text \<open>
  C3: an expired lease stays expired: once the clock has reached the deadline, every later
  heartbeat is refused and leaves the state as it was, so no late client revives a session
  the agent has given up.
\<close>

theorem expired_lease_not_revived:
  assumes "lease_state_is_expired s t" and "list_all (\<lambda>u. t \<le> u) ts"
  shows "observe_heartbeats s ts = (s, replicate (length ts) False)
    \<and> (\<forall>u. t \<le> u \<longrightarrow> lease_state_is_expired (fst (observe_heartbeats s ts)) u)"
  using assms by (auto simp: observe_heartbeats_expired lease_state_is_expired_def)

theorem expired_lease_not_revived_witness:
  "observe_heartbeats (lease_state_new session_lease_standard 5) [120005, 130000]
     = (lease_state_new session_lease_standard 5, [False, False])"
  using expired_lease_not_revived [of "lease_state_new session_lease_standard 5" 120005 "[120005, 130000]"]
  by (simp add: lease_state_is_expired_def word_le_nat_alt unat_saturating_add
      session_lease_standard_def DEFAULT_SESSION_LEASE_TIMEOUT_MILLIS_def)

text \<open>
  C4: the heartbeat interval leaves room for lost beats: a client that misses no more than two
  of the four opportunities in a row (gaps of at most three intervals) is never expired, for
  every lease the protocol accepts.
\<close>

theorem heartbeats_keep_session_alive:
  assumes "session_lease_decode p = Inr l"
    and "gaps_at_most (3 * unat (heartbeat_interval l)) start beats"
  shows "snd (observe_heartbeats (lease_state_new l start) beats) = replicate (length beats) True"
proof -
  from assms(1) have "session_lease_wf l" by (rule session_lease.accepts_wf)
  then have "gaps_below (unat (ls_timeout_millis (lease_state_new l start))) start beats"
    using assms(2) three_intervals_below_timeout gaps_at_most_below by simp
  then show ?thesis by (rule observe_heartbeats_alive [rotated]) simp
qed

theorem heartbeats_keep_session_alive_witness:
  "snd (observe_heartbeats (lease_state_new \<lparr>sl_timeout_millis = 1003\<rparr> 7) [757, 1507, 1508])
     = [True, True, True]"
proof -
  have 1: "session_lease_decode [0, 0, 3, 235] = Inr \<lparr>sl_timeout_millis = 1003\<rparr>" by code_simp
  have 2: "gaps_at_most (3 * unat (heartbeat_interval \<lparr>sl_timeout_millis = 1003\<rparr>)) 7 [757, 1507, 1508]"
    by code_simp
  show ?thesis using heartbeats_keep_session_alive [OF 1 2] by (simp add: numeral_3_eq_3)
qed

text \<open>
  Silence is bounded: whatever the agent observed, the deadline is the timeout after the
  last heartbeat it accepted (or the start), so a half-open session expires at the latest
  300 000 milliseconds after its last sign of life.
\<close>

theorem lease_deadline_bounded:
  assumes "session_lease_decode p = Inr l"
  shows "unat (ls_deadline_millis (fst (observe_heartbeats (lease_state_new l start) beats)))
     \<le> unat (last (start # live_heartbeats (lease_state_new l start) beats)) + 300000
    \<and> ls_deadline_millis (fst (observe_heartbeats (lease_state_new l start) beats))
     = saturating_add (last (start # live_heartbeats (lease_state_new l start) beats))
         (ucast (sl_timeout_millis l))"
proof -
  from assms have "unat (sl_timeout_millis l) \<le> 300000"
    using session_lease.accepts_wf session_lease_wf_unat by blast
  then show ?thesis
    by (simp add: observe_heartbeats_deadline [where prev = start] unat_saturating_add)
qed

end
