(* ===== verification/Session_Child.thy ===== *)
theory Session_Child
  imports Session_Lease
begin

text \<open>
  The life of a session's process in the agent: \<open>SessionChild\<close> of \<open>process_session.rs\<close>,
  which owns the process tree, and \<open>wait_for_child\<close> of \<open>process_bridge.rs\<close>, the loop that
  ends a session on exit, cancellation, a signal, a disconnect, a protocol error or an expired
  lease.  The operating system (the child process, the process tree, the clock and the control
  channel) is a parameter: a record of functions over a state of its own.  System errors are
  their texts, an \<open>ExitStatus\<close> is the code it reports, if any.
\<close>

section \<open>The system interface\<close>

type_synonym ExitStatus = "i32 option"

datatype SessionControlEvent =
    Cancel
  | Signal SessionSignal
  | Disconnect
  | Heartbeat Instant
  | EventProtocolError message

datatype SessionEnd =
    Normal
  | Cancelled
  | Signalled i32
  | Disconnected
  | LeaseExpired
  | EndProtocolError message

datatype recv_result = Received SessionControlEvent | RecvTimeout | RecvDisconnected

type_synonym ('w, 'a) system_call = "'w \<Rightarrow> (string + 'a) \<times> 'w"

record 'w session_os =
  os_try_wait :: "('w, ExitStatus option) system_call"
  os_wait :: "('w, ExitStatus) system_call"
  os_tree_terminate :: "nat \<Rightarrow> i32 \<Rightarrow> ('w, unit) system_call"
  os_now :: "'w \<Rightarrow> Instant \<times> 'w"
  os_sleep :: "nat \<Rightarrow> 'w \<Rightarrow> 'w"
  os_recv_timeout :: "nat \<Rightarrow> 'w \<Rightarrow> recv_result \<times> 'w"


section \<open>The child\<close>

text \<open>The owner of the process tree is named by a number.\<close>

record SessionChild =
  sc_tree :: "nat option"

type_synonym ('w, 'a) child_call = "SessionChild \<times> 'w \<Rightarrow> (string + 'a) \<times> SessionChild \<times> 'w"

definition child_return :: "'a \<Rightarrow> ('w, 'a) child_call" where
  "child_return x = (\<lambda>s. (Inr x, s))"

definition child_bind :: "('w, 'a) child_call \<Rightarrow> ('a \<Rightarrow> ('w, 'b) child_call) \<Rightarrow> ('w, 'b) child_call" where
  "child_bind m f = (\<lambda>s. case m s of (Inl e, s') \<Rightarrow> (Inl e, s') | (Inr x, s') \<Rightarrow> f x s')"

definition child_system :: "('w, 'a) system_call \<Rightarrow> ('w, 'a) child_call" where
  "child_system call = (\<lambda>(child, w). case call w of (r, w') \<Rightarrow> (r, child, w'))"

definition terminate_tree :: "'w session_os \<Rightarrow> i32 \<Rightarrow> ('w, unit) child_call" where
  "terminate_tree os exit_code = (\<lambda>(child, w).
     case sc_tree child of
       None \<Rightarrow> (Inr (), child, w)
     | Some tree \<Rightarrow>
         (let child = child\<lparr>sc_tree := None\<rparr>
          in case os_tree_terminate os tree exit_code w of
               (Inr _, w') \<Rightarrow> (Inr (), child, w')
             | (Inl error, w') \<Rightarrow> (Inl error, child\<lparr>sc_tree := Some tree\<rparr>, w')))"

definition try_wait_and_cleanup :: "'w session_os \<Rightarrow> ('w, ExitStatus option) child_call" where
  "try_wait_and_cleanup os =
     child_bind (child_system (os_try_wait os)) (\<lambda>waited.
     case waited of
       None \<Rightarrow> child_return None
     | Some status \<Rightarrow>
         child_bind (terminate_tree os SESSION_CANCEL_EXIT_CODE) (\<lambda>_.
         child_return (Some status)))"

definition wait_and_cleanup :: "'w session_os \<Rightarrow> ('w, ExitStatus) child_call" where
  "wait_and_cleanup os =
     child_bind (child_system (os_wait os)) (\<lambda>status.
     child_bind (terminate_tree os SESSION_CANCEL_EXIT_CODE) (\<lambda>_.
     child_return status))"

definition terminate_with :: "'w session_os \<Rightarrow> i32 \<Rightarrow> ('w, ExitStatus \<times> bool) child_call" where
  "terminate_with os exit_code =
     child_bind (child_system (os_try_wait os)) (\<lambda>waited.
     case waited of
       Some status \<Rightarrow>
         child_bind (terminate_tree os exit_code) (\<lambda>_.
         child_return (status, False))
     | None \<Rightarrow>
         child_bind (terminate_tree os exit_code) (\<lambda>_.
         child_bind (child_system (os_wait os)) (\<lambda>status.
         child_return (status, True))))"

definition terminate_child :: "'w session_os \<Rightarrow> ('w, ExitStatus \<times> bool) child_call" where
  "terminate_child os = terminate_with os SESSION_CANCEL_EXIT_CODE"

text \<open>\<open>Drop\<close> ignores the results of what it tries.\<close>

definition child_drop :: "'w session_os \<Rightarrow> SessionChild \<times> 'w \<Rightarrow> SessionChild \<times> 'w" where
  "child_drop os = (\<lambda>(child, w).
     if sc_tree child = None then (child, w)
     else case terminate_tree os SESSION_CANCEL_EXIT_CODE (child, w) of
            (Inr _, child', w') \<Rightarrow> (child', snd (os_wait os w'))
          | (Inl _, s) \<Rightarrow> s)"


section \<open>Waiting for the end of a session\<close>

definition cancel_session_end :: "bool \<Rightarrow> SessionEnd" where
  "cancel_session_end process_was_terminated = (if process_was_terminated then Cancelled else Normal)"

definition lease_session_end :: "bool \<Rightarrow> SessionEnd" where
  "lease_session_end process_was_terminated = (if process_was_terminated then LeaseExpired else Normal)"

text \<open>The variables the loop carries from one iteration to the next, or its result.\<close>

datatype wait_flow =
    Continue "SessionLeaseMonitor option" bool
  | Return ExitStatus SessionEnd

definition end_with :: "('w, ExitStatus \<times> bool) child_call \<Rightarrow> (bool \<Rightarrow> SessionEnd) \<Rightarrow> ('w, wait_flow) child_call" where
  "end_with kill end' = child_bind kill (\<lambda>(status, terminated). child_return (Return status (end' terminated)))"

definition expired_now ::
  "'w session_os \<Rightarrow> SessionLeaseMonitor option \<Rightarrow> ('w, bool) child_call" where
  "expired_now os lease = (\<lambda>(child, w).
     case lease of
       None \<Rightarrow> (Inr False, child, w)
     | Some monitor \<Rightarrow> (let (now, w') = os_now os w in (Inr (lease_monitor_is_expired monitor now), child, w')))"

definition poll_duration ::
  "'w session_os \<Rightarrow> SessionLeaseMonitor option \<Rightarrow> ('w, nat) child_call" where
  "poll_duration os lease = (\<lambda>(child, w).
     case lease of
       None \<Rightarrow> (Inr PROCESS_POLL_INTERVAL, child, w)
     | Some monitor \<Rightarrow> (let (now, w') = os_now os w in (Inr (wait_duration monitor now), child, w')))"

definition on_control ::
  "'w session_os \<Rightarrow> SessionLeaseMonitor option \<Rightarrow> recv_result \<Rightarrow> ('w, wait_flow) child_call" where
  "on_control os lease received =
     (case received of
        Received Cancel \<Rightarrow> end_with (terminate_child os) cancel_session_end
      | Received (Signal signal) \<Rightarrow>
          end_with (terminate_with os (session_signal_exit_code signal))
            (\<lambda>terminated. if terminated then Signalled (session_signal_exit_code signal) else Normal)
      | Received Disconnect \<Rightarrow> end_with (terminate_child os) (\<lambda>_. Disconnected)
      | Received (EventProtocolError m) \<Rightarrow> end_with (terminate_child os) (\<lambda>_. EndProtocolError m)
      | Received (Heartbeat observed_at) \<Rightarrow>
          (case lease of
             None \<Rightarrow> end_with (terminate_child os) (\<lambda>_. EndProtocolError
               [Text ''heartbeat was reported for a session without a lease''])
           | Some monitor \<Rightarrow>
               (let (monitor', live) = lease_monitor_observe_heartbeat monitor observed_at
                in if \<not> live then end_with (terminate_child os) lease_session_end
                   else child_return (Continue (Some monitor') True)))
      | RecvTimeout \<Rightarrow>
          child_bind (expired_now os lease) (\<lambda>expired.
          if expired then end_with (terminate_child os) lease_session_end
          else child_return (Continue lease True))
      | RecvDisconnected \<Rightarrow>
          if lease = None
          then child_bind (wait_and_cleanup os) (\<lambda>status. child_return (Return status Normal))
          else child_return (Continue lease False))"

definition wait_iteration ::
  "'w session_os \<Rightarrow> SessionLeaseMonitor option \<Rightarrow> bool \<Rightarrow> ('w, wait_flow) child_call" where
  "wait_iteration os lease controls_connected =
     child_bind (try_wait_and_cleanup os) (\<lambda>exited.
     case exited of
       Some status \<Rightarrow> child_return (Return status Normal)
     | None \<Rightarrow>
         child_bind (poll_duration os lease) (\<lambda>duration.
         if \<not> controls_connected
         then child_bind (\<lambda>(child, w). (Inr (), child, os_sleep os duration w)) (\<lambda>_.
              child_bind (expired_now os lease) (\<lambda>expired.
              if expired then end_with (terminate_child os) lease_session_end
              else child_return (Continue lease controls_connected)))
         else child_bind (child_system (\<lambda>w. case os_recv_timeout os duration w of (r, w') \<Rightarrow> (Inr r, w')))
                (on_control os lease)))"

text \<open>The loop; it gives no result while it is still running after \<open>fuel\<close> iterations.\<close>

fun wait_loop ::
  "'w session_os \<Rightarrow> nat \<Rightarrow> SessionLeaseMonitor option \<Rightarrow> bool \<Rightarrow> SessionChild \<times> 'w
     \<Rightarrow> ((string + ExitStatus \<times> SessionEnd) \<times> SessionChild \<times> 'w) option" where
  "wait_loop os 0 lease connected s = None"
| "wait_loop os (Suc fuel) lease connected s =
     (case wait_iteration os lease connected s of
        (Inl error, s') \<Rightarrow> Some (Inl error, s')
      | (Inr (Return status end'), s') \<Rightarrow> Some (Inr (status, end'), s')
      | (Inr (Continue lease' connected'), s') \<Rightarrow> wait_loop os fuel lease' connected' s')"

definition wait_for_child ::
  "'w session_os \<Rightarrow> nat \<Rightarrow> SessionMode \<Rightarrow> SessionChild \<times> 'w
     \<Rightarrow> ((string + ExitStatus \<times> SessionEnd) \<times> SessionChild \<times> 'w) option" where
  "wait_for_child os fuel session_mode = (\<lambda>(child, w).
     case session_mode_lease session_mode of
       None \<Rightarrow> wait_loop os fuel None True (child, w)
     | Some lease \<Rightarrow>
         (let (now, w') = os_now os w
          in wait_loop os fuel (Some (lease_monitor_new lease now)) True (child, w')))"


section \<open>Lemmas\<close>

lemma child_return_ok [ok_iff]: "child_return x s = (Inr y, s') \<longleftrightarrow> y = x \<and> s' = s"
  by (auto simp: child_return_def)

lemma child_bind_ok [ok_iff]:
  "child_bind m f s = (Inr y, s') \<longleftrightarrow> (\<exists>x t. m s = (Inr x, t) \<and> f x t = (Inr y, s'))"
  by (auto simp: child_bind_def split: prod.splits sum.splits)

lemma child_system_ok [ok_iff]:
  "child_system call s = (Inr x, s') \<longleftrightarrow> fst s' = fst s \<and> call (snd s) = (Inr x, snd s')"
  by (cases s; cases s') (auto simp: child_system_def split: prod.splits)

lemma terminate_tree_disarms:
  assumes "terminate_tree os code s = (Inr u, s')"
  shows "sc_tree (fst s') = None"
  using assms by (cases s) (auto simp: terminate_tree_def Let_def split: option.splits prod.splits sum.splits)

lemma end_with_ok [ok_iff]:
  "end_with kill e s = (Inr r, s') \<longleftrightarrow>
     (\<exists>status terminated. kill s = (Inr (status, terminated), s') \<and> r = Return status (e terminated))"
  by (auto simp: end_with_def ok_iff)

text \<open>Operations on a child, in any order.\<close>

datatype child_op = OpTryWait | OpWait | OpTerminate i32 | OpDrop

fun run_op :: "'w session_os \<Rightarrow> child_op \<Rightarrow> SessionChild \<times> 'w \<Rightarrow> SessionChild \<times> 'w" where
  "run_op os OpTryWait s = snd (try_wait_and_cleanup os s)"
| "run_op os OpWait s = snd (wait_and_cleanup os s)"
| "run_op os (OpTerminate code) s = snd (terminate_with os code s)"
| "run_op os OpDrop s = child_drop os s"

lemma terminate_tree_disarmed: "sc_tree child = None \<Longrightarrow> terminate_tree os code (child, w) = (Inr (), child, w)"
  by (simp add: terminate_tree_def)

lemmas disarmed_defs = child_bind_def child_return_def child_system_def try_wait_and_cleanup_def
  wait_and_cleanup_def terminate_with_def child_drop_def

lemma run_op_disarmed:
  assumes "sc_tree (fst s) = None"
  shows "run_op (os\<lparr>os_tree_terminate := kill\<rparr>) op s = run_op os op s \<and> fst (run_op os op s) = fst s"
  using assms
  by (cases s; cases op)
    (auto simp: disarmed_defs terminate_tree_disarmed split: prod.splits sum.splits option.splits)

lemma run_ops_disarmed:
  "sc_tree (fst s) = None \<Longrightarrow>
   fold (run_op (os\<lparr>os_tree_terminate := kill\<rparr>)) ops s = fold (run_op os) ops s
     \<and> fst (fold (run_op os) ops s) = fst s"
proof (induction ops arbitrary: s)
  case (Cons op ops)
  with run_op_disarmed [OF Cons.prems, where os = os and kill = kill and op = op] show ?case by simp
qed simp


section \<open>The calls that reach the process tree\<close>

text \<open>
  The system beside a record of every call that asks for the termination of a process tree: the
  tree, the exit code and whether the call succeeded.
\<close>

type_synonym tree_calls = "(nat \<times> i32 \<times> bool) list"

definition recorded_call :: "('w \<Rightarrow> 'a \<times> 'w) \<Rightarrow> 'w \<times> tree_calls \<Rightarrow> 'a \<times> 'w \<times> tree_calls" where
  "recorded_call call = (\<lambda>(w, calls). case call w of (r, w') \<Rightarrow> (r, w', calls))"

definition recording :: "'w session_os \<Rightarrow> ('w \<times> tree_calls) session_os" where
  "recording os =
     \<lparr>os_try_wait = recorded_call (os_try_wait os),
      os_wait = recorded_call (os_wait os),
      os_tree_terminate = (\<lambda>tree exit_code (w, calls).
        case os_tree_terminate os tree exit_code w of
          (r, w') \<Rightarrow> (r, w', calls @ [(tree, exit_code, case r of Inl _ \<Rightarrow> False | Inr _ \<Rightarrow> True)])),
      os_now = recorded_call (os_now os),
      os_sleep = (\<lambda>d (w, calls). (os_sleep os d w, calls)),
      os_recv_timeout = (\<lambda>d. recorded_call (os_recv_timeout os d))\<rparr>"

lemma recording_simps [simp]:
  "os_try_wait (recording os) = recorded_call (os_try_wait os)" "os_wait (recording os) = recorded_call (os_wait os)"
  "os_now (recording os) = recorded_call (os_now os)" "os_recv_timeout (recording os) d = recorded_call (os_recv_timeout os d)"
  "os_sleep (recording os) d (w, calls) = (os_sleep os d w, calls)"
  by (simp_all add: recording_def)

text \<open>The record changes nothing: without it, a run on the recording system is a run on the system.\<close>

definition forget_calls :: "'r \<times> SessionChild \<times> 'w \<times> tree_calls \<Rightarrow> 'r \<times> SessionChild \<times> 'w" where
  "forget_calls = (\<lambda>(r, child, w, calls). (r, child, w))"

definition simulates :: "('w \<times> tree_calls, 'a) child_call \<Rightarrow> ('w, 'a) child_call \<Rightarrow> bool" where
  "simulates m m' \<longleftrightarrow> (\<forall>child w calls. forget_calls (m (child, w, calls)) = m' (child, w))"

named_theorems simulation

lemma simulates_return [simulation]: "simulates (child_return x) (child_return x)"
  by (simp add: simulates_def child_return_def forget_calls_def)

lemma simulates_bind [simulation]:
  assumes "simulates m m'" and "\<And>x. simulates (f x) (f' x)"
  shows "simulates (child_bind m f) (child_bind m' f')"
  unfolding simulates_def
proof (intro allI)
  fix child w calls
  obtain r t where m: "m (child, w, calls) = (r, t)" by (cases "m (child, w, calls)")
  then have "m' (child, w) = forget_calls (r, t)" using assms(1) unfolding simulates_def by metis
  with m assms(2) show "forget_calls (child_bind m f (child, w, calls)) = child_bind m' f' (child, w)"
    by (cases r; cases t) (auto simp: child_bind_def simulates_def forget_calls_def)
qed

lemma simulates_system [simulation]: "simulates (child_system (recorded_call call)) (child_system call)"
  by (auto simp: simulates_def child_system_def recorded_call_def forget_calls_def split: prod.splits)

lemma simulates_terminate_tree [simulation]: "simulates (terminate_tree (recording os) code) (terminate_tree os code)"
  by (auto simp: simulates_def terminate_tree_def recording_def forget_calls_def Let_def split: option.splits prod.splits sum.splits)

lemma simulates_sleep [simulation]:
  "simulates (\<lambda>(child, w). (Inr (), child, os_sleep (recording os) d w)) (\<lambda>(child, w). (Inr (), child, os_sleep os d w))"
  by (auto simp: simulates_def forget_calls_def)

lemma simulates_recv [simulation]:
  "simulates (child_system (\<lambda>w. case os_recv_timeout (recording os) d w of (r, w') \<Rightarrow> (Inr r, w')))
     (child_system (\<lambda>w. case os_recv_timeout os d w of (r, w') \<Rightarrow> (Inr r, w')))"
  by (auto simp: simulates_def forget_calls_def child_system_def recorded_call_def split: prod.splits)

lemma simulates_clock [simulation]:
  "simulates (expired_now (recording os) lease) (expired_now os lease)"
  "simulates (poll_duration (recording os) lease) (poll_duration os lease)"
  by (auto simp: simulates_def forget_calls_def expired_now_def poll_duration_def recorded_call_def split: option.splits prod.splits)

lemma simulates_cases [simulation]:
  "\<lbrakk>b \<Longrightarrow> simulates m m'; \<not> b \<Longrightarrow> simulates n n'\<rbrakk> \<Longrightarrow> simulates (if b then m else n) (if b then m' else n')"
  "\<lbrakk>x = None \<Longrightarrow> simulates m m'; \<And>y. x = Some y \<Longrightarrow> simulates (f y) (f' y)\<rbrakk>
   \<Longrightarrow> simulates (case x of None \<Rightarrow> m | Some y \<Rightarrow> f y) (case x of None \<Rightarrow> m' | Some y \<Rightarrow> f' y)"
  by (auto split: option.splits)

lemma simulates_child [simulation]:
  "simulates (try_wait_and_cleanup (recording os)) (try_wait_and_cleanup os)"
  "simulates (wait_and_cleanup (recording os)) (wait_and_cleanup os)"
  "simulates (terminate_with (recording os) code) (terminate_with os code)"
  unfolding try_wait_and_cleanup_def wait_and_cleanup_def terminate_with_def recording_simps
  by (intro simulation)+

lemma simulates_end_with [simulation]: "simulates m m' \<Longrightarrow> simulates (end_with m e) (end_with m' e)"
  unfolding end_with_def by (intro simulation) (auto intro: simulation)

lemma simulates_on_control [simulation]: "simulates (on_control (recording os) lease ev) (on_control os lease ev)"
proof (cases ev)
  case (Received c)
  then show ?thesis
    by (cases c) (auto simp: on_control_def terminate_child_def Let_def intro!: simulation split: prod.splits option.splits)
qed (auto simp: on_control_def terminate_child_def intro!: simulation)

lemma simulates_iteration: "simulates (wait_iteration (recording os) lease connected) (wait_iteration os lease connected)"
  unfolding wait_iteration_def terminate_child_def by (intro simulation)

lemma simulates_loop:
  "wait_loop os fuel lease connected (child, w)
   = map_option forget_calls (wait_loop (recording os) fuel lease connected (child, w, calls))"
proof (induction fuel arbitrary: lease connected child w calls)
  case (Suc fuel)
  obtain r child' w' calls' where it: "wait_iteration (recording os) lease connected (child, w, calls) = (r, child', w', calls')"
    by (metis prod_cases3)
  then have "wait_iteration os lease connected (child, w) = (r, child', w')"
    using simulates_iteration [of os lease connected] unfolding simulates_def forget_calls_def by (metis case_prod_conv)
  with it Suc show ?case by (auto simp: forget_calls_def split: sum.splits wait_flow.splits)
qed simp

text \<open>
  What a call leaves of the tree that the child owned: it is owned and nothing was asked, it is
  released after one successful call with the exit code, or it is still owned after one that failed.
\<close>

definition tree_owned :: "nat \<Rightarrow> SessionChild \<times> 'w \<times> tree_calls \<Rightarrow> bool" where
  "tree_owned tree = (\<lambda>(child, w, calls). sc_tree child = Some tree \<and> calls = [])"

definition tree_released :: "nat \<Rightarrow> i32 \<Rightarrow> SessionChild \<times> 'w \<times> tree_calls \<Rightarrow> bool" where
  "tree_released tree code = (\<lambda>(child, w, calls). sc_tree child = None \<and> calls = [(tree, code, True)])"

definition tree_kept :: "nat \<Rightarrow> i32 \<Rightarrow> SessionChild \<times> 'w \<times> tree_calls \<Rightarrow> bool" where
  "tree_kept tree code = (\<lambda>(child, w, calls). sc_tree child = Some tree \<and> calls = [(tree, code, False)])"

definition tree_accounted :: "nat \<Rightarrow> SessionChild \<times> 'w \<times> tree_calls \<Rightarrow> bool" where
  "tree_accounted tree s \<longleftrightarrow> tree_owned tree s \<or> (\<exists>code. tree_released tree code s \<or> tree_kept tree code s)"

definition tree_post ::
  "nat \<Rightarrow> ('a \<Rightarrow> SessionChild \<times> 'w \<times> tree_calls \<Rightarrow> bool) \<Rightarrow> (string + 'a) \<times> SessionChild \<times> 'w \<times> tree_calls \<Rightarrow> bool" where
  "tree_post tree Q = (\<lambda>(r, t). case r of Inl _ \<Rightarrow> tree_accounted tree t | Inr x \<Rightarrow> Q x t)"

text \<open>A call made in a state with the precondition accounts for the tree if it fails.\<close>

definition tree_triple ::
  "nat \<Rightarrow> (SessionChild \<times> 'w \<times> tree_calls \<Rightarrow> bool) \<Rightarrow> ('w \<times> tree_calls, 'a) child_call
     \<Rightarrow> ('a \<Rightarrow> SessionChild \<times> 'w \<times> tree_calls \<Rightarrow> bool) \<Rightarrow> bool" where
  "tree_triple tree P m Q \<longleftrightarrow> (\<forall>s. P s \<longrightarrow> tree_post tree Q (m s))"

lemma triple_return: "(\<And>s. P s \<Longrightarrow> Q x s) \<Longrightarrow> tree_triple tree P (child_return x) Q"
  by (simp add: tree_triple_def tree_post_def child_return_def)

lemma triple_bind:
  assumes "tree_triple tree P m R" and "\<And>x. tree_triple tree (R x) (f x) Q"
  shows "tree_triple tree P (child_bind m f) Q"
  unfolding tree_triple_def
proof (intro allI impI)
  fix s
  assume "P s"
  with assms(1) have m: "tree_post tree R (m s)" unfolding tree_triple_def by blast
  have f: "R x t \<Longrightarrow> tree_post tree Q (f x t)" for x t using assms(2) unfolding tree_triple_def by blast
  show "tree_post tree Q (child_bind m f s)"
  proof (cases "fst (m s)")
    case (Inl e)
    with m show ?thesis by (cases "m s") (auto simp: child_bind_def tree_post_def)
  next
    case (Inr x)
    with m have "R x (snd (m s))" by (cases "m s") (auto simp: tree_post_def)
    from f [OF this] Inr show ?thesis by (cases "m s") (auto simp: child_bind_def)
  qed
qed

lemma triple_cases:
  "\<lbrakk>b \<Longrightarrow> tree_triple tree P m Q; \<not> b \<Longrightarrow> tree_triple tree P n Q\<rbrakk> \<Longrightarrow> tree_triple tree P (if b then m else n) Q"
  "\<lbrakk>x = None \<Longrightarrow> tree_triple tree P m Q; \<And>y. x = Some y \<Longrightarrow> tree_triple tree P (f y) Q\<rbrakk>
   \<Longrightarrow> tree_triple tree P (case x of None \<Rightarrow> m | Some y \<Rightarrow> f y) Q"
  by (auto split: option.splits)

lemma triple_system:
  "tree_triple tree (tree_owned tree) (child_system (recorded_call call)) (\<lambda>_. tree_owned tree)"
  "tree_triple tree (tree_released tree code) (child_system (recorded_call call)) (\<lambda>_. tree_released tree code)"
  by (auto simp: tree_triple_def tree_post_def tree_accounted_def child_system_def recorded_call_def tree_owned_def tree_released_def
        split: prod.splits sum.splits)

lemma triple_terminate_tree:
  "tree_triple tree (tree_owned tree) (terminate_tree (recording os) code) (\<lambda>_. tree_released tree code)"
  by (auto simp: tree_triple_def tree_post_def tree_accounted_def terminate_tree_def recording_def tree_owned_def tree_released_def
      tree_kept_def Let_def split: prod.splits sum.splits)

lemma triple_observations:
  "tree_triple tree (tree_owned tree) (expired_now (recording os) lease) (\<lambda>_. tree_owned tree)"
  "tree_triple tree (tree_owned tree) (poll_duration (recording os) lease) (\<lambda>_. tree_owned tree)"
  "tree_triple tree (tree_owned tree) (\<lambda>(child, w). (Inr (), child, os_sleep (recording os) d w)) (\<lambda>_. tree_owned tree)"
  "tree_triple tree (tree_owned tree)
     (child_system (\<lambda>w. case os_recv_timeout (recording os) d w of (r, w') \<Rightarrow> (Inr r, w'))) (\<lambda>_. tree_owned tree)"
  by (auto simp: tree_triple_def tree_post_def tree_owned_def expired_now_def poll_duration_def child_system_def recorded_call_def
      split: option.splits prod.splits)

lemma triple_child:
  "tree_triple tree (tree_owned tree) (try_wait_and_cleanup (recording os))
     (\<lambda>r. case r of None \<Rightarrow> tree_owned tree | Some _ \<Rightarrow> tree_released tree SESSION_CANCEL_EXIT_CODE)"
  "tree_triple tree (tree_owned tree) (wait_and_cleanup (recording os)) (\<lambda>_. tree_released tree SESSION_CANCEL_EXIT_CODE)"
  "tree_triple tree (tree_owned tree) (terminate_with (recording os) code) (\<lambda>_. tree_released tree code)"
  unfolding try_wait_and_cleanup_def wait_and_cleanup_def terminate_with_def recording_simps
  by (auto intro!: triple_bind [OF triple_system(1)] triple_bind [OF triple_terminate_tree]
      triple_bind [OF triple_system(2)] triple_return split: option.splits)

text \<open>The exit code that belongs to the reported end; a process that had already exited ends normally.\<close>

fun end_code :: "SessionEnd \<Rightarrow> i32 \<Rightarrow> bool" where
  "end_code Normal code \<longleftrightarrow> True"
| "end_code (Signalled c) code \<longleftrightarrow> code = c"
| "end_code _ code \<longleftrightarrow> code = SESSION_CANCEL_EXIT_CODE"

fun flow_post :: "nat \<Rightarrow> wait_flow \<Rightarrow> SessionChild \<times> 'w \<times> tree_calls \<Rightarrow> bool" where
  "flow_post tree (Continue _ _) t \<longleftrightarrow> tree_owned tree t"
| "flow_post tree (Return _ end') t \<longleftrightarrow> (\<exists>code. tree_released tree code t \<and> end_code end' code)"

lemma triple_end_with:
  assumes "\<And>terminated. end_code (e terminated) code"
  shows "tree_triple tree (tree_owned tree) (end_with (terminate_with (recording os) code) e) (flow_post tree)"
  unfolding end_with_def
  by (rule triple_bind [OF triple_child(3)]) (use assms in \<open>auto split: prod.splits intro!: triple_return exI [of _ code]\<close>)

lemma cancel_ends:
  "end_code (cancel_session_end b) SESSION_CANCEL_EXIT_CODE" "end_code (lease_session_end b) SESSION_CANCEL_EXIT_CODE"
  by (simp_all add: cancel_session_end_def lease_session_end_def)

lemma triple_on_control:
  "tree_triple tree (tree_owned tree) (on_control (recording os) lease ev) (flow_post tree)"
proof (cases ev)
  case (Received c)
  then show ?thesis
    by (cases c) (auto simp: on_control_def terminate_child_def cancel_ends Let_def
        intro!: triple_return triple_end_with split: prod.splits option.splits)
next
  case RecvTimeout
  then show ?thesis
    by (auto simp: on_control_def terminate_child_def cancel_ends
        intro!: triple_return triple_end_with triple_bind [OF triple_observations(1)])
next
  case RecvDisconnected
  then show ?thesis by (auto simp: on_control_def intro!: triple_return triple_bind [OF triple_child(2)])
qed

lemma triple_iteration:
  "tree_triple tree (tree_owned tree) (wait_iteration (recording os) lease connected) (flow_post tree)"
proof -
  have timed: "tree_triple tree (tree_owned tree) (child_bind (poll_duration (recording os) lease) (\<lambda>duration.
         if \<not> connected
         then child_bind (\<lambda>(child, w). (Inr (), child, os_sleep (recording os) duration w)) (\<lambda>_.
              child_bind (expired_now (recording os) lease) (\<lambda>expired.
              if expired then end_with (terminate_with (recording os) SESSION_CANCEL_EXIT_CODE) lease_session_end
              else child_return (Continue lease connected)))
         else child_bind (child_system (\<lambda>w. case os_recv_timeout (recording os) duration w of (r, w') \<Rightarrow> (Inr r, w')))
                (on_control (recording os) lease))) (flow_post tree)"
    by (intro triple_bind [OF triple_observations(2)] triple_cases(1) triple_bind [OF triple_observations(3)]
        triple_bind [OF triple_observations(1)] triple_bind [OF triple_observations(4)] triple_on_control
        triple_end_with triple_return cancel_ends) simp
  show ?thesis unfolding wait_iteration_def terminate_child_def
    by (rule triple_bind [OF triple_child(1)]) (auto intro: timed intro!: triple_return split: option.splits)
qed

definition session_post :: "nat \<Rightarrow> ExitStatus \<times> SessionEnd \<Rightarrow> SessionChild \<times> 'w \<times> tree_calls \<Rightarrow> bool" where
  "session_post tree = (\<lambda>(_, end') t. \<exists>code. tree_released tree code t \<and> end_code end' code)"

lemma tree_post_loop:
  assumes "tree_owned tree s" and "wait_loop (recording os) fuel lease connected s = Some r"
  shows "tree_post tree (session_post tree) r"
  using assms
proof (induction fuel arbitrary: lease connected s)
  case (Suc fuel)
  obtain flow t where it: "wait_iteration (recording os) lease connected s = (flow, t)"
    by (cases "wait_iteration (recording os) lease connected s")
  have post: "tree_post tree (flow_post tree) (flow, t)"
    using triple_iteration [of tree os lease connected] Suc.prems(1) it unfolding tree_triple_def by metis
  show ?case
  proof (cases "\<exists>l c. flow = Inr (Continue l c)")
    case True
    then obtain l c where flow: "flow = Inr (Continue l c)" by blast
    with post have "tree_owned tree t" by (simp add: tree_post_def)
    moreover have "wait_loop (recording os) fuel l c t = Some r" using Suc.prems(2) it flow by simp
    ultimately show ?thesis by (rule Suc.IH)
  next
    case False
    with it post Suc.prems(2) show ?thesis
      by (auto simp: tree_post_def session_post_def split: sum.splits wait_flow.splits)
  qed
qed simp

lemma recorded_run:
  assumes "wait_for_child os fuel mode (child, w) = Some (result, child', w')"
  shows "\<exists>calls'. wait_for_child (recording os) fuel mode (child, w, calls) = Some (result, child', w', calls')"
proof (cases "session_mode_lease mode")
  case None
  then show ?thesis using assms simulates_loop [of os fuel None True child w calls]
    by (auto simp: wait_for_child_def forget_calls_def split: prod.splits)
next
  case (Some lease)
  obtain now v where "os_now os w = (now, v)" by (cases "os_now os w")
  with Some show ?thesis
    using assms simulates_loop [of os fuel "Some (lease_monitor_new lease now)" True child v calls]
    by (auto simp: wait_for_child_def recorded_call_def forget_calls_def split: prod.splits)
qed

lemma tree_post_wait_for_child:
  assumes "tree_owned tree s" and "wait_for_child (recording os) fuel mode s = Some r"
  shows "tree_post tree (session_post tree) r"
  using assms
  by (cases s) (auto simp: wait_for_child_def recorded_call_def tree_owned_def elim!: tree_post_loop [rotated] split: option.splits prod.splits)


section \<open>A silent client\<close>

text \<open>
  What the loop relies on from the clock and the channel when the client sends no heartbeat:
  the clock \<open>clk\<close> never runs backwards, sleeping and a receive that times out take at least
  the time asked for, and no heartbeat is received.
\<close>

definition silent_client :: "'w session_os \<Rightarrow> ('w \<Rightarrow> Instant) \<Rightarrow> bool" where
  "silent_client os clk \<longleftrightarrow>
     (\<forall>w. clk w \<le> fst (os_now os w) \<and> fst (os_now os w) \<le> clk (snd (os_now os w)))
     \<and> (\<forall>w. clk w \<le> clk (snd (os_try_wait os w)))
     \<and> (\<forall>d w. clk w + d * 1000000 \<le> clk (os_sleep os d w))
     \<and> (\<forall>d w. clk w \<le> clk (snd (os_recv_timeout os d w))
         \<and> (fst (os_recv_timeout os d w) = RecvTimeout \<longrightarrow>
              clk w + d * 1000000 \<le> clk (snd (os_recv_timeout os d w)))
         \<and> (\<forall>t. fst (os_recv_timeout os d w) \<noteq> Received (Heartbeat t)))"

definition lease_millis :: "SessionLeaseMonitor \<Rightarrow> Instant \<Rightarrow> nat" where
  "lease_millis m t = (t - lm_origin m) div 1000000"

lemma unat_millis_at: "unat (millis_at m t) = min (lease_millis m t) (2 ^ 64 - 1)"
  by (auto simp: millis_at_def lease_millis_def Let_def unat_word_of_nat_less
      unsigned_minus_1_eq_mask mask_eq_exp_minus_1)

lemma deadline_le_max: "unat (ls_deadline_millis s) \<le> 2 ^ 64 - 1"
  using unsigned_less [of "ls_deadline_millis s", where 'a = nat] by simp

lemma expired_iff_millis:
  "lease_monitor_is_expired m t \<longleftrightarrow> unat (ls_deadline_millis (lm_state m)) \<le> lease_millis m t"
  using deadline_le_max [of "lm_state m"]
  by (auto simp: lease_monitor_is_expired_def lease_state_is_expired_def word_le_nat_alt unat_millis_at)

lemma wait_duration_millis:
  "wait_duration m t = min 25 (unat (ls_deadline_millis (lm_state m)) - lease_millis m t)"
proof (cases "millis_at m t \<le> ls_deadline_millis (lm_state m)")
  case True
  then show ?thesis
    using deadline_le_max [of "lm_state m"]
    by (auto simp: wait_duration_def PROCESS_POLL_INTERVAL_def saturating_sub_def Let_def
        unat_sub word_le_nat_alt unat_millis_at min_def)
next
  case False
  then have "unat (ls_deadline_millis (lm_state m)) < lease_millis m t"
    using deadline_le_max [of "lm_state m"] by (auto simp: word_le_nat_alt unat_millis_at)
  with False show ?thesis
    by (simp add: wait_duration_def saturating_sub_def Let_def)
qed

lemma lease_millis_mono: "t \<le> u \<Longrightarrow> lease_millis m t \<le> lease_millis m u"
  by (simp add: lease_millis_def div_le_mono diff_le_mono)

lemma lease_millis_add: "lm_origin m \<le> t \<Longrightarrow> lease_millis m t + d \<le> lease_millis m (t + d * 1000000)"
  by (simp add: lease_millis_def)

lemma timed_progress:
  assumes "lm_origin m \<le> c" and "c \<le> t" and "t + wait_duration m t * 1000000 \<le> u" and "u \<le> c'"
    and "\<not> lease_monitor_is_expired m u"
  shows "c \<le> c' \<and> lease_millis m c < unat (ls_deadline_millis (lm_state m))
    \<and> lease_millis m c < lease_millis m c'"
proof -
  let ?D = "unat (ls_deadline_millis (lm_state m))"
  have "lease_millis m t + wait_duration m t \<le> lease_millis m (t + wait_duration m t * 1000000)"
    using assms(1,2) by (intro lease_millis_add) simp
  also have "\<dots> \<le> lease_millis m u" using assms(3) by (rule lease_millis_mono)
  finally have step: "lease_millis m t + wait_duration m t \<le> lease_millis m u" .
  moreover have "lease_millis m u < ?D" using assms(5) by (simp add: expired_iff_millis)
  ultimately have "1 \<le> wait_duration m t" by (auto simp: wait_duration_millis)
  moreover have "lease_millis m c \<le> lease_millis m t" "lease_millis m u \<le> lease_millis m c'"
    using assms(2,4) by (simp_all add: lease_millis_mono)
  ultimately show ?thesis using step \<open>lease_millis m u < ?D\<close> assms by linarith
qed

lemma try_wait_running:
  "try_wait_and_cleanup os s = (Inr None, s') \<Longrightarrow> fst s' = fst s \<and> snd s' = snd (os_try_wait os (snd s))"
  by (cases s)
    (auto simp: try_wait_and_cleanup_def child_bind_ok child_return_ok child_system_ok split: option.splits)

lemma poll_duration_leased:
  "poll_duration os (Some m) s = (Inr d, s') \<longleftrightarrow>
     fst s' = fst s \<and> snd s' = snd (os_now os (snd s)) \<and> d = wait_duration m (fst (os_now os (snd s)))"
  by (cases s; cases s') (auto simp: poll_duration_def split: prod.splits)

lemma expired_now_leased:
  "expired_now os (Some m) s = (Inr b, s') \<longleftrightarrow>
     fst s' = fst s \<and> snd s' = snd (os_now os (snd s))
     \<and> b = lease_monitor_is_expired m (fst (os_now os (snd s)))"
  by (cases s; cases s') (auto simp: expired_now_def split: prod.splits)

lemma end_with_returns: "end_with kill e s \<noteq> (Inr (Continue l c), s')"
  by (simp add: end_with_ok)

definition iteration_progress ::
  "('w \<Rightarrow> Instant) \<Rightarrow> SessionLeaseMonitor \<Rightarrow> bool \<Rightarrow> bool \<Rightarrow> 'w \<Rightarrow> 'w \<Rightarrow> bool" where
  "iteration_progress clk m connected connected' w w' \<longleftrightarrow> clk w \<le> clk w'
     \<and> (connected \<and> \<not> connected'
        \<or> connected' = connected
          \<and> lease_millis m (clk w) < unat (ls_deadline_millis (lm_state m))
          \<and> lease_millis m (clk w) < lease_millis m (clk w'))"

lemma on_control_silent:
  assumes "on_control os (Some m) ev s = (Inr (Continue lease' connected'), s')"
    and "\<And>t. ev \<noteq> Received (Heartbeat t)"
  shows "lease' = Some m
    \<and> (ev = RecvDisconnected \<and> \<not> connected' \<and> s' = s
       \<or> ev = RecvTimeout \<and> connected' \<and> snd s' = snd (os_now os (snd s))
           \<and> \<not> lease_monitor_is_expired m (fst (os_now os (snd s))))"
proof (cases ev)
  case (Received c)
  with assms show ?thesis by (cases c) (auto simp: on_control_def end_with_returns)
next
  case RecvTimeout
  with assms(1) show ?thesis
    by (auto simp: on_control_def child_bind_ok child_return_ok expired_now_leased end_with_returns
        split: if_splits)
next
  case RecvDisconnected
  with assms(1) show ?thesis by (simp add: on_control_def child_return_ok)
qed

lemma silent_iteration_continues:
  assumes silent: "silent_client os clk" and origin: "lm_origin m \<le> clk (snd s)"
    and cont: "wait_iteration os (Some m) connected s = (Inr (Continue lease' connected'), s')"
  shows "lease' = Some m \<and> iteration_progress clk m connected connected' (snd s) (snd s')"
proof -
  obtain v where v: "try_wait_and_cleanup os s = (Inr None, v)"
    and rest: "child_bind (poll_duration os (Some m)) (\<lambda>duration.
         if \<not> connected
         then child_bind (\<lambda>(child, w). (Inr (), child, os_sleep os duration w)) (\<lambda>_.
              child_bind (expired_now os (Some m)) (\<lambda>expired.
              if expired then end_with (terminate_child os) lease_session_end
              else child_return (Continue (Some m) connected)))
         else child_bind (child_system (\<lambda>w. case os_recv_timeout os duration w of (r, w') \<Rightarrow> (Inr r, w')))
                (on_control os (Some m))) v = (Inr (Continue lease' connected'), s')"
    using cont by (auto simp: wait_iteration_def child_bind_ok child_return_ok split: option.splits)
  let ?now = "os_now os (snd v)" let ?d = "wait_duration m (fst ?now)"
  have c1: "clk (snd s) \<le> fst ?now" "fst ?now \<le> clk (snd ?now)"
    using silent try_wait_running [OF v] unfolding silent_client_def by (metis le_trans)+
  show ?thesis
  proof (cases connected)
    case False
    let ?w = "os_sleep os ?d (snd ?now)"
    from rest False have r: "lease' = Some m" "\<not> connected'" "snd s' = snd (os_now os ?w)"
      "\<not> lease_monitor_is_expired m (fst (os_now os ?w))"
      by (auto simp: child_bind_ok child_return_ok poll_duration_leased expired_now_leased
          end_with_returns split: if_splits prod.splits)
    have "fst ?now + ?d * 1000000 \<le> fst (os_now os ?w)" "fst (os_now os ?w) \<le> clk (snd (os_now os ?w))"
      using silent c1(2) unfolding silent_client_def by (meson add_le_mono1 le_trans)+
    from timed_progress [OF origin c1(1) this r(4)] r False show ?thesis
      by (simp add: iteration_progress_def)
  next
    case True
    let ?recv = "os_recv_timeout os ?d (snd ?now)"
    from rest True obtain q where q: "snd q = snd ?recv"
      "on_control os (Some m) (fst ?recv) q = (Inr (Continue lease' connected'), s')"
      by (auto simp: child_bind_ok poll_duration_leased child_system_ok split: prod.splits)
    have "\<And>t. fst ?recv \<noteq> Received (Heartbeat t)" using silent unfolding silent_client_def by blast
    note oc = on_control_silent [OF q(2) this]
    have le: "clk (snd s) \<le> clk (snd ?recv)"
      using silent c1 unfolding silent_client_def by (meson le_trans)
    show ?thesis
    proof (cases "fst ?recv = RecvTimeout")
      case False
      with oc q(1) le True show ?thesis by (auto simp: iteration_progress_def)
    next
      case timeout: True
      let ?w = "snd ?recv"
      from oc timeout q(1) have r: "lease' = Some m" "connected'" "snd s' = snd (os_now os ?w)"
        "\<not> lease_monitor_is_expired m (fst (os_now os ?w))" by auto
      have "clk (snd ?now) + ?d * 1000000 \<le> clk ?w" "clk ?w \<le> fst (os_now os ?w)"
        "fst (os_now os ?w) \<le> clk (snd (os_now os ?w))"
        using silent timeout unfolding silent_client_def by blast+
      with c1(2) have "fst ?now + ?d * 1000000 \<le> fst (os_now os ?w)" by linarith
      from timed_progress [OF origin c1(1) this \<open>fst (os_now os ?w) \<le> _\<close> r(4)] r True show ?thesis
        by (simp add: iteration_progress_def)
    qed
  qed
qed


text \<open>The iterations a leased session with a silent client has left.\<close>

lemma silent_loop_returns:
  assumes "silent_client os clk"
  shows "lm_origin m \<le> clk (snd s) \<Longrightarrow>
    unat (ls_deadline_millis (lm_state m)) - lease_millis m (clk (snd s)) + of_bool connected < fuel \<Longrightarrow>
    wait_loop os fuel (Some m) connected s \<noteq> None"
proof (induction fuel arbitrary: connected s)
  case (Suc fuel)
  obtain res s' where it: "wait_iteration os (Some m) connected s = (res, s')"
    by (cases "wait_iteration os (Some m) connected s")
  show ?case
  proof (cases "\<exists>l c. res = Inr (Continue l c)")
    case False
    with it show ?thesis by (auto split: sum.splits wait_flow.splits)
  next
    case True
    then obtain c where c: "res = Inr (Continue (Some m) c)"
      and p: "iteration_progress clk m connected c (snd s) (snd s')"
      using silent_iteration_continues [OF assms Suc.prems(1)] it by blast
    then have "unat (ls_deadline_millis (lm_state m)) - lease_millis m (clk (snd s')) + of_bool c < fuel"
      using Suc.prems(2) lease_millis_mono [of "clk (snd s)" "clk (snd s')" m]
      unfolding iteration_progress_def by (auto split: if_splits)
    moreover have "lm_origin m \<le> clk (snd s')"
      using p Suc.prems(1) by (simp add: iteration_progress_def)
    ultimately show ?thesis using Suc.IH it c by simp
  qed
qed simp


section \<open>Properties\<close>

text \<open>
  C5: however a session ends (exit, cancellation, signal, disconnect, protocol error or expired
  lease), when \<open>wait_for_child\<close> reports the end, the system was asked exactly once to terminate the
  process tree, that call succeeded, with the signal's exit code where the end is a signal and with the
  code of a cancellation for every other end but a normal one, and the owner is disarmed.  When
  \<open>wait_for_child\<close> fails instead, the tree is still owned unless one call terminated it, so that the
  drop of the child tries again; a terminated tree is never asked for a second time.
\<close>

theorem session_end_releases_tree:
  assumes "wait_for_child os fuel mode (\<lparr>sc_tree = Some tree\<rparr>, w) = Some (result, child, w')"
  shows "\<exists>calls. wait_for_child (recording os) fuel mode (\<lparr>sc_tree = Some tree\<rparr>, w, []) = Some (result, child, w', calls)
    \<and> (case result of
         Inr (status, end') \<Rightarrow> sc_tree child = None \<and> (\<exists>code. calls = [(tree, code, True)] \<and> end_code end' code)
       | Inl error \<Rightarrow> (sc_tree child = None \<and> (\<exists>code. calls = [(tree, code, True)]))
           \<or> (sc_tree child = Some tree \<and> (calls = [] \<or> (\<exists>code. calls = [(tree, code, False)]))))"
proof -
  obtain calls where run: "wait_for_child (recording os) fuel mode (\<lparr>sc_tree = Some tree\<rparr>, w, []) = Some (result, child, w', calls)"
    using recorded_run [OF assms] by blast
  then have "tree_post tree (session_post tree) (result, child, w', calls)"
    by (intro tree_post_wait_for_child) (auto simp: tree_owned_def)
  then have "case result of
         Inr (status, end') \<Rightarrow> sc_tree child = None \<and> (\<exists>code. calls = [(tree, code, True)] \<and> end_code end' code)
       | Inl error \<Rightarrow> (sc_tree child = None \<and> (\<exists>code. calls = [(tree, code, True)]))
           \<or> (sc_tree child = Some tree \<and> (calls = [] \<or> (\<exists>code. calls = [(tree, code, False)])))"
    by (auto simp: tree_post_def session_post_def tree_accounted_def tree_owned_def tree_released_def tree_kept_def split: sum.splits prod.splits)
  with run show ?thesis by blast
qed

definition idle_system :: "nat session_os" where
  "idle_system = \<lparr>os_try_wait = (\<lambda>w. (Inr None, w)), os_wait = (\<lambda>w. (Inr (Some 130), w)),
     os_tree_terminate = (\<lambda>_ _ w. (Inr (), w)), os_now = (\<lambda>w. (w, w)),
     os_sleep = (\<lambda>d w. w + d * 1000000), os_recv_timeout = (\<lambda>d w. (RecvTimeout, w + d * 1000000))\<rparr>"

theorem session_end_releases_tree_witness:
  "wait_for_child (idle_system\<lparr>os_recv_timeout := \<lambda>d w. (Received (Signal Terminate), w)\<rparr>) 1 Legacy
     (\<lparr>sc_tree = Some 7\<rparr>, 0) = Some (Inr (Some 130, Signalled 143), \<lparr>sc_tree = None\<rparr>, 0)
   \<and> wait_for_child (recording (idle_system\<lparr>os_recv_timeout := \<lambda>d w. (Received (Signal Terminate), w)\<rparr>)) 1 Legacy
     (\<lparr>sc_tree = Some 7\<rparr>, 0, []) = Some (Inr (Some 130, Signalled 143), \<lparr>sc_tree = None\<rparr>, 0, [(7, 143, True)])"
proof -
  have "wait_for_child (idle_system\<lparr>os_recv_timeout := \<lambda>d w. (Received (Signal Terminate), w)\<rparr>) 1 Legacy
     (\<lparr>sc_tree = Some 7\<rparr>, 0) = Some (Inr (Some 130, Signalled 143), \<lparr>sc_tree = None\<rparr>, 0)" by code_simp
  from this session_end_releases_tree [OF this] show ?thesis by auto
qed

text \<open>
  Process-tree ownership is one-shot: once a termination has succeeded, no sequence of
  waits, terminations and the final drop ever reaches the process group again, whatever that
  call would do, since its number may by then belong to other processes.
\<close>

lemma disarmed_tree_never_signalled:
  assumes "terminate_tree os code s = (Inr (), s')"
  shows "fold (run_op (os\<lparr>os_tree_terminate := kill\<rparr>)) ops s' = fold (run_op os) ops s'
    \<and> sc_tree (fst (fold (run_op os) ops s')) = None"
  using run_ops_disarmed [OF terminate_tree_disarms [OF assms], where os = os and kill = kill and ops = ops]
    terminate_tree_disarms [OF assms] by simp

text \<open>
  C6: a leased session does not outlive its client: when no heartbeat arrives any more, the
  loop returns, within as many iterations as the lease has milliseconds (and two more),
  whatever the process does and whether or not the control channel is still open.
\<close>

theorem silent_leased_session_ends:
  assumes "silent_client os clk" and "session_mode_lease mode = Some lease"
  shows "\<exists>result. wait_for_child os (unat (sl_timeout_millis lease) + 2) mode (child, w) = Some result"
proof -
  obtain now w' where now: "os_now os w = (now, w')" by (cases "os_now os w")
  then have "now \<le> clk w'" using assms(1) unfolding silent_client_def by (metis fst_conv snd_conv)
  moreover have "unat (ls_deadline_millis (lease_state_new lease 0)) \<le> unat (sl_timeout_millis lease)"
    by (simp add: unat_saturating_add)
  ultimately have "wait_loop os (unat (sl_timeout_millis lease) + 2) (Some (lease_monitor_new lease now)) True
      (child, w') \<noteq> None"
    by (intro silent_loop_returns [OF assms(1)]) (simp_all add: lease_monitor_new_def)
  with now assms(2) show ?thesis by (auto simp: wait_for_child_def)
qed

theorem silent_leased_session_ends_witness:
  "\<exists>result. wait_for_child idle_system 1002 (Controlled \<lparr>so_cancel_on_disconnect = True\<rparr>
     (Some \<lparr>sl_timeout_millis = 1000\<rparr>)) (\<lparr>sc_tree = Some 7\<rparr>, 0) = Some result"
proof -
  have "silent_client idle_system id" by (simp add: silent_client_def idle_system_def)
  from silent_leased_session_ends [OF this, of "Controlled \<lparr>so_cancel_on_disconnect = True\<rparr>
     (Some \<lparr>sl_timeout_millis = 1000\<rparr>)" "\<lparr>sl_timeout_millis = 1000\<rparr>" "\<lparr>sc_tree = Some 7\<rparr>" 0]
  show ?thesis by simp
qed

end
