(* ===== verification/Input_Bridge.thy ===== *)
theory Input_Bridge
  imports Session_Child
begin

text \<open>
  The threads of \<open>process_bridge.rs\<close> that carry a running session between the client and its
  process: \<open>spawn_input_bridge\<close> and \<open>spawn_terminal_input_bridge\<close>, which turn the frames of
  the client into input of the process and control events, and \<open>finish_session\<close>, which reports
  the end.  The client's stream is the bytes still to be read, the process input is a
  \<open>Writer\<close> and the control channel is the list of the events sent so far, with the number of
  sends its receiver will still accept.  The clock readings of the heartbeats are given by
  \<open>now\<close>, in order; \<open>render\<close> is the text of a message, as Rust's formatting makes it.
\<close>

section \<open>Texts\<close>

primrec frame_kind_debug :: "FrameKind \<Rightarrow> string" where
  "frame_kind_debug Hello = ''Hello''"
| "frame_kind_debug HelloOk = ''HelloOk''"
| "frame_kind_debug FK_Error = ''Error''"
| "frame_kind_debug Ping = ''Ping''"
| "frame_kind_debug Pong = ''Pong''"
| "frame_kind_debug Start = ''Start''"
| "frame_kind_debug Stdin = ''Stdin''"
| "frame_kind_debug Stdout = ''Stdout''"
| "frame_kind_debug Stderr = ''Stderr''"
| "frame_kind_debug Resize = ''Resize''"
| "frame_kind_debug Exit = ''Exit''"
| "frame_kind_debug TerminalStart = ''TerminalStart''"
| "frame_kind_debug SessionOptions = ''SessionOptions''"
| "frame_kind_debug StdinClose = ''StdinClose''"
| "frame_kind_debug SessionCancel = ''SessionCancel''"
| "frame_kind_debug FilePut = ''FilePut''"
| "frame_kind_debug FileGet = ''FileGet''"
| "frame_kind_debug FileData = ''FileData''"
| "frame_kind_debug FileDone = ''FileDone''"
| "frame_kind_debug SessionLease = ''SessionLease''"
| "frame_kind_debug SessionHeartbeat = ''SessionHeartbeat''"
| "frame_kind_debug ProcessEnvironment = ''ProcessEnvironment''"
| "frame_kind_debug SessionDetach = ''SessionDetach''"
| "frame_kind_debug Started = ''Started''"
| "frame_kind_debug SessionSignal = ''SessionSignal''"
| "frame_kind_debug PowerHibernate = ''PowerHibernate''"
| "frame_kind_debug UserCreate = ''UserCreate''"
| "frame_kind_debug MaintenanceTrim = ''MaintenanceTrim''"
| "frame_kind_debug MaintenanceHibernate = ''MaintenanceHibernate''"
| "frame_kind_debug UserSetRole = ''UserSetRole''"
| "frame_kind_debug WindowsSudoQuery = ''WindowsSudoQuery''"
| "frame_kind_debug WindowsSudoConfigure = ''WindowsSudoConfigure''"
| "frame_kind_debug WindowsSudoStatus = ''WindowsSudoStatus''"
| "frame_kind_debug LiveShareQuery = ''LiveShareQuery''"
| "frame_kind_debug LiveShareConfigure = ''LiveShareConfigure''"
| "frame_kind_debug LiveShareStatus = ''LiveShareStatus''"
| "frame_kind_debug MaintenanceShutdown = ''MaintenanceShutdown''"
| "frame_kind_debug DesktopCompanionStart = ''DesktopCompanionStart''"
| "frame_kind_debug GuiStart = ''GuiStart''"
| "frame_kind_debug GuiIcon = ''GuiIcon''"
| "frame_kind_debug GuiIconData = ''GuiIconData''"
| "frame_kind_debug DesktopLiveShareConfigure = ''DesktopLiveShareConfigure''"
| "frame_kind_debug GuiWindowOpen = ''GuiWindowOpen''"
| "frame_kind_debug GuiWindowReady = ''GuiWindowReady''"
| "frame_kind_debug GuiWindowDamage = ''GuiWindowDamage''"
| "frame_kind_debug GuiWindowInput = ''GuiWindowInput''"
| "frame_kind_debug GuiWindowResize = ''GuiWindowResize''"
| "frame_kind_debug GuiWindowClose = ''GuiWindowClose''"
| "frame_kind_debug GuiWindowClosed = ''GuiWindowClosed''"
| "frame_kind_debug GuiWindowAction = ''GuiWindowAction''"
| "frame_kind_debug GuiWindowDragHint = ''GuiWindowDragHint''"

primrec io_error_display :: "io_error \<Rightarrow> string" where
  "io_error_display UnexpectedEof = ''failed to fill whole buffer''"
| "io_error_display BrokenPipe = ''broken pipe''"
| "io_error_display NotFound = ''No such file or directory (os error 2)''"
| "io_error_display AlreadyExists = ''File exists (os error 17)''"
| "io_error_display InvalidUtf8 = ''stream did not contain valid UTF-8''"
| "io_error_display (OsError text') = text'"

primrec protocol_error_display :: "ProtocolError \<Rightarrow> message" where
  "protocol_error_display (Io e) = [Text ''I/O error: '', Disp (io_error_display e)]"
| "protocol_error_display (Protocol reason) = Text ''protocol error: '' # reason"

text \<open>\<open>write_all\<close> fails with an I/O error only.\<close>

primrec write_error_display :: "ProtocolError \<Rightarrow> string" where
  "write_error_display (Io e) = io_error_display e"
| "write_error_display (Protocol reason) = []"


section \<open>The control channel\<close>

record Channel =
  cn_sent :: "SessionControlEvent list"
  cn_accepts :: "nat option"

definition channel_send :: "Channel \<Rightarrow> SessionControlEvent \<Rightarrow> Channel \<times> bool" where
  "channel_send c e =
     (case cn_accepts c of
        None \<Rightarrow> (c\<lparr>cn_sent := cn_sent c @ [e]\<rparr>, True)
      | Some 0 \<Rightarrow> (c, False)
      | Some (Suc n) \<Rightarrow> (c\<lparr>cn_sent := cn_sent c @ [e], cn_accepts := Some n\<rparr>, True))"

definition report_protocol_error :: "Channel \<Rightarrow> SessionMode \<Rightarrow> message \<Rightarrow> Channel" where
  "report_protocol_error sender session_mode m =
     (if is_controlled session_mode then fst (channel_send sender (EventProtocolError m)) else sender)"


section \<open>The input of a process\<close>

text \<open>
  The process input of a bridge: the writer, and whether it is still open.  A closed input
  keeps the bytes the process has received.
\<close>

record Bridge =
  br_stdin :: Writer
  br_open :: bool
  br_control :: Channel
  br_heartbeats :: nat

definition bridge_report :: "SessionMode \<Rightarrow> message \<Rightarrow> Bridge \<Rightarrow> Bridge" where
  "bridge_report session_mode m b = b\<lparr>br_control := report_protocol_error (br_control b) session_mode m\<rparr>"

definition bridge_close :: "Bridge \<Rightarrow> Bridge" where
  "bridge_close b = b\<lparr>br_open := False\<rparr>"

definition bridge_event :: "SessionControlEvent \<Rightarrow> Bridge \<Rightarrow> Bridge" where
  "bridge_event e b = b\<lparr>br_control := fst (channel_send (br_control b) e)\<rparr>"

text \<open>The arms of the loop; the second component says whether the loop goes on.\<close>

definition input_stdin :: "SessionMode \<Rightarrow> bytes \<Rightarrow> Bridge \<Rightarrow> Bridge \<times> bool" where
  "input_stdin session_mode payload b =
     (if \<not> br_open b
      then (bridge_report session_mode [Text ''STDIN was sent after STDIN_CLOSE''] b, False)
      else case write_all (br_stdin b) payload of
             (w, Inl error) \<Rightarrow>
               (bridge_report session_mode [Text ''could not write child stdin: '', Disp (write_error_display error)]
                  (b\<lparr>br_stdin := w\<rparr>), False)
           | (w, Inr _) \<Rightarrow> (b\<lparr>br_stdin := w\<rparr>, True))"

definition input_resize :: "SessionMode \<Rightarrow> bytes \<Rightarrow> Bridge \<Rightarrow> Bridge \<times> bool" where
  "input_resize session_mode payload b =
     (case decode_resize payload of
        Inl error \<Rightarrow> (bridge_report session_mode (protocol_error_display error) b, False)
      | Inr _ \<Rightarrow> (b, True))"

definition input_stdin_close :: "SessionMode \<Rightarrow> bytes \<Rightarrow> Bridge \<Rightarrow> Bridge \<times> bool" where
  "input_stdin_close session_mode payload b =
     (if \<not> is_controlled session_mode \<or> payload \<noteq> []
      then (bridge_report session_mode
              [Text ''STDIN_CLOSE requires a controlled session and an empty payload''] b, False)
      else if \<not> br_open b
      then (bridge_report session_mode [Text ''STDIN_CLOSE was sent more than once''] b, False)
      else (bridge_close b, True))"

definition input_cancel :: "SessionMode \<Rightarrow> bytes \<Rightarrow> Bridge \<Rightarrow> Bridge \<times> bool" where
  "input_cancel session_mode payload b =
     (if \<not> is_controlled session_mode \<or> payload \<noteq> []
      then (bridge_report session_mode
              [Text ''SESSION_CANCEL requires a controlled session and an empty payload''] b, False)
      else (bridge_event Cancel (bridge_close b), False))"

definition input_signal :: "SessionMode \<Rightarrow> bytes \<Rightarrow> Bridge \<Rightarrow> Bridge \<times> bool" where
  "input_signal session_mode payload b =
     (if \<not> is_controlled session_mode
      then (bridge_report session_mode [Text ''SESSION_SIGNAL requires a controlled session''] b, False)
      else case session_signal_decode payload of
             Inl error \<Rightarrow> (bridge_report session_mode (protocol_error_display error) b, False)
           | Inr signal \<Rightarrow> (bridge_event (Signal signal) (bridge_close b), False))"

definition input_heartbeat ::
  "(nat \<Rightarrow> Instant) \<Rightarrow> SessionMode \<Rightarrow> bytes \<Rightarrow> Bridge \<Rightarrow> Bridge \<times> bool" where
  "input_heartbeat now session_mode payload b =
     (if session_mode_lease session_mode = None \<or> payload \<noteq> []
      then (bridge_report session_mode
              [Text ''SESSION_HEARTBEAT requires a leased session and an empty payload''] b, False)
      else (let (c, sent) = channel_send (br_control b) (Heartbeat (now (br_heartbeats b)))
            in (b\<lparr>br_control := c, br_heartbeats := br_heartbeats b + 1\<rparr>, sent)))"

definition input_frame ::
  "(nat \<Rightarrow> Instant) \<Rightarrow> SessionMode \<Rightarrow> Frame \<Rightarrow> Bridge \<Rightarrow> Bridge \<times> bool" where
  "input_frame now session_mode frame b =
     (case fr_kind frame of
        Stdin \<Rightarrow> input_stdin session_mode (fr_payload frame) b
      | Resize \<Rightarrow> input_resize session_mode (fr_payload frame) b
      | StdinClose \<Rightarrow> input_stdin_close session_mode (fr_payload frame) b
      | SessionCancel \<Rightarrow> input_cancel session_mode (fr_payload frame) b
      | FrameKind.SessionSignal \<Rightarrow> input_signal session_mode (fr_payload frame) b
      | SessionHeartbeat \<Rightarrow> input_heartbeat now session_mode (fr_payload frame) b
      | k \<Rightarrow> (bridge_report session_mode
                [Text ''unexpected '', Disp (frame_kind_debug k), Text '' frame in process session''] b, False))"

definition input_failed :: "SessionMode \<Rightarrow> ProtocolError \<Rightarrow> Bridge \<Rightarrow> Bridge" where
  "input_failed session_mode error b =
     (case error of
        Io _ \<Rightarrow> (let b = bridge_close b
                 in if cancel_on_disconnect session_mode then bridge_event Disconnect b else b)
      | Protocol _ \<Rightarrow> bridge_report session_mode (protocol_error_display error) b)"

text \<open>The thread's closure ends by dropping the process input.\<close>

function input_bridge :: "(nat \<Rightarrow> Instant) \<Rightarrow> SessionMode \<Rightarrow> bytes \<Rightarrow> Bridge \<Rightarrow> Bridge" where
  "input_bridge now session_mode stream b =
     (case read_frame stream of
        Inl error \<Rightarrow> bridge_close (input_failed session_mode error b)
      | Inr (frame, stream') \<Rightarrow>
          (case input_frame now session_mode frame b of
             (b', True) \<Rightarrow> input_bridge now session_mode stream' b'
           | (b', False) \<Rightarrow> bridge_close b'))"
  by pat_completeness auto
termination
  by (relation "measure (\<lambda>(_, _, stream, _). length stream)") (auto dest: read_frame_shorter)



section \<open>The input of a terminal\<close>

text \<open>
  The pseudo console is a parameter: given the sizes it has been set to, it answers a resize
  with nothing when it is gone, or with the result of the call.
\<close>

type_synonym console = "TerminalSize list \<Rightarrow> TerminalSize \<Rightarrow> (string + unit) option"

record TerminalBridge = Bridge +
  tb_sizes :: "TerminalSize list"

definition terminal_bridge_failure ::
  "SessionMode \<Rightarrow> message \<Rightarrow> Channel \<Rightarrow> Channel \<times> (message + unit)" where
  "terminal_bridge_failure session_mode m sender =
     (if is_controlled session_mode
      then (fst (channel_send sender (EventProtocolError m)), Inr ())
      else (sender, Inl m))"

definition terminal_failure ::
  "SessionMode \<Rightarrow> message \<Rightarrow> TerminalBridge \<Rightarrow> TerminalBridge \<times> (message + unit) option" where
  "terminal_failure session_mode m b =
     (let (c, r) = terminal_bridge_failure session_mode m (br_control b)
      in (b\<lparr>br_control := c\<rparr>, Some r))"

definition terminal_report ::
  "SessionMode \<Rightarrow> message \<Rightarrow> TerminalBridge \<Rightarrow> TerminalBridge \<times> (message + unit) option" where
  "terminal_report session_mode m b =
     (b\<lparr>br_control := report_protocol_error (br_control b) session_mode m\<rparr>, Some (Inr ()))"

definition terminal_stdin ::
  "SessionMode \<Rightarrow> bytes \<Rightarrow> TerminalBridge \<Rightarrow> TerminalBridge \<times> (message + unit) option" where
  "terminal_stdin session_mode payload b =
     (if \<not> br_open b
      then terminal_report session_mode [Text ''STDIN was sent after STDIN_CLOSE''] b
      else case write_all (br_stdin b) payload of
             (w, Inl error) \<Rightarrow>
               terminal_failure session_mode [Disp (write_error_display error)] (b\<lparr>br_stdin := w\<rparr>)
           | (w, Inr _) \<Rightarrow> (b\<lparr>br_stdin := w\<rparr>, None))"

definition terminal_resize ::
  "console \<Rightarrow> SessionMode \<Rightarrow> bytes \<Rightarrow> TerminalBridge \<Rightarrow> TerminalBridge \<times> (message + unit) option" where
  "terminal_resize console session_mode payload b =
     (case terminal_size_decode payload of
        Inl error \<Rightarrow> terminal_failure session_mode (protocol_error_display error) b
      | Inr dimensions \<Rightarrow>
          (case console (tb_sizes b) dimensions of
             None \<Rightarrow> (b, Some (Inr ()))
           | Some (Inl error) \<Rightarrow> terminal_failure session_mode [Disp error] b
           | Some (Inr _) \<Rightarrow> (b\<lparr>tb_sizes := tb_sizes b @ [dimensions]\<rparr>, None)))"

definition terminal_stdin_close ::
  "SessionMode \<Rightarrow> bytes \<Rightarrow> TerminalBridge \<Rightarrow> TerminalBridge \<times> (message + unit) option" where
  "terminal_stdin_close session_mode payload b =
     (if \<not> is_controlled session_mode \<or> payload \<noteq> []
      then terminal_report session_mode
             [Text ''STDIN_CLOSE requires a controlled session and an empty payload''] b
      else if \<not> br_open b
      then terminal_report session_mode [Text ''STDIN_CLOSE was sent more than once''] b
      else (b\<lparr>br_open := False\<rparr>, None))"

definition terminal_event ::
  "SessionControlEvent \<Rightarrow> TerminalBridge \<Rightarrow> TerminalBridge" where
  "terminal_event e b = b\<lparr>br_open := False, br_control := fst (channel_send (br_control b) e)\<rparr>"

definition terminal_cancel ::
  "SessionMode \<Rightarrow> bytes \<Rightarrow> TerminalBridge \<Rightarrow> TerminalBridge \<times> (message + unit) option" where
  "terminal_cancel session_mode payload b =
     (if \<not> is_controlled session_mode \<or> payload \<noteq> []
      then terminal_report session_mode
             [Text ''SESSION_CANCEL requires a controlled session and an empty payload''] b
      else (terminal_event Cancel b, Some (Inr ())))"

definition terminal_signal ::
  "SessionMode \<Rightarrow> bytes \<Rightarrow> TerminalBridge \<Rightarrow> TerminalBridge \<times> (message + unit) option" where
  "terminal_signal session_mode payload b =
     (if \<not> is_controlled session_mode
      then terminal_failure session_mode [Text ''SESSION_SIGNAL requires a controlled session''] b
      else case session_signal_decode payload of
             Inl error \<Rightarrow> terminal_failure session_mode (protocol_error_display error) b
           | Inr signal \<Rightarrow> (terminal_event (Signal signal) b, Some (Inr ())))"

definition terminal_heartbeat ::
  "(nat \<Rightarrow> Instant) \<Rightarrow> SessionMode \<Rightarrow> bytes \<Rightarrow> TerminalBridge
     \<Rightarrow> TerminalBridge \<times> (message + unit) option" where
  "terminal_heartbeat now session_mode payload b =
     (if session_mode_lease session_mode = None \<or> payload \<noteq> []
      then terminal_report session_mode
             [Text ''SESSION_HEARTBEAT requires a leased session and an empty payload''] b
      else (let (c, sent) = channel_send (br_control b) (Heartbeat (now (br_heartbeats b)))
            in (b\<lparr>br_control := c, br_heartbeats := br_heartbeats b + 1\<rparr>,
                if sent then None else Some (Inr ()))))"

definition terminal_frame ::
  "console \<Rightarrow> (nat \<Rightarrow> Instant) \<Rightarrow> SessionMode \<Rightarrow> Frame \<Rightarrow> TerminalBridge
     \<Rightarrow> TerminalBridge \<times> (message + unit) option" where
  "terminal_frame console now session_mode frame b =
     (case fr_kind frame of
        Stdin \<Rightarrow> terminal_stdin session_mode (fr_payload frame) b
      | Resize \<Rightarrow> terminal_resize console session_mode (fr_payload frame) b
      | StdinClose \<Rightarrow> terminal_stdin_close session_mode (fr_payload frame) b
      | SessionCancel \<Rightarrow> terminal_cancel session_mode (fr_payload frame) b
      | FrameKind.SessionSignal \<Rightarrow> terminal_signal session_mode (fr_payload frame) b
      | SessionHeartbeat \<Rightarrow> terminal_heartbeat now session_mode (fr_payload frame) b
      | k \<Rightarrow> terminal_failure session_mode
               [Text ''unexpected '', Disp (frame_kind_debug k), Text '' frame in terminal session''] b)"

definition terminal_failed ::
  "SessionMode \<Rightarrow> ProtocolError \<Rightarrow> TerminalBridge \<Rightarrow> TerminalBridge \<times> (message + unit)" where
  "terminal_failed session_mode error b =
     (case error of
        Io _ \<Rightarrow> (let b = b\<lparr>br_open := False\<rparr>
                 in (if cancel_on_disconnect session_mode then terminal_event Disconnect b else b, Inr ()))
      | Protocol _ \<Rightarrow>
          (let (c, r) = terminal_bridge_failure session_mode (protocol_error_display error) (br_control b)
           in (b\<lparr>br_control := c\<rparr>, r)))"

function terminal_input_bridge ::
  "console \<Rightarrow> (nat \<Rightarrow> Instant) \<Rightarrow> SessionMode \<Rightarrow> bytes \<Rightarrow> TerminalBridge
     \<Rightarrow> TerminalBridge \<times> (message + unit)" where
  "terminal_input_bridge console now session_mode stream b =
     (case read_frame stream of
        Inl error \<Rightarrow> terminal_failed session_mode error b
      | Inr (frame, stream') \<Rightarrow>
          (case terminal_frame console now session_mode frame b of
             (b', None) \<Rightarrow> terminal_input_bridge console now session_mode stream' b'
           | (b', Some r) \<Rightarrow> (b', r)))"
  by pat_completeness auto
termination
  by (relation "measure (\<lambda>(_, _, _, stream, _). length stream)") (auto dest: read_frame_shorter)


section \<open>Reporting the end\<close>

definition send_shared :: "Writer \<Rightarrow> Frame \<Rightarrow> Writer \<times> (message + unit)" where
  "send_shared w frame =
     (case write_frame w frame of
        (w', Inl error) \<Rightarrow> (w', Inl (protocol_error_display error))
      | (w', Inr _) \<Rightarrow> (w', Inr ()))"

definition finish_session ::
  "(message \<Rightarrow> string) \<Rightarrow> Writer \<Rightarrow> SessionEnd \<Rightarrow> i32 \<Rightarrow> Writer \<times> (message + unit)" where
  "finish_session render writer session_end normal_exit_code =
     (case session_end of
        Normal \<Rightarrow> send_shared writer (frame_new Exit (encode_exit normal_exit_code))
      | Cancelled \<Rightarrow> send_shared writer (frame_new Exit (encode_exit SESSION_CANCEL_EXIT_CODE))
      | Signalled code \<Rightarrow> send_shared writer (frame_new Exit (encode_exit code))
      | Disconnected \<Rightarrow> (writer, Inr ())
      | LeaseExpired \<Rightarrow> (writer, Inl [Text ''session heartbeat lease expired''])
      | EndProtocolError m \<Rightarrow>
          (case send_shared writer (frame_new FK_Error (as_bytes (render m))) of
             (w', Inl error) \<Rightarrow> (w', Inl error)
           | (w', Inr _) \<Rightarrow> (w', Inl m)))"


section \<open>The bridges as frame loops\<close>

definition input_step ::
  "(nat \<Rightarrow> Instant) \<Rightarrow> SessionMode \<Rightarrow> Frame \<Rightarrow> Bridge \<Rightarrow> Bridge \<times> Bridge option" where
  "input_step now session_mode frame b =
     (case input_frame now session_mode frame b of
        (b', True) \<Rightarrow> (b', None) | (b', False) \<Rightarrow> (b', Some (bridge_close b')))"

definition terminal_step ::
  "console \<Rightarrow> (nat \<Rightarrow> Instant) \<Rightarrow> SessionMode \<Rightarrow> Frame \<Rightarrow> TerminalBridge
     \<Rightarrow> TerminalBridge \<times> (TerminalBridge \<times> (message + unit)) option" where
  "terminal_step console now session_mode frame b =
     (case terminal_frame console now session_mode frame b of
        (b', None) \<Rightarrow> (b', None) | (b', Some r) \<Rightarrow> (b', Some (b', r)))"

declare input_bridge.simps [simp del] terminal_input_bridge.simps [simp del]

interpretation input: frame_loop "input_bridge now session_mode" "input_step now session_mode"
  "\<lambda>e b. bridge_close (input_failed session_mode e b)" for now session_mode
  by unfold_locales
    (subst input_bridge.simps, auto simp: input_step_def split: sum.splits prod.splits bool.splits)

interpretation terminal: frame_loop "terminal_input_bridge console now session_mode"
  "terminal_step console now session_mode" "\<lambda>e b. terminal_failed session_mode e b"
  for console now session_mode
  by unfold_locales
    (subst terminal_input_bridge.simps, auto simp: terminal_step_def split: sum.splits prod.splits option.splits)


section \<open>What the bridges send\<close>

text \<open>
  The events a bridge has sent on top of \<open>sent\<close>, its heartbeat count having been \<open>h\<close>: the
  heartbeats, each with its clock reading, and at the end of the bridge at most one event that
  ends the session.
\<close>

definition heartbeats_sent ::
  "(nat \<Rightarrow> Instant) \<Rightarrow> SessionMode \<Rightarrow> SessionControlEvent list \<Rightarrow> nat \<Rightarrow> SessionControlEvent list \<Rightarrow> nat \<Rightarrow> bool" where
  "heartbeats_sent now session_mode sent h events n \<longleftrightarrow>
     events = sent @ map (Heartbeat \<circ> now) [h..<h + n] \<and> (n \<noteq> 0 \<longrightarrow> session_mode_lease session_mode \<noteq> None)"

definition ending_event :: "SessionMode \<Rightarrow> SessionControlEvent \<Rightarrow> bool" where
  "ending_event session_mode e \<longleftrightarrow> is_controlled session_mode
     \<and> (case e of Heartbeat _ \<Rightarrow> False | Disconnect \<Rightarrow> cancel_on_disconnect session_mode | _ \<Rightarrow> True)"

definition events_disciplined ::
  "(nat \<Rightarrow> Instant) \<Rightarrow> SessionMode \<Rightarrow> SessionControlEvent list \<Rightarrow> nat \<Rightarrow> SessionControlEvent list \<Rightarrow> bool" where
  "events_disciplined now session_mode sent h events \<longleftrightarrow>
     (\<exists>n beats. heartbeats_sent now session_mode sent h beats n
        \<and> (events = beats \<or> (\<exists>e. ending_event session_mode e \<and> events = beats @ [e])))"

definition bridge_running ::
  "(nat \<Rightarrow> Instant) \<Rightarrow> SessionMode \<Rightarrow> SessionControlEvent list \<Rightarrow> nat \<Rightarrow> 'x Bridge_scheme \<Rightarrow> bool" where
  "bridge_running now session_mode sent h b \<longleftrightarrow>
     (\<exists>n. br_heartbeats b = h + n
        \<and> heartbeats_sent now session_mode sent h (cn_sent (br_control b)) n)"

definition bridge_ended ::
  "(nat \<Rightarrow> Instant) \<Rightarrow> SessionMode \<Rightarrow> SessionControlEvent list \<Rightarrow> nat \<Rightarrow> 'x Bridge_scheme \<Rightarrow> bool" where
  "bridge_ended now session_mode sent h b \<longleftrightarrow>
     events_disciplined now session_mode sent h (cn_sent (br_control b))"

lemma channel_send_cases:
  "cn_sent (fst (channel_send c e)) = cn_sent c \<and> \<not> snd (channel_send c e)
   \<or> cn_sent (fst (channel_send c e)) = cn_sent c @ [e] \<and> snd (channel_send c e)"
  by (auto simp: channel_send_def split: option.splits nat.splits)

lemma lease_controlled: "session_mode_lease m \<noteq> None \<Longrightarrow> is_controlled m"
  by (cases m) auto

lemma cancel_controlled: "cancel_on_disconnect m \<Longrightarrow> is_controlled m"
  by (cases m) auto

lemma running_ended: "bridge_running now m sent h b \<Longrightarrow> cn_sent (br_control b) = cn_sent (br_control b') \<Longrightarrow>
  bridge_ended now m sent h b'"
  by (auto simp: bridge_running_def bridge_ended_def events_disciplined_def)

lemma running_ended_event:
  assumes "bridge_running now m sent h b" and "ending_event m e"
    and "cn_sent (br_control b') = cn_sent (fst (channel_send (br_control b) e))"
  shows "bridge_ended now m sent h b'"
proof -
  from assms(1) obtain n where n: "heartbeats_sent now m sent h (cn_sent (br_control b)) n"
    by (auto simp: bridge_running_def)
  show ?thesis
    using channel_send_cases [of "br_control b" e] assms(2,3) n
    unfolding bridge_ended_def events_disciplined_def by auto
qed

lemma running_ended_report:
  assumes "bridge_running now m sent h b"
    and "cn_sent (br_control b') = cn_sent (report_protocol_error (br_control b) m msg)"
  shows "bridge_ended now m sent h b'"
proof (cases "is_controlled m")
  case True
  with assms running_ended_event [of now m sent h b "EventProtocolError msg" b'] show ?thesis
    by (simp add: report_protocol_error_def ending_event_def)
next
  case False
  with assms running_ended [of now m sent h b b'] show ?thesis by (simp add: report_protocol_error_def)
qed

lemma running_heartbeat:
  assumes "bridge_running now m sent h b" and "session_mode_lease m \<noteq> None"
    and "channel_send (br_control b) (Heartbeat (now (br_heartbeats b))) = (c, True)"
    and "cn_sent (br_control b') = cn_sent c" and "br_heartbeats b' = br_heartbeats b + 1"
  shows "bridge_running now m sent h b'"
proof -
  from assms(1) obtain n where n: "br_heartbeats b = h + n"
    and h: "heartbeats_sent now m sent h (cn_sent (br_control b)) n"
    by (auto simp: bridge_running_def)
  have "cn_sent c = cn_sent (br_control b) @ [Heartbeat (now (br_heartbeats b))]"
    using channel_send_cases [of "br_control b" "Heartbeat (now (br_heartbeats b))"] assms(3) by simp
  with n h assms(2,4,5) show ?thesis
    unfolding bridge_running_def by (intro exI [of _ "Suc n"]) (simp add: heartbeats_sent_def)
qed

lemma running_heartbeat_refused:
  assumes "bridge_running now m sent h b"
    and "channel_send (br_control b) e = (c, False)" and "cn_sent (br_control b') = cn_sent c"
  shows "bridge_ended now m sent h b'"
  using running_ended [OF assms(1), of b'] channel_send_cases [of "br_control b" e] assms(2,3) by simp

lemma running_cong:
  "bridge_running now m sent h b \<Longrightarrow> br_heartbeats b' = br_heartbeats b \<Longrightarrow>
   cn_sent (br_control b') = cn_sent (br_control b) \<Longrightarrow> bridge_running now m sent h b'"
  by (simp add: bridge_running_def)

text \<open>Every arm keeps a running bridge running or ends it.\<close>

definition arm_ok ::
  "(nat \<Rightarrow> Instant) \<Rightarrow> SessionMode \<Rightarrow> SessionControlEvent list \<Rightarrow> nat \<Rightarrow> Bridge \<times> bool \<Rightarrow> bool" where
  "arm_ok now m sent h r \<longleftrightarrow>
     (if snd r then bridge_running now m sent h (fst r) else bridge_ended now m sent h (fst r))"

lemma arm_report: "bridge_running now m sent h b \<Longrightarrow> arm_ok now m sent h (bridge_report m msg b, False)"
  by (auto simp: arm_ok_def bridge_report_def intro: running_ended_report)

lemma arm_event:
  "bridge_running now m sent h b \<Longrightarrow> ending_event m e \<Longrightarrow>
   arm_ok now m sent h (bridge_event e (bridge_close b), False)"
  by (auto simp: arm_ok_def bridge_event_def bridge_close_def intro: running_ended_event)

lemma arm_continue:
  "bridge_running now m sent h b \<Longrightarrow> br_heartbeats b' = br_heartbeats b \<Longrightarrow> br_control b' = br_control b
   \<Longrightarrow> arm_ok now m sent h (b', True)"
  by (auto simp: arm_ok_def intro: running_cong)

lemma arm_stdin:
  assumes "bridge_running now m sent h b"
  shows "arm_ok now m sent h (input_stdin m payload b)"
proof -
  have "bridge_running now m sent h (b\<lparr>br_stdin := w\<rparr>)" for w
    using assms by (rule running_cong) simp_all
  with assms show ?thesis
    by (auto simp: input_stdin_def arm_report split: prod.splits sum.splits)
      (simp add: arm_ok_def)
qed

lemma arm_heartbeat:
  assumes "bridge_running now m sent h b"
  shows "arm_ok now m sent h (input_heartbeat now m payload b)"
proof (cases "session_mode_lease m = None \<or> payload \<noteq> []")
  case True
  with assms show ?thesis by (simp add: input_heartbeat_def arm_report)
next
  case False
  obtain c go where c: "channel_send (br_control b) (Heartbeat (now (br_heartbeats b))) = (c, go)"
    by (cases "channel_send (br_control b) (Heartbeat (now (br_heartbeats b)))")
  let ?b = "b\<lparr>br_control := c, br_heartbeats := br_heartbeats b + 1\<rparr>"
  from c False have "input_heartbeat now m payload b = (?b, go)" by (auto simp: input_heartbeat_def)
  moreover have "arm_ok now m sent h (?b, go)"
    using c False running_heartbeat [OF assms, where b' = ?b and c = c]
      running_heartbeat_refused [OF assms, where b' = ?b and c = c]
    by (cases go) (auto simp: arm_ok_def)
  ultimately show ?thesis by simp
qed

lemma input_frame_ok:
  assumes "bridge_running now m sent h b"
  shows "arm_ok now m sent h (input_frame now m frame b)"
proof -
  have "arm_ok now m sent h (input_resize m p b)" for p
    using assms by (auto simp: input_resize_def arm_report split: sum.splits intro: arm_continue)
  moreover have "arm_ok now m sent h (input_stdin_close m p b)" for p
    using assms by (auto simp: input_stdin_close_def arm_report bridge_close_def intro: arm_continue)
  moreover have "arm_ok now m sent h (input_cancel m p b)" for p
    using assms by (auto simp: input_cancel_def arm_report ending_event_def intro: arm_event)
  moreover have "arm_ok now m sent h (input_signal m p b)" for p
    using assms by (auto simp: input_signal_def arm_report ending_event_def split: sum.splits intro: arm_event)
  ultimately show ?thesis
    using assms arm_stdin [OF assms] arm_heartbeat [OF assms] arm_report [OF assms]
    by (cases "fr_kind frame") (simp_all add: input_frame_def)
qed

lemma bridge_close_ended [simp]: "bridge_ended now m sent h (bridge_close b) \<longleftrightarrow> bridge_ended now m sent h b"
  by (simp add: bridge_ended_def bridge_close_def)

lemma input_failed_ended:
  assumes "bridge_running now m sent h b"
  shows "bridge_ended now m sent h (input_failed m e b)"
proof (cases e)
  case (Io x)
  with assms running_ended [OF assms, of "bridge_close b"]
    arm_event [OF assms, of Disconnect] cancel_controlled [of m] show ?thesis
    by (auto simp: input_failed_def arm_ok_def ending_event_def bridge_close_def Let_def)
next
  case (Protocol x)
  with arm_report [OF assms] show ?thesis by (simp add: input_failed_def arm_ok_def)
qed

lemma bridge_running_start: "bridge_running now m (cn_sent (br_control b)) (br_heartbeats b) b"
  by (auto simp: bridge_running_def heartbeats_sent_def intro!: exI [of _ 0])

lemma input_bridge_ended:
  "bridge_ended now m (cn_sent (br_control b)) (br_heartbeats b) (input_bridge now m stream b)"
proof (rule input.loop_invariant [where I = "bridge_running now m (cn_sent (br_control b)) (br_heartbeats b)"])
  fix f c c'
  assume "bridge_running now m (cn_sent (br_control b)) (br_heartbeats b) c" "input_step now m f c = (c', None)"
  then show "bridge_running now m (cn_sent (br_control b)) (br_heartbeats b) c'"
    using input_frame_ok [of now m "cn_sent (br_control b)" "br_heartbeats b" c f]
    by (auto simp: input_step_def arm_ok_def split: prod.splits bool.splits)
next
  fix f c c' r
  assume "bridge_running now m (cn_sent (br_control b)) (br_heartbeats b) c" "input_step now m f c = (c', Some r)"
  then show "bridge_ended now m (cn_sent (br_control b)) (br_heartbeats b) r"
    using input_frame_ok [of now m "cn_sent (br_control b)" "br_heartbeats b" c f]
    by (auto simp: input_step_def arm_ok_def split: prod.splits bool.splits)
qed (simp_all add: input_failed_ended bridge_running_start)

text \<open>The same for the terminal.\<close>

definition terminal_arm_ok ::
  "(nat \<Rightarrow> Instant) \<Rightarrow> SessionMode \<Rightarrow> SessionControlEvent list \<Rightarrow> nat
     \<Rightarrow> TerminalBridge \<times> (message + unit) option \<Rightarrow> bool" where
  "terminal_arm_ok now m sent h r \<longleftrightarrow>
     (if snd r = None then bridge_running now m sent h (fst r) else bridge_ended now m sent h (fst r))"

lemma terminal_arm_report:
  "bridge_running now m sent h b \<Longrightarrow> terminal_arm_ok now m sent h (terminal_report m msg b)"
  by (auto simp: terminal_arm_ok_def terminal_report_def intro: running_ended_report)

lemma terminal_arm_failure:
  "bridge_running now m sent h b \<Longrightarrow> terminal_arm_ok now m sent h (terminal_failure m msg b)"
  by (auto simp: terminal_arm_ok_def terminal_failure_def terminal_bridge_failure_def
      report_protocol_error_def intro: running_ended_report [where msg = msg])

lemma terminal_arm_event:
  "bridge_running now m sent h b \<Longrightarrow> ending_event m e \<Longrightarrow>
   terminal_arm_ok now m sent h (terminal_event e b, Some r)"
  by (auto simp: terminal_arm_ok_def terminal_event_def intro: running_ended_event)

lemma terminal_arm_continue:
  "bridge_running now m sent h b \<Longrightarrow> br_heartbeats b' = br_heartbeats b \<Longrightarrow> br_control b' = br_control b
   \<Longrightarrow> terminal_arm_ok now m sent h (b', None)"
  by (auto simp: terminal_arm_ok_def intro: running_cong)

lemma terminal_arm_stdin:
  assumes "bridge_running now m sent h b"
  shows "terminal_arm_ok now m sent h (terminal_stdin m payload b)"
proof -
  have "bridge_running now m sent h (b\<lparr>br_stdin := w\<rparr>)" for w
    using assms by (rule running_cong) simp_all
  with assms show ?thesis
    by (auto simp: terminal_stdin_def terminal_arm_report terminal_arm_failure split: prod.splits sum.splits)
      (simp add: terminal_arm_ok_def)
qed

lemma terminal_arm_resize:
  assumes "bridge_running now m sent h b"
  shows "terminal_arm_ok now m sent h (terminal_resize console m payload b)"
proof -
  have "terminal_arm_ok now m sent h (b, Some r)" for r
    using assms running_ended [OF assms, of b] by (simp add: terminal_arm_ok_def)
  with assms terminal_arm_continue [OF assms] show ?thesis
    by (auto simp: terminal_resize_def terminal_arm_failure split: sum.splits option.splits)
qed

lemma terminal_arm_heartbeat:
  assumes "bridge_running now m sent h b"
  shows "terminal_arm_ok now m sent h (terminal_heartbeat now m payload b)"
proof (cases "session_mode_lease m = None \<or> payload \<noteq> []")
  case True
  with assms show ?thesis by (simp add: terminal_heartbeat_def terminal_arm_report)
next
  case False
  obtain c go where c: "channel_send (br_control b) (Heartbeat (now (br_heartbeats b))) = (c, go)"
    by (cases "channel_send (br_control b) (Heartbeat (now (br_heartbeats b)))")
  let ?b = "b\<lparr>br_control := c, br_heartbeats := br_heartbeats b + 1\<rparr>"
  from c False have "terminal_heartbeat now m payload b = (?b, if go then None else Some (Inr ()))"
    by (auto simp: terminal_heartbeat_def)
  moreover have "terminal_arm_ok now m sent h (?b, if go then None else Some (Inr ()))"
    using c False running_heartbeat [OF assms, where b' = ?b and c = c]
      running_heartbeat_refused [OF assms, where b' = ?b and c = c]
    by (cases go) (auto simp: terminal_arm_ok_def)
  ultimately show ?thesis by simp
qed

lemma terminal_frame_ok:
  assumes "bridge_running now m sent h b"
  shows "terminal_arm_ok now m sent h (terminal_frame console now m frame b)"
proof -
  have "terminal_arm_ok now m sent h (terminal_stdin_close m p b)" for p
    using assms terminal_arm_continue [OF assms] by (auto simp: terminal_stdin_close_def terminal_arm_report)
  moreover have "terminal_arm_ok now m sent h (terminal_cancel m p b)" for p
    using assms by (auto simp: terminal_cancel_def terminal_arm_report ending_event_def intro: terminal_arm_event)
  moreover have "terminal_arm_ok now m sent h (terminal_signal m p b)" for p
    using assms by (auto simp: terminal_signal_def terminal_arm_failure ending_event_def split: sum.splits
        intro: terminal_arm_event)
  ultimately show ?thesis
    using assms terminal_arm_stdin [OF assms] terminal_arm_resize [OF assms]
      terminal_arm_heartbeat [OF assms] terminal_arm_failure [OF assms]
    by (cases "fr_kind frame") (simp_all add: terminal_frame_def)
qed

lemma terminal_failed_ended:
  assumes "bridge_running now m sent h b"
  shows "bridge_ended now m sent h (fst (terminal_failed m e b))"
proof (cases e)
  case (Io x)
  have "bridge_running now m sent h (b\<lparr>br_open := False\<rparr>)"
    using assms by (rule running_cong) simp_all
  from running_ended [OF this, of "b\<lparr>br_open := False\<rparr>"] terminal_arm_event [OF this, of Disconnect] Io cancel_controlled [of m]
  show ?thesis by (auto simp: terminal_failed_def terminal_arm_ok_def ending_event_def Let_def)
next
  case (Protocol x)
  with assms show ?thesis
    by (auto simp: terminal_failed_def terminal_bridge_failure_def report_protocol_error_def
        intro: running_ended_report [where msg = "Text ''protocol error: '' # x"])
qed

lemma terminal_bridge_ended:
  "bridge_ended now m (cn_sent (br_control b)) (br_heartbeats b)
     (fst (terminal_input_bridge console now m stream b))"
proof (rule terminal.loop_invariant [where I = "bridge_running now m (cn_sent (br_control b)) (br_heartbeats b)"])
  fix f c c'
  assume "bridge_running now m (cn_sent (br_control b)) (br_heartbeats b) c"
    "terminal_step console now m f c = (c', None)"
  then show "bridge_running now m (cn_sent (br_control b)) (br_heartbeats b) c'"
    using terminal_frame_ok [of now m "cn_sent (br_control b)" "br_heartbeats b" c console f]
    by (auto simp: terminal_step_def terminal_arm_ok_def split: prod.splits option.splits)
next
  fix f c c' r
  assume "bridge_running now m (cn_sent (br_control b)) (br_heartbeats b) c"
    "terminal_step console now m f c = (c', Some r)"
  then show "bridge_ended now m (cn_sent (br_control b)) (br_heartbeats b) (fst r)"
    using terminal_frame_ok [of now m "cn_sent (br_control b)" "br_heartbeats b" c console f]
    by (auto simp: terminal_step_def terminal_arm_ok_def split: prod.splits option.splits)
qed (simp_all add: terminal_failed_ended bridge_running_start)

text \<open>Input frames of a process.\<close>

lemma write_all_unlimited: "w_budget w = None \<Longrightarrow> write_all w bs = (w\<lparr>w_out := w_out w @ bs\<rparr>, Inr ())"
  by (simp add: write_all_def)

lemma run_steps_stdin:
  "br_open b \<Longrightarrow> w_budget (br_stdin b) = None \<Longrightarrow>
   run_steps (input_step now m) (map (frame_new Stdin) chunks) b
     = Some (b\<lparr>br_stdin := (br_stdin b)\<lparr>w_out := w_out (br_stdin b) @ concat chunks\<rparr>\<rparr>)"
proof (induction chunks arbitrary: b)
  case (Cons c cs)
  let ?b = "b\<lparr>br_stdin := (br_stdin b)\<lparr>w_out := w_out (br_stdin b) @ c\<rparr>\<rparr>"
  have "input_step now m (frame_new Stdin c) b = (?b, None)"
    using Cons.prems by (simp add: input_step_def input_frame_def frame_new_def input_stdin_def write_all_unlimited)
  with Cons.IH [of ?b] Cons.prems show ?case by simp
qed simp


section \<open>Properties\<close>

text \<open>
  C7: what the client of a controlled session writes to a process arrives in order and complete, as
  long as the process takes its input and the session its events: the input of the
  process is the concatenation of the payloads of the STDIN frames, the input is closed by
  STDIN_CLOSE, and the end of the connection is reported once, and only to a session that
  asked to be cancelled then.
\<close>

theorem stdin_delivered_in_order:
  assumes "is_controlled m" and "br_open b" and "w_budget (br_stdin b) = None"
    and "cn_accepts (br_control b) = None"
    and "list_all (\<lambda>c. length c \<le> MAX_FRAME_BYTES) chunks"
  shows "input_bridge now m (stream_of (map (frame_new Stdin) chunks @ [frame_new StdinClose []])) b
    = b\<lparr>br_stdin := (br_stdin b)\<lparr>w_out := w_out (br_stdin b) @ concat chunks\<rparr>, br_open := False,
        br_control := (br_control b)\<lparr>cn_sent := cn_sent (br_control b)
          @ (if cancel_on_disconnect m then [Disconnect] else [])\<rparr>\<rparr>"
proof -
  let ?fs = "map (frame_new Stdin) chunks @ [frame_new StdinClose []]"
  let ?c = "b\<lparr>br_stdin := (br_stdin b)\<lparr>w_out := w_out (br_stdin b) @ concat chunks\<rparr>, br_open := False\<rparr>"
  have "sendable ?fs" using assms(5) by (simp add: sendable_def list_all_iff frame_new_def)
  moreover have "run_steps (input_step now m) ?fs b = Some ?c"
    using assms(1-3)
    by (simp add: run_steps_append run_steps_stdin input_step_def input_frame_def frame_new_def
        input_stdin_close_def bridge_close_def)
  ultimately have "input_bridge now m (stream_of ?fs @ []) b = input_bridge now m [] ?c"
    by (rule input.loop_frames)
  then show ?thesis
    using assms(4)
    by (simp add: input.loop_unfold [of now m "[]"] input_failed_def bridge_close_def bridge_event_def
        channel_send_def Let_def)
qed

theorem stdin_delivered_in_order_witness:
  "w_out (br_stdin (input_bridge (\<lambda>n. n) (Controlled \<lparr>so_cancel_on_disconnect = True\<rparr> None)
     (stream_of (map (frame_new Stdin) [[1, 2], [], [3]] @ [frame_new StdinClose []]))
     \<lparr>br_stdin = \<lparr>w_out = [9], w_budget = None\<rparr>, br_open = True,
      br_control = \<lparr>cn_sent = [], cn_accepts = None\<rparr>, br_heartbeats = 0\<rparr>)) = [9, 1, 2, 3]"
  by (subst stdin_delivered_in_order) (simp_all add: MAX_FRAME_BYTES_def)

text \<open>
  C8: whatever the client sends, the control events of a session are its heartbeats, only when
  it has a lease and each with the next clock reading, followed by at most one event that ends
  it; a legacy session causes no event at all.  So the waiting loop never sees a heartbeat
  without a lease, nor an event after the one it ends on.  The same holds for terminals.
\<close>

theorem control_events_disciplined:
  "events_disciplined now m (cn_sent (br_control b)) (br_heartbeats b)
      (cn_sent (br_control (input_bridge now m stream b)))
   \<and> events_disciplined now m (cn_sent (br_control t)) (br_heartbeats t)
      (cn_sent (br_control (fst (terminal_input_bridge console now m stream t))))"
  using input_bridge_ended [of now m b stream] terminal_bridge_ended [of now m t console stream]
  by (simp add: bridge_ended_def)

end
