(* ===== verification/Integration.thy ===== *)
theory Integration
  imports Accounts
begin

text \<open>
  Small fixed-size requests and replies: \<open>integration.rs\<close> (live share and Windows sudo) and
  \<open>transfer.rs\<close> (file transfer requests) of \<open>lsw-protocol\<close>.  The sudo modes are ordered as the
  derived \<open>Ord\<close> of the source orders them, by declaration.
\<close>

section \<open>Live share\<close>

record LiveShareConfigureRequest =
  ls_enable :: bool

definition live_share_configure_encode :: "LiveShareConfigureRequest \<Rightarrow> bytes" where
  "live_share_configure_encode r = [u8_of_bool (ls_enable r)]"

definition live_share_configure_decode :: "bytes \<Rightarrow> ProtocolError + LiveShareConfigureRequest" where
  "live_share_configure_decode payload =
     (if payload = [0] then Inr \<lparr>ls_enable = False\<rparr>
      else if payload = [1] then Inr \<lparr>ls_enable = True\<rparr>
      else Inl (Protocol [Text ''live-share configuration must be exactly zero or one'']))"

record LiveShareStatus =
  ls_mapped :: bool

definition live_share_status_encode :: "LiveShareStatus \<Rightarrow> bytes" where
  "live_share_status_encode r = [u8_of_bool (ls_mapped r)]"

definition live_share_status_decode :: "bytes \<Rightarrow> ProtocolError + LiveShareStatus" where
  "live_share_status_decode payload =
     (if payload = [0] then Inr \<lparr>ls_mapped = False\<rparr>
      else if payload = [1] then Inr \<lparr>ls_mapped = True\<rparr>
      else Inl (Protocol [Text ''live-share status must be exactly zero or one'']))"


section \<open>Windows sudo\<close>

datatype WindowsSudoMode = Disabled | ForceNewWindow | DisableInput | Normal

primrec sudo_mode_byte :: "WindowsSudoMode \<Rightarrow> u8" where
  "sudo_mode_byte Disabled = 0"
| "sudo_mode_byte ForceNewWindow = 1"
| "sudo_mode_byte DisableInput = 2"
| "sudo_mode_byte Normal = 3"

instantiation WindowsSudoMode :: linorder
begin

definition less_eq_WindowsSudoMode :: "WindowsSudoMode \<Rightarrow> WindowsSudoMode \<Rightarrow> bool" where
  "less_eq_WindowsSudoMode a b \<longleftrightarrow> sudo_mode_byte a \<le> sudo_mode_byte b"

definition less_WindowsSudoMode :: "WindowsSudoMode \<Rightarrow> WindowsSudoMode \<Rightarrow> bool" where
  "less_WindowsSudoMode a b \<longleftrightarrow> sudo_mode_byte a < sudo_mode_byte b"

instance
proof
  fix a b :: WindowsSudoMode
  show "a \<le> b \<Longrightarrow> b \<le> a \<Longrightarrow> a = b"
    by (cases a; cases b) (simp_all add: less_eq_WindowsSudoMode_def word_le_nat_alt)
qed (auto simp: less_eq_WindowsSudoMode_def less_WindowsSudoMode_def)

end

definition sudo_mode_decode :: "u8 \<Rightarrow> ProtocolError + WindowsSudoMode" where
  "sudo_mode_decode b =
     (if b = 0 then Inr Disabled
      else if b = 1 then Inr ForceNewWindow
      else if b = 2 then Inr DisableInput
      else if b = 3 then Inr Normal
      else Inl (Protocol [Text ''unknown Windows sudo mode '', Num (unat b)]))"

record WindowsSudoConfigureRequest =
  ws_enable :: bool

definition windows_sudo_configure_encode :: "WindowsSudoConfigureRequest \<Rightarrow> bytes" where
  "windows_sudo_configure_encode r = [u8_of_bool (ws_enable r)]"

definition windows_sudo_configure_decode :: "bytes \<Rightarrow> ProtocolError + WindowsSudoConfigureRequest" where
  "windows_sudo_configure_decode payload =
     (if payload = [0] then Inr \<lparr>ws_enable = False\<rparr>
      else if payload = [1] then Inr \<lparr>ws_enable = True\<rparr>
      else Inl (Protocol [Text ''Windows sudo configuration must be exactly zero or one'']))"

record WindowsSudoStatus =
  ws_available :: bool
  ws_configured_mode :: WindowsSudoMode
  ws_policy_mode :: "WindowsSudoMode option"

definition NO_POLICY :: u8 where
  "NO_POLICY = 255"

definition effective_mode :: "WindowsSudoStatus \<Rightarrow> WindowsSudoMode" where
  "effective_mode s =
     (case ws_policy_mode s of
        None \<Rightarrow> ws_configured_mode s
      | Some maximum \<Rightarrow> min (ws_configured_mode s) maximum)"

definition windows_sudo_status_encode :: "WindowsSudoStatus \<Rightarrow> bytes" where
  "windows_sudo_status_encode s =
     [u8_of_bool (ws_available s), sudo_mode_byte (ws_configured_mode s),
      case ws_policy_mode s of None \<Rightarrow> NO_POLICY | Some mode \<Rightarrow> sudo_mode_byte mode]"

definition windows_sudo_status_decode :: "bytes \<Rightarrow> ProtocolError + WindowsSudoStatus" where
  "windows_sudo_status_decode payload =
     (case payload of
        [available, configured_mode, policy_mode] \<Rightarrow>
          and_then (if available = 0 then Inr False else if available = 1 then Inr True
                    else Inl (Protocol [Text ''Windows sudo availability must be zero or one''])) (\<lambda>available.
          and_then (sudo_mode_decode configured_mode) (\<lambda>configured_mode.
          and_then (if policy_mode = NO_POLICY then Inr None
                    else and_then (sudo_mode_decode policy_mode) (\<lambda>m. Inr (Some m))) (\<lambda>policy_mode.
          Inr \<lparr>ws_available = available, ws_configured_mode = configured_mode,
               ws_policy_mode = policy_mode\<rparr>)))
      | _ \<Rightarrow> Inl (Protocol [Text ''Windows sudo status must contain exactly three bytes'']))"


section \<open>File transfer requests\<close>

record FilePutRequest =
  fp_destination :: string
  fp_length :: u64

definition file_put_encode :: "FilePutRequest \<Rightarrow> ProtocolError + bytes" where
  "file_put_encode r = push_string (be_bytes (fp_length r)) (fp_destination r)"

definition file_put_decode :: "bytes \<Rightarrow> ProtocolError + FilePutRequest" where
  "file_put_decode =
     dec_run (
       dec_bind dec_u64 (\<lambda>n.
       dec_bind dec_string (\<lambda>destination.
       dec_bind dec_finish (\<lambda>_.
       if destination = []
       then dec_lift (Inl (Protocol [Text ''file destination must not be empty'']))
       else dec_return \<lparr>fp_destination = destination, fp_length = n\<rparr>))))"

record FileGetRequest =
  fg_source :: string

definition file_get_encode :: "FileGetRequest \<Rightarrow> ProtocolError + bytes" where
  "file_get_encode r = push_string [] (fg_source r)"

definition file_get_decode :: "bytes \<Rightarrow> ProtocolError + FileGetRequest" where
  "file_get_decode =
     dec_run (
       dec_bind dec_string (\<lambda>source.
       dec_bind dec_finish (\<lambda>_.
       if source = []
       then dec_lift (Inl (Protocol [Text ''file source must not be empty'']))
       else dec_return \<lparr>fg_source = source\<rparr>)))"

definition encode_file_length :: "u64 \<Rightarrow> bytes" where
  "encode_file_length n = be_bytes n"

definition decode_file_length :: "bytes \<Rightarrow> ProtocolError + u64" where
  "decode_file_length payload =
     (if length payload \<noteq> 8 then Inl (Protocol [Text ''file length must contain eight bytes''])
      else Inr (of_be_bytes payload))"


section \<open>The codecs\<close>

definition file_put_wf :: "FilePutRequest \<Rightarrow> bool" where
  "file_put_wf r \<longleftrightarrow> utf8_valid (fp_destination r) \<and> fp_destination r \<noteq> []"

definition file_get_wf :: "FileGetRequest \<Rightarrow> bool" where
  "file_get_wf r \<longleftrightarrow> utf8_valid (fg_source r) \<and> fg_source r \<noteq> []"

lemma live_share_configure_iff:
  "live_share_configure_decode p = Inr r \<longleftrightarrow> p = live_share_configure_encode r"
  by (cases r; cases "ls_enable r") (auto simp: live_share_configure_decode_def live_share_configure_encode_def)

lemma live_share_status_iff: "live_share_status_decode p = Inr r \<longleftrightarrow> p = live_share_status_encode r"
  by (cases r; cases "ls_mapped r") (auto simp: live_share_status_decode_def live_share_status_encode_def)

lemma windows_sudo_configure_iff:
  "windows_sudo_configure_decode p = Inr r \<longleftrightarrow> p = windows_sudo_configure_encode r"
  by (cases r; cases "ws_enable r")
    (auto simp: windows_sudo_configure_decode_def windows_sudo_configure_encode_def)

lemma sudo_mode_decode_ok [ok_iff]: "sudo_mode_decode b = Inr m \<longleftrightarrow> b = sudo_mode_byte m"
  by (cases m) (auto simp: sudo_mode_decode_def)

lemma sudo_mode_byte_not_NO_POLICY [simp]:
  "sudo_mode_byte m \<noteq> NO_POLICY" "NO_POLICY \<noteq> sudo_mode_byte m"
  by (cases m; simp add: NO_POLICY_def)+

lemma sudo_mode_byte_inj [simp]: "sudo_mode_byte m = sudo_mode_byte n \<longleftrightarrow> m = n"
  by (cases m; cases n) simp_all

lemma policy_byte_iff:
  "(if p = NO_POLICY then Inr None else and_then (sudo_mode_decode p) (\<lambda>m. Inr (Some m))) = Inr x
     \<longleftrightarrow> p = (case x of None \<Rightarrow> NO_POLICY | Some m \<Rightarrow> sudo_mode_byte m)"
  by (cases x) (auto simp: ok_iff)

lemma windows_sudo_status_iff:
  "windows_sudo_status_decode p = Inr r \<longleftrightarrow> p = windows_sudo_status_encode r"
  by (cases r)
    (auto simp: windows_sudo_status_decode_def windows_sudo_status_encode_def and_then_ok
      sudo_mode_decode_ok bool_byte_iff policy_byte_iff split: list.splits split del: if_split)

lemma file_put_iff: "file_put_decode p = Inr r \<longleftrightarrow> file_put_wf r \<and> file_put_encode r = Inr p"
  by (cases r) (auto simp: file_put_decode_def file_put_encode_def file_put_wf_def codec_iff)

lemma file_get_iff: "file_get_decode p = Inr r \<longleftrightarrow> file_get_wf r \<and> file_get_encode r = Inr p"
  by (cases r) (auto simp: file_get_decode_def file_get_encode_def file_get_wf_def codec_iff)

lemma file_length_iff: "decode_file_length p = Inr n \<longleftrightarrow> p = encode_file_length n"
  by (auto simp: decode_file_length_def encode_file_length_def)

interpretation live_share_configure: framed_codec "\<lambda>_. True" "\<lambda>r. Inr (live_share_configure_encode r)"
  live_share_configure_decode LiveShareConfigure
  by unfold_locales (auto simp: live_share_configure_iff)

interpretation live_share_status: framed_codec "\<lambda>_. True" "\<lambda>r. Inr (live_share_status_encode r)"
  live_share_status_decode FrameKind.LiveShareStatus
  by unfold_locales (auto simp: live_share_status_iff)

interpretation windows_sudo_configure: framed_codec "\<lambda>_. True" "\<lambda>r. Inr (windows_sudo_configure_encode r)"
  windows_sudo_configure_decode WindowsSudoConfigure
  by unfold_locales (auto simp: windows_sudo_configure_iff)

interpretation windows_sudo_status: framed_codec "\<lambda>_. True" "\<lambda>r. Inr (windows_sudo_status_encode r)"
  windows_sudo_status_decode FrameKind.WindowsSudoStatus
  by unfold_locales (auto simp: windows_sudo_status_iff)

interpretation file_put: framed_codec file_put_wf file_put_encode file_put_decode FilePut
  by unfold_locales (simp_all add: file_put_iff)

interpretation file_get: framed_codec file_get_wf file_get_encode file_get_decode FileGet
  by unfold_locales (simp_all add: file_get_iff)

interpretation file_done: framed_codec "\<lambda>_. True" "\<lambda>n. Inr (encode_file_length n)"
  decode_file_length FileDone
  by unfold_locales (auto simp: file_length_iff)


section \<open>Properties\<close>

text \<open>
  A policy only ever restricts: the mode in effect is at most the configured one and at
  most the policy's maximum, and it is one of the two.
\<close>

theorem effective_mode_capped:
  "effective_mode s \<le> ws_configured_mode s
   \<and> (case ws_policy_mode s of
        None \<Rightarrow> effective_mode s = ws_configured_mode s
      | Some maximum \<Rightarrow> effective_mode s \<le> maximum
          \<and> (effective_mode s = ws_configured_mode s \<or> effective_mode s = maximum))"
  by (auto simp: effective_mode_def min_def split: option.splits)

text \<open>
  The sudo status is decoded from exactly the bytes that encode it: the absent policy is
  told apart from every mode, and no other three bytes are accepted.
\<close>

theorem windows_sudo_status_round_trip:
  "windows_sudo_status_decode p = Inr s \<longleftrightarrow> p = windows_sudo_status_encode s"
  by (rule windows_sudo_status_iff)

text \<open>
  File transfer requests are decoded from exactly the bytes that encode a request with a
  non-empty path; an upload request keeps its 64-bit length, and paths over the string limit
  are refused by the encoder.
\<close>

lemma file_requests_round_trip:
  "(file_put_decode p = Inr r \<longleftrightarrow> utf8_valid (fp_destination r) \<and> fp_destination r \<noteq> []
      \<and> file_put_encode r = Inr p)
   \<and> (is_ok (file_put_encode r) \<longleftrightarrow> length (fp_destination r) \<le> MAX_STRING_BYTES)
   \<and> (file_get_decode q = Inr g \<longleftrightarrow> utf8_valid (fg_source g) \<and> fg_source g \<noteq> []
      \<and> file_get_encode g = Inr q)"
  by (simp add: file_put_iff file_get_iff file_put_wf_def file_get_wf_def file_put_encode_def ok_iff)

end
