(* ===== verification/Contract.thy ===== *)
theory Contract
  imports Codec
begin

text \<open>
  The part of the host-guest contract that is not a wire type: \<open>contract.rs\<close> of
  \<open>lsw-protocol\<close>.  SHA-256 comes from the crate \<open>sha2\<close> and is the parameter \<open>digest\<close> of
  the derivation; what the theorems use of it is named in their hypotheses.
\<close>

definition AGENT_GUEST_PORT :: u16 where "AGENT_GUEST_PORT = 35040"
definition LICENSE_HELPER_GUEST_PORT :: u16 where "LICENSE_HELPER_GUEST_PORT = 35041"
definition USER_HELPER_GUEST_PORT :: u16 where "USER_HELPER_GUEST_PORT = 35042"
definition MAINTENANCE_HELPER_GUEST_PORT :: u16 where "MAINTENANCE_HELPER_GUEST_PORT = 35043"
definition DESKTOP_COMPANION_GUEST_PORT :: u16 where "DESKTOP_COMPANION_GUEST_PORT = 35044"

definition DESKTOP_COMPANION_CREDENTIAL_SCOPE :: string where
  "DESKTOP_COMPANION_CREDENTIAL_SCOPE = ''desktop-companion-v1''"
definition LIVE_SHARE_CREDENTIAL_SCOPE :: string where
  "LIVE_SHARE_CREDENTIAL_SCOPE = ''live-share-v1''"

definition validate_token :: "string \<Rightarrow> ProtocolError + unit" where
  "validate_token token =
     (if length token \<noteq> 64
         \<or> \<not> list_all (\<lambda>c. is_ascii_hexdigit c \<and> \<not> is_ascii_uppercase c) token
      then Inl (Protocol [Text ''agent token must contain 64 lowercase hexadecimal characters''])
      else Inr ())"

definition hex_encode :: "bytes \<Rightarrow> string" where
  "hex_encode bs = concat (map hex_byte bs)"

definition scope_char :: "char \<Rightarrow> bool" where
  "scope_char c \<longleftrightarrow> is_ascii_lowercase c \<or> is_ascii_digit c \<or> c = CHR ''-''"

text \<open>The bytes fed to the hash: a fixed prefix, the scope and the token, each closed by NUL.\<close>

definition credential_input :: "string \<Rightarrow> string \<Rightarrow> bytes" where
  "credential_input scope agent_token =
     as_bytes ''LSW scoped credential v1'' @ [0] @ as_bytes scope @ [0] @ as_bytes agent_token"

definition derive_scoped_credential ::
  "(bytes \<Rightarrow> bytes) \<Rightarrow> string \<Rightarrow> string \<Rightarrow> ProtocolError + string" where
  "derive_scoped_credential digest agent_token scope =
     and_then (validate_token agent_token) (\<lambda>_.
     if scope = [] \<or> length scope > 64 \<or> \<not> list_all scope_char scope
     then Inl (Protocol [Text ''credential scope must contain 1-64 lowercase ASCII letters, digits, or hyphens''])
     else Inr (hex_encode (digest (credential_input scope agent_token))))"


section \<open>Lemmas\<close>

lemma validate_token_ok [ok_iff]:
  "validate_token t = Inr u \<longleftrightarrow>
     length t = 64 \<and> list_all (\<lambda>c. is_ascii_hexdigit c \<and> \<not> is_ascii_uppercase c) t"
  by (auto simp: validate_token_def)

lemma length_hex_encode [simp]: "length (hex_encode bs) = 2 * length bs"
  by (induction bs) (auto simp: hex_encode_def hex_byte_def)

lemma hex_byte_chars: "list_all (\<lambda>c. is_ascii_hexdigit c \<and> \<not> is_ascii_uppercase c) (hex_byte b)"
proof -
  have "unat b < 256" using unsigned_less [of b] by simp
  then have "unat b div 16 < 16" and "unat b mod 16 < 16" by auto
  then show ?thesis by (simp add: hex_byte_def hex_digit_class)
qed

lemma hex_encode_chars: "list_all (\<lambda>c. is_ascii_hexdigit c \<and> \<not> is_ascii_uppercase c) (hex_encode bs)"
  using hex_byte_chars by (induction bs) (auto simp: hex_encode_def)

lemma hex_digit_inj: "m < 16 \<Longrightarrow> n < 16 \<Longrightarrow> hex_digit m = hex_digit n \<longleftrightarrow> m = n"
  by (subst char_code_inj [symmetric]) (auto simp: hex_digit_code split: if_splits)

lemma hex_byte_inj: "hex_byte a = hex_byte b \<longleftrightarrow> a = b"
proof
  assume "hex_byte a = hex_byte b"
  moreover have "unat a < 256" "unat b < 256" using unsigned_less [of a] unsigned_less [of b] by auto
  ultimately have "unat a div 16 = unat b div 16" "unat a mod 16 = unat b mod 16"
    by (auto simp: hex_byte_def hex_digit_inj)
  then have "unat a = unat b" by (metis mult_div_mod_eq)
  then show "a = b" by (rule unsigned_word_eqI)
qed simp

lemma hex_encode_inj: "hex_encode as = hex_encode bs \<longleftrightarrow> as = bs"
proof
  assume eq: "hex_encode as = hex_encode bs"
  then have "length as = length bs" by (metis length_hex_encode mult_left_cancel zero_neq_numeral)
  then show "as = bs" using eq
    by (induction as bs rule: list_induct2)
      (auto simp: hex_encode_def hex_byte_def hex_byte_inj [unfolded hex_byte_def, simplified])
qed simp

lemma scope_no_nul: "list_all scope_char scope \<Longrightarrow> 0 \<notin> set (as_bytes scope)"
proof
  assume s: "list_all scope_char scope" and "0 \<in> set (as_bytes scope)"
  then obtain c where "c \<in> set scope" "byte_of_char c = 0" by (auto simp: as_bytes_def)
  moreover from this(2) have "char_code c = 0" by (metis unat_byte_of_char unsigned_0)
  ultimately show False
    using s by (auto simp: list_all_iff scope_char_def is_ascii_lowercase_def is_ascii_digit_def char_code_def)
qed

lemma split_at_unique:
  "x \<notin> set as \<Longrightarrow> x \<notin> set bs \<Longrightarrow> as @ x # cs = bs @ x # ds \<longleftrightarrow> as = bs \<and> cs = ds"
  by (auto simp: append_eq_append_conv2 Cons_eq_append_conv append_eq_Cons_conv)

text \<open>The framing of the hash input is unambiguous.\<close>

lemma credential_input_inj:
  assumes "list_all scope_char s" "list_all scope_char s'"
  shows "credential_input s t = credential_input s' t' \<longleftrightarrow> s = s' \<and> t = t'"
  using split_at_unique [OF scope_no_nul [OF assms(1)] scope_no_nul [OF assms(2)]]
  by (simp add: credential_input_def)

lemma derive_ok [ok_iff]:
  "derive_scoped_credential digest token scope = Inr c \<longleftrightarrow>
     validate_token token = Inr () \<and> scope \<noteq> [] \<and> length scope \<le> 64 \<and> list_all scope_char scope
     \<and> c = hex_encode (digest (credential_input scope token))"
  by (auto simp: derive_scoped_credential_def ok_iff not_less)


section \<open>Properties\<close>

text \<open>
  Domain separation.  If two derivations succeed and the hash does not collide on their
  two inputs, the credentials are equal only for the same token and the same scope: a
  credential derived for one integration is never one for another.
\<close>

lemma scoped_credentials_separate:
  assumes "derive_scoped_credential digest token scope = Inr c"
    and "derive_scoped_credential digest token' scope' = Inr c'"
    and no_collision: "digest (credential_input scope token) = digest (credential_input scope' token')
      \<Longrightarrow> credential_input scope token = credential_input scope' token'"
  shows "c = c' \<longleftrightarrow> token = token' \<and> scope = scope'"
proof -
  from assms(1,2) have "list_all scope_char scope" "list_all scope_char scope'"
    by (auto simp: ok_iff)
  then have "credential_input scope token = credential_input scope' token'
      \<longleftrightarrow> scope = scope' \<and> token = token'"
    by (rule credential_input_inj)
  with assms show ?thesis by (auto simp: ok_iff hex_encode_inj)
qed

text \<open>
  With a hash of 32 bytes, a derived credential is itself a well-formed token: 64
  lowercase hexadecimal characters.  Derivation succeeds for exactly the valid tokens and
  scopes.
\<close>

theorem derived_credential_well_formed:
  assumes "\<forall>input. length (digest input) = 32"
  shows "(\<forall>c. derive_scoped_credential digest token scope = Inr c \<longrightarrow> validate_token c = Inr ())
    \<and> (is_ok (derive_scoped_credential digest token scope) \<longleftrightarrow>
      validate_token token = Inr () \<and> 1 \<le> length scope \<and> length scope \<le> 64 \<and> list_all scope_char scope)"
  using assms hex_encode_chars by (auto simp: ok_iff Suc_le_eq)

text \<open>
  The five guest services listen on distinct ports, outside the port Windows reserves for
  the Connected Devices Platform and outside its dynamic range.
\<close>

lemma guest_ports_distinct:
  "distinct [AGENT_GUEST_PORT, LICENSE_HELPER_GUEST_PORT, USER_HELPER_GUEST_PORT,
     MAINTENANCE_HELPER_GUEST_PORT, DESKTOP_COMPANION_GUEST_PORT]
   \<and> list_all (\<lambda>port. port < 49152 \<and> port \<noteq> 5040)
       [AGENT_GUEST_PORT, LICENSE_HELPER_GUEST_PORT, USER_HELPER_GUEST_PORT,
        MAINTENANCE_HELPER_GUEST_PORT, DESKTOP_COMPANION_GUEST_PORT]"
  by code_simp

end
