(* ===== verification/Agent_Connection.thy ===== *)
theory Agent_Connection
  imports Input_Bridge Integration Contract
begin

text \<open>
  A connection of the guest agent: \<open>handle_connection\<close> and the request handlers of
  \<open>requests.rs\<close>, from the handshake to the reply.  A handler reads the bytes of the client and
  writes to it; when it reports an error it fails with the text of that error.  Socket options
  (time limits, blocking mode) are left out.  What the agent asks of Windows and of its helper
  services is a parameter of each handler, as are \<open>render\<close> (the text of a message) and \<open>uc\<close>
  (upper-casing).
\<close>

section \<open>Streams\<close>

record Stream =
  st_in :: bytes
  st_out :: Writer

type_synonym 'a conn = "Stream \<Rightarrow> (message + 'a) \<times> Stream"

definition conn_return :: "'a \<Rightarrow> 'a conn" where
  "conn_return x = (\<lambda>s. (Inr x, s))"

definition conn_fail :: "message \<Rightarrow> 'a conn" where
  "conn_fail m = (\<lambda>s. (Inl m, s))"

definition conn_bind :: "'a conn \<Rightarrow> ('a \<Rightarrow> 'b conn) \<Rightarrow> 'b conn" where
  "conn_bind m f = (\<lambda>s. case m s of (Inl e, s') \<Rightarrow> (Inl e, s') | (Inr x, s') \<Rightarrow> f x s')"

definition conn_lift :: "ProtocolError + 'a \<Rightarrow> 'a conn" where
  "conn_lift r = (case r of Inl e \<Rightarrow> conn_fail (protocol_error_display e) | Inr x \<Rightarrow> conn_return x)"

text \<open>After an error of \<open>read_frame\<close> no handler reads again; the unread bytes then do not matter.\<close>

definition conn_recv :: "Frame conn" where
  "conn_recv = (\<lambda>s. case read_frame (st_in s) of
     Inl e \<Rightarrow> (Inl (protocol_error_display e), s)
   | Inr (frame, rest) \<Rightarrow> (Inr frame, s\<lparr>st_in := rest\<rparr>))"

definition conn_send :: "Frame \<Rightarrow> unit conn" where
  "conn_send frame = (\<lambda>s. case write_frame (st_out s) frame of
     (w, Inl e) \<Rightarrow> (Inl (protocol_error_display e), s\<lparr>st_out := w\<rparr>)
   | (w, Inr _) \<Rightarrow> (Inr (), s\<lparr>st_out := w\<rparr>))"

definition send_error :: "(message \<Rightarrow> string) \<Rightarrow> message \<Rightarrow> unit conn" where
  "send_error render m = conn_send (frame_new FK_Error (as_bytes (render m)))"

text \<open>Telling the client why, then failing.\<close>

definition conn_reject :: "(message \<Rightarrow> string) \<Rightarrow> message \<Rightarrow> message \<Rightarrow> 'a conn" where
  "conn_reject render told error = conn_bind (send_error render told) (\<lambda>_. conn_fail error)"

definition conn_decode :: "(message \<Rightarrow> string) \<Rightarrow> ProtocolError + 'a \<Rightarrow> 'a conn" where
  "conn_decode render r =
     (case r of
        Inl e \<Rightarrow> conn_reject render (protocol_error_display e) (protocol_error_display e)
      | Inr x \<Rightarrow> conn_return x)"


section \<open>Capabilities\<close>

definition agent_capabilities :: "bool \<Rightarrow> string list" where
  "agent_capabilities windows =
     [''exec-pipes-v1'', ''shell-fallback-v1'', ''stderr-v1'', ''file-transfer-v1'',
      ''session-control-v1'', ''session-lease-v1'', ''process-environment-v1'', ''detached-run-v1'',
      ''session-signal-v1'']
     @ (if windows
        then [''conpty-v1'', ''terminal-resize-v1'', ''power-hibernate-v1'', ''user-account-v1'',
              ''user-account-role-v1'', ''maintenance-trim-v1'', ''maintenance-shutdown-v1'',
              ''windows-sudo-v1'', ''live-share-v1'', ''gui-launch-v1'', ''gui-icon-v1'',
              ''gui-window-v3'', ''desktop-live-share-v1'']
        else [])"


section \<open>The connection\<close>

text \<open>What the connection hands to a handler.\<close>

datatype request =
    RunProcess bytes SessionMode ProcessEnvironment bool
  | RunTerminal bytes SessionMode
  | ReceiveFile bytes
  | SendFile bytes
  | HibernateGuest bytes
  | CreateUser bytes
  | SetUserRole bytes
  | MaintenanceTrimRequest bytes
  | MaintenanceShutdownRequest bytes
  | SudoQuery bytes
  | SudoConfigure bytes
  | ShareQuery bytes
  | ShareConfigure bytes
  | GuiStartRequested bytes
  | GuiWindowRequested bytes
  | GuiIconRequested bytes
  | DesktopShareConfigure bytes

definition handshake ::
  "(message \<Rightarrow> string) \<Rightarrow> bool \<Rightarrow> string \<Rightarrow> unit conn" where
  "handshake render windows expected_token =
     conn_bind conn_recv (\<lambda>hello_frame.
     if fr_kind hello_frame \<noteq> Hello
     then conn_reject render [Text ''the first frame must be HELLO''] [Text ''client did not send HELLO first'']
     else conn_bind (conn_lift (client_hello_decode (fr_payload hello_frame))) (\<lambda>hello.
     if ch_version hello \<noteq> AGENT_PROTOCOL_VERSION
     then conn_reject render
            [Text ''unsupported protocol '', Num (unat (ch_version hello)), Text ''; server requires '',
             Num (unat AGENT_PROTOCOL_VERSION)]
            [Text ''client protocol version is not supported'']
     else if \<not> constant_time_token_eq (ch_token hello) expected_token
     then conn_reject render [Text ''authentication failed''] [Text ''client authentication failed'']
     else conn_bind (conn_lift (server_hello_encode
            \<lparr>sh_version = AGENT_PROTOCOL_VERSION, sh_capabilities = agent_capabilities windows\<rparr>)) (\<lambda>payload.
          conn_send (frame_new HelloOk payload))))"

text \<open>The optional frames that precede the start of a controlled session.\<close>

definition read_lease :: "(message \<Rightarrow> string) \<Rightarrow> Frame \<Rightarrow> (Frame \<times> SessionLease option) conn" where
  "read_lease render frame =
     (if fr_kind frame = FrameKind.SessionLease
      then conn_bind (conn_decode render (session_lease_decode (fr_payload frame))) (\<lambda>lease.
           conn_bind conn_recv (\<lambda>frame. conn_return (frame, Some lease)))
      else conn_return (frame, None))"

definition read_environment ::
  "(message \<Rightarrow> string) \<Rightarrow> (string \<Rightarrow> string) \<Rightarrow> Frame \<Rightarrow> (Frame \<times> ProcessEnvironment) conn" where
  "read_environment render uc frame =
     (if fr_kind frame = FrameKind.ProcessEnvironment
      then conn_bind (conn_decode render (process_environment_decode uc (fr_payload frame))) (\<lambda>environment.
           conn_bind conn_recv (\<lambda>frame. conn_return (frame, environment)))
      else conn_return (frame, \<lparr>pe_variables = []\<rparr>))"

definition read_detached :: "(message \<Rightarrow> string) \<Rightarrow> Frame \<Rightarrow> (Frame \<times> bool) conn" where
  "read_detached render frame =
     (if fr_kind frame = SessionDetach
      then if fr_payload frame \<noteq> []
           then conn_reject render [Text ''SESSION_DETACH payload must be empty'']
                  [Text ''client sent an invalid SESSION_DETACH payload'']
           else conn_bind conn_recv (\<lambda>frame. conn_return (frame, True))
      else conn_return (frame, False))"

definition controlled_session ::
  "(message \<Rightarrow> string) \<Rightarrow> (string \<Rightarrow> string) \<Rightarrow> Frame
     \<Rightarrow> (Frame \<times> SessionMode \<times> ProcessEnvironment \<times> bool) conn" where
  "controlled_session render uc request_frame =
     conn_bind (conn_decode render (session_options_decode (fr_payload request_frame))) (\<lambda>options.
     conn_bind conn_recv (\<lambda>request_frame.
     conn_bind (read_lease render request_frame) (\<lambda>(request_frame, lease).
     if fr_kind request_frame = FrameKind.SessionLease
     then conn_reject render [Text ''SESSION_OPTIONS accepts only one SESSION_LEASE'']
            [Text ''client sent duplicate SESSION_LEASE frames'']
     else conn_bind (read_environment render uc request_frame) (\<lambda>(request_frame, environment).
          conn_bind (read_detached render request_frame) (\<lambda>(request_frame, detached).
          if fr_kind request_frame \<noteq> Start \<and> fr_kind request_frame \<noteq> TerminalStart
          then conn_reject render
                 [Text ''SESSION_OPTIONS must be followed by optional SESSION_LEASE, PROCESS_ENVIRONMENT, and SESSION_DETACH frames, then START or TERMINAL_START'']
                 [Text ''client sent an invalid controlled-session request'']
          else conn_return (request_frame, Controlled options lease, environment, detached))))))"

definition dispatch ::
  "(message \<Rightarrow> string) \<Rightarrow> (request \<Rightarrow> unit conn) \<Rightarrow> Frame \<Rightarrow> SessionMode \<Rightarrow> ProcessEnvironment \<Rightarrow> bool
     \<Rightarrow> unit conn" where
  "dispatch render serve request_frame session_mode environment detached =
     (let payload = fr_payload request_frame
      in case fr_kind request_frame of
           Start \<Rightarrow> serve (RunProcess payload session_mode environment detached)
         | TerminalStart \<Rightarrow>
             if detached \<or> \<not> process_environment_is_empty environment
             then conn_reject render
                    [Text ''terminal sessions do not accept detached mode or environment injection'']
                    [Text ''client sent invalid terminal-session options'']
             else serve (RunTerminal payload session_mode)
         | FilePut \<Rightarrow> serve (ReceiveFile payload)
         | FileGet \<Rightarrow> serve (SendFile payload)
         | PowerHibernate \<Rightarrow> serve (HibernateGuest payload)
         | UserCreate \<Rightarrow> serve (CreateUser payload)
         | UserSetRole \<Rightarrow> serve (SetUserRole payload)
         | MaintenanceTrim \<Rightarrow> serve (MaintenanceTrimRequest payload)
         | MaintenanceShutdown \<Rightarrow> serve (MaintenanceShutdownRequest payload)
         | WindowsSudoQuery \<Rightarrow> serve (SudoQuery payload)
         | WindowsSudoConfigure \<Rightarrow> serve (SudoConfigure payload)
         | LiveShareQuery \<Rightarrow> serve (ShareQuery payload)
         | LiveShareConfigure \<Rightarrow> serve (ShareConfigure payload)
         | GuiStart \<Rightarrow> serve (GuiStartRequested payload)
         | GuiWindowOpen \<Rightarrow> serve (GuiWindowRequested payload)
         | GuiIcon \<Rightarrow> serve (GuiIconRequested payload)
         | DesktopLiveShareConfigure \<Rightarrow> serve (DesktopShareConfigure payload)
         | _ \<Rightarrow> conn_reject render [Text ''unsupported request after HELLO'']
                 [Text ''client sent an unsupported request after authentication''])"

definition handle_connection ::
  "(message \<Rightarrow> string) \<Rightarrow> (string \<Rightarrow> string) \<Rightarrow> bool \<Rightarrow> (request \<Rightarrow> unit conn) \<Rightarrow> string \<Rightarrow> unit conn" where
  "handle_connection render uc windows serve expected_token =
     conn_bind (handshake render windows expected_token) (\<lambda>_.
     conn_bind conn_recv (\<lambda>request_frame.
     if fr_kind request_frame = Ping then conn_send (frame_new Pong [])
     else conn_bind
            (if fr_kind request_frame = FrameKind.SessionOptions then controlled_session render uc request_frame
             else conn_return (request_frame, Legacy, \<lparr>pe_variables = []\<rparr>, False))
            (\<lambda>(request_frame, session_mode, environment, detached).
          dispatch render serve request_frame session_mode environment detached)))"


section \<open>Lemmas\<close>

lemma conn_bind_return [simp]: "conn_bind (conn_return x) f = f x"
  by (simp add: conn_bind_def conn_return_def)

lemma conn_lift_ok [simp]: "conn_lift (Inr x) = conn_return x"
  by (simp add: conn_lift_def)

lemma conn_decode_ok [simp]: "conn_decode render (Inr x) = conn_return x"
  by (simp add: conn_decode_def)

lemma conn_bind_error: "fst (m s) = Inl e \<Longrightarrow> conn_bind m f s = (Inl e, snd (m s))"
  by (cases "m s") (simp add: conn_bind_def)

text \<open>What a receive does on a stream of frames.\<close>

lemma conn_recv_frame:
  "length (fr_payload f) \<le> MAX_FRAME_BYTES \<Longrightarrow>
   conn_recv \<lparr>st_in = frame_bytes f @ rest, st_out = w\<rparr> = (Inr f, \<lparr>st_in = rest, st_out = w\<rparr>)"
  by (simp add: conn_recv_def)

lemma conn_bind_recv_frame:
  "length (fr_payload f) \<le> MAX_FRAME_BYTES \<Longrightarrow>
   conn_bind conn_recv g \<lparr>st_in = frame_bytes f @ rest, st_out = w\<rparr> = g f \<lparr>st_in = rest, st_out = w\<rparr>"
  by (simp add: conn_bind_def conn_recv_frame)

text \<open>Output that is part of one error frame, or nothing.\<close>

definition only_error_sent :: "Writer \<Rightarrow> Writer \<Rightarrow> bool" where
  "only_error_sent w w' \<longleftrightarrow>
     (\<exists>n frame. fr_kind frame = FK_Error \<and> w_out w' = w_out w @ take n (frame_bytes frame))"

lemma only_error_sent_refl: "only_error_sent w w"
  unfolding only_error_sent_def
  by (intro exI [of _ 0] exI [of _ "frame_new FK_Error []"]) (simp add: frame_new_def)

lemma write_frame_prefix:
  assumes "write_frame w f = (w', r)"
  shows "\<exists>n. w_out w' = w_out w @ take n (frame_bytes f)"
proof (cases r)
  case (Inr u)
  then have "w_out w' = w_out w @ frame_bytes f" using write_frame_ok [of w f w'] assms by simp
  then show ?thesis by (intro exI [of _ "length (frame_bytes f)"]) simp
next
  case (Inl e)
  show ?thesis
  proof (cases e)
    case (Io x)
    with Inl assms write_frame_broken [of w f w' x] show ?thesis by auto
  next
    case (Protocol m)
    with Inl assms have "w' = w"
      by (auto simp: write_frame_def Let_def write_then_def write_all_def split: if_splits prod.splits
          option.splits sum.splits)
    then show ?thesis by (intro exI [of _ 0]) simp
  qed
qed

lemma send_error_only_error: "only_error_sent (st_out s) (st_out (snd (send_error render m s)))"
proof -
  obtain w r where w: "write_frame (st_out s) (frame_new FK_Error (as_bytes (render m))) = (w, r)"
    by (cases "write_frame (st_out s) (frame_new FK_Error (as_bytes (render m)))")
  from write_frame_prefix [OF w] have "only_error_sent (st_out s) w"
    unfolding only_error_sent_def by (metis frame_new_def Frame.select_convs(1))
  with w show ?thesis by (auto simp: send_error_def conn_send_def split: sum.splits)
qed

lemma conn_reject_outcome:
  "(\<exists>e. fst (conn_reject render m err s) = Inl e)
   \<and> only_error_sent (st_out s) (st_out (snd (conn_reject render m err s)))"
  using send_error_only_error [of s render m]
  by (auto simp: conn_reject_def conn_bind_def conn_fail_def split: prod.splits sum.splits)

text \<open>A stream that opens with a greeting the agent accepts.\<close>

definition authenticated :: "string \<Rightarrow> bytes \<Rightarrow> bool" where
  "authenticated expected_token stream \<longleftrightarrow>
     (\<exists>frame rest hello. read_frame stream = Inr (frame, rest) \<and> fr_kind frame = Hello
        \<and> client_hello_decode (fr_payload frame) = Inr hello
        \<and> ch_version hello = AGENT_PROTOCOL_VERSION \<and> ch_token hello = expected_token)"

lemma handshake_refuses:
  assumes "\<not> authenticated expected_token (st_in s)"
  shows "(\<exists>e. fst (handshake render windows expected_token s) = Inl e)
    \<and> only_error_sent (st_out s) (st_out (snd (handshake render windows expected_token s)))"
proof (cases "read_frame (st_in s)")
  case (Inl e)
  then show ?thesis by (simp add: handshake_def conn_bind_def conn_recv_def only_error_sent_refl)
next
  case (Inr fr)
  obtain f rest where fr: "fr = (f, rest)" by (cases fr)
  have step: "handshake render windows expected_token s
    = (if fr_kind f \<noteq> Hello
       then conn_reject render [Text ''the first frame must be HELLO''] [Text ''client did not send HELLO first'']
       else conn_bind (conn_lift (client_hello_decode (fr_payload f))) (\<lambda>hello.
         if ch_version hello \<noteq> AGENT_PROTOCOL_VERSION
         then conn_reject render
                [Text ''unsupported protocol '', Num (unat (ch_version hello)), Text ''; server requires '',
                 Num (unat AGENT_PROTOCOL_VERSION)]
                [Text ''client protocol version is not supported'']
         else if \<not> constant_time_token_eq (ch_token hello) expected_token
         then conn_reject render [Text ''authentication failed''] [Text ''client authentication failed'']
         else conn_bind (conn_lift (server_hello_encode
                \<lparr>sh_version = AGENT_PROTOCOL_VERSION, sh_capabilities = agent_capabilities windows\<rparr>)) (\<lambda>payload.
              conn_send (frame_new HelloOk payload)))) (s\<lparr>st_in := rest\<rparr>)"
    using Inr fr by (simp add: handshake_def conn_bind_def conn_recv_def)
  have reject: "(\<exists>e. fst (conn_reject render m err (s\<lparr>st_in := rest\<rparr>)) = Inl e)
     \<and> only_error_sent (st_out s) (st_out (snd (conn_reject render m err (s\<lparr>st_in := rest\<rparr>))))" for m err
    using conn_reject_outcome [of render m err "s\<lparr>st_in := rest\<rparr>"] by simp
  show ?thesis
  proof (cases "client_hello_decode (fr_payload f)")
    case (Inl e)
    then show ?thesis
      by (simp add: step reject conn_lift_def conn_bind_def conn_fail_def only_error_sent_refl)
  next
    case (Inr hello)
    with assms \<open>read_frame (st_in s) = _\<close> fr have
      "fr_kind f \<noteq> Hello \<or> ch_version hello \<noteq> AGENT_PROTOCOL_VERSION \<or> ch_token hello \<noteq> expected_token"
      by (auto simp: authenticated_def)
    with Inr show ?thesis by (auto simp: step reject constant_time_token_eq_iff)
  qed
qed

text \<open>The optional frames of a controlled session, as a client sends them.\<close>

definition lease_frames :: "SessionLease option \<Rightarrow> Frame list" where
  "lease_frames lease = (case lease of None \<Rightarrow> []
     | Some l \<Rightarrow> [frame_new FrameKind.SessionLease (session_lease_encode l)])"

definition detach_frames :: "bool \<Rightarrow> Frame list" where
  "detach_frames detached = (if detached then [frame_new SessionDetach []] else [])"

lemma stream_of_simps [simp]:
  "stream_of [] = []" "stream_of (f # fs) = frame_bytes f @ stream_of fs"
  "stream_of (fs @ gs) = stream_of fs @ stream_of gs"
  by (simp_all add: stream_of_def)

lemma sendable_simps [simp]:
  "sendable []" "sendable (f # fs) \<longleftrightarrow> length (fr_payload f) \<le> MAX_FRAME_BYTES \<and> sendable fs"
  "sendable (fs @ gs) \<longleftrightarrow> sendable fs \<and> sendable gs"
  by (simp_all add: sendable_def)

lemma frame_new_simps [simp]: "fr_kind (frame_new k p) = k" "fr_payload (frame_new k p) = p"
  by (simp_all add: frame_new_def)

lemma lease_accepted: "session_lease_wf l \<Longrightarrow> session_lease_decode (session_lease_encode l) = Inr l"
  by (simp add: session_lease_iff)

definition environment_frames_of ::
  "(string \<Rightarrow> string) \<Rightarrow> Frame list \<Rightarrow> ProcessEnvironment \<Rightarrow> bool" where
  "environment_frames_of uc fs environment \<longleftrightarrow>
     fs = [] \<and> pe_variables environment = []
     \<or> (\<exists>p. fs = [frame_new FrameKind.ProcessEnvironment p] \<and> process_environment_decode uc p = Inr environment)"

lemmas conn_run = conn_bind_recv_frame conn_recv_frame conn_bind_def conn_return_def

lemma controlled_session_opens:
  assumes "session_options_decode (fr_payload options_frame) = Inr options"
    and "pred_option session_lease_wf lease"
    and "environment_frames_of uc es environment"
    and "fr_kind start = Start \<or> fr_kind start = TerminalStart"
    and "sendable (lease_frames lease @ es @ detach_frames detached @ [start])"
  shows "controlled_session render uc options_frame
      \<lparr>st_in = stream_of (lease_frames lease @ es @ detach_frames detached @ [start]) @ rest, st_out = w\<rparr>
    = (Inr (start, Controlled options lease, environment, detached), \<lparr>st_in = rest, st_out = w\<rparr>)"
proof -
  have env: "es = [] \<and> environment = \<lparr>pe_variables = []\<rparr>
    \<or> (\<exists>p. es = [frame_new FrameKind.ProcessEnvironment p] \<and> process_environment_decode uc p = Inr environment)"
    using assms(3) by (cases environment) (auto simp: environment_frames_of_def)
  show ?thesis
    using env assms(1,2,4,5)
    by (cases lease; cases detached)
      (auto simp: controlled_session_def lease_frames_def detach_frames_def read_lease_def
        read_environment_def read_detached_def lease_accepted conn_run)
qed

definition hello_ok_payload :: "bool \<Rightarrow> bytes" where
  "hello_ok_payload windows =
     be_bytes AGENT_PROTOCOL_VERSION @ strings_bytes (agent_capabilities windows)"

lemma server_hello_fits:
  "server_hello_encode \<lparr>sh_version = AGENT_PROTOCOL_VERSION, sh_capabilities = agent_capabilities True\<rparr>
   = Inr (hello_ok_payload True) \<and> length (hello_ok_payload True) \<le> MAX_FRAME_BYTES"
  "server_hello_encode \<lparr>sh_version = AGENT_PROTOCOL_VERSION, sh_capabilities = agent_capabilities False\<rparr>
   = Inr (hello_ok_payload False) \<and> length (hello_ok_payload False) \<le> MAX_FRAME_BYTES"
  by code_simp+

lemma server_hello_sent:
  "server_hello_encode \<lparr>sh_version = AGENT_PROTOCOL_VERSION, sh_capabilities = agent_capabilities windows\<rparr>
   = Inr (hello_ok_payload windows)"
  using server_hello_fits by (cases windows) simp_all

lemma hello_ok_short: "length (hello_ok_payload windows) \<le> MAX_FRAME_BYTES"
  using server_hello_fits by (cases windows) simp_all

lemma handshake_accepts:
  assumes "client_hello_encode \<lparr>ch_version = AGENT_PROTOCOL_VERSION, ch_token = token\<rparr> = Inr p"
    and "utf8_valid token" and "w_budget w = None"
  shows "handshake render windows token \<lparr>st_in = frame_bytes (frame_new Hello p) @ rest, st_out = w\<rparr>
    = (Inr (), \<lparr>st_in = rest,
         st_out = w\<lparr>w_out := w_out w @ frame_bytes (frame_new HelloOk (hello_ok_payload windows))\<rparr>\<rparr>)"
proof -
  have dec: "client_hello_decode p = Inr \<lparr>ch_version = AGENT_PROTOCOL_VERSION, ch_token = token\<rparr>"
    using assms(1,2) by (simp add: client_hello_iff client_hello_wf_def)
  have short: "length p \<le> MAX_FRAME_BYTES"
    using assms(1) by (auto simp: client_hello_encode_def ok_iff MAX_FRAME_BYTES_def MAX_STRING_BYTES_def
        string_bytes_def)
  show ?thesis
    using dec short assms(3) hello_ok_short [of windows]
    by (simp add: handshake_def conn_bind_recv_frame constant_time_token_eq_iff server_hello_sent
        conn_send_def write_frame_unlimited)
qed


section \<open>Properties\<close>

text \<open>
  C9: nothing is done for a client that has not authenticated: unless the stream opens with a
  HELLO of the agent's version that carries the expected token, the connection fails, no request
  handler has any effect on the outcome, and all the client can ever receive is one error frame,
  or a part of it.
\<close>

theorem unauthenticated_client_not_served:
  assumes "\<not> authenticated expected_token (st_in s)"
  shows "handle_connection render uc windows serve expected_token s
      = handle_connection render uc windows serve' expected_token s
    \<and> (\<exists>e. fst (handle_connection render uc windows serve expected_token s) = Inl e)
    \<and> only_error_sent (st_out s) (st_out (snd (handle_connection render uc windows serve expected_token s)))"
proof -
  obtain e where e: "fst (handshake render windows expected_token s) = Inl e"
    and out: "only_error_sent (st_out s) (st_out (snd (handshake render windows expected_token s)))"
    using handshake_refuses [OF assms] by blast
  have "handle_connection render uc windows h expected_token s
    = (Inl e, snd (handshake render windows expected_token s))" for h
    unfolding handle_connection_def by (rule conn_bind_error [of "handshake render windows expected_token", OF e])
  with out show ?thesis by simp
qed

theorem unauthenticated_client_not_served_witness:
  "only_error_sent \<lparr>w_out = [], w_budget = None\<rparr>
     (st_out (snd (handle_connection (\<lambda>_. ''no'') id False (\<lambda>_. conn_return ()) ''secret''
        \<lparr>st_in = frame_bytes (frame_new Ping []), st_out = \<lparr>w_out = [], w_budget = None\<rparr>\<rparr>)))"
proof -
  have "\<not> authenticated ''secret'' (frame_bytes (frame_new Ping []))"
    using read_frame_frame_bytes [of "frame_new Ping []" "[]"] by (auto simp: authenticated_def)
  from unauthenticated_client_not_served
      [where s = "\<lparr>st_in = frame_bytes (frame_new Ping []), st_out = \<lparr>w_out = [], w_budget = None\<rparr>\<rparr>",
       unfolded Stream.simps, OF this, of "\<lambda>_. ''no''" id False "\<lambda>_. conn_return ()"]
  show ?thesis by simp
qed

text \<open>
  C10: an authenticated client that opens a controlled session gets exactly the session it asked
  for: HELLO, the options, at most one lease, at most one environment, an optional detach and
  then START make the agent answer HELLO_OK and run the process with those options, that lease,
  that environment and that mode, on a stream positioned after the START frame.
\<close>

theorem controlled_session_served:
  assumes "client_hello_encode \<lparr>ch_version = AGENT_PROTOCOL_VERSION, ch_token = token\<rparr> = Inr hello"
    and "utf8_valid token" and "w_budget w = None"
    and "pred_option session_lease_wf lease"
    and "environment_frames_of uc es environment"
    and "sendable (es @ [frame_new Start request])"
  shows "handle_connection render uc windows serve token
      \<lparr>st_in = stream_of ([frame_new Hello hello,
           frame_new FrameKind.SessionOptions (session_options_encode options)]
           @ lease_frames lease @ es @ detach_frames detached @ [frame_new Start request]) @ rest,
       st_out = w\<rparr>
    = serve (RunProcess request (Controlled options lease) environment detached)
        \<lparr>st_in = rest,
         st_out = w\<lparr>w_out := w_out w @ frame_bytes (frame_new HelloOk (hello_ok_payload windows))\<rparr>\<rparr>"
proof -
  let ?w = "w\<lparr>w_out := w_out w @ frame_bytes (frame_new HelloOk (hello_ok_payload windows))\<rparr>"
  let ?o = "frame_new FrameKind.SessionOptions (session_options_encode options)"
  let ?fs = "lease_frames lease @ es @ detach_frames detached @ [frame_new Start request]"
  have "sendable ?fs"
    using assms(6) by (auto simp: lease_frames_def detach_frames_def session_lease_encode_def
        MAX_FRAME_BYTES_def split: option.splits)
  then have opened: "controlled_session render uc ?o \<lparr>st_in = stream_of ?fs @ rest, st_out = ?w\<rparr>
      = (Inr (frame_new Start request, Controlled options lease, environment, detached),
         \<lparr>st_in = rest, st_out = ?w\<rparr>)"
    using assms(4,5) by (intro controlled_session_opens) (simp_all add: session_options_iff)
  have short: "length (fr_payload ?o) \<le> MAX_FRAME_BYTES"
    by (simp add: session_options_encode_def MAX_FRAME_BYTES_def)
  have "handle_connection render uc windows serve token
      \<lparr>st_in = frame_bytes (frame_new Hello hello) @ frame_bytes ?o @ stream_of ?fs @ rest, st_out = w\<rparr>
    = conn_bind (controlled_session render uc ?o)
        (\<lambda>(request_frame, session_mode, environment, detached).
          dispatch render serve request_frame session_mode environment detached)
        \<lparr>st_in = stream_of ?fs @ rest, st_out = ?w\<rparr>"
    unfolding handle_connection_def
    by (subst conn_bind_def, subst handshake_accepts [OF assms(1-3)])
      (simp add: conn_bind_recv_frame [OF short] del: stream_of_simps)
  also have "\<dots> = serve (RunProcess request (Controlled options lease) environment detached)
      \<lparr>st_in = rest, st_out = ?w\<rparr>"
    by (subst conn_bind_def) (simp add: opened dispatch_def del: stream_of_simps)
  finally show ?thesis by simp
qed

theorem controlled_session_served_witness:
  "handle_connection (\<lambda>_. []) id True
     (\<lambda>r s. (if r = RunProcess [9] (Controlled \<lparr>so_cancel_on_disconnect = True\<rparr> (Some session_lease_standard))
                    \<lparr>pe_variables = []\<rparr> True then Inr () else Inl [], s))
     ''t''
      \<lparr>st_in = stream_of ([frame_new Hello [0, 1, 0, 0, 0, 1, 116],
           frame_new FrameKind.SessionOptions (session_options_encode \<lparr>so_cancel_on_disconnect = True\<rparr>)]
           @ lease_frames (Some session_lease_standard) @ [] @ detach_frames True @ [frame_new Start [9]]) @ [5],
       st_out = \<lparr>w_out = [], w_budget = None\<rparr>\<rparr>
   = (Inr (), \<lparr>st_in = [5], st_out = \<lparr>w_out = frame_bytes (frame_new HelloOk (hello_ok_payload True)),
        w_budget = None\<rparr>\<rparr>)"
proof -
  have 1: "client_hello_encode \<lparr>ch_version = AGENT_PROTOCOL_VERSION, ch_token = ''t''\<rparr>
      = Inr [0, 1, 0, 0, 0, 1, 116]" by code_simp
  have 2: "utf8_valid ''t''" by code_simp
  have 3: "environment_frames_of id [] \<lparr>pe_variables = []\<rparr>" by (simp add: environment_frames_of_def)
  have 4: "pred_option session_lease_wf (Some session_lease_standard)" by (simp add: session_lease_standard_wf)
  have 5: "sendable ([] @ [frame_new Start [9]])" by (simp add: MAX_FRAME_BYTES_def)
  show ?thesis
    by (subst controlled_session_served [OF 1 2 _ 4 3 5]) simp_all
qed

end
