(* ===== verification/Host_Io.thy ===== *)
theory Host_Io
  imports Lsw_Prelude
begin

text \<open>
  Code with effects and errors: a computation maps a state to a result and a new state, where a
  result is an error or a value, as Rust's \<open>Result\<close>.  A computation that is still running when the
  iterations its loops are granted are used up has no result.  Two ways to reason about
  computations follow: weakest preconditions (\<open>post\<close>, with the equations \<open>wp\<close>), and the locale
  \<open>step_order\<close> for what every computation built from given operations keeps.
\<close>

section \<open>Computations\<close>

type_synonym ('s, 'e, 'a) io = "'s \<Rightarrow> (('e + 'a) \<times> 's) option"

definition io_return :: "'a \<Rightarrow> ('s, 'e, 'a) io" where
  "io_return x = (\<lambda>s. Some (Inr x, s))"

definition io_fail :: "'e \<Rightarrow> ('s, 'e, 'a) io" where
  "io_fail e = (\<lambda>s. Some (Inl e, s))"

text \<open>Still running.\<close>

definition io_stuck :: "('s, 'e, 'a) io" where
  "io_stuck = (\<lambda>s. None)"

definition io_bind :: "('s, 'e, 'a) io \<Rightarrow> ('a \<Rightarrow> ('s, 'e, 'b) io) \<Rightarrow> ('s, 'e, 'b) io" where
  "io_bind m f = (\<lambda>s. case m s of
       None \<Rightarrow> None
     | Some (Inl e, t) \<Rightarrow> Some (Inl e, t)
     | Some (Inr x, t) \<Rightarrow> f x t)"

text \<open>The result as a value, for code that matches on it or drops it (\<open>let _ =\<close>, \<open>.ok()\<close>).\<close>

definition io_attempt :: "('s, 'e, 'a) io \<Rightarrow> ('s, 'f, 'e + 'a) io" where
  "io_attempt m = (\<lambda>s. case m s of None \<Rightarrow> None | Some (r, t) \<Rightarrow> Some (Inr r, t))"

definition io_ignore :: "('s, 'e, 'a) io \<Rightarrow> ('s, 'f, unit) io" where
  "io_ignore m = (\<lambda>s. case m s of None \<Rightarrow> None | Some (r, t) \<Rightarrow> Some (Inr (), t))"

definition io_of :: "'e + 'a \<Rightarrow> ('s, 'e, 'a) io" where
  "io_of r = (\<lambda>s. Some (r, s))"

definition io_get :: "('s \<Rightarrow> 'a) \<Rightarrow> ('s, 'e, 'a) io" where
  "io_get f = (\<lambda>s. Some (Inr (f s), s))"

definition io_modify :: "('s \<Rightarrow> 's) \<Rightarrow> ('s, 'e, unit) io" where
  "io_modify f = (\<lambda>s. Some (Inr (), f s))"

fun map_error :: "('e \<Rightarrow> 'f) \<Rightarrow> 'e + 'a \<Rightarrow> 'f + 'a" where
  "map_error g (Inl e) = Inl (g e)"
| "map_error g (Inr x) = Inr x"

definition io_map_error :: "('e \<Rightarrow> 'f) \<Rightarrow> ('s, 'e, 'a) io \<Rightarrow> ('s, 'f, 'a) io" where
  "io_map_error g m = (\<lambda>s. case m s of None \<Rightarrow> None | Some (r, t) \<Rightarrow> Some (map_error g r, t))"

fun io_for :: "('i \<Rightarrow> ('s, 'e, unit) io) \<Rightarrow> 'i list \<Rightarrow> ('s, 'e, unit) io" where
  "io_for f [] = io_return ()"
| "io_for f (x # xs) = io_bind (f x) (\<lambda>_. io_for f xs)"

fun io_collect :: "('i \<Rightarrow> ('s, 'e, 'a) io) \<Rightarrow> 'i list \<Rightarrow> ('s, 'e, 'a list) io" where
  "io_collect f [] = io_return []"
| "io_collect f (x # xs) = io_bind (f x) (\<lambda>y. io_bind (io_collect f xs) (\<lambda>ys. io_return (y # ys)))"

text \<open>A computation on a part of the state.\<close>

definition io_zoom :: "('s \<Rightarrow> 't) \<Rightarrow> ('t \<Rightarrow> 's \<Rightarrow> 's) \<Rightarrow> ('t, 'e, 'a) io \<Rightarrow> ('s, 'e, 'a) io" where
  "io_zoom part put m = (\<lambda>s. case m (part s) of None \<Rightarrow> None | Some (r, t) \<Rightarrow> Some (r, put t s))"


section \<open>Weakest preconditions\<close>

named_theorems wp \<open>weakest preconditions of computations\<close>

text \<open>Whatever the computation ends with satisfies the postcondition.\<close>

definition post :: "('s, 'e, 'a) io \<Rightarrow> ('e + 'a \<Rightarrow> 's \<Rightarrow> bool) \<Rightarrow> 's \<Rightarrow> bool" where
  "post m Q s \<longleftrightarrow> (case m s of None \<Rightarrow> True | Some (r, t) \<Rightarrow> Q r t)"

text \<open>The postcondition of the first part of a sequence.\<close>

fun on_ok :: "('a \<Rightarrow> 's \<Rightarrow> bool) \<Rightarrow> ('e + 'b \<Rightarrow> 's \<Rightarrow> bool) \<Rightarrow> 'e + 'a \<Rightarrow> 's \<Rightarrow> bool" where
  "on_ok P Q (Inl e) t \<longleftrightarrow> Q (Inl e) t"
| "on_ok P Q (Inr x) t \<longleftrightarrow> P x t"

lemma on_ok_apply [simp]: "on_ok P Q (Inl e) = Q (Inl e)" "on_ok P Q (Inr x) = P x"
  by (simp_all add: fun_eq_iff)

lemma on_ok_cases: "on_ok P Q r t \<longleftrightarrow> (\<forall>e. r = Inl e \<longrightarrow> Q (Inl e) t) \<and> (\<forall>x. r = Inr x \<longrightarrow> P x t)"
  by (cases r) simp_all

lemma post_iff: "post m Q s \<longleftrightarrow> (\<forall>r t. m s = Some (r, t) \<longrightarrow> Q r t)"
  by (auto simp: post_def split: option.splits)

lemma post_mono: "post m P s \<Longrightarrow> (\<And>r t. P r t \<Longrightarrow> Q r t) \<Longrightarrow> post m Q s"
  by (simp add: post_iff)

lemma post_conj: "post m P s \<Longrightarrow> post m Q s \<Longrightarrow> post m (\<lambda>r t. P r t \<and> Q r t) s"
  by (simp add: post_iff)

lemma postD: "post m Q s \<Longrightarrow> m s = Some (r, t) \<Longrightarrow> Q r t"
  by (simp add: post_iff)

lemma post_simps [wp]:
  "post (io_return x) Q s \<longleftrightarrow> Q (Inr x) s"
  "post (io_fail e) Q' s \<longleftrightarrow> Q' (Inl e) s"
  "post io_stuck Q' s"
  "post (io_of r) Q'' s \<longleftrightarrow> Q'' r s"
  "post (io_get f) R s \<longleftrightarrow> R (Inr (f s)) s"
  "post (io_modify g) R' s \<longleftrightarrow> R' (Inr ()) (g s)"
  by (simp_all add: post_def io_return_def io_fail_def io_stuck_def io_of_def io_get_def io_modify_def)

lemma post_bind [wp]: "post (io_bind m f) Q s \<longleftrightarrow> post m (on_ok (\<lambda>x. post (f x) Q) Q) s"
  by (auto simp: post_def io_bind_def split: option.splits sum.splits)

text \<open>Sequencing with a known postcondition of the first part.\<close>

lemma post_seq:
  assumes "post m P s" and "\<And>e t. P (Inl e) t \<Longrightarrow> Q (Inl e) t" and "\<And>x t. P (Inr x) t \<Longrightarrow> post (f x) Q t"
  shows "post (io_bind m f) Q s"
proof (subst post_bind, rule post_mono [OF assms(1)])
  fix r t assume "P r t"
  with assms(2,3) show "on_ok (\<lambda>x. post (f x) Q) Q r t" by (cases r) simp_all
qed

lemma post_attempt [wp]: "post (io_attempt m) Q s \<longleftrightarrow> post m (\<lambda>r. Q (Inr r)) s"
  by (auto simp: post_def io_attempt_def split: option.splits)

lemma post_ignore [wp]: "post (io_ignore m) Q s \<longleftrightarrow> post m (\<lambda>_. Q (Inr ())) s"
  by (auto simp: post_def io_ignore_def split: option.splits)

lemma post_map_error [wp]: "post (io_map_error g m) Q s \<longleftrightarrow> post m (\<lambda>r. Q (map_error g r)) s"
  by (auto simp: post_def io_map_error_def split: option.splits)

lemma post_zoom [wp]: "post (io_zoom part put m) Q s \<longleftrightarrow> post m (\<lambda>r t. Q r (put t s)) (part s)"
  by (auto simp: post_def io_zoom_def split: option.splits)

lemma post_if [wp]: "post (if b then m else n) Q s \<longleftrightarrow> (if b then post m Q s else post n Q s)"
  by simp

lemma post_for:
  assumes "I s" and "\<And>x s. x \<in> set xs \<Longrightarrow> I s \<Longrightarrow> post (f x) (\<lambda>_. I) s"
  shows "post (io_for f xs) (\<lambda>_. I) s"
  using assms
proof (induction xs arbitrary: s)
  case Nil
  then show ?case by (simp add: wp)
next
  case (Cons x xs)
  have "post (f x) (\<lambda>_. I) s" using Cons.prems by simp
  then have "post (f x) (on_ok (\<lambda>_. post (io_for f xs) (\<lambda>_. I)) (\<lambda>_. I)) s"
  proof (rule post_mono)
    fix r t assume "I t"
    then show "on_ok (\<lambda>_. post (io_for f xs) (\<lambda>_. I)) (\<lambda>_. I) r t"
      using Cons.IH Cons.prems(2) by (cases r) auto
  qed
  then show ?case by (simp add: wp)
qed


lemma post_collect:
  assumes "I s"
    and "\<And>x s. x \<in> set xs \<Longrightarrow> I s \<Longrightarrow> post (f x) (\<lambda>r t. I t \<and> (\<forall>y. r = Inr y \<longrightarrow> P x y)) s"
  shows "post (io_collect f xs) (\<lambda>r t. I t \<and> (\<forall>ys. r = Inr ys \<longrightarrow> list_all2 P xs ys)) s"
  using assms
proof (induction xs arbitrary: s)
  case Nil
  then show ?case by (simp add: wp)
next
  case (Cons x xs)
  let ?Q = "\<lambda>r t. I t \<and> (\<forall>ys. r = Inr ys \<longrightarrow> list_all2 P (x # xs) ys)"
  have head: "post (f x) (\<lambda>r t. I t \<and> (\<forall>y. r = Inr y \<longrightarrow> P x y)) s" using Cons.prems by simp
  have "post (f x) (on_ok (\<lambda>y. post (io_bind (io_collect f xs) (\<lambda>ys. io_return (y # ys))) ?Q) ?Q) s"
    using head
  proof (rule post_mono)
    fix r t assume t: "I t \<and> (\<forall>y. r = Inr y \<longrightarrow> P x y)"
    have tail: "post (io_collect f xs) (\<lambda>r t. I t \<and> (\<forall>ys. r = Inr ys \<longrightarrow> list_all2 P xs ys)) t"
      using Cons.IH Cons.prems(2) t by simp
    show "on_ok (\<lambda>y. post (io_bind (io_collect f xs) (\<lambda>ys. io_return (y # ys))) ?Q) ?Q r t"
    proof (cases r)
      case (Inr y)
      have "on_ok (\<lambda>ys. post (io_return (y # ys)) ?Q) ?Q r' u"
        if "I u \<and> (\<forall>ys. r' = Inr ys \<longrightarrow> list_all2 P xs ys)" for r' u
        using that t Inr by (cases r') (auto simp: wp)
      from post_mono [OF tail this] Inr show ?thesis by (simp add: post_bind)
    qed (use t in simp)
  qed
  then show ?case by (simp add: wp)
qed


section \<open>Results\<close>

text \<open>Equations for computations whose course is known.\<close>

lemma io_bind_ok: "m s = Some (Inr x, t) \<Longrightarrow> io_bind m f s = f x t"
  and io_bind_error: "m s = Some (Inl e, t) \<Longrightarrow> io_bind m f s = Some (Inl e, t)"
  by (simp_all add: io_bind_def)

lemma io_bind_Some:
  "io_bind m f s = Some (Inr y, u) \<longleftrightarrow> (\<exists>x t. m s = Some (Inr x, t) \<and> f x t = Some (Inr y, u))"
  by (auto simp: io_bind_def split: option.splits sum.splits)


section \<open>Computations that always end\<close>

named_theorems returns_intro \<open>computations that have a result in every state\<close>

definition returns :: "('s, 'e, 'a) io \<Rightarrow> bool" where
  "returns m \<longleftrightarrow> (\<forall>s. m s \<noteq> None)"

lemma returns_post: "returns m \<Longrightarrow> post m Q s \<Longrightarrow> \<exists>r t. m s = Some (r, t) \<and> Q r t"
  unfolding returns_def post_def by (metis (mono_tags, lifting) option.exhaust option.simps(5) case_prod_conv surj_pair)

lemma returns_pure [returns_intro]:
  "returns (io_return x)" "returns (io_fail e)" "returns (io_of r)" "returns (io_get f)" "returns (io_modify g)"
  by (simp_all add: returns_def io_return_def io_fail_def io_of_def io_get_def io_modify_def)

lemma returns_bind [returns_intro]: "returns m \<Longrightarrow> (\<And>x. returns (f x)) \<Longrightarrow> returns (io_bind m f)"
  unfolding returns_def io_bind_def by (auto split: option.splits sum.splits)

lemma returns_attempt [returns_intro]: "returns m \<Longrightarrow> returns (io_attempt m)"
  and returns_ignore [returns_intro]: "returns m \<Longrightarrow> returns (io_ignore m)"
  and returns_map_error [returns_intro]: "returns m \<Longrightarrow> returns (io_map_error g m)"
  unfolding returns_def io_attempt_def io_ignore_def io_map_error_def by (auto split: option.splits)

lemma returns_if [returns_intro]: "returns m \<Longrightarrow> returns n \<Longrightarrow> returns (if b then m else n)"
  by simp

lemma returns_sum [returns_intro]:
  "(\<And>e. returns (g e)) \<Longrightarrow> (\<And>x. returns (f x)) \<Longrightarrow> returns (case r of Inl e \<Rightarrow> g e | Inr x \<Rightarrow> f x)"
  by (cases r) simp_all

lemma returns_for [returns_intro]: "(\<And>x. returns (f x)) \<Longrightarrow> returns (io_for f xs)"
  by (induction xs) (simp_all add: returns_intro)

lemma returns_collect [returns_intro]: "(\<And>x. returns (f x)) \<Longrightarrow> returns (io_collect f xs)"
  by (induction xs) (simp_all add: returns_intro)


section \<open>What computations keep\<close>

text \<open>
  A relation between the states before and after a computation, however it ends.  For a preorder
  it is enough to look at the operations a computation is made of.
\<close>

definition keeps :: "('s \<Rightarrow> 's \<Rightarrow> bool) \<Rightarrow> ('s, 'e, 'a) io \<Rightarrow> bool" where
  "keeps R m \<longleftrightarrow> (\<forall>s. post m (\<lambda>_. R s) s)"

lemma keepsI: "(\<And>s. post m (\<lambda>_. R s) s) \<Longrightarrow> keeps R m"
  by (simp add: keeps_def)

lemma keeps_post: "keeps R m \<Longrightarrow> post m (\<lambda>_. R s) s"
  by (simp add: keeps_def)

lemma keepsD: "keeps R m \<Longrightarrow> m s = Some (r, t) \<Longrightarrow> R s t"
  by (auto simp: keeps_def post_iff)

locale step_order =
  fixes R :: "'s \<Rightarrow> 's \<Rightarrow> bool"
  assumes refl: "R s s"
    and trans: "R s t \<Longrightarrow> R t u \<Longrightarrow> R s u"
begin

lemma keeps_pure:
  "keeps R (io_return x)" "keeps R (io_fail e)" "keeps R io_stuck" "keeps R (io_of r)" "keeps R (io_get f)"
  by (simp_all add: keeps_def wp refl)

lemma keeps_bind:
  assumes "keeps R m" and "\<And>x. keeps R (f x)"
  shows "keeps R (io_bind m f)"
proof (rule keepsI)
  fix s
  have "on_ok (\<lambda>x. post (f x) (\<lambda>_. R s)) (\<lambda>_. R s) r t" if "R s t" for r t
  proof (cases r)
    case (Inr x)
    have "post (f x) (\<lambda>_. R t) t" using assms(2) by (rule keeps_post)
    then have "post (f x) (\<lambda>_. R s) t" by (rule post_mono) (rule trans [OF that])
    with Inr show ?thesis by simp
  qed (simp add: that)
  then show "post (io_bind m f) (\<lambda>_. R s) s"
    using keeps_post [OF assms(1)] by (auto simp: wp intro: post_mono)
qed

lemma keeps_attempt: "keeps R m \<Longrightarrow> keeps R (io_attempt m)"
  and keeps_ignore: "keeps R m \<Longrightarrow> keeps R (io_ignore m)"
  and keeps_map_error: "keeps R m \<Longrightarrow> keeps R (io_map_error g m)"
  by (simp_all add: keeps_def wp)

lemma keeps_if: "keeps R m \<Longrightarrow> keeps R n \<Longrightarrow> keeps R (if b then m else n)"
  by simp

lemma keeps_option: "keeps R m \<Longrightarrow> (\<And>x. keeps R (f x)) \<Longrightarrow> keeps R (case o' of None \<Rightarrow> m | Some x \<Rightarrow> f x)"
  by (cases o') simp_all

lemma keeps_sum: "(\<And>e. keeps R (g e)) \<Longrightarrow> (\<And>x. keeps R (f x)) \<Longrightarrow> keeps R (case r of Inl e \<Rightarrow> g e | Inr x \<Rightarrow> f x)"
  by (cases r) simp_all

lemma keeps_prod: "(\<And>x y. keeps R (f x y)) \<Longrightarrow> keeps R (case p of (x, y) \<Rightarrow> f x y)"
  by (cases p) simp

lemma keeps_for: "(\<And>x. x \<in> set xs \<Longrightarrow> keeps R (f x)) \<Longrightarrow> keeps R (io_for f xs)"
  by (induction xs) (simp_all add: keeps_pure keeps_bind)

lemma keeps_collect: "(\<And>x. x \<in> set xs \<Longrightarrow> keeps R (f x)) \<Longrightarrow> keeps R (io_collect f xs)"
  by (induction xs) (simp_all add: keeps_pure keeps_bind)

lemmas keeps_rules = keeps_pure keeps_bind keeps_attempt keeps_ignore keeps_map_error keeps_if keeps_option
  keeps_sum keeps_prod keeps_for keeps_collect

end

text \<open>A zoomed computation keeps what the part keeps.\<close>

lemma keeps_zoom: "keeps R m \<Longrightarrow> keeps (\<lambda>s t. R (part s) (part t)) (io_zoom part put m)"
  if "\<And>s t. part (put t s) = t" for part put
  using that by (simp add: keeps_def wp)

end
