(* ===== verification/Lsw_Error.thy ===== *)
theory Lsw_Error
  imports Input_Bridge
begin

text \<open>The errors of \<open>lsw-core\<close> (\<open>error.rs\<close>) and their texts.\<close>

datatype LswError =
    LswIo io_error
  | InvalidInstanceName string
  | InvalidValue string message
  | InvalidManifest message
  | LswProtocol message
  | MissingCapabilities "string list"
  | ExternalCommandFailed string "i32 option"
  | InstanceAlreadyExists string
  | InstanceNotFound string

fun join :: "string \<Rightarrow> string list \<Rightarrow> string" where
  "join separator [] = []"
| "join separator [s] = s"
| "join separator (s # t # ss) = s @ separator @ join separator (t # ss)"

definition decimal_i32 :: "i32 \<Rightarrow> string" where
  "decimal_i32 n = (if sint n < 0 then CHR ''-'' # decimal (nat (- sint n)) else decimal (nat (sint n)))"

fun lsw_error_display :: "LswError \<Rightarrow> message" where
  "lsw_error_display (LswIo e) = [Text ''I/O error: '', Disp (io_error_display e)]"
| "lsw_error_display (InvalidInstanceName name) =
     [Text ''invalid instance name '', Dbg name, Text ''; use 1-63 lowercase letters, digits, or hyphens'']"
| "lsw_error_display (InvalidValue field reason) = [Text ''invalid '', Disp field, Text '': ''] @ reason"
| "lsw_error_display (InvalidManifest reason) = Text ''invalid instance manifest: '' # reason"
| "lsw_error_display (LswProtocol reason) = Text ''protocol error: '' # reason"
| "lsw_error_display (MissingCapabilities capabilities) =
     [Text ''missing host capabilities: '', Disp (join '', '' capabilities)]"
| "lsw_error_display (ExternalCommandFailed program (Some code)) =
     [Text ''external command '', Disp program, Text '' exited with status '', Disp (decimal_i32 code)]"
| "lsw_error_display (ExternalCommandFailed program None) =
     [Text ''external command '', Disp program, Text '' was terminated by a signal'']"
| "lsw_error_display (InstanceAlreadyExists path) = [Text ''instance already exists at '', Disp path]"
| "lsw_error_display (InstanceNotFound name) = [Text ''instance '', Dbg name, Text '' was not found'']"

primrec lsw_error_of_protocol :: "ProtocolError \<Rightarrow> LswError" where
  "lsw_error_of_protocol (Io e) = LswIo e"
| "lsw_error_of_protocol (Protocol reason) = LswProtocol reason"

text \<open>The conversion keeps the text of the error.\<close>

lemma lsw_error_of_protocol_display:
  "lsw_error_display (lsw_error_of_protocol e) = protocol_error_display e"
  by (cases e) simp_all

end
