(* ===== verification/Rust_Str.thy ===== *)
theory Rust_Str
  imports Rust_Text "HOL-Library.Sublist"
begin

text \<open>
  Cutting strings apart, as \<open>str\<close> and \<open>Path\<close> do: lines, fields separated by a character, path
  components; and the printing and parsing of numbers, with the lemmas that the two are inverse.
\<close>

section \<open>Definitions\<close>

fun split_char :: "char list \<Rightarrow> string \<Rightarrow> string list" where
  "split_char cs [] = [[]]"
| "split_char cs (x # xs) =
     (case split_char cs xs of
        [] \<Rightarrow> [[]]
      | y # ys \<Rightarrow> if x \<in> set cs then [] # y # ys else (x # y) # ys)"

fun split_once :: "char \<Rightarrow> string \<Rightarrow> (string \<times> string) option" where
  "split_once c [] = None"
| "split_once c (x # xs) = (if x = c then Some ([], xs) else map_option (\<lambda>(a, b). (x # a, b)) (split_once c xs))"

definition NL :: char where "NL = CHR 0x0A"
definition CR :: char where "CR = CHR 0x0D"

definition strip_cr :: "string \<Rightarrow> string" where
  "strip_cr s = (if s \<noteq> [] \<and> last s = CR then butlast s else s)"

text \<open>\<open>str::lines\<close>: a carriage return is removed only before a line feed.\<close>

definition lines :: "string \<Rightarrow> string list" where
  "lines s = (let ls = split_char [NL] s
     in map strip_cr (butlast ls) @ (if last ls = [] then [] else [last ls]))"

definition char_is_whitespace :: "nat \<Rightarrow> bool" where
  "char_is_whitespace c \<longleftrightarrow> (9 \<le> c \<and> c \<le> 13) \<or> (0x2000 \<le> c \<and> c \<le> 0x200A)
     \<or> c \<in> {0x20, 0x85, 0xA0, 0x1680, 0x2028, 0x2029, 0x202F, 0x205F, 0x3000}"

text \<open>\<open>line.trim().is_empty()\<close>.\<close>

definition is_blank :: "string \<Rightarrow> bool" where
  "is_blank s = list_all char_is_whitespace (str_chars s)"

definition strip_prefix :: "string \<Rightarrow> string \<Rightarrow> string option" where
  "strip_prefix s p = (if take (length p) s = p then Some (drop (length p) s) else None)"

definition replace_char :: "char \<Rightarrow> char \<Rightarrow> string \<Rightarrow> string" where
  "replace_char a b s = map (\<lambda>c. if c = a then b else c) s"


section \<open>Paths\<close>

text \<open>A \<open>Path\<close> is its bytes; its components are compared without empty and \<open>.\<close> parts.\<close>

definition path_is_absolute :: "string \<Rightarrow> bool" where
  "path_is_absolute p \<longleftrightarrow> p \<noteq> [] \<and> hd p = CHR ''/''"

definition path_components :: "string \<Rightarrow> string list" where
  "path_components p =
     (let parts = split_char [CHR ''/''] p
      in (if path_is_absolute p then [''/''] else if hd parts = ''.'' then [''.''] else [])
         @ filter (\<lambda>c. c \<noteq> [] \<and> c \<noteq> ''.'') parts)"

definition path_has_parent :: "string \<Rightarrow> bool" where
  "path_has_parent p \<longleftrightarrow> (if path_is_absolute p then length (path_components p) > 1 else path_components p \<noteq> [])"

definition path_starts_with :: "string \<Rightarrow> string \<Rightarrow> bool" where
  "path_starts_with p q \<longleftrightarrow> prefix (path_components q) (path_components p)"

definition path_to_str :: "string \<Rightarrow> string option" where
  "path_to_str p = (if utf8_valid p then Some p else None)"

definition path_display :: "string \<Rightarrow> string" where
  "path_display p = from_utf8_lossy (as_bytes p)"


section \<open>Numbers\<close>

lemma decimal_nonempty [simp]: "decimal n \<noteq> []"
  by (subst decimal.simps) simp

lemma decimal_digits: "c \<in> set (decimal n) \<Longrightarrow> is_ascii_digit c"
proof (induction n rule: decimal.induct)
  case (1 n)
  show ?case
  proof (cases "n < 10")
    case True
    with "1.prems" show ?thesis by (subst (asm) decimal.simps) (simp add: is_ascii_digit_def char_code_of)
  next
    case False
    then have "c = char_of (48 + n mod 10) \<or> c \<in> set (decimal (n div 10))"
      using "1.prems" by (subst (asm) decimal.simps) auto
    moreover have "48 + n mod 10 < 256" "n mod 10 < 10" by simp_all
    ultimately show ?thesis using "1.IH" False by (auto simp: is_ascii_digit_def char_code_of)
  qed
qed

lemma parse_digits_append:
  "parse_digits bound acc (s @ t) = (case parse_digits bound acc s of Inl e \<Rightarrow> Inl e | Inr n \<Rightarrow> parse_digits bound n t)"
  by (induction bound acc s rule: parse_digits.induct) auto

lemma parse_digits_decimal: "n < bound \<Longrightarrow> parse_digits bound 0 (decimal n) = Inr n"
proof (induction n rule: decimal.induct)
  case (1 n)
  show ?case
  proof (cases "n < 10")
    case True
    then show ?thesis
      using "1.prems" by (subst decimal.simps) (simp add: is_ascii_digit_def char_code_of)
  next
    case False
    have d: "char_code (char_of (48 + n mod 10)) = 48 + n mod 10" by (rule char_code_of) (simp add: less_le_trans [of "n mod 10" 10])
    have "parse_digits bound 0 (decimal (n div 10)) = Inr (n div 10)"
      using False "1.prems" by (intro "1.IH") simp_all
    then have "parse_digits bound 0 (decimal (n div 10) @ [char_of (48 + n mod 10)]) = Inr n"
      using "1.prems" by (simp add: parse_digits_append is_ascii_digit_def d less_Suc_eq_le [symmetric])
    with False show ?thesis by (subst decimal.simps) simp
  qed
qed

lemma parse_int_decimal [simp]: "n < bound \<Longrightarrow> parse_int bound (decimal n) = Inr n"
proof -
  assume n: "n < bound"
  have "hd (decimal n) \<noteq> CHR ''+''"
    using decimal_digits [of "hd (decimal n)" n] by (auto simp: is_ascii_digit_def char_code_def)
  moreover from this have "decimal n \<noteq> ''+''" by (cases "decimal n") auto
  ultimately show ?thesis using n by (simp add: parse_int_def parse_digits_decimal)
qed

lemma parse_word_decimal [simp]: "parse_word (decimal (unat w)) = Inr (w :: 'a::len word)"
proof -
  have "unat w < 2 ^ LENGTH('a)" by (rule unsigned_less)
  then show ?thesis by (simp add: parse_word_def)
qed

lemma parse_bool_display [simp]: "parse_bool (bool_display b) = Inr b"
  by (simp add: parse_bool_def bool_display_def)


section \<open>Splitting\<close>

lemma split_char_nonempty [simp]: "split_char cs s \<noteq> []"
  by (induction s) (auto split: list.splits)

lemma split_char_append:
  assumes "\<forall>x \<in> set s. x \<notin> set cs" and "c \<in> set cs"
  shows "split_char cs (s @ c # t) = s # split_char cs t"
  using assms(1)
proof (induction s)
  case Nil
  with assms(2) show ?case by (cases "split_char cs t") (auto simp: split_char_nonempty)
qed (simp split: list.splits)

lemma split_char_none: "\<forall>x \<in> set s. x \<notin> set cs \<Longrightarrow> split_char cs s = [s]"
  by (induction s) (auto split: list.splits)

lemma split_char_join:
  assumes "c \<in> set cs" and "\<forall>s \<in> set ss. \<forall>x \<in> set s. x \<notin> set cs" and "ss \<noteq> []"
  shows "split_char cs (concat (map (\<lambda>s. s @ [c]) (butlast ss)) @ last ss) = ss"
  using assms(2,3)
proof (induction ss)
  case (Cons s ss)
  then show ?case
    using assms(1) by (cases "ss = []") (simp_all add: split_char_none split_char_append)
qed simp

lemma lines_concat:
  assumes "\<forall>s \<in> set ss. NL \<notin> set s \<and> CR \<notin> set s"
  shows "lines (concat (map (\<lambda>s. s @ [NL]) ss)) = ss"
proof -
  have "split_char [NL] (concat (map (\<lambda>s. s @ [NL]) (butlast (ss @ [[]]))) @ last (ss @ [[]])) = ss @ [[]]"
    using assms by (intro split_char_join) auto
  then have "split_char [NL] (concat (map (\<lambda>s. s @ [NL]) ss)) = ss @ [[]]" by simp
  moreover have "map strip_cr ss = ss"
    using assms by (intro map_idI) (auto simp: strip_cr_def dest: last_in_set)
  ultimately show ?thesis by (simp add: lines_def)
qed

lemma split_once_append: "c \<notin> set k \<Longrightarrow> split_once c (k @ c # v) = Some (k, v)"
  by (induction k) auto


section \<open>Well-formed text\<close>

text \<open>An ASCII byte of well-formed text is one of its characters.\<close>

lemma utf8_step_ascii:
  "utf8_step bs = Some (c, r) \<Longrightarrow> b \<in> set bs \<Longrightarrow> b < 0x80 \<Longrightarrow> b = c \<or> b \<in> set r"
  by (cases bs) (auto simp: utf8_continuation_def split: if_splits list.splits)

lemma utf8_decode_ascii_byte:
  "utf8_decode bs = Some cs \<Longrightarrow> b \<in> set bs \<Longrightarrow> b < 0x80 \<Longrightarrow> b \<in> set cs"
proof (induction bs arbitrary: cs rule: utf8_decode.induct)
  case (2 a r)
  from "2.prems"(1) obtain c rest ds where step: "utf8_step (a # r) = Some (c, rest)"
    and ds: "utf8_decode rest = Some ds" and cs: "cs = c # ds"
    by (auto split: option.splits simp del: utf8_step.simps)
  from utf8_step_ascii [OF step "2.prems"(2,3)] show ?case
    using "2.IH" [OF step refl ds] "2.prems"(3) cs by auto
qed simp

lemma ascii_in_str_chars: "utf8_valid s \<Longrightarrow> c \<in> set s \<Longrightarrow> char_code c < 0x80 \<Longrightarrow> char_code c \<in> set (str_chars s)"
  using utf8_decode_ascii_byte [of "map char_code s" _ "char_code c"] by (auto simp: utf8_valid_def str_chars_def)

lemma not_blank:
  "utf8_valid s \<Longrightarrow> c \<in> set s \<Longrightarrow> char_code c < 0x80 \<Longrightarrow> \<not> char_is_whitespace (char_code c) \<Longrightarrow> \<not> is_blank s"
  using ascii_in_str_chars [of s c] by (auto simp: is_blank_def list_all_iff)

text \<open>Well-formed text survives its lossy reading.\<close>

lemma utf8_step_suffix: "utf8_step bs = Some (c, r) \<Longrightarrow> \<exists>p. bs = p @ r"
  by (cases bs) (auto split: if_splits list.splits)

lemma utf8_lossy_valid: "utf8_decode bs = Some cs \<Longrightarrow> utf8_lossy bs = bs"
proof (induction bs arbitrary: cs rule: utf8_decode.induct)
  case (2 a r)
  from "2.prems" obtain c rest ds where step: "utf8_step (a # r) = Some (c, rest)"
    and ds: "utf8_decode rest = Some ds"
    by (auto split: option.splits simp del: utf8_step.simps)
  from utf8_step_suffix [OF step] obtain p where p: "a # r = p @ rest" by blast
  then have "take (length (a # r) - length rest) (a # r) = p" by (metis add_diff_cancel_right' append_eq_conv_conj length_append)
  then have "utf8_lossy (a # r) = p @ rest"
    using "2.IH" [OF step refl ds] step by (simp del: utf8_step.simps)
  with p show ?case by simp
qed simp

lemma path_display_valid [simp]: "utf8_valid p \<Longrightarrow> path_display p = p"
proof -
  assume "utf8_valid p"
  then obtain cs where "utf8_decode (map char_code p) = Some cs" by (auto simp: utf8_valid_def)
  moreover have "map unat (as_bytes p) = map char_code p" by (simp add: as_bytes_def unat_byte_of_char o_def)
  ultimately show ?thesis by (simp add: path_display_def from_utf8_lossy_def utf8_lossy_valid o_def)
qed

text \<open>Cutting well-formed text at an ASCII character leaves well-formed parts.\<close>

lemma utf8_step_shape:
  assumes "utf8_step bs = Some (ch, rest)"
  shows "\<exists>x q. bs = x # q @ rest \<and> (\<forall>b \<in> set q. 0x80 \<le> b) \<and> (\<forall>ys. utf8_step (x # q @ ys) = Some (ch, ys))"
proof (cases bs)
  case Nil
  with assms show ?thesis by simp
next
  case (Cons a r)
  consider "a < 0x80" | "0xC2 \<le> a" "a \<le> 0xDF" | "0xE0 \<le> a" "a \<le> 0xEF" | "0xF0 \<le> a" "a \<le> 0xF4"
    using assms Cons by (auto split: if_splits)
  then show ?thesis
  proof cases
    case 1
    with assms Cons show ?thesis by (intro exI [of _ a] exI [of _ "[]"]) simp
  next
    case 2
    with assms Cons obtain b where "r = b # rest" "utf8_continuation b"
      by (auto split: if_splits list.splits)
    with 2 assms Cons show ?thesis
      by (intro exI [of _ a] exI [of _ "[b]"]) (simp add: utf8_continuation_def)
  next
    case 3
    with assms Cons obtain b c where "r = b # c # rest" "0x80 \<le> b" "utf8_continuation c"
      by (auto split: if_splits list.splits)
    with 3 assms Cons show ?thesis
      by (intro exI [of _ a] exI [of _ "[b, c]"]) (auto simp: utf8_continuation_def split: if_splits)
  next
    case 4
    with assms Cons obtain b c d where "r = b # c # d # rest" "0x80 \<le> b" "utf8_continuation c" "utf8_continuation d"
      by (auto split: if_splits list.splits)
    with 4 assms Cons show ?thesis
      by (intro exI [of _ a] exI [of _ "[b, c, d]"]) (auto simp: utf8_continuation_def split: if_splits)
  qed
qed

lemma utf8_step_cut:
  assumes "c < 0x80" and "utf8_step ((x # r) @ c # ys) = Some (ch, rest)"
  shows "\<exists>r'. utf8_step (x # r) = Some (ch, r') \<and> rest = r' @ c # ys"
proof -
  from utf8_step_shape [OF assms(2)] obtain q where q: "r @ c # ys = q @ rest" "\<forall>b \<in> set q. 0x80 \<le> b"
    "\<And>zs. utf8_step (x # q @ zs) = Some (ch, zs)" by auto
  from q(1) consider r' where "r = q @ r'" "rest = r' @ c # ys" | r' where "q = r @ r'" "c # ys = r' @ rest"
    by (auto simp: append_eq_append_conv2)
  then show ?thesis
  proof cases
    case 1
    with q(3) show ?thesis by auto
  next
    case 2
    with q(2) assms(1) have "r' = []" by (cases r') auto
    with 2 q(3) [of "[]"] show ?thesis by auto
  qed
qed

lemma utf8_decode_cut:
  "c < 0x80 \<Longrightarrow> utf8_decode (xs @ c # ys) = Some cs \<Longrightarrow> utf8_decode xs \<noteq> None \<and> utf8_decode ys \<noteq> None"
proof (induction xs arbitrary: cs rule: utf8_decode.induct)
  case 1
  then show ?case by (auto split: option.splits)
next
  case (2 a r)
  from "2.prems"(2) obtain ch rest ds where
    step: "utf8_step ((a # r) @ c # ys) = Some (ch, rest)" and ds: "utf8_decode rest = Some ds"
    by (auto split: option.splits simp del: utf8_step.simps)
  from utf8_step_cut [OF "2.prems"(1) step] obtain r' where
    r': "utf8_step (a # r) = Some (ch, r')" "rest = r' @ c # ys" by blast
  from "2.IH" [OF r'(1) refl "2.prems"(1)] ds r' show ?case
    by (auto split: option.splits simp del: utf8_step.simps)
qed

lemma utf8_valid_cut:
  "utf8_valid (s @ c # t) \<Longrightarrow> char_code c < 0x80 \<Longrightarrow> utf8_valid s \<and> utf8_valid t"
  using utf8_decode_cut [of "char_code c" "map char_code s" "map char_code t"] by (auto simp: utf8_valid_def)

lemma utf8_valid_split:
  "utf8_valid s \<Longrightarrow> \<forall>c \<in> set cs. char_code c < 0x80 \<Longrightarrow> part \<in> set (split_char cs s) \<Longrightarrow> utf8_valid part"
proof (induction "length s" arbitrary: s rule: less_induct)
  case less
  show ?case
  proof (cases "dropWhile (\<lambda>x. x \<notin> set cs) s")
    case Nil
    then have "split_char cs s = [s]" by (intro split_char_none) simp
    with less.prems show ?thesis by simp
  next
    case (Cons c t)
    have s: "s = takeWhile (\<lambda>x. x \<notin> set cs) s @ c # t" using Cons by (metis takeWhile_dropWhile_id)
    have "c \<in> set cs" using Cons by (metis dropWhile_eq_Cons_conv)
    with less.prems have "char_code c < 0x80" by simp
    with utf8_valid_cut [of "takeWhile (\<lambda>x. x \<notin> set cs) s" c t] less.prems(1) s
    have valid: "utf8_valid (takeWhile (\<lambda>x. x \<notin> set cs) s)" "utf8_valid t" by simp_all
    have "length t < length s" using arg_cong [OF s, of length] by simp
    moreover have "split_char cs s = takeWhile (\<lambda>x. x \<notin> set cs) s # split_char cs t"
      using split_char_append [OF _ \<open>c \<in> set cs\<close>, of "takeWhile (\<lambda>x. x \<notin> set cs) s" t] s
      by (auto dest: set_takeWhileD)
    ultimately show ?thesis using less.hyps [of t] less.prems valid by auto
  qed
qed

lemma split_once_Some: "split_once c s = Some (k, v) \<Longrightarrow> s = k @ c # v \<and> c \<notin> set k"
  by (induction s arbitrary: k) (auto split: if_splits)

lemma utf8_valid_split_once:
  "utf8_valid s \<Longrightarrow> char_code c < 0x80 \<Longrightarrow> split_once c s = Some (k, v) \<Longrightarrow> utf8_valid k \<and> utf8_valid v"
  using utf8_valid_cut [of k c v] by (auto dest: split_once_Some)

lemma utf8_valid_lines: "utf8_valid s \<Longrightarrow> line \<in> set (lines s) \<Longrightarrow> utf8_valid line"
proof -
  assume s: "utf8_valid s" and "line \<in> set (lines s)"
  then have "line \<in> strip_cr ` set (butlast (split_char [NL] s)) \<or> line = last (split_char [NL] s)"
    by (auto simp: lines_def Let_def split: if_splits)
  then obtain part where part: "part \<in> set (split_char [NL] s)" "line = part \<or> line = strip_cr part"
    using last_in_set [OF split_char_nonempty [of "[NL]" s]] by (blast dest: in_set_butlastD)
  have valid: "utf8_valid part" using utf8_valid_split [OF s _ part(1)] by (simp add: NL_def char_code_def)
  show ?thesis
  proof (cases "part \<noteq> [] \<and> last part = CR")
    case True
    then have "part = butlast part @ CR # []" by (metis append_butlast_last_id)
    with valid utf8_valid_cut [of "butlast part" CR "[]"] have "utf8_valid (butlast part)"
      by (simp add: CR_def char_code_def)
    with part valid show ?thesis by (auto simp: strip_cr_def)
  qed (use part valid in \<open>auto simp: strip_cr_def\<close>)
qed

end
