(* ===== verification/Host_Fs.thy ===== *)
theory Host_Fs
  imports Host_Io Lsw_Error Rust_Str "HOL-Library.AList"
begin

text \<open>
  The part of \<open>std::fs\<close> that the host programs use, over a tree of nodes keyed by their paths.  Any
  call may fail before it has an effect, and a write may stop after any number of bytes: when, is
  for the operating system to say, a parameter of every operation.  A symbolic link is seen by
  \<open>symlink_metadata\<close>; what lies behind it is another answer of the system.
\<close>

section \<open>Paths and text\<close>

definition path_join :: "string \<Rightarrow> string \<Rightarrow> string" where
  "path_join p q = (if path_is_absolute q then q
     else if p = [] \<or> last p = CHR ''/'' then p @ q else p @ ''/'' @ q)"

lemma path_join_base: "path_join d (c # s) = path_join d [] @ c # s" if "c \<noteq> CHR ''/''"
  using that by (simp add: path_join_def path_is_absolute_def)

text \<open>\<open>Path::with_extension\<close> on a path whose last component is a file name.\<close>

definition with_extension :: "string \<Rightarrow> string \<Rightarrow> string" where
  "with_extension p extension =
     (let name = rev (takeWhile (\<lambda>c. c \<noteq> CHR ''/'') (rev p));
          parent = take (length p - length name) p;
          stem = (if CHR ''.'' \<in> set (tl name)
                  then rev (tl (dropWhile (\<lambda>c. c \<noteq> CHR ''.'') (rev name))) else name)
      in parent @ stem @ ''.'' @ extension)"

text \<open>\<open>str::trim\<close>: the white space at the end and at the start, at character boundaries.\<close>

definition char_boundary :: "string \<Rightarrow> nat \<Rightarrow> bool" where
  "char_boundary s n \<longleftrightarrow> utf8_valid (take n s) \<and> utf8_valid (drop n s)"

definition trim_end :: "string \<Rightarrow> string" where
  "trim_end s = (case filter (\<lambda>n. char_boundary s n \<and> is_blank (drop n s)) [0..<Suc (length s)] of
     [] \<Rightarrow> s | n # _ \<Rightarrow> take n s)"

definition trim_start :: "string \<Rightarrow> string" where
  "trim_start s = (case rev (filter (\<lambda>n. char_boundary s n \<and> is_blank (take n s)) [0..<Suc (length s)]) of
     [] \<Rightarrow> s | n # _ \<Rightarrow> drop n s)"

definition trim :: "string \<Rightarrow> string" where
  "trim s = trim_start (trim_end s)"


section \<open>Nodes\<close>

text \<open>Directories and regular files carry their permission bits.\<close>

datatype fs_node =
    Directory nat
  | Regular nat string
  | Symlink
  | SocketNode

type_synonym node_list = "(string \<times> fs_node) list"

fun is_dir :: "fs_node \<Rightarrow> bool" where
  "is_dir (Directory mode) \<longleftrightarrow> True"
| "is_dir _ \<longleftrightarrow> False"

fun is_regular :: "fs_node \<Rightarrow> bool" where
  "is_regular (Regular mode contents) \<longleftrightarrow> True"
| "is_regular _ \<longleftrightarrow> False"

record 'w host =
  h_nodes :: node_list
  h_rest :: 'w

definition node_at :: "'w host \<Rightarrow> string \<Rightarrow> fs_node option" where
  "node_at h p = map_of (h_nodes h) p"

datatype fs_call =
    FsMetadata string
  | FsExists string
  | FsRead string
  | FsReadDir string
  | FsReadEntry string
  | FsCreateDir string
  | FsOpen string
  | FsWrite string
  | FsSync string
  | FsPermissions string
  | FsRename string string
  | FsHardLink string string
  | FsRemoveFile string
  | FsRemoveDir string
  | FsRemoveDirAll string
  | FsCanonicalize string

text \<open>How a process ended: with a code, or by a signal, whose text the system gives.\<close>

datatype ExitStatus = Exited i32 | Signaled string

fun exit_code :: "ExitStatus \<Rightarrow> i32 option" where
  "exit_code (Exited n) = Some n"
| "exit_code (Signaled s) = None"

definition exit_success :: "ExitStatus \<Rightarrow> bool" where
  "exit_success status \<longleftrightarrow> exit_code status = Some 0"

fun exit_status_display :: "ExitStatus \<Rightarrow> string" where
  "exit_status_display (Exited n) = ''exit status: '' @ decimal_i32 n"
| "exit_status_display (Signaled s) = s"

text \<open>
  The answers of the system: whether a call fails, how much of a failing write reaches the file,
  what a link leads to, the real name of a path, the permissions and owners of nodes, the clock, the
  process id, randomness, whether a local port can be bound, and what a program that is run to its
  end does to the host.
\<close>

record 'w host_os =
  ho_fault :: "fs_call \<Rightarrow> 'w \<Rightarrow> io_error option \<times> 'w"
  ho_partial :: "'w \<Rightarrow> nat"
  ho_link_exists :: "string \<Rightarrow> 'w \<Rightarrow> bool"
  ho_link_contents :: "string \<Rightarrow> 'w \<Rightarrow> io_error + string"
  ho_link_is_file :: "string \<Rightarrow> 'w \<Rightarrow> bool"
  ho_link_is_dir :: "string \<Rightarrow> 'w \<Rightarrow> bool"
  ho_canonical :: "string \<Rightarrow> 'w \<Rightarrow> io_error + string"
  ho_owner :: "string \<Rightarrow> 'w \<Rightarrow> u32"
  ho_file_mode :: nat
  ho_dir_mode :: nat
  ho_nanos :: "'w \<Rightarrow> nat \<times> 'w"
  ho_pid :: nat
  ho_random :: "'w \<Rightarrow> (io_error + bytes) \<times> 'w"
  ho_bind_port :: "u16 \<Rightarrow> 'w \<Rightarrow> (io_error + unit) \<times> 'w"
  ho_command :: "string \<Rightarrow> string list \<Rightarrow> 'w host \<Rightarrow> (io_error + ExitStatus) \<times> 'w host"

type_synonym ('w, 'a) fs = "('w host, io_error, 'a) io"

definition fs_run :: "'w host_os \<Rightarrow> fs_call \<Rightarrow> ('w \<Rightarrow> node_list \<Rightarrow> (io_error + 'a) \<times> node_list) \<Rightarrow> ('w, 'a) fs" where
  "fs_run os call f = (\<lambda>h.
     case ho_fault os call (h_rest h) of
       (Some e, w) \<Rightarrow> Some (Inl e, h\<lparr>h_rest := w\<rparr>)
     | (None, w) \<Rightarrow> (case f w (h_nodes h) of (r, ns) \<Rightarrow> Some (r, \<lparr>h_nodes = ns, h_rest = w\<rparr>)))"

text \<open>A question to the rest of the system.\<close>

definition os_ask :: "('w \<Rightarrow> 'a \<times> 'w) \<Rightarrow> ('w host, 'e, 'a) io" where
  "os_ask f = (\<lambda>h. case f (h_rest h) of (x, w) \<Rightarrow> Some (Inr x, h\<lparr>h_rest := w\<rparr>))"

definition os_try :: "('w \<Rightarrow> (io_error + 'a) \<times> 'w) \<Rightarrow> ('w, 'a) fs" where
  "os_try f = (\<lambda>h. case f (h_rest h) of (r, w) \<Rightarrow> Some (r, h\<lparr>h_rest := w\<rparr>))"


section \<open>Operations\<close>

definition symlink_metadata :: "'w host_os \<Rightarrow> string \<Rightarrow> ('w, fs_node) fs" where
  "symlink_metadata os p = fs_run os (FsMetadata p) (\<lambda>w ns. (ok_or (map_of ns p) NotFound, ns))"

text \<open>\<open>Path::exists\<close>, which answers no when it cannot tell.\<close>

definition path_exists :: "'w host_os \<Rightarrow> string \<Rightarrow> ('w host, 'e, bool) io" where
  "path_exists os p =
     io_bind (io_attempt (fs_run os (FsExists p) (\<lambda>w ns. (Inr (case map_of ns p of
        None \<Rightarrow> False | Some Symlink \<Rightarrow> ho_link_exists os p w | Some _ \<Rightarrow> True), ns)))) (\<lambda>r.
     io_return (case r of Inl _ \<Rightarrow> False | Inr b \<Rightarrow> b))"

text \<open>\<open>Path::is_file\<close> and \<open>Path::is_dir\<close>, which look behind a link.\<close>

definition path_test :: "'w host_os \<Rightarrow> (fs_node \<Rightarrow> bool) \<Rightarrow> (string \<Rightarrow> 'w \<Rightarrow> bool) \<Rightarrow> string \<Rightarrow> ('w host, 'e, bool) io" where
  "path_test os test behind p =
     io_bind (io_attempt (fs_run os (FsExists p) (\<lambda>w ns. (Inr (case map_of ns p of
        None \<Rightarrow> False | Some Symlink \<Rightarrow> behind p w | Some n \<Rightarrow> test n), ns)))) (\<lambda>r.
     io_return (case r of Inl _ \<Rightarrow> False | Inr b \<Rightarrow> b))"

definition path_is_file :: "'w host_os \<Rightarrow> string \<Rightarrow> ('w host, 'e, bool) io" where
  "path_is_file os = path_test os is_regular (ho_link_is_file os)"

definition path_is_dir :: "'w host_os \<Rightarrow> string \<Rightarrow> ('w host, 'e, bool) io" where
  "path_is_dir os = path_test os is_dir (ho_link_is_dir os)"

definition canonicalize :: "'w host_os \<Rightarrow> string \<Rightarrow> ('w, string) fs" where
  "canonicalize os p = fs_run os (FsCanonicalize p) (\<lambda>w ns. (ho_canonical os p w, ns))"

text \<open>The owner that \<open>fs::metadata\<close> reports.\<close>

definition metadata_uid :: "'w host_os \<Rightarrow> string \<Rightarrow> ('w, u32) fs" where
  "metadata_uid os p = fs_run os (FsMetadata p) (\<lambda>w ns.
     (if map_of ns p = None then Inl NotFound else Inr (ho_owner os p w), ns))"

text \<open>\<open>Command::status\<close>.\<close>

definition run_command :: "'w host_os \<Rightarrow> string \<Rightarrow> string list \<Rightarrow> ('w, ExitStatus) fs" where
  "run_command os program arguments = (\<lambda>h. Some (ho_command os program arguments h))"

fun node_contents :: "(io_error + string) \<Rightarrow> fs_node option \<Rightarrow> io_error + string" where
  "node_contents behind None = Inl NotFound"
| "node_contents behind (Some (Regular mode contents)) = Inr contents"
| "node_contents behind (Some Symlink) = behind"
| "node_contents behind (Some (Directory mode)) = Inl (OsError ''Is a directory (os error 21)'')"
| "node_contents behind (Some SocketNode) = Inl (OsError ''No such device or address (os error 6)'')"

definition read_file :: "'w host_os \<Rightarrow> string \<Rightarrow> ('w, string) fs" where
  "read_file os p = fs_run os (FsRead p) (\<lambda>w ns. (node_contents (ho_link_contents os p w) (map_of ns p), ns))"

definition read_to_string :: "'w host_os \<Rightarrow> string \<Rightarrow> ('w, string) fs" where
  "read_to_string os p = io_bind (read_file os p) (\<lambda>contents.
     if utf8_valid contents then io_return contents else io_fail InvalidUtf8)"

text \<open>\<open>File::open\<close>.\<close>

definition open_read :: "'w host_os \<Rightarrow> string \<Rightarrow> ('w, unit) fs" where
  "open_read os p = fs_run os (FsOpen p) (\<lambda>w ns.
     (case map_of ns p of
        None \<Rightarrow> Inl NotFound
      | Some Symlink \<Rightarrow> if ho_link_exists os p w then Inr () else Inl NotFound
      | Some SocketNode \<Rightarrow> Inl (OsError ''No such device or address (os error 6)'')
      | Some _ \<Rightarrow> Inr (), ns))"

text \<open>The entries of a directory, in the order the system keeps them.\<close>

definition dir_entries :: "node_list \<Rightarrow> string \<Rightarrow> (string \<times> fs_node) list" where
  "dir_entries ns p = filter (\<lambda>(name, _). name \<noteq> [] \<and> CHR ''/'' \<notin> set name)
     (List.map_filter (\<lambda>(k, n). map_option (\<lambda>name. (name, n)) (strip_prefix k (path_join p []))) ns)"

definition read_dir :: "'w host_os \<Rightarrow> string \<Rightarrow> ('w, (string \<times> fs_node) list) fs" where
  "read_dir os p = fs_run os (FsReadDir p) (\<lambda>w ns. (Inr (dir_entries ns p), ns))"

text \<open>Taking the next entry and asking for its type may fail too.\<close>

definition read_entry :: "'w host_os \<Rightarrow> string \<Rightarrow> ('w, unit) fs" where
  "read_entry os p = fs_run os (FsReadEntry p) (\<lambda>w ns. (Inr (), ns))"

definition create_dir :: "'w host_os \<Rightarrow> string \<Rightarrow> ('w, unit) fs" where
  "create_dir os p = fs_run os (FsCreateDir p) (\<lambda>w ns.
     case map_of ns p of
       None \<Rightarrow> (Inr (), AList.update p (Directory (ho_dir_mode os)) ns)
     | Some _ \<Rightarrow> (Inl AlreadyExists, ns))"

text \<open>The path and the directories above it, outermost first.\<close>

definition path_ancestors :: "string \<Rightarrow> string list" where
  "path_ancestors p = map (\<lambda>n. take n p) (filter (\<lambda>n. 0 < n \<and> p ! n = CHR ''/'') [0..<length p]) @ [p]"

text \<open>\<open>Path::parent\<close> and \<open>Path::ancestors\<close>: trailing separators and \<open>.\<close> components do not count.\<close>

function path_trim :: "string \<Rightarrow> string" where
  "path_trim p =
     (if 1 < length p \<and> last p = CHR ''/'' then path_trim (butlast p)
      else if 1 < length p \<and> last p = CHR ''.'' \<and> last (butlast p) = CHR ''/'' then path_trim (butlast p)
      else p)"
  by pat_completeness auto

termination path_trim
  by (relation "measure length") auto

declare path_trim.simps [simp del]

definition path_parent :: "string \<Rightarrow> string option" where
  "path_parent p =
     (let q = path_trim p
      in if q = [] \<or> q = ''/'' then None
         else Some (path_trim (rev (dropWhile (\<lambda>c. c \<noteq> CHR ''/'') (rev q)))))"

lemma path_trim_shorter: "length (path_trim p) \<le> length p"
  by (induction p rule: path_trim.induct) (subst path_trim.simps, auto)

lemma path_trim_last: "1 < length (path_trim p) \<Longrightarrow> last (path_trim p) \<noteq> CHR ''/''"
  by (induction p rule: path_trim.induct) (subst (asm) path_trim.simps, subst path_trim.simps, auto split: if_splits)

lemma path_parent_shorter:
  assumes "path_parent p = Some q" shows "length q < length p"
proof -
  let ?p = "path_trim p" and ?f = "dropWhile (\<lambda>c. c \<noteq> CHR ''/'')"
  have p: "?p \<noteq> []" "?p \<noteq> ''/''" and q: "q = path_trim (rev (?f (rev ?p)))"
    using assms by (auto simp: path_parent_def Let_def split: if_splits)
  have "last ?p \<noteq> CHR ''/''"
    using path_trim_last [of p] p by (cases ?p) (auto split: if_splits)
  then have "?f (rev ?p) = ?f (tl (rev ?p))" using p(1) by (cases "rev ?p") (auto simp: last_rev [symmetric])
  then have "length (?f (rev ?p)) < length ?p"
    using length_dropWhile_le [of "\<lambda>c. c \<noteq> CHR ''/''" "tl (rev ?p)"] p(1) by (cases ?p) (auto simp: less_Suc_eq_le)
  then show ?thesis using q path_trim_shorter [of "rev (?f (rev ?p))"] path_trim_shorter [of p] by simp
qed

function ancestors :: "string \<Rightarrow> string list" where
  "ancestors p = p # (case path_parent p of None \<Rightarrow> [] | Some q \<Rightarrow> ancestors q)"
  by pat_completeness auto

termination ancestors
  by (relation "measure length") (auto simp: path_parent_shorter)

declare ancestors.simps [simp del]

definition create_dir_all :: "'w host_os \<Rightarrow> string \<Rightarrow> ('w, unit) fs" where
  "create_dir_all os p = io_for (\<lambda>q. fs_run os (FsCreateDir q) (\<lambda>w ns.
     case map_of ns q of
       None \<Rightarrow> (Inr (), AList.update q (Directory (ho_dir_mode os)) ns)
     | Some (Directory mode) \<Rightarrow> (Inr (), ns)
     | Some Symlink \<Rightarrow> (if ho_link_exists os q w then Inr () else Inl AlreadyExists, ns)
     | Some _ \<Rightarrow> (Inl AlreadyExists, ns))) (path_ancestors p)"

definition open_create_new :: "'w host_os \<Rightarrow> string \<Rightarrow> ('w, unit) fs" where
  "open_create_new os p = fs_run os (FsOpen p) (\<lambda>w ns.
     case map_of ns p of
       None \<Rightarrow> (Inr (), AList.update p (Regular (ho_file_mode os) []) ns)
     | Some _ \<Rightarrow> (Inl AlreadyExists, ns))"

definition set_mode :: "nat \<Rightarrow> fs_node \<Rightarrow> fs_node" where
  "set_mode mode n = (case n of Directory _ \<Rightarrow> Directory mode | Regular _ contents \<Rightarrow> Regular mode contents | _ \<Rightarrow> n)"

definition set_permissions :: "'w host_os \<Rightarrow> string \<Rightarrow> nat \<Rightarrow> ('w, unit) fs" where
  "set_permissions os p mode = fs_run os (FsPermissions p) (\<lambda>w ns.
     case map_of ns p of
       None \<Rightarrow> (Inl NotFound, ns)
     | Some n \<Rightarrow> (Inr (), AList.update p (set_mode mode n) ns))"

fun append_contents :: "string \<Rightarrow> fs_node \<Rightarrow> fs_node" where
  "append_contents s (Regular mode contents) = Regular mode (contents @ s)"
| "append_contents s n = n"

definition append_node :: "string \<Rightarrow> string \<Rightarrow> node_list \<Rightarrow> node_list" where
  "append_node p s ns = (case map_of ns p of None \<Rightarrow> ns | Some n \<Rightarrow> AList.update p (append_contents s n) ns)"

text \<open>\<open>write_all\<close> on a file that was opened at \<open>p\<close>.\<close>

definition write_contents :: "'w host_os \<Rightarrow> string \<Rightarrow> string \<Rightarrow> ('w, unit) fs" where
  "write_contents os p s = (\<lambda>h.
     case ho_fault os (FsWrite p) (h_rest h) of
       (Some e, w) \<Rightarrow> Some (Inl e, \<lparr>h_nodes = append_node p (take (ho_partial os w) s) (h_nodes h), h_rest = w\<rparr>)
     | (None, w) \<Rightarrow> Some (Inr (), \<lparr>h_nodes = append_node p s (h_nodes h), h_rest = w\<rparr>))"

definition sync_file :: "'w host_os \<Rightarrow> string \<Rightarrow> ('w, unit) fs" where
  "sync_file os p = fs_run os (FsSync p) (\<lambda>w ns. (Inr (), ns))"

definition rename_path :: "'w host_os \<Rightarrow> string \<Rightarrow> string \<Rightarrow> ('w, unit) fs" where
  "rename_path os p q = fs_run os (FsRename p q) (\<lambda>w ns.
     case map_of ns p of
       None \<Rightarrow> (Inl NotFound, ns)
     | Some n \<Rightarrow> (if (case map_of ns q of Some (Directory _) \<Rightarrow> True | _ \<Rightarrow> False)
                  then (Inl (OsError ''Is a directory (os error 21)''), ns)
                  else (Inr (), AList.update q n (AList.delete p ns))))"

text \<open>\<open>fs::hard_link\<close>: the second name has the contents of the first.\<close>

definition hard_link :: "'w host_os \<Rightarrow> string \<Rightarrow> string \<Rightarrow> ('w, unit) fs" where
  "hard_link os p q = fs_run os (FsHardLink p q) (\<lambda>w ns.
     case map_of ns p of
       None \<Rightarrow> (Inl NotFound, ns)
     | Some (Directory _) \<Rightarrow> (Inl (OsError ''Operation not permitted (os error 1)''), ns)
     | Some n \<Rightarrow> (if map_of ns q = None then (Inr (), AList.update q n ns) else (Inl AlreadyExists, ns)))"

definition unlink_file :: "'w host_os \<Rightarrow> string \<Rightarrow> ('w, unit) fs" where
  "unlink_file os p = fs_run os (FsRemoveFile p) (\<lambda>w ns.
     case map_of ns p of
       None \<Rightarrow> (Inl NotFound, ns)
     | Some (Directory _) \<Rightarrow> (Inl (OsError ''Is a directory (os error 21)''), ns)
     | Some _ \<Rightarrow> (Inr (), AList.delete p ns))"

definition remove_dir :: "'w host_os \<Rightarrow> string \<Rightarrow> ('w, unit) fs" where
  "remove_dir os p = fs_run os (FsRemoveDir p) (\<lambda>w ns.
     case map_of ns p of
       None \<Rightarrow> (Inl NotFound, ns)
     | Some (Directory _) \<Rightarrow>
         (if dir_entries ns p = [] then (Inr (), AList.delete p ns)
          else (Inl (OsError ''Directory not empty (os error 39)''), ns))
     | Some _ \<Rightarrow> (Inl (OsError ''Not a directory (os error 20)''), ns))"

definition below :: "string \<Rightarrow> string \<Rightarrow> bool" where
  "below p k \<longleftrightarrow> k = p \<or> strip_prefix k (path_join p []) \<noteq> None"

text \<open>A recursive removal that fails may already have removed some of what is below the directory.\<close>

fun remove_below :: "nat \<Rightarrow> string \<Rightarrow> node_list \<Rightarrow> node_list" where
  "remove_below n p [] = []"
| "remove_below n p ((k, v) # ns) =
     (if 0 < n \<and> below p k \<and> k \<noteq> p then remove_below (n - 1) p ns else (k, v) # remove_below n p ns)"

definition remove_dir_all :: "'w host_os \<Rightarrow> string \<Rightarrow> ('w, unit) fs" where
  "remove_dir_all os p = (\<lambda>h.
     case ho_fault os (FsRemoveDirAll p) (h_rest h) of
       (Some e, w) \<Rightarrow> Some (Inl e, \<lparr>h_nodes = remove_below (ho_partial os w) p (h_nodes h), h_rest = w\<rparr>)
     | (None, w) \<Rightarrow>
         (case map_of (h_nodes h) p of
            None \<Rightarrow> Some (Inl NotFound, h\<lparr>h_rest := w\<rparr>)
          | Some _ \<Rightarrow> Some (Inr (), \<lparr>h_nodes = filter (\<lambda>(k, _). \<not> below p k) (h_nodes h), h_rest = w\<rparr>)))"


section \<open>Outcomes of the operations\<close>

text \<open>
  What a call can do, in terms of the nodes it leaves.  A call that fails leaves the nodes alone,
  except for a write or a recursive removal that stops halfway.
\<close>

named_theorems fs_post \<open>the outcomes of file system calls\<close>

definition wf_host :: "'w host \<Rightarrow> bool" where
  "wf_host h \<longleftrightarrow> distinct (map fst (h_nodes h))"

text \<open>The nodes after a call, in a tree that stays well-formed.\<close>

definition leaves :: "'w host \<Rightarrow> (string \<Rightarrow> fs_node option) \<Rightarrow> 'w host \<Rightarrow> bool" where
  "leaves h ns h' \<longleftrightarrow> node_at h' = ns \<and> (wf_host h \<longrightarrow> wf_host h')"

abbreviation unchanged :: "'w host \<Rightarrow> 'w host \<Rightarrow> bool" where
  "unchanged h \<equiv> leaves h (node_at h)"

lemma leaves_updates:
  "leaves h (node_at h) (h\<lparr>h_rest := w\<rparr>)"
  "leaves h (node_at h) \<lparr>h_nodes = h_nodes h, h_rest = w\<rparr>"
  "leaves h ((node_at h)(p \<mapsto> n)) \<lparr>h_nodes = AList.update p n (h_nodes h), h_rest = w\<rparr>"
  "leaves h ((node_at h)(p := None)) \<lparr>h_nodes = AList.delete p (h_nodes h), h_rest = w\<rparr>"
  "leaves h ((node_at h)(p := None, q \<mapsto> n)) \<lparr>h_nodes = AList.update q n (AList.delete p (h_nodes h)), h_rest = w\<rparr>"
  by (auto simp: leaves_def node_at_def wf_host_def update_conv' delete_conv' distinct_update distinct_delete)

lemma post_fs_run:
  assumes "\<And>e w. Q (Inl e) (h\<lparr>h_rest := w\<rparr>)"
    and "\<And>w. case f w (h_nodes h) of (r, ns) \<Rightarrow> Q r \<lparr>h_nodes = ns, h_rest = w\<rparr>"
  shows "post (fs_run os call f) Q h"
proof (cases "ho_fault os call (h_rest h)")
  case (Pair e w)
  with assms(1) assms(2) [of w] show ?thesis
    by (cases e) (auto simp: post_def fs_run_def split: prod.splits)
qed

lemma post_read_only:
  assumes "\<And>e h'. unchanged h h' \<Longrightarrow> Q (Inl e) h'"
    and "\<And>w. case f w (h_nodes h) of (r, ns) \<Rightarrow> ns = h_nodes h \<and> (\<forall>h'. unchanged h h' \<longrightarrow> Q r h')"
  shows "post (fs_run os call f) Q h"
proof (rule post_fs_run)
  show "Q (Inl e) (h\<lparr>h_rest := w\<rparr>)" for e w by (rule assms(1)) (rule leaves_updates)
  show "case f w (h_nodes h) of (r, ns) \<Rightarrow> Q r \<lparr>h_nodes = ns, h_rest = w\<rparr>" for w
    using assms(2) [of w] leaves_updates(2) [of h w] by (cases "f w (h_nodes h)") auto
qed

lemma post_os_ask [fs_post]: "(\<And>x h'. unchanged h h' \<Longrightarrow> Q (Inr x) h') \<Longrightarrow> post (os_ask f) Q h"
  by (cases "f (h_rest h)") (auto simp: post_def os_ask_def leaves_updates)

lemma post_os_try [fs_post]:
  assumes "\<And>e h'. unchanged h h' \<Longrightarrow> Q (Inl e) h'"
    and "\<And>x w h'. f (h_rest h) = (Inr x, w) \<Longrightarrow> unchanged h h' \<Longrightarrow> Q (Inr x) h'"
  shows "post (os_try f) Q h"
  using assms by (cases "f (h_rest h)"; cases "fst (f (h_rest h))") (auto simp: post_def os_try_def leaves_updates)

lemma post_symlink_metadata [fs_post]:
  assumes "\<And>e h'. unchanged h h' \<Longrightarrow> Q (Inl e) h'"
    and "\<And>n h'. unchanged h h' \<Longrightarrow> node_at h p = Some n \<Longrightarrow> Q (Inr n) h'"
  shows "post (symlink_metadata os p) Q h"
  unfolding symlink_metadata_def
  by (rule post_read_only) (cases "map_of (h_nodes h) p"; auto intro: assms simp: node_at_def)+

lemma post_path_exists [fs_post]:
  "(\<And>b h'. unchanged h h' \<Longrightarrow> Q (Inr b) h') \<Longrightarrow> post (path_exists os p) Q h"
  unfolding path_exists_def by (simp only: wp, rule post_read_only) (auto simp: wp)

lemma post_read_file [fs_post]:
  assumes "\<And>e h'. unchanged h h' \<Longrightarrow> Q (Inl e) h'"
    and "\<And>r h'. unchanged h h' \<Longrightarrow> (\<And>n. node_at h p = Some n \<Longrightarrow> is_regular n \<Longrightarrow> \<exists>mode. n = Regular mode r) \<Longrightarrow> Q (Inr r) h'"
  shows "post (read_file os p) Q h"
  unfolding read_file_def
proof (rule post_read_only)
  fix w
  show "case (node_contents (ho_link_contents os p w) (map_of (h_nodes h) p), h_nodes h) of
      (r, ns) \<Rightarrow> ns = h_nodes h \<and> (\<forall>h'. unchanged h h' \<longrightarrow> Q r h')"
    using assms
    by (cases "map_of (h_nodes h) p" rule: option.exhaust; cases "the (map_of (h_nodes h) p)";
        cases "ho_link_contents os p w") (auto simp: node_at_def)
qed (rule assms(1))

lemma post_read_to_string [fs_post]:
  assumes "\<And>e h'. unchanged h h' \<Longrightarrow> Q (Inl e) h'"
    and "\<And>r h'. unchanged h h' \<Longrightarrow> utf8_valid r \<Longrightarrow>
      (\<And>n. node_at h p = Some n \<Longrightarrow> is_regular n \<Longrightarrow> \<exists>mode. n = Regular mode r) \<Longrightarrow> Q (Inr r) h'"
  shows "post (read_to_string os p) Q h"
  unfolding read_to_string_def by (simp only: wp, rule post_read_file) (auto simp: wp intro: assms)

lemma post_read_entry [fs_post]:
  assumes "\<And>e h'. unchanged h h' \<Longrightarrow> Q (Inl e) h'" and "\<And>h'. unchanged h h' \<Longrightarrow> Q (Inr ()) h'"
  shows "post (read_entry os p) Q h"
  unfolding read_entry_def by (rule post_read_only) (auto intro: assms)

lemma post_sync_file [fs_post]:
  assumes "\<And>e h'. unchanged h h' \<Longrightarrow> Q (Inl e) h'" and "\<And>h'. unchanged h h' \<Longrightarrow> Q (Inr ()) h'"
  shows "post (sync_file os p) Q h"
  unfolding sync_file_def by (rule post_read_only) (auto intro: assms)

lemma post_read_dir [fs_post]:
  assumes "\<And>e h'. unchanged h h' \<Longrightarrow> Q (Inl e) h'"
    and "\<And>h'. unchanged h h' \<Longrightarrow> Q (Inr (dir_entries (h_nodes h) p)) h'"
  shows "post (read_dir os p) Q h"
  unfolding read_dir_def by (rule post_read_only) (auto intro: assms)

lemma post_canonicalize [fs_post]:
  assumes "\<And>e h'. unchanged h h' \<Longrightarrow> Q (Inl e) h'" and "\<And>x h'. unchanged h h' \<Longrightarrow> Q (Inr x) h'"
  shows "post (canonicalize os p) Q h"
proof -
  have "Q r h'" if "unchanged h h'" for r h' using that assms by (cases r) auto
  then show ?thesis unfolding canonicalize_def by (intro post_read_only) auto
qed

lemma post_open_read [fs_post]:
  assumes "\<And>e h'. unchanged h h' \<Longrightarrow> Q (Inl e) h'" and "\<And>h'. unchanged h h' \<Longrightarrow> Q (Inr ()) h'"
  shows "post (open_read os p) Q h"
  unfolding open_read_def by (rule post_read_only) (auto intro: assms split: option.splits fs_node.splits)

lemma post_metadata_uid [fs_post]:
  assumes "\<And>e h'. unchanged h h' \<Longrightarrow> Q (Inl e) h'" and "\<And>x h'. unchanged h h' \<Longrightarrow> Q (Inr x) h'"
  shows "post (metadata_uid os p) Q h"
  unfolding metadata_uid_def by (rule post_read_only) (auto intro: assms split: option.splits fs_node.splits)

lemma post_path_test [fs_post]:
  assumes "\<And>b h'. unchanged h h' \<Longrightarrow> (b \<Longrightarrow> node_at h p \<noteq> None) \<Longrightarrow> Q (Inr b) h'"
  shows "post (path_test os test behind p) Q h"
  unfolding path_test_def
  by (simp only: wp, rule post_read_only)
     (auto simp: wp node_at_def intro!: assms split: option.splits fs_node.splits)

text \<open>A call that may change one node.\<close>

lemma post_create_dir [fs_post]:
  assumes "\<And>e h'. unchanged h h' \<Longrightarrow> Q (Inl e) h'"
    and "\<And>h'. node_at h p = None \<Longrightarrow> leaves h ((node_at h)(p \<mapsto> Directory (ho_dir_mode os))) h' \<Longrightarrow> Q (Inr ()) h'"
  shows "post (create_dir os p) Q h"
  unfolding create_dir_def
  by (rule post_fs_run) (auto intro: assms leaves_updates simp: node_at_def [symmetric] split: option.splits)

lemma post_open_create_new [fs_post]:
  assumes "\<And>e h'. unchanged h h' \<Longrightarrow> Q (Inl e) h'"
    and "\<And>h'. node_at h p = None \<Longrightarrow> leaves h ((node_at h)(p \<mapsto> Regular (ho_file_mode os) [])) h' \<Longrightarrow> Q (Inr ()) h'"
  shows "post (open_create_new os p) Q h"
  unfolding open_create_new_def
  by (rule post_fs_run) (auto intro: assms leaves_updates simp: node_at_def [symmetric] split: option.splits)

lemma post_set_permissions [fs_post]:
  assumes "\<And>e h'. unchanged h h' \<Longrightarrow> Q (Inl e) h'"
    and "\<And>n h'. node_at h p = Some n \<Longrightarrow> leaves h ((node_at h)(p \<mapsto> set_mode mode n)) h' \<Longrightarrow> Q (Inr ()) h'"
  shows "post (set_permissions os p mode) Q h"
  unfolding set_permissions_def
  by (rule post_fs_run) (auto intro: assms leaves_updates simp: node_at_def [symmetric] split: option.splits)

lemma leaves_append:
  "leaves h ((node_at h)(p := map_option (append_contents s) (node_at h p)))
     \<lparr>h_nodes = append_node p s (h_nodes h), h_rest = w\<rparr>"
  using leaves_updates(2) [of h w] leaves_updates(3) [of h p _ w]
  by (cases "node_at h p") (auto simp: append_node_def node_at_def [symmetric] fun_upd_idem)

lemma post_write_contents [fs_post]:
  assumes "\<And>e k h'. leaves h ((node_at h)(p := map_option (append_contents (take k s)) (node_at h p))) h' \<Longrightarrow> Q (Inl e) h'"
    and "\<And>h'. leaves h ((node_at h)(p := map_option (append_contents s) (node_at h p))) h' \<Longrightarrow> Q (Inr ()) h'"
  shows "post (write_contents os p s) Q h"
proof (cases "ho_fault os (FsWrite p) (h_rest h)")
  case (Pair e w)
  then show ?thesis
    using assms(1) [OF leaves_append] assms(2) [OF leaves_append] by (cases e) (simp_all add: post_def write_contents_def)
qed

lemma post_rename_path [fs_post]:
  assumes "\<And>e h'. unchanged h h' \<Longrightarrow> Q (Inl e) h'"
    and "\<And>n h'. node_at h p = Some n \<Longrightarrow> leaves h ((node_at h)(p := None, q \<mapsto> n)) h' \<Longrightarrow> Q (Inr ()) h'"
  shows "post (rename_path os p q) Q h"
  unfolding rename_path_def
  by (rule post_fs_run) (auto intro: assms leaves_updates simp: node_at_def [symmetric] split: option.splits if_splits)

lemma post_unlink_file [fs_post]:
  assumes "\<And>e h'. unchanged h h' \<Longrightarrow> Q (Inl e) h'"
    and "\<And>n h'. node_at h p = Some n \<Longrightarrow> \<not> is_dir n \<Longrightarrow> leaves h ((node_at h)(p := None)) h' \<Longrightarrow> Q (Inr ()) h'"
  shows "post (unlink_file os p) Q h"
  unfolding unlink_file_def
  by (rule post_fs_run)
    (auto intro: assms leaves_updates simp: node_at_def [symmetric] split: option.splits fs_node.splits)

lemma post_remove_dir [fs_post]:
  assumes "\<And>e h'. unchanged h h' \<Longrightarrow> Q (Inl e) h'"
    and "\<And>n h'. node_at h p = Some n \<Longrightarrow> is_dir n \<Longrightarrow> dir_entries (h_nodes h) p = [] \<Longrightarrow>
      leaves h ((node_at h)(p := None)) h' \<Longrightarrow> Q (Inr ()) h'"
  shows "post (remove_dir os p) Q h"
  unfolding remove_dir_def
  by (rule post_fs_run)
    (auto intro: assms leaves_updates simp: node_at_def [symmetric] split: option.splits fs_node.splits)

lemma returns_fs_run [returns_intro]: "returns (fs_run os call f)"
  unfolding returns_def fs_run_def by (auto split: prod.splits option.splits)

lemma returns_questions [returns_intro]: "returns (os_ask g)" "returns (os_try f)"
  unfolding returns_def os_ask_def os_try_def by (auto split: prod.splits)

lemma returns_fs [returns_intro]:
  "returns (symlink_metadata os p)" "returns (path_exists os p)" "returns (read_file os p)" "returns (read_to_string os p)"
  "returns (read_dir os p)" "returns (read_entry os p)" "returns (create_dir os p)" "returns (create_dir_all os p)"
  "returns (open_create_new os p)" "returns (set_permissions os p mode)" "returns (sync_file os p)"
  "returns (rename_path os p q)" "returns (unlink_file os p)" "returns (remove_dir os p)"
  unfolding symlink_metadata_def path_exists_def read_file_def read_to_string_def read_dir_def read_entry_def
    create_dir_def create_dir_all_def open_create_new_def set_permissions_def sync_file_def rename_path_def
    unlink_file_def remove_dir_def
  by (intro returns_intro)+

lemma returns_questions_of_paths [returns_intro]:
  "returns (canonicalize os p)" "returns (open_read os p)" "returns (metadata_uid os p)" "returns (path_test os test behind p)"
  "returns (path_is_file os p)" "returns (path_is_dir os p)"
  unfolding canonicalize_def open_read_def metadata_uid_def path_is_file_def path_is_dir_def path_test_def by (intro returns_intro)+

lemma returns_partial [returns_intro]: "returns (write_contents os p s)" "returns (remove_dir_all os p)"
  "returns (run_command os program arguments)"
  unfolding returns_def write_contents_def remove_dir_all_def run_command_def by (auto split: prod.splits option.splits)


section \<open>Computations that only look\<close>

interpretation looking: step_order unchanged
  by unfold_locales (auto simp: leaves_def)

lemma looks:
  "keeps unchanged (symlink_metadata os p)" "keeps unchanged (read_file os p)" "keeps unchanged (read_to_string os p)"
  "keeps unchanged (read_dir os p)" "keeps unchanged (read_entry os p)" "keeps unchanged (path_exists os p)"
  "keeps unchanged (path_is_file os p)" "keeps unchanged (path_is_dir os p)" "keeps unchanged (canonicalize os p)"
  "keeps unchanged (metadata_uid os p)" "keeps unchanged (open_read os p)" "keeps unchanged (os_ask f)"
  unfolding path_is_file_def path_is_dir_def by (auto intro!: keepsI fs_post)

end
