(* ===== verification/Path_Names.thy ===== *)
theory Path_Names
  imports Host_Fs
begin

text \<open>
  The last name of a path: \<open>file_name\<close> and \<open>with_file_name\<close> of \<open>std::path\<close>.  A temporary file beside its
  destination has another last name, and so is another file.
\<close>

section \<open>Definitions\<close>

text \<open>\<open>Path::file_name\<close>.\<close>

definition path_file_name :: "string \<Rightarrow> string option" where
  "path_file_name p =
     (let components = path_components p
      in if components = [] \<or> last components \<in> {''/'', ''.'', ''..''} then None else Some (last components))"

text \<open>\<open>Path::with_file_name\<close>.\<close>

definition with_file_name :: "string \<Rightarrow> string \<Rightarrow> string" where
  "with_file_name p name =
     (case path_file_name p of
        None \<Rightarrow> path_join p name
      | Some _ \<Rightarrow> path_join (case path_parent p of Some parent \<Rightarrow> parent | None \<Rightarrow> []) name)"


section \<open>Lemmas\<close>

text \<open>A name that is a path component of its own.\<close>

definition component :: "string \<Rightarrow> bool" where
  "component f \<longleftrightarrow> CHR ''/'' \<notin> set f \<and> f \<notin> {[], ''.'', ''..''}"

lemma split_char_no_separator: "part \<in> set (split_char cs s) \<Longrightarrow> c \<in> set cs \<Longrightarrow> c \<notin> set part"
  by (induction cs s arbitrary: part rule: split_char.induct) (auto split: list.splits if_splits)

lemma split_char_separated: "c \<in> set cs \<Longrightarrow> split_char cs (s @ c # t) = split_char cs s @ split_char cs t"
  by (induction s) (auto split: list.splits)

lemma last_path_components:
  assumes "component f" and "p = [] \<or> last p = CHR ''/''"
  shows "last (path_components (p @ f)) = f" "path_components (p @ f) \<noteq> []"
proof -
  let ?parts = "split_char ''/'' (p @ f)"
  have f: "split_char ''/'' f = [f]" using assms(1) by (intro split_char_none) (auto simp: component_def)
  have "last ?parts = f"
  proof (cases p rule: rev_cases)
    case (snoc q c)
    then have "?parts = split_char ''/'' q @ split_char ''/'' f" using assms(2) by (simp add: split_char_separated)
    with f show ?thesis by simp
  qed (simp add: f)
  then obtain ps where "?parts = ps @ [f]" by (metis append_butlast_last_id split_char_nonempty)
  then show "last (path_components (p @ f)) = f" "path_components (p @ f) \<noteq> []"
    using assms(1) by (simp_all add: path_components_def component_def)
qed

lemma file_name_join:
  assumes "component f"
  shows "path_file_name (path_join d f) = Some f"
proof -
  have "\<not> path_is_absolute f" using assms by (cases f) (auto simp: component_def path_is_absolute_def)
  then obtain p where "path_join d f = p @ f" "p = [] \<or> last p = CHR ''/''"
    by (cases "d = [] \<or> last d = CHR ''/''") (auto simp: path_join_def)
  moreover have "f \<noteq> ''/''" using assms by (auto simp: component_def)
  ultimately show ?thesis
    using last_path_components [OF assms, of p] assms by (simp add: path_file_name_def component_def Let_def)
qed

lemma file_name_with: "component f \<Longrightarrow> path_file_name (with_file_name p f) = Some f"
  by (simp add: with_file_name_def file_name_join split: option.splits)

lemma file_name_component: "path_file_name p = Some f \<Longrightarrow> CHR ''/'' \<notin> set f"
  using split_char_no_separator [of _ "''/''" p "CHR ''/''"]
  by (auto simp: path_file_name_def path_components_def Let_def split: if_splits dest: last_in_set)

lemma component_long: "CHR ''/'' \<notin> set f \<Longrightarrow> 2 < length f \<Longrightarrow> component f"
  by (auto simp: component_def)

lemma decimal_no_slash: "CHR ''/'' \<notin> set (decimal n)"
  using decimal_digits [of "CHR ''/''" n] by (auto simp: is_ascii_digit_def char_code_def)

lemma with_file_name_apart:
  assumes "path_file_name p = Some f" and "component g" and "g \<noteq> f"
  shows "with_file_name p g \<noteq> p"
  using file_name_with [OF assms(2), of p] assms(1,3) by auto

end
