(* ===== verification/File_Transfer.thy ===== *)
theory File_Transfer
  imports Agent_Connection Path_Names
begin

text \<open>
  Copying files between host and guest: \<open>receive_file\<close> and \<open>send_file\<close> of the agent
  (\<open>process_session.rs\<close>) and \<open>put_file\<close> and \<open>get_file\<close> of the host's client
  (\<open>agent/transfer.rs\<close>).  The file system is the contents of its files; the answers of the system
  (\<open>file_system\<close> below) and the sizes of the reads of a source file are parameters.  The code is the one
  that is compiled for systems other than Windows: an upload is published there by a hard link, and
  links are looked for on every ancestor of a path.
\<close>

section \<open>Files\<close>

type_synonym disk = "string \<Rightarrow> bytes option"

text \<open>
  What the code asks of the system: whether a path is a directory or a symbolic link and whether its
  metadata can be read (an error other than \<open>NotFound\<close>), the nanoseconds since the epoch, the process id,
  how many bytes can be written, and the results of creating, syncing, linking and removing, where the
  removal after a failure has a result of its own.
\<close>

record file_system =
  fs_is_dir :: "string \<Rightarrow> bool"
  fs_is_symlink :: "string \<Rightarrow> bool"
  fs_metadata_error :: "string \<Rightarrow> message option"
  fs_nanos :: "message + nat"
  fs_pid :: nat
  fs_capacity :: "nat option"
  fs_create :: "message option"
  fs_sync :: "message option"
  fs_link :: "message option"
  fs_remove :: "message option"
  fs_cleanup :: "message option"

definition fails :: "message option \<Rightarrow> message + unit" where
  "fails e = (case e of None \<Rightarrow> Inr () | Some m \<Rightarrow> Inl m)"

fun check_ancestors :: "file_system \<Rightarrow> string list \<Rightarrow> message + unit" where
  "check_ancestors fs [] = Inr ()"
| "check_ancestors fs (ancestor # rest) =
     (case fs_metadata_error fs ancestor of
        Some m \<Rightarrow> Inl m
      | None \<Rightarrow>
          if fs_is_symlink fs ancestor
          then Inl [Text ''transfer path crosses a symbolic link: '', Disp (path_display ancestor)]
          else check_ancestors fs rest)"

definition ensure_no_link_boundary :: "file_system \<Rightarrow> string \<Rightarrow> message + unit" where
  "ensure_no_link_boundary fs path = check_ancestors fs (ancestors path)"

text \<open>\<open>parent().filter(..).unwrap_or(".")\<close>.\<close>

definition parent_or_here :: "string \<Rightarrow> string" where
  "parent_or_here path = (case path_parent path of Some parent \<Rightarrow> if parent = [] then ''.'' else parent | None \<Rightarrow> ''.'')"

text \<open>The name of a destination that was sent is UTF-8, and \<open>to_string_lossy\<close> keeps it.\<close>

definition upload_temporary_path :: "file_system \<Rightarrow> string \<Rightarrow> message + string" where
  "upload_temporary_path fs destination =
     (case fs_nanos fs of
        Inl m \<Rightarrow> Inl m
      | Inr nonce \<Rightarrow>
          (case path_file_name destination of
             None \<Rightarrow> Inl [Text ''file destination has no file name'']
           | Some file_name \<Rightarrow> Inr (with_file_name destination
               (''.'' @ file_name @ ''.lsw-upload-'' @ decimal (fs_pid fs) @ ''-'' @ decimal nonce))))"

definition host_temporary_path :: "file_system \<Rightarrow> string \<Rightarrow> message + string" where
  "host_temporary_path fs destination =
     (case fs_nanos fs of
        Inl m \<Rightarrow> Inl m
      | Inr nonce \<Rightarrow>
          (case path_file_name destination of
             None \<Rightarrow> Inl [Text ''host destination has no file name'']
           | Some name \<Rightarrow> Inr (with_file_name destination
               (''.'' @ path_display name @ ''.lsw-download-'' @ decimal (fs_pid fs) @ ''-'' @ decimal nonce))))"

definition already_exists :: message where
  "already_exists = [Text ''File exists'']"

text \<open>\<open>OpenOptions::create_new\<close> and \<open>fs::hard_link\<close> refuse an existing name.\<close>

definition create_new :: "file_system \<Rightarrow> string \<Rightarrow> disk \<Rightarrow> (message + unit) \<times> disk" where
  "create_new fs path d =
     (case fs_create fs of
        Some m \<Rightarrow> (Inl m, d)
      | None \<Rightarrow> if d path \<noteq> None then (Inl already_exists, d) else (Inr (), d(path \<mapsto> [])))"

definition hard_link :: "file_system \<Rightarrow> string \<Rightarrow> string \<Rightarrow> disk \<Rightarrow> (message + unit) \<times> disk" where
  "hard_link fs original link d =
     (case fs_link fs of
        Some m \<Rightarrow> (Inl m, d)
      | None \<Rightarrow> if d link \<noteq> None then (Inl already_exists, d) else (Inr (), d(link := d original)))"

definition remove_file :: "message option \<Rightarrow> string \<Rightarrow> disk \<Rightarrow> (message + unit) \<times> disk" where
  "remove_file outcome path d =
     (case outcome of Some m \<Rightarrow> (Inl m, d) | None \<Rightarrow> (Inr (), d(path := None)))"


section \<open>The agent receives a file\<close>

record Upload =
  up_received :: u64
  up_file :: Writer

text \<open>
  The loop over the frames of an upload, up to the frame that completes or breaks it: it gives
  the number of bytes received, or the error, and the file written so far.
\<close>

definition upload_frame ::
  "u64 \<Rightarrow> Frame \<Rightarrow> Upload \<Rightarrow> Upload \<times> ((message + u64) \<times> Upload) option" where
  "upload_frame declared_length frame u =
     (case fr_kind frame of
        FileData \<Rightarrow>
          (case checked_add (up_received u) (of_nat (length (fr_payload frame))) of
             None \<Rightarrow> (u, Some (Inl [Text ''received file length overflowed''], u))
           | Some received \<Rightarrow>
               (let u = u\<lparr>up_received := received\<rparr>
                in if received > declared_length
                   then (u, Some (Inl [Text ''received more file data than declared''], u))
                   else case write_all (up_file u) (fr_payload frame) of
                          (w, Inl e) \<Rightarrow>
                            (u\<lparr>up_file := w\<rparr>, Some (Inl [Disp (write_error_display e)], u\<lparr>up_file := w\<rparr>))
                        | (w, Inr _) \<Rightarrow> (u\<lparr>up_file := w\<rparr>, None)))
      | FileDone \<Rightarrow>
          (u, Some (case decode_file_length (fr_payload frame) of
             Inl e \<Rightarrow> (Inl (protocol_error_display e), u)
           | Inr declared \<Rightarrow>
               if declared \<noteq> declared_length \<or> up_received u \<noteq> declared_length
               then (Inl [Text ''file length mismatch: expected '', Num (unat declared_length),
                          Text '', received '', Num (unat (up_received u))], u)
               else (Inr (up_received u), u)))
      | _ \<Rightarrow> (u, Some (Inl [Text ''unexpected frame during file upload''], u)))"

function upload_loop :: "u64 \<Rightarrow> bytes \<Rightarrow> Upload \<Rightarrow> (message + u64) \<times> Upload" where
  "upload_loop declared_length stream u =
     (case read_frame stream of
        Inl e \<Rightarrow> (Inl (protocol_error_display e), u)
      | Inr (frame, stream') \<Rightarrow>
          (case upload_frame declared_length frame u of
             (u', None) \<Rightarrow> upload_loop declared_length stream' u'
           | (u', Some r) \<Rightarrow> r))"
  by pat_completeness auto
termination
  by (relation "measure (\<lambda>(_, stream, _). length stream)") (auto dest: read_frame_shorter)

declare upload_loop.simps [simp del]

interpretation upload: frame_loop "upload_loop declared_length" "upload_frame declared_length"
  "\<lambda>e u. (Inl (protocol_error_display e), u)" for declared_length
  by unfold_locales (subst upload_loop.simps, simp)

text \<open>The closure of \<open>receive_file\<close>: stage the upload, publish it and confirm it.\<close>

definition stage_upload ::
  "file_system \<Rightarrow> u64 \<Rightarrow> string \<Rightarrow> string \<Rightarrow> Stream \<times> disk \<Rightarrow> (message + unit) \<times> Stream \<times> disk" where
  "stage_upload fs declared_length temporary destination = (\<lambda>(s, d).
     case create_new fs temporary d of
       (Inl m, d) \<Rightarrow> (Inl m, s, d)
     | (Inr _, d) \<Rightarrow>
     (case conn_send (frame_new Pong []) s of
       (Inl m, s) \<Rightarrow> (Inl m, s, d)
     | (Inr _, s) \<Rightarrow>
     (case upload_loop declared_length (st_in s) \<lparr>up_received = 0, up_file = \<lparr>w_out = [], w_budget = fs_capacity fs\<rparr>\<rparr> of
       (Inl m, u) \<Rightarrow> (Inl m, s, d(temporary \<mapsto> w_out (up_file u)))
     | (Inr received, u) \<Rightarrow>
         (let d = d(temporary \<mapsto> w_out (up_file u))
          in case fails (fs_sync fs) of
               Inl m \<Rightarrow> (Inl (Text ''could not flush the atomic upload staging file: '' # m), s, d)
             | Inr _ \<Rightarrow>
             (case hard_link fs temporary destination d of
               (Inl m, d) \<Rightarrow> (Inl m, s, d)
             | (Inr _, d) \<Rightarrow>
             (case remove_file (fs_remove fs) temporary d of
               (Inl m, d) \<Rightarrow> (Inl m, s, d)
             | (Inr _, d) \<Rightarrow>
             (case conn_send (frame_new FileDone (encode_file_length received)) s of
               (Inl m, s) \<Rightarrow> (Inl m, s, d)
             | (Inr _, s) \<Rightarrow> (Inr (), s, d))))))))"

definition receive_file ::
  "(message \<Rightarrow> string) \<Rightarrow> file_system \<Rightarrow> bytes \<Rightarrow> Stream \<times> disk \<Rightarrow> (message + unit) \<times> Stream \<times> disk" where
  "receive_file render fs payload = (\<lambda>(s, d).
     case file_put_decode payload of
       Inl e \<Rightarrow> (Inl (protocol_error_display e), s, d)
     | Inr request \<Rightarrow>
         (let destination = fp_destination request; parent = parent_or_here destination
          in case ensure_no_link_boundary fs parent of
               Inl m \<Rightarrow> (Inl m, s, d)
             | Inr _ \<Rightarrow>
             if \<not> fs_is_dir fs parent
             then (case conn_reject render [Text ''destination parent directory does not exist'']
                     [Text ''destination parent directory does not exist''] s of (r, s) \<Rightarrow> (r, s, d))
             else if fs_metadata_error fs destination \<noteq> None
             then (Inl (the (fs_metadata_error fs destination)), s, d)
             else if d destination \<noteq> None
             then (case conn_reject render [Text ''destination already exists; overwrite is disabled'']
                     [Text ''destination already exists; overwrite is disabled''] s of (r, s) \<Rightarrow> (r, s, d))
             else case upload_temporary_path fs destination of
                    Inl m \<Rightarrow> (Inl m, s, d)
                  | Inr temporary \<Rightarrow>
                      (case stage_upload fs (fp_length request) temporary destination (s, d) of
                         (Inr _, s, d) \<Rightarrow> (Inr (), s, d)
                       | (Inl m, s, d) \<Rightarrow>
                           (Inl m, snd (send_error render m s), snd (remove_file (fs_cleanup fs) temporary d)))))"


section \<open>Sending the contents of a file\<close>

text \<open>
  The read loop that \<open>put_file\<close> and \<open>send_file\<close> share: each read returns an error, or at least
  one and at most a buffer of the remaining bytes, until there are none.  \<open>reads k\<close> bounds the
  \<open>k\<close>-th read.
\<close>

definition STDIN_CHUNK_BYTES :: nat where "STDIN_CHUNK_BYTES = 32 * 1024"
definition STREAM_CHUNK_BYTES :: nat where "STREAM_CHUNK_BYTES = 32 * 1024"

type_synonym read_sizes = "nat \<Rightarrow> message + nat"

definition next_chunk :: "nat \<Rightarrow> nat \<Rightarrow> bytes \<Rightarrow> bytes" where
  "next_chunk buffer n content = take (min (max 1 n) buffer) content"

function send_chunks :: "nat \<Rightarrow> read_sizes \<Rightarrow> nat \<Rightarrow> bytes \<Rightarrow> u64 \<Rightarrow> u64 conn" where
  "send_chunks buffer reads k content sent = (\<lambda>s.
     case reads k of
       Inl m \<Rightarrow> (Inl m, s)
     | Inr n \<Rightarrow>
         if next_chunk buffer n content = [] then (Inr sent, s)
         else case conn_send (frame_new FileData (next_chunk buffer n content)) s of
                (Inl m, s) \<Rightarrow> (Inl m, s)
              | (Inr _, s) \<Rightarrow>
                  send_chunks buffer reads (k + 1) (drop (length (next_chunk buffer n content)) content)
                    (sent + of_nat (length (next_chunk buffer n content))) s)"
  by pat_completeness auto
termination
  by (relation "measure (\<lambda>(_, _, _, content, _). length content)") (auto simp: next_chunk_def)

declare send_chunks.simps [simp del]

text \<open>A source file: what its metadata say, the result of opening it, and how it is read.\<close>

record source_file =
  sf_regular :: bool
  sf_length :: u64
  sf_open :: "message + bytes"
  sf_reads :: read_sizes

definition send_file ::
  "(message \<Rightarrow> string) \<Rightarrow> file_system \<Rightarrow> (string \<Rightarrow> message + source_file) \<Rightarrow> bytes \<Rightarrow> unit conn" where
  "send_file render fs source payload =
     conn_bind (conn_lift (file_get_decode payload)) (\<lambda>request.
     case ensure_no_link_boundary fs (fg_source request) of
       Inl m \<Rightarrow> conn_fail m
     | Inr _ \<Rightarrow>
     (case source (fg_source request) of
       Inl m \<Rightarrow> conn_reject render (Text ''could not open source: '' # m) m
     | Inr file \<Rightarrow>
     if \<not> sf_regular file
     then conn_reject render [Text ''source is not a regular file''] [Text ''source is not a regular file'']
     else case sf_open file of
       Inl m \<Rightarrow> conn_fail m
     | Inr content \<Rightarrow>
          conn_bind (send_chunks STREAM_CHUNK_BYTES (sf_reads file) 0 content 0) (\<lambda>sent.
          if sent \<noteq> sf_length file
          then conn_reject render [Text ''source changed while it was being read'']
                 [Text ''source changed while it was being read'']
          else conn_send (frame_new FileDone (encode_file_length sent)))))"


section \<open>The host's client\<close>

record AgentClient =
  ac_stream :: Stream
  ac_capabilities :: "string list"

definition has_capability :: "AgentClient \<Rightarrow> string \<Rightarrow> bool" where
  "has_capability client capability \<longleftrightarrow> list_ex (\<lambda>available. available = capability) (ac_capabilities client)"

definition require_capability :: "AgentClient \<Rightarrow> string \<Rightarrow> message + unit" where
  "require_capability client capability =
     (if has_capability client capability then Inr ()
      else Inl [Text ''guest agent does not support '', Disp capability])"

definition agent_error :: "bytes \<Rightarrow> message" where
  "agent_error payload = [Text ''guest agent: '', Disp (from_utf8_lossy payload)]"

definition put_file ::
  "AgentClient \<Rightarrow> string \<Rightarrow> message + source_file \<Rightarrow> string \<Rightarrow> u64 conn" where
  "put_file client source_path source destination =
     (case require_capability client ''file-transfer-v1'' of
        Inl m \<Rightarrow> conn_fail m
      | Inr _ \<Rightarrow>
      (case source of
        Inl m \<Rightarrow> conn_fail m
      | Inr file \<Rightarrow>
      if \<not> sf_regular file then conn_fail [Disp source_path, Text '' is not a regular file'']
      else conn_bind (conn_lift (file_put_encode \<lparr>fp_destination = destination, fp_length = sf_length file\<rparr>)) (\<lambda>payload.
      conn_bind (conn_send (frame_new FilePut payload)) (\<lambda>_.
      conn_bind conn_recv (\<lambda>ready.
      if fr_kind ready = FK_Error then conn_fail (agent_error (fr_payload ready))
      else if fr_kind ready \<noteq> Pong \<or> fr_payload ready \<noteq> []
      then conn_fail [Text ''agent did not acknowledge file upload'']
      else case sf_open file of
        Inl m \<Rightarrow> conn_fail m
      | Inr content \<Rightarrow>
      conn_bind (send_chunks STDIN_CHUNK_BYTES (sf_reads file) 0 content 0) (\<lambda>sent.
      if sent \<noteq> sf_length file then conn_fail [Text ''host source changed while it was being read'']
      else conn_bind (conn_send (frame_new FileDone (encode_file_length sent))) (\<lambda>_.
      conn_bind conn_recv (\<lambda>response.
      if fr_kind response = FileDone
      then conn_bind (conn_lift (decode_file_length (fr_payload response))) (\<lambda>n.
           if n = sent then conn_return sent
           else conn_fail [Text ''agent returned an invalid upload completion frame''])
      else if fr_kind response = FK_Error then conn_fail (agent_error (fr_payload response))
      else conn_fail [Text ''agent returned an invalid upload completion frame'']))))))))"

record Download =
  dn_received :: u64
  dn_file :: Writer

definition download_frame ::
  "Frame \<Rightarrow> Download \<Rightarrow> Download \<times> ((message + u64) \<times> Download) option" where
  "download_frame frame u =
     (case fr_kind frame of
        FileData \<Rightarrow>
          (case write_all (dn_file u) (fr_payload frame) of
             (w, Inl e) \<Rightarrow> (u\<lparr>dn_file := w\<rparr>, Some (Inl [Disp (write_error_display e)], u\<lparr>dn_file := w\<rparr>))
           | (w, Inr _) \<Rightarrow>
               (let u = u\<lparr>dn_file := w\<rparr>
                in case checked_add (dn_received u) (of_nat (length (fr_payload frame))) of
                     None \<Rightarrow> (u, Some (Inl [Text ''download length overflowed''], u))
                   | Some received \<Rightarrow> (u\<lparr>dn_received := received\<rparr>, None)))
      | FileDone \<Rightarrow>
          (u, Some (case decode_file_length (fr_payload frame) of
             Inl e \<Rightarrow> (Inl (protocol_error_display e), u)
           | Inr n \<Rightarrow>
               if n \<noteq> dn_received u
               then (Inl [Text ''download length did not match completion frame''], u)
               else (Inr (dn_received u), u)))
      | FK_Error \<Rightarrow> (u, Some (Inl (agent_error (fr_payload frame)), u))
      | _ \<Rightarrow> (u, Some (Inl [Text ''unexpected frame during file download''], u)))"

function download_loop :: "bytes \<Rightarrow> Download \<Rightarrow> (message + u64) \<times> Download" where
  "download_loop stream u =
     (case read_frame stream of
        Inl e \<Rightarrow> (Inl (protocol_error_display e), u)
      | Inr (frame, stream') \<Rightarrow>
          (case download_frame frame u of
             (u', None) \<Rightarrow> download_loop stream' u'
           | (u', Some r) \<Rightarrow> r))"
  by pat_completeness auto
termination
  by (relation "measure (\<lambda>(stream, _). length stream)") (auto dest: read_frame_shorter)

declare download_loop.simps [simp del]

interpretation download: frame_loop download_loop download_frame
  "\<lambda>e u. (Inl (protocol_error_display e), u)"
  by unfold_locales (subst download_loop.simps, simp)

definition stage_download ::
  "file_system \<Rightarrow> string \<Rightarrow> string \<Rightarrow> string \<Rightarrow> Stream \<times> disk
     \<Rightarrow> (message + u64) \<times> Stream \<times> disk" where
  "stage_download fs source temporary destination = (\<lambda>(s, d).
     case create_new fs temporary d of
       (Inl m, d) \<Rightarrow> (Inl m, s, d)
     | (Inr _, d) \<Rightarrow>
     (case conn_bind (conn_lift (file_get_encode \<lparr>fg_source = source\<rparr>)) (\<lambda>payload.
             conn_send (frame_new FileGet payload)) s of
       (Inl m, s) \<Rightarrow> (Inl m, s, d)
     | (Inr _, s) \<Rightarrow>
     (case download_loop (st_in s) \<lparr>dn_received = 0, dn_file = \<lparr>w_out = [], w_budget = fs_capacity fs\<rparr>\<rparr> of
       (Inl m, u) \<Rightarrow> (Inl m, s, d(temporary \<mapsto> w_out (dn_file u)))
     | (Inr received, u) \<Rightarrow>
         (let d = d(temporary \<mapsto> w_out (dn_file u))
          in case fails (fs_sync fs) of
               Inl m \<Rightarrow> (Inl m, s, d)
             | Inr _ \<Rightarrow>
             (case hard_link fs temporary destination d of
               (Inl m, d) \<Rightarrow> (Inl m, s, d)
             | (Inr _, d) \<Rightarrow>
             (case remove_file (fs_remove fs) temporary d of
               (Inl m, d) \<Rightarrow> (Inl m, s, d)
             | (Inr _, d) \<Rightarrow> (Inr received, s, d)))))))"

definition get_file ::
  "file_system \<Rightarrow> AgentClient \<Rightarrow> string \<Rightarrow> string \<Rightarrow> disk
     \<Rightarrow> (message + u64) \<times> Stream \<times> disk" where
  "get_file fs client source destination d =
     (let s = ac_stream client
      in case require_capability client ''file-transfer-v1'' of
           Inl m \<Rightarrow> (Inl m, s, d)
         | Inr _ \<Rightarrow>
         if fs_metadata_error fs destination = None \<and> d destination \<noteq> None
         then (Inl [Text ''refusing to overwrite existing '', Disp destination], s, d)
         else if \<not> fs_is_dir fs (parent_or_here destination)
         then (Inl [Text ''host destination parent directory does not exist''], s, d)
         else case host_temporary_path fs destination of
                Inl m \<Rightarrow> (Inl m, s, d)
              | Inr temporary \<Rightarrow>
                  (case stage_download fs source temporary destination (s, d) of
                     (Inr received, s, d) \<Rightarrow> (Inr received, s, d)
                   | (Inl m, s, d) \<Rightarrow> (Inl m, s, snd (remove_file (fs_cleanup fs) temporary d))))"


section \<open>Lemmas\<close>

text \<open>The file written so far has as many bytes as were counted.\<close>

definition upload_counted :: "Upload \<Rightarrow> bool" where
  "upload_counted u \<longleftrightarrow> unat (up_received u) = length (w_out (up_file u))"

lemma checked_add_length:
  "checked_add (a :: u64) (of_nat n) = Some c \<Longrightarrow> n \<le> MAX_FRAME_BYTES \<Longrightarrow> unat c = unat a + n"
  by (drule checked_add_Some) (simp add: unat_word_of_nat_less MAX_FRAME_BYTES_def)

lemma write_all_Inr: "write_all w bs = (w', Inr u) \<Longrightarrow> w_out w' = w_out w @ bs"
  by (auto simp: write_all_def split: option.splits if_splits)

lemma upload_frame_counted:
  assumes "upload_counted u" and "length (fr_payload f) \<le> MAX_FRAME_BYTES"
    and "upload_frame n f u = (u', None)"
  shows "upload_counted u'"
proof -
  from assms(3) have "fr_kind f = FileData"
    by (simp add: upload_frame_def split: FrameKind.splits)
  with assms(3) obtain received w where
    "checked_add (up_received u) (of_nat (length (fr_payload f))) = Some received"
    "write_all (up_file u) (fr_payload f) = (w, Inr ())" "u' = u\<lparr>up_received := received, up_file := w\<rparr>"
    by (auto simp: upload_frame_def Let_def split: option.splits if_splits prod.splits sum.splits)
  with assms(1,2) checked_add_length write_all_Inr show ?thesis
    by (fastforce simp: upload_counted_def)
qed

lemma upload_frame_done:
  assumes "upload_counted u" and "upload_frame n f u = (u', Some (Inr received, v))"
  shows "received = n \<and> length (w_out (up_file v)) = unat n"
proof -
  from assms(2) have "fr_kind f = FileDone"
    by (auto simp: upload_frame_def Let_def split: FrameKind.splits option.splits if_splits prod.splits sum.splits)
  with assms show ?thesis
    by (auto simp: upload_frame_def upload_counted_def split: sum.splits if_splits)
qed

lemma upload_loop_done:
  assumes "upload_loop n stream u = (Inr received, v)" and "upload_counted u"
  shows "received = n \<and> length (w_out (up_file v)) = unat n"
proof -
  have "\<forall>x. fst (upload_loop n stream u) = Inr x \<longrightarrow> x = n \<and> length (w_out (up_file (snd (upload_loop n stream u)))) = unat n"
    by (rule upload.loop_invariant [where I = upload_counted])
      (use assms(2) in \<open>auto dest: upload_frame_counted upload_frame_done\<close>)
  with assms(1) show ?thesis by simp
qed

text \<open>What a staged upload leaves on the disk.\<close>

definition upload_effect :: "u64 \<Rightarrow> string \<Rightarrow> string \<Rightarrow> disk \<Rightarrow> disk \<Rightarrow> bool" where
  "upload_effect n temporary destination d d' \<longleftrightarrow>
     (\<forall>p. p \<noteq> temporary \<longrightarrow> p \<noteq> destination \<longrightarrow> d' p = d p)
     \<and> (d' destination = d destination
        \<or> d destination = None \<and> (\<exists>content. d' destination = Some content \<and> length content = unat n))"

lemma upload_effect_temporary:
  "temporary \<noteq> destination \<Longrightarrow> upload_effect n temporary destination d (d(temporary := c))"
  by (simp add: upload_effect_def)

lemma upload_effect_remove:
  "temporary \<noteq> destination \<Longrightarrow> upload_effect n temporary destination d d' \<Longrightarrow>
   upload_effect n temporary destination d (snd (remove_file outcome temporary d'))"
  by (auto simp: upload_effect_def remove_file_def split: option.splits)

lemma stage_upload_effect:
  assumes "temporary \<noteq> destination"
    and "stage_upload fs n temporary destination (s, d) = (r, s', d')"
  shows "upload_effect n temporary destination d d'
    \<and> (r = Inr () \<longrightarrow> d' temporary = None \<and> (\<exists>content. d' destination = Some content \<and> length content = unat n))"
proof -
  let ?w = "\<lparr>up_received = 0, up_file = \<lparr>w_out = [], w_budget = fs_capacity fs\<rparr>\<rparr>"
  have counted: "upload_counted ?w" by (simp add: upload_counted_def)
  obtain r1 d1 where c: "create_new fs temporary d = (r1, d1)" by (cases "create_new fs temporary d")
  then have d1: "d1 = d \<or> (d1 = d(temporary \<mapsto> []))"
    by (auto simp: create_new_def split: option.splits if_splits)
  obtain r2 s2 where p: "conn_send (frame_new Pong []) s = (r2, s2)" by (cases "conn_send (frame_new Pong []) s")
  obtain r3 u where l: "upload_loop n (st_in s2) ?w = (r3, u)" by (cases "upload_loop n (st_in s2) ?w")
  have complete: "length (w_out (up_file u)) = unat n" if "r3 = Inr x" for x
    using upload_loop_done [OF l [unfolded that] counted] by simp
  show ?thesis
    using assms c d1 p l complete upload_effect_temporary [OF assms(1)]
    by (auto simp: stage_upload_def hard_link_def remove_file_def fails_def Let_def upload_effect_def
        split: sum.splits option.splits if_splits prod.splits)
qed

text \<open>Sending with a writer that does not fail, and reads that do not fail.\<close>

lemma conn_send_unlimited:
  "w_budget (st_out s) = None \<Longrightarrow> length (fr_payload f) \<le> MAX_FRAME_BYTES \<Longrightarrow>
   conn_send f s = (Inr (), s\<lparr>st_out := (st_out s)\<lparr>w_out := w_out (st_out s) @ frame_bytes f\<rparr>\<rparr>)"
  by (simp add: conn_send_def write_frame_unlimited)

lemma conn_bind_send_unlimited:
  "w_budget (st_out s) = None \<Longrightarrow> length (fr_payload f) \<le> MAX_FRAME_BYTES \<Longrightarrow>
   conn_bind (conn_send f) g s = g () (s\<lparr>st_out := (st_out s)\<lparr>w_out := w_out (st_out s) @ frame_bytes f\<rparr>\<rparr>)"
  by (simp add: conn_bind_def conn_send_unlimited)

lemma conn_recv_last:
  "length (fr_payload f) \<le> MAX_FRAME_BYTES \<Longrightarrow>
   conn_recv \<lparr>st_in = frame_bytes f, st_out = w\<rparr> = (Inr f, \<lparr>st_in = [], st_out = w\<rparr>)"
  using conn_recv_frame [of f "[]"] by simp

lemma send_chunks_unlimited:
  assumes "0 < buffer" and "buffer \<le> MAX_FRAME_BYTES" and "\<And>k. \<exists>n. reads k = Inr n"
  shows "w_budget (st_out s) = None \<Longrightarrow> \<exists>chunks. concat chunks = content
    \<and> list_all (\<lambda>c. length c \<le> MAX_FRAME_BYTES) chunks
    \<and> send_chunks buffer reads k content sent s
      = (Inr (sent + of_nat (length content)),
         s\<lparr>st_out := (st_out s)\<lparr>w_out := w_out (st_out s) @ stream_of (map (frame_new FileData) chunks)\<rparr>\<rparr>)"
proof (induction "length content" arbitrary: content k sent s rule: less_induct)
  case less
  obtain n where n: "reads k = Inr n" using assms(3) by blast
  let ?c = "next_chunk buffer n content"
  show ?case
  proof (cases "content = []")
    case True
    then show ?thesis by (intro exI [of _ "[]"]) (simp add: send_chunks.simps n next_chunk_def)
  next
    case False
    let ?s = "s\<lparr>st_out := (st_out s)\<lparr>w_out := w_out (st_out s) @ frame_bytes (frame_new FileData ?c)\<rparr>\<rparr>"
    have c: "?c \<noteq> []" "length ?c \<le> MAX_FRAME_BYTES" "?c @ drop (length ?c) content = content"
      using False assms(1,2) by (auto simp: next_chunk_def min_def)
    then have shorter: "length (drop (length ?c) content) < length content"
      using False by (cases ?c) auto
    obtain cs where cs: "concat cs = drop (length ?c) content" "list_all (\<lambda>c. length c \<le> MAX_FRAME_BYTES) cs"
      "send_chunks buffer reads (k + 1) (drop (length ?c) content) (sent + of_nat (length ?c)) ?s
       = (Inr (sent + of_nat (length ?c) + of_nat (length (drop (length ?c) content))),
          ?s\<lparr>st_out := (st_out ?s)\<lparr>w_out := w_out (st_out ?s) @ stream_of (map (frame_new FileData) cs)\<rparr>\<rparr>)"
      using less.hyps [OF shorter, of ?s "k + 1" "sent + of_nat (length ?c)"] less.prems by auto
    have "length content = length ?c + length (drop (length ?c) content)"
      using arg_cong [OF c(3), of length] by simp
    then have total: "sent + of_nat (length ?c) + of_nat (length (drop (length ?c) content))
        = sent + of_nat (length content)" by (metis add.assoc of_nat_add)
    have "send_chunks buffer reads k content sent s
      = send_chunks buffer reads (k + 1) (drop (length ?c) content) (sent + of_nat (length ?c)) ?s"
      using n c less.prems by (subst send_chunks.simps) (simp add: conn_send_unlimited)
    with cs c total show ?thesis
      by (intro exI [of _ "?c # cs"]) simp
  qed
qed

lemma run_steps_upload:
  assumes "unat (up_received u) + length (concat chunks) \<le> unat n" and "w_budget (up_file u) = None"
  shows "run_steps (upload_frame n) (map (frame_new FileData) chunks) u
    = Some (u\<lparr>up_received := up_received u + of_nat (length (concat chunks)),
              up_file := (up_file u)\<lparr>w_out := w_out (up_file u) @ concat chunks\<rparr>\<rparr>)"
  using assms
proof (induction chunks arbitrary: u)
  case (Cons c cs)
  have lt: "unat (up_received u) + length c < 2 ^ 64" "length c < 2 ^ 64"
    using Cons.prems(1) unsigned_less [of n, where 'a = nat] by simp_all
  let ?v = "u\<lparr>up_received := up_received u + of_nat (length c),
    up_file := (up_file u)\<lparr>w_out := w_out (up_file u) @ c\<rparr>\<rparr>"
  have received: "unat (up_received u + of_nat (length c)) = unat (up_received u) + length c"
    using lt by (simp add: unat_word_ariths unat_word_of_nat_less)
  have "upload_frame n (frame_new FileData c) u = (?v, None)"
    using lt Cons.prems received
    by (simp add: upload_frame_def checked_add_def unat_word_of_nat_less Let_def word_less_nat_alt not_less
        write_all_unlimited)
  with Cons.IH [of ?v] Cons.prems received show ?case by (simp add: add.assoc)
qed simp

lemma upload_loop_complete:
  assumes "list_all (\<lambda>c. length c \<le> MAX_FRAME_BYTES) chunks" and "length (concat chunks) < 2 ^ 64"
  shows "upload_loop (of_nat (length (concat chunks)))
      (stream_of (map (frame_new FileData) chunks
         @ [frame_new FileDone (encode_file_length (of_nat (length (concat chunks))))]) @ rest)
      \<lparr>up_received = 0, up_file = \<lparr>w_out = [], w_budget = None\<rparr>\<rparr>
    = (Inr (of_nat (length (concat chunks))),
       \<lparr>up_received = of_nat (length (concat chunks)), up_file = \<lparr>w_out = concat chunks, w_budget = None\<rparr>\<rparr>)"
proof -
  let ?n = "of_nat (length (concat chunks)) :: u64"
  let ?u = "\<lparr>up_received = 0, up_file = \<lparr>w_out = [], w_budget = None\<rparr>\<rparr> :: Upload"
  let ?v = "\<lparr>up_received = ?n, up_file = \<lparr>w_out = concat chunks, w_budget = None\<rparr>\<rparr> :: Upload"
  let ?done = "frame_new FileDone (encode_file_length ?n)"
  have "run_steps (upload_frame ?n) (map (frame_new FileData) chunks) ?u = Some ?v"
    using assms(2) by (subst run_steps_upload) (simp_all add: unat_word_of_nat_less)
  moreover have "sendable (map (frame_new FileData) chunks)"
    using assms(1) by (simp add: sendable_def list_all_iff)
  ultimately have "upload_loop ?n (stream_of (map (frame_new FileData) chunks) @ frame_bytes ?done @ rest) ?u
      = upload_loop ?n (frame_bytes ?done @ rest) ?v"
    by (intro upload.loop_frames)
  moreover have "length (fr_payload ?done) \<le> MAX_FRAME_BYTES"
    by (simp add: encode_file_length_def MAX_FRAME_BYTES_def)
  moreover have "upload_frame ?n ?done ?v = (?v, Some (Inr ?n, ?v))"
    using file_length_iff [of "encode_file_length ?n" ?n] by (simp add: upload_frame_def)
  ultimately show ?thesis by (simp add: upload.loop_unfold [of _ "frame_bytes _ @ rest"])
qed

text \<open>A guest on which nothing stands in the way of an upload.\<close>

definition upload_possible :: "file_system \<Rightarrow> string \<Rightarrow> string \<Rightarrow> disk \<Rightarrow> bool" where
  "upload_possible fs destination temporary d \<longleftrightarrow>
     ensure_no_link_boundary fs (parent_or_here destination) = Inr () \<and> fs_is_dir fs (parent_or_here destination)
     \<and> fs_metadata_error fs destination = None \<and> upload_temporary_path fs destination = Inr temporary
     \<and> d destination = None \<and> d temporary = None
     \<and> fs_capacity fs = None \<and> fs_create fs = None \<and> fs_sync fs = None \<and> fs_link fs = None
     \<and> fs_remove fs = None"

lemma upload_temporary_apart:
  assumes "upload_temporary_path fs destination = Inr temporary"
  shows "temporary \<noteq> destination"
proof -
  from assms obtain f g where f: "path_file_name destination = Some f" "temporary = with_file_name destination g"
    "g = ''.'' @ f @ ''.lsw-upload-'' @ decimal (fs_pid fs) @ ''-'' @ decimal (projr (fs_nanos fs))"
    by (auto simp: upload_temporary_path_def split: sum.splits option.splits)
  with f(1,3) decimal_no_slash have "component g" by (intro component_long) (auto dest: file_name_component)
  moreover have "g \<noteq> f" using f(3) by (auto dest: arg_cong [where f = length])
  ultimately show ?thesis using with_file_name_apart [OF f(1)] f(2) by simp
qed

lemma check_ancestors_clear:
  "(\<And>p. fs_metadata_error fs p = None \<and> \<not> fs_is_symlink fs p) \<Longrightarrow> check_ancestors fs ps = Inr ()"
  by (induction ps) simp_all

lemma receive_file_complete:
  assumes "upload_possible fs destination temporary d"
    and "file_put_decode payload = Inr \<lparr>fp_destination = destination, fp_length = of_nat (length (concat chunks))\<rparr>"
    and "list_all (\<lambda>c. length c \<le> MAX_FRAME_BYTES) chunks" and "length (concat chunks) < 2 ^ 64"
    and "w_budget w = None"
  shows "\<exists>s'. receive_file render fs payload
      (\<lparr>st_in = stream_of (map (frame_new FileData) chunks
          @ [frame_new FileDone (encode_file_length (of_nat (length (concat chunks))))]) @ rest, st_out = w\<rparr>, d)
    = (Inr (), s', d(destination \<mapsto> concat chunks))
    \<and> w_out (st_out s') = w_out w
        @ stream_of [frame_new Pong [], frame_new FileDone (encode_file_length (of_nat (length (concat chunks))))]"
proof -
  note possible = assms(1) [unfolded upload_possible_def]
  have "temporary \<noteq> destination" using possible upload_temporary_apart by blast
  then have unlink: "(d(temporary \<mapsto> c, destination \<mapsto> c'))(temporary := None) = d(destination \<mapsto> c')" for c c'
    using possible by (auto simp: fun_eq_iff)
  have "destination \<noteq> temporary" using possible upload_temporary_apart by blast
  then show ?thesis
    using possible assms(2,5) upload_loop_complete [OF assms(3,4), of rest]
    by (simp add: receive_file_def stage_upload_def fails_def create_new_def
        conn_send_unlimited hard_link_def remove_file_def unlink MAX_FRAME_BYTES_def encode_file_length_def
        del: stream_of_simps)
      (simp add: stream_of_def)
qed


text \<open>A system without links whose calls succeed, up to the bytes that can be written.\<close>

definition plain_files :: "nat option \<Rightarrow> file_system" where
  "plain_files capacity = \<lparr>fs_is_dir = (\<lambda>_. True), fs_is_symlink = (\<lambda>_. False), fs_metadata_error = (\<lambda>_. None),
     fs_nanos = Inr 7, fs_pid = 9, fs_capacity = capacity, fs_create = None, fs_sync = None, fs_link = None,
     fs_remove = None, fs_cleanup = None\<rparr>"

lemma plain_files_clear: "ensure_no_link_boundary (plain_files c) p = Inr ()"
  by (simp add: ensure_no_link_boundary_def check_ancestors_clear plain_files_def)

lemma plain_files_temporary: "upload_temporary_path (plain_files c) ''f'' = Inr ''.f.lsw-upload-9-7''"
proof -
  have "path_file_name ''f'' = Some ''f''" "with_file_name ''f'' ''.f.lsw-upload-9-7'' = ''.f.lsw-upload-9-7''"
    "decimal 7 = ''7''" "decimal 9 = ''9''" by code_simp+
  then show ?thesis by (simp add: upload_temporary_path_def plain_files_def)
qed


section \<open>Properties\<close>

text \<open>
  C11: an upload is published atomically: whatever the client sends and whichever system call
  fails, the agent touches no file but the destination and its own temporary file, never
  changes an existing destination, and a destination that appears holds exactly as many bytes
  as the request declared.  When the upload is confirmed, the destination is there and the
  temporary file is gone.
\<close>

theorem upload_atomic:
  assumes "file_put_decode payload = Inr request"
    and "upload_temporary_path fs (fp_destination request) = Inr temporary"
    and "receive_file render fs payload (s, d) = (r, s', d')"
  shows "upload_effect (fp_length request) temporary (fp_destination request) d d'
    \<and> (r = Inr () \<longrightarrow> d (fp_destination request) = None \<and> d' temporary = None
        \<and> (\<exists>content. d' (fp_destination request) = Some content \<and> length content = unat (fp_length request)))"
proof -
  let ?dest = "fp_destination request" and ?n = "fp_length request"
  obtain r1 s1 d1 where st: "stage_upload fs ?n temporary ?dest (s, d) = (r1, s1, d1)"
    by (cases "stage_upload fs ?n temporary ?dest (s, d)") auto
  have apart: "temporary \<noteq> ?dest" using assms(2) by (rule upload_temporary_apart)
  have same: "upload_effect ?n temporary ?dest d d" by (simp add: upload_effect_def)
  have rejected: "conn_reject render m e s \<noteq> (Inr (), v)" for m e v
    using conn_reject_outcome [of render m e s] by (metis Inl_Inr_False fst_conv)
  from stage_upload_effect [OF apart st] upload_effect_remove [OF apart, of ?n d d1 "fs_cleanup fs"] assms st same rejected
  show ?thesis
    by (auto simp: receive_file_def Let_def split: sum.splits if_splits prod.splits)
qed

theorem upload_atomic_witness:
  "upload_effect 3 ''.f.lsw-upload-9-7'' ''f'' (\<lambda>_. None)
     (snd (snd (receive_file (\<lambda>_. []) (plain_files (Some 2))
        [0, 0, 0, 0, 0, 0, 0, 3, 0, 0, 0, 1, 102]
        (\<lparr>st_in = stream_of [frame_new FileData [1, 2, 3]], st_out = \<lparr>w_out = [], w_budget = None\<rparr>\<rparr>, \<lambda>_. None))))"
proof -
  let ?fs = "plain_files (Some 2)"
  let ?p = "[0, 0, 0, 0, 0, 0, 0, 3, 0, 0, 0, 1, 102] :: bytes"
  let ?s = "\<lparr>st_in = stream_of [frame_new FileData [1, 2, 3]], st_out = \<lparr>w_out = [], w_budget = None\<rparr>\<rparr>"
  obtain r s' d' where run: "receive_file (\<lambda>_. []) ?fs ?p (?s, \<lambda>_. None) = (r, s', d')"
    by (cases "receive_file (\<lambda>_. []) ?fs ?p (?s, \<lambda>_. None)") auto
  have dec: "file_put_decode ?p = Inr \<lparr>fp_destination = ''f'', fp_length = 3\<rparr>" by code_simp
  from upload_atomic [OF dec _ run, where temporary = "''.f.lsw-upload-9-7''"] plain_files_temporary have "upload_effect 3 ''.f.lsw-upload-9-7'' ''f'' (\<lambda>_. None) d'" by simp
  then show ?thesis by (simp only: run snd_conv)
qed

text \<open>
  C12: a file copied to the guest arrives: when the host's \<open>put_file\<close> reads a file of the size
  its metadata announce, however the reads cut it up, the agent that is handed the frames it
  sends stores exactly that content at the destination, leaves no other trace on the disk,
  and answers with the very frames on which \<open>put_file\<close> reports success.
\<close>

theorem put_file_arrives:
  assumes "has_capability client ''file-transfer-v1''"
    and "sf_regular original" and "sf_open original = Inr content"
    and "sf_length original = of_nat (length content)" and "length content < 2 ^ 64"
    and "\<And>k. \<exists>n. sf_reads original k = Inr n"
    and "utf8_valid destination" and "destination \<noteq> []" and "length destination \<le> MAX_STRING_BYTES"
    and "upload_possible fs destination temporary d"
    and "w_budget w = None" and "w_budget v = None"
  shows "\<exists>payload uploaded replies.
    put_file client path (Inr original) destination \<lparr>st_in = replies, st_out = w\<rparr>
      = (Inr (sf_length original), \<lparr>st_in = [],
          st_out = w\<lparr>w_out := w_out w @ frame_bytes (frame_new FilePut payload) @ uploaded\<rparr>\<rparr>)
    \<and> (\<exists>s'. receive_file render fs payload (\<lparr>st_in = uploaded, st_out = v\<rparr>, d)
          = (Inr (), s', d(destination \<mapsto> content)) \<and> w_out (st_out s') = w_out v @ replies)"
proof -
  let ?req = "\<lparr>fp_destination = destination, fp_length = sf_length original\<rparr>"
  let ?done = "frame_new FileDone (encode_file_length (sf_length original))"
  let ?replies = "stream_of [frame_new Pong [], ?done]"
  obtain payload where payload: "file_put_encode ?req = Inr payload"
    using assms(9) by (auto simp: file_put_encode_def ok_iff)
  then have dec: "file_put_decode payload = Inr ?req"
    using assms(7,8) by (simp add: file_put_iff file_put_wf_def)
  have short: "length payload \<le> MAX_FRAME_BYTES" "length (encode_file_length (sf_length original)) \<le> MAX_FRAME_BYTES"
    using payload by (auto simp: file_put_encode_def ok_iff string_bytes_def MAX_STRING_BYTES_def
        MAX_FRAME_BYTES_def encode_file_length_def)
  let ?s = "\<lparr>st_in = frame_bytes ?done, st_out = w\<lparr>w_out := w_out w @ frame_bytes (frame_new FilePut payload)\<rparr>\<rparr>"
  obtain chunks where chunks: "concat chunks = content" "list_all (\<lambda>c. length c \<le> MAX_FRAME_BYTES) chunks"
    "send_chunks STDIN_CHUNK_BYTES (sf_reads original) 0 content 0 ?s
     = (Inr (sf_length original), ?s\<lparr>st_out := (st_out ?s)\<lparr>w_out :=
         w_out (st_out ?s) @ stream_of (map (frame_new FileData) chunks)\<rparr>\<rparr>)"
    using send_chunks_unlimited [of STDIN_CHUNK_BYTES "sf_reads original" ?s content 0 0] assms(4,6,11)
    by (auto simp: STDIN_CHUNK_BYTES_def MAX_FRAME_BYTES_def)
  let ?uploaded = "stream_of (map (frame_new FileData) chunks @ [?done])"
  have "put_file client path (Inr original) destination \<lparr>st_in = ?replies, st_out = w\<rparr>
    = (Inr (sf_length original), \<lparr>st_in = [],
        st_out = w\<lparr>w_out := w_out w @ frame_bytes (frame_new FilePut payload) @ ?uploaded\<rparr>\<rparr>)"
    using assms(1-3,11) payload short chunks(3) file_length_iff [of "encode_file_length (sf_length original)" "sf_length original"]
    by (simp add: put_file_def require_capability_def conn_bind_send_unlimited conn_bind_recv_frame
        conn_bind_def conn_send_unlimited conn_recv_frame conn_recv_last conn_return_def conn_lift_def)
  moreover have "\<exists>s'. receive_file render fs payload (\<lparr>st_in = ?uploaded, st_out = v\<rparr>, d)
      = (Inr (), s', d(destination \<mapsto> content)) \<and> w_out (st_out s') = w_out v @ ?replies"
    using receive_file_complete [OF assms(10), where payload = payload and chunks = chunks and w = v
        and rest = "[]" and render = render] dec chunks assms(4,5,12) by simp
  ultimately show ?thesis by blast
qed

theorem put_file_arrives_witness:
  "\<exists>payload uploaded replies.
    put_file \<lparr>ac_stream = \<lparr>st_in = [], st_out = \<lparr>w_out = [], w_budget = None\<rparr>\<rparr>,
        ac_capabilities = [''file-transfer-v1'']\<rparr> ''h''
      (Inr \<lparr>sf_regular = True, sf_length = 3, sf_open = Inr [7, 8, 9], sf_reads = (\<lambda>_. Inr 2)\<rparr>) ''f''
      \<lparr>st_in = replies, st_out = \<lparr>w_out = [], w_budget = None\<rparr>\<rparr>
      = (Inr 3, \<lparr>st_in = [],
          st_out = \<lparr>w_out = frame_bytes (frame_new FilePut payload) @ uploaded, w_budget = None\<rparr>\<rparr>)
    \<and> (\<exists>s'. receive_file (\<lambda>_. []) (plain_files None)
        payload (\<lparr>st_in = uploaded, st_out = \<lparr>w_out = [], w_budget = None\<rparr>\<rparr>, \<lambda>_. None)
          = (Inr (), s', [''f'' \<mapsto> [7, 8, 9]]) \<and> w_out (st_out s') = replies)"
proof -
  have "utf8_valid ''f''" by code_simp
  then show ?thesis
    using put_file_arrives [where client = "\<lparr>ac_stream = \<lparr>st_in = [], st_out = \<lparr>w_out = [], w_budget = None\<rparr>\<rparr>,
        ac_capabilities = [''file-transfer-v1'']\<rparr>"
      and original = "\<lparr>sf_regular = True, sf_length = 3, sf_open = Inr [7, 8, 9], sf_reads = (\<lambda>_. Inr 2)\<rparr>"
      and content = "[7, 8, 9]" and destination = "''f''" and temporary = "''.f.lsw-upload-9-7''" and d = "\<lambda>_. None"
      and fs = "plain_files None"
      and w = "\<lparr>w_out = [], w_budget = None\<rparr>" and v = "\<lparr>w_out = [], w_budget = None\<rparr>"
      and render = "\<lambda>_. []" and path = "''h''"]
    by (simp add: has_capability_def upload_possible_def MAX_STRING_BYTES_def plain_files_clear plain_files_temporary)
      (simp add: plain_files_def)
qed

end
