(* ===== verification/Gui_Protocol.thy ===== *)
theory Gui_Protocol
  imports Session
begin

text \<open>
  The window protocol of \<open>gui.rs\<close> (\<open>lsw-protocol\<close>): starting a GUI program, the window it
  opens, the damage the guest sends for it, and the input, resize, drag and close messages.  Each
  message has its decoder, which accepts the canonical encoding of a valid message and nothing
  else.
\<close>

section \<open>Validation\<close>

definition validate_gui_dimensions :: "u32 \<Rightarrow> u32 \<Rightarrow> ProtocolError + unit" where
  "validate_gui_dimensions width height =
     (if width = 0 \<or> height = 0 \<or> width > MAX_GUI_WINDOW_DIMENSION \<or> height > MAX_GUI_WINDOW_DIMENSION
      then Inl (Protocol [Text ''GUI window dimensions must be between 1 and '', Num (unat MAX_GUI_WINDOW_DIMENSION)])
      else and_then (ok_or (Option.bind (checked_mul_usize (unat width) (unat height)) (\<lambda>pixels.
               checked_mul_usize pixels 4)) (Protocol [Text ''GUI frame byte length overflowed''])) (\<lambda>bytes.
           if bytes > MAX_GUI_FRAME_BYTES
           then Inl (Protocol [Text ''GUI frame exceeds the '', Num MAX_GUI_FRAME_BYTES, Text '' byte memory limit''])
           else Inr ()))"

definition validate_gui_coordinate :: "u32 \<Rightarrow> u32 \<Rightarrow> ProtocolError + unit" where
  "validate_gui_coordinate x y =
     (if x \<ge> MAX_GUI_WINDOW_DIMENSION \<or> y \<ge> MAX_GUI_WINDOW_DIMENSION
      then Inl (Protocol [Text ''GUI pointer coordinate exceeds the supported window bounds''])
      else Inr ())"

definition decode_bool :: "u8 \<Rightarrow> string \<Rightarrow> ProtocolError + bool" where
  "decode_bool b field =
     (if b = 0 then Inr False
      else if b = 1 then Inr True
      else Inl (Protocol [Disp field, Text '' flag must be zero or one'']))"

definition RESERVED :: "string list" where
  "RESERVED = [''LSW_DESKTOP_TOKEN'', ''LSW_LIVE_SHARE_TOKEN'', ''LSW_DESKTOP_USER'', ''LSW_ICON_SOURCE'']"

definition validate_gui_start :: "StartRequest \<Rightarrow> ProcessEnvironment \<Rightarrow> ProtocolError + unit" where
  "validate_gui_start request environment =
     (if sr_kind request \<noteq> Run then Inl (Protocol [Text ''GUI launch requires a run request''])
      else case sr_argv request of
             [] \<Rightarrow> Inl (Protocol [Text ''GUI launch requires an executable''])
           | program # _ \<Rightarrow>
               if \<not> ends_with (to_ascii_lowercase program) ''.exe''
               then Inl (Protocol [Text ''GUI launch program must end in .exe''])
               else if list_ex (\<lambda>(name, _). list_ex (eq_ignore_ascii_case name) RESERVED) (pe_variables environment)
               then Inl (Protocol [Text ''GUI environment must not replace reserved LSW integration variables''])
               else Inr ())"


section \<open>Starting a GUI program\<close>

record GuiStartRequest =
  gs_user_name :: string
  gs_request :: StartRequest
  gs_environment :: ProcessEnvironment
  gs_mount_live_share :: bool

definition gui_start_encode :: "(string \<Rightarrow> string) \<Rightarrow> GuiStartRequest \<Rightarrow> ProtocolError + bytes" where
  "gui_start_encode uc r =
     and_then (validate_windows_user_name (gs_user_name r)) (\<lambda>_.
     and_then (validate_gui_start (gs_request r) (gs_environment r)) (\<lambda>_.
     and_then (start_encode (gs_request r)) (\<lambda>request.
     and_then (process_environment_encode uc (gs_environment r)) (\<lambda>environment.
     if 2 ^ 32 \<le> length request then Inl (Protocol [Text ''GUI start request is too long''])
     else and_then (push_string [] (gs_user_name r)) (\<lambda>payload.
          Inr (payload @ [u8_of_bool (gs_mount_live_share r)]
               @ be_bytes (word_of_nat (length request) :: u32) @ request @ environment))))))"

definition gui_start_decode :: "(string \<Rightarrow> string) \<Rightarrow> bytes \<Rightarrow> ProtocolError + GuiStartRequest" where
  "gui_start_decode uc payload =
     and_then (dec_run (
       dec_bind dec_string (\<lambda>user_name.
       dec_bind dec_u8 (\<lambda>flag.
       dec_bind (dec_lift (if flag = 0 then Inr False else if flag = 1 then Inr True
                 else Inl (Protocol [Text ''GUI live-share flag must be zero or one'']))) (\<lambda>mount_live_share.
       dec_bind dec_u32 (\<lambda>request_length.
       dec_bind (dec_take (unat request_length)) (\<lambda>request_bytes.
       dec_bind (dec_lift (start_decode request_bytes)) (\<lambda>request.
       dec_bind dec_rest (\<lambda>environment_bytes.
       dec_bind (dec_lift (process_environment_decode uc environment_bytes)) (\<lambda>environment.
       dec_bind dec_finish (\<lambda>_.
       dec_return \<lparr>gs_user_name = user_name, gs_request = request, gs_environment = environment,
                   gs_mount_live_share = mount_live_share\<rparr>)))))))))) payload) (\<lambda>r.
     and_then (validate_windows_user_name (gs_user_name r)) (\<lambda>_.
     and_then (validate_gui_start (gs_request r) (gs_environment r)) (\<lambda>_.
     Inr r)))"

record GuiIconRequest =
  gi_user_name :: string
  gi_program :: string

definition gui_icon_encode :: "GuiIconRequest \<Rightarrow> ProtocolError + bytes" where
  "gui_icon_encode r =
     and_then (validate_windows_user_name (gi_user_name r)) (\<lambda>_.
     if gi_program r = [] \<or> \<not> ends_with (to_ascii_lowercase (gi_program r)) ''.exe''
     then Inl (Protocol [Text ''GUI icon program must be a non-empty .exe path''])
     else and_then (push_string [] (gi_user_name r)) (\<lambda>payload. push_string payload (gi_program r)))"

definition gui_icon_decode :: "bytes \<Rightarrow> ProtocolError + GuiIconRequest" where
  "gui_icon_decode payload =
     and_then (dec_run (
       dec_bind dec_string (\<lambda>user_name.
       dec_bind dec_string (\<lambda>program.
       dec_bind dec_finish (\<lambda>_.
       dec_return \<lparr>gi_user_name = user_name, gi_program = program\<rparr>)))) payload) (\<lambda>request.
     and_then (gui_icon_encode request) (\<lambda>_. Inr request))"


section \<open>Windows and damage\<close>

record GuiWindowReady =
  wr_process_id :: u32
  wr_window_id :: u64
  wr_width :: u32
  wr_height :: u32
  wr_title :: string

definition gui_window_ready_encode :: "GuiWindowReady \<Rightarrow> ProtocolError + bytes" where
  "gui_window_ready_encode r =
     and_then (validate_gui_dimensions (wr_width r) (wr_height r)) (\<lambda>_.
     if wr_process_id r = 0 then Inl (Protocol [Text ''GUI process identifier must be non-zero''])
     else if wr_window_id r = 0 then Inl (Protocol [Text ''GUI window identifier must be non-zero''])
     else push_string (be_bytes (wr_process_id r) @ be_bytes (wr_window_id r)
            @ be_bytes (wr_width r) @ be_bytes (wr_height r)) (wr_title r))"

definition gui_window_ready_decode :: "bytes \<Rightarrow> ProtocolError + GuiWindowReady" where
  "gui_window_ready_decode payload =
     and_then (dec_run (
       dec_bind dec_u32 (\<lambda>process_id.
       dec_bind dec_u64 (\<lambda>window_id.
       dec_bind dec_u32 (\<lambda>width.
       dec_bind dec_u32 (\<lambda>height.
       dec_bind dec_string (\<lambda>title.
       dec_bind dec_finish (\<lambda>_.
       dec_return \<lparr>wr_process_id = process_id, wr_window_id = window_id, wr_width = width,
                   wr_height = height, wr_title = title\<rparr>))))))) payload) (\<lambda>ready.
     and_then (gui_window_ready_encode ready) (\<lambda>_. Inr ready))"

record GuiWindowDamage =
  gd_sequence :: u64
  gd_x :: u32
  gd_y :: u32
  gd_width :: u32
  gd_height :: u32
  gd_bgra :: bytes

definition validate_gui_damage :: "GuiWindowDamage \<Rightarrow> ProtocolError + unit" where
  "validate_gui_damage d =
     (if gd_width d = 0 \<or> gd_height d = 0 \<or> gd_width d > MAX_GUI_DAMAGE_DIMENSION
         \<or> gd_height d > MAX_GUI_DAMAGE_DIMENSION
      then Inl (Protocol [Text ''GUI damage dimensions must be between 1 and '', Num (unat MAX_GUI_DAMAGE_DIMENSION)])
      else and_then (ok_or (checked_add (gd_x d) (gd_width d))
             (Protocol [Text ''GUI damage x coordinate overflowed''])) (\<lambda>right.
           and_then (ok_or (checked_add (gd_y d) (gd_height d))
             (Protocol [Text ''GUI damage y coordinate overflowed''])) (\<lambda>bottom.
           if right > MAX_GUI_WINDOW_DIMENSION \<or> bottom > MAX_GUI_WINDOW_DIMENSION
           then Inl (Protocol [Text ''GUI damage lies outside the supported window bounds''])
           else and_then (ok_or (Option.bind (checked_mul_usize (unat (gd_width d)) (unat (gd_height d))) (\<lambda>pixels.
                    checked_mul_usize pixels 4)) (Protocol [Text ''GUI damage byte length overflowed''])) (\<lambda>expected.
                if length (gd_bgra d) \<noteq> expected
                then Inl (Protocol [Text ''GUI damage contains '', Num (length (gd_bgra d)),
                            Text '' bytes; expected '', Num expected])
                else Inr ()))))"

definition gui_window_damage_encode :: "GuiWindowDamage \<Rightarrow> ProtocolError + bytes" where
  "gui_window_damage_encode d =
     and_then (validate_gui_damage d) (\<lambda>_.
     Inr (be_bytes (gd_sequence d) @ be_bytes (gd_x d) @ be_bytes (gd_y d)
          @ be_bytes (gd_width d) @ be_bytes (gd_height d) @ gd_bgra d))"

definition gui_window_damage_decode :: "bytes \<Rightarrow> ProtocolError + GuiWindowDamage" where
  "gui_window_damage_decode payload =
     and_then (dec_run (
       dec_bind dec_u64 (\<lambda>sequence.
       dec_bind dec_u32 (\<lambda>x.
       dec_bind dec_u32 (\<lambda>y.
       dec_bind dec_u32 (\<lambda>width.
       dec_bind dec_u32 (\<lambda>height.
       dec_bind dec_rest (\<lambda>bgra.
       dec_bind dec_finish (\<lambda>_.
       dec_return \<lparr>gd_sequence = sequence, gd_x = x, gd_y = y, gd_width = width, gd_height = height,
                   gd_bgra = bgra\<rparr>)))))))) payload) (\<lambda>damage.
     and_then (validate_gui_damage damage) (\<lambda>_. Inr damage))"

record GuiWindowResize =
  gr_width :: u32
  gr_height :: u32

definition gui_window_resize_encode :: "GuiWindowResize \<Rightarrow> ProtocolError + bytes" where
  "gui_window_resize_encode r =
     and_then (validate_gui_dimensions (gr_width r) (gr_height r)) (\<lambda>_.
     Inr (be_bytes (gr_width r) @ be_bytes (gr_height r)))"

definition gui_window_resize_decode :: "bytes \<Rightarrow> ProtocolError + GuiWindowResize" where
  "gui_window_resize_decode payload =
     and_then (dec_run (
       dec_bind dec_u32 (\<lambda>width.
       dec_bind dec_u32 (\<lambda>height.
       dec_bind dec_finish (\<lambda>_.
       dec_return \<lparr>gr_width = width, gr_height = height\<rparr>)))) payload) (\<lambda>resize.
     and_then (validate_gui_dimensions (gr_width resize) (gr_height resize)) (\<lambda>_. Inr resize))"

record GuiWindowClosed =
  gc_exit_code :: i32

definition gui_window_closed_encode :: "GuiWindowClosed \<Rightarrow> bytes" where
  "gui_window_closed_encode c = be_bytes (gc_exit_code c)"

definition gui_window_closed_decode :: "bytes \<Rightarrow> ProtocolError + GuiWindowClosed" where
  "gui_window_closed_decode payload =
     (if length payload \<noteq> 4 then Inl (Protocol [Text ''GUI closed payload must contain four bytes''])
      else Inr \<lparr>gc_exit_code = of_be_bytes payload\<rparr>)"


section \<open>Actions and drag hints\<close>

datatype GuiWindowAction =
    Move
  | Minimize
  | Maximize
  | Close
  | ResizeTopLeft
  | ResizeTop
  | ResizeTopRight
  | ResizeRight
  | ResizeBottomRight
  | ResizeBottom
  | ResizeBottomLeft
  | ResizeLeft
  | Restore

primrec action_byte :: "GuiWindowAction \<Rightarrow> u8" where
  "action_byte Move = 1"
| "action_byte Minimize = 2"
| "action_byte Maximize = 3"
| "action_byte Close = 4"
| "action_byte ResizeTopLeft = 5"
| "action_byte ResizeTop = 6"
| "action_byte ResizeTopRight = 7"
| "action_byte ResizeRight = 8"
| "action_byte ResizeBottomRight = 9"
| "action_byte ResizeBottom = 10"
| "action_byte ResizeBottomLeft = 11"
| "action_byte ResizeLeft = 12"
| "action_byte Restore = 13"

definition gui_window_action_encode :: "GuiWindowAction \<Rightarrow> bytes" where
  "gui_window_action_encode a = [action_byte a]"

definition action_table :: "(u8 \<times> GuiWindowAction) list" where
  "action_table =
     [(1, Move), (2, Minimize), (3, Maximize), (4, Close),
      (5, ResizeTopLeft), (6, ResizeTop), (7, ResizeTopRight), (8, ResizeRight),
      (9, ResizeBottomRight), (10, ResizeBottom), (11, ResizeBottomLeft), (12, ResizeLeft),
      (13, Restore)]"

definition gui_window_action_decode :: "bytes \<Rightarrow> ProtocolError + GuiWindowAction" where
  "gui_window_action_decode payload =
     (let unknown = Inl (Protocol [Text ''GUI window action must contain one known action byte''])
      in case payload of
           [b] \<Rightarrow> (case map_of action_table b of Some a \<Rightarrow> Inr a | None \<Rightarrow> unknown)
         | _ \<Rightarrow> unknown)"

definition is_drag :: "GuiWindowAction \<Rightarrow> bool" where
  "is_drag a \<longleftrightarrow> a \<in> {Move, ResizeTopLeft, ResizeTop, ResizeTopRight, ResizeRight, ResizeBottomRight,
     ResizeBottom, ResizeBottomLeft, ResizeLeft}"

record GuiWindowDragHint =
  dh_x :: u32
  dh_y :: u32
  dh_action :: "GuiWindowAction option"

definition gui_drag_hint_encode :: "GuiWindowDragHint \<Rightarrow> ProtocolError + bytes" where
  "gui_drag_hint_encode h =
     (if dh_x h \<ge> MAX_GUI_WINDOW_DIMENSION \<or> dh_y h \<ge> MAX_GUI_WINDOW_DIMENSION
      then Inl (Protocol [Text ''GUI drag hint coordinates exceed the bounded window dimensions''])
      else if (case dh_action h of None \<Rightarrow> False | Some a \<Rightarrow> \<not> is_drag a)
      then Inl (Protocol [Text ''GUI drag hint may contain only move or resize actions''])
      else Inr ((case dh_action h of None \<Rightarrow> 0 | Some a \<Rightarrow> gui_window_action_encode a ! 0)
                # le_bytes (dh_x h) @ le_bytes (dh_y h)))"

definition gui_drag_hint_decode :: "bytes \<Rightarrow> ProtocolError + GuiWindowDragHint" where
  "gui_drag_hint_decode payload =
     (if length payload \<noteq> 9
      then Inl (Protocol [Text ''GUI drag hint must contain one action byte and two coordinates''])
      else and_then (if hd payload = 0 then Inr None
             else and_then (gui_window_action_decode [hd payload]) (\<lambda>a.
                  if \<not> is_drag a
                  then Inl (Protocol [Text ''GUI drag hint may contain only move or resize actions''])
                  else Inr (Some a))) (\<lambda>action.
           let hint = \<lparr>dh_x = of_le_bytes (take 4 (tl payload)), dh_y = of_le_bytes (drop 4 (tl payload)),
                       dh_action = action\<rparr>
           in if dh_x hint \<ge> MAX_GUI_WINDOW_DIMENSION \<or> dh_y hint \<ge> MAX_GUI_WINDOW_DIMENSION
              then Inl (Protocol [Text ''GUI drag hint coordinates exceed the bounded window dimensions''])
              else Inr hint))"


section \<open>Input events\<close>

datatype GuiPointerButton = Left | Right | Middle | Back | Forward

primrec pointer_button_encode :: "GuiPointerButton \<Rightarrow> u8" where
  "pointer_button_encode Left = 1"
| "pointer_button_encode Right = 2"
| "pointer_button_encode Middle = 3"
| "pointer_button_encode Back = 4"
| "pointer_button_encode Forward = 5"

definition pointer_button_decode :: "u8 \<Rightarrow> ProtocolError + GuiPointerButton" where
  "pointer_button_decode b =
     (if b = 1 then Inr Left
      else if b = 2 then Inr Right
      else if b = 3 then Inr Middle
      else if b = 4 then Inr Back
      else if b = 5 then Inr Forward
      else Inl (Protocol [Text ''unknown GUI pointer button '', Num (unat b)]))"

datatype GuiInputEvent =
    Focus (ev_focused: bool)
  | Key (ev_virtual_key: u16) (ev_scan_code: u16) (ev_pressed: bool) (ev_extended: bool)
  | PointerMove (ev_x: u32) (ev_y: u32)
  | PointerButton (ev_button: GuiPointerButton) (ev_pressed: bool) (ev_x: u32) (ev_y: u32)
  | PointerWheel (ev_delta: i16) (ev_horizontal: bool) (ev_x: u32) (ev_y: u32)

fun gui_input_encode :: "GuiInputEvent \<Rightarrow> ProtocolError + bytes" where
  "gui_input_encode (Focus focused) = Inr [1, u8_of_bool focused]"
| "gui_input_encode (Key virtual_key scan_code pressed extended) =
     (if virtual_key = 0 \<or> virtual_key > 255
      then Inl (Protocol [Text ''GUI virtual key must be in the Windows byte-sized VK range''])
      else Inr ([2] @ be_bytes virtual_key @ be_bytes scan_code @ [u8_of_bool pressed, u8_of_bool extended]))"
| "gui_input_encode (PointerMove x y) =
     and_then (validate_gui_coordinate x y) (\<lambda>_. Inr ([3] @ be_bytes x @ be_bytes y))"
| "gui_input_encode (PointerButton button pressed x y) =
     and_then (validate_gui_coordinate x y) (\<lambda>_.
     Inr ([4, pointer_button_encode button, u8_of_bool pressed] @ be_bytes x @ be_bytes y))"
| "gui_input_encode (PointerWheel delta horizontal x y) =
     (if delta = 0 then Inl (Protocol [Text ''GUI pointer wheel delta must be non-zero''])
      else and_then (validate_gui_coordinate x y) (\<lambda>_.
           Inr ([5] @ be_bytes delta @ [u8_of_bool horizontal] @ be_bytes x @ be_bytes y)))"

definition dec_bool :: "string \<Rightarrow> bool decoder" where
  "dec_bool field = dec_bind dec_u8 (\<lambda>b. dec_lift (decode_bool b field))"

definition dec_input_event :: "u8 \<Rightarrow> GuiInputEvent decoder" where
  "dec_input_event kind =
     (if kind = 1 then dec_bind (dec_bool ''GUI focus'') (\<lambda>focused. dec_return (Focus focused))
      else if kind = 2 then
        dec_bind dec_u16 (\<lambda>virtual_key.
        dec_bind dec_u16 (\<lambda>scan_code.
        dec_bind (dec_bool ''GUI key pressed'') (\<lambda>pressed.
        dec_bind (dec_bool ''GUI key extended'') (\<lambda>extended.
        dec_return (Key virtual_key scan_code pressed extended)))))
      else if kind = 3 then
        dec_bind dec_u32 (\<lambda>x. dec_bind dec_u32 (\<lambda>y. dec_return (PointerMove x y)))
      else if kind = 4 then
        dec_bind dec_u8 (\<lambda>b.
        dec_bind (dec_lift (pointer_button_decode b)) (\<lambda>button.
        dec_bind (dec_bool ''GUI pointer button pressed'') (\<lambda>pressed.
        dec_bind dec_u32 (\<lambda>x.
        dec_bind dec_u32 (\<lambda>y.
        dec_return (PointerButton button pressed x y))))))
      else if kind = 5 then
        dec_bind dec_i16 (\<lambda>delta.
        dec_bind (dec_bool ''GUI pointer wheel direction'') (\<lambda>horizontal.
        dec_bind dec_u32 (\<lambda>x.
        dec_bind dec_u32 (\<lambda>y.
        dec_return (PointerWheel delta horizontal x y)))))
      else dec_lift (Inl (Protocol [Text ''unknown GUI input event kind '', Num (unat kind)])))"

definition gui_input_decode :: "bytes \<Rightarrow> ProtocolError + GuiInputEvent" where
  "gui_input_decode payload =
     and_then (dec_run (
       dec_bind dec_u8 (\<lambda>kind.
       dec_bind (dec_input_event kind) (\<lambda>event.
       dec_bind dec_finish (\<lambda>_.
       dec_return event)))) payload) (\<lambda>event.
     and_then (gui_input_encode event) (\<lambda>_. Inr event))"


section \<open>Lemmas\<close>

lemma decode_bool_ok [ok_iff]: "decode_bool b field = Inr v \<longleftrightarrow> b = u8_of_bool v"
  by (cases v) (auto simp: decode_bool_def u8_of_bool_def)

lemma dec_bool_iff [dec_iff]: "dec_bool field p = Inr (v, r) \<longleftrightarrow> p = u8_of_bool v # r"
  by (auto simp: dec_bool_def dec_iff decode_bool_ok)

lemma pointer_button_decode_ok [ok_iff]: "pointer_button_decode b = Inr v \<longleftrightarrow> b = pointer_button_encode v"
  by (cases v) (auto simp: pointer_button_decode_def)

lemma gui_window_action_iff: "gui_window_action_decode p = Inr a \<longleftrightarrow> p = gui_window_action_encode a"
proof
  assume "gui_window_action_decode p = Inr a"
  then obtain b where b: "p = [b]" "map_of action_table b = Some a"
    by (auto simp: gui_window_action_decode_def Let_def split: list.splits option.splits)
  then have "(b, a) \<in> set action_table" by (intro map_of_SomeD)
  then have "b = action_byte a" by (auto simp: action_table_def)
  with b show "p = gui_window_action_encode a" by (simp add: gui_window_action_encode_def)
next
  assume "p = gui_window_action_encode a"
  then show "gui_window_action_decode p = Inr a"
    by (cases a) (simp_all add: gui_window_action_encode_def gui_window_action_decode_def action_table_def)
qed

definition gui_dimensions_ok :: "u32 \<Rightarrow> u32 \<Rightarrow> bool" where
  "gui_dimensions_ok width height \<longleftrightarrow> 1 \<le> unat width \<and> unat width \<le> 8192 \<and> 1 \<le> unat height
     \<and> unat height \<le> 8192 \<and> 4 * (unat width * unat height) \<le> 128 * 1024 * 1024"

lemma mult_le_square: "(a::nat) \<le> n \<Longrightarrow> b \<le> m \<Longrightarrow> a * b \<le> n * m"
  by (rule mult_le_mono)

lemma u32_pos_iff: "(w :: u32) \<noteq> 0 \<longleftrightarrow> 1 \<le> unat w"
  by (metis One_nat_def Suc_leI le_zero_eq not_less_eq_eq unat_eq_zero unat_gt_0)

lemma validate_gui_dimensions_ok [ok_iff]:
  "validate_gui_dimensions w h = Inr u \<longleftrightarrow> gui_dimensions_ok w h"
proof (cases "w = 0 \<or> h = 0 \<or> w > MAX_GUI_WINDOW_DIMENSION \<or> h > MAX_GUI_WINDOW_DIMENSION")
  case True
  then show ?thesis
    by (auto simp: validate_gui_dimensions_def gui_dimensions_ok_def MAX_GUI_WINDOW_DIMENSION_def word_less_nat_alt)
next
  case False
  then have le: "unat w \<le> 8192" "unat h \<le> 8192" and pos: "1 \<le> unat w" "1 \<le> unat h"
    by (auto simp: MAX_GUI_WINDOW_DIMENSION_def word_less_nat_alt u32_pos_iff)
  have "unat w * unat h \<le> 8192 * 8192" using le by (rule mult_le_square)
  moreover have "(8192::nat) * 8192 * 4 < usize_limit" by (simp add: usize_limit_def)
  ultimately have "unat w * unat h < usize_limit" "unat w * unat h * 4 < usize_limit" by linarith+
  with False le pos show ?thesis
    by (auto simp: validate_gui_dimensions_def gui_dimensions_ok_def checked_mul_usize_def
        MAX_GUI_FRAME_BYTES_def mult.commute not_less)
qed

definition gui_damage_ok :: "GuiWindowDamage \<Rightarrow> bool" where
  "gui_damage_ok d \<longleftrightarrow> 1 \<le> unat (gd_width d) \<and> unat (gd_width d) \<le> 512
     \<and> 1 \<le> unat (gd_height d) \<and> unat (gd_height d) \<le> 512
     \<and> unat (gd_x d) + unat (gd_width d) \<le> 8192 \<and> unat (gd_y d) + unat (gd_height d) \<le> 8192
     \<and> length (gd_bgra d) = 4 * (unat (gd_width d) * unat (gd_height d))"

lemma checked_add_le:
  "(\<exists>c. checked_add (a :: u32) b = Some c \<and> c \<le> MAX_GUI_WINDOW_DIMENSION) \<longleftrightarrow> unat a + unat b \<le> 8192"
  by (auto simp: checked_add_def MAX_GUI_WINDOW_DIMENSION_def word_le_nat_alt unat_word_ariths)

lemma validate_gui_damage_ok [ok_iff]: "validate_gui_damage d = Inr u \<longleftrightarrow> gui_damage_ok d"
proof (cases "gd_width d = 0 \<or> gd_height d = 0 \<or> gd_width d > MAX_GUI_DAMAGE_DIMENSION
    \<or> gd_height d > MAX_GUI_DAMAGE_DIMENSION")
  case True
  then show ?thesis
    by (auto simp: validate_gui_damage_def gui_damage_ok_def MAX_GUI_DAMAGE_DIMENSION_def word_less_nat_alt)
next
  case False
  then have le: "unat (gd_width d) \<le> 512" "unat (gd_height d) \<le> 512"
    and pos: "1 \<le> unat (gd_width d)" "1 \<le> unat (gd_height d)"
    by (auto simp: MAX_GUI_DAMAGE_DIMENSION_def word_less_nat_alt u32_pos_iff)
  have "unat (gd_width d) * unat (gd_height d) \<le> 512 * 512" using le by (rule mult_le_square)
  then have mul: "Option.bind (checked_mul_usize (unat (gd_width d)) (unat (gd_height d))) (\<lambda>pixels.
      checked_mul_usize pixels 4) = Some (4 * (unat (gd_width d) * unat (gd_height d)))"
    by (simp add: checked_mul_usize_def usize_limit_def)
  have "validate_gui_damage d = Inr u \<longleftrightarrow>
      (\<exists>c. checked_add (gd_x d) (gd_width d) = Some c \<and> c \<le> MAX_GUI_WINDOW_DIMENSION)
      \<and> (\<exists>c. checked_add (gd_y d) (gd_height d) = Some c \<and> c \<le> MAX_GUI_WINDOW_DIMENSION)
      \<and> length (gd_bgra d) = 4 * (unat (gd_width d) * unat (gd_height d))"
    using False
    by (auto simp: validate_gui_damage_def mul ok_iff not_less)
  with le pos show ?thesis unfolding checked_add_le gui_damage_ok_def by auto
qed

lemma validate_gui_coordinate_ok [ok_iff]:
  "validate_gui_coordinate x y = Inr u \<longleftrightarrow> unat x < 8192 \<and> unat y < 8192"
  by (auto simp: validate_gui_coordinate_def MAX_GUI_WINDOW_DIMENSION_def word_le_nat_alt)

lemmas gui_codec_iff = dec_iff ok_iff wire_strings_lengths wire_string_def

lemma gui_icon_iff:
  "gui_icon_decode p = Inr r \<longleftrightarrow> utf8_valid (gi_user_name r) \<and> utf8_valid (gi_program r) \<and> gui_icon_encode r = Inr p"
  by (cases r) (auto simp: gui_icon_decode_def gui_icon_encode_def gui_codec_iff)

lemma gui_window_ready_iff:
  "gui_window_ready_decode p = Inr r \<longleftrightarrow> utf8_valid (wr_title r) \<and> gui_window_ready_encode r = Inr p"
  by (cases r) (auto simp: gui_window_ready_decode_def gui_window_ready_encode_def gui_codec_iff)

lemma gui_window_damage_iff: "gui_window_damage_decode p = Inr d \<longleftrightarrow> gui_window_damage_encode d = Inr p"
  by (cases d) (auto simp: gui_window_damage_decode_def gui_window_damage_encode_def gui_codec_iff)

lemma gui_window_resize_iff: "gui_window_resize_decode p = Inr r \<longleftrightarrow> gui_window_resize_encode r = Inr p"
  by (cases r) (auto simp: gui_window_resize_decode_def gui_window_resize_encode_def gui_codec_iff)

lemma gui_window_closed_iff: "gui_window_closed_decode p = Inr c \<longleftrightarrow> p = gui_window_closed_encode c"
  by (cases c) (auto simp: gui_window_closed_decode_def gui_window_closed_encode_def)

lemma gui_drag_hint_iff: "gui_drag_hint_decode p = Inr h \<longleftrightarrow> gui_drag_hint_encode h = Inr p"
proof
  assume dec: "gui_drag_hint_decode p = Inr h"
  then obtain b xs where p: "p = b # xs" "length xs = 8"
    by (cases p) (auto simp: gui_drag_hint_decode_def split: if_splits)
  then have "take 4 xs @ drop 4 xs = xs" by simp
  with dec p show "gui_drag_hint_encode h = Inr p"
    by (cases h)
      (auto simp: gui_drag_hint_decode_def gui_drag_hint_encode_def ok_iff Let_def gui_window_action_iff
        gui_window_action_encode_def split: if_splits)
next
  assume "gui_drag_hint_encode h = Inr p"
  then show "gui_drag_hint_decode p = Inr h"
    by (cases h; cases "dh_action h")
      (auto simp: gui_drag_hint_decode_def gui_drag_hint_encode_def ok_iff Let_def gui_window_action_iff
        gui_window_action_encode_def is_drag_def split: if_splits)
qed

lemma gui_input_iff: "gui_input_decode p = Inr e \<longleftrightarrow> gui_input_encode e = Inr p"
  by (cases e) (auto simp: gui_input_decode_def dec_input_event_def gui_codec_iff)

definition gui_start_wf :: "GuiStartRequest \<Rightarrow> bool" where
  "gui_start_wf r \<longleftrightarrow> utf8_valid (gs_user_name r) \<and> start_wf (gs_request r)
     \<and> process_environment_wf (gs_environment r)"

lemma gui_start_iff:
  "gui_start_decode uc p = Inr r \<longleftrightarrow> gui_start_wf r \<and> gui_start_encode uc r = Inr p"
proof
  assume "gui_start_decode uc p = Inr r"
  then obtain n request environment where
    p: "p = string_bytes (gs_user_name r) @ [u8_of_bool (gs_mount_live_share r)] @ be_bytes (n :: u32)
          @ request @ environment"
    and n: "length request = unat n"
    and user: "wire_string (gs_user_name r)" "validate_windows_user_name (gs_user_name r) = Inr ()"
    and ok: "validate_gui_start (gs_request r) (gs_environment r) = Inr ()"
    and dec: "start_decode request = Inr (gs_request r)"
      "process_environment_decode uc environment = Inr (gs_environment r)"
    by (auto simp: gui_start_decode_def dec_iff and_then_ok bool_byte_iff)
  moreover have "length request < 2 ^ 32" using n unsigned_less [of n, where 'a = nat] by simp
  moreover have "word_of_nat (length request) = n" using n by simp
  ultimately show "gui_start_wf r \<and> gui_start_encode uc r = Inr p"
    by (simp add: gui_start_wf_def gui_start_encode_def start_iff process_environment_iff wire_string_def
        push_string_ok and_then_ok)
next
  assume r: "gui_start_wf r \<and> gui_start_encode uc r = Inr p"
  then obtain request environment where
    user: "validate_windows_user_name (gs_user_name r) = Inr ()" "wire_string (gs_user_name r)"
    and ok: "validate_gui_start (gs_request r) (gs_environment r) = Inr ()"
    and enc: "start_encode (gs_request r) = Inr request"
      "process_environment_encode uc (gs_environment r) = Inr environment" and n: "length request < 2 ^ 32"
    and p: "p = string_bytes (gs_user_name r) @ [u8_of_bool (gs_mount_live_share r)]
       @ be_bytes (word_of_nat (length request) :: u32) @ request @ environment"
    by (auto simp: gui_start_wf_def gui_start_encode_def wire_string_def push_string_ok and_then_ok split: if_splits)
  from r enc have dec: "start_decode request = Inr (gs_request r)"
    "process_environment_decode uc environment = Inr (gs_environment r)"
    by (simp_all add: gui_start_wf_def start_iff process_environment_iff)
  have len: "unat (word_of_nat (length request) :: u32) = length request" using n by (simp add: unat_word_of_nat_less)
  from user ok dec p len show "gui_start_decode uc p = Inr r"
    by (cases "gs_mount_live_share r") (simp_all add: gui_start_decode_def dec_forward)
qed


section \<open>The messages as framed codecs\<close>

interpretation gui_start: framed_codec gui_start_wf "gui_start_encode uc" "gui_start_decode uc" GuiStart for uc
  by unfold_locales (simp_all add: gui_start_iff)

interpretation gui_icon: framed_codec "\<lambda>r. utf8_valid (gi_user_name r) \<and> utf8_valid (gi_program r)"
  gui_icon_encode gui_icon_decode GuiIcon
  by unfold_locales (simp_all add: gui_icon_iff)

interpretation gui_window_ready: framed_codec "\<lambda>r. utf8_valid (wr_title r)" gui_window_ready_encode
  gui_window_ready_decode FrameKind.GuiWindowReady
  by unfold_locales (simp_all add: gui_window_ready_iff)

interpretation gui_window_damage: framed_codec "\<lambda>_. True" gui_window_damage_encode
  gui_window_damage_decode FrameKind.GuiWindowDamage
  by unfold_locales (simp_all add: gui_window_damage_iff)

interpretation gui_window_resize: framed_codec "\<lambda>_. True" gui_window_resize_encode
  gui_window_resize_decode FrameKind.GuiWindowResize
  by unfold_locales (simp_all add: gui_window_resize_iff)

interpretation gui_window_closed: framed_codec "\<lambda>_. True" "\<lambda>c. Inr (gui_window_closed_encode c)"
  gui_window_closed_decode FrameKind.GuiWindowClosed
  by unfold_locales (auto simp: gui_window_closed_iff)

interpretation gui_window_action: framed_codec "\<lambda>_. True" "\<lambda>a. Inr (gui_window_action_encode a)"
  gui_window_action_decode FrameKind.GuiWindowAction
  by unfold_locales (auto simp: gui_window_action_iff)

interpretation gui_drag_hint: framed_codec "\<lambda>_. True" gui_drag_hint_encode gui_drag_hint_decode
  FrameKind.GuiWindowDragHint
  by unfold_locales (simp_all add: gui_drag_hint_iff)

interpretation gui_input: framed_codec "\<lambda>_. True" gui_input_encode gui_input_decode GuiWindowInput
  by unfold_locales (simp_all add: gui_input_iff)


section \<open>Properties\<close>

text \<open>
  A GUI start the agent accepts names a valid Windows user, runs a \<open>.exe\<close> program, carries a
  valid environment, and cannot replace, in any letter case, one of the variables that hand the
  integration's own credentials to the program.
\<close>

lemma gui_start_accepted:
  assumes "gui_start_decode uc p = Inr r"
  shows "windows_user_name_ok (gs_user_name r) \<and> sr_kind (gs_request r) = Run
    \<and> (\<exists>program arguments. sr_argv (gs_request r) = program # arguments
         \<and> ends_with (to_ascii_lowercase program) ''.exe'')
    \<and> environment_ok uc (pe_variables (gs_environment r))
    \<and> list_all (\<lambda>(name, _). to_ascii_lowercase name \<notin> to_ascii_lowercase ` set RESERVED)
        (pe_variables (gs_environment r))
    \<and> gui_start_encode uc r = Inr p"
proof -
  from gui_start.canonical [OF assms] show ?thesis
    by (auto simp: gui_start_encode_def validate_gui_start_def process_environment_encode_def ok_iff
        list_ex_iff list_all_iff eq_ignore_ascii_case_def split: list.splits if_splits)
qed

text \<open>
  What the guest announces stays within the memory the presenter reserves: an accepted window
  or resize has 1 to 8192 pixels a side and at most 128 MiB of pixels, and accepted damage is at most
  512 pixels a side, lies inside the largest window and carries exactly its pixels, four bytes each.
\<close>

lemma gui_geometry_bounded:
  "(gui_window_ready_decode p = Inr ready \<longrightarrow> gui_dimensions_ok (wr_width ready) (wr_height ready))
   \<and> (gui_window_resize_decode p = Inr resize \<longleftrightarrow> gui_dimensions_ok (gr_width resize) (gr_height resize)
        \<and> p = be_bytes (gr_width resize) @ be_bytes (gr_height resize))
   \<and> (gui_window_damage_decode p = Inr damage \<longleftrightarrow> gui_damage_ok damage
        \<and> p = be_bytes (gd_sequence damage) @ be_bytes (gd_x damage) @ be_bytes (gd_y damage)
              @ be_bytes (gd_width damage) @ be_bytes (gd_height damage) @ gd_bgra damage)"
  by (auto simp: gui_window_ready_iff gui_window_resize_iff gui_window_damage_iff
      gui_window_ready_encode_def gui_window_resize_encode_def gui_window_damage_encode_def ok_iff)

text \<open>
  An input event is accepted from exactly the bytes that encode it, so no two payloads stand
  for one event, and every accepted event is one the agent may inject: key codes in the Windows
  range, pointer positions inside the largest window, wheel steps other than zero.
\<close>

lemma gui_input_accepted_iff:
  "gui_input_decode p = Inr e \<longleftrightarrow> gui_input_encode e = Inr p
     \<and> (case e of
          Focus _ \<Rightarrow> True
        | Key vk _ _ _ \<Rightarrow> 1 \<le> unat vk \<and> unat vk \<le> 255
        | PointerMove x y \<Rightarrow> unat x < 8192 \<and> unat y < 8192
        | PointerButton _ _ x y \<Rightarrow> unat x < 8192 \<and> unat y < 8192
        | PointerWheel delta _ x y \<Rightarrow> delta \<noteq> 0 \<and> unat x < 8192 \<and> unat y < 8192)"
  by (cases e)
    (auto simp: gui_input_iff ok_iff word_less_nat_alt Suc_le_eq unat_gt_0)

end
