(* ===== verification/Rust_Outcome.thy ===== *)
theory Rust_Outcome
  imports Lsw_Prelude
begin

text \<open>
  Code that indexes slices: a computation returns a value, fails with an error, or panics.  The
  index and slice operations panic out of range, as Rust's do, so that the absence of panics is
  a theorem about the code and not a convention of the model.  Loops over ranges carry the
  state they update; the rules at the end reduce a loop to an invariant.
\<close>

section \<open>Outcomes\<close>

datatype ('e, 'a) outcome = Returns 'a | Fails 'e | Panics

fun out_bind :: "('e, 'a) outcome \<Rightarrow> ('a \<Rightarrow> ('e, 'b) outcome) \<Rightarrow> ('e, 'b) outcome" where
  "out_bind (Returns x) f = f x"
| "out_bind (Fails e) f = Fails e"
| "out_bind Panics f = Panics"

fun out_of :: "'e + 'a \<Rightarrow> ('e, 'a) outcome" where
  "out_of (Inl e) = Fails e"
| "out_of (Inr x) = Returns x"

definition out_require :: "bool \<Rightarrow> 'e \<Rightarrow> ('e, unit) outcome" where
  "out_require b e = (if b then Returns () else Fails e)"

definition out_some :: "'a option \<Rightarrow> 'e \<Rightarrow> ('e, 'a) outcome" where
  "out_some x e = (case x of None \<Rightarrow> Fails e | Some y \<Rightarrow> Returns y)"


section \<open>Slices\<close>

definition index :: "'a list \<Rightarrow> nat \<Rightarrow> ('e, 'a) outcome" where
  "index xs i = (if i < length xs then Returns (xs ! i) else Panics)"

definition set_index :: "'a list \<Rightarrow> nat \<Rightarrow> 'a \<Rightarrow> ('e, 'a list) outcome" where
  "set_index xs i v = (if i < length xs then Returns (xs[i := v]) else Panics)"

text \<open>\<open>&xs[a..b]\<close>.\<close>

definition slice :: "'a list \<Rightarrow> nat \<Rightarrow> nat \<Rightarrow> ('e, 'a list) outcome" where
  "slice xs a b = (if a \<le> b \<and> b \<le> length xs then Returns (take (b - a) (drop a xs)) else Panics)"

text \<open>\<open>copy_from_slice\<close> panics unless the lengths agree.\<close>

definition copy_from_slice :: "'a list \<Rightarrow> 'a list \<Rightarrow> ('e, 'a list) outcome" where
  "copy_from_slice destination source =
     (if length destination = length source then Returns source else Panics)"


section \<open>Arithmetic that overflows\<close>

text \<open>
  The plain operators on \<open>usize\<close> and on words: a build with overflow checks panics on overflow.
  A theorem that excludes the panic shows that a build without the checks does not wrap either.
\<close>

definition add_usize :: "nat \<Rightarrow> nat \<Rightarrow> ('e, nat) outcome" where
  "add_usize a b = (if a + b < usize_limit then Returns (a + b) else Panics)"

definition mul_usize :: "nat \<Rightarrow> nat \<Rightarrow> ('e, nat) outcome" where
  "mul_usize a b = (if a * b < usize_limit then Returns (a * b) else Panics)"

definition sub_usize :: "nat \<Rightarrow> nat \<Rightarrow> ('e, nat) outcome" where
  "sub_usize a b = (if b \<le> a then Returns (a - b) else Panics)"

definition add_word :: "'w::len word \<Rightarrow> 'w word \<Rightarrow> ('e, 'w word) outcome" where
  "add_word a b = (if unat a + unat b < 2 ^ LENGTH('w) then Returns (a + b) else Panics)"

definition mul_word :: "'w::len word \<Rightarrow> 'w word \<Rightarrow> ('e, 'w word) outcome" where
  "mul_word a b = (if unat a * unat b < 2 ^ LENGTH('w) then Returns (a * b) else Panics)"

definition sub_word :: "'w::len word \<Rightarrow> 'w word \<Rightarrow> ('e, 'w word) outcome" where
  "sub_word a b = (if b \<le> a then Returns (a - b) else Panics)"


section \<open>Loops\<close>

fun for_each :: "('i \<Rightarrow> 's \<Rightarrow> ('e, 's) outcome) \<Rightarrow> 'i list \<Rightarrow> 's \<Rightarrow> ('e, 's) outcome" where
  "for_each f [] s = Returns s"
| "for_each f (x # xs) s = out_bind (f x s) (for_each f xs)"

fun collect_each :: "('i \<Rightarrow> ('e, 'a) outcome) \<Rightarrow> 'i list \<Rightarrow> ('e, 'a list) outcome" where
  "collect_each f [] = Returns []"
| "collect_each f (x # xs) = out_bind (f x) (\<lambda>y. out_bind (collect_each f xs) (\<lambda>ys. Returns (y # ys)))"

fun for_all :: "('i \<Rightarrow> ('e, bool) outcome) \<Rightarrow> 'i list \<Rightarrow> ('e, bool) outcome" where
  "for_all f [] = Returns True"
| "for_all f (x # xs) = out_bind (f x) (\<lambda>b. if b then for_all f xs else Returns False)"


section \<open>Rules\<close>

lemma out_bind_Returns [simp]:
  "out_bind m f = Returns y \<longleftrightarrow> (\<exists>x. m = Returns x \<and> f x = Returns y)"
  by (cases m) auto

lemma out_require_Returns [simp]: "out_require b e = Returns u \<longleftrightarrow> b"
  by (simp add: out_require_def)

lemma out_some_Returns [simp]: "out_some x e = Returns y \<longleftrightarrow> x = Some y"
  by (auto simp: out_some_def split: option.splits)

lemma out_of_Returns [simp]: "out_of r = Returns y \<longleftrightarrow> r = Inr y"
  by (cases r) auto

lemma index_in [simp]: "i < length xs \<Longrightarrow> index xs i = Returns (xs ! i)"
  by (simp add: index_def)

lemma set_index_in [simp]: "i < length xs \<Longrightarrow> set_index xs i v = Returns (xs[i := v])"
  by (simp add: set_index_def)

lemma slice_in: "a \<le> b \<Longrightarrow> b \<le> length xs \<Longrightarrow> slice xs a b = Returns (take (b - a) (drop a xs))"
  by (simp add: slice_def)

text \<open>Outcomes that are not panics.\<close>

definition safe :: "('e, 'a) outcome \<Rightarrow> bool" where
  "safe m \<longleftrightarrow> m \<noteq> Panics"

lemma safe_simps [simp]:
  "safe (Returns x)" "safe (Fails e)" "\<not> safe Panics" "safe (out_require b e')" "safe (out_some o' e'')"
  "safe (out_of r)"
  by (auto simp: safe_def out_require_def out_some_def split: option.splits) (cases r; simp)

lemma safe_bind: "safe m \<Longrightarrow> (\<And>x. m = Returns x \<Longrightarrow> safe (f x)) \<Longrightarrow> safe (out_bind m f)"
  by (cases m) auto

text \<open>A loop over \<open>a..<b\<close> that maintains \<open>I\<close> returns, and ends with \<open>I b\<close>.\<close>

lemma for_range_invariant:
  assumes "a \<le> b" and "I a s"
    and step: "\<And>i s. a \<le> i \<Longrightarrow> i < b \<Longrightarrow> I i s \<Longrightarrow> \<exists>s'. f i s = Returns s' \<and> I (Suc i) s'"
  shows "\<exists>s'. for_each f [a..<b] s = Returns s' \<and> I b s'"
proof -
  have "\<exists>s'. for_each f [i..<b] s = Returns s' \<and> I b s'" if "a \<le> i" "i \<le> b" "I i s" for i s
    using that
  proof (induction "b - i" arbitrary: i s)
    case 0
    then show ?case by simp
  next
    case (Suc n)
    then have "i < b" by simp
    with step [of i s] Suc.prems obtain s' where s': "f i s = Returns s'" "I (Suc i) s'" by blast
    with Suc.hyps(1) [of "Suc i" s'] Suc.hyps(2) Suc.prems \<open>i < b\<close> show ?case
      by (simp add: upt_rec [of i])
  qed
  with assms(1,2) show ?thesis by blast
qed

lemma for_list_invariant:
  assumes "I [] s"
    and step: "\<And>ds x s. I ds s \<Longrightarrow> x \<in> set xs \<Longrightarrow> \<exists>s'. f x s = Returns s' \<and> I (ds @ [x]) s'"
  shows "\<exists>s'. for_each f xs s = Returns s' \<and> I xs s'"
proof -
  have "\<exists>s'. for_each f ys s = Returns s' \<and> I (ds @ ys) s'" if "I ds s" "set ys \<subseteq> set xs" for ds ys s
    using that
  proof (induction ys arbitrary: ds s)
    case Nil
    then show ?case by simp
  next
    case (Cons y ys)
    with step [of ds s y] obtain s' where "f y s = Returns s'" "I (ds @ [y]) s'" by auto
    with Cons.IH [of "ds @ [y]" s'] Cons.prems show ?case by simp
  qed
  from this [of "[]" s xs] assms(1) show ?thesis by simp
qed

lemma for_all_Returns:
  "(\<And>x. x \<in> set xs \<Longrightarrow> f x = Returns (P x)) \<Longrightarrow> for_all f xs = Returns (\<forall>x \<in> set xs. P x)"
  by (induction xs) auto

lemma collect_each_Returns:
  "(\<And>x. x \<in> set xs \<Longrightarrow> f x = Returns (g x)) \<Longrightarrow> collect_each f xs = Returns (map g xs)"
  by (induction xs) auto

lemma collect_each_Panics:
  "\<lbrakk>\<And>x. x \<in> set xs \<Longrightarrow> f x = Returns (g x); f y = Panics\<rbrakk> \<Longrightarrow> collect_each f (xs @ y # ys) = Panics"
  by (induction xs) auto

lemma for_each_safe:
  "(\<And>x s. x \<in> set xs \<Longrightarrow> safe (f x s)) \<Longrightarrow> safe (for_each f xs s)"
  by (induction xs arbitrary: s) (auto intro: safe_bind)

text \<open>
  What a computation ends with: it does not panic, and what it returns satisfies the
  postcondition.  The collection \<open>ends_intro\<close> computes weakest preconditions backwards through
  the code.
\<close>

named_theorems ends_intro \<open>weakest preconditions of the operations\<close>

definition ends :: "('e, 'a) outcome \<Rightarrow> ('a \<Rightarrow> bool) \<Rightarrow> bool" where
  "ends m Q \<longleftrightarrow> (case m of Returns x \<Rightarrow> Q x | Fails _ \<Rightarrow> True | Panics \<Rightarrow> False)"

lemma ends_simps [simp]: "ends (Returns x) Q \<longleftrightarrow> Q x" "ends (Fails e) Q" "\<not> ends Panics Q"
  by (simp_all add: ends_def)

lemma ends_iff: "ends m Q \<longleftrightarrow> m \<noteq> Panics \<and> (\<forall>x. m = Returns x \<longrightarrow> Q x)"
  by (cases m) simp_all

lemma ends_Returns_intro [ends_intro]: "Q x \<Longrightarrow> ends (Returns x) Q"
  and ends_Fails_intro [ends_intro]: "ends (Fails e) Q"
  by simp_all

lemma ends_bind [ends_intro]: "ends m (\<lambda>x. ends (f x) Q) \<Longrightarrow> ends (out_bind m f) Q"
  by (cases m) simp_all

lemma ends_mono: "ends m P \<Longrightarrow> (\<And>x. P x \<Longrightarrow> Q x) \<Longrightarrow> ends m Q"
  by (cases m) simp_all

lemma ends_if [ends_intro]: "(b \<Longrightarrow> ends m Q) \<Longrightarrow> (\<not> b \<Longrightarrow> ends n Q) \<Longrightarrow> ends (if b then m else n) Q"
  by simp

lemma ends_case_prod: "ends (f a b) Q \<Longrightarrow> ends (case (a, b) of (x, y) \<Rightarrow> f x y) Q"
  by simp

lemma ends_some [ends_intro]: "(\<And>y. x = Some y \<Longrightarrow> Q y) \<Longrightarrow> ends (out_some x e) Q"
  by (cases x) (simp_all add: out_some_def)

lemma ends_require [ends_intro]: "(b \<Longrightarrow> Q ()) \<Longrightarrow> ends (out_require b e) Q"
  by (simp add: out_require_def)

lemma ends_add_usize [ends_intro]: "a + b < usize_limit \<Longrightarrow> Q (a + b) \<Longrightarrow> ends (add_usize a b) Q"
  and ends_mul_usize [ends_intro]: "a * b < usize_limit \<Longrightarrow> Q (a * b) \<Longrightarrow> ends (mul_usize a b) Q"
  and ends_sub_usize [ends_intro]: "b \<le> a \<Longrightarrow> Q (a - b) \<Longrightarrow> ends (sub_usize a b) Q"
  by (simp_all add: add_usize_def mul_usize_def sub_usize_def)

lemma ends_sub_word [ends_intro]: "b \<le> a \<Longrightarrow> R (a - b) \<Longrightarrow> ends (sub_word a b) R"
  by (simp add: sub_word_def)

lemma ends_slice [ends_intro]:
  "a \<le> b \<Longrightarrow> b \<le> length xs \<Longrightarrow> Q (take (b - a) (drop a xs)) \<Longrightarrow> ends (slice xs a b) Q"
  by (simp add: slice_def)

lemma ends_for_range:
  assumes "I 0 s" and "\<And>i s. i < n \<Longrightarrow> I i s \<Longrightarrow> ends (f i s) (I (Suc i))"
  shows "ends (for_each f [0..<n] s) (I n)"
proof -
  have "ends (for_each f [k..<n] s) (I n)" if "k \<le> n" "I k s" for k s
    using that
  proof (induction "n - k" arbitrary: k s)
    case 0
    then show ?case by simp
  next
    case (Suc m)
    then have "k < n" by simp
    have "ends (out_bind (f k s) (for_each f [Suc k..<n])) (I n)"
    proof (rule ends_bind, rule ends_mono [OF assms(2) [OF \<open>k < n\<close> Suc.prems(2)]])
      fix t assume "I (Suc k) t"
      then show "ends (for_each f [Suc k..<n] t) (I n)" using Suc.hyps \<open>k < n\<close> by simp
    qed
    with \<open>k < n\<close> show ?case by (simp add: upt_rec [of k])
  qed
  with assms(1) show ?thesis by simp
qed

text \<open>Rows of equal length, one after the other.\<close>

lemma length_concat_rows: "\<forall>xs \<in> set xss. length xs = n \<Longrightarrow> length (concat xss) = length xss * n"
  by (induction xss) auto

lemma nth_concat_rows:
  assumes "\<forall>xs \<in> set xss. length xs = n" and "i < length xss" and "j < n"
  shows "concat xss ! (i * n + j) = xss ! i ! j"
  using assms
proof (induction xss arbitrary: i)
  case (Cons xs xss)
  then show ?case by (cases i) (auto simp: nth_append add.assoc)
qed simp

end
