(* ===== verification/Gui_Damage.thy ===== *)
theory Gui_Damage
  imports Gui_Protocol Rust_Outcome
begin

text \<open>
  The agent's damage tracker (\<open>gui_damage.rs\<close>): it compares a captured frame with the
  previous one, tile by tile, and emits the tiles that changed.
\<close>

section \<open>The tracker\<close>

definition TILE_SIDE :: nat where "TILE_SIDE = 128"

record DamageTracker =
  dt_width :: nat
  dt_height :: nat
  dt_previous :: bytes
  dt_sequence :: u64

definition damage_tracker_default :: DamageTracker where
  "damage_tracker_default = \<lparr>dt_width = 0, dt_height = 0, dt_previous = [], dt_sequence = 0\<rparr>"

definition validate_frame :: "u32 \<Rightarrow> u32 \<Rightarrow> bytes \<Rightarrow> ProtocolError + (nat \<times> nat \<times> nat)" where
  "validate_frame width height bgra =
     (if width = 0 \<or> height = 0 \<or> width > MAX_GUI_WINDOW_DIMENSION \<or> height > MAX_GUI_WINDOW_DIMENSION
      then Inl (Protocol [Text ''captured GUI dimensions must be between 1 and '',
             Num (unat MAX_GUI_WINDOW_DIMENSION)])
      else let width = unat width; height = unat height
      in and_then (ok_or (Option.bind (checked_mul_usize width height) (\<lambda>pixels. checked_mul_usize pixels 4))
           (Protocol [Text ''captured GUI frame length overflowed''])) (\<lambda>frame_bytes.
         if frame_bytes > MAX_GUI_FRAME_BYTES
         then Inl (Protocol [Text ''captured GUI frame exceeds the '', Num MAX_GUI_FRAME_BYTES, Text '' byte limit''])
         else if length bgra \<noteq> frame_bytes
         then Inl (Protocol [Text ''captured GUI frame contains '', Num (length bgra),
                Text '' bytes; expected '', Num frame_bytes])
         else Inr (width, height, frame_bytes)))"

definition tile_matches ::
  "bytes \<Rightarrow> bytes \<Rightarrow> nat \<Rightarrow> nat \<Rightarrow> nat \<Rightarrow> nat \<Rightarrow> nat \<Rightarrow> (ProtocolError, bool) outcome" where
  "tile_matches previous current frame_width x y width height =
     for_all (\<lambda>row.
       let start = (row * frame_width + x) * 4
       in out_bind (slice previous start (start + width * 4)) (\<lambda>a.
          out_bind (slice current start (start + width * 4)) (\<lambda>b.
          Returns (a = b)))) [y..<y + height]"

text \<open>\<open>(0..n).step_by(TILE_SIDE)\<close>.\<close>

definition tile_starts :: "nat \<Rightarrow> nat list" where
  "tile_starts n = map (\<lambda>k. k * TILE_SIDE) [0..<(n + TILE_SIDE - 1) div TILE_SIDE]"

definition cut_tile ::
  "bytes \<Rightarrow> nat \<Rightarrow> nat \<Rightarrow> nat \<Rightarrow> nat \<Rightarrow> nat \<Rightarrow> (ProtocolError, bytes) outcome" where
  "cut_tile bgra width x y tile_width tile_height =
     for_each (\<lambda>row tile.
       let start = (row * width + x) * 4
       in out_bind (slice bgra start (start + tile_width * 4)) (\<lambda>bs. Returns (tile @ bs)))
       [y..<y + tile_height] []"

text \<open>\<open>u32::try_from(n).expect(..)\<close>.\<close>

definition expect_u32 :: "nat \<Rightarrow> (ProtocolError, u32) outcome" where
  "expect_u32 n = (if n < 2 ^ 32 then Returns (word_of_nat n) else Panics)"

definition damage_tile ::
  "bool \<Rightarrow> bytes \<Rightarrow> bytes \<Rightarrow> u64 \<Rightarrow> nat \<Rightarrow> nat \<Rightarrow> nat \<Rightarrow> nat \<Rightarrow> GuiWindowDamage list
     \<Rightarrow> (ProtocolError, GuiWindowDamage list) outcome" where
  "damage_tile resized previous bgra sequence width height y x damages =
     (let tile_height = min TILE_SIDE (height - y); tile_width = min TILE_SIDE (width - x)
      in out_bind (if \<not> resized then tile_matches previous bgra width x y tile_width tile_height
                   else Returns False) (\<lambda>unchanged.
         if unchanged then Returns damages
         else out_bind (cut_tile bgra width x y tile_width tile_height) (\<lambda>tile.
              out_bind (expect_u32 x) (\<lambda>x'.
              out_bind (expect_u32 y) (\<lambda>y'.
              out_bind (expect_u32 tile_width) (\<lambda>w'.
              out_bind (expect_u32 tile_height) (\<lambda>h'.
              Returns (damages @ [\<lparr>gd_sequence = sequence, gd_x = x', gd_y = y', gd_width = w',
                                    gd_height = h', gd_bgra = tile\<rparr>]))))))))"

definition damage_tiles ::
  "bool \<Rightarrow> bytes \<Rightarrow> bytes \<Rightarrow> u64 \<Rightarrow> nat \<Rightarrow> nat \<Rightarrow> (ProtocolError, GuiWindowDamage list) outcome" where
  "damage_tiles resized previous bgra sequence width height =
     for_each (\<lambda>y. for_each (damage_tile resized previous bgra sequence width height y) (tile_starts width))
       (tile_starts height) []"

definition tracker_update ::
  "DamageTracker \<Rightarrow> u32 \<Rightarrow> u32 \<Rightarrow> bytes \<Rightarrow> (ProtocolError, DamageTracker \<times> GuiWindowDamage list) outcome" where
  "tracker_update t width height bgra =
     out_bind (out_of (validate_frame width height bgra)) (\<lambda>(width, height, frame_bytes).
     let resized = (dt_width t \<noteq> width \<or> dt_height t \<noteq> height);
         t = (if resized
              then t\<lparr>dt_width := width, dt_height := height, dt_previous := replicate frame_bytes 0\<rparr>
              else t);
         t = t\<lparr>dt_sequence := (case checked_add (dt_sequence t) 1 of Some n \<Rightarrow> n | None \<Rightarrow> 1)\<rparr>
     in out_bind (damage_tiles resized (dt_previous t) bgra (dt_sequence t) width height) (\<lambda>damages.
        out_bind (if resized \<or> damages \<noteq> [] then copy_from_slice (dt_previous t) bgra
                  else Returns (dt_previous t)) (\<lambda>previous.
        Returns (t\<lparr>dt_previous := previous\<rparr>, damages))))"


section \<open>Lemmas\<close>

lemma validate_frame_ok [ok_iff]:
  "validate_frame width height bgra = Inr (w, h, n) \<longleftrightarrow>
     gui_dimensions_ok width height \<and> w = unat width \<and> h = unat height \<and> n = 4 * (w * h) \<and> length bgra = n"
proof -
  have "validate_frame width height bgra = Inr (w, h, n) \<longleftrightarrow>
      validate_gui_dimensions width height = Inr () \<and> w = unat width \<and> h = unat height
      \<and> n = w * h * 4 \<and> length bgra = n"
    by (auto simp: validate_frame_def validate_gui_dimensions_def Let_def checked_mul_usize_def ok_iff
        split: if_splits)
  then show ?thesis by (auto simp: validate_gui_dimensions_ok mult.commute)
qed

text \<open>Tiles that lie in the frame.\<close>

definition row_bytes :: "nat \<Rightarrow> bytes \<Rightarrow> nat \<Rightarrow> nat \<Rightarrow> nat \<Rightarrow> bytes" where
  "row_bytes W bs x w row = take (w * 4) (drop ((row * W + x) * 4) bs)"

lemma frame_row_slice:
  assumes "row < H" and "x + w \<le> W" and "length bs = 4 * (W * H)"
  shows "slice bs ((row * W + x) * 4) ((row * W + x) * 4 + w * 4) = Returns (row_bytes W bs x w row)"
proof -
  have "row * W + W \<le> H * W" using assms(1) by (metis Suc_leI add.commute mult_Suc mult_le_mono1)
  then have "(row * W + x + w) * 4 \<le> length bs" using assms(2,3) by (simp add: mult.commute)
  then show ?thesis by (simp add: slice_def row_bytes_def algebra_simps)
qed

lemma for_each_append: "for_each f (xs @ ys) s = out_bind (for_each f xs s) (for_each f ys)"
proof (induction xs arbitrary: s)
  case (Cons x xs)
  then show ?case by (cases "f x s") simp_all
qed simp

lemma for_each_cong: "(\<And>x s. x \<in> set xs \<Longrightarrow> f x s = g x s) \<Longrightarrow> for_each f xs s = for_each g xs s"
proof (induction xs arbitrary: s)
  case (Cons x xs)
  then show ?case by (cases "g x s") simp_all
qed simp

lemma for_each_collect:
  "for_each (\<lambda>x acc. Returns (acc @ f x)) xs acc = Returns (acc @ concat (map f xs))"
  by (induction xs arbitrary: acc) simp_all

lemma for_each_product:
  "for_each (\<lambda>y. for_each (f y) xs) ys s = for_each (\<lambda>(y, x). f y x) (List.product ys xs) s"
proof (induction ys arbitrary: s)
  case (Cons y ys)
  have row: "for_each (\<lambda>(y, x). f y x) (map (Pair y) xs) s = for_each (f y) xs s" for s
  proof (induction xs arbitrary: s)
    case (Cons x xs)
    then show ?case by (cases "f y x s") simp_all
  qed simp
  show ?case using Cons by (cases "for_each (f y) xs s") (simp_all add: for_each_append row)
qed simp

lemma cut_tile_in:
  assumes "x + w \<le> W" and "y + h \<le> H" and "length bs = 4 * (W * H)"
  shows "cut_tile bs W x y w h = Returns (concat (map (row_bytes W bs x w) [y..<y + h]))"
proof -
  have "cut_tile bs W x y w h
    = for_each (\<lambda>row tile. Returns (tile @ row_bytes W bs x w row)) [y..<y + h] []"
    unfolding cut_tile_def
  proof (rule for_each_cong)
    fix row and tile :: bytes
    assume "row \<in> set [y..<y + h]"
    then have row: "row < H" using assms(2) by simp
    show "(let start = (row * W + x) * 4 in out_bind (slice bs start (start + w * 4)) (\<lambda>bs. Returns (tile @ bs)))
        = Returns (tile @ row_bytes W bs x w row)"
      by (simp only: Let_def out_bind.simps frame_row_slice [OF row assms(1,3)])
  qed
  then show ?thesis by (simp add: for_each_collect)
qed

lemma tile_matches_in:
  assumes "x + w \<le> W" and "y + h \<le> H" and "length bs = 4 * (W * H)" and "length cs = 4 * (W * H)"
  shows "tile_matches bs cs W x y w h
    = Returns (\<forall>row \<in> set [y..<y + h]. row_bytes W bs x w row = row_bytes W cs x w row)"
  unfolding tile_matches_def
proof (rule for_all_Returns)
  fix row
  assume "row \<in> set [y..<y + h]"
  then have row: "row < H" using assms(2) by simp
  show "(let start = (row * W + x) * 4 in out_bind (slice bs start (start + w * 4)) (\<lambda>a.
      out_bind (slice cs start (start + w * 4)) (\<lambda>b. Returns (a = b))))
    = Returns (row_bytes W bs x w row = row_bytes W cs x w row)"
    by (simp only: Let_def out_bind.simps frame_row_slice [OF row assms(1,3)] frame_row_slice [OF row assms(1,4)])
qed

lemma tile_starts_less: "x \<in> set (tile_starts n) \<Longrightarrow> x < n"
proof -
  assume "x \<in> set (tile_starts n)"
  then obtain k where k: "k < (n + 127) div 128" "x = k * 128" by (auto simp: tile_starts_def TILE_SIDE_def add.commute)
  then have "Suc k * 128 \<le> n + 127" by (metis Suc_leI less_eq_div_iff_mult_less_eq zero_less_numeral)
  with k(2) show ?thesis by simp
qed

lemma tile_starts_cover:
  assumes "i < n"
  shows "\<exists>x \<in> set (tile_starts n). x \<le> i \<and> i < x + min TILE_SIDE (n - x)"
proof
  let ?x = "i div 128 * 128"
  have "i div 128 < (n + 127) div 128" using assms by (simp add: less_eq_div_iff_mult_less_eq Suc_le_eq [symmetric])
  then show "?x \<in> set (tile_starts n)" by (auto simp: tile_starts_def TILE_SIDE_def)
  show "?x \<le> i \<and> i < ?x + min TILE_SIDE (n - ?x)"
    using assms by (simp add: TILE_SIDE_def min_def) linarith
qed

text \<open>The tile that covers a position, and whether it changed.\<close>

definition tile_width :: "nat \<Rightarrow> nat \<Rightarrow> nat" where
  "tile_width n x = min TILE_SIDE (n - x)"

definition tile_damage :: "bytes \<Rightarrow> u64 \<Rightarrow> nat \<Rightarrow> nat \<Rightarrow> nat \<times> nat \<Rightarrow> GuiWindowDamage" where
  "tile_damage bgra sequence W H = (\<lambda>(y, x).
     \<lparr>gd_sequence = sequence, gd_x = word_of_nat x, gd_y = word_of_nat y,
      gd_width = word_of_nat (tile_width W x), gd_height = word_of_nat (tile_width H y),
      gd_bgra = concat (map (row_bytes W bgra x (tile_width W x)) [y..<y + tile_width H y])\<rparr>)"

definition tile_same :: "bytes \<Rightarrow> bytes \<Rightarrow> nat \<Rightarrow> nat \<Rightarrow> nat \<times> nat \<Rightarrow> bool" where
  "tile_same previous bgra W H = (\<lambda>(y, x). \<forall>row \<in> set [y..<y + tile_width H y].
     row_bytes W previous x (tile_width W x) row = row_bytes W bgra x (tile_width W x) row)"

definition frame_tiles :: "nat \<Rightarrow> nat \<Rightarrow> (nat \<times> nat) list" where
  "frame_tiles W H = List.product (tile_starts H) (tile_starts W)"

lemma tile_width_inside: "x < n \<Longrightarrow> 1 \<le> tile_width n x \<and> tile_width n x \<le> 128 \<and> x + tile_width n x \<le> n"
  by (auto simp: tile_width_def TILE_SIDE_def)

lemma expect_u32_small: "n \<le> 8192 \<Longrightarrow> expect_u32 n = Returns (word_of_nat n)"
  by (simp add: expect_u32_def)

lemma damage_tile_in:
  assumes "x < W" "y < H" "W \<le> 8192" "H \<le> 8192" and "length bgra = 4 * (W * H)" "length previous = 4 * (W * H)"
  shows "damage_tile resized previous bgra sequence W H y x acc
    = Returns (if \<not> resized \<and> tile_same previous bgra W H (y, x) then acc
               else acc @ [tile_damage bgra sequence W H (y, x)])"
proof -
  note wx = tile_width_inside [OF assms(1)] and hy = tile_width_inside [OF assms(2)]
  have cut: "cut_tile bgra W x y (tile_width W x) (tile_width H y)
    = Returns (concat (map (row_bytes W bgra x (tile_width W x)) [y..<y + tile_width H y]))"
    using wx hy assms by (intro cut_tile_in) simp_all
  have match: "tile_matches previous bgra W x y (tile_width W x) (tile_width H y)
    = Returns (tile_same previous bgra W H (y, x))"
    unfolding tile_same_def case_prod_conv using wx hy assms by (intro tile_matches_in) simp_all
  have fits: "expect_u32 x = Returns (word_of_nat x)" "expect_u32 y = Returns (word_of_nat y)"
    "expect_u32 (tile_width W x) = Returns (word_of_nat (tile_width W x))"
    "expect_u32 (tile_width H y) = Returns (word_of_nat (tile_width H y))"
    using wx hy assms by (simp_all add: expect_u32_small)
  show ?thesis
    unfolding damage_tile_def tile_width_def [symmetric] Let_def
    by (cases resized; cases "tile_same previous bgra W H (y, x)")
      (simp_all add: match cut fits tile_damage_def)
qed

lemma damage_tiles_in:
  assumes "W \<le> 8192" "H \<le> 8192" and "length bgra = 4 * (W * H)" "length previous = 4 * (W * H)"
  shows "damage_tiles resized previous bgra sequence W H
    = Returns (map (tile_damage bgra sequence W H)
        (filter (\<lambda>t. resized \<or> \<not> tile_same previous bgra W H t) (frame_tiles W H)))"
proof -
  let ?g = "\<lambda>t acc. Returns (acc @ (if \<not> resized \<and> tile_same previous bgra W H t then []
    else [tile_damage bgra sequence W H t]))"
  have "for_each (\<lambda>(y, x). damage_tile resized previous bgra sequence W H y x) (frame_tiles W H) []
      = for_each ?g (frame_tiles W H) []"
  proof (rule for_each_cong)
    fix t acc
    assume "t \<in> set (frame_tiles W H)"
    then obtain y x where "t = (y, x)" "x < W" "y < H"
      by (auto simp: frame_tiles_def dest: tile_starts_less)
    then show "(case t of (y, x) \<Rightarrow> damage_tile resized previous bgra sequence W H y x) acc = ?g t acc"
      using damage_tile_in [of x W y H] assms by simp
  qed
  moreover have "concat (map (\<lambda>t. if \<not> resized \<and> tile_same previous bgra W H t then []
      else [tile_damage bgra sequence W H t]) ts)
    = map (tile_damage bgra sequence W H) (filter (\<lambda>t. resized \<or> \<not> tile_same previous bgra W H t) ts)" for ts
    by (induction ts) auto
  ultimately show ?thesis
    unfolding damage_tiles_def for_each_product frame_tiles_def [symmetric]
    by (simp add: for_each_collect)
qed

end
