(* ===== verification/Frame_Buffer.thy ===== *)
theory Frame_Buffer
  imports Gui_Protocol Rust_Outcome
begin

text \<open>
  The host presenter's picture of a guest window (\<open>presenter/render.rs\<close> of \<open>lswg\<close>): the
  frame buffer that damage is applied to, and its scaled rendering into the host surface.
  Errors are their texts.
\<close>

section \<open>The frame buffer\<close>

type_synonym 'a rendered = "(message, 'a) outcome"

record FrameState =
  fs_ready :: GuiWindowReady
  fs_width :: nat
  fs_height :: nat
  fs_pixels :: "u32 list"
  fs_sequence :: u64

definition frame_state_resize :: "FrameState \<Rightarrow> GuiWindowReady \<Rightarrow> FrameState rendered" where
  "frame_state_resize s ready =
     (if fs_width s \<noteq> 0 \<and> (wr_process_id ready \<noteq> wr_process_id (fs_ready s)
                           \<or> wr_window_id ready \<noteq> wr_window_id (fs_ready s))
      then Fails [Text ''seamless GUI Ready changed its pinned process or HWND identity'']
      else if wr_width ready = 0 \<or> wr_height ready = 0 \<or> wr_width ready > MAX_GUI_WINDOW_DIMENSION
              \<or> wr_height ready > MAX_GUI_WINDOW_DIMENSION
      then Fails [Text ''seamless GUI framebuffer dimensions are invalid'']
      else let width = unat (wr_width ready); height = unat (wr_height ready)
      in out_bind (out_some (Option.bind (checked_mul_usize width height) (\<lambda>pixels. checked_mul_usize pixels 4))
           [Text ''seamless GUI framebuffer size overflowed'']) (\<lambda>bytes.
         if bytes > MAX_GUI_FRAME_BYTES
         then Fails [Text ''seamless GUI framebuffer exceeds the protocol limit'']
         else Returns \<lparr>fs_ready = ready, fs_width = width, fs_height = height,
                       fs_pixels = replicate (width * height) 0, fs_sequence = 0\<rparr>))"

definition frame_state_new :: "GuiWindowReady \<Rightarrow> FrameState rendered" where
  "frame_state_new ready =
     frame_state_resize \<lparr>fs_ready = ready, fs_width = 0, fs_height = 0, fs_pixels = [], fs_sequence = 0\<rparr> ready"

definition apply_pixel ::
  "bytes \<Rightarrow> nat \<Rightarrow> nat \<Rightarrow> nat \<Rightarrow> u32 list \<Rightarrow> u32 list rendered" where
  "apply_pixel bgra source_start destination_start column pixels =
     (let offset = source_start + column * 4
      in out_bind (index bgra offset) (\<lambda>blue.
         out_bind (index bgra (offset + 1)) (\<lambda>green.
         out_bind (index bgra (offset + 2)) (\<lambda>red.
         set_index pixels (destination_start + column)
           ((push_bit 16 (ucast red) OR push_bit 8 (ucast green)) OR ucast blue)))))"

definition apply_row :: "bytes \<Rightarrow> nat \<Rightarrow> nat \<Rightarrow> nat \<Rightarrow> nat \<Rightarrow> nat \<Rightarrow> u32 list \<Rightarrow> u32 list rendered" where
  "apply_row bgra width x y buffer_width row pixels =
     for_each (apply_pixel bgra (row * width * 4) ((y + row) * buffer_width + x)) [0..<width] pixels"

definition frame_state_apply :: "FrameState \<Rightarrow> GuiWindowDamage \<Rightarrow> FrameState rendered" where
  "frame_state_apply s damage =
     (if gd_sequence damage < fs_sequence s
      then Fails [Text ''seamless GUI damage sequence moved backwards'']
      else let x = unat (gd_x damage); y = unat (gd_y damage);
               width = unat (gd_width damage); height = unat (gd_height damage)
      in out_bind (out_some (Option.bind (checked_mul_usize width height) (\<lambda>pixels. checked_mul_usize pixels 4))
           [Text ''seamless GUI damage size overflowed'']) (\<lambda>expected_bytes.
         if length (gd_bgra damage) \<noteq> expected_bytes
         then Fails [Text ''seamless GUI damage payload length is inconsistent'']
         else if (case checked_add_usize x width of None \<Rightarrow> True | Some right \<Rightarrow> right > fs_width s)
                 \<or> (case checked_add_usize y height of None \<Rightarrow> True | Some bottom \<Rightarrow> bottom > fs_height s)
         then Fails [Text ''seamless GUI damage lies outside the current window'']
         else out_bind (for_each (apply_row (gd_bgra damage) width x y (fs_width s)) [0..<height] (fs_pixels s)) (\<lambda>pixels.
              Returns (s\<lparr>fs_pixels := pixels, fs_sequence := gd_sequence damage\<rparr>))))"


section \<open>Rendering\<close>

record Viewport =
  vp_x :: u32
  vp_y :: u32
  vp_width :: u32
  vp_height :: u32

definition u32_or_max :: "u64 \<Rightarrow> u32" where
  "u32_or_max n = (if unat n < 2 ^ 32 then ucast n else - 1)"

definition fit_viewport :: "u32 \<times> u32 \<Rightarrow> u32 \<times> u32 \<Rightarrow> Viewport" where
  "fit_viewport window guest =
     (let window_width = max (fst window) 1; window_height = max (snd window) 1;
          guest_width = max (fst guest) 1; guest_height = max (snd guest) 1;
          (width, height) =
            (if (ucast window_width :: u64) * ucast guest_height \<le> ucast window_height * ucast guest_width
             then (let height = max (ucast guest_height * ucast window_width div ucast guest_width) (1 :: u64)
                   in (window_width, u32_or_max height))
             else (let width = max (ucast guest_width * ucast window_height div ucast guest_height) (1 :: u64)
                   in (u32_or_max width, window_height)))
      in \<lparr>vp_x = saturating_sub window_width width div 2, vp_y = saturating_sub window_height height div 2,
          vp_width = width, vp_height = height\<rparr>)"

definition saturating_mul_usize :: "nat \<Rightarrow> nat \<Rightarrow> nat" where
  "saturating_mul_usize a b = min (a * b) (usize_limit - 1)"

definition render_pixel ::
  "FrameState \<Rightarrow> nat \<Rightarrow> nat \<Rightarrow> nat \<Rightarrow> nat \<Rightarrow> u32 list \<Rightarrow> u32 list rendered" where
  "render_pixel s viewport_width source_y destination_start local_x destination =
     (let source_x = saturating_mul_usize local_x (fs_width s) div viewport_width
      in out_bind (index (fs_pixels s) (source_y * fs_width s + source_x)) (\<lambda>pixel.
         set_index destination (destination_start + local_x) pixel))"

definition render_row ::
  "FrameState \<Rightarrow> nat \<Rightarrow> nat \<Rightarrow> nat \<Rightarrow> nat \<Rightarrow> nat \<Rightarrow> nat \<Rightarrow> u32 list \<Rightarrow> u32 list rendered" where
  "render_row s width viewport_x viewport_y viewport_width viewport_height local_y destination =
     (let source_y = saturating_mul_usize local_y (fs_height s) div viewport_height;
          destination_start = (viewport_y + local_y) * width + viewport_x
      in out_bind (slice destination destination_start (destination_start + viewport_width)) (\<lambda>_.
         for_each (render_pixel s viewport_width source_y destination_start) [0..<viewport_width] destination))"

definition render_scaled :: "FrameState \<Rightarrow> nat \<Rightarrow> nat \<Rightarrow> u32 list \<Rightarrow> u32 list rendered" where
  "render_scaled s width height destination =
     out_bind (out_some (checked_mul_usize width height) [Text ''Wayland render buffer size overflowed'']) (\<lambda>expected.
     if length destination \<noteq> expected \<or> fs_width s = 0 \<or> fs_height s = 0
     then Fails [Text ''Wayland render buffer dimensions are inconsistent'']
     else if 2 ^ 32 \<le> width \<or> 2 ^ 32 \<le> height
     then Fails [Text ''out of range integral type conversion attempted'']
     else let viewport = fit_viewport (word_of_nat width, word_of_nat height)
                (wr_width (fs_ready s), wr_height (fs_ready s));
              viewport_x = unat (vp_x viewport); viewport_y = unat (vp_y viewport);
              viewport_width = unat (vp_width viewport); viewport_height = unat (vp_height viewport)
          in if viewport_x = 0 \<and> viewport_y = 0 \<and> viewport_width = fs_width s \<and> viewport_height = fs_height s
             then copy_from_slice destination (fs_pixels s)
             else for_each (render_row s width viewport_x viewport_y viewport_width viewport_height)
                    [0..<viewport_height] (replicate (length destination) 0))"

datatype ResizeDirection = NorthWest | North | NorthEast | East | SouthEast | South | SouthWest | West

primrec host_resize_direction :: "GuiWindowAction \<Rightarrow> ResizeDirection option" where
  "host_resize_direction ResizeTopLeft = Some NorthWest"
| "host_resize_direction ResizeTop = Some North"
| "host_resize_direction ResizeTopRight = Some NorthEast"
| "host_resize_direction ResizeRight = Some East"
| "host_resize_direction ResizeBottomRight = Some SouthEast"
| "host_resize_direction ResizeBottom = Some South"
| "host_resize_direction ResizeBottomLeft = Some SouthWest"
| "host_resize_direction ResizeLeft = Some West"
| "host_resize_direction Move = None"
| "host_resize_direction Minimize = None"
| "host_resize_direction Maximize = None"
| "host_resize_direction Restore = None"
| "host_resize_direction Close = None"


section \<open>Lemmas\<close>

text \<open>Cells of a grid, row by row.\<close>

lemma cell_less: "i < w \<Longrightarrow> j < h \<Longrightarrow> j * w + i < w * (h :: nat)"
proof -
  assume "i < w" "j < h"
  then have "j * w + i < (j + 1) * w" by simp
  also have "\<dots> \<le> h * w" using \<open>j < h\<close> by (intro mult_le_mono) simp_all
  finally show ?thesis by (simp add: mult.commute)
qed

lemma cell_eq_iff:
  assumes "i < w" and "i' < w"
  shows "j * w + i = j' * w + i' \<longleftrightarrow> j = j' \<and> i = (i' :: nat)"
proof
  assume eq: "j * w + i = j' * w + i'"
  have "(j * w + i) div w = j" "(j' * w + i') div w = j'" using assms by simp_all
  with eq have "j = j'" by simp
  with eq show "j = j' \<and> i = i'" by simp
qed simp

text \<open>The colour of the \<open>k\<close>-th pixel of BGRA bytes.\<close>

definition bgra_pixel :: "bytes \<Rightarrow> nat \<Rightarrow> u32" where
  "bgra_pixel bs k = ((push_bit 16 (ucast (bs ! (k * 4 + 2))) OR push_bit 8 (ucast (bs ! (k * 4 + 1))))
     OR ucast (bs ! (k * 4)))"

lemma pixel_bytes_in: "k < n \<Longrightarrow> k * 4 + 3 < 4 * (n :: nat)"
  by simp

lemma apply_pixel_in:
  assumes "(row * width + column) * 4 + 3 < length bgra" and "start + column < length ps"
  shows "apply_pixel bgra (row * width * 4) start column ps
    = Returns (ps[start + column := bgra_pixel bgra (row * width + column)])"
proof -
  have o: "row * width * 4 + column * 4 = (row * width + column) * 4" by (simp only: distrib_right)
  have in_range: "(row * width + column) * 4 < length bgra" "(row * width + column) * 4 + 1 < length bgra"
    "(row * width + column) * 4 + 2 < length bgra" using assms(1) by linarith+
  show ?thesis
    unfolding apply_pixel_def Let_def o bgra_pixel_def
    by (simp only: index_in [OF in_range(1)] index_in [OF in_range(2)] index_in [OF in_range(3)]
        out_bind.simps set_index_in [OF assms(2)])
qed

text \<open>A picture of \<open>w\<close> by \<open>h\<close> pixels, seen by column and row.\<close>

definition pixel_at :: "nat \<Rightarrow> u32 list \<Rightarrow> nat \<Rightarrow> nat \<Rightarrow> u32" where
  "pixel_at w ps i j = ps ! (j * w + i)"

text \<open>
  A loop that paints a row, and a loop that paints a block row by row: \<open>v c r\<close> is the colour of
  column \<open>c\<close> and row \<open>r\<close> of the block, and the rest of the picture stays.
\<close>

definition painted ::
  "nat \<Rightarrow> nat \<Rightarrow> nat \<Rightarrow> nat \<Rightarrow> (nat \<Rightarrow> nat \<Rightarrow> u32) \<Rightarrow> (nat \<Rightarrow> nat \<Rightarrow> u32) \<Rightarrow> nat \<Rightarrow> nat \<Rightarrow> u32" where
  "painted x y width height v picture i j =
     (if x \<le> i \<and> i < x + width \<and> y \<le> j \<and> j < y + height then v (i - x) (j - y) else picture i j)"

definition shows_picture :: "nat \<Rightarrow> nat \<Rightarrow> u32 list \<Rightarrow> (nat \<Rightarrow> nat \<Rightarrow> u32) \<Rightarrow> bool" where
  "shows_picture W H ps picture \<longleftrightarrow> length ps = W * H \<and> (\<forall>i < W. \<forall>j < H. pixel_at W ps i j = picture i j)"

lemma paint_cell:
  assumes "x + c < W" and "j < H" and qs: "shows_picture W H qs (painted x j c 1 v picture)"
  shows "shows_picture W H (qs[j * W + x + c := v c 0]) (painted x j (Suc c) 1 v picture)"
proof -
  define p where "p = j * W + x + c"
  have p: "p = j * W + (x + c)" by (simp add: p_def)
  have "p < W * H" unfolding p using assms(1,2) by (intro cell_less) simp_all
  then have dest: "p < length qs" using qs by (simp add: shows_picture_def)
  have "pixel_at W (qs[p := v c 0]) i k = painted x j (Suc c) 1 v picture i k" if ik: "i < W" "k < H" for i k
  proof (cases "k = j \<and> i = x + c")
    case True
    then have "pixel_at W (qs[p := v c 0]) i k = v c 0"
      using dest by (simp only: pixel_at_def p [symmetric] nth_list_update_eq)
    with True show ?thesis by (simp add: painted_def)
  next
    case False
    have "p \<noteq> k * W + i" unfolding p using cell_eq_iff [of "x + c" W i j k] False ik assms(1) by linarith
    then have "pixel_at W (qs[p := v c 0]) i k = painted x j c 1 v picture i k"
      using qs ik by (simp add: pixel_at_def shows_picture_def)
    with False show ?thesis by (auto simp: painted_def less_Suc_eq)
  qed
  with qs show ?thesis unfolding p_def shows_picture_def by simp
qed

lemma paint_row:
  assumes cell: "\<And>c qs. c < width \<Longrightarrow> length qs = W * H \<Longrightarrow> f c qs = Returns (qs[j * W + x + c := v c 0])"
    and "x + width \<le> W" and "j < H" and "shows_picture W H ps picture"
  shows "\<exists>ps'. for_each f [0..<width] ps = Returns ps' \<and> shows_picture W H ps' (painted x j width 1 v picture)"
proof (rule for_range_invariant [where I = "\<lambda>c ps'. shows_picture W H ps' (painted x j c 1 v picture)"])
  show "shows_picture W H ps (painted x j 0 1 v picture)"
    using assms(4) by (auto simp: shows_picture_def painted_def)
next
  fix c qs
  assume c: "c < width" and qs: "shows_picture W H qs (painted x j c 1 v picture)"
  from c assms(2) have "x + c < W" by simp
  from paint_cell [OF this assms(3) qs] cell [OF c] qs
  show "\<exists>s'. f c qs = Returns s' \<and> shows_picture W H s' (painted x j (Suc c) 1 v picture)"
    by (simp add: shows_picture_def)
qed simp

lemma painted_rows:
  "painted x (y + r) width 1 (\<lambda>c _. v c r) (painted x y width r v picture) = painted x y width (Suc r) v picture"
  by (auto simp: fun_eq_iff painted_def less_Suc_eq)

lemma paint_block:
  assumes row: "\<And>r qs p. r < height \<Longrightarrow> shows_picture W H qs p \<Longrightarrow>
      \<exists>qs'. g r qs = Returns qs' \<and> shows_picture W H qs' (painted x (y + r) width 1 (\<lambda>c _. v c r) p)"
    and "shows_picture W H ps picture"
  shows "\<exists>ps'. for_each g [0..<height] ps = Returns ps' \<and> shows_picture W H ps' (painted x y width height v picture)"
proof (rule for_range_invariant [where I = "\<lambda>r ps'. shows_picture W H ps' (painted x y width r v picture)"])
  show "shows_picture W H ps (painted x y width 0 v picture)"
    using assms(2) by (auto simp: shows_picture_def painted_def)
next
  fix r qs
  assume "r < height" and "shows_picture W H qs (painted x y width r v picture)"
  from row [OF this] show "\<exists>s'. g r qs = Returns s' \<and> shows_picture W H s' (painted x y width (Suc r) v picture)"
    by (simp only: painted_rows)
qed simp

definition damaged_pixels ::
  "nat \<Rightarrow> nat \<Rightarrow> nat \<Rightarrow> nat \<Rightarrow> bytes \<Rightarrow> (nat \<Rightarrow> nat \<Rightarrow> u32) \<Rightarrow> nat \<Rightarrow> nat \<Rightarrow> u32" where
  "damaged_pixels x y width height bgra =
     painted x y width height (\<lambda>c r. bgra_pixel bgra (r * width + c))"

lemma apply_row_in:
  assumes "x + width \<le> W" and "y + row < H" and "row < height"
    and "length bgra = 4 * (width * height)" and "shows_picture W H ps picture"
  shows "\<exists>ps'. apply_row bgra width x y W row ps = Returns ps'
    \<and> shows_picture W H ps' (painted x (y + row) width 1 (\<lambda>c _. bgra_pixel bgra (row * width + c)) picture)"
  unfolding apply_row_def
proof (rule paint_row)
  fix c and qs :: "u32 list"
  assume c: "c < width" and "length qs = W * H"
  have "row * width + c < width * height" using c assms(3) by (rule cell_less)
  then have source: "(row * width + c) * 4 + 3 < length bgra"
    unfolding assms(4) by (rule pixel_bytes_in)
  have "(y + row) * W + (x + c) < W * H" using c assms(1,2) by (intro cell_less) simp_all
  then have "(y + row) * W + x + c < length qs" using \<open>length qs = _\<close> by (simp only: add.assoc)
  from apply_pixel_in [OF source this]
  show "apply_pixel bgra (row * width * 4) ((y + row) * W + x) c qs
      = Returns (qs[(y + row) * W + x + c := bgra_pixel bgra (row * width + c)])" .
qed (use assms in auto)

lemma apply_rows_in:
  assumes "x + width \<le> W" and "y + height \<le> H"
    and "length bgra = 4 * (width * height)" and "shows_picture W H ps picture"
  shows "\<exists>ps'. for_each (apply_row bgra width x y W) [0..<height] ps = Returns ps'
    \<and> shows_picture W H ps' (damaged_pixels x y width height bgra picture)"
  unfolding damaged_pixels_def
proof (rule paint_block [OF _ assms(4)])
  fix r qs p
  assume "r < height" and qs: "shows_picture W H qs p"
  with assms(2) have "y + r < H" by simp
  from apply_row_in [OF assms(1) this \<open>r < height\<close> assms(3) qs]
  show "\<exists>qs'. apply_row bgra width x y W r qs = Returns qs'
    \<and> shows_picture W H qs' (painted x (y + r) width 1 (\<lambda>c _. bgra_pixel bgra (r * width + c)) p)" .
qed

text \<open>The invariant of the frame buffer.\<close>

definition frame_state_wf :: "FrameState \<Rightarrow> bool" where
  "frame_state_wf s \<longleftrightarrow> gui_dimensions_ok (wr_width (fs_ready s)) (wr_height (fs_ready s))
     \<and> fs_width s = unat (wr_width (fs_ready s)) \<and> fs_height s = unat (wr_height (fs_ready s))
     \<and> length (fs_pixels s) = fs_width s * fs_height s"

definition frame_pixel :: "FrameState \<Rightarrow> nat \<Rightarrow> nat \<Rightarrow> u32" where
  "frame_pixel s = pixel_at (fs_width s) (fs_pixels s)"

lemma frame_state_resize_Returns:
  assumes "frame_state_resize s ready = Returns s'"
  shows "frame_state_wf s' \<and> fs_ready s' = ready \<and> fs_sequence s' = 0"
proof -
  have "validate_gui_dimensions (wr_width ready) (wr_height ready) = Inr ()"
    using assms by (auto simp: frame_state_resize_def validate_gui_dimensions_def Let_def split: if_splits)
  then show ?thesis
    using assms by (auto simp: frame_state_resize_def frame_state_wf_def validate_gui_dimensions_ok Let_def
        split: if_splits)
qed

lemma damage_fits_usize:
  "unat (a :: u32) * unat (b :: u32) < 2 ^ 64"
proof -
  have "unat a < 2 ^ 32" "unat b < 2 ^ 32" using unsigned_less [of a, where 'a = nat]
    unsigned_less [of b, where 'a = nat] by simp_all
  then have "unat a * unat b < 2 ^ 32 * 2 ^ 32" by (intro mult_strict_mono) simp_all
  then show ?thesis by simp
qed

text \<open>Where damage is accepted.\<close>

definition damage_fits :: "FrameState \<Rightarrow> GuiWindowDamage \<Rightarrow> bool" where
  "damage_fits s d \<longleftrightarrow> fs_sequence s \<le> gd_sequence d
     \<and> length (gd_bgra d) = 4 * (unat (gd_width d) * unat (gd_height d))
     \<and> unat (gd_x d) + unat (gd_width d) \<le> fs_width s \<and> unat (gd_y d) + unat (gd_height d) \<le> fs_height s"

lemma checked_add_usize_u32 [simp]:
  "checked_add_usize (unat (a :: u32)) (unat (b :: u32)) = Some (unat a + unat b)"
  using unsigned_less [of a, where 'a = nat] unsigned_less [of b, where 'a = nat]
  by (simp add: checked_add_usize_def usize_limit_def)

lemma frame_state_apply_cases:
  assumes "frame_state_wf s"
  shows "if damage_fits s d
    then \<exists>s'. frame_state_apply s d = Returns s' \<and> frame_state_wf s' \<and> fs_ready s' = fs_ready s
      \<and> fs_sequence s' = gd_sequence d
      \<and> (\<forall>i < fs_width s. \<forall>j < fs_height s. frame_pixel s' i j
          = damaged_pixels (unat (gd_x d)) (unat (gd_y d)) (unat (gd_width d)) (unat (gd_height d)) (gd_bgra d)
              (frame_pixel s) i j)
    else \<exists>e. frame_state_apply s d = Fails e"
proof (cases "damage_fits s d")
  case False
  then show ?thesis
    using damage_fits_usize [of "gd_width d" "gd_height d"]
    by (auto simp: frame_state_apply_def damage_fits_def Let_def out_some_def checked_mul_usize_def not_le not_less
        mult.commute split: option.splits)
next
  case True
  let ?x = "unat (gd_x d)" and ?y = "unat (gd_y d)" and ?w = "unat (gd_width d)" and ?h = "unat (gd_height d)"
  have "shows_picture (fs_width s) (fs_height s) (fs_pixels s) (frame_pixel s)"
    using assms by (simp add: shows_picture_def frame_state_wf_def frame_pixel_def)
  with True obtain ps where
    ps: "for_each (apply_row (gd_bgra d) ?w ?x ?y (fs_width s)) [0..<?h] (fs_pixels s) = (Returns ps :: u32 list rendered)"
      "shows_picture (fs_width s) (fs_height s) ps (damaged_pixels ?x ?y ?w ?h (gd_bgra d) (frame_pixel s))"
    using apply_rows_in [of ?x ?w "fs_width s" ?y ?h "fs_height s" "gd_bgra d" "fs_pixels s" "frame_pixel s"]
    by (auto simp: damage_fits_def)
  have "?w * ?h \<le> fs_width s * fs_height s" using True by (intro mult_le_mono) (simp_all add: damage_fits_def)
  also have "\<dots> \<le> 8192 * 8192"
    using assms by (intro mult_le_mono) (simp_all add: frame_state_wf_def gui_dimensions_ok_def)
  finally have "?w * ?h \<le> 8192 * 8192" .
  moreover have "(8192::nat) * 8192 * 4 < usize_limit" by (simp add: usize_limit_def)
  ultimately have "?w * ?h < usize_limit" "?w * ?h * 4 < usize_limit" by linarith+
  then have area: "checked_mul_usize ?w ?h = Some (?w * ?h)" "checked_mul_usize (?w * ?h) 4 = Some (?w * ?h * 4)"
    by (simp_all only: checked_mul_usize_def if_True)
  have "frame_state_apply s d = Returns (s\<lparr>fs_pixels := ps, fs_sequence := gd_sequence d\<rparr>)"
    using True ps(1) by (simp add: frame_state_apply_def damage_fits_def area Let_def out_some_def not_less)
  with True ps assms show ?thesis by (simp add: frame_state_wf_def frame_pixel_def shows_picture_def)
qed

text \<open>The viewport.\<close>

lemma unat_ucast_u64 [simp]: "unat (ucast (w :: u32) :: u64) = unat w"
  using unsigned_less [of w, where 'a = nat] by (simp add: unsigned_ucast_eq take_bit_nat_eq_self)

lemma unat_mult_u32: "unat ((ucast (a :: u32) :: u64) * ucast (b :: u32)) = unat a * unat b"
  using damage_fits_usize [of a b] by (simp add: unat_word_ariths)

lemma unat_max_1: "unat (max (w :: 'a::len word) 1) = max (unat w) 1"
  by (simp add: max_def word_le_nat_alt)

lemma unat_u32_or_max: "unat n < 2 ^ 32 \<Longrightarrow> unat (u32_or_max n) = unat n"
  by (simp add: u32_or_max_def unsigned_ucast_eq take_bit_nat_eq_self)

lemma div_fits:
  assumes "a * g \<le> b * c" and "0 < c"
  shows "a * g div c \<le> (b :: nat)"
  using assms by (metis div_le_mono nonzero_mult_div_cancel_right not_gr_zero)

definition viewport_inside :: "nat \<Rightarrow> nat \<Rightarrow> Viewport \<Rightarrow> bool" where
  "viewport_inside width height v \<longleftrightarrow> 1 \<le> unat (vp_width v) \<and> 1 \<le> unat (vp_height v)
     \<and> unat (vp_x v) + unat (vp_width v) \<le> width \<and> unat (vp_y v) + unat (vp_height v) \<le> height"

lemma unat_saturating_sub_half:
  "w \<le> (ww :: u32) \<Longrightarrow> unat (saturating_sub ww w div 2) = (unat ww - unat w) div 2"
  by (simp add: saturating_sub_def unat_div unat_sub)

lemma fit_viewport_inside:
  fixes ww wh gw gh :: u32
  assumes "1 \<le> unat ww" "1 \<le> unat wh" "1 \<le> unat gw" "1 \<le> unat gh"
  shows "viewport_inside (unat ww) (unat wh) (fit_viewport (ww, wh) (gw, gh))"
proof -
  have m: "max ww 1 = ww" "max wh 1 = wh" "max gw 1 = gw" "max gh 1 = gh"
    using assms by (simp_all add: max_absorb1 word_le_nat_alt)
  have le: "(ucast ww :: u64) * ucast gh \<le> ucast wh * ucast gw \<longleftrightarrow> unat ww * unat gh \<le> unat wh * unat gw"
    by (simp add: word_le_nat_alt unat_mult_u32)
  show ?thesis
  proof (cases "unat ww * unat gh \<le> unat wh * unat gw")
    case True
    let ?h = "max (ucast gh * ucast ww div ucast gw) (1 :: u64)"
    have h: "unat ?h = max (unat gh * unat ww div unat gw) 1"
      by (simp add: unat_max_1 unat_div unat_mult_u32)
    have "unat gh * unat ww div unat gw \<le> unat wh"
      using True assms by (intro div_fits) (simp_all add: mult.commute)
    then have bound: "unat ?h \<le> unat wh" using h assms by simp
    then have u: "unat (u32_or_max ?h) = unat ?h"
      using unsigned_less [of wh, where 'a = nat] by (intro unat_u32_or_max) simp
    then have "u32_or_max ?h \<le> wh" using bound by (simp add: word_le_nat_alt)
    with True u h bound assms show ?thesis
      by (simp add: fit_viewport_def m le Let_def viewport_inside_def unat_saturating_sub_half)
  next
    case False
    let ?w = "max (ucast gw * ucast wh div ucast gh) (1 :: u64)"
    have w: "unat ?w = max (unat gw * unat wh div unat gh) 1"
      by (simp add: unat_max_1 unat_div unat_mult_u32)
    have "unat gw * unat wh div unat gh \<le> unat ww"
      using False assms by (intro div_fits) (simp_all add: mult.commute)
    then have bound: "unat ?w \<le> unat ww" using w assms by simp
    then have u: "unat (u32_or_max ?w) = unat ?w"
      using unsigned_less [of ww, where 'a = nat] by (intro unat_u32_or_max) simp
    then have "u32_or_max ?w \<le> ww" using bound by (simp add: word_le_nat_alt)
    with False u w bound assms show ?thesis
      by (simp add: fit_viewport_def m le Let_def viewport_inside_def unat_saturating_sub_half)
  qed
qed

text \<open>Rendering.\<close>

lemma scaled_source_in:
  assumes "i < v" and "0 < n" and "v < 2 ^ 32" and "n \<le> 8192"
  shows "saturating_mul_usize i n div v < n"
proof -
  have "i * n \<le> 2 ^ 32 * 8192" using assms by (intro mult_le_mono) simp_all
  then have "saturating_mul_usize i n = i * n" by (simp add: saturating_mul_usize_def usize_limit_def)
  moreover have "i * n < n * v" using assms by simp
  ultimately show ?thesis using assms(1) by (simp add: less_mult_imp_div_less)
qed

text \<open>The picture the viewport shows: the nearest source pixel of each of its cells.\<close>

definition scaled_pixel :: "FrameState \<Rightarrow> nat \<Rightarrow> nat \<Rightarrow> nat \<Rightarrow> nat \<Rightarrow> u32" where
  "scaled_pixel s vw vh c r =
     frame_pixel s (saturating_mul_usize c (fs_width s) div vw) (saturating_mul_usize r (fs_height s) div vh)"

lemma row_slice_in:
  assumes "j < H" and "x + w \<le> W" and "length ps = W * (H :: nat)"
  shows "\<exists>bs. slice ps (j * W + x) (j * W + x + w) = Returns bs"
proof -
  have "j * W + W = Suc j * W" by simp
  also have "\<dots> \<le> H * W" using assms(1) by (intro mult_le_mono) simp_all
  finally have "j * W + W \<le> length ps" using assms(3) by (simp add: mult.commute)
  then show ?thesis using assms(2) by (simp add: slice_def)
qed

lemma render_row_in:
  assumes wf: "frame_state_wf s" and vw: "vx + vw \<le> W" "vw < 2 ^ 32" and row: "vy + r < H" "r < vh" "vh < 2 ^ 32"
    and ps: "shows_picture W H ps picture"
  shows "\<exists>ps'. render_row s W vx vy vw vh r ps = Returns ps'
    \<and> shows_picture W H ps' (painted vx (vy + r) vw 1 (\<lambda>c _. scaled_pixel s vw vh c r) picture)"
proof -
  let ?sy = "saturating_mul_usize r (fs_height s) div vh" and ?d = "(vy + r) * W + vx"
  note dims = wf [unfolded frame_state_wf_def gui_dimensions_ok_def]
  have sy: "?sy < fs_height s" using row dims by (intro scaled_source_in) simp_all
  have "\<exists>ps'. for_each (render_pixel s vw ?sy ?d) [0..<vw] ps = Returns ps'
    \<and> shows_picture W H ps' (painted vx (vy + r) vw 1 (\<lambda>c _. scaled_pixel s vw vh c r) picture)"
  proof (rule paint_row)
    fix c and qs :: "u32 list"
    assume c: "c < vw" and qs: "length qs = W * H"
    let ?sx = "saturating_mul_usize c (fs_width s) div vw"
    have sx: "?sx < fs_width s" using c vw dims by (intro scaled_source_in) simp_all
    have "(vy + r) * W + (vx + c) < W * H" using c vw row by (intro cell_less) simp_all
    then have "?d + c < length qs" using qs by (simp only: add.assoc)
    moreover have "?sy * fs_width s + ?sx < length (fs_pixels s)" using cell_less [OF sx sy] dims by simp
    ultimately show "render_pixel s vw ?sy ?d c qs = Returns (qs[?d + c := scaled_pixel s vw vh c r])"
      unfolding render_pixel_def Let_def scaled_pixel_def frame_pixel_def pixel_at_def
      by (simp only: index_in set_index_in out_bind.simps)
  qed (use vw row ps in auto)
  moreover obtain bs where "slice ps ?d (?d + vw) = (Returns bs :: u32 list rendered)"
    using row_slice_in [OF row(1) vw(1)] ps unfolding shows_picture_def by blast
  ultimately show ?thesis by (simp add: render_row_def Let_def)
qed

definition viewport_of :: "FrameState \<Rightarrow> nat \<Rightarrow> nat \<Rightarrow> Viewport" where
  "viewport_of s width height =
     fit_viewport (word_of_nat width, word_of_nat height) (wr_width (fs_ready s), wr_height (fs_ready s))"

text \<open>The viewport has the size of the frame and lies in the corner: the case of the plain copy.\<close>

definition viewport_is_frame :: "FrameState \<Rightarrow> nat \<Rightarrow> nat \<Rightarrow> bool" where
  "viewport_is_frame s width height \<longleftrightarrow>
     (let v = viewport_of s width height
      in unat (vp_x v) = 0 \<and> unat (vp_y v) = 0 \<and> unat (vp_width v) = fs_width s \<and> unat (vp_height v) = fs_height s)"

lemma render_scaled_unfold:
  assumes "frame_state_wf s" and "width * height < usize_limit" and "length ps = width * height"
    and "width < 2 ^ 32" and "height < 2 ^ 32"
  shows "render_scaled s width height ps =
    (if viewport_is_frame s width height then copy_from_slice ps (fs_pixels s)
     else let v = viewport_of s width height
       in for_each (render_row s width (unat (vp_x v)) (unat (vp_y v)) (unat (vp_width v)) (unat (vp_height v)))
            [0..<unat (vp_height v)] (replicate (length ps) 0))"
  using assms
  by (simp add: render_scaled_def viewport_is_frame_def viewport_of_def Let_def checked_mul_usize_def
      out_some_def frame_state_wf_def gui_dimensions_ok_def)

lemma viewport_of_inside:
  assumes "frame_state_wf s" and "1 \<le> width" "width < 2 ^ 32" and "1 \<le> height" "height < 2 ^ 32"
  shows "viewport_inside width height (viewport_of s width height)"
  using fit_viewport_inside [of "word_of_nat width" "word_of_nat height" "wr_width (fs_ready s)" "wr_height (fs_ready s)"]
    assms by (simp add: viewport_of_def unat_word_of_nat_less frame_state_wf_def gui_dimensions_ok_def)

lemma scaled_pixel_identity:
  assumes "frame_state_wf s" and "c < fs_width s" and "r < fs_height s"
  shows "scaled_pixel s (fs_width s) (fs_height s) c r = frame_pixel s c r"
proof -
  have small: "fs_width s \<le> 8192" "fs_height s \<le> 8192"
    using assms(1) by (simp_all add: frame_state_wf_def gui_dimensions_ok_def)
  have "saturating_mul_usize a n div n = a" if "a < n" "n \<le> 8192" for a n
  proof -
    have "a * n \<le> 8192 * 8192" using that by (intro mult_le_mono) simp_all
    then have "saturating_mul_usize a n = a * n" by (simp add: saturating_mul_usize_def usize_limit_def)
    with that show ?thesis by simp
  qed
  with assms small show ?thesis by (simp add: scaled_pixel_def)
qed

lemma render_scaled_viewport:
  assumes wf: "frame_state_wf s" and size: "width * height < usize_limit" "length ps = width * height"
      "1 \<le> width" "width < 2 ^ 32" "1 \<le> height" "height < 2 ^ 32"
    and not_frame: "\<not> viewport_is_frame s width height"
    and v: "v = viewport_of s width height"
  shows "\<exists>ps'. render_scaled s width height ps = Returns ps'
    \<and> shows_picture width height ps' (painted (unat (vp_x v)) (unat (vp_y v)) (unat (vp_width v)) (unat (vp_height v))
        (scaled_pixel s (unat (vp_width v)) (unat (vp_height v))) (\<lambda>_ _. 0))"
proof -
  have inside: "unat (vp_x v) + unat (vp_width v) \<le> width" "unat (vp_y v) + unat (vp_height v) \<le> height"
    using viewport_of_inside [OF wf size(3-6)] v by (simp_all add: viewport_inside_def)
  have black: "shows_picture width height (replicate (length ps) 0) (\<lambda>_ _. 0)"
    using size(2) cell_less by (auto simp: shows_picture_def pixel_at_def)
  have lt: "unat (vp_width v) < 2 ^ 32" "unat (vp_height v) < 2 ^ 32" using inside size by linarith+
  have "\<exists>ps'. for_each (render_row s width (unat (vp_x v)) (unat (vp_y v)) (unat (vp_width v)) (unat (vp_height v)))
        [0..<unat (vp_height v)] (replicate (length ps) 0) = Returns ps'
    \<and> shows_picture width height ps' (painted (unat (vp_x v)) (unat (vp_y v)) (unat (vp_width v)) (unat (vp_height v))
        (scaled_pixel s (unat (vp_width v)) (unat (vp_height v))) (\<lambda>_ _. 0))"
  proof (rule paint_block [OF _ black])
    fix r qs p
    assume r: "r < unat (vp_height v)" and qs: "shows_picture width height qs p"
    from r inside(2) have "unat (vp_y v) + r < height" by simp
    from render_row_in [OF wf inside(1) lt(1) this r lt(2) qs]
    show "\<exists>qs'. render_row s width (unat (vp_x v)) (unat (vp_y v)) (unat (vp_width v)) (unat (vp_height v)) r qs
        = Returns qs' \<and> shows_picture width height qs' (painted (unat (vp_x v)) (unat (vp_y v) + r) (unat (vp_width v)) 1
          (\<lambda>c _. scaled_pixel s (unat (vp_width v)) (unat (vp_height v)) c r) p)" .
  qed
  then show ?thesis
    using render_scaled_unfold [OF wf size(1,2,4,6)] not_frame v by (simp add: Let_def)
qed

lemma fit_viewport_one_wider:
  fixes ww gw gh :: u32
  assumes ww: "unat ww = unat gw + 1" and pos: "1 \<le> unat gw" "1 \<le> unat gh"
  shows "fit_viewport (ww, gh) (gw, gh) = \<lparr>vp_x = 0, vp_y = 0, vp_width = gw, vp_height = gh\<rparr>"
proof -
  have m: "max ww 1 = ww" "max gh 1 = gh" "max gw 1 = gw"
    using ww pos by (simp_all add: max_absorb1 word_le_nat_alt)
  have wider: "\<not> (ucast ww :: u64) * ucast gh \<le> ucast gh * ucast gw"
    unfolding word_le_nat_alt unat_mult_u32 ww using pos by (simp add: algebra_simps)
  let ?w = "max (ucast gw * ucast gh div ucast gh) (1 :: u64)"
  have "unat (ucast gw * ucast gh div ucast gh :: u64) = unat gw"
    using pos by (simp add: unat_div unat_mult_u32)
  then have w: "unat ?w = unat gw" using pos by (simp add: unat_max_1)
  then have "unat (u32_or_max ?w) = unat gw"
    using unsigned_less [of gw, where 'a = nat] by (subst unat_u32_or_max) simp_all
  then have u: "u32_or_max ?w = gw" by (rule unsigned_word_eqI)
  have "gw \<le> ww" using ww by (simp add: word_le_nat_alt)
  from unat_saturating_sub_half [OF this] have "unat (saturating_sub ww gw div 2) = unat (0 :: u32)"
    using ww by simp
  then have x: "saturating_sub ww gw div 2 = 0" by (rule unsigned_word_eqI)
  show ?thesis
    unfolding fit_viewport_def fst_conv snd_conv Let_def m
    using wider u x by (simp add: saturating_sub_def)
qed

lemma viewport_one_wider:
  assumes "frame_state_wf s"
  shows "viewport_is_frame s (fs_width s + 1) (fs_height s)"
proof -
  note dims = assms [unfolded frame_state_wf_def gui_dimensions_ok_def]
  have "unat (word_of_nat (fs_width s + 1) :: u32) = unat (wr_width (fs_ready s)) + 1"
    using dims by (subst unat_word_of_nat_less) simp_all
  from fit_viewport_one_wider [OF this] dims show ?thesis
    by (simp only: viewport_is_frame_def viewport_of_def) simp
qed


section \<open>Properties\<close>

text \<open>
  C13: damage never breaks the presenter: on a well-formed frame buffer, every damage message,
  valid or not, is either refused and changes nothing, or painted exactly over its rectangle,
  leaving every other pixel as it was and the buffer well-formed; no index ever leaves its slice.
\<close>

theorem damage_applied_exactly:
  assumes "frame_state_wf s"
  shows "if damage_fits s d
    then \<exists>s'. frame_state_apply s d = Returns s' \<and> frame_state_wf s' \<and> fs_ready s' = fs_ready s
      \<and> fs_sequence s' = gd_sequence d
      \<and> (\<forall>i < fs_width s. \<forall>j < fs_height s. frame_pixel s' i j
          = damaged_pixels (unat (gd_x d)) (unat (gd_y d)) (unat (gd_width d)) (unat (gd_height d)) (gd_bgra d)
              (frame_pixel s) i j)
    else \<exists>e. frame_state_apply s d = Fails e"
  using assms by (rule frame_state_apply_cases)

definition tiny_ready :: GuiWindowReady where
  "tiny_ready = \<lparr>wr_process_id = 1, wr_window_id = 1, wr_width = 2, wr_height = 1, wr_title = ''t''\<rparr>"

definition tiny_frame :: FrameState where
  "tiny_frame = \<lparr>fs_ready = tiny_ready, fs_width = 2, fs_height = 1, fs_pixels = [5, 6], fs_sequence = 3\<rparr>"

lemma tiny_frame_wf: "frame_state_wf tiny_frame"
  by (simp add: frame_state_wf_def gui_dimensions_ok_def tiny_frame_def tiny_ready_def)

theorem damage_applied_exactly_witness:
  "\<exists>s'. frame_state_apply tiny_frame \<lparr>gd_sequence = 4, gd_x = 1, gd_y = 0, gd_width = 1, gd_height = 1,
       gd_bgra = [3, 2, 1, 0]\<rparr> = Returns s'
     \<and> frame_pixel s' 0 0 = damaged_pixels 1 0 1 1 [3, 2, 1, 0] (frame_pixel tiny_frame) 0 0
     \<and> frame_pixel s' 1 0 = damaged_pixels 1 0 1 1 [3, 2, 1, 0] (frame_pixel tiny_frame) 1 0"
  using damage_applied_exactly [OF tiny_frame_wf, of "\<lparr>gd_sequence = 4, gd_x = 1, gd_y = 0, gd_width = 1,
      gd_height = 1, gd_bgra = [3, 2, 1, 0]\<rparr>"]
  by (auto simp: damage_fits_def tiny_frame_def word_le_nat_alt)

text \<open>
  C14: the guest's picture is fitted into a host window.  Excluded are the windows in which the viewport
  is the unscaled frame in the corner, but whose size is not that of the frame: there the rendering
  panics (the next property).  In every other window a rendering of a well-formed frame buffer returns a complete surface that shows, inside a
  viewport that lies within the window, the nearest source pixel of every cell, and black around it.
\<close>

theorem render_shows_scaled_frame:
  assumes "frame_state_wf s" and "width * height < usize_limit" and "length ps = width * height"
    and "1 \<le> width" and "width < 2 ^ 32" and "1 \<le> height" and "height < 2 ^ 32"
    and "\<not> viewport_is_frame s width height \<or> width * height = fs_width s * fs_height s"
  shows "\<exists>ps'. render_scaled s width height ps = Returns ps' \<and> length ps' = width * height
    \<and> viewport_inside width height (viewport_of s width height)
    \<and> (if viewport_is_frame s width height then ps' = fs_pixels s
       else shows_picture width height ps'
         (let v = viewport_of s width height
          in painted (unat (vp_x v)) (unat (vp_y v)) (unat (vp_width v)) (unat (vp_height v))
               (scaled_pixel s (unat (vp_width v)) (unat (vp_height v))) (\<lambda>_ _. 0)))"
proof (cases "viewport_is_frame s width height")
  case True
  with assms viewport_of_inside [OF assms(1,4-7)] show ?thesis
    using render_scaled_unfold [OF assms(1-3,5,7)]
    by (simp add: copy_from_slice_def frame_state_wf_def)
next
  case False
  with render_scaled_viewport [OF assms(1-7) False refl] viewport_of_inside [OF assms(1,4-7)] show ?thesis
    by (auto simp: Let_def shows_picture_def)
qed

theorem render_shows_scaled_frame_witness:
  "\<exists>ps'. render_scaled tiny_frame 4 2 (replicate 8 9) = Returns ps' \<and> length ps' = 8"
proof -
  have "\<not> viewport_is_frame tiny_frame 4 2" by code_simp
  with render_shows_scaled_frame [OF tiny_frame_wf, of 4 2 "replicate 8 9"] show ?thesis
    by (auto simp: usize_limit_def)
qed

text \<open>
  C15: a host window exactly one pixel wider than the guest's makes the presenter panic: the
  viewport is then the unscaled frame in the corner, and the pixels are copied into a longer
  surface with an operation that requires equal lengths.
\<close>

theorem render_one_pixel_wider_panics:
  assumes "frame_state_wf s" and "length ps = (fs_width s + 1) * fs_height s"
  shows "render_scaled s (fs_width s + 1) (fs_height s) ps = Panics"
proof -
  note dims = assms(1) [unfolded frame_state_wf_def gui_dimensions_ok_def]
  have "(fs_width s + 1) * fs_height s \<le> 8193 * 8192" using dims by (intro mult_le_mono) simp_all
  moreover have "(8193::nat) * 8192 < usize_limit" by (simp add: usize_limit_def)
  ultimately have "(fs_width s + 1) * fs_height s < usize_limit" by linarith
  then have "render_scaled s (fs_width s + 1) (fs_height s) ps = copy_from_slice ps (fs_pixels s)"
    using render_scaled_unfold [OF assms(1) _ assms(2)] dims viewport_one_wider [OF assms(1)] by simp
  then show ?thesis using assms(2) dims by (simp add: copy_from_slice_def)
qed

theorem render_one_pixel_wider_panics_witness: "render_scaled tiny_frame 3 1 [0, 0, 0] = Panics"
proof -
  have "length [0, 0, 0 :: u32] = (fs_width tiny_frame + 1) * fs_height tiny_frame" by (simp add: tiny_frame_def)
  from render_one_pixel_wider_panics [OF tiny_frame_wf this] show ?thesis by (simp add: tiny_frame_def)
qed

end
