(* ===== verification/Gui_Display.thy ===== *)
theory Gui_Display
  imports Gui_Damage Frame_Buffer
begin

text \<open>
  The guest's damage tracker and the host's frame buffer together: applying the damage the
  tracker emits for a captured frame makes the presenter show that frame.
\<close>

section \<open>Tiles and pixels\<close>

lemma row_bytes_nth:
  assumes "c < w" and "e < 4" and "x + w \<le> W" and "row < H" and "length bs = 4 * (W * H)"
  shows "row_bytes W bs x w row ! (c * 4 + e) = bs ! ((row * W + (x + c)) * 4 + e)"
proof -
  have "row * W + (x + c) < W * H" using assms by (intro cell_less) simp_all
  then have "(row * W + (x + c)) * 4 + 3 < length bs" unfolding assms(5) by (rule pixel_bytes_in)
  moreover have eq: "(row * W + x) * 4 + (c * 4 + e) = (row * W + (x + c)) * 4 + e" by (simp add: algebra_simps)
  ultimately have "(row * W + x) * 4 + (c * 4 + e) < length bs" using assms(2) by simp
  moreover have "c * 4 + e < w * 4" using assms(1,2) by linarith
  moreover note eq
  ultimately show ?thesis unfolding row_bytes_def by (simp only: nth_take nth_drop)
qed

lemma length_row_bytes:
  assumes "x + w \<le> W" and "row < H" and "length bs = 4 * (W * H)"
  shows "length (row_bytes W bs x w row) = w * 4"
proof -
  have "row * W + W \<le> H * W" using assms(2) by (metis Suc_leI add.commute mult_Suc mult_le_mono1)
  then have "(row * W + x) * 4 + w * 4 \<le> length bs" using assms(1,3) by (simp add: mult.commute)
  then show ?thesis by (simp add: row_bytes_def)
qed

lemma length_rows:
  assumes "x + w \<le> W" and "y + h \<le> H" and "length bs = 4 * (W * H)"
  shows "length (concat (map (row_bytes W bs x w) [y..<y + h])) = 4 * (w * h)"
proof -
  have "\<forall>r \<in> set (map (row_bytes W bs x w) [y..<y + h]). length r = w * 4"
    using assms by (auto intro!: length_row_bytes [of _ _ _ _ H])
  from length_concat_rows [OF this] show ?thesis by simp
qed

lemma bgra_pixel_cong:
  assumes "\<And>e. e < 4 \<Longrightarrow> a ! (k * 4 + e) = b ! (l * 4 + e)"
  shows "bgra_pixel a k = bgra_pixel b l"
  using assms [of 0] assms [of 1] assms [of 2] by (simp add: bgra_pixel_def)

text \<open>A tile carries the pixels of the frame it was cut from.\<close>

lemma rows_pixel:
  assumes "x + w \<le> W" and "y + h \<le> H" and "length bs = 4 * (W * H)" and "c < w" and "r < h"
  shows "bgra_pixel (concat (map (row_bytes W bs x w) [y..<y + h])) (r * w + c)
    = bgra_pixel bs ((y + r) * W + (x + c))"
proof (rule bgra_pixel_cong)
  fix e :: nat
  assume e: "e < 4"
  let ?rows = "map (row_bytes W bs x w) [y..<y + h]"
  have rows: "\<forall>b \<in> set ?rows. length b = w * 4"
    using assms by (auto intro!: length_row_bytes [of _ _ _ _ H])
  have "(r * w + c) * 4 + e = r * (w * 4) + (c * 4 + e)" by (simp add: algebra_simps)
  moreover have "concat ?rows ! (r * (w * 4) + (c * 4 + e)) = ?rows ! r ! (c * 4 + e)"
    using rows assms(4,5) e by (intro nth_concat_rows) simp_all
  moreover have "?rows ! r = row_bytes W bs x w (y + r)" using assms(5) by simp
  moreover have "row_bytes W bs x w (y + r) ! (c * 4 + e) = bs ! (((y + r) * W + (x + c)) * 4 + e)"
    using assms e by (intro row_bytes_nth) simp_all
  ultimately show "concat ?rows ! ((r * w + c) * 4 + e) = bs ! (((y + r) * W + (x + c)) * 4 + e)"
    by (simp only:)
qed

lemma tile_same_pixel:
  assumes "tile_same a b W H (y, x)" and "x < W" "y < H"
    and "length a = 4 * (W * H)" "length b = 4 * (W * H)"
    and "x \<le> i" "i < x + tile_width W x" "y \<le> j" "j < y + tile_width H y"
  shows "bgra_pixel a (j * W + i) = bgra_pixel b (j * W + i)"
proof (rule bgra_pixel_cong)
  fix e :: nat
  assume e: "e < 4"
  let ?w = "tile_width W x"
  from assms have row: "row_bytes W a x ?w j = row_bytes W b x ?w j" by (simp add: tile_same_def)
  have i: "x + (i - x) = i" "i - x < ?w" using assms by simp_all
  have w: "x + ?w \<le> W" using tile_width_inside [OF assms(2)] by simp
  have j: "j < H" using tile_width_inside [OF assms(3)] assms by simp
  have "a ! ((j * W + i) * 4 + e) = row_bytes W a x ?w j ! ((i - x) * 4 + e)"
    using row_bytes_nth [OF i(2) e w j assms(4)] by (simp only: i)
  also have "\<dots> = b ! ((j * W + i) * 4 + e)"
    unfolding row using row_bytes_nth [OF i(2) e w j assms(5)] by (simp only: i)
  finally show "a ! ((j * W + i) * 4 + e) = b ! ((j * W + i) * 4 + e)" .
qed


section \<open>Updates\<close>

definition tracker_wf :: "DamageTracker \<Rightarrow> bool" where
  "tracker_wf t \<longleftrightarrow> length (dt_previous t) = 4 * (dt_width t * dt_height t)"

definition next_sequence :: "u64 \<Rightarrow> u64" where
  "next_sequence n = (case checked_add n 1 of Some m \<Rightarrow> m | None \<Rightarrow> 1)"

lemma tracker_update_in:
  assumes "tracker_wf t" and "gui_dimensions_ok width height" and "length bgra = 4 * (unat width * unat height)"
    and W: "W = unat width" and H: "H = unat height"
    and resized: "resized = (dt_width t \<noteq> W \<or> dt_height t \<noteq> H)"
    and previous: "previous = (if resized then replicate (4 * (W * H)) 0 else dt_previous t)"
    and sequence: "sequence = next_sequence (dt_sequence t)"
    and damages: "damages = map (tile_damage bgra sequence W H)
        (filter (\<lambda>p. resized \<or> \<not> tile_same previous bgra W H p) (frame_tiles W H))"
  shows "tracker_update t width height bgra
    = Returns (\<lparr>dt_width = W, dt_height = H,
                dt_previous = (if resized \<or> damages \<noteq> [] then bgra else previous),
                dt_sequence = sequence\<rparr>, damages)"
proof -
  have valid: "validate_frame width height bgra = Inr (W, H, 4 * (W * H))"
    using assms(2,3) W H by (simp add: validate_frame_ok)
  have len: "length previous = 4 * (W * H)"
    using assms(1) resized previous by (auto simp: tracker_wf_def)
  have "damage_tiles resized previous bgra sequence W H = Returns damages"
    unfolding damages using assms(2,3) W H len
    by (intro damage_tiles_in) (simp_all add: gui_dimensions_ok_def)
  moreover have "copy_from_slice previous bgra = (Returns bgra :: (ProtocolError, bytes) outcome)"
    using len assms(3) W H by (simp add: copy_from_slice_def)
  ultimately show ?thesis
    using resized previous sequence
    by (cases t) (auto simp: tracker_update_def valid Let_def next_sequence_def)
qed


text \<open>A damage message that was cut from a frame: it lies in the frame and carries its pixels.\<close>

definition damage_covers :: "GuiWindowDamage \<Rightarrow> nat \<Rightarrow> nat \<Rightarrow> bool" where
  "damage_covers d i j \<longleftrightarrow> unat (gd_x d) \<le> i \<and> i < unat (gd_x d) + unat (gd_width d)
     \<and> unat (gd_y d) \<le> j \<and> j < unat (gd_y d) + unat (gd_height d)"

definition cut_from :: "bytes \<Rightarrow> u64 \<Rightarrow> nat \<Rightarrow> nat \<Rightarrow> GuiWindowDamage \<Rightarrow> bool" where
  "cut_from bgra sequence W H d \<longleftrightarrow> gd_sequence d = sequence
     \<and> length (gd_bgra d) = 4 * (unat (gd_width d) * unat (gd_height d))
     \<and> unat (gd_x d) + unat (gd_width d) \<le> W \<and> unat (gd_y d) + unat (gd_height d) \<le> H
     \<and> (\<forall>c < unat (gd_width d). \<forall>r < unat (gd_height d).
          bgra_pixel (gd_bgra d) (r * unat (gd_width d) + c)
            = bgra_pixel bgra ((unat (gd_y d) + r) * W + (unat (gd_x d) + c)))"

lemma tile_damage_sizes:
  assumes "x < W" "y < H" "W \<le> 8192" "H \<le> 8192"
  shows "unat (gd_x (tile_damage bgra n W H (y, x))) = x" "unat (gd_y (tile_damage bgra n W H (y, x))) = y"
    "unat (gd_width (tile_damage bgra n W H (y, x))) = tile_width W x"
    "unat (gd_height (tile_damage bgra n W H (y, x))) = tile_width H y"
  using tile_width_inside [OF assms(1)] tile_width_inside [OF assms(2)] assms
  by (simp_all add: tile_damage_def unat_word_of_nat_less)

lemma tile_damage_cut_from:
  assumes xy: "x < W" "y < H" "W \<le> 8192" "H \<le> 8192" and len: "length bgra = 4 * (W * H)"
  shows "cut_from bgra n W H (tile_damage bgra n W H (y, x))"
    and "gui_damage_ok (tile_damage bgra n W H (y, x))"
proof -
  note sizes = tile_damage_sizes [OF xy, of bgra n]
  note inside = tile_width_inside [OF xy(1)] tile_width_inside [OF xy(2)]
  have tile: "gd_bgra (tile_damage bgra n W H (y, x))
      = concat (map (row_bytes W bgra x (tile_width W x)) [y..<y + tile_width H y])"
    by (simp add: tile_damage_def)
  have length: "length (gd_bgra (tile_damage bgra n W H (y, x))) = 4 * (tile_width W x * tile_width H y)"
    unfolding tile using inside len by (intro length_rows [of _ _ _ _ _ H]) simp_all
  show "gui_damage_ok (tile_damage bgra n W H (y, x))"
    unfolding gui_damage_ok_def sizes length using inside xy by linarith
  have "gd_sequence (tile_damage bgra n W H (y, x)) = n" by (simp add: tile_damage_def)
  moreover have "bgra_pixel (gd_bgra (tile_damage bgra n W H (y, x))) (r * tile_width W x + c)
      = bgra_pixel bgra ((y + r) * W + (x + c))" if "c < tile_width W x" "r < tile_width H y" for c r
    unfolding tile using inside len that by (intro rows_pixel [where H = H]) simp_all
  ultimately show "cut_from bgra n W H (tile_damage bgra n W H (y, x))"
    unfolding cut_from_def sizes length using inside by blast
qed

lemma apply_cut:
  assumes wf: "frame_state_wf s" and seq: "fs_sequence s \<le> n" and cut: "cut_from bgra n (fs_width s) (fs_height s) d"
  shows "\<exists>s'. frame_state_apply s d = Returns s' \<and> frame_state_wf s' \<and> fs_ready s' = fs_ready s
    \<and> fs_sequence s' = n
    \<and> (\<forall>i < fs_width s. \<forall>j < fs_height s. frame_pixel s' i j
        = (if damage_covers d i j then bgra_pixel bgra (j * fs_width s + i) else frame_pixel s i j))"
proof -
  have "damage_fits s d" using seq cut by (simp add: damage_fits_def cut_from_def)
  with frame_state_apply_cases [OF wf, of d] obtain s' where s': "frame_state_apply s d = Returns s'"
      "frame_state_wf s'" "fs_ready s' = fs_ready s" "fs_sequence s' = gd_sequence d"
    and pixels: "\<And>i j. i < fs_width s \<Longrightarrow> j < fs_height s \<Longrightarrow> frame_pixel s' i j
      = damaged_pixels (unat (gd_x d)) (unat (gd_y d)) (unat (gd_width d)) (unat (gd_height d)) (gd_bgra d)
          (frame_pixel s) i j"
    by auto
  have "frame_pixel s' i j = (if damage_covers d i j then bgra_pixel bgra (j * fs_width s + i) else frame_pixel s i j)"
    if ij: "i < fs_width s" "j < fs_height s" for i j
  proof (cases "damage_covers d i j")
    case True
    then have "unat (gd_y d) + (j - unat (gd_y d)) = j" "unat (gd_x d) + (i - unat (gd_x d)) = i"
      "i - unat (gd_x d) < unat (gd_width d)" "j - unat (gd_y d) < unat (gd_height d)"
      by (auto simp: damage_covers_def)
    with True cut show ?thesis
      unfolding pixels [OF ij] damaged_pixels_def painted_def damage_covers_def cut_from_def by auto
  next
    case False
    then show ?thesis unfolding pixels [OF ij] damaged_pixels_def painted_def damage_covers_def by auto
  qed
  with s' cut show ?thesis by (auto simp: cut_from_def)
qed

lemma frame_state_dims:
  assumes "frame_state_wf s" and "frame_state_wf s'" and "fs_ready s' = fs_ready s"
  shows "fs_width s' = fs_width s" "fs_height s' = fs_height s"
  using assms by (simp_all add: frame_state_wf_def)

lemma apply_cuts:
  assumes wf: "frame_state_wf s" and seq: "fs_sequence s \<le> n"
    and cuts: "\<forall>d \<in> set ds. cut_from bgra n (fs_width s) (fs_height s) d"
  shows "\<exists>s'. for_each (\<lambda>d s. frame_state_apply s d) ds s = Returns s'
    \<and> frame_state_wf s' \<and> fs_ready s' = fs_ready s \<and> fs_sequence s' \<le> n
    \<and> (\<forall>i < fs_width s. \<forall>j < fs_height s. frame_pixel s' i j
        = (if \<exists>d \<in> set ds. damage_covers d i j then bgra_pixel bgra (j * fs_width s + i) else frame_pixel s i j))"
proof (rule for_list_invariant [where I = "\<lambda>done s'. frame_state_wf s' \<and> fs_ready s' = fs_ready s
    \<and> fs_sequence s' \<le> n \<and> (\<forall>i < fs_width s. \<forall>j < fs_height s. frame_pixel s' i j
        = (if \<exists>d \<in> set done. damage_covers d i j then bgra_pixel bgra (j * fs_width s + i) else frame_pixel s i j))"])
  show "frame_state_wf s \<and> fs_ready s = fs_ready s \<and> fs_sequence s \<le> n
    \<and> (\<forall>i < fs_width s. \<forall>j < fs_height s. frame_pixel s i j
        = (if \<exists>d \<in> set []. damage_covers d i j then bgra_pixel bgra (j * fs_width s + i) else frame_pixel s i j))"
    using wf seq by simp
next
  fix prefix d t
  assume t: "frame_state_wf t \<and> fs_ready t = fs_ready s \<and> fs_sequence t \<le> n
    \<and> (\<forall>i < fs_width s. \<forall>j < fs_height s. frame_pixel t i j
        = (if \<exists>d \<in> set prefix. damage_covers d i j then bgra_pixel bgra (j * fs_width s + i) else frame_pixel s i j))"
    and d: "d \<in> set ds"
  from t have dims: "fs_width t = fs_width s" "fs_height t = fs_height s"
    using frame_state_dims [OF wf] by simp_all
  with t d cuts apply_cut [of t n bgra d] obtain t' where t': "frame_state_apply t d = Returns t'"
      "frame_state_wf t'" "fs_ready t' = fs_ready t" "fs_sequence t' = n"
      "\<forall>i < fs_width s. \<forall>j < fs_height s. frame_pixel t' i j
        = (if damage_covers d i j then bgra_pixel bgra (j * fs_width s + i) else frame_pixel t i j)"
    by auto
  with t show "\<exists>t'. frame_state_apply t d = Returns t' \<and> frame_state_wf t' \<and> fs_ready t' = fs_ready s
    \<and> fs_sequence t' \<le> n \<and> (\<forall>i < fs_width s. \<forall>j < fs_height s. frame_pixel t' i j
        = (if \<exists>d \<in> set (prefix @ [d]). damage_covers d i j then bgra_pixel bgra (j * fs_width s + i)
           else frame_pixel s i j))"
    by auto
qed

text \<open>The presenter shows a captured frame.\<close>

definition shows_frame :: "FrameState \<Rightarrow> bytes \<Rightarrow> bool" where
  "shows_frame s bgra \<longleftrightarrow> (\<forall>i < fs_width s. \<forall>j < fs_height s.
     frame_pixel s i j = bgra_pixel bgra (j * fs_width s + i))"

lemma frame_tiles_in: "(y, x) \<in> set (frame_tiles W H) \<Longrightarrow> x < W \<and> y < H"
  by (auto simp: frame_tiles_def dest: tile_starts_less)

lemma frame_tiles_cover:
  assumes "i < W" and "j < H"
  obtains x y where "(y, x) \<in> set (frame_tiles W H)" "x \<le> i" "i < x + tile_width W x" "y \<le> j"
    "j < y + tile_width H y"
  using tile_starts_cover [OF assms(1)] tile_starts_cover [OF assms(2)] that
  by (auto simp: frame_tiles_def tile_width_def)

lemma uncovered_pixel_same:
  assumes dims: "W \<le> 8192" "H \<le> 8192" and ij: "i < W" "j < H"
    and len: "length previous = 4 * (W * H)" "length bgra = 4 * (W * H)"
    and uncovered: "\<not> (\<exists>d \<in> set (map (tile_damage bgra n W H)
        (filter (\<lambda>p. resized \<or> \<not> tile_same previous bgra W H p) (frame_tiles W H))). damage_covers d i j)"
  shows "\<not> resized \<and> bgra_pixel previous (j * W + i) = bgra_pixel bgra (j * W + i)"
proof -
  obtain x y where tile: "(y, x) \<in> set (frame_tiles W H)"
    and at: "x \<le> i" "i < x + tile_width W x" "y \<le> j" "j < y + tile_width H y"
    using frame_tiles_cover [OF ij] .
  from frame_tiles_in [OF tile] have xy: "x < W" "y < H" by simp_all
  have "damage_covers (tile_damage bgra n W H (y, x)) i j"
    unfolding damage_covers_def tile_damage_sizes [OF xy dims] using at by simp
  with uncovered tile have "\<not> resized" "tile_same previous bgra W H (y, x)" by auto
  then show ?thesis using tile_same_pixel [OF _ xy len at] by simp
qed

lemma damages_cut_from:
  assumes "W \<le> 8192" "H \<le> 8192" and "length bgra = 4 * (W * H)"
  shows "\<forall>d \<in> set (map (tile_damage bgra n W H) (filter P (frame_tiles W H))).
    cut_from bgra n W H d \<and> gui_damage_ok d"
  using tile_damage_cut_from [OF _ _ assms] frame_tiles_in by auto

lemma damage_round_trip:
  "gui_damage_ok d \<Longrightarrow> \<exists>p. gui_window_damage_encode d = Inr p \<and> gui_window_damage_decode p = Inr d"
  unfolding gui_window_damage_iff by (simp add: gui_window_damage_encode_def ok_iff)


section \<open>Properties\<close>

text \<open>
  C16: the damage the guest emits is exactly what the host needs.  Take a tracker and a frame
  buffer of the size of the captured frame that agree: the buffer shows the tracker's previous
  frame, or the capture has a new size.  Then the update returns, every damage message it
  emits survives encoding and decoding, and applying them in order leaves the buffer showing
  the captured frame, pixel by pixel, and agreeing with the tracker again.
\<close>

theorem damage_reproduces_frame:
  assumes "tracker_wf t" and "frame_state_wf s" and "fs_width s = unat width" and "fs_height s = unat height"
    and "length bgra = 4 * (unat width * unat height)"
    and "fs_sequence s \<le> next_sequence (dt_sequence t)"
    and "(dt_width t = unat width \<and> dt_height t = unat height) \<longrightarrow> shows_frame s (dt_previous t)"
  shows "\<exists>t' damages s'. tracker_update t width height bgra = Returns (t', damages)
    \<and> (\<forall>d \<in> set damages. \<exists>p. gui_window_damage_encode d = Inr p \<and> gui_window_damage_decode p = Inr d)
    \<and> for_each (\<lambda>d s. frame_state_apply s d) damages s = Returns s'
    \<and> frame_state_wf s' \<and> fs_ready s' = fs_ready s \<and> shows_frame s' bgra
    \<and> tracker_wf t' \<and> shows_frame s' (dt_previous t') \<and> fs_sequence s' \<le> dt_sequence t'"
proof -
  define W where "W = fs_width s"
  define H where "H = fs_height s"
  define resized where "resized \<longleftrightarrow> dt_width t \<noteq> W \<or> dt_height t \<noteq> H"
  define previous where "previous = (if resized then replicate (4 * (W * H)) 0 else dt_previous t)"
  define n where "n = next_sequence (dt_sequence t)"
  define damages where "damages = map (tile_damage bgra n W H)
    (filter (\<lambda>p. resized \<or> \<not> tile_same previous bgra W H p) (frame_tiles W H))"
  have WH: "W = unat width" "H = unat height" using assms(3,4) by (simp_all add: W_def H_def)
  have ok: "gui_dimensions_ok width height" "W \<le> 8192" "H \<le> 8192"
    using assms(2-4) by (auto simp: frame_state_wf_def gui_dimensions_ok_def W_def H_def)
  have len: "length bgra = 4 * (W * H)" "length previous = 4 * (W * H)"
    using assms(1,5) by (auto simp: WH previous_def resized_def tracker_wf_def)
  let ?t = "\<lparr>dt_width = W, dt_height = H, dt_previous = (if resized \<or> damages \<noteq> [] then bgra else previous),
      dt_sequence = n\<rparr>"
  have update: "tracker_update t width height bgra = Returns (?t, damages)"
    by (rule tracker_update_in [OF assms(1) ok(1) assms(5) WH resized_def previous_def n_def damages_def])
  have cuts: "\<forall>d \<in> set damages. cut_from bgra n W H d \<and> gui_damage_ok d"
    unfolding damages_def by (rule damages_cut_from [OF ok(2,3) len(1)])
  then obtain s' where s': "for_each (\<lambda>d s. frame_state_apply s d) damages s = Returns s'"
      "frame_state_wf s'" "fs_ready s' = fs_ready s" "fs_sequence s' \<le> n"
    and pixels: "\<And>i j. i < W \<Longrightarrow> j < H \<Longrightarrow> frame_pixel s' i j
      = (if \<exists>d \<in> set damages. damage_covers d i j then bgra_pixel bgra (j * W + i) else frame_pixel s i j)"
    using apply_cuts [OF assms(2), of n damages bgra] assms(6) by (auto simp: W_def H_def n_def)
  have dims: "fs_width s' = W" "fs_height s' = H"
    using frame_state_dims [OF assms(2) s'(2,3)] by (simp_all add: W_def H_def)
  have "frame_pixel s' i j = bgra_pixel bgra (j * W + i) \<and> (damages = [] \<longrightarrow> \<not> resized
      \<and> bgra_pixel previous (j * W + i) = bgra_pixel bgra (j * W + i))" if ij: "i < W" "j < H" for i j
  proof -
    have same: "\<not> resized \<and> bgra_pixel previous (j * W + i) = bgra_pixel bgra (j * W + i)"
      if "\<not> (\<exists>d \<in> set damages. damage_covers d i j)"
      using uncovered_pixel_same [OF ok(2,3) ij len(2,1)] that unfolding damages_def by blast
    moreover have "frame_pixel s i j = bgra_pixel (dt_previous t) (j * W + i)" if "\<not> resized"
      using that assms(3,4,7) ij by (auto simp: resized_def shows_frame_def W_def H_def)
    ultimately show ?thesis using pixels [OF ij] by (auto simp: previous_def)
  qed
  then have "shows_frame s' bgra" "shows_frame s' (dt_previous ?t)"
    by (auto simp: shows_frame_def dims)
  moreover have "tracker_wf ?t" using len by (simp add: tracker_wf_def)
  moreover have "\<forall>d \<in> set damages. \<exists>p. gui_window_damage_encode d = Inr p \<and> gui_window_damage_decode p = Inr d"
    using cuts by (auto simp: damage_round_trip)
  ultimately show ?thesis using update s' by auto
qed

theorem damage_reproduces_frame_witness:
  "\<exists>t' damages s'. tracker_update damage_tracker_default 2 1 [1, 2, 3, 0, 4, 5, 6, 0] = Returns (t', damages)
    \<and> for_each (\<lambda>d s. frame_state_apply s d) damages (tiny_frame\<lparr>fs_sequence := 0\<rparr>) = Returns s'
    \<and> shows_frame s' [1, 2, 3, 0, 4, 5, 6, 0]"
proof -
  let ?s = "tiny_frame\<lparr>fs_sequence := 0\<rparr>" and ?bgra = "[1, 2, 3, 0, 4, 5, 6, 0] :: bytes"
  have "tracker_wf damage_tracker_default" by (simp add: tracker_wf_def damage_tracker_default_def)
  moreover have "frame_state_wf ?s" using tiny_frame_wf by (simp add: frame_state_wf_def)
  moreover have "fs_width ?s = unat (2 :: u32)" "fs_height ?s = unat (1 :: u32)" by (simp_all add: tiny_frame_def)
  moreover have "length ?bgra = 4 * (unat (2 :: u32) * unat (1 :: u32))" by simp
  moreover have "fs_sequence ?s \<le> next_sequence (dt_sequence damage_tracker_default)" by simp
  moreover have "dt_width damage_tracker_default = unat (2 :: u32) \<and> dt_height damage_tracker_default = unat (1 :: u32)
      \<longrightarrow> shows_frame ?s (dt_previous damage_tracker_default)"
    by (simp add: damage_tracker_default_def)
  ultimately show ?thesis
    using damage_reproduces_frame [of damage_tracker_default ?s 2 1 ?bgra] by blast
qed

end
