(* ===== verification/Pe_Image.thy ===== *)
theory Pe_Image
  imports Lsw_Error Rust_Outcome
begin

text \<open>
  The inspector of Windows executables (\<open>pe.rs\<close> of \<open>lsw-core\<close>): it parses untrusted files and
  says whether the guest can run them.  Every slice, index and plain arithmetic operation of the
  source is one of the panicking operations of \<open>Rust_Outcome\<close>.
\<close>

section \<open>Constants\<close>

definition DOS_HEADER_BYTES :: nat where "DOS_HEADER_BYTES = 64"
definition COFF_HEADER_BYTES :: nat where "COFF_HEADER_BYTES = 20"
definition SECTION_HEADER_BYTES :: nat where "SECTION_HEADER_BYTES = 40"
definition IMPORT_DESCRIPTOR_BYTES :: nat where "IMPORT_DESCRIPTOR_BYTES = 20"
definition COR20_HEADER_BYTES :: nat where "COR20_HEADER_BYTES = 72"
definition MAX_PE_BYTES :: nat where "MAX_PE_BYTES = 512 * 1024 * 1024"
definition MAX_IMPORT_DESCRIPTORS :: nat where "MAX_IMPORT_DESCRIPTORS = 4096"
definition MAX_IMPORTS_PER_DLL :: nat where "MAX_IMPORTS_PER_DLL = 65536"
definition MAX_IMPORT_NAME_BYTES :: nat where "MAX_IMPORT_NAME_BYTES = 4096"
definition MAX_TOTAL_IMPORT_SYMBOLS :: nat where "MAX_TOTAL_IMPORT_SYMBOLS = 65536"
definition MAX_TOTAL_IMPORT_STRING_BYTES :: nat where "MAX_TOTAL_IMPORT_STRING_BYTES = 16 * 1024 * 1024"
definition IMAGE_FILE_DLL :: u16 where "IMAGE_FILE_DLL = 0x2000"
definition IMAGE_DIRECTORY_ENTRY_IMPORT :: nat where "IMAGE_DIRECTORY_ENTRY_IMPORT = 1"
definition IMAGE_DIRECTORY_ENTRY_SECURITY :: nat where "IMAGE_DIRECTORY_ENTRY_SECURITY = 4"
definition IMAGE_DIRECTORY_ENTRY_COM_DESCRIPTOR :: nat where "IMAGE_DIRECTORY_ENTRY_COM_DESCRIPTOR = 14"

lemmas pe_constants = DOS_HEADER_BYTES_def COFF_HEADER_BYTES_def SECTION_HEADER_BYTES_def
  IMPORT_DESCRIPTOR_BYTES_def COR20_HEADER_BYTES_def MAX_IMPORT_DESCRIPTORS_def MAX_IMPORTS_PER_DLL_def
  MAX_IMPORT_NAME_BYTES_def MAX_TOTAL_IMPORT_SYMBOLS_def MAX_TOTAL_IMPORT_STRING_BYTES_def


section \<open>Kinds, machines, subsystems\<close>

datatype PeKind = Pe32 | Pe32Plus

primrec pe_kind_display :: "PeKind \<Rightarrow> string" where
  "pe_kind_display Pe32 = ''PE32''"
| "pe_kind_display Pe32Plus = ''PE32+''"

datatype PeMachine = X86 | X86_64 | Arm | Thumb | ArmNt | Arm64 | UnknownMachine u16

definition machine_from_raw :: "u16 \<Rightarrow> PeMachine" where
  "machine_from_raw value =
     (if value = 0x014c then X86 else if value = 0x8664 then X86_64 else if value = 0x01c0 then Arm
      else if value = 0x01c2 then Thumb else if value = 0x01c4 then ArmNt else if value = 0xaa64 then Arm64
      else UnknownMachine value)"

primrec machine_raw :: "PeMachine \<Rightarrow> u16" where
  "machine_raw X86 = 0x014c"
| "machine_raw X86_64 = 0x8664"
| "machine_raw Arm = 0x01c0"
| "machine_raw Thumb = 0x01c2"
| "machine_raw ArmNt = 0x01c4"
| "machine_raw Arm64 = 0xaa64"
| "machine_raw (UnknownMachine value) = value"

primrec machine_display :: "PeMachine \<Rightarrow> message" where
  "machine_display X86 = [Text ''x86'']"
| "machine_display X86_64 = [Text ''x86_64'']"
| "machine_display Arm = [Text ''Arm'']"
| "machine_display Thumb = [Text ''Thumb'']"
| "machine_display ArmNt = [Text ''Arm NT'']"
| "machine_display Arm64 = [Text ''Arm64'']"
| "machine_display (UnknownMachine value) = [Text ''unknown (0x'', Hex 4 (unat value), Text '')'']"

datatype PeSubsystem =
    UnknownSubsystem | Native | WindowsGui | WindowsConsole | PosixConsole | EfiApplication
  | EfiBootServiceDriver | EfiRuntimeDriver | Xbox | WindowsBootApplication | Other u16

definition subsystem_from_raw :: "u16 \<Rightarrow> PeSubsystem" where
  "subsystem_from_raw value =
     (if value = 0 then UnknownSubsystem else if value = 1 then Native else if value = 2 then WindowsGui
      else if value = 3 then WindowsConsole else if value = 7 then PosixConsole
      else if value = 10 then EfiApplication else if value = 11 then EfiBootServiceDriver
      else if value = 12 then EfiRuntimeDriver else if value = 14 then Xbox
      else if value = 16 then WindowsBootApplication else Other value)"

primrec subsystem_raw :: "PeSubsystem \<Rightarrow> u16" where
  "subsystem_raw UnknownSubsystem = 0"
| "subsystem_raw Native = 1"
| "subsystem_raw WindowsGui = 2"
| "subsystem_raw WindowsConsole = 3"
| "subsystem_raw PosixConsole = 7"
| "subsystem_raw EfiApplication = 10"
| "subsystem_raw EfiBootServiceDriver = 11"
| "subsystem_raw EfiRuntimeDriver = 12"
| "subsystem_raw Xbox = 14"
| "subsystem_raw WindowsBootApplication = 16"
| "subsystem_raw (Other value) = value"

primrec subsystem_display :: "PeSubsystem \<Rightarrow> message" where
  "subsystem_display UnknownSubsystem = [Text ''unknown'']"
| "subsystem_display Native = [Text ''native/driver'']"
| "subsystem_display WindowsGui = [Text ''Windows GUI'']"
| "subsystem_display WindowsConsole = [Text ''Windows console'']"
| "subsystem_display PosixConsole = [Text ''POSIX console'']"
| "subsystem_display EfiApplication = [Text ''EFI application'']"
| "subsystem_display EfiBootServiceDriver = [Text ''EFI boot-service driver'']"
| "subsystem_display EfiRuntimeDriver = [Text ''EFI runtime driver'']"
| "subsystem_display Xbox = [Text ''Xbox'']"
| "subsystem_display WindowsBootApplication = [Text ''Windows boot application'']"
| "subsystem_display (Other value) = [Text ''other ('', Num (unat value), Text '')'']"


section \<open>The image\<close>

record PeSection =
  ps_name :: string
  ps_virtual_address :: u32
  ps_virtual_size :: u32
  ps_raw_offset :: u32
  ps_raw_size :: u32
  ps_characteristics :: u32

datatype PeImportSymbol = Name u16 string | Ordinal u16

primrec import_symbol_display :: "PeImportSymbol \<Rightarrow> message" where
  "import_symbol_display (Name hint name) = [Disp name]"
| "import_symbol_display (Ordinal value) = [Text ''#'', Num (unat value)]"

record PeImport =
  pi_dll :: string
  pi_symbols :: "PeImportSymbol list"

record PeImage =
  pe_kind :: PeKind
  pe_machine :: PeMachine
  pe_subsystem :: PeSubsystem
  pe_timestamp :: u32
  pe_characteristics :: u16
  pe_entry_point_rva :: u32
  pe_image_base :: u64
  pe_size_of_image :: u32
  pe_is_dll :: bool
  pe_is_managed :: bool
  pe_has_certificate_table :: bool
  pe_sections :: "PeSection list"
  pe_imports :: "PeImport list"

record DataDirectory =
  dd_rva :: u32
  dd_size :: u32

record PeLayout =
  pl_bytes :: bytes
  pl_size_of_headers :: u32
  pl_sections :: "PeSection list"

record ImportBudget =
  ib_symbols_remaining :: nat
  ib_string_bytes_remaining :: nat

type_synonym 'a parsed = "(LswError, 'a) outcome"


section \<open>Reading the file\<close>

definition invalid :: "message \<Rightarrow> LswError" where
  "invalid reason = InvalidValue ''PE image'' reason"

definition require :: "bytes \<Rightarrow> nat \<Rightarrow> nat \<Rightarrow> message \<Rightarrow> unit parsed" where
  "require bs offset len what =
     (if (case checked_add_usize offset len of None \<Rightarrow> True | Some stop \<Rightarrow> stop > length bs)
      then Fails (invalid (Text ''truncated '' # what))
      else Returns ())"

definition require_optional :: "nat \<Rightarrow> nat \<Rightarrow> message \<Rightarrow> unit parsed" where
  "require_optional actual minimum what =
     (if actual < minimum
      then Fails (invalid (what @ [Text '' is '', Num actual, Text '' bytes; at least '', Num minimum,
             Text '' are required'']))
      else Returns ())"

definition pe_checked_add :: "nat \<Rightarrow> nat \<Rightarrow> message \<Rightarrow> nat parsed" where
  "pe_checked_add left right what = out_some (checked_add_usize left right) (invalid (what @ [Text '' overflow'']))"

text \<open>The array \<open>[bytes[offset], bytes[offset + 1], ...]\<close>.\<close>

fun index_each :: "bytes \<Rightarrow> nat \<Rightarrow> nat list \<Rightarrow> bytes parsed" where
  "index_each bs offset [] = Returns []"
| "index_each bs offset (k # ks) =
     out_bind (add_usize offset k) (\<lambda>i.
     out_bind (index bs i) (\<lambda>b.
     out_bind (index_each bs offset ks) (\<lambda>r. Returns (b # r))))"

definition read_u16 :: "bytes \<Rightarrow> nat \<Rightarrow> message \<Rightarrow> u16 parsed" where
  "read_u16 bs offset what =
     out_bind (require bs offset 2 what) (\<lambda>_.
     out_bind (index_each bs offset [0, 1]) (\<lambda>r. Returns (of_le_bytes r)))"

definition read_u32 :: "bytes \<Rightarrow> nat \<Rightarrow> message \<Rightarrow> u32 parsed" where
  "read_u32 bs offset what =
     out_bind (require bs offset 4 what) (\<lambda>_.
     out_bind (index_each bs offset [0, 1, 2, 3]) (\<lambda>r. Returns (of_le_bytes r)))"

definition read_u64 :: "bytes \<Rightarrow> nat \<Rightarrow> message \<Rightarrow> u64 parsed" where
  "read_u64 bs offset what =
     out_bind (require bs offset 8 what) (\<lambda>_.
     out_bind (index_each bs offset [0, 1, 2, 3, 4, 5, 6, 7]) (\<lambda>r. Returns (of_le_bytes r)))"

text \<open>\<open>read_u16(bytes, base + k, what)\<close> and its companions.\<close>

definition u16_at :: "bytes \<Rightarrow> nat \<Rightarrow> nat \<Rightarrow> string \<Rightarrow> u16 parsed" where
  "u16_at bs base k what = out_bind (add_usize base k) (\<lambda>offset. read_u16 bs offset [Text what])"

definition u32_at :: "bytes \<Rightarrow> nat \<Rightarrow> nat \<Rightarrow> string \<Rightarrow> u32 parsed" where
  "u32_at bs base k what = out_bind (add_usize base k) (\<lambda>offset. read_u32 bs offset [Text what])"

definition u64_at :: "bytes \<Rightarrow> nat \<Rightarrow> nat \<Rightarrow> string \<Rightarrow> u64 parsed" where
  "u64_at bs base k what = out_bind (add_usize base k) (\<lambda>offset. read_u64 bs offset [Text what])"


section \<open>Relative virtual addresses\<close>

text \<open>The span of file bytes that backs an address in one of the sections.\<close>

fun section_span :: "bytes \<Rightarrow> u32 \<Rightarrow> message \<Rightarrow> PeSection list \<Rightarrow> (nat \<times> nat) parsed" where
  "section_span bs rva what [] =
     Fails (invalid (what @ [Text '' RVA 0x'', Hex 8 (unat rva), Text '' does not map to a section'']))"
| "section_span bs rva what (sec # sections) =
     (let span = max (ps_virtual_size sec) (ps_raw_size sec)
      in case checked_sub rva (ps_virtual_address sec) of
           None \<Rightarrow> section_span bs rva what sections
         | Some relative \<Rightarrow>
             if relative \<ge> span then section_span bs rva what sections
             else if relative \<ge> ps_raw_size sec
             then Fails (invalid (what @ [Text '' RVA 0x'', Hex 8 (unat rva),
                    Text '' points into non-file-backed section data'']))
             else out_bind (out_some (checked_add (ps_raw_offset sec) relative)
                    (invalid (what @ [Text '' file offset overflow'']))) (\<lambda>offset.
                  out_bind (require bs (unat offset) 1 what) (\<lambda>_.
                  out_bind (sub_word (ps_raw_size sec) relative) (\<lambda>declared.
                  out_bind (sub_usize (length bs) (unat offset)) (\<lambda>rest.
                  Returns (unat offset, min (unat declared) rest))))))"

definition rva_span :: "PeLayout \<Rightarrow> u32 \<Rightarrow> message \<Rightarrow> (nat \<times> nat) parsed" where
  "rva_span layout rva what =
     (if rva < pl_size_of_headers layout
      then let offset = unat rva
        in out_bind (require (pl_bytes layout) offset 1 what) (\<lambda>_.
           out_bind (sub_word (pl_size_of_headers layout) rva) (\<lambda>declared.
           out_bind (sub_usize (length (pl_bytes layout)) offset) (\<lambda>rest.
           Returns (offset, min (unat declared) rest))))
      else section_span (pl_bytes layout) rva what (pl_sections layout))"

definition rva_to_offset :: "PeLayout \<Rightarrow> u32 \<Rightarrow> nat \<Rightarrow> message \<Rightarrow> nat parsed" where
  "rva_to_offset layout rva len what =
     out_bind (rva_span layout rva what) (\<lambda>(offset, available).
     if len > available then Fails (invalid (Text ''truncated '' # what)) else Returns offset)"

fun position :: "('a \<Rightarrow> bool) \<Rightarrow> 'a list \<Rightarrow> nat option" where
  "position P [] = None"
| "position P (x # xs) = (if P x then Some 0 else map_option Suc (position P xs))"

definition read_rva_c_string :: "PeLayout \<Rightarrow> u32 \<Rightarrow> message \<Rightarrow> string parsed" where
  "read_rva_c_string layout rva what =
     out_bind (rva_span layout rva what) (\<lambda>(offset, available_length).
     out_bind (add_usize offset available_length) (\<lambda>stop.
     out_bind (slice (pl_bytes layout) offset stop) (\<lambda>available.
     out_bind (out_some (position (\<lambda>b. b = 0) (take MAX_IMPORT_NAME_BYTES available))
       (invalid (what @ [Text '' is not NUL-terminated'']))) (\<lambda>len.
     out_bind (slice available 0 len) (\<lambda>bs.
     out_bind (out_some (from_utf8 bs) (invalid (what @ [Text '' is not UTF-8/ASCII'']))) (\<lambda>value.
     if value = [] then Fails (invalid (what @ [Text '' is empty''])) else Returns value))))))"


section \<open>Imports\<close>

definition import_budget_new :: ImportBudget where
  "import_budget_new = \<lparr>ib_symbols_remaining = MAX_TOTAL_IMPORT_SYMBOLS,
     ib_string_bytes_remaining = MAX_TOTAL_IMPORT_STRING_BYTES\<rparr>"

definition consume_symbol :: "ImportBudget \<Rightarrow> ImportBudget parsed" where
  "consume_symbol budget =
     out_bind (out_some (checked_sub_usize (ib_symbols_remaining budget) 1)
       (invalid [Text ''import table exceeds the '', Num MAX_TOTAL_IMPORT_SYMBOLS,
          Text '' symbol inspection limit''])) (\<lambda>n.
     Returns (budget\<lparr>ib_symbols_remaining := n\<rparr>))"

definition consume_string :: "ImportBudget \<Rightarrow> string \<Rightarrow> string \<Rightarrow> ImportBudget parsed" where
  "consume_string budget value what =
     out_bind (out_some (checked_sub_usize (ib_string_bytes_remaining budget) (length value))
       (invalid [Text what, Text '' exceed the '', Num MAX_TOTAL_IMPORT_STRING_BYTES,
          Text '' byte inspection limit''])) (\<lambda>n.
     Returns (budget\<lparr>ib_string_bytes_remaining := n\<rparr>))"

text \<open>The address of the \<open>k\<close>-th entry of a table of entries of the given width.\<close>

definition table_rva :: "u32 \<Rightarrow> nat \<Rightarrow> nat \<Rightarrow> string \<Rightarrow> u32 parsed" where
  "table_rva base k width what =
     out_bind (mul_usize k width) (\<lambda>bytes.
     out_bind (out_some (if bytes < 2 ^ 32 then Some (word_of_nat bytes) else None)
       (invalid [Text what, Text '' RVA overflow''])) (\<lambda>delta.
     out_some (checked_add base delta) (invalid [Text what, Text '' RVA overflow''])))"

definition thunk_shape :: "PeKind \<Rightarrow> nat \<times> u64" where
  "thunk_shape kind = (case kind of Pe32 \<Rightarrow> (4, 0x80000000) | Pe32Plus \<Rightarrow> (8, 0x8000000000000000))"

definition read_thunk :: "PeLayout \<Rightarrow> PeKind \<Rightarrow> u32 \<Rightarrow> nat \<Rightarrow> u64 parsed" where
  "read_thunk layout kind thunk_rva k =
     (let width = fst (thunk_shape kind)
      in out_bind (table_rva thunk_rva k width ''import thunk'') (\<lambda>rva.
         out_bind (rva_to_offset layout rva width [Text ''import thunk'']) (\<lambda>offset.
         if width = 4
         then out_bind (read_u32 (pl_bytes layout) offset [Text ''import thunk'']) (\<lambda>value. Returns (ucast value))
         else read_u64 (pl_bytes layout) offset [Text ''import thunk''])))"

definition read_import_name ::
  "PeLayout \<Rightarrow> u64 \<Rightarrow> ImportBudget \<Rightarrow> (PeImportSymbol \<times> ImportBudget) parsed" where
  "read_import_name layout value budget =
     out_bind (out_some (if unat value < 2 ^ 32 then Some (ucast value :: u32) else None)
       (invalid [Text ''import-by-name RVA exceeds 32 bits''])) (\<lambda>name_rva.
     out_bind (rva_to_offset layout name_rva 2 [Text ''import-by-name hint'']) (\<lambda>name_offset.
     out_bind (read_u16 (pl_bytes layout) name_offset [Text ''import hint'']) (\<lambda>hint.
     out_bind (out_some (checked_add name_rva 2) (invalid [Text ''import name RVA overflow''])) (\<lambda>string_rva.
     out_bind (read_rva_c_string layout string_rva [Text ''import symbol name'']) (\<lambda>name.
     out_bind (consume_string budget name ''import symbol names'') (\<lambda>budget.
     Returns (Name hint name, budget)))))))"

function thunk_loop ::
  "PeLayout \<Rightarrow> PeKind \<Rightarrow> u32 \<Rightarrow> nat \<Rightarrow> ImportBudget \<Rightarrow> PeImportSymbol list
     \<Rightarrow> (PeImportSymbol list \<times> ImportBudget) parsed" where
  "thunk_loop layout kind thunk_rva k budget symbols =
     (if \<not> k < MAX_IMPORTS_PER_DLL
      then Fails (invalid [Text ''import thunk table exceeds '', Num MAX_IMPORTS_PER_DLL, Text '' entries''])
      else out_bind (read_thunk layout kind thunk_rva k) (\<lambda>value.
           if value = 0 then Returns (symbols, budget)
           else out_bind (consume_symbol budget) (\<lambda>budget.
                if value AND snd (thunk_shape kind) \<noteq> 0
                then thunk_loop layout kind thunk_rva (Suc k) budget (symbols @ [Ordinal (ucast (value AND 0xffff))])
                else out_bind (read_import_name layout value budget) (\<lambda>(symbol, budget).
                     thunk_loop layout kind thunk_rva (Suc k) budget (symbols @ [symbol])))))"
  by pat_completeness auto
termination
  by (relation "measure (\<lambda>(_, _, _, k, _, _). MAX_IMPORTS_PER_DLL - k)") auto

declare thunk_loop.simps [simp del]

definition parse_import_thunks ::
  "PeLayout \<Rightarrow> PeKind \<Rightarrow> u32 \<Rightarrow> ImportBudget \<Rightarrow> (PeImportSymbol list \<times> ImportBudget) parsed" where
  "parse_import_thunks layout kind thunk_rva budget = thunk_loop layout kind thunk_rva 0 budget []"

record ImportDescriptor =
  id_original_first_thunk :: u32
  id_timestamp :: u32
  id_forwarder_chain :: u32
  id_name_rva :: u32
  id_first_thunk :: u32

definition read_descriptor :: "PeLayout \<Rightarrow> u32 \<Rightarrow> nat \<Rightarrow> ImportDescriptor parsed" where
  "read_descriptor layout rva k =
     out_bind (table_rva rva k IMPORT_DESCRIPTOR_BYTES ''import descriptor'') (\<lambda>descriptor_rva.
     out_bind (rva_to_offset layout descriptor_rva IMPORT_DESCRIPTOR_BYTES [Text ''import descriptor'']) (\<lambda>offset.
     out_bind (u32_at (pl_bytes layout) offset 0 ''original first thunk'') (\<lambda>original_first_thunk.
     out_bind (u32_at (pl_bytes layout) offset 4 ''import timestamp'') (\<lambda>timestamp.
     out_bind (u32_at (pl_bytes layout) offset 8 ''forwarder chain'') (\<lambda>forwarder_chain.
     out_bind (u32_at (pl_bytes layout) offset 12 ''import DLL name'') (\<lambda>name_rva.
     out_bind (u32_at (pl_bytes layout) offset 16 ''first thunk'') (\<lambda>first_thunk.
     Returns \<lparr>id_original_first_thunk = original_first_thunk, id_timestamp = timestamp,
              id_forwarder_chain = forwarder_chain, id_name_rva = name_rva, id_first_thunk = first_thunk\<rparr>)))))))"

definition read_import ::
  "PeLayout \<Rightarrow> PeKind \<Rightarrow> ImportDescriptor \<Rightarrow> ImportBudget \<Rightarrow> (PeImport \<times> ImportBudget) parsed" where
  "read_import layout kind d budget =
     (if id_name_rva d = 0 then Fails (invalid [Text ''import descriptor has no DLL name''])
      else out_bind (read_rva_c_string layout (id_name_rva d) [Text ''import DLL name'']) (\<lambda>dll.
           out_bind (consume_string budget dll ''import DLL names'') (\<lambda>budget.
           let thunk_rva = (if id_original_first_thunk d \<noteq> 0 then id_original_first_thunk d else id_first_thunk d)
           in out_bind (if thunk_rva = 0 then Returns ([], budget)
                        else parse_import_thunks layout kind thunk_rva budget) (\<lambda>(symbols, budget).
              Returns (\<lparr>pi_dll = dll, pi_symbols = symbols\<rparr>, budget)))))"

function import_loop ::
  "PeLayout \<Rightarrow> PeKind \<Rightarrow> u32 \<Rightarrow> nat \<Rightarrow> nat \<Rightarrow> ImportBudget \<Rightarrow> PeImport list \<Rightarrow> PeImport list parsed" where
  "import_loop layout kind rva descriptor_limit k budget imports =
     (if \<not> k < descriptor_limit
      then Fails (invalid [Text ''import table has no terminator within '', Num descriptor_limit,
             Text '' descriptors''])
      else out_bind (read_descriptor layout rva k) (\<lambda>d.
           if id_original_first_thunk d = 0 \<and> id_timestamp d = 0 \<and> id_forwarder_chain d = 0
              \<and> id_name_rva d = 0 \<and> id_first_thunk d = 0
           then Returns imports
           else out_bind (read_import layout kind d budget) (\<lambda>(import, budget).
                import_loop layout kind rva descriptor_limit (Suc k) budget (imports @ [import]))))"
  by pat_completeness auto
termination
  by (relation "measure (\<lambda>(_, _, _, limit, k, _, _). limit - k)") auto

declare import_loop.simps [simp del]

definition parse_imports :: "PeLayout \<Rightarrow> PeKind \<Rightarrow> DataDirectory \<Rightarrow> PeImport list parsed" where
  "parse_imports layout kind directory =
     out_bind (if dd_size directory = 0 then Returns MAX_IMPORT_DESCRIPTORS
               else let declared = unat (dd_size directory)
                 in if declared < IMPORT_DESCRIPTOR_BYTES
                    then Fails (invalid [Text ''import directory is smaller than one descriptor''])
                    else Returns (min (declared div IMPORT_DESCRIPTOR_BYTES) MAX_IMPORT_DESCRIPTORS))
       (\<lambda>descriptor_limit. import_loop layout kind (dd_rva directory) descriptor_limit 0 import_budget_new [])"


section \<open>Headers\<close>

definition parse_directory :: "bytes \<Rightarrow> nat \<Rightarrow> nat \<Rightarrow> nat \<Rightarrow> DataDirectory list \<Rightarrow> DataDirectory list parsed" where
  "parse_directory bs optional directory_offset k directories =
     out_bind (add_usize optional directory_offset) (\<lambda>table.
     out_bind (mul_usize k 8) (\<lambda>delta.
     out_bind (add_usize table delta) (\<lambda>offset.
     out_bind (u32_at bs offset 0 ''data-directory RVA'') (\<lambda>rva.
     out_bind (u32_at bs offset 4 ''data-directory size'') (\<lambda>size'.
     Returns (directories @ [\<lparr>dd_rva = rva, dd_size = size'\<rparr>]))))))"

definition parse_directories :: "bytes \<Rightarrow> nat \<Rightarrow> nat \<Rightarrow> nat \<Rightarrow> nat \<Rightarrow> DataDirectory list parsed" where
  "parse_directories bs optional optional_size directory_offset count =
     out_bind (out_some (checked_mul_usize count 8) (invalid [Text ''data-directory table size overflow'']))
       (\<lambda>bytes_needed.
     if (case checked_add_usize directory_offset bytes_needed of None \<Rightarrow> True | Some stop \<Rightarrow> stop > optional_size)
     then Fails (invalid [Text ''data-directory table exceeds optional header''])
     else for_each (parse_directory bs optional directory_offset) [0..<count] [])"

definition parse_section :: "bytes \<Rightarrow> nat \<Rightarrow> nat \<Rightarrow> PeSection list \<Rightarrow> PeSection list parsed" where
  "parse_section bs sections_offset k sections =
     out_bind (mul_usize k SECTION_HEADER_BYTES) (\<lambda>delta.
     out_bind (add_usize sections_offset delta) (\<lambda>offset.
     out_bind (add_usize offset 8) (\<lambda>stop.
     out_bind (slice bs offset stop) (\<lambda>name_bytes.
     let name_end = (case position (\<lambda>b. b = 0) name_bytes of Some n \<Rightarrow> n | None \<Rightarrow> 8)
     in out_bind (add_usize offset name_end) (\<lambda>stop.
        out_bind (slice bs offset stop) (\<lambda>name.
        out_bind (u32_at bs offset 8 ''section virtual size'') (\<lambda>virtual_size.
        out_bind (u32_at bs offset 12 ''section virtual address'') (\<lambda>virtual_address.
        out_bind (u32_at bs offset 16 ''section raw size'') (\<lambda>raw_size.
        out_bind (u32_at bs offset 20 ''section raw offset'') (\<lambda>raw_offset.
        out_bind (u32_at bs offset 36 ''section characteristics'') (\<lambda>characteristics.
        Returns (sections @ [\<lparr>ps_name = from_utf8_lossy name, ps_virtual_address = virtual_address,
          ps_virtual_size = virtual_size, ps_raw_offset = raw_offset, ps_raw_size = raw_size,
          ps_characteristics = characteristics\<rparr>]))))))))))))"

fun validate_section_ranges :: "bytes \<Rightarrow> PeSection list \<Rightarrow> unit parsed" where
  "validate_section_ranges bs [] = Returns ()"
| "validate_section_ranges bs (sec # sections) =
     (if ps_raw_size sec = 0 then validate_section_ranges bs sections
      else out_bind (require bs (unat (ps_raw_offset sec)) (unat (ps_raw_size sec)) [Text ''section '', Dbg (ps_name sec)])
             (\<lambda>_. validate_section_ranges bs sections))"

definition parse_optional :: "bytes \<Rightarrow> nat \<Rightarrow> nat \<Rightarrow> (PeKind \<times> nat \<times> nat \<times> u64) parsed" where
  "parse_optional bs optional optional_size =
     out_bind (u16_at bs optional 0 ''optional header magic'') (\<lambda>magic.
     if magic = 0x010b
     then out_bind (require_optional optional_size 96 [Text ''PE32 optional header'']) (\<lambda>_.
          out_bind (u32_at bs optional 28 ''PE32 image base'') (\<lambda>base.
          Returns (Pe32, 96, 92, ucast base)))
     else if magic = 0x020b
     then out_bind (require_optional optional_size 112 [Text ''PE32+ optional header'']) (\<lambda>_.
          out_bind (u64_at bs optional 24 ''PE32+ image base'') (\<lambda>base.
          Returns (Pe32Plus, 112, 108, base)))
     else Fails (invalid [Text ''unsupported optional-header magic 0x'', Hex 4 (unat magic)]))"

definition inconsistent :: "PeMachine \<Rightarrow> PeKind \<Rightarrow> bool" where
  "inconsistent machine kind \<longleftrightarrow>
     (machine \<in> {X86, Arm, Thumb, ArmNt} \<and> kind = Pe32Plus) \<or> (machine \<in> {X86_64, Arm64} \<and> kind = Pe32)"

definition get :: "'a list \<Rightarrow> nat \<Rightarrow> 'a option" where
  "get xs i = (if i < length xs then Some (xs ! i) else None)"

definition directory_imports :: "PeLayout \<Rightarrow> PeKind \<Rightarrow> DataDirectory list \<Rightarrow> PeImport list parsed" where
  "directory_imports layout kind directories =
     (case get directories IMAGE_DIRECTORY_ENTRY_IMPORT of
        Some directory \<Rightarrow> if dd_rva directory \<noteq> 0 then parse_imports layout kind directory else Returns []
      | None \<Rightarrow> Returns [])"

definition directory_managed :: "PeLayout \<Rightarrow> DataDirectory list \<Rightarrow> bool parsed" where
  "directory_managed layout directories =
     (case get directories IMAGE_DIRECTORY_ENTRY_COM_DESCRIPTOR of
        Some directory \<Rightarrow>
          if dd_rva directory \<noteq> 0 \<and> dd_size directory \<noteq> 0
          then let len = unat (dd_size directory)
            in if len < COR20_HEADER_BYTES
               then Fails (invalid [Text ''CLR header is '', Num len, Text '' bytes; at least '',
                      Num COR20_HEADER_BYTES, Text '' are required''])
               else out_bind (rva_to_offset layout (dd_rva directory) len [Text ''CLR header'']) (\<lambda>_. Returns True)
          else Returns False
      | None \<Rightarrow> Returns False)"

definition directory_certificate :: "bytes \<Rightarrow> DataDirectory list \<Rightarrow> bool parsed" where
  "directory_certificate bs directories =
     (case get directories IMAGE_DIRECTORY_ENTRY_SECURITY of
        Some directory \<Rightarrow>
          if dd_rva directory \<noteq> 0 \<and> dd_size directory \<noteq> 0
          then out_bind (require bs (unat (dd_rva directory)) (unat (dd_size directory)) [Text ''certificate table''])
                 (\<lambda>_. Returns True)
          else Returns False
      | None \<Rightarrow> Returns False)"

text \<open>The COFF header and everything after it.\<close>

definition parse_image :: "bytes \<Rightarrow> nat \<Rightarrow> PeImage parsed" where
  "parse_image bs coff =
     out_bind (u16_at bs coff 0 ''COFF machine'') (\<lambda>raw_machine.
     let machine = machine_from_raw raw_machine
     in out_bind (u16_at bs coff 2 ''section count'') (\<lambda>section_count.
     let number_of_sections = unat section_count
     in if number_of_sections > 96
     then Fails (invalid [Text ''unreasonable section count '', Num number_of_sections])
     else out_bind (u32_at bs coff 4 ''COFF timestamp'') (\<lambda>timestamp.
     out_bind (u16_at bs coff 16 ''optional header size'') (\<lambda>raw_optional_size.
     let optional_size = unat raw_optional_size
     in out_bind (u16_at bs coff 18 ''COFF characteristics'') (\<lambda>characteristics.
     out_bind (pe_checked_add coff COFF_HEADER_BYTES [Text ''optional header offset'']) (\<lambda>optional.
     out_bind (require bs optional optional_size [Text ''optional header'']) (\<lambda>_.
     out_bind (parse_optional bs optional optional_size)
       (\<lambda>(kind, data_directory_offset, directory_count_offset, image_base).
     if inconsistent machine kind
     then Fails (invalid ([Text ''machine ''] @ machine_display machine
            @ [Text '' is inconsistent with '', Disp (pe_kind_display kind)]))
     else out_bind (u32_at bs optional 16 ''entry point'') (\<lambda>entry_point_rva.
     out_bind (u32_at bs optional 56 ''image size'') (\<lambda>size_of_image.
     out_bind (u32_at bs optional 60 ''header size'') (\<lambda>size_of_headers.
     out_bind (u16_at bs optional 68 ''subsystem'') (\<lambda>raw_subsystem.
     out_bind (u32_at bs optional directory_count_offset ''data-directory count'') (\<lambda>raw_directory_count.
     let directory_count = min (unat raw_directory_count) 16
     in out_bind (parse_directories bs optional optional_size data_directory_offset directory_count) (\<lambda>directories.
     out_bind (pe_checked_add optional optional_size [Text ''section table offset'']) (\<lambda>sections_offset.
     out_bind (out_some (checked_mul_usize number_of_sections SECTION_HEADER_BYTES)
       (invalid [Text ''section table size overflow''])) (\<lambda>section_table_bytes.
     out_bind (require bs sections_offset section_table_bytes [Text ''section table'']) (\<lambda>_.
     out_bind (for_each (parse_section bs sections_offset) [0..<number_of_sections] []) (\<lambda>sections.
     out_bind (validate_section_ranges bs sections) (\<lambda>_.
     let layout = \<lparr>pl_bytes = bs, pl_size_of_headers = size_of_headers, pl_sections = sections\<rparr>
     in out_bind (directory_imports layout kind directories) (\<lambda>imports.
     out_bind (directory_managed layout directories) (\<lambda>is_managed.
     out_bind (directory_certificate bs directories) (\<lambda>has_certificate_table.
     Returns \<lparr>pe_kind = kind, pe_machine = machine, pe_subsystem = subsystem_from_raw raw_subsystem,
       pe_timestamp = timestamp, pe_characteristics = characteristics, pe_entry_point_rva = entry_point_rva,
       pe_image_base = image_base, pe_size_of_image = size_of_image,
       pe_is_dll = (characteristics AND IMAGE_FILE_DLL \<noteq> 0), pe_is_managed = is_managed,
       pe_has_certificate_table = has_certificate_table, pe_sections = sections,
       pe_imports = imports\<rparr>))))))))))))))))))))))"

definition pe_parse :: "bytes \<Rightarrow> PeImage parsed" where
  "pe_parse bs =
     out_bind (require bs 0 DOS_HEADER_BYTES [Text ''DOS header'']) (\<lambda>_.
     out_bind (slice bs 0 2) (\<lambda>mz.
     if mz \<noteq> [0x4D, 0x5A] then Fails (invalid [Text ''missing DOS MZ signature''])
     else out_bind (read_u32 bs 0x3c [Text ''PE header offset'']) (\<lambda>raw_pe_offset.
     let pe_offset = unat raw_pe_offset
     in out_bind (require bs pe_offset (4 + COFF_HEADER_BYTES) [Text ''PE/COFF header'']) (\<lambda>_.
     out_bind (add_usize pe_offset 4) (\<lambda>stop.
     out_bind (slice bs pe_offset stop) (\<lambda>signature.
     if signature \<noteq> [0x50, 0x45, 0, 0] then Fails (invalid [Text ''missing PE signature''])
     else out_bind (pe_checked_add pe_offset 4 [Text ''COFF header offset'']) (\<lambda>coff.
     parse_image bs coff)))))))"

text \<open>\<open>PeImage::read\<close> on the outcome of opening and reading the file.\<close>

definition pe_read :: "string \<Rightarrow> io_error + bytes \<Rightarrow> PeImage parsed" where
  "pe_read path content =
     (case content of
        Inl e \<Rightarrow> Fails (LswIo e)
      | Inr bs \<Rightarrow>
          let bs = take (MAX_PE_BYTES + 1) bs
          in if length bs > MAX_PE_BYTES
             then Fails (invalid [Disp path, Text '' is larger than the '', Num (MAX_PE_BYTES div 1024 div 1024),
                    Text '' MiB inspection limit''])
             else pe_parse bs)"

definition imported_symbol_count :: "PeImage \<Rightarrow> nat" where
  "imported_symbol_count pe = sum_list (map (\<lambda>import. length (pi_symbols import)) (pe_imports pe))"


section \<open>Assessment\<close>

datatype PeSupportLevel = Supported | Conditional | Unsupported

primrec support_level_display :: "PeSupportLevel \<Rightarrow> string" where
  "support_level_display Supported = ''supported''"
| "support_level_display Conditional = ''conditional''"
| "support_level_display Unsupported = ''unsupported''"

primrec rank :: "PeSupportLevel \<Rightarrow> u8" where
  "rank Supported = 0"
| "rank Conditional = 1"
| "rank Unsupported = 2"

instantiation PeSupportLevel :: linorder
begin

definition less_eq_PeSupportLevel :: "PeSupportLevel \<Rightarrow> PeSupportLevel \<Rightarrow> bool" where
  "less_eq_PeSupportLevel a b \<longleftrightarrow> rank a \<le> rank b"

definition less_PeSupportLevel :: "PeSupportLevel \<Rightarrow> PeSupportLevel \<Rightarrow> bool" where
  "less_PeSupportLevel a b \<longleftrightarrow> rank a < rank b"

instance
proof
  fix a b c :: PeSupportLevel
  show "a < b \<longleftrightarrow> a \<le> b \<and> \<not> b \<le> a" by (auto simp: less_PeSupportLevel_def less_eq_PeSupportLevel_def)
  show "a \<le> a" by (simp add: less_eq_PeSupportLevel_def)
  show "a \<le> b \<Longrightarrow> b \<le> c \<Longrightarrow> a \<le> c" by (simp add: less_eq_PeSupportLevel_def)
  show "a \<le> b \<Longrightarrow> b \<le> a \<Longrightarrow> a = b" by (cases a; cases b) (simp_all add: less_eq_PeSupportLevel_def word_le_nat_alt)
  show "a \<le> b \<or> b \<le> a" by (auto simp: less_eq_PeSupportLevel_def)
qed

end

record PeAssessment =
  as_level :: PeSupportLevel
  as_notes :: "message list"

primrec assess_machine :: "PeMachine \<Rightarrow> PeSupportLevel \<times> message list" where
  "assess_machine X86_64 = (Supported, [])"
| "assess_machine X86 = (Conditional, [[Text ''x86 relies on the Windows x64 guest's WoW64 components; official LSW profiles preserve them'']])"
| "assess_machine Arm = (Unsupported, [[Text ''the beta guest is Windows 11 x64, not Windows on Arm'']])"
| "assess_machine Thumb = (Unsupported, [[Text ''the beta guest is Windows 11 x64, not Windows on Arm'']])"
| "assess_machine ArmNt = (Unsupported, [[Text ''the beta guest is Windows 11 x64, not Windows on Arm'']])"
| "assess_machine Arm64 = (Unsupported, [[Text ''the beta guest is Windows 11 x64, not Windows on Arm'']])"
| "assess_machine (UnknownMachine value) =
     (Unsupported, [[Text ''machine 0x'', Hex 4 (unat value), Text '' is not recognized by this LSW build'']])"

definition assess_subsystem :: "PeSubsystem \<Rightarrow> PeSupportLevel \<times> message list \<Rightarrow> PeSupportLevel \<times> message list" where
  "assess_subsystem subsystem = (\<lambda>(level, notes).
     case subsystem of
       WindowsGui \<Rightarrow> (max level Conditional, notes @ [[Text ''the program can run in the guest, but per-window Linux desktop integration is not in this beta'']])
     | WindowsConsole \<Rightarrow> (level, notes)
     | UnknownSubsystem \<Rightarrow> (Unsupported, notes @ [[Text ''the PE subsystem is not recognized as a supported Windows 11 user-mode application'']])
     | Other _ \<Rightarrow> (Unsupported, notes @ [[Text ''the PE subsystem is not recognized as a supported Windows 11 user-mode application'']])
     | _ \<Rightarrow> (Unsupported, notes @ [[Text ''this subsystem is not a normal user-mode Windows application'']]))"

definition assess_for_beta :: "PeImage \<Rightarrow> PeAssessment" where
  "assess_for_beta pe =
     (let (level, notes) = assess_subsystem (pe_subsystem pe) (assess_machine (pe_machine pe));
          (level, notes) =
            (if pe_is_dll pe
             then (max level Conditional, notes @ [[Text ''this is a DLL and must be loaded by a guest process'']])
             else (level, notes));
          (level, notes) =
            (if pe_is_managed pe
             then (max level Conditional, notes @ [[Text ''managed assemblies require their matching .NET runtime in the Windows guest unless self-contained'']])
             else (level, notes));
          notes = (if notes = [] then [[Text ''the image shape is compatible with the Windows 11 x64 beta guest'']] else notes)
      in \<lparr>as_level = level, as_notes = notes\<rparr>)"


section \<open>Weakest preconditions of the readers\<close>

text \<open>A slice holds at most \<open>isize::MAX\<close> bytes.\<close>

definition slice_ok :: "bytes \<Rightarrow> bool" where
  "slice_ok bs \<longleftrightarrow> length bs < 2 ^ 63"

lemma slice_ok_usize: "slice_ok bs \<Longrightarrow> n \<le> length bs \<Longrightarrow> k \<le> 2 ^ 63 \<Longrightarrow> n + k < usize_limit"
  by (simp add: slice_ok_def usize_limit_def)

lemma require_ends [ends_intro]:
  "slice_ok bs \<Longrightarrow> (offset + len \<le> length bs \<Longrightarrow> Q ()) \<Longrightarrow> ends (require bs offset len what) Q"
  by (auto simp: require_def checked_add_usize_def ends_def)

lemma require_optional_ends [ends_intro]:
  "(minimum \<le> actual \<Longrightarrow> Q ()) \<Longrightarrow> ends (require_optional actual minimum what) Q"
  by (auto simp: require_optional_def ends_def)

lemma pe_checked_add_ends [ends_intro]: "Q (a + b) \<Longrightarrow> ends (pe_checked_add a b what) Q"
  unfolding pe_checked_add_def by (intro ends_intro) (auto simp: checked_add_usize_def split: if_splits)

lemma index_each_in:
  "slice_ok bs \<Longrightarrow> \<forall>k \<in> set ks. offset + k < length bs \<Longrightarrow>
    index_each bs offset ks = Returns (map (\<lambda>k. bs ! (offset + k)) ks)"
proof (induction ks)
  case (Cons k ks)
  then have "offset + k < usize_limit" using slice_ok_usize [of bs "offset + k" 0] by simp
  with Cons show ?case by (simp add: add_usize_def index_def)
qed simp

lemma index_each_ends [ends_intro]:
  "slice_ok bs \<Longrightarrow> \<forall>k \<in> set ks. offset + k < length bs \<Longrightarrow> (\<And>r. Q r) \<Longrightarrow> ends (index_each bs offset ks) Q"
  by (simp add: index_each_in)

lemma read_ends [ends_intro]:
  fixes P :: "u16 \<Rightarrow> bool" and Q :: "u32 \<Rightarrow> bool" and R :: "u64 \<Rightarrow> bool"
  shows "slice_ok bs \<Longrightarrow> (\<And>v. offset + 2 \<le> length bs \<Longrightarrow> P v) \<Longrightarrow> ends (read_u16 bs offset what) P"
    and "slice_ok bs \<Longrightarrow> (\<And>v. offset + 4 \<le> length bs \<Longrightarrow> Q v) \<Longrightarrow> ends (read_u32 bs offset what) Q"
    and "slice_ok bs \<Longrightarrow> (\<And>v. offset + 8 \<le> length bs \<Longrightarrow> R v) \<Longrightarrow> ends (read_u64 bs offset what) R"
  unfolding read_u16_def read_u32_def read_u64_def
  by (auto simp del: index_each.simps intro!: ends_intro)

lemma at_ends [ends_intro]:
  fixes P :: "u16 \<Rightarrow> bool" and Q :: "u32 \<Rightarrow> bool" and R :: "u64 \<Rightarrow> bool"
  assumes "slice_ok bs" and "base \<le> length bs" and "k \<le> 2 ^ 63"
  shows "(\<And>v. base + k + 2 \<le> length bs \<Longrightarrow> P v) \<Longrightarrow> ends (u16_at bs base k what) P"
    and "(\<And>v. base + k + 4 \<le> length bs \<Longrightarrow> Q v) \<Longrightarrow> ends (u32_at bs base k what) Q"
    and "(\<And>v. base + k + 8 \<le> length bs \<Longrightarrow> R v) \<Longrightarrow> ends (u64_at bs base k what) R"
  using slice_ok_usize [OF assms] assms(1)
  unfolding u16_at_def u32_at_def u64_at_def by (auto intro!: ends_intro)

text \<open>A span lies in the file and is not empty at its start.\<close>

lemma section_span_ends:
  assumes "slice_ok bs" and "\<And>offset n. offset + n \<le> length bs \<Longrightarrow> Q (offset, n)"
  shows "ends (section_span bs rva what sections) Q"
proof (induction sections)
  case (Cons sec sections)
  then show ?case
    using assms by (auto simp: Let_def intro!: ends_intro split: option.splits)
qed simp

lemma rva_span_ends [ends_intro]:
  assumes "slice_ok (pl_bytes layout)"
    and "\<And>offset n. offset + n \<le> length (pl_bytes layout) \<Longrightarrow> Q (offset, n)"
  shows "ends (rva_span layout rva what) Q"
  unfolding rva_span_def Let_def
  using assms by (auto intro!: ends_intro section_span_ends)

lemma rva_to_offset_ends [ends_intro]:
  assumes "slice_ok (pl_bytes layout)" and "\<And>offset. offset + len \<le> length (pl_bytes layout) \<Longrightarrow> Q offset"
  shows "ends (rva_to_offset layout rva len what) Q"
  unfolding rva_to_offset_def using assms by (auto intro!: ends_intro)

lemma position_Some: "position P xs = Some n \<Longrightarrow> n < length xs \<and> P (xs ! n) \<and> (\<forall>i < n. \<not> P (xs ! i))"
proof (induction xs arbitrary: n)
  case (Cons x xs)
  then show ?case by (cases n) (auto simp: less_Suc_eq_0_disj split: if_splits)
qed simp

text \<open>The names the inspector reports.\<close>

definition pe_name_ok :: "string \<Rightarrow> bool" where
  "pe_name_ok s \<longleftrightarrow> s \<noteq> [] \<and> length s < MAX_IMPORT_NAME_BYTES \<and> utf8_valid s \<and> 0 \<notin> set (as_bytes s)"

lemma c_string_ends:
  assumes "\<And>s. pe_name_ok s \<Longrightarrow> Q s"
  shows "ends (out_bind (out_some (position (\<lambda>b. b = 0) (take MAX_IMPORT_NAME_BYTES available)) e) (\<lambda>len.
    out_bind (slice available 0 len) (\<lambda>bs.
    out_bind (out_some (from_utf8 bs) e') (\<lambda>value. if value = [] then Fails e'' else Returns value)))) Q"
proof (intro ends_intro)
  fix n s
  assume n: "position (\<lambda>b. b = 0) (take MAX_IMPORT_NAME_BYTES available) = Some n"
    and s: "from_utf8 (take (n - 0) (drop 0 available)) = Some s" "s \<noteq> []"
  from position_Some [OF n] have n: "n < MAX_IMPORT_NAME_BYTES" "n < length available" "\<forall>i < n. available ! i \<noteq> 0"
    by auto
  then have "0 \<notin> set (take n available)" by (auto simp: in_set_conv_nth)
  moreover from s have "as_bytes s = take n available" "utf8_valid s" by (auto simp: from_utf8_Some)
  moreover have "length s = n" using n calculation length_as_bytes [of s] by simp
  ultimately show "Q s" using n s by (intro assms) (simp add: pe_name_ok_def)
qed (auto dest: position_Some)

lemma read_rva_c_string_ends [ends_intro]:
  assumes "slice_ok (pl_bytes layout)" and "\<And>s. pe_name_ok s \<Longrightarrow> Q s"
  shows "ends (read_rva_c_string layout rva what) Q"
  unfolding read_rva_c_string_def
proof (rule ends_bind, rule rva_span_ends [OF assms(1)], unfold case_prod_conv, rule ends_bind, rule ends_add_usize)
  fix offset n
  assume span: "offset + n \<le> length (pl_bytes layout)"
  then show "offset + n < usize_limit" using slice_ok_usize [OF assms(1), of "offset + n" 0] by simp
  from span show "ends (out_bind (slice (pl_bytes layout) offset (offset + n)) (\<lambda>available.
      out_bind (out_some (position (\<lambda>b. b = 0) (take MAX_IMPORT_NAME_BYTES available))
        (invalid (what @ [Text '' is not NUL-terminated'']))) (\<lambda>len.
      out_bind (slice available 0 len) (\<lambda>bs.
      out_bind (out_some (from_utf8 bs) (invalid (what @ [Text '' is not UTF-8/ASCII'']))) (\<lambda>value.
      if value = [] then Fails (invalid (what @ [Text '' is empty''])) else Returns value))))) Q"
    by (intro ends_bind ends_slice c_string_ends assms(2)) simp_all
qed


section \<open>Budgets\<close>

definition symbol_bytes :: "PeImportSymbol \<Rightarrow> nat" where
  "symbol_bytes s = (case s of Name _ name \<Rightarrow> length name | Ordinal _ \<Rightarrow> 0)"

definition symbol_ok :: "PeImportSymbol \<Rightarrow> bool" where
  "symbol_ok s \<longleftrightarrow> (case s of Name _ name \<Rightarrow> pe_name_ok name | Ordinal _ \<Rightarrow> True)"

lemma consume_symbol_ends [ends_intro]:
  "(\<And>b. ib_symbols_remaining budget = Suc (ib_symbols_remaining b) \<Longrightarrow>
      ib_string_bytes_remaining b = ib_string_bytes_remaining budget \<Longrightarrow> Q b) \<Longrightarrow> ends (consume_symbol budget) Q"
  unfolding consume_symbol_def by (intro ends_intro) (auto simp: checked_sub_usize_def split: if_splits)

lemma consume_string_ends [ends_intro]:
  "(\<And>b. ib_string_bytes_remaining budget = length s + ib_string_bytes_remaining b \<Longrightarrow>
      ib_symbols_remaining b = ib_symbols_remaining budget \<Longrightarrow> Q b) \<Longrightarrow> ends (consume_string budget s what) Q"
  unfolding consume_string_def by (intro ends_intro) (auto simp: checked_sub_usize_def split: if_splits)

lemma table_rva_ends [ends_intro]: "k * width < usize_limit \<Longrightarrow> (\<And>v. Q v) \<Longrightarrow> ends (table_rva base k width what) Q"
  unfolding table_rva_def by (intro ends_intro) simp_all

lemma read_thunk_ends [ends_intro]:
  "slice_ok (pl_bytes layout) \<Longrightarrow> k < MAX_IMPORTS_PER_DLL \<Longrightarrow> (\<And>v. Q v) \<Longrightarrow> ends (read_thunk layout kind rva k) Q"
  unfolding read_thunk_def Let_def
  by (cases kind) (auto simp: thunk_shape_def pe_constants usize_limit_def intro!: ends_intro)

lemma read_import_name_ends [ends_intro]:
  assumes "slice_ok (pl_bytes layout)"
    and "\<And>s b. symbol_ok s \<Longrightarrow> ib_symbols_remaining b = ib_symbols_remaining budget \<Longrightarrow>
      ib_string_bytes_remaining budget = symbol_bytes s + ib_string_bytes_remaining b \<Longrightarrow> Q (s, b)"
  shows "ends (read_import_name layout value budget) Q"
  unfolding read_import_name_def
  using assms by (intro ends_intro) (auto simp: symbol_ok_def symbol_bytes_def)

definition thunks_ok :: "ImportBudget \<Rightarrow> PeImportSymbol list \<Rightarrow> PeImportSymbol list \<times> ImportBudget \<Rightarrow> bool" where
  "thunks_ok budget symbols = (\<lambda>(ss, b). (\<forall>s \<in> set ss. symbol_ok s)
     \<and> length ss + ib_symbols_remaining b = length symbols + ib_symbols_remaining budget
     \<and> sum_list (map symbol_bytes ss) + ib_string_bytes_remaining b
         = sum_list (map symbol_bytes symbols) + ib_string_bytes_remaining budget)"

lemma thunk_loop_ends:
  "slice_ok (pl_bytes layout) \<Longrightarrow> \<forall>s \<in> set symbols. symbol_ok s \<Longrightarrow>
    ends (thunk_loop layout kind rva k budget symbols) (thunks_ok budget symbols)"
proof (induction layout kind rva k budget symbols rule: thunk_loop.induct)
  case (1 layout kind rva k budget symbols)
  show ?case
  proof (subst thunk_loop.simps, intro ends_intro "1.prems"(1))
    fix v :: u64 and b :: ImportBudget
    assume k: "\<not> \<not> k < MAX_IMPORTS_PER_DLL" and v: "v \<noteq> 0"
      and b: "ib_symbols_remaining budget = Suc (ib_symbols_remaining b)"
        "ib_string_bytes_remaining b = ib_string_bytes_remaining budget"
    let ?more = "\<lambda>symbol b. thunk_loop layout kind rva (Suc k) b (symbols @ [symbol])"
    show "ends (?more (Ordinal (ucast (v AND 0xffff))) b) (thunks_ok budget symbols)"
      if "v AND snd (thunk_shape kind) \<noteq> 0"
      by (rule ends_mono [OF "1.IH"(1) [OF k v that "1.prems"(1)]])
        (use "1.prems" b in \<open>auto simp: thunks_ok_def symbol_ok_def symbol_bytes_def\<close>)
    show "ends (case (s, b') of (symbol, budget) \<Rightarrow> ?more symbol budget) (thunks_ok budget symbols)"
      if "\<not> v AND snd (thunk_shape kind) \<noteq> 0" "symbol_ok s" "ib_symbols_remaining b' = ib_symbols_remaining b"
        "ib_string_bytes_remaining b = symbol_bytes s + ib_string_bytes_remaining b'" for s b'
      unfolding case_prod_conv
      by (rule ends_mono [OF "1.IH"(2) [OF k v that(1) "1.prems"(1)]])
        (use "1.prems" b that in \<open>auto simp: thunks_ok_def\<close>)
  qed (use "1.prems" in \<open>simp_all add: thunks_ok_def\<close>)
qed

definition import_bytes :: "PeImport \<Rightarrow> nat" where
  "import_bytes i = length (pi_dll i) + sum_list (map symbol_bytes (pi_symbols i))"

definition import_ok :: "PeImport \<Rightarrow> bool" where
  "import_ok i \<longleftrightarrow> pe_name_ok (pi_dll i) \<and> (\<forall>s \<in> set (pi_symbols i). symbol_ok s)"

lemma read_descriptor_ends [ends_intro]:
  assumes "slice_ok (pl_bytes layout)" and "k < MAX_IMPORT_DESCRIPTORS" and "\<And>d. Q d"
  shows "ends (read_descriptor layout rva k) Q"
  unfolding read_descriptor_def
  using assms by (intro ends_intro) (auto simp: pe_constants usize_limit_def)

lemma read_import_ends [ends_intro]:
  assumes "slice_ok (pl_bytes layout)"
    and "\<And>i b. import_ok i \<Longrightarrow>
      length (pi_symbols i) + ib_symbols_remaining b = ib_symbols_remaining budget \<Longrightarrow>
      import_bytes i + ib_string_bytes_remaining b = ib_string_bytes_remaining budget \<Longrightarrow> Q (i, b)"
  shows "ends (read_import layout kind d budget) Q"
  unfolding read_import_def Let_def
proof (intro ends_intro assms(1))
  fix dll and b :: ImportBudget
  let ?rva = "if id_original_first_thunk d \<noteq> 0 then id_original_first_thunk d else id_first_thunk d"
  let ?rest = "\<lambda>x. case x of (symbols, budget) \<Rightarrow> Returns (\<lparr>pi_dll = dll, pi_symbols = symbols\<rparr>, budget)"
  assume dll: "pe_name_ok dll" and b: "ib_string_bytes_remaining budget = length dll + ib_string_bytes_remaining b"
    "ib_symbols_remaining b = ib_symbols_remaining budget"
  have result: "ends (?rest x) Q" if "thunks_ok b [] x" for x
    using that dll b by (cases x) (auto simp: thunks_ok_def import_ok_def import_bytes_def intro!: assms(2))
  show "ends (?rest ([], b)) Q" if "?rva = 0"
    by (rule result) (simp add: thunks_ok_def)
  show "ends (parse_import_thunks layout kind ?rva b) (\<lambda>x. ends (?rest x) Q)" if "?rva \<noteq> 0"
    unfolding parse_import_thunks_def
    by (rule ends_mono [OF thunk_loop_ends [OF assms(1)] result]) simp_all
qed

definition imports_ok :: "ImportBudget \<Rightarrow> PeImport list \<Rightarrow> bool" where
  "imports_ok budget is \<longleftrightarrow> (\<forall>i \<in> set is. import_ok i)
     \<and> sum_list (map (\<lambda>i. length (pi_symbols i)) is) + ib_symbols_remaining budget \<le> MAX_TOTAL_IMPORT_SYMBOLS
     \<and> sum_list (map import_bytes is) + ib_string_bytes_remaining budget \<le> MAX_TOTAL_IMPORT_STRING_BYTES"

lemma import_loop_ends:
  "slice_ok (pl_bytes layout) \<Longrightarrow> imports_ok budget is \<Longrightarrow> length is = k \<Longrightarrow> limit \<le> MAX_IMPORT_DESCRIPTORS \<Longrightarrow>
    ends (import_loop layout kind rva limit k budget is) (\<lambda>is'. (\<exists>b. imports_ok b is') \<and> length is' < limit)"
proof (induction layout kind rva limit k budget "is" rule: import_loop.induct)
  case (1 layout kind rva limit k budget "is")
  show ?case
  proof (subst import_loop.simps, intro ends_intro "1.prems"(1))
    fix d :: ImportDescriptor and i and b :: ImportBudget
    assume k: "\<not> \<not> k < limit" and d: "\<not> (id_original_first_thunk d = 0 \<and> id_timestamp d = 0 \<and> id_forwarder_chain d = 0
        \<and> id_name_rva d = 0 \<and> id_first_thunk d = 0)"
      and i: "import_ok i" "length (pi_symbols i) + ib_symbols_remaining b = ib_symbols_remaining budget"
        "import_bytes i + ib_string_bytes_remaining b = ib_string_bytes_remaining budget"
    from "1.prems" k i show "ends (case (i, b) of (import, budget) \<Rightarrow>
        import_loop layout kind rva limit (Suc k) budget (is @ [import]))
      (\<lambda>is'. (\<exists>b. imports_ok b is') \<and> length is' < limit)"
      unfolding case_prod_conv by (intro "1.IH" [OF k d]) (auto simp: imports_ok_def)
  qed (use "1.prems" in auto)
qed

lemma parse_imports_ends [ends_intro]:
  assumes "slice_ok (pl_bytes layout)"
    and "\<And>is b. imports_ok b is \<Longrightarrow> length is < MAX_IMPORT_DESCRIPTORS \<Longrightarrow> Q is"
  shows "ends (parse_imports layout kind directory) Q"
proof -
  have start: "imports_ok import_budget_new []" by (simp add: imports_ok_def import_budget_new_def)
  have "ends (import_loop layout kind (dd_rva directory) limit 0 import_budget_new []) Q"
    if "limit \<le> MAX_IMPORT_DESCRIPTORS" for limit
    using that assms(2) by (auto intro: ends_mono [OF import_loop_ends [OF assms(1) start _ that]])
  then show ?thesis unfolding parse_imports_def Let_def by (intro ends_intro) simp_all
qed


section \<open>Weakest preconditions of the headers\<close>

lemma parse_directories_ends [ends_intro]:
  assumes "slice_ok bs" and "optional + optional_size \<le> length bs" and "\<And>ds. length ds = count \<Longrightarrow> Q ds"
  shows "ends (parse_directories bs optional optional_size directory_offset count) Q"
  unfolding parse_directories_def
proof (intro ends_intro)
  fix needed
  assume "checked_mul_usize count 8 = Some needed"
    and "\<not> (case checked_add_usize directory_offset needed of None \<Rightarrow> True | Some stop \<Rightarrow> optional_size < stop)"
  then have room: "directory_offset + count * 8 \<le> optional_size"
    by (auto simp: checked_mul_usize_def checked_add_usize_def split: if_splits)
  have "ends (for_each (parse_directory bs optional directory_offset) [0..<count] []) (\<lambda>ds. length ds = count)"
  proof (rule ends_for_range [where I = "\<lambda>k ds. length ds = k"])
    fix k and ds :: "DataDirectory list"
    assume k: "k < count" and "length ds = k"
    then have at: "optional + directory_offset + k * 8 + 8 \<le> length bs" using room assms(2) by linarith
    then have sum: "optional + directory_offset < usize_limit" "optional + directory_offset + k * 8 < usize_limit"
      "k * 8 < usize_limit"
      using assms(1) by (simp_all add: slice_ok_def usize_limit_def)
    show "ends (parse_directory bs optional directory_offset k ds) (\<lambda>ds. length ds = Suc k)"
      unfolding parse_directory_def using assms(1) sum at \<open>length ds = k\<close> by (intro ends_intro) simp_all
  qed simp
  then show "ends (for_each (parse_directory bs optional directory_offset) [0..<count] []) Q"
    by (rule ends_mono) (rule assms(3))
qed

lemma parse_section_ends:
  assumes "slice_ok bs" and "sections_offset + n * SECTION_HEADER_BYTES \<le> length bs" and "k < n" and "length ss = k"
  shows "ends (parse_section bs sections_offset k ss) (\<lambda>ss. length ss = Suc k)"
proof -
  have "Suc k * 40 \<le> n * 40" using assms(3) by (intro mult_le_mono) simp_all
  then have at: "sections_offset + k * 40 + 40 \<le> length bs" using assms(2) by (simp add: SECTION_HEADER_BYTES_def)
  then have sum: "sections_offset + k * 40 + j < usize_limit" "k * 40 < usize_limit" if "j \<le> 40" for j
    using assms(1) that by (simp_all add: slice_ok_def usize_limit_def)
  have name: "(case position P (take 8 xs) of Some m \<Rightarrow> m | None \<Rightarrow> 8) \<le> 8" for P and xs :: bytes
    by (auto split: option.splits dest: position_Some)
  show ?thesis
    unfolding parse_section_def Let_def SECTION_HEADER_BYTES_def
    using assms(1,4) sum [of 0] sum [of 8] sum [OF order_trans [OF name]] at
    by (intro ends_intro) (simp_all add: name order_trans [OF add_left_mono [OF name]])
qed

lemma parse_sections_ends [ends_intro]:
  assumes "slice_ok bs" and "sections_offset + n * SECTION_HEADER_BYTES \<le> length bs"
    and "\<And>ss. length ss = n \<Longrightarrow> Q ss"
  shows "ends (for_each (parse_section bs sections_offset) [0..<n] []) Q"
proof (rule ends_mono)
  show "ends (for_each (parse_section bs sections_offset) [0..<n] []) (\<lambda>ss. length ss = n)"
    by (rule ends_for_range [where I = "\<lambda>k ss. length ss = k"]) (simp_all add: parse_section_ends [OF assms(1,2)])
qed (rule assms(3))

definition section_inside :: "bytes \<Rightarrow> PeSection \<Rightarrow> bool" where
  "section_inside bs sec \<longleftrightarrow> ps_raw_size sec = 0 \<or> unat (ps_raw_offset sec) + unat (ps_raw_size sec) \<le> length bs"

lemma validate_section_ranges_ends [ends_intro]:
  assumes "slice_ok bs" and "\<forall>sec \<in> set ss. section_inside bs sec \<Longrightarrow> Q ()"
  shows "ends (validate_section_ranges bs ss) Q"
proof -
  have "ends (validate_section_ranges bs ss) (\<lambda>_. \<forall>sec \<in> set ss. section_inside bs sec)"
  proof (induction ss)
    case (Cons sec ss)
    have ok: "ends (validate_section_ranges bs ss) (\<lambda>_. \<forall>x \<in> set (sec # ss). section_inside bs x)"
      if "section_inside bs sec"
      using that by (intro ends_mono [OF Cons]) simp
    show ?case
      unfolding validate_section_ranges.simps using assms(1)
      by (intro ends_intro ok) (simp_all add: section_inside_def)
  qed simp
  then show ?thesis by (rule ends_mono) (simp add: assms(2))
qed

lemma parse_optional_ends [ends_intro]:
  assumes "slice_ok bs" and "optional + optional_size \<le> length bs"
    and "\<And>kind d c b. d \<le> optional_size \<Longrightarrow> c \<le> 108 \<Longrightarrow> 96 \<le> optional_size \<Longrightarrow> Q (kind, d, c, b)"
  shows "ends (parse_optional bs optional optional_size) Q"
  unfolding parse_optional_def using assms by (intro ends_intro) simp_all

lemma directory_imports_ends [ends_intro]:
  assumes "slice_ok (pl_bytes layout)"
    and "\<And>is b. imports_ok b is \<Longrightarrow> length is < MAX_IMPORT_DESCRIPTORS \<Longrightarrow> Q is"
  shows "ends (directory_imports layout kind directories) Q"
proof -
  have "Q []" by (rule assms(2) [of import_budget_new])
    (simp_all add: imports_ok_def import_budget_new_def MAX_IMPORT_DESCRIPTORS_def)
  then show ?thesis
    unfolding directory_imports_def using assms by (auto intro!: ends_intro split: option.splits)
qed

lemma directory_managed_ends [ends_intro]:
  "slice_ok (pl_bytes layout) \<Longrightarrow> (\<And>b. Q b) \<Longrightarrow> ends (directory_managed layout directories) Q"
  unfolding directory_managed_def Let_def by (auto intro!: ends_intro split: option.splits)

lemma directory_certificate_ends [ends_intro]:
  "slice_ok bs \<Longrightarrow> (\<And>b. Q b) \<Longrightarrow> ends (directory_certificate bs directories) Q"
  unfolding directory_certificate_def by (auto intro!: ends_intro split: option.splits)

text \<open>What an accepted image satisfies.\<close>

definition pe_image_ok :: "bytes \<Rightarrow> PeImage \<Rightarrow> bool" where
  "pe_image_ok bs pe \<longleftrightarrow>
     length (pe_sections pe) \<le> 96 \<and> (\<forall>sec \<in> set (pe_sections pe). section_inside bs sec)
     \<and> length (pe_imports pe) < 4096 \<and> (\<forall>i \<in> set (pe_imports pe). import_ok i)
     \<and> imported_symbol_count pe \<le> 65536
     \<and> sum_list (map import_bytes (pe_imports pe)) \<le> 16 * 1024 * 1024
     \<and> \<not> inconsistent (pe_machine pe) (pe_kind pe)
     \<and> (pe_is_dll pe \<longleftrightarrow> bit (pe_characteristics pe) 13)"

lemma file_dll_bit: "(c :: u16) AND IMAGE_FILE_DLL \<noteq> 0 \<longleftrightarrow> bit c 13"
proof -
  have flag: "IMAGE_FILE_DLL = 2 ^ 13" by (simp add: IMAGE_FILE_DLL_def)
  show ?thesis unfolding flag by (simp only: and_exp_eq_0_iff_not_bit not_not)
qed

lemma parse_image_ends:
  assumes "slice_ok bs" and "coff + COFF_HEADER_BYTES \<le> length bs"
  shows "ends (parse_image bs coff) (pe_image_ok bs)"
  unfolding parse_image_def Let_def
  using assms
  by (intro ends_intro ends_case_prod)
    (auto simp: pe_constants pe_image_ok_def imports_ok_def imported_symbol_count_def file_dll_bit
      checked_mul_usize_def split: if_splits)

lemma pe_parse_ends:
  assumes "slice_ok bs"
  shows "ends (pe_parse bs) (pe_image_ok bs)"
  unfolding pe_parse_def Let_def
  using assms
  by (intro ends_intro parse_image_ends) (auto simp: pe_constants slice_ok_def usize_limit_def)

lemma pe_read_ends:
  "ends (pe_read path content) (\<lambda>pe. \<exists>bs. content = Inr bs \<and> length bs \<le> MAX_PE_BYTES \<and> pe_image_ok bs pe)"
proof (cases content)
  case (Inr bs)
  have "slice_ok bs" if "length bs \<le> MAX_PE_BYTES" using that by (simp add: slice_ok_def MAX_PE_BYTES_def)
  from pe_parse_ends [OF this] Inr show ?thesis
    by (auto simp: pe_read_def Let_def intro!: ends_intro elim!: ends_mono)
qed (simp add: pe_read_def)

text \<open>Raw values survive their classification.\<close>

lemma machine_raw_from_raw: "machine_raw (machine_from_raw v) = v"
  by (simp add: machine_from_raw_def)

lemma subsystem_raw_from_raw: "subsystem_raw (subsystem_from_raw v) = v"
  by (simp add: subsystem_from_raw_def)

lemma support_level_less [simp]:
  "Supported < Conditional" "Supported < Unsupported" "Conditional < Unsupported"
  "\<not> Conditional \<le> Supported" "\<not> Unsupported \<le> Supported" "\<not> Unsupported \<le> Conditional"
  "Supported \<le> level" "level \<le> Unsupported"
  by (simp_all add: less_PeSupportLevel_def less_eq_PeSupportLevel_def word_less_nat_alt word_le_nat_alt)
    (cases level; simp add: word_le_nat_alt)

lemma support_level_max [simp]:
  "max a b = Unsupported \<longleftrightarrow> a = Unsupported \<or> b = Unsupported"
  "max a b = Supported \<longleftrightarrow> a = Supported \<and> b = Supported"
  by (cases a; cases b; simp add: max_def)+

lemma assess_machine_level:
  "fst (assess_machine m) = Unsupported \<longleftrightarrow> m \<notin> {X86, X86_64}"
  "fst (assess_machine m) = Supported \<longleftrightarrow> m = X86_64"
  by (cases m; simp)+

lemma assess_subsystem_level:
  "fst (assess_subsystem s x) = Unsupported \<longleftrightarrow> s \<notin> {WindowsGui, WindowsConsole} \<or> fst x = Unsupported"
  "fst (assess_subsystem s x) = Supported \<longleftrightarrow> s = WindowsConsole \<and> fst x = Supported"
  by (cases x; cases s; simp add: assess_subsystem_def)+

lemma assess_for_beta_level:
  "as_level (assess_for_beta pe) = max (max (fst (assess_subsystem (pe_subsystem pe) (assess_machine (pe_machine pe))))
     (if pe_is_dll pe then Conditional else Supported)) (if pe_is_managed pe then Conditional else Supported)"
  by (cases "assess_subsystem (pe_subsystem pe) (assess_machine (pe_machine pe))")
    (simp add: assess_for_beta_def max_absorb1)


section \<open>Properties\<close>

text \<open>
  C17: inspecting a file never panics, whatever its bytes: no slice or index leaves the file, no
  addition, multiplication or subtraction overflows, and the loops over import tables end.
\<close>

theorem pe_inspection_never_panics: "pe_read path content \<noteq> Panics"
  using pe_read_ends [of path content] by (simp add: ends_iff)

text \<open>
  C18: an accepted image stays within the budgets that keep a hostile file from exhausting the
  host: at most 96 sections, each inside the file, fewer than 4096 imported libraries with at
  most 65536 symbols and 16 MiB of names, every name well-formed, non-empty and shorter than 4096
  bytes; its machine agrees with its kind, and it is a library exactly when bit 13 says so.
\<close>

theorem pe_image_bounded:
  assumes "pe_read path (Inr bs) = Returns pe"
  shows "length bs \<le> 512 * 1024 * 1024 \<and> pe_image_ok bs pe"
  using pe_read_ends [of path "Inr bs"] assms by (auto simp: ends_iff MAX_PE_BYTES_def)

lemma usize_limit_value [code]: "usize_limit = 18446744073709551616"
  by (simp add: usize_limit_def)

text \<open>A 32-bit library without sections or imports.\<close>

definition tiny_pe :: bytes where
  "tiny_pe = [0x4D, 0x5A] @ replicate 58 0 @ [64, 0, 0, 0] @ [0x50, 0x45, 0, 0]
     @ [0x4C, 0x01, 0, 0] @ replicate 12 0 @ [96, 0] @ [0, 0x20]
     @ [0x0B, 0x01] @ replicate 66 0 @ [3, 0] @ replicate 26 0"

lemma tiny_pe_accepted:
  "pe_read ''a.dll'' (Inr tiny_pe) = Returns \<lparr>pe_kind = Pe32, pe_machine = X86, pe_subsystem = WindowsConsole,
     pe_timestamp = 0, pe_characteristics = 0x2000, pe_entry_point_rva = 0, pe_image_base = 0, pe_size_of_image = 0,
     pe_is_dll = True, pe_is_managed = False, pe_has_certificate_table = False, pe_sections = [], pe_imports = []\<rparr>"
  by code_simp

theorem pe_image_bounded_witness:
  "\<exists>pe. pe_read ''a.dll'' (Inr tiny_pe) = Returns pe \<and> pe_image_ok tiny_pe pe"
  using pe_image_bounded [OF tiny_pe_accepted] tiny_pe_accepted by blast

text \<open>
  The verdict is the worst of its reasons: an image is unsupported exactly when its machine
  is not an x86 or its subsystem is not a Windows user interface or console, it is supported
  without conditions exactly when it is a 64-bit console program that is neither a library nor
  managed, and the verdict is always explained.
\<close>

lemma assessment_verdict:
  "(as_level (assess_for_beta pe) = Unsupported
      \<longleftrightarrow> \<not> (pe_machine pe \<in> {X86, X86_64} \<and> pe_subsystem pe \<in> {WindowsGui, WindowsConsole}))
   \<and> (as_level (assess_for_beta pe) = Supported
      \<longleftrightarrow> pe_machine pe = X86_64 \<and> pe_subsystem pe = WindowsConsole \<and> \<not> pe_is_dll pe \<and> \<not> pe_is_managed pe)
   \<and> as_notes (assess_for_beta pe) \<noteq> []"
  by (auto simp: assess_for_beta_level assess_machine_level assess_subsystem_level)
    (auto simp: assess_for_beta_def Let_def split: prod.splits if_splits)

end
