(* ===== verification/Manifest.thy ===== *)
theory Manifest
  imports Lsw_Error Rust_Str
begin

text \<open>
  The manifest of an instance (\<open>manifest.rs\<close> and \<open>profile.rs\<close> of \<open>lsw-core\<close>): the data, the rules
  it is validated against, and the text format it is stored in.
\<close>

section \<open>Enumerations\<close>

definition MANIFEST_VERSION :: u32 where "MANIFEST_VERSION = 8"
definition DEFAULT_IDLE_TIMEOUT_SECONDS :: u64 where "DEFAULT_IDLE_TIMEOUT_SECONDS = 10 * 60"
definition DEFAULT_HIBERNATE_TIMEOUT_SECONDS :: u64 where "DEFAULT_HIBERNATE_TIMEOUT_SECONDS = 5 * 60"
definition AGENT_CONTROL_PORT_START :: u16 where "AGENT_CONTROL_PORT_START = 42000"
definition AGENT_CONTROL_PORT_END_EXCLUSIVE :: u16 where "AGENT_CONTROL_PORT_END_EXCLUSIVE = 44000"

datatype NetworkMode = Nat | Offline

primrec network_mode_display :: "NetworkMode \<Rightarrow> string" where
  "network_mode_display Nat = ''nat''"
| "network_mode_display Offline = ''offline''"

definition network_mode_from_str :: "string \<Rightarrow> LswError + NetworkMode" where
  "network_mode_from_str value =
     (if value = ''nat'' then Inr Nat else if value = ''offline'' then Inr Offline
      else Inl (InvalidValue ''network mode'' [Text ''unknown mode '', Dbg value, Text ''; expected nat or offline'']))"

datatype IdlePolicy = Off | PauseHibernate

primrec idle_policy_display :: "IdlePolicy \<Rightarrow> string" where
  "idle_policy_display Off = ''off''"
| "idle_policy_display PauseHibernate = ''pause-hibernate''"

definition idle_policy_from_str :: "string \<Rightarrow> LswError + IdlePolicy" where
  "idle_policy_from_str value =
     (if value = ''off'' then Inr Off else if value = ''pause-hibernate'' then Inr PauseHibernate
      else Inl (InvalidValue ''idle policy'' [Text ''unknown policy '', Dbg value,
             Text ''; expected off or pause-hibernate'']))"

datatype FolderShareMode = ReadOnly | ReadWrite

primrec share_mode_display :: "FolderShareMode \<Rightarrow> string" where
  "share_mode_display ReadOnly = ''ro''"
| "share_mode_display ReadWrite = ''rw''"

definition share_mode_from_str :: "string \<Rightarrow> LswError + FolderShareMode" where
  "share_mode_from_str value =
     (if value = ''ro'' then Inr ReadOnly else if value = ''rw'' then Inr ReadWrite
      else Inl (InvalidValue ''folder share mode'' [Text ''unknown mode '', Dbg value, Text ''; expected ro or rw'']))"

datatype FolderShareTransport = Mirror | LiveSmb

primrec share_transport_display :: "FolderShareTransport \<Rightarrow> string" where
  "share_transport_display Mirror = ''mirror''"
| "share_transport_display LiveSmb = ''live-smb''"

definition share_transport_from_str :: "string \<Rightarrow> LswError + FolderShareTransport" where
  "share_transport_from_str value =
     (if value = ''mirror'' then Inr Mirror else if value = ''live-smb'' then Inr LiveSmb
      else Inl (InvalidValue ''folder share transport'' [Text ''unknown transport '', Dbg value,
             Text ''; expected mirror or live-smb'']))"

datatype InstanceState = Configured | Installing | Stopped | Running | Suspended | Hibernated | Failed

primrec instance_state_display :: "InstanceState \<Rightarrow> string" where
  "instance_state_display Configured = ''configured''"
| "instance_state_display Installing = ''installing''"
| "instance_state_display Stopped = ''stopped''"
| "instance_state_display Running = ''running''"
| "instance_state_display Suspended = ''suspended''"
| "instance_state_display Hibernated = ''hibernated''"
| "instance_state_display Failed = ''failed''"

definition instance_state_from_str :: "string \<Rightarrow> LswError + InstanceState" where
  "instance_state_from_str value =
     (if value = ''configured'' then Inr Configured else if value = ''installing'' then Inr Installing
      else if value = ''stopped'' then Inr Stopped else if value = ''running'' then Inr Running
      else if value = ''suspended'' then Inr Suspended else if value = ''hibernated'' then Inr Hibernated
      else if value = ''failed'' then Inr Failed
      else Inl (InvalidManifest [Text ''unknown instance state '', Dbg value]))"

datatype WindowsProfile = Vanilla | Slim | Ephemeral | Secure

primrec profile_display :: "WindowsProfile \<Rightarrow> string" where
  "profile_display Vanilla = ''vanilla''"
| "profile_display Slim = ''slim''"
| "profile_display Ephemeral = ''ephemeral''"
| "profile_display Secure = ''secure''"

definition profile_from_str :: "string \<Rightarrow> LswError + WindowsProfile" where
  "profile_from_str value =
     (if value = ''vanilla'' then Inr Vanilla else if value = ''slim'' then Inr Slim
      else Inl (InvalidValue ''profile'' [Text ''unknown profile '', Dbg value,
             Text ''; LSW supports vanilla or slim'']))"

definition profile_parse_manifest :: "string \<Rightarrow> LswError + WindowsProfile" where
  "profile_parse_manifest value =
     (if value = ''standard'' then Inr Vanilla else if value = ''ephemeral'' then Inr Ephemeral
      else if value = ''secure'' then Inr Secure else profile_from_str value)"

record SecuritySettings =
  ss_uefi :: bool
  ss_secure_boot :: bool
  ss_vtpm :: bool
  ss_test_signing_allowed :: bool
  ss_custom_driver_allowed :: bool

definition profile_security :: "WindowsProfile \<Rightarrow> SecuritySettings" where
  "profile_security profile =
     (case profile of
        Secure \<Rightarrow> \<lparr>ss_uefi = True, ss_secure_boot = True, ss_vtpm = True,
                    ss_test_signing_allowed = False, ss_custom_driver_allowed = False\<rparr>
      | _ \<Rightarrow> \<lparr>ss_uefi = True, ss_secure_boot = False, ss_vtpm = True,
               ss_test_signing_allowed = True, ss_custom_driver_allowed = True\<rparr>)"


section \<open>Names and paths\<close>

definition valid_label :: "nat \<Rightarrow> string \<Rightarrow> bool" where
  "valid_label limit name \<longleftrightarrow>
     1 \<le> length name \<and> length name \<le> limit
     \<and> list_all (\<lambda>c. is_ascii_lowercase c \<or> is_ascii_digit c \<or> c = CHR ''-'') name
     \<and> name \<noteq> [] \<and> is_ascii_alphanumeric (hd name) \<and> is_ascii_alphanumeric (last name)"

definition validate_instance_name :: "string \<Rightarrow> LswError + unit" where
  "validate_instance_name name = (if valid_label 63 name then Inr () else Inl (InvalidInstanceName name))"

definition validate_share_name :: "string \<Rightarrow> LswError + unit" where
  "validate_share_name name =
     (if valid_label 32 name then Inr ()
      else Inl (InvalidValue ''folder share name''
             [Text ''must use 1-32 lowercase letters, digits, or interior hyphens'']))"

definition validate_serializable_value :: "string \<Rightarrow> string \<Rightarrow> LswError + unit" where
  "validate_serializable_value path field =
     and_then (ok_or (path_to_str path) (InvalidValue field [Text ''path is not valid UTF-8''])) (\<lambda>path.
     if NL \<in> set path \<or> CR \<in> set path
     then Inl (InvalidValue field [Text ''path cannot contain a newline'']) else Inr ())"

definition validate_serializable_path :: "string \<Rightarrow> LswError + unit" where
  "validate_serializable_path path = validate_serializable_value path ''source ISO''"

definition RESERVED_DEVICES :: "string list" where
  "RESERVED_DEVICES = [''CON'', ''PRN'', ''AUX'', ''NUL'', ''COM1'', ''COM2'', ''COM3'', ''COM4'', ''COM5'', ''COM6'',
     ''COM7'', ''COM8'', ''COM9'', ''LPT1'', ''LPT2'', ''LPT3'', ''LPT4'', ''LPT5'', ''LPT6'', ''LPT7'', ''LPT8'', ''LPT9'']"

text \<open>The characters \<open><>:"/\|?*\<close> as scalar values.\<close>

definition RESERVED_CHARACTERS :: "nat list" where
  "RESERVED_CHARACTERS = [60, 62, 58, 34, 47, 92, 124, 63, 42]"

definition windows_path_component_is_safe :: "string \<Rightarrow> bool" where
  "windows_path_component_is_safe component =
     (if component = [] \<or> component = ''.'' \<or> component = ''..''
         \<or> ends_with_char component [CHR '' '', CHR ''.'']
         \<or> list_ex (\<lambda>c. c \<le> 0x1F \<or> c \<in> set RESERVED_CHARACTERS) (str_chars component)
      then False
      else let stem = to_ascii_uppercase (case split_once (CHR ''.'') component of
                        None \<Rightarrow> component | Some (stem, _) \<Rightarrow> stem)
        in stem \<notin> set RESERVED_DEVICES)"

definition BACKSLASH :: char where "BACKSLASH = CHR 0x5C"

definition validate_windows_absolute_path :: "string \<Rightarrow> LswError + unit" where
  "validate_windows_absolute_path path =
     (let drive_root = length path > 3 \<and> is_ascii_alphabetic (path ! 0) \<and> path ! 1 = CHR '':''
            \<and> path ! 2 \<in> {BACKSLASH, CHR ''/''};
          safe_components = drive_root
            \<and> list_all windows_path_component_is_safe (split_char [BACKSLASH, CHR ''/''] (drop 3 path))
      in if drive_root \<and> safe_components then Inr ()
         else Inl (InvalidValue ''folder share guest path''
                [Text ''must be an absolute Windows drive path without parent traversal'']))"

definition windows_roots_overlap :: "string \<Rightarrow> string \<Rightarrow> bool" where
  "windows_roots_overlap left right \<longleftrightarrow>
     (let left = to_ascii_lowercase (replace_char (CHR ''/'') BACKSLASH left);
          right = to_ascii_lowercase (replace_char (CHR ''/'') BACKSLASH right)
      in left = right
         \<or> (case strip_prefix left right of Some tail \<Rightarrow> starts_with tail [BACKSLASH] | None \<Rightarrow> False)
         \<or> (case strip_prefix right left of Some tail \<Rightarrow> starts_with tail [BACKSLASH] | None \<Rightarrow> False))"

definition core_validate_windows_user_name :: "string \<Rightarrow> LswError + unit" where
  "core_validate_windows_user_name name =
     (if is_ok (validate_windows_user_name name) then Inr ()
      else Inl (InvalidValue ''Windows user name'' [Text ''must be 1-20 UTF-16 code units and contain no Windows account-name separators or trailing space/dot'']))"


section \<open>Control ports\<close>

definition fnv_step :: "u32 \<Rightarrow> u8 \<Rightarrow> u32" where
  "fnv_step hash byte = (hash XOR ucast byte) * 16777619"

definition stable_control_port :: "string \<Rightarrow> u16" where
  "stable_control_port name =
     (let hash = foldl fnv_step 2166136261 (as_bytes name)
      in AGENT_CONTROL_PORT_START
         + ucast (hash mod ucast (AGENT_CONTROL_PORT_END_EXCLUSIVE - AGENT_CONTROL_PORT_START)))"

definition control_port_for_instance :: "string \<Rightarrow> LswError + u16" where
  "control_port_for_instance name = and_then (validate_instance_name name) (\<lambda>_. Inr (stable_control_port name))"


section \<open>Port forwards\<close>

record PortForward =
  pf_host_port :: u16
  pf_guest_port :: u16

definition port_forward_new :: "u16 \<Rightarrow> u16 \<Rightarrow> LswError + PortForward" where
  "port_forward_new host_port guest_port =
     (if host_port = 0
      then Inl (InvalidValue ''published port'' [Text ''host port must be between 1 and 65535''])
      else if guest_port = 0
      then Inl (InvalidValue ''published port'' [Text ''guest port must be between 1 and 65535''])
      else Inr \<lparr>pf_host_port = host_port, pf_guest_port = guest_port\<rparr>)"

definition port_forward_display :: "PortForward \<Rightarrow> string" where
  "port_forward_display f = decimal (unat (pf_host_port f)) @ '':'' @ decimal (unat (pf_guest_port f))"

definition parse_published_port :: "string \<Rightarrow> string \<Rightarrow> string \<Rightarrow> LswError + u16" where
  "parse_published_port value side pair =
     (case parse_word value of
        Inl e \<Rightarrow> Inl (InvalidValue ''published port'' [Text ''invalid '', Disp side, Text '' port in '', Dbg pair,
                   Text '': '', Disp e])
      | Inr port \<Rightarrow> Inr port)"

definition port_forward_from_str :: "string \<Rightarrow> LswError + PortForward" where
  "port_forward_from_str value =
     (let malformed = InvalidValue ''published port'' [Dbg value, Text '' must use HOST_PORT:GUEST_PORT syntax'']
      in and_then (ok_or (split_once (CHR '':'') value) malformed) (\<lambda>(host, guest).
         if host = [] \<or> guest = [] \<or> CHR '':'' \<in> set guest then Inl malformed
         else and_then (parse_published_port host ''host'' value) (\<lambda>host_port.
              and_then (parse_published_port guest ''guest'' value) (\<lambda>guest_port.
              port_forward_new host_port guest_port))))"

definition parse_port_forwards :: "string \<Rightarrow> LswError + PortForward list" where
  "parse_port_forwards value =
     (if value = [] then Inr []
      else collect_results (map port_forward_from_str (split_char [CHR '',''] value)))"


section \<open>The specification\<close>

record InstanceSpec =
  is_name :: string
  is_source_iso :: string
  is_profile :: WindowsProfile
  is_cpus :: u16
  is_memory_mib :: u32
  is_disk_gib :: u32
  is_network :: NetworkMode
  is_port_forwards :: "PortForward list"
  is_license_accepted :: bool
  is_allow_unsupported_requirements :: bool

fun validate_forwards :: "u16 list \<Rightarrow> PortForward list \<Rightarrow> LswError + unit" where
  "validate_forwards host_ports [] = Inr ()"
| "validate_forwards host_ports (forward # forwards) =
     and_then (port_forward_new (pf_host_port forward) (pf_guest_port forward)) (\<lambda>_.
     if AGENT_CONTROL_PORT_START \<le> pf_host_port forward \<and> pf_host_port forward < AGENT_CONTROL_PORT_END_EXCLUSIVE
     then Inl (InvalidValue ''published ports'' [Text ''host port '', Num (unat (pf_host_port forward)),
            Text '' is reserved for LSW agent control''])
     else if pf_host_port forward \<in> set host_ports
     then Inl (InvalidValue ''published ports'' [Text ''host port '', Num (unat (pf_host_port forward)),
            Text '' appears more than once''])
     else validate_forwards (pf_host_port forward # host_ports) forwards)"

definition validate_requirements :: "InstanceSpec \<Rightarrow> LswError + unit" where
  "validate_requirements spec =
     (if \<not> is_allow_unsupported_requirements spec
      then if is_cpus spec < 2
           then Inl (InvalidValue ''CPU count'' [Text ''Windows 11 profiles require at least 2 virtual CPUs; pass the explicit unsupported flag to override''])
           else if is_memory_mib spec < 4096
           then Inl (InvalidValue ''memory'' [Text ''Windows 11 profiles require at least 4096 MiB; pass the explicit unsupported flag to override''])
           else if is_disk_gib spec < 64
           then Inl (InvalidValue ''disk size'' [Text ''Windows 11 profiles require at least 64 GiB; pass the explicit unsupported flag to override''])
           else Inr ()
      else if is_memory_mib spec < 512
           then Inl (InvalidValue ''memory'' [Text ''must be at least 512 MiB even in unsupported mode''])
           else if is_disk_gib spec < 8
           then Inl (InvalidValue ''disk size'' [Text ''must be at least 8 GiB even in unsupported mode''])
           else Inr ())"

definition spec_validate :: "InstanceSpec \<Rightarrow> LswError + unit" where
  "spec_validate spec =
     and_then (validate_instance_name (is_name spec)) (\<lambda>_.
     and_then (validate_serializable_path (is_source_iso spec)) (\<lambda>_.
     if is_network spec = Offline \<and> is_port_forwards spec \<noteq> []
     then Inl (InvalidValue ''published ports'' [Text ''port publishing requires --network nat''])
     else and_then (validate_forwards [] (is_port_forwards spec)) (\<lambda>_.
     if \<not> (1 \<le> is_cpus spec \<and> is_cpus spec \<le> 256)
     then Inl (InvalidValue ''CPU count'' [Text ''must be between 1 and 256''])
     else and_then (validate_requirements spec) (\<lambda>_.
     if \<not> is_license_accepted spec
     then Inl (InvalidValue ''license acceptance'' [Text ''the user must explicitly accept the license for their installation media''])
     else Inr ()))))"

text \<open>\<open>is_file\<close> is the file system's answer for the installation medium.\<close>

definition validate_for_create :: "bool \<Rightarrow> InstanceSpec \<Rightarrow> LswError + unit" where
  "validate_for_create is_file spec =
     and_then (spec_validate spec) (\<lambda>_.
     if \<not> is_file
     then Inl (InvalidValue ''source ISO'' [Disp (path_display (is_source_iso spec)), Text '' is not a regular file''])
     else Inr ())"


section \<open>Folder shares\<close>

record FolderShare =
  sh_name :: string
  sh_host_path :: string
  sh_guest_path :: string
  sh_mode :: FolderShareMode
  sh_transport :: FolderShareTransport

definition LIVE_ROOT :: string where "LIVE_ROOT = [CHR ''L'', CHR '':'', BACKSLASH]"

definition share_validate :: "FolderShare \<Rightarrow> LswError + unit" where
  "share_validate share =
     and_then (validate_share_name (sh_name share)) (\<lambda>_.
     and_then (validate_serializable_value (sh_host_path share) ''folder share host path'') (\<lambda>_.
     if \<not> path_is_absolute (sh_host_path share) \<or> \<not> path_has_parent (sh_host_path share)
     then Inl (InvalidValue ''folder share host path'' [Text ''must be an absolute directory below the filesystem root''])
     else if sh_transport share = LiveSmb
     then if sh_mode share \<noteq> ReadWrite \<or> sh_guest_path share \<noteq> LIVE_ROOT
          then Inl (InvalidValue ''live folder share'' [Text ''must be read-write and mounted at L:'', Text [BACKSLASH]])
          else Inr ()
     else validate_windows_absolute_path (sh_guest_path share)))"

definition shares_overlap :: "FolderShare \<Rightarrow> FolderShare \<Rightarrow> bool" where
  "shares_overlap share existing \<longleftrightarrow>
     path_starts_with (sh_host_path share) (sh_host_path existing)
     \<or> path_starts_with (sh_host_path existing) (sh_host_path share)
     \<or> windows_roots_overlap (sh_guest_path share) (sh_guest_path existing)"

fun reject_overlap :: "FolderShare list \<Rightarrow> FolderShare \<Rightarrow> LswError + unit" where
  "reject_overlap [] share = Inr ()"
| "reject_overlap (existing # rest) share =
     (if shares_overlap share existing
      then Inl (InvalidValue ''folder shares'' [Text ''share roots '', Dbg (sh_name existing), Text '' and '',
             Dbg (sh_name share), Text '' overlap''])
      else reject_overlap rest share)"

text \<open>
  The loop over the shares: \<open>earlier\<close> are the shares before the current one, whose names are the set
  \<open>names\<close> of the source, and \<open>live_seen\<close> says whether one of them is live.
\<close>

fun validate_shares :: "FolderShare list \<Rightarrow> bool \<Rightarrow> FolderShare list \<Rightarrow> LswError + unit" where
  "validate_shares earlier live_seen [] = Inr ()"
| "validate_shares earlier live_seen (share # shares) =
     and_then (share_validate share) (\<lambda>_.
     if sh_transport share = LiveSmb \<and> live_seen
     then Inl (InvalidValue ''live folder shares'' [Text ''only one private QEMU SMB root can be mounted per instance''])
     else if sh_name share \<in> set (map sh_name earlier)
     then Inl (InvalidValue ''folder shares'' [Text ''share name '', Dbg (sh_name share), Text '' appears more than once''])
     else and_then (reject_overlap earlier share) (\<lambda>_.
       validate_shares (earlier @ [share]) (live_seen \<or> sh_transport share = LiveSmb) shares))"


section \<open>The manifest\<close>

record InstanceManifest =
  im_version :: u32
  im_spec :: InstanceSpec
  im_state :: InstanceState
  im_control_port :: u16
  im_created_unix_seconds :: u64
  im_idle_timeout_seconds :: u64
  im_hibernate_timeout_seconds :: u64
  im_idle_policy :: IdlePolicy
  im_memory_min_mib :: u32
  im_state_changed_unix_seconds :: u64
  im_base_image_key :: "string option"
  im_default_user :: "string option"
  im_default_user_role :: "WindowsUserRole option"
  im_scoped_live_share_credential :: bool
  im_folder_shares :: "FolderShare list"

text \<open>\<open>now\<close> is the system clock's answer in seconds since the epoch.\<close>

definition manifest_new :: "bool \<Rightarrow> message + u64 \<Rightarrow> InstanceSpec \<Rightarrow> LswError + InstanceManifest" where
  "manifest_new is_file now spec =
     and_then (validate_for_create is_file spec) (\<lambda>_.
     and_then (case now of Inl reason \<Rightarrow> Inl (InvalidValue ''system clock'' reason) | Inr seconds \<Rightarrow> Inr seconds)
       (\<lambda>created.
     and_then (control_port_for_instance (is_name spec)) (\<lambda>control_port.
     Inr \<lparr>im_version = MANIFEST_VERSION, im_spec = spec, im_state = Configured, im_control_port = control_port,
          im_created_unix_seconds = created, im_idle_timeout_seconds = DEFAULT_IDLE_TIMEOUT_SECONDS,
          im_hibernate_timeout_seconds = DEFAULT_HIBERNATE_TIMEOUT_SECONDS, im_idle_policy = Off,
          im_memory_min_mib = min (is_memory_mib spec) 2048, im_state_changed_unix_seconds = created,
          im_base_image_key = None, im_default_user = None, im_default_user_role = None,
          im_scoped_live_share_credential = True, im_folder_shares = []\<rparr>)))"

definition validate_idle_timeout :: "u64 \<Rightarrow> LswError + unit" where
  "validate_idle_timeout seconds =
     (if seconds \<le> 31536000 then Inr ()
      else Inl (InvalidValue ''idle timeout'' [Text ''must be 0 (disabled) or no more than 365 days'']))"

definition validate_runtime_fields :: "InstanceManifest \<Rightarrow> LswError + unit" where
  "validate_runtime_fields m =
     (if \<not> (256 \<le> im_memory_min_mib m \<and> im_memory_min_mib m \<le> is_memory_mib (im_spec m))
      then Inl (InvalidValue ''minimum memory'' [Text ''must be between 256 MiB and memory.max ('',
             Num (unat (is_memory_mib (im_spec m))), Text '' MiB)''])
      else if (case im_base_image_key m of None \<Rightarrow> False
               | Some key \<Rightarrow> length key \<noteq> 64 \<or> \<not> list_all (\<lambda>c. is_ascii_hexdigit c \<and> \<not> is_ascii_uppercase c) key)
      then Inl (InvalidValue ''base image key'' [Text ''must contain 64 lowercase hexadecimal characters''])
      else and_then (case im_default_user m of None \<Rightarrow> Inr () | Some user \<Rightarrow> core_validate_windows_user_name user) (\<lambda>_.
      if (im_default_user m \<noteq> None) \<noteq> (im_default_user_role m \<noteq> None)
      then Inl (InvalidValue ''default Windows user role'' [Text ''must be present exactly when a default Windows user is registered''])
      else validate_shares [] False (im_folder_shares m)))"

end
