(* ===== verification/Qemu_Backend.thy ===== *)
theory Qemu_Backend
  imports Host_Fs Manifest "HOL-Library.List_Lexorder"
begin

text \<open>
  What the host offers to run a guest with: the platform, its accelerators and the choice among them
  (\<open>backend.rs\<close> of \<open>lsw-core\<close>), and the tools and firmware images that were found
  (\<open>capabilities.rs\<close>).
\<close>

section \<open>Platforms and accelerators\<close>

datatype HostPlatform = Linux | MacOs | WindowsHost | OtherHost

datatype VmAccelerator = Kvm | Hvf | Whpx | Tcg

primrec native_accelerator :: "HostPlatform \<Rightarrow> VmAccelerator option" where
  "native_accelerator Linux = Some Kvm"
| "native_accelerator MacOs = Some Hvf"
| "native_accelerator WindowsHost = Some Whpx"
| "native_accelerator OtherHost = None"

primrec platform_display :: "HostPlatform \<Rightarrow> string" where
  "platform_display Linux = ''linux''"
| "platform_display MacOs = ''macos''"
| "platform_display WindowsHost = ''windows''"
| "platform_display OtherHost = ''other''"

primrec capability_name :: "VmAccelerator \<Rightarrow> string" where
  "capability_name Kvm = ''KVM acceleration''"
| "capability_name Hvf = ''Hypervisor.framework acceleration''"
| "capability_name Whpx = ''Windows Hypervisor Platform acceleration''"
| "capability_name Tcg = ''QEMU TCG acceleration''"

primrec accelerator_display :: "VmAccelerator \<Rightarrow> string" where
  "accelerator_display Kvm = ''kvm''"
| "accelerator_display Hvf = ''hvf''"
| "accelerator_display Whpx = ''whpx''"
| "accelerator_display Tcg = ''tcg''"

datatype GuestCpuTuning = Enlightened | Baseline

definition guest_cpu_tuning_parse :: "string \<Rightarrow> LswError + GuestCpuTuning" where
  "guest_cpu_tuning_parse value =
     (let other = to_ascii_lowercase (trim value)
      in if other = ''enlightened'' \<or> other = ''default'' then Inr Enlightened
         else if other = ''baseline'' \<or> other = ''compat'' then Inr Baseline
         else Inl (InvalidValue ''guest CPU tuning'' [Dbg other, Text '' is not one of enlightened or baseline'']))"

primrec guest_cpu_tuning_display :: "GuestCpuTuning \<Rightarrow> string" where
  "guest_cpu_tuning_display Enlightened = ''enlightened''"
| "guest_cpu_tuning_display Baseline = ''baseline''"

definition KVM_ENLIGHTENED_CPU_MODEL :: string where
  "KVM_ENLIGHTENED_CPU_MODEL = ''host,migratable=off,''
     @ ''hv-relaxed,hv-vapic,hv-spinlocks=0x1fff,hv-vpindex,hv-runtime,hv-time,hv-synic,''
     @ ''hv-stimer,hv-stimer-direct,hv-reset,hv-frequencies,hv-reenlightenment,hv-tlbflush,hv-ipi''"

record AcceleratorCapabilities =
  ac_kvm :: bool
  ac_hvf :: bool
  ac_whpx :: bool

definition no_accelerators :: AcceleratorCapabilities where
  "no_accelerators = \<lparr>ac_kvm = False, ac_hvf = False, ac_whpx = False\<rparr>"

fun with_available :: "AcceleratorCapabilities \<Rightarrow> VmAccelerator \<Rightarrow> AcceleratorCapabilities" where
  "with_available c Kvm = c\<lparr>ac_kvm := True\<rparr>"
| "with_available c Hvf = c\<lparr>ac_hvf := True\<rparr>"
| "with_available c Whpx = c\<lparr>ac_whpx := True\<rparr>"
| "with_available c Tcg = c"

fun supports :: "AcceleratorCapabilities \<Rightarrow> VmAccelerator \<Rightarrow> bool" where
  "supports c Kvm = ac_kvm c"
| "supports c Hvf = ac_hvf c"
| "supports c Whpx = ac_whpx c"
| "supports c Tcg = True"


section \<open>Capabilities of the host\<close>

record HostCapabilities =
  hc_platform :: HostPlatform
  hc_accelerators :: AcceleratorCapabilities
  hc_qemu_system :: "string option"
  hc_qemu_img :: "string option"
  hc_setsid :: "string option"
  hc_aria2c :: "string option"
  hc_swtpm :: "string option"
  hc_smbd :: "string option"
  hc_wimlib_imagex :: "string option"
  hc_xorriso :: "string option"
  hc_seven_zip :: "string option"
  hc_remote_viewer :: "string option"
  hc_ovmf_code :: "string option"
  hc_ovmf_vars :: "string option"
  hc_ovmf_secure_code :: "string option"
  hc_ovmf_secure_vars :: "string option"

definition capabilities_unavailable :: "HostPlatform \<Rightarrow> HostCapabilities" where
  "capabilities_unavailable platform =
     \<lparr>hc_platform = platform, hc_accelerators = no_accelerators, hc_qemu_system = None, hc_qemu_img = None,
      hc_setsid = None, hc_aria2c = None, hc_swtpm = None, hc_smbd = None, hc_wimlib_imagex = None,
      hc_xorriso = None, hc_seven_zip = None, hc_remote_viewer = None, hc_ovmf_code = None, hc_ovmf_vars = None,
      hc_ovmf_secure_code = None, hc_ovmf_secure_vars = None\<rparr>"

text \<open>The name of a tool that was not found.\<close>

definition missing_tool :: "'a option \<Rightarrow> string \<Rightarrow> string list" where
  "missing_tool tool name = (if tool = None then [name] else [])"

definition missing_for_launch :: "HostCapabilities \<Rightarrow> string list" where
  "missing_for_launch c =
     missing_tool (hc_qemu_system c) ''qemu-system-x86_64'' @ missing_tool (hc_swtpm c) ''swtpm''
     @ missing_tool (hc_ovmf_code c) ''OVMF code firmware'' @ missing_tool (hc_setsid c) ''setsid (util-linux)''"

definition missing_for_preparation :: "HostCapabilities \<Rightarrow> string list" where
  "missing_for_preparation c =
     missing_tool (hc_qemu_img c) ''qemu-img'' @ missing_tool (hc_ovmf_vars c) ''OVMF variable template''"

text \<open>\<open>sort_unstable\<close> and \<open>dedup\<close>: equal names cannot be told apart.\<close>

definition missing_for_install_workflow :: "HostCapabilities \<Rightarrow> string list" where
  "missing_for_install_workflow c =
     remdups_adj (sort_key (map char_code) (missing_for_launch c @ missing_for_preparation c
       @ missing_tool (hc_wimlib_imagex c) ''wimlib-imagex'' @ missing_tool (hc_xorriso c) ''xorriso''
       @ missing_tool (hc_seven_zip c) ''7z (UDF-capable ISO extractor)''
       @ missing_tool (hc_smbd c) ''smbd (Samba user-mode server)''))"

definition firmware_code :: "HostCapabilities \<Rightarrow> WindowsProfile \<Rightarrow> string option" where
  "firmware_code c profile =
     (if ss_secure_boot (profile_security profile) then hc_ovmf_secure_code c else hc_ovmf_code c)"

definition firmware_vars :: "HostCapabilities \<Rightarrow> WindowsProfile \<Rightarrow> string option" where
  "firmware_vars c profile =
     (if ss_secure_boot (profile_security profile) then hc_ovmf_secure_vars c else hc_ovmf_vars c)"

definition missing_for_profile_launch :: "HostCapabilities \<Rightarrow> WindowsProfile \<Rightarrow> string list" where
  "missing_for_profile_launch c profile =
     missing_tool (hc_qemu_system c) ''qemu-system-x86_64'' @ missing_tool (hc_swtpm c) ''swtpm''
     @ missing_tool (firmware_code c profile)
         (if ss_secure_boot (profile_security profile) then ''Secure Boot OVMF code firmware'' else ''OVMF code firmware'')
     @ missing_tool (hc_setsid c) ''setsid (util-linux)''"

definition missing_for_profile_preparation :: "HostCapabilities \<Rightarrow> WindowsProfile \<Rightarrow> string list" where
  "missing_for_profile_preparation c profile =
     missing_tool (hc_qemu_img c) ''qemu-img''
     @ missing_tool (firmware_vars c profile)
         (if ss_secure_boot (profile_security profile) then ''enrolled Secure Boot OVMF variable template''
          else ''OVMF variable template'')"

text \<open>\<open>command_in_path\<close>, given the value of \<open>PATH\<close>.\<close>

definition command_in_path :: "(string \<Rightarrow> bool) \<Rightarrow> string option \<Rightarrow> string \<Rightarrow> string option" where
  "command_in_path is_file path command =
     Option.bind path (\<lambda>path. List.find is_file (map (\<lambda>directory. path_join directory command) (split_char [CHR '':''] path)))"

definition configured_or_first_existing ::
  "(string \<Rightarrow> bool) \<Rightarrow> (string \<Rightarrow> string option) \<Rightarrow> string \<Rightarrow> string list \<Rightarrow> string option" where
  "configured_or_first_existing is_file var_os variable candidates =
     (case var_os variable of
        Some configured \<Rightarrow> if is_file configured then Some configured else List.find is_file candidates
      | None \<Rightarrow> List.find is_file candidates)"

text \<open>
  \<open>HostCapabilities::detect\<close> on Linux: what it asks of the system is whether \<open>/dev/kvm\<close> opens, which
  paths are files and what the environment holds.
\<close>

definition detect :: "bool \<Rightarrow> (string \<Rightarrow> bool) \<Rightarrow> (string \<Rightarrow> string option) \<Rightarrow> HostCapabilities" where
  "detect kvm_opens is_file var_os =
     (let command = command_in_path is_file (var_os ''PATH'');
          firmware = configured_or_first_existing is_file var_os;
          or_else = (\<lambda>a b. case a of None \<Rightarrow> b | Some x \<Rightarrow> Some x) :: string option \<Rightarrow> string option \<Rightarrow> string option
      in \<lparr>hc_platform = Linux,
          hc_accelerators = (if kvm_opens then with_available no_accelerators Kvm else no_accelerators),
          hc_qemu_system = command ''qemu-system-x86_64'',
          hc_qemu_img = command ''qemu-img'',
          hc_setsid = command ''setsid'',
          hc_aria2c = command ''aria2c'',
          hc_swtpm = command ''swtpm'',
          hc_smbd = or_else (command ''smbd'') (List.find is_file [''/usr/sbin/smbd'', ''/usr/local/sbin/smbd'']),
          hc_wimlib_imagex = command ''wimlib-imagex'',
          hc_xorriso = command ''xorriso'',
          hc_seven_zip = or_else (command ''7zz'') (command ''7z''),
          hc_remote_viewer = command ''remote-viewer'',
          hc_ovmf_code = firmware ''LSW_OVMF_CODE''
            [''/usr/share/OVMF/OVMF_CODE_4M.fd'', ''/usr/share/OVMF/OVMF_CODE.fd'', ''/usr/share/edk2/x64/OVMF_CODE.fd'',
             ''/usr/share/edk2/ovmf/OVMF_CODE.fd'', ''/usr/share/qemu/edk2-x86_64-code.fd''],
          hc_ovmf_vars = firmware ''LSW_OVMF_VARS''
            [''/usr/share/OVMF/OVMF_VARS_4M.fd'', ''/usr/share/OVMF/OVMF_VARS.fd'', ''/usr/share/edk2/x64/OVMF_VARS.fd'',
             ''/usr/share/edk2/ovmf/OVMF_VARS.fd'', ''/usr/share/qemu/edk2-i386-vars.fd''],
          hc_ovmf_secure_code = firmware ''LSW_OVMF_SECURE_CODE''
            [''/usr/share/OVMF/OVMF_CODE_4M.ms.fd'', ''/usr/share/OVMF/OVMF_CODE.ms.fd'',
             ''/usr/share/edk2/ovmf/OVMF_CODE.secboot.fd''],
          hc_ovmf_secure_vars = firmware ''LSW_OVMF_SECURE_VARS''
            [''/usr/share/OVMF/OVMF_VARS_4M.ms.fd'', ''/usr/share/OVMF/OVMF_VARS.ms.fd'',
             ''/usr/share/edk2/ovmf/OVMF_VARS.secboot.fd'']\<rparr>)"


section \<open>Backends\<close>

record QemuBackend =
  qb_platform :: HostPlatform
  qb_accelerator :: VmAccelerator

definition validate_platform_accelerator :: "HostPlatform \<Rightarrow> VmAccelerator \<Rightarrow> LswError + unit" where
  "validate_platform_accelerator platform accelerator =
     (if accelerator = Tcg \<or> native_accelerator platform = Some accelerator then Inr ()
      else Inl (InvalidValue ''virtualization accelerator''
             [Disp (accelerator_display accelerator), Text '' is not a native accelerator for '',
              Disp (platform_display platform)]))"

definition backend_select :: "HostCapabilities \<Rightarrow> QemuBackend" where
  "backend_select c =
     \<lparr>qb_platform = hc_platform c,
      qb_accelerator = (case native_accelerator (hc_platform c) of
          Some accelerator \<Rightarrow> if supports (hc_accelerators c) accelerator then accelerator else Tcg
        | None \<Rightarrow> Tcg)\<rparr>"

definition backend_require :: "HostCapabilities \<Rightarrow> VmAccelerator \<Rightarrow> LswError + QemuBackend" where
  "backend_require c accelerator =
     and_then (validate_platform_accelerator (hc_platform c) accelerator) (\<lambda>_.
     if \<not> supports (hc_accelerators c) accelerator
     then Inl (MissingCapabilities [capability_name accelerator])
     else Inr \<lparr>qb_platform = hc_platform c, qb_accelerator = accelerator\<rparr>)"

definition acceleration_arguments :: "QemuBackend \<Rightarrow> string list" where
  "acceleration_arguments b =
     (case qb_accelerator b of
        Kvm \<Rightarrow> [''-enable-kvm'']
      | Hvf \<Rightarrow> [''-accel'', ''hvf'']
      | Whpx \<Rightarrow> [''-accel'', ''whpx'']
      | Tcg \<Rightarrow> [''-accel'', ''tcg,thread=multi''])"

definition cpu_model :: "QemuBackend \<Rightarrow> GuestCpuTuning \<Rightarrow> string" where
  "cpu_model b tuning =
     (case (qb_accelerator b, tuning) of
        (Kvm, Enlightened) \<Rightarrow> KVM_ENLIGHTENED_CPU_MODEL
      | (Kvm, Baseline) \<Rightarrow> ''host''
      | (Hvf, _) \<Rightarrow> ''host''
      | (Whpx, _) \<Rightarrow> ''max''
      | (Tcg, _) \<Rightarrow> ''max'')"

definition fallback_note :: "QemuBackend \<Rightarrow> message option" where
  "fallback_note b =
     (if qb_accelerator b \<noteq> Tcg then None
      else Some (case native_accelerator (qb_platform b) of
          Some accelerator \<Rightarrow>
            if accelerator = Kvm
            then [Text ''KVM is unavailable; QEMU will fall back to TCG and run much more slowly'']
            else [Disp (accelerator_display accelerator),
                  Text '' is unavailable; QEMU will fall back to TCG and run much more slowly'']
        | None \<Rightarrow> [Text ''no native accelerator is defined for this host; QEMU will use slow TCG'']))"

definition backend_validate :: "QemuBackend \<Rightarrow> HostCapabilities \<Rightarrow> LswError + unit" where
  "backend_validate b c =
     (if qb_platform b \<noteq> hc_platform c
      then Inl (InvalidValue ''virtualization backend''
             [Text ''selection targets '', Disp (platform_display (qb_platform b)),
              Text '' but detected host is '', Disp (platform_display (hc_platform c))])
      else and_then (validate_platform_accelerator (qb_platform b) (qb_accelerator b)) (\<lambda>_.
           if \<not> supports (hc_accelerators c) (qb_accelerator b)
           then Inl (MissingCapabilities [capability_name (qb_accelerator b)])
           else Inr ()))"


section \<open>Lemmas\<close>

text \<open>What is selected or granted is valid, and nothing else is.\<close>

lemma backend_select_valid: "backend_validate (backend_select c) c = Inr ()"
  by (auto simp: backend_validate_def backend_select_def validate_platform_accelerator_def split: option.splits)

lemma backend_require_ok_iff:
  "backend_require c a = Inr b \<longleftrightarrow>
     b = \<lparr>qb_platform = hc_platform c, qb_accelerator = a\<rparr>
     \<and> backend_validate \<lparr>qb_platform = hc_platform c, qb_accelerator = a\<rparr> c = Inr ()"
  by (auto simp: backend_require_def backend_validate_def validate_platform_accelerator_def)

text \<open>A tool is reported missing exactly when it was not found.\<close>

lemma missing_for_profile_launch_empty:
  "missing_for_profile_launch c profile = [] \<longleftrightarrow>
     hc_qemu_system c \<noteq> None \<and> hc_swtpm c \<noteq> None \<and> firmware_code c profile \<noteq> None \<and> hc_setsid c \<noteq> None"
  by (auto simp: missing_for_profile_launch_def missing_tool_def)

text \<open>The tools that are found are files.\<close>

lemma find_satisfies: "List.find P xs = Some x \<Longrightarrow> P x"
  by (induction xs) (auto split: if_splits)

lemma command_in_path_is_file: "command_in_path is_file path command = Some p \<Longrightarrow> is_file p"
  by (auto simp: command_in_path_def bind_eq_Some_conv dest: find_satisfies)

lemma configured_is_file: "configured_or_first_existing is_file var_os variable candidates = Some p \<Longrightarrow> is_file p"
  by (auto simp: configured_or_first_existing_def split: option.splits if_splits dest: find_satisfies)

end
