(* ===== verification/Manifest_Codec.thy ===== *)
theory Manifest_Codec
  imports Manifest
begin

text \<open>
  The stored form of a manifest: \<open>encode\<close> writes one \<open>key=value\<close> line per field, \<open>decode\<close> reads
  every version of the format the program has written.
\<close>

section \<open>Encoding\<close>

definition share_key :: "nat \<Rightarrow> string \<Rightarrow> string" where
  "share_key k part = ''share.'' @ decimal k @ ''.'' @ part"

definition share_fields :: "nat \<Rightarrow> FolderShare \<Rightarrow> (string \<times> string) list" where
  "share_fields k share =
     [(share_key k ''name'', sh_name share),
      (share_key k ''host'', path_display (sh_host_path share)),
      (share_key k ''guest'', sh_guest_path share),
      (share_key k ''mode'', share_mode_display (sh_mode share)),
      (share_key k ''transport'', share_transport_display (sh_transport share))]"

definition shares_fields :: "FolderShare list \<Rightarrow> (string \<times> string) list" where
  "shares_fields shares = concat (map (\<lambda>k. share_fields k (shares ! k)) [0..<length shares])"

definition text_or_empty :: "string option \<Rightarrow> string" where
  "text_or_empty x = (case x of None \<Rightarrow> [] | Some s \<Rightarrow> s)"

definition manifest_fields :: "InstanceManifest \<Rightarrow> string \<Rightarrow> (string \<times> string) list" where
  "manifest_fields m source_iso =
     [(''version'', decimal (unat MANIFEST_VERSION)),
      (''name'', is_name (im_spec m)),
      (''source_iso'', source_iso),
      (''profile'', profile_display (is_profile (im_spec m))),
      (''cpus'', decimal (unat (is_cpus (im_spec m)))),
      (''memory_mib'', decimal (unat (is_memory_mib (im_spec m)))),
      (''disk_gib'', decimal (unat (is_disk_gib (im_spec m)))),
      (''network'', network_mode_display (is_network (im_spec m))),
      (''port_forwards'', join '','' (map port_forward_display (is_port_forwards (im_spec m)))),
      (''license_accepted'', bool_display (is_license_accepted (im_spec m))),
      (''allow_unsupported_requirements'', bool_display (is_allow_unsupported_requirements (im_spec m))),
      (''state'', instance_state_display (im_state m)),
      (''control_port'', decimal (unat (im_control_port m))),
      (''created_unix_seconds'', decimal (unat (im_created_unix_seconds m))),
      (''idle_timeout_seconds'', decimal (unat (im_idle_timeout_seconds m))),
      (''hibernate_timeout_seconds'', decimal (unat (im_hibernate_timeout_seconds m))),
      (''idle_policy'', idle_policy_display (im_idle_policy m)),
      (''memory_min_mib'', decimal (unat (im_memory_min_mib m))),
      (''state_changed_unix_seconds'', decimal (unat (im_state_changed_unix_seconds m))),
      (''base_image_key'', text_or_empty (im_base_image_key m)),
      (''default_user'', text_or_empty (im_default_user m)),
      (''default_user_role'', text_or_empty (map_option role_display (im_default_user_role m))),
      (''scoped_live_share_credential'', bool_display (im_scoped_live_share_credential m)),
      (''share_count'', decimal (length (im_folder_shares m)))]
     @ shares_fields (im_folder_shares m)"

definition field_line :: "string \<times> string \<Rightarrow> string" where
  "field_line = (\<lambda>(key, value). key @ ''='' @ value)"

definition manifest_encode :: "InstanceManifest \<Rightarrow> LswError + string" where
  "manifest_encode m =
     and_then (spec_validate (im_spec m)) (\<lambda>_.
     and_then (validate_idle_timeout (im_idle_timeout_seconds m)) (\<lambda>_.
     and_then (validate_idle_timeout (im_hibernate_timeout_seconds m)) (\<lambda>_.
     and_then (validate_runtime_fields m) (\<lambda>_.
     and_then (ok_or (path_to_str (is_source_iso (im_spec m)))
       (InvalidValue ''source ISO'' [Text ''path is not valid UTF-8 and cannot be stored portably''])) (\<lambda>source_iso.
     Inr (concat (map (\<lambda>field. field_line field @ [NL]) (manifest_fields m source_iso))))))))"


section \<open>Decoding\<close>

type_synonym field_map = "string \<rightharpoonup> string"

text \<open>The lines of the text, numbered from \<open>n\<close>.\<close>

fun read_fields :: "nat \<Rightarrow> string list \<Rightarrow> field_map \<Rightarrow> LswError + field_map" where
  "read_fields n [] flds = Inr flds"
| "read_fields n (line # rest) flds =
     (if is_blank line \<or> starts_with line ''#'' then read_fields (Suc n) rest flds
      else and_then (ok_or (split_once (CHR ''='') line)
             (InvalidManifest [Text ''line '', Num n, Text '' does not contain '', Text [CHR 0x27], Text ''='', Text [CHR 0x27]]))
             (\<lambda>(key, value).
           if flds key \<noteq> None
           then Inl (InvalidManifest [Text ''field '', Dbg key, Text '' appears more than once''])
           else read_fields (Suc n) rest (flds(key \<mapsto> value))))"

definition required_field :: "field_map \<Rightarrow> string \<Rightarrow> LswError + string" where
  "required_field flds key = ok_or (flds key) (InvalidManifest [Text ''missing field '', Dbg key])"

definition parse_field :: "(string \<Rightarrow> string + 'a) \<Rightarrow> field_map \<Rightarrow> string \<Rightarrow> LswError + 'a" where
  "parse_field parse flds key =
     and_then (required_field flds key) (\<lambda>value.
     case parse value of
       Inl e \<Rightarrow> Inl (InvalidManifest [Text ''could not parse '', Dbg key, Text '' value '', Dbg value, Text '': '', Disp e])
     | Inr x \<Rightarrow> Inr x)"

definition optional_nonempty_field :: "field_map \<Rightarrow> string \<Rightarrow> string option" where
  "optional_nonempty_field flds key =
     (case flds key of None \<Rightarrow> None | Some value \<Rightarrow> if value = [] then None else Some value)"

definition parse_folder_share :: "field_map \<Rightarrow> u32 \<Rightarrow> nat \<Rightarrow> LswError + FolderShare" where
  "parse_folder_share flds manifest_version k =
     and_then (required_field flds (share_key k ''name'')) (\<lambda>name.
     and_then (required_field flds (share_key k ''host'')) (\<lambda>host.
     and_then (required_field flds (share_key k ''guest'')) (\<lambda>guest.
     and_then (and_then (required_field flds (share_key k ''mode'')) share_mode_from_str) (\<lambda>mode.
     and_then (if manifest_version \<ge> 7
               then and_then (required_field flds (share_key k ''transport'')) share_transport_from_str
               else Inr Mirror) (\<lambda>transport.
     let share = \<lparr>sh_name = name, sh_host_path = host, sh_guest_path = guest, sh_mode = mode, sh_transport = transport\<rparr>
     in and_then (share_validate share) (\<lambda>_. Inr share))))))"

definition parse_folder_shares :: "field_map \<Rightarrow> u32 \<Rightarrow> LswError + FolderShare list" where
  "parse_folder_shares flds manifest_version =
     and_then (parse_field (parse_int usize_limit) flds ''share_count'') (\<lambda>count.
     if count > 64 then Inl (InvalidManifest [Text ''more than 64 folder shares''])
     else collect_results (map (parse_folder_share flds manifest_version) [0..<count]))"

definition decode_spec :: "field_map \<Rightarrow> u32 \<Rightarrow> LswError + InstanceSpec" where
  "decode_spec flds version =
     and_then (required_field flds ''name'') (\<lambda>name.
     and_then (required_field flds ''source_iso'') (\<lambda>source_iso.
     and_then (and_then (required_field flds ''profile'') profile_parse_manifest) (\<lambda>profile.
     and_then (parse_field parse_word flds ''cpus'') (\<lambda>cpus.
     and_then (parse_field parse_word flds ''memory_mib'') (\<lambda>memory_mib.
     and_then (parse_field parse_word flds ''disk_gib'') (\<lambda>disk_gib.
     and_then (if version \<ge> 2 then and_then (required_field flds ''network'') network_mode_from_str
               else Inr Offline) (\<lambda>network.
     and_then (if version \<ge> 3 then and_then (required_field flds ''port_forwards'') parse_port_forwards
               else Inr []) (\<lambda>port_forwards.
     and_then (parse_field parse_bool flds ''license_accepted'') (\<lambda>license_accepted.
     and_then (parse_field parse_bool flds ''allow_unsupported_requirements'') (\<lambda>allow_unsupported_requirements.
     let spec = \<lparr>is_name = name, is_source_iso = source_iso, is_profile = profile, is_cpus = cpus,
                 is_memory_mib = memory_mib, is_disk_gib = disk_gib, is_network = network,
                 is_port_forwards = port_forwards, is_license_accepted = license_accepted,
                 is_allow_unsupported_requirements = allow_unsupported_requirements\<rparr>
     in and_then (spec_validate spec) (\<lambda>_. Inr spec)))))))))))"

definition decode_control_port :: "field_map \<Rightarrow> InstanceSpec \<Rightarrow> LswError + u16" where
  "decode_control_port flds spec =
     and_then (parse_field parse_word flds ''control_port'') (\<lambda>control_port.
     and_then (control_port_for_instance (is_name spec)) (\<lambda>expected_control_port.
     if control_port \<noteq> expected_control_port
     then Inl (InvalidManifest [Text ''control port '', Num (unat control_port),
            Text '' does not match the deterministic port '', Num (unat expected_control_port),
            Text '' for '', Dbg (is_name spec)])
     else Inr control_port))"

definition decode_timeouts :: "field_map \<Rightarrow> u32 \<Rightarrow> LswError + (u64 \<times> u64)" where
  "decode_timeouts flds version =
     and_then (if version \<ge> 4 then parse_field parse_word flds ''idle_timeout_seconds''
               else Inr DEFAULT_IDLE_TIMEOUT_SECONDS) (\<lambda>idle.
     and_then (validate_idle_timeout idle) (\<lambda>_.
     and_then (if version \<ge> 5 then parse_field parse_word flds ''hibernate_timeout_seconds'' else Inr 0) (\<lambda>hibernate.
     and_then (validate_idle_timeout hibernate) (\<lambda>_.
     Inr (idle, hibernate)))))"

definition decode_user :: "field_map \<Rightarrow> u32 \<Rightarrow> LswError + (string option \<times> WindowsUserRole option)" where
  "decode_user flds version =
     (let default_user = (if version \<ge> 5 then optional_nonempty_field flds ''default_user'' else None)
      in and_then (if version \<ge> 6
           then (case optional_nonempty_field flds ''default_user_role'' of
                   None \<Rightarrow> Inr None
                 | Some value \<Rightarrow> map_sum lsw_error_of_protocol Some (role_from_str value))
           else Inr (map_option (\<lambda>_. Standard) default_user)) (\<lambda>default_user_role.
         Inr (default_user, default_user_role)))"

definition decode_fields :: "field_map \<Rightarrow> LswError + InstanceManifest" where
  "decode_fields flds =
     and_then (parse_field parse_word flds ''version'') (\<lambda>version.
     if \<not> (1 \<le> version \<and> version \<le> MANIFEST_VERSION)
     then Inl (InvalidManifest [Text ''unsupported manifest version '', Num (unat version)])
     else and_then (decode_spec flds version) (\<lambda>spec.
     and_then (decode_control_port flds spec) (\<lambda>control_port.
     and_then (decode_timeouts flds version) (\<lambda>(idle_timeout_seconds, hibernate_timeout_seconds).
     and_then (if version \<ge> 5 then and_then (required_field flds ''idle_policy'') idle_policy_from_str
               else Inr Off) (\<lambda>idle_policy.
     and_then (if version \<ge> 5 then parse_field parse_word flds ''memory_min_mib''
               else Inr (min (is_memory_mib spec) 2048)) (\<lambda>memory_min_mib.
     and_then (parse_field parse_word flds ''created_unix_seconds'') (\<lambda>created_unix_seconds.
     and_then (if version \<ge> 5 then parse_field parse_word flds ''state_changed_unix_seconds''
               else Inr created_unix_seconds) (\<lambda>state_changed_unix_seconds.
     and_then (decode_user flds version) (\<lambda>(default_user, default_user_role).
     and_then (if version \<ge> 8 then parse_field parse_bool flds ''scoped_live_share_credential''
               else Inr False) (\<lambda>scoped_live_share_credential.
     and_then (if version \<ge> 5 then parse_folder_shares flds version else Inr []) (\<lambda>folder_shares.
     and_then (and_then (required_field flds ''state'') instance_state_from_str) (\<lambda>state.
     let m = \<lparr>im_version = MANIFEST_VERSION, im_spec = spec, im_state = state, im_control_port = control_port,
              im_created_unix_seconds = created_unix_seconds, im_idle_timeout_seconds = idle_timeout_seconds,
              im_hibernate_timeout_seconds = hibernate_timeout_seconds, im_idle_policy = idle_policy,
              im_memory_min_mib = memory_min_mib, im_state_changed_unix_seconds = state_changed_unix_seconds,
              im_base_image_key = (if version \<ge> 5 then optional_nonempty_field flds ''base_image_key'' else None),
              im_default_user = default_user, im_default_user_role = default_user_role,
              im_scoped_live_share_credential = scoped_live_share_credential, im_folder_shares = folder_shares\<rparr>
     in and_then (validate_runtime_fields m) (\<lambda>_. Inr m)))))))))))))"

definition manifest_decode :: "string \<Rightarrow> LswError + InstanceManifest" where
  "manifest_decode contents = and_then (read_fields 1 (lines contents) (\<lambda>_. None)) decode_fields"


section \<open>Text of the fields\<close>

lemma enum_round_trips [simp]:
  "network_mode_from_str (network_mode_display a) = Inr a"
  "idle_policy_from_str (idle_policy_display b) = Inr b"
  "share_mode_from_str (share_mode_display c) = Inr c"
  "share_transport_from_str (share_transport_display d) = Inr d"
  "instance_state_from_str (instance_state_display e) = Inr e"
  "profile_parse_manifest (profile_display f) = Inr f"
  "role_from_str (role_display r) = Inr r"
  by ((cases a; simp add: network_mode_from_str_def), (cases b; simp add: idle_policy_from_str_def),
    (cases c; simp add: share_mode_from_str_def), (cases d; simp add: share_transport_from_str_def),
    (cases e; simp add: instance_state_from_str_def),
    (cases f; simp add: profile_parse_manifest_def profile_from_str_def), (cases r; simp add: role_from_str_def))

text \<open>Values that stay on one line, and printable ASCII among them.\<close>

definition line_ok :: "string \<Rightarrow> bool" where
  "line_ok s \<longleftrightarrow> utf8_valid s \<and> NL \<notin> set s \<and> CR \<notin> set s"

definition printable :: "string \<Rightarrow> bool" where
  "printable s \<longleftrightarrow> (\<forall>c \<in> set s. 0x20 \<le> char_code c \<and> char_code c < 0x80)"

lemma printable_simps [simp]:
  "printable []" "printable (c # s) \<longleftrightarrow> 0x20 \<le> char_code c \<and> char_code c < 0x80 \<and> printable s"
  "printable (s @ t) \<longleftrightarrow> printable s \<and> printable t" "printable (decimal n)"
  by (auto simp: printable_def is_ascii_digit_def dest!: decimal_digits)

lemma printable_join: "printable d \<Longrightarrow> \<forall>s \<in> set ss. printable s \<Longrightarrow> printable (join d ss)"
  by (induction d ss rule: join.induct) auto

lemma line_ok_printable: "printable s \<Longrightarrow> line_ok s"
proof -
  assume "printable s"
  then have "utf8_valid s" by (intro utf8_valid_ascii) (auto simp: printable_def)
  moreover have "NL \<notin> set s" "CR \<notin> set s"
    using \<open>printable s\<close> by (auto simp: printable_def NL_def CR_def char_code_def)
  ultimately show ?thesis by (simp add: line_ok_def)
qed

lemma printable_displays [simp]:
  "printable (network_mode_display a)" "printable (idle_policy_display b)" "printable (share_mode_display c)"
  "printable (share_transport_display d)" "printable (instance_state_display e)" "printable (profile_display f)"
  "printable (role_display r)" "printable (bool_display g)"
  by ((cases a; simp add: char_code_def), (cases b; simp add: char_code_def), (cases c; simp add: char_code_def),
    (cases d; simp add: char_code_def), (cases e; simp add: char_code_def), (cases f; simp add: char_code_def),
    (cases r; simp add: char_code_def), (cases g; simp add: bool_display_def char_code_def))

lemma valid_label_printable: "valid_label n s \<Longrightarrow> printable s"
  by (auto simp: valid_label_def printable_def list_all_iff is_ascii_lowercase_def is_ascii_digit_def char_code_def)

lemma char_code_NL [simp]: "char_code NL = 10" and char_code_CR [simp]: "char_code CR = 13"
  by (simp_all add: NL_def CR_def char_code_def)

lemma line_ok_no_control: "utf8_valid s \<Longrightarrow> 10 \<notin> set (str_chars s) \<Longrightarrow> 13 \<notin> set (str_chars s) \<Longrightarrow> line_ok s"
  using ascii_in_str_chars [of s NL] ascii_in_str_chars [of s CR] by (auto simp: line_ok_def)

lemma line_ok_user: "windows_user_name_ok s \<Longrightarrow> utf8_valid s \<Longrightarrow> line_ok s"
  by (rule line_ok_no_control) (auto simp: windows_user_name_ok_def list_ex_iff char_is_control_def)

text \<open>A safe guest path has no control characters: those of its components have none.\<close>

lemma split_char_parts: "x \<in> set s \<Longrightarrow> x \<notin> set cs \<Longrightarrow> \<exists>part \<in> set (split_char cs s). x \<in> set part"
proof (induction s)
  case (Cons y s)
  then show ?case by (cases "split_char cs s") auto
qed simp

lemma line_ok_guest:
  assumes "validate_windows_absolute_path s = Inr u" and "utf8_valid s"
  shows "line_ok s"
proof -
  define cs where "cs = [BACKSLASH, CHR ''/'']"
  have root: "length s > 3" "is_ascii_alphabetic (s ! 0)" "s ! 1 = CHR '':''" "s ! 2 \<in> set cs"
    and safe: "list_all windows_path_component_is_safe (split_char cs (drop 3 s))"
    using assms(1) by (auto simp: validate_windows_absolute_path_def Let_def cs_def split: if_splits)
  have ascii: "\<forall>c \<in> set cs. char_code c < 0x80" by (simp add: cs_def BACKSLASH_def char_code_def)
  have s: "s = [s ! 0, s ! 1] @ s ! 2 # drop 3 s"
    using root(1) by (cases s; cases "tl s"; cases "tl (tl s)") (auto simp: numeral_eq_Suc)
  have "char_code (s ! 2) < 0x80" using root(4) ascii by blast
  with utf8_valid_cut [of "[s ! 0, s ! 1]" "s ! 2" "drop 3 s"] assms(2) s have valid: "utf8_valid (drop 3 s)" by simp
  have "x \<notin> set (drop 3 s)" if "char_code x \<le> 0x1F" for x
  proof
    assume x: "x \<in> set (drop 3 s)"
    have "x \<notin> set cs" using that by (auto simp: cs_def BACKSLASH_def char_code_def)
    from split_char_parts [OF x this] obtain part where part: "part \<in> set (split_char cs (drop 3 s))" "x \<in> set part"
      by blast
    with safe have "\<not> list_ex (\<lambda>c. c \<le> 0x1F \<or> c \<in> set RESERVED_CHARACTERS) (str_chars part)"
      by (auto simp: list_all_iff windows_path_component_is_safe_def split: if_splits)
    moreover have "char_code x \<in> set (str_chars part)"
      using utf8_valid_split [OF valid ascii part(1)] part(2) that by (intro ascii_in_str_chars) simp_all
    ultimately show False using that by (auto simp: list_ex_iff)
  qed
  moreover have "char_code (s ! 0) > 13" "char_code (s ! 1) > 13" "char_code (s ! 2) > 13"
    using root by (auto simp: is_ascii_alphabetic_def is_ascii_lowercase_def is_ascii_uppercase_def cs_def
        BACKSLASH_def char_code_def)
  moreover have "set s = {s ! 0, s ! 1, s ! 2} \<union> set (drop 3 s)" using arg_cong [OF s, of set] by simp
  ultimately have "NL \<notin> set s" "CR \<notin> set s" using char_code_NL char_code_CR by fastforce+
  with assms(2) show ?thesis by (simp add: line_ok_def)
qed

text \<open>The strings of a manifest are Rust strings.\<close>

definition manifest_utf8 :: "InstanceManifest \<Rightarrow> bool" where
  "manifest_utf8 m \<longleftrightarrow> list_all utf8_valid (map sh_guest_path (im_folder_shares m))
     \<and> utf8_valid (text_or_empty (im_default_user m))"

lemma validate_serializable_value_ok [ok_iff]:
  "validate_serializable_value p f = Inr u \<longleftrightarrow> line_ok p"
  by (auto simp: validate_serializable_value_def line_ok_def path_to_str_def ok_iff split: if_splits)

lemma line_ok_display: "line_ok p \<Longrightarrow> path_display p = p"
  by (simp add: line_ok_def)

lemma share_validate_line_ok:
  assumes "share_validate sh = Inr u" and "utf8_valid (sh_guest_path sh)"
  shows "printable (sh_name sh)" "line_ok (sh_host_path sh)" "line_ok (sh_guest_path sh)"
proof -
  show "printable (sh_name sh)" using assms(1)
    by (auto simp: share_validate_def validate_share_name_def ok_iff split: if_splits intro: valid_label_printable)
  show "line_ok (sh_host_path sh)" using assms(1) by (auto simp: share_validate_def ok_iff)
  have "line_ok LIVE_ROOT" by (rule line_ok_printable) (simp add: LIVE_ROOT_def BACKSLASH_def char_code_def)
  then show "line_ok (sh_guest_path sh)"
    using assms by (auto simp: share_validate_def ok_iff split: if_splits intro: line_ok_guest)
qed

lemma validate_shares_each:
  "validate_shares earlier seen shares = Inr u \<Longrightarrow> sh \<in> set shares \<Longrightarrow> \<exists>v. share_validate sh = Inr v"
  by (induction earlier seen shares rule: validate_shares.induct) (auto simp: ok_iff split: if_splits)

section \<open>Lines\<close>

lemma share_key_printable [simp]: "printable part \<Longrightarrow> printable (share_key k part)"
  by (simp add: share_key_def char_code_def)

lemma digits_plain: "c \<notin> {CHR ''.'', CHR ''=''} \<or> c \<notin> set (decimal k)"
  using decimal_digits [of c k] by (auto simp: is_ascii_digit_def char_code_def)

lemma decimal_inj [simp]: "decimal a = decimal b \<longleftrightarrow> a = b"
proof
  assume "decimal a = decimal b"
  then have "parse_int (a + b + 1) (decimal a) = parse_int (a + b + 1) (decimal b)" by simp
  then show "a = b" by simp
qed simp

lemma share_key_inj [simp]: "share_key k part = share_key l other \<longleftrightarrow> k = l \<and> part = other"
proof
  assume eq: "share_key k part = share_key l other"
  have "split_once (CHR ''.'') (decimal k @ CHR ''.'' # part) = split_once (CHR ''.'') (decimal l @ CHR ''.'' # other)"
    using eq by (simp add: share_key_def)
  then show "k = l \<and> part = other"
    using digits_plain [of "CHR ''.''" k] digits_plain [of "CHR ''.''" l] by (simp add: split_once_append)
qed simp


text \<open>The keys are distinct, printable and free of the separator.\<close>

definition FIXED_KEYS :: "string list" where
  "FIXED_KEYS = [''version'', ''name'', ''source_iso'', ''profile'', ''cpus'', ''memory_mib'', ''disk_gib'', ''network'',
     ''port_forwards'', ''license_accepted'', ''allow_unsupported_requirements'', ''state'', ''control_port'',
     ''created_unix_seconds'', ''idle_timeout_seconds'', ''hibernate_timeout_seconds'', ''idle_policy'',
     ''memory_min_mib'', ''state_changed_unix_seconds'', ''base_image_key'', ''default_user'', ''default_user_role'',
     ''scoped_live_share_credential'', ''share_count'']"

definition SHARE_PARTS :: "string list" where
  "SHARE_PARTS = [''name'', ''host'', ''guest'', ''mode'', ''transport'']"

definition share_keys :: "nat \<Rightarrow> string list" where
  "share_keys n = concat (map (\<lambda>k. map (share_key k) SHARE_PARTS) [0..<n])"

lemma manifest_fields_keys: "map fst (manifest_fields m medium) = FIXED_KEYS @ share_keys (length (im_folder_shares m))"
  by (simp add: manifest_fields_def FIXED_KEYS_def shares_fields_def share_keys_def SHARE_PARTS_def map_concat o_def
      share_fields_def)

lemma share_key_not_fixed: "share_key k part \<notin> set FIXED_KEYS"
  by (simp add: share_key_def FIXED_KEYS_def)

lemma share_keys_form: "key \<in> set (share_keys n) \<Longrightarrow> \<exists>k < n. \<exists>part \<in> set SHARE_PARTS. key = share_key k part"
  by (auto simp: share_keys_def)

lemma distinct_share_keys: "distinct (share_keys n)"
proof (induction n)
  case (Suc n)
  have "distinct (map (share_key n) SHARE_PARTS)" by (simp add: SHARE_PARTS_def)
  moreover have "set (share_keys n) \<inter> set (map (share_key n) SHARE_PARTS) = {}"
    by (auto dest!: share_keys_form)
  ultimately show ?case using Suc by (simp add: share_keys_def)
qed (simp add: share_keys_def)

lemma distinct_fixed_keys: "distinct FIXED_KEYS"
  by code_simp

lemma distinct_manifest_keys: "distinct (map fst (manifest_fields m medium))"
  unfolding manifest_fields_keys
  using distinct_fixed_keys distinct_share_keys share_key_not_fixed by (auto dest!: share_keys_form)

definition key_ok :: "string \<Rightarrow> bool" where
  "key_ok key \<longleftrightarrow> printable key \<and> CHR ''='' \<notin> set key \<and> \<not> starts_with (key @ ''='') ''#''"

lemma fixed_keys_ok: "key \<in> set FIXED_KEYS \<Longrightarrow> key_ok key"
  by (auto simp: FIXED_KEYS_def key_ok_def starts_with_def char_code_def)

lemma share_key_ok: "part \<in> set SHARE_PARTS \<Longrightarrow> key_ok (share_key k part)"
  using digits_plain [of "CHR ''=''" k]
  by (auto simp: SHARE_PARTS_def key_ok_def share_key_def starts_with_def char_code_def)

lemma manifest_keys_ok: "(key, v) \<in> set (manifest_fields m medium) \<Longrightarrow> key_ok key"
proof -
  assume "(key, v) \<in> set (manifest_fields m medium)"
  then have "key \<in> set (map fst (manifest_fields m medium))" by force
  then show ?thesis
    unfolding manifest_fields_keys using fixed_keys_ok share_key_ok by (auto dest!: share_keys_form)
qed

text \<open>Reading lines of well-formed fields yields the map of the fields.\<close>

lemma field_line_read:
  assumes "key_ok key" and "line_ok v"
  shows "\<not> is_blank (field_line (key, v))" "\<not> starts_with (field_line (key, v)) ''#''"
    "split_once (CHR ''='') (field_line (key, v)) = Some (key, v)" "line_ok (field_line (key, v))"
proof -
  have "line_ok key" "line_ok ''=''" using assms(1) by (auto simp: key_ok_def char_code_def intro!: line_ok_printable)
  then show ok: "line_ok (field_line (key, v))"
    using assms(2) utf8_valid_append [of "key" "''='' @ v"] utf8_valid_append [of "''=''" v]
    by (auto simp: line_ok_def field_line_def)
  show "\<not> is_blank (field_line (key, v))"
    using ok by (intro not_blank [of _ "CHR ''=''"])
      (simp_all add: line_ok_def field_line_def char_code_def char_is_whitespace_def)
  show "split_once (CHR ''='') (field_line (key, v)) = Some (key, v)"
    using assms(1) by (simp add: field_line_def key_ok_def split_once_append)
  show "\<not> starts_with (field_line (key, v)) ''#''"
    using assms(1) by (cases key) (auto simp: key_ok_def starts_with_def field_line_def)
qed

lemma read_fields_lines:
  assumes "\<forall>(key, v) \<in> set fs. key_ok key \<and> line_ok v" and "distinct (map fst fs)" and "dom flds \<inter> fst ` set fs = {}"
  shows "read_fields n (map field_line fs) flds = Inr (flds ++ map_of fs)"
  using assms
proof (induction fs arbitrary: n flds)
  case (Cons f fs)
  obtain key v where f: "f = (key, v)" by (cases f)
  note line = field_line_read [of key v]
  from Cons.prems f have "flds key = None" by (auto simp: dom_def)
  then have "read_fields n (map field_line (f # fs)) flds = read_fields (Suc n) (map field_line fs) (flds(key \<mapsto> v))"
    using line Cons.prems(1) f by simp
  also have "\<dots> = Inr (flds(key \<mapsto> v) ++ map_of fs)"
  proof (rule Cons.IH)
    have "key \<notin> fst ` set fs" "dom flds \<inter> fst ` set fs = {}" using Cons.prems(2,3) f by auto
    then show "dom (flds(key \<mapsto> v)) \<inter> fst ` set fs = {}" by (simp add: dom_fun_upd)
  qed (use Cons.prems in auto)
  also have "flds(key \<mapsto> v) ++ map_of fs = flds ++ map_of (f # fs)"
    using Cons.prems(2) f by (simp add: map_add_upd_left dom_map_of_conv_image_fst)
  finally show ?case .
qed simp


section \<open>Values\<close>

lemma shares_fields_in:
  "f \<in> set (shares_fields shares) \<longleftrightarrow> (\<exists>k < length shares. f \<in> set (share_fields k (shares ! k)))"
  by (auto simp: shares_fields_def)

lemma manifest_values_ok:
  assumes valid: "manifest_encode m = Inr s" and utf8: "manifest_utf8 m"
  shows "\<forall>(key, v) \<in> set (manifest_fields m (is_source_iso (im_spec m))). key_ok key \<and> line_ok v"
proof -
  have spec: "spec_validate (im_spec m) = Inr ()" and runtime: "validate_runtime_fields m = Inr ()"
    using valid by (auto simp: manifest_encode_def ok_iff)
  have name: "printable (is_name (im_spec m))" and medium: "line_ok (is_source_iso (im_spec m))"
    using spec by (auto simp: spec_validate_def validate_instance_name_def validate_serializable_path_def ok_iff
        split: if_splits intro: valid_label_printable)
  have key: "printable (text_or_empty (im_base_image_key m))"
    using runtime by (auto simp: validate_runtime_fields_def text_or_empty_def printable_def list_all_iff
        is_ascii_hexdigit_def is_ascii_digit_def split: if_splits option.splits)
  have user: "line_ok (text_or_empty (im_default_user m))"
    using runtime utf8 by (auto simp: validate_runtime_fields_def text_or_empty_def core_validate_windows_user_name_def
        manifest_utf8_def ok_iff split: if_splits option.splits intro: line_ok_user line_ok_printable)
  have role: "printable (text_or_empty (map_option role_display (im_default_user_role m)))"
    by (auto simp: text_or_empty_def split: option.splits)
  have forwards: "printable (join '','' (map port_forward_display (is_port_forwards (im_spec m))))"
    by (rule printable_join) (auto simp: port_forward_display_def char_code_def)
  have shares: "line_ok v" if "k < length (im_folder_shares m)" "(key, v) \<in> set (share_fields k (im_folder_shares m ! k))"
    for k key v
  proof -
    let ?sh = "im_folder_shares m ! k"
    have "validate_shares [] False (im_folder_shares m) = Inr ()"
      using runtime by (auto simp: validate_runtime_fields_def ok_iff split: if_splits)
    from validate_shares_each [OF this, of ?sh] that(1) obtain u where "share_validate ?sh = Inr u" by auto
    moreover have "utf8_valid (sh_guest_path ?sh)" using utf8 that(1) by (simp add: manifest_utf8_def list_all_iff)
    ultimately have "printable (sh_name ?sh)" "line_ok (sh_host_path ?sh)" "line_ok (sh_guest_path ?sh)"
      by (rule share_validate_line_ok)+
    with that(2) show ?thesis by (auto simp: share_fields_def line_ok_display intro: line_ok_printable)
  qed
  have "line_ok v" if "(key, v) \<in> set (manifest_fields m (is_source_iso (im_spec m)))" for key v
    using that name medium key user role forwards shares
    by (auto simp: manifest_fields_def shares_fields_in intro: line_ok_printable)
  with manifest_keys_ok show ?thesis by blast
qed

text \<open>The fields that decoding finds in an encoded manifest.\<close>

definition stored :: "InstanceManifest \<Rightarrow> field_map" where
  "stored m = map_of (manifest_fields m (is_source_iso (im_spec m)))"

lemma stored_read:
  assumes "manifest_encode m = Inr s" and "manifest_utf8 m"
  shows "read_fields 1 (lines s) (\<lambda>_. None) = Inr (stored m)"
proof -
  let ?fs = "manifest_fields m (is_source_iso (im_spec m))"
  note ok = manifest_values_ok [OF assms]
  from assms(1) have s: "s = concat (map (\<lambda>l. l @ [NL]) (map field_line ?fs))"
    by (auto simp: manifest_encode_def path_to_str_def ok_iff o_def split: if_splits)
  have "lines s = map field_line ?fs"
    unfolding s by (rule lines_concat) (use ok in \<open>auto dest!: field_line_read(4) simp: line_ok_def\<close>)
  moreover have "read_fields 1 (map field_line ?fs) Map.empty = Inr (Map.empty ++ map_of ?fs)"
    using ok distinct_manifest_keys by (intro read_fields_lines) auto
  ultimately show ?thesis by (simp add: stored_def)
qed

lemma stored_field: "(key, v) \<in> set (manifest_fields m (is_source_iso (im_spec m))) \<Longrightarrow> stored m key = Some v"
  unfolding stored_def by (rule map_of_is_SomeI [OF distinct_manifest_keys])

lemma stored_fixed [simp]:
  "stored m ''version'' = Some (decimal (unat MANIFEST_VERSION))"
  "stored m ''name'' = Some (is_name (im_spec m))"
  "stored m ''source_iso'' = Some (is_source_iso (im_spec m))"
  "stored m ''profile'' = Some (profile_display (is_profile (im_spec m)))"
  "stored m ''cpus'' = Some (decimal (unat (is_cpus (im_spec m))))"
  "stored m ''memory_mib'' = Some (decimal (unat (is_memory_mib (im_spec m))))"
  "stored m ''disk_gib'' = Some (decimal (unat (is_disk_gib (im_spec m))))"
  "stored m ''network'' = Some (network_mode_display (is_network (im_spec m)))"
  "stored m ''port_forwards'' = Some (join '','' (map port_forward_display (is_port_forwards (im_spec m))))"
  "stored m ''license_accepted'' = Some (bool_display (is_license_accepted (im_spec m)))"
  "stored m ''allow_unsupported_requirements'' = Some (bool_display (is_allow_unsupported_requirements (im_spec m)))"
  "stored m ''state'' = Some (instance_state_display (im_state m))"
  "stored m ''control_port'' = Some (decimal (unat (im_control_port m)))"
  "stored m ''created_unix_seconds'' = Some (decimal (unat (im_created_unix_seconds m)))"
  "stored m ''idle_timeout_seconds'' = Some (decimal (unat (im_idle_timeout_seconds m)))"
  "stored m ''hibernate_timeout_seconds'' = Some (decimal (unat (im_hibernate_timeout_seconds m)))"
  "stored m ''idle_policy'' = Some (idle_policy_display (im_idle_policy m))"
  "stored m ''memory_min_mib'' = Some (decimal (unat (im_memory_min_mib m)))"
  "stored m ''state_changed_unix_seconds'' = Some (decimal (unat (im_state_changed_unix_seconds m)))"
  "stored m ''base_image_key'' = Some (text_or_empty (im_base_image_key m))"
  "stored m ''default_user'' = Some (text_or_empty (im_default_user m))"
  "stored m ''default_user_role'' = Some (text_or_empty (map_option role_display (im_default_user_role m)))"
  "stored m ''scoped_live_share_credential'' = Some (bool_display (im_scoped_live_share_credential m))"
  "stored m ''share_count'' = Some (decimal (length (im_folder_shares m)))"
  by (rule stored_field, simp add: manifest_fields_def)+

lemma stored_share:
  assumes "k < length (im_folder_shares m)" and "sh = im_folder_shares m ! k"
  shows "stored m (share_key k ''name'') = Some (sh_name sh)"
    "stored m (share_key k ''host'') = Some (path_display (sh_host_path sh))"
    "stored m (share_key k ''guest'') = Some (sh_guest_path sh)"
    "stored m (share_key k ''mode'') = Some (share_mode_display (sh_mode sh))"
    "stored m (share_key k ''transport'') = Some (share_transport_display (sh_transport sh))"
  using assms by (auto simp: manifest_fields_def shares_fields_in share_fields_def intro!: stored_field)

text \<open>Port forwards.\<close>

lemma join_split:
  assumes "\<forall>s \<in> set ss. CHR '','' \<notin> set s" and "ss \<noteq> []"
  shows "split_char [CHR '',''] (join '','' ss) = ss"
proof -
  have "join '','' ss = concat (map (\<lambda>s. s @ [CHR '','']) (butlast ss)) @ last ss"
    using assms(2) by (induction "'',''" ss rule: join.induct) auto
  with assms show ?thesis using split_char_join [of "CHR '',''" "[CHR '','']" ss] by auto
qed

lemma validate_forwards_nonzero:
  "validate_forwards seen fs = Inr u \<Longrightarrow> f \<in> set fs \<Longrightarrow> pf_host_port f \<noteq> 0 \<and> pf_guest_port f \<noteq> 0"
  by (induction seen fs rule: validate_forwards.induct) (auto simp: ok_iff port_forward_new_def split: if_splits)

lemma digits_no_colon: "CHR '':'' \<notin> set (decimal n)" "CHR '','' \<notin> set (decimal n)"
  by (auto dest!: decimal_digits simp: is_ascii_digit_def char_code_def)

lemma port_forward_round_trip:
  "pf_host_port f \<noteq> 0 \<Longrightarrow> pf_guest_port f \<noteq> 0 \<Longrightarrow> port_forward_from_str (port_forward_display f) = Inr f"
  by (simp add: port_forward_from_str_def port_forward_display_def split_once_append digits_no_colon
      parse_published_port_def port_forward_new_def Let_def)

lemma parse_port_forwards_stored:
  assumes "validate_forwards [] fs = Inr u"
  shows "parse_port_forwards (join '','' (map port_forward_display fs)) = Inr fs"
proof (cases "fs = []")
  case False
  have "split_char [CHR '',''] (join '','' (map port_forward_display fs)) = map port_forward_display fs"
    using False by (intro join_split) (auto simp: port_forward_display_def digits_no_colon)
  moreover have "map (\<lambda>f. port_forward_from_str (port_forward_display f)) fs = map Inr fs"
    using validate_forwards_nonzero [OF assms] by (auto intro: port_forward_round_trip)
  moreover have "join '','' (map port_forward_display fs) \<noteq> []"
    using False by (cases fs; cases "tl fs") (auto simp: port_forward_display_def)
  ultimately show ?thesis by (simp add: parse_port_forwards_def collect_results_ok o_def)
qed (simp add: parse_port_forwards_def)

lemmas field_access = parse_field_def required_field_def optional_nonempty_field_def

lemma decode_spec_stored:
  assumes "spec_validate (im_spec m) = Inr u"
  shows "decode_spec (stored m) MANIFEST_VERSION = Inr (im_spec m)"
proof -
  have "validate_forwards [] (is_port_forwards (im_spec m)) = Inr ()"
    using assms by (auto simp: spec_validate_def ok_iff)
  from parse_port_forwards_stored [OF this] assms show ?thesis
    by (cases "im_spec m") (simp add: decode_spec_def field_access MANIFEST_VERSION_def Let_def)
qed

lemma decode_user_stored:
  assumes "validate_runtime_fields m = Inr u"
  shows "decode_user (stored m) MANIFEST_VERSION = Inr (im_default_user m, im_default_user_role m)"
proof -
  have "im_default_user m \<noteq> Some []"
    using assms by (auto simp: validate_runtime_fields_def core_validate_windows_user_name_def windows_user_name_ok_def
        ok_iff split: if_splits)
  moreover have "role_display r \<noteq> []" for r by (cases r) simp_all
  ultimately show ?thesis
    by (cases "im_default_user m"; cases "im_default_user_role m")
      (simp_all add: decode_user_def field_access MANIFEST_VERSION_def text_or_empty_def Let_def)
qed

lemma parse_folder_share_stored:
  assumes "k < length (im_folder_shares m)" and "share_validate (im_folder_shares m ! k) = Inr u"
  shows "parse_folder_share (stored m) MANIFEST_VERSION k = Inr (im_folder_shares m ! k)"
proof -
  have "line_ok (sh_host_path (im_folder_shares m ! k))" using assms(2) by (auto simp: share_validate_def ok_iff)
  with assms(2) stored_share [OF assms(1) refl] show ?thesis
    by (cases "im_folder_shares m ! k")
      (simp add: parse_folder_share_def field_access MANIFEST_VERSION_def line_ok_display Let_def)
qed

lemma parse_folder_shares_stored:
  assumes "validate_shares [] False (im_folder_shares m) = Inr u"
  shows "parse_folder_shares (stored m) MANIFEST_VERSION
    = (if length (im_folder_shares m) \<le> 64 then Inr (im_folder_shares m)
       else parse_folder_shares (stored m) MANIFEST_VERSION)"
proof -
  let ?n = "length (im_folder_shares m)"
  have "map (parse_folder_share (stored m) MANIFEST_VERSION) [0..<?n] = map Inr (im_folder_shares m)"
  proof (rule nth_equalityI)
    fix k assume "k < length (map (parse_folder_share (stored m) MANIFEST_VERSION) [0..<?n])"
    then have k: "k < ?n" by simp
    with validate_shares_each [OF assms, of "im_folder_shares m ! k"] parse_folder_share_stored [OF k]
    show "map (parse_folder_share (stored m) MANIFEST_VERSION) [0..<?n] ! k = map Inr (im_folder_shares m) ! k"
      by auto
  qed simp
  moreover have "parse_int usize_limit (decimal ?n) = Inr ?n" if "?n \<le> 64"
    using that by (simp add: usize_limit_def)
  ultimately show ?thesis by (simp add: parse_folder_shares_def field_access collect_results_ok)
qed

lemma optional_key_stored:
  assumes "validate_runtime_fields m = Inr u"
  shows "optional_nonempty_field (stored m) ''base_image_key'' = im_base_image_key m"
  using assms
  by (cases "im_base_image_key m")
    (auto simp: field_access text_or_empty_def validate_runtime_fields_def split: if_splits)

lemma decode_fields_stored:
  assumes enc: "manifest_encode m = Inr s" and port: "im_control_port m = stable_control_port (is_name (im_spec m))"
    and version: "im_version m = MANIFEST_VERSION" and shares: "length (im_folder_shares m) \<le> 64"
  shows "decode_fields (stored m) = Inr m"
proof -
  have valid: "spec_validate (im_spec m) = Inr ()" "validate_runtime_fields m = Inr ()"
    "validate_idle_timeout (im_idle_timeout_seconds m) = Inr ()"
    "validate_idle_timeout (im_hibernate_timeout_seconds m) = Inr ()"
    using enc by (auto simp: manifest_encode_def ok_iff)
  then have "validate_shares [] False (im_folder_shares m) = Inr ()"
    by (auto simp: validate_runtime_fields_def ok_iff split: if_splits)
  from parse_folder_shares_stored [OF this] shares
  have folder: "parse_folder_shares (stored m) MANIFEST_VERSION = Inr (im_folder_shares m)" by simp
  have "validate_instance_name (is_name (im_spec m)) = Inr ()" using valid(1) by (auto simp: spec_validate_def ok_iff)
  then have control: "decode_control_port (stored m) (im_spec m) = Inr (im_control_port m)"
    using port by (simp add: decode_control_port_def control_port_for_instance_def field_access)
  have timeouts: "decode_timeouts (stored m) MANIFEST_VERSION
      = Inr (im_idle_timeout_seconds m, im_hibernate_timeout_seconds m)"
    using valid by (simp add: decode_timeouts_def field_access MANIFEST_VERSION_def)
  note parts = decode_spec_stored [OF valid(1)] control timeouts decode_user_stored [OF valid(2)] folder
    optional_key_stored [OF valid(2)]
  let ?v = "MANIFEST_VERSION"
  have versions: "1 \<le> ?v" "5 \<le> ?v" "8 \<le> ?v" by (simp_all add: MANIFEST_VERSION_def)
  have "parse_field parse_word (stored m) ''version'' = Inr ?v" by (simp add: field_access)
  with parts versions valid(2) version show ?thesis
    by (cases m) (simp add: decode_fields_def Let_def parse_field_def required_field_def)
qed


section \<open>Accepted manifests\<close>

lemma read_fields_utf8:
  "read_fields n ls flds = Inr flds' \<Longrightarrow> \<forall>l \<in> set ls. utf8_valid l \<Longrightarrow> \<forall>k v. flds k = Some v \<longrightarrow> utf8_valid v \<Longrightarrow>
    flds' k = Some v \<Longrightarrow> utf8_valid v"
proof (induction n ls flds rule: read_fields.induct)
  case (2 n line rest flds)
  show ?case
  proof (cases "is_blank line \<or> starts_with line ''#''")
    case True
    with 2 show ?thesis by simp
  next
    case False
    with "2.prems"(1) obtain key w where kv: "split_once (CHR ''='') line = Some (key, w)" "flds key = None"
      "read_fields (Suc n) rest (flds(key \<mapsto> w)) = Inr flds'"
      by (auto simp: ok_iff split: if_splits)
    have "utf8_valid w"
      using utf8_valid_split_once [OF _ _ kv(1)] "2.prems"(2) by (simp add: char_code_def)
    with "2.prems"(3) have "\<forall>k v. (flds(key \<mapsto> w)) k = Some v \<longrightarrow> utf8_valid v" by simp
    from "2.IH"(2) [OF False _ kv(3) _ this] "2.prems"(2,4) kv(2) show ?thesis by simp
  qed
qed simp

lemma parse_folder_share_fields:
  assumes "parse_folder_share flds version k = Inr sh"
  shows "\<exists>key. flds key = Some (sh_guest_path sh)"
  using assms by (auto simp: parse_folder_share_def field_access ok_iff Let_def)

lemma parse_folder_shares_ok:
  assumes "parse_folder_shares flds version = Inr shares"
  shows "length shares \<le> 64" "sh \<in> set shares \<Longrightarrow> \<exists>key. flds key = Some (sh_guest_path sh)"
proof -
  obtain count where count: "count \<le> 64"
      "map (parse_folder_share flds version) [0..<count] = map Inr shares"
    using assms by (auto simp: parse_folder_shares_def ok_iff not_less split: if_splits)
  from map_eq_imp_length_eq [OF count(2)] have len: "length shares = count" by simp
  with count(1) show "length shares \<le> 64" by simp
  assume "sh \<in> set shares"
  then obtain k where k: "k < count" "sh = shares ! k" using len by (auto simp: in_set_conv_nth)
  then have "parse_folder_share flds version k = Inr sh"
    using arg_cong [OF count(2), of "\<lambda>xs. xs ! k"] len by simp
  then show "\<exists>key. flds key = Some (sh_guest_path sh)" by (rule parse_folder_share_fields)
qed

lemma decode_spec_ok: "decode_spec flds version = Inr spec \<Longrightarrow> spec_validate spec = Inr ()"
  by (auto simp: decode_spec_def ok_iff Let_def)

lemma decode_control_port_ok:
  "decode_control_port flds spec = Inr port \<Longrightarrow> port = stable_control_port (is_name spec)"
  by (auto simp: decode_control_port_def control_port_for_instance_def ok_iff split: if_splits)

lemma decode_timeouts_ok:
  "decode_timeouts flds version = Inr (a, b) \<Longrightarrow> validate_idle_timeout a = Inr () \<and> validate_idle_timeout b = Inr ()"
  by (auto simp: decode_timeouts_def ok_iff)

lemma decode_user_ok:
  "decode_user flds version = Inr (Some u, role) \<Longrightarrow> flds ''default_user'' = Some u"
  by (auto simp: decode_user_def optional_nonempty_field_def ok_iff Let_def split: if_splits option.splits)

lemma decode_fields_ok:
  assumes "decode_fields flds = Inr m"
  shows "im_version m = MANIFEST_VERSION" "im_control_port m = stable_control_port (is_name (im_spec m))"
    "spec_validate (im_spec m) = Inr ()" "validate_runtime_fields m = Inr ()"
    "validate_idle_timeout (im_idle_timeout_seconds m) = Inr ()"
    "validate_idle_timeout (im_hibernate_timeout_seconds m) = Inr ()"
    "length (im_folder_shares m) \<le> 64"
    "sh \<in> set (im_folder_shares m) \<Longrightarrow> \<exists>key. flds key = Some (sh_guest_path sh)"
    "im_default_user m = Some u \<Longrightarrow> flds ''default_user'' = Some u"
proof -
  obtain version idle hibernate role where
    spec: "decode_spec flds version = Inr (im_spec m)"
    and port: "decode_control_port flds (im_spec m) = Inr (im_control_port m)"
    and timeouts: "decode_timeouts flds version = Inr (im_idle_timeout_seconds m, im_hibernate_timeout_seconds m)"
    and user: "decode_user flds version = Inr (im_default_user m, role)"
    and shares: "(if version \<ge> 5 then parse_folder_shares flds version else Inr []) = Inr (im_folder_shares m)"
    and runtime: "validate_runtime_fields m = Inr ()" and v: "im_version m = MANIFEST_VERSION"
    using assms by (auto simp: decode_fields_def ok_iff Let_def)
  show "im_version m = MANIFEST_VERSION" "validate_runtime_fields m = Inr ()" by fact+
  show "im_control_port m = stable_control_port (is_name (im_spec m))" by (rule decode_control_port_ok [OF port])
  show "spec_validate (im_spec m) = Inr ()" by (rule decode_spec_ok [OF spec])
  show "validate_idle_timeout (im_idle_timeout_seconds m) = Inr ()"
    "validate_idle_timeout (im_hibernate_timeout_seconds m) = Inr ()"
    using decode_timeouts_ok [OF timeouts] by simp_all
  show "length (im_folder_shares m) \<le> 64"
    using shares parse_folder_shares_ok(1) by (auto split: if_splits)
  show "sh \<in> set (im_folder_shares m) \<Longrightarrow> \<exists>key. flds key = Some (sh_guest_path sh)"
    using shares parse_folder_shares_ok(2) by (auto split: if_splits)
  show "im_default_user m = Some u \<Longrightarrow> flds ''default_user'' = Some u"
    using user decode_user_ok by simp
qed

lemma decode_encodes:
  assumes "decode_fields flds = Inr m" and "\<forall>k v. flds k = Some v \<longrightarrow> utf8_valid v"
  shows "(\<exists>s. manifest_encode m = Inr s) \<and> manifest_utf8 m"
proof
  note ok = decode_fields_ok [OF assms(1)]
  have "line_ok (is_source_iso (im_spec m))"
    using ok(3) by (auto simp: spec_validate_def validate_serializable_path_def ok_iff)
  then show "\<exists>s. manifest_encode m = Inr s"
    using ok(3-6) by (simp add: manifest_encode_def path_to_str_def line_ok_def)
  have "utf8_valid (sh_guest_path sh)" if "sh \<in> set (im_folder_shares m)" for sh
    using ok(8) [OF that] assms(2) by blast
  moreover have "utf8_valid (text_or_empty (im_default_user m))"
    using ok(9) assms(2) by (cases "im_default_user m") (auto simp: text_or_empty_def)
  ultimately show "manifest_utf8 m" by (simp add: manifest_utf8_def list_all_iff)
qed

lemma fnv_port_range: "42000 \<le> unat (stable_control_port name)" "unat (stable_control_port name) < 44000"
proof -
  let ?h = "foldl fnv_step 2166136261 (as_bytes name) mod 2000"
  have h: "unat ?h < 2000" by (simp add: unat_mod)
  then have "unat (ucast ?h :: u16) = unat ?h" by (simp add: unsigned_ucast_eq take_bit_nat_eq_self)
  moreover have "stable_control_port name = 42000 + ucast ?h"
    by (simp add: stable_control_port_def AGENT_CONTROL_PORT_START_def AGENT_CONTROL_PORT_END_EXCLUSIVE_def)
  ultimately have "unat (stable_control_port name) = 42000 + unat ?h" using h by (simp add: unat_word_ariths)
  with h show "42000 \<le> unat (stable_control_port name)" "unat (stable_control_port name) < 44000" by simp_all
qed

lemma validate_forwards_distinct:
  "validate_forwards seen fs = Inr u \<Longrightarrow> distinct (map pf_host_port fs) \<and> set seen \<inter> pf_host_port ` set fs = {}
    \<and> (\<forall>f \<in> set fs. \<not> (42000 \<le> unat (pf_host_port f) \<and> unat (pf_host_port f) < 44000))"
proof (induction seen fs rule: validate_forwards.induct)
  case (2 seen f fs)
  then show ?case
    by (auto simp: ok_iff AGENT_CONTROL_PORT_START_def AGENT_CONTROL_PORT_END_EXCLUSIVE_def word_le_nat_alt
        word_less_nat_alt split: if_splits)
qed simp

definition shares_apart :: "FolderShare \<Rightarrow> FolderShare \<Rightarrow> bool" where
  "shares_apart a b \<longleftrightarrow> sh_name a \<noteq> sh_name b \<and> \<not> shares_overlap b a \<and> \<not> (sh_transport a = LiveSmb \<and> sh_transport b = LiveSmb)"

lemma reject_overlap_ok: "reject_overlap es sh = Inr u \<longleftrightarrow> (\<forall>e \<in> set es. \<not> shares_overlap sh e)"
  by (induction es sh rule: reject_overlap.induct) auto

lemma validate_shares_apart:
  "validate_shares earlier seen shares = Inr u \<Longrightarrow> (\<exists>e \<in> set earlier. sh_transport e = LiveSmb) \<longrightarrow> seen \<Longrightarrow>
    sorted_wrt shares_apart shares \<and> (\<forall>e \<in> set earlier. \<forall>s \<in> set shares. shares_apart e s)"
proof (induction earlier seen shares rule: validate_shares.induct)
  case (2 earlier seen share shares)
  from "2.prems"(1) have step: "\<not> (sh_transport share = LiveSmb \<and> seen)" "sh_name share \<notin> set (map sh_name earlier)"
    "\<forall>e \<in> set earlier. \<not> shares_overlap share e"
    "validate_shares (earlier @ [share]) (seen \<or> sh_transport share = LiveSmb) shares = Inr u"
    by (auto simp: ok_iff reject_overlap_ok split: if_splits)
  have "\<forall>e \<in> set earlier. sh_name e \<noteq> sh_name share" using step(2) by (auto simp: image_iff)
  with step(1,3) "2.prems"(2) have "\<forall>e \<in> set earlier. shares_apart e share" by (auto simp: shares_apart_def)
  moreover have "sorted_wrt shares_apart shares \<and> (\<forall>e \<in> set (earlier @ [share]). \<forall>s \<in> set shares. shares_apart e s)"
    using step "2.prems"(2) by (intro "2.IH") auto
  ultimately show ?case by auto
qed simp


section \<open>Many shares\<close>

text \<open>Any number of small folder shares that do not overlap, and a manifest that holds them.\<close>

definition nth_share :: "nat \<Rightarrow> FolderShare" where
  "nth_share k = \<lparr>sh_name = ''s'' @ decimal k, sh_host_path = ''/'' @ decimal k,
     sh_guest_path = ''C:/'' @ decimal k, sh_mode = ReadOnly, sh_transport = Mirror\<rparr>"

definition sample_spec :: InstanceSpec where
  "sample_spec = \<lparr>is_name = ''w'', is_source_iso = ''/w.iso'', is_profile = Slim, is_cpus = 4, is_memory_mib = 8192,
     is_disk_gib = 64, is_network = Nat, is_port_forwards = [\<lparr>pf_host_port = 8080, pf_guest_port = 80\<rparr>],
     is_license_accepted = True, is_allow_unsupported_requirements = False\<rparr>"

definition sample_manifest :: "FolderShare list \<Rightarrow> InstanceManifest" where
  "sample_manifest shares = \<lparr>im_version = MANIFEST_VERSION, im_spec = sample_spec, im_state = Stopped,
     im_control_port = stable_control_port ''w'', im_created_unix_seconds = 1, im_idle_timeout_seconds = 600,
     im_hibernate_timeout_seconds = 300, im_idle_policy = Off, im_memory_min_mib = 2048,
     im_state_changed_unix_seconds = 1, im_base_image_key = None, im_default_user = Some ''u'',
     im_default_user_role = Some Standard, im_scoped_live_share_credential = True, im_folder_shares = shares\<rparr>"

lemma decimal_no_char: "\<not> is_ascii_digit c \<Longrightarrow> c \<notin> set (decimal k)"
  by (auto dest: decimal_digits)

lemma decimal_not_dot: "decimal k \<noteq> ''.''"
proof
  assume "decimal k = ''.''"
  then have "CHR ''.'' \<in> set (decimal k)" by simp
  then show False by (auto dest!: decimal_digits simp: is_ascii_digit_def char_code_def)
qed

lemma nth_share_components: "path_components (''/'' @ decimal k) = [''/'', decimal k]"
proof -
  have "split_char [CHR ''/''] (decimal k) = [decimal k]"
    by (rule split_char_none) (auto simp: is_ascii_digit_def char_code_def dest!: decimal_digits)
  then show ?thesis by (simp add: path_components_def path_is_absolute_def decimal_not_dot)
qed

lemma decimal_case: "to_ascii_lowercase (replace_char (CHR ''/'') BACKSLASH (decimal k)) = decimal k"
  unfolding to_ascii_lowercase_def replace_char_def map_map
  by (rule map_idI) (auto simp: ascii_lower_char_def is_ascii_uppercase_def is_ascii_digit_def char_code_def
      dest!: decimal_digits)

lemma decimal_not_backslash: "\<not> starts_with (drop n (decimal k)) [BACKSLASH]"
proof
  assume "starts_with (drop n (decimal k)) [BACKSLASH]"
  then have "BACKSLASH \<in> set (drop n (decimal k))" by (cases "drop n (decimal k)") (auto simp: starts_with_def)
  then have "BACKSLASH \<in> set (decimal k)" by (rule in_set_dropD)
  then show False by (auto dest!: decimal_digits simp: is_ascii_digit_def BACKSLASH_def char_code_def)
qed

lemma nth_share_apart: "k \<noteq> l \<Longrightarrow> \<not> shares_overlap (nth_share k) (nth_share l)"
proof -
  assume "k \<noteq> l"
  let ?root = "[CHR ''c'', CHR '':'', BACKSLASH]"
  have guest: "to_ascii_lowercase (replace_char (CHR ''/'') BACKSLASH (''C:/'' @ decimal n)) = ?root @ decimal n" for n
  proof -
    have "to_ascii_lowercase (replace_char (CHR ''/'') BACKSLASH ''C:/'') = ?root" by code_simp
    with decimal_case [of n] show ?thesis by (simp add: to_ascii_lowercase_def replace_char_def)
  qed
  have "\<not> windows_roots_overlap (''C:/'' @ decimal k) (''C:/'' @ decimal l)"
    unfolding windows_roots_overlap_def guest Let_def strip_prefix_def
    using \<open>k \<noteq> l\<close> decimal_not_backslash by auto
  then show ?thesis
    using \<open>k \<noteq> l\<close> by (simp add: shares_overlap_def nth_share_def path_starts_with_def nth_share_components [simplified])
qed

lemma nth_shares_valid: "k < 65 \<Longrightarrow> \<exists>u. share_validate (nth_share k) = Inr u"
proof -
  have "list_all (\<lambda>k. is_ok (share_validate (nth_share k))) [0..<65]" by code_simp
  then show "k < 65 \<Longrightarrow> ?thesis" by (simp add: list_all_iff ok_iff)
qed

lemma nth_shares_accepted:
  "n + j \<le> 65 \<Longrightarrow> validate_shares (map nth_share [0..<n]) False (map nth_share [n..<n + j]) = Inr ()"
proof (induction j arbitrary: n)
  case (Suc j)
  have upt: "[n..<n + Suc j] = n # [Suc n..<Suc n + j]" by (simp add: upt_conv_Cons del: upt_Suc)
  from nth_shares_valid [of n] Suc.prems obtain u where valid: "share_validate (nth_share n) = Inr u" by auto
  have "reject_overlap (map nth_share [0..<n]) (nth_share n) = Inr ()"
    by (auto simp: reject_overlap_ok nth_share_apart)
  moreover have "sh_transport (nth_share n) = Mirror" "sh_name (nth_share n) \<notin> set (map sh_name (map nth_share [0..<n]))"
    by (auto simp: nth_share_def)
  moreover have "validate_shares (map nth_share [0..<Suc n]) False (map nth_share [Suc n..<Suc n + j]) = Inr ()"
    using Suc.prems by (intro Suc.IH) simp
  ultimately show ?case using valid unfolding upt by simp
qed simp

lemma stored_share_limit:
  assumes "decode_fields (stored m) = Inr m'" and "length (im_folder_shares m) < usize_limit"
  shows "length (im_folder_shares m) \<le> 64"
proof -
  have "\<exists>shares. parse_folder_shares (stored m) MANIFEST_VERSION = Inr shares"
    using assms(1) by (auto simp: decode_fields_def field_access ok_iff Let_def) (auto simp: MANIFEST_VERSION_def)
  then show ?thesis
    using assms(2) by (auto simp: parse_folder_shares_def field_access ok_iff not_less split: if_splits)
qed


section \<open>Properties\<close>

text \<open>
  C19: a manifest of the current version whose control port is the one derived from its name and
  that has at most 64 folder shares is stored without loss: decoding what was encoded returns the
  same manifest, for every field, port forward and share.
\<close>

theorem manifest_round_trip:
  assumes "manifest_encode m = Inr s" and "manifest_utf8 m" and "im_version m = MANIFEST_VERSION"
    and "im_control_port m = stable_control_port (is_name (im_spec m))" and "length (im_folder_shares m) \<le> 64"
  shows "manifest_decode s = Inr m"
  using stored_read [OF assms(1,2)] decode_fields_stored [OF assms(1,4,3,5)] by (simp add: manifest_decode_def)

theorem manifest_round_trip_witness:
  "\<exists>s. manifest_encode (sample_manifest [nth_share 0]) = Inr s
     \<and> manifest_decode s = Inr (sample_manifest [nth_share 0])"
proof -
  have "is_ok (manifest_encode (sample_manifest [nth_share 0]))" by code_simp
  then obtain s where s: "manifest_encode (sample_manifest [nth_share 0]) = Inr s" by (auto simp: ok_iff)
  have "manifest_utf8 (sample_manifest [nth_share 0])" by code_simp
  with manifest_round_trip [OF s] s show ?thesis by (simp add: sample_manifest_def sample_spec_def)
qed

text \<open>
  C20: whatever version of the format a manifest is read from, the result is a valid manifest of
  the current version: its control port is the derived one, in the range reserved for agents, no
  published port collides with that range or with another one, there are at most 64 shares, no
  two of which have the same name, both a live transport, or roots that \<open>shares_overlap\<close> finds to overlap
  (which misses the root of the live drive), and storing it and reading it again returns it unchanged.
\<close>

theorem decoded_manifest_valid:
  assumes "manifest_decode contents = Inr m" and "utf8_valid contents"
  shows "im_version m = MANIFEST_VERSION
    \<and> im_control_port m = stable_control_port (is_name (im_spec m))
    \<and> 42000 \<le> unat (im_control_port m) \<and> unat (im_control_port m) < 44000
    \<and> distinct (map pf_host_port (is_port_forwards (im_spec m)))
    \<and> list_all (\<lambda>f. \<not> (42000 \<le> unat (pf_host_port f) \<and> unat (pf_host_port f) < 44000)) (is_port_forwards (im_spec m))
    \<and> length (im_folder_shares m) \<le> 64 \<and> sorted_wrt shares_apart (im_folder_shares m)
    \<and> (\<exists>s. manifest_encode m = Inr s \<and> manifest_decode s = Inr m)"
proof -
  obtain flds where read: "read_fields 1 (lines contents) (\<lambda>_. None) = Inr flds" and m: "decode_fields flds = Inr m"
    using assms(1) by (auto simp: manifest_decode_def ok_iff)
  have utf8: "\<forall>k v. flds k = Some v \<longrightarrow> utf8_valid v"
    using read_fields_utf8 [OF read] utf8_valid_lines [OF assms(2)] by simp
  note ok = decode_fields_ok [OF m]
  from decode_encodes [OF m utf8] obtain s where s: "manifest_encode m = Inr s" "manifest_utf8 m" by blast
  have again: "manifest_decode s = Inr m"
    using stored_read [OF s] decode_fields_stored [OF s(1) ok(2,1,7)] by (simp add: manifest_decode_def)
  have "validate_forwards [] (is_port_forwards (im_spec m)) = Inr ()"
    using ok(3) by (auto simp: spec_validate_def ok_iff)
  from validate_forwards_distinct [OF this] have ports: "distinct (map pf_host_port (is_port_forwards (im_spec m)))"
    "list_all (\<lambda>f. \<not> (42000 \<le> unat (pf_host_port f) \<and> unat (pf_host_port f) < 44000)) (is_port_forwards (im_spec m))"
    by (simp_all add: list_all_iff)
  have "validate_shares [] False (im_folder_shares m) = Inr ()"
    using ok(4) by (auto simp: validate_runtime_fields_def ok_iff split: if_splits)
  from validate_shares_apart [OF this] have "sorted_wrt shares_apart (im_folder_shares m)" by simp
  with ok(1,2,7) ports fnv_port_range [of "is_name (im_spec m)"] s(1) again show ?thesis by simp
qed

text \<open>A manifest as the first version wrote it.\<close>

definition legacy_manifest :: string where
  "legacy_manifest = concat (map (\<lambda>l. l @ [NL]) [''version=1'', ''name=w'', ''source_iso=/w.iso'', ''profile=standard'',
     ''cpus=2'', ''memory_mib=4096'', ''disk_gib=64'', ''license_accepted=true'',
     ''allow_unsupported_requirements=false'', ''state=stopped'', ''control_port=42886'', ''created_unix_seconds=7''])"

theorem decoded_manifest_valid_witness:
  "\<exists>m s. manifest_decode legacy_manifest = Inr m \<and> manifest_encode m = Inr s \<and> manifest_decode s = Inr m"
proof -
  have "is_ok (manifest_decode legacy_manifest)" by code_simp
  then obtain m where m: "manifest_decode legacy_manifest = Inr m" by (auto simp: ok_iff)
  have "utf8_valid legacy_manifest" by code_simp
  from decoded_manifest_valid [OF m this] m show ?thesis by blast
qed

text \<open>
  C21: the limit of 64 folder shares is enforced only when a manifest is read: a valid manifest
  with 65 shares is encoded and stored, and can then never be read again.
\<close>

theorem too_many_shares_unreadable:
  "\<exists>s. manifest_encode (sample_manifest (map nth_share [0..<65])) = Inr s \<and> \<not> is_ok (manifest_decode s)"
proof -
  define shares where "shares = map nth_share [0..<65]"
  let ?m = "sample_manifest shares"
  have valid: "validate_shares [] False shares = Inr ()"
    using nth_shares_accepted [of 0 65] by (simp add: shares_def)
  have spec: "spec_validate sample_spec = Inr ()" "path_to_str (is_source_iso sample_spec) = Some ''/w.iso''"
      "core_validate_windows_user_name ''u'' = Inr ()" "is_memory_mib sample_spec = 8192"
    by code_simp+
  have "\<exists>s. manifest_encode ?m = Inr s"
    using valid spec
    by (simp add: manifest_encode_def sample_manifest_def validate_idle_timeout_def validate_runtime_fields_def)
  then obtain s where s: "manifest_encode ?m = Inr s" by blast
  have "utf8_valid (sh_guest_path (nth_share k))" for k
    using line_ok_printable [of "sh_guest_path (nth_share k)"] by (simp add: line_ok_def nth_share_def char_code_def)
  moreover have "utf8_valid ''u''" by code_simp
  ultimately have "manifest_utf8 ?m"
    by (simp add: manifest_utf8_def sample_manifest_def text_or_empty_def list_all_iff shares_def)
  from stored_read [OF s this] have "manifest_decode s = decode_fields (stored ?m)" by (simp add: manifest_decode_def)
  moreover have "length (im_folder_shares ?m) = 65" by (simp add: sample_manifest_def shares_def)
  ultimately have "\<not> is_ok (manifest_decode s)"
    using stored_share_limit [of ?m] by (auto simp: ok_iff usize_limit_def)
  with s show ?thesis by (auto simp: shares_def)
qed

lemma ascii_lower_backslash: "ascii_lower_char c = BACKSLASH \<longleftrightarrow> c = BACKSLASH"
  by (auto simp: ascii_lower_char_def is_ascii_uppercase_def BACKSLASH_def char_code_def
      dest!: arg_cong [where f = "of_char :: char \<Rightarrow> nat"])

lemma split_char_hd: "split_char cs s \<noteq> []" "s \<noteq> [] \<Longrightarrow> hd s \<in> set cs \<Longrightarrow> hd (split_char cs s) = []"
proof -
  show nonempty: "split_char cs s \<noteq> []" for s by (induction s) (auto split: list.splits)
  show "s \<noteq> [] \<Longrightarrow> hd s \<in> set cs \<Longrightarrow> hd (split_char cs s) = []"
    using nonempty by (cases s) (auto split: list.splits)
qed

text \<open>No directory that a mirrored share may name is found to overlap with the root of a drive.\<close>

lemma live_root_never_overlaps:
  assumes "validate_windows_absolute_path path = Inr ()"
  shows "\<not> windows_roots_overlap path LIVE_ROOT" "\<not> windows_roots_overlap LIVE_ROOT path"
proof -
  let ?norm = "\<lambda>s. to_ascii_lowercase (replace_char (CHR ''/'') BACKSLASH s)"
  have long: "3 < length path" and safe: "list_all windows_path_component_is_safe (split_char [BACKSLASH, CHR ''/''] (drop 3 path))"
    using assms by (auto simp: validate_windows_absolute_path_def Let_def split: if_splits)
  have "hd (split_char [BACKSLASH, CHR ''/''] (drop 3 path)) \<noteq> []"
    using safe split_char_hd(1) by (metis list.pred_set list.set_sel(1) windows_path_component_is_safe_def)
  then have "path ! 3 \<notin> {BACKSLASH, CHR ''/''}"
    using split_char_hd(2) [of "drop 3 path" "[BACKSLASH, CHR ''/'']"] long by (auto simp: hd_drop_conv_nth)
  then have tail: "?norm path ! 3 \<noteq> BACKSLASH"
    using long by (simp add: to_ascii_lowercase_def replace_char_def ascii_lower_backslash)
  have "length (?norm path) = length path" "length (?norm LIVE_ROOT) = 3"
    by (simp_all add: to_ascii_lowercase_def replace_char_def LIVE_ROOT_def)
  with long tail show "\<not> windows_roots_overlap path LIVE_ROOT" "\<not> windows_roots_overlap LIVE_ROOT path"
    unfolding windows_roots_overlap_def Let_def strip_prefix_def starts_with_def
    by (auto simp: take_Suc hd_drop_conv_nth split: if_splits dest!: arg_cong [where f = length] )
qed

lemma deeper_root_overlaps: "windows_roots_overlap (path @ CHR ''/'' # sub) path"
  by (simp add: windows_roots_overlap_def strip_prefix_def starts_with_def to_ascii_lowercase_def replace_char_def
      ascii_lower_backslash Let_def)

definition live_share :: FolderShare where
  "live_share = \<lparr>sh_name = ''linux'', sh_host_path = ''/home'', sh_guest_path = LIVE_ROOT, sh_mode = ReadWrite,
     sh_transport = LiveSmb\<rparr>"

definition mirror_share :: "string \<Rightarrow> string \<Rightarrow> string \<Rightarrow> FolderShare" where
  "mirror_share name host guest = \<lparr>sh_name = name, sh_host_path = host, sh_guest_path = guest, sh_mode = ReadOnly,
     sh_transport = Mirror\<rparr>"

text \<open>
  C22: the overlap check never sees a conflict with the live share at the root of drive L: it accepts the
  live share together with every valid mirrored share that has another name and a host directory that
  is not nested with its own, in both orders and whatever the mirrored share's guest directory is, so also with every
  directory of drive L itself, which lies below the live share's root.  Below any other directory the
  check works: a share in a directory of a mirrored share's directory is rejected.
\<close>

theorem drive_root_overlap_accepted:
  assumes "share_validate live = Inr ()" and "sh_transport live = LiveSmb"
    and "share_validate mirror = Inr ()" and "sh_transport mirror = Mirror" and "sh_name mirror \<noteq> sh_name live"
    and "\<not> path_starts_with (sh_host_path mirror) (sh_host_path live)"
    and "\<not> path_starts_with (sh_host_path live) (sh_host_path mirror)"
  shows "validate_shares [] False [live, mirror] = Inr () \<and> validate_shares [] False [mirror, live] = Inr ()
    \<and> \<not> is_ok (validate_shares [] False [mirror, \<lparr>sh_name = name, sh_host_path = host,
         sh_guest_path = sh_guest_path mirror @ CHR ''/'' # sub, sh_mode = mode, sh_transport = Mirror\<rparr>])"
proof -
  have "sh_guest_path live = LIVE_ROOT" using assms(1,2) by (auto simp: share_validate_def ok_iff split: if_splits)
  moreover have "validate_windows_absolute_path (sh_guest_path mirror) = Inr ()"
    using assms(3,4) by (auto simp: share_validate_def ok_iff split: if_splits)
  ultimately have "\<not> shares_overlap live mirror" "\<not> shares_overlap mirror live"
    using live_root_never_overlaps assms(6,7) by (auto simp: shares_overlap_def)
  with assms show ?thesis
    by (auto simp: shares_overlap_def deeper_root_overlaps ok_iff split: sum.splits)
qed

theorem drive_root_overlap_accepted_witness:
  "validate_shares [] False [live_share, mirror_share ''data'' ''/srv'' ''L:/data''] = Inr ()
   \<and> \<not> is_ok (validate_shares [] False [mirror_share ''data'' ''/srv'' ''L:/data'', mirror_share ''b'' ''/opt'' ''L:/data/x''])"
proof -
  have "share_validate live_share = Inr ()" "share_validate (mirror_share ''data'' ''/srv'' ''L:/data'') = Inr ()"
    "\<not> path_starts_with ''/srv'' ''/home''" "\<not> path_starts_with ''/home'' ''/srv''" by code_simp+
  from drive_root_overlap_accepted [OF this(1) _ this(2), of "''b''" "''/opt''" "''x''" ReadOnly] this(3,4)
  show ?thesis unfolding live_share_def mirror_share_def by (simp del: validate_shares.simps)
qed

end
