(* ===== verification/State_Store.thy ===== *)
theory State_Store
  imports Host_Fs Manifest_Codec "HOL-Library.List_Lexorder"
begin

text \<open>
  The store of instances (\<open>store.rs\<close> of \<open>lsw-core\<close>): one directory per instance, with its manifest
  and the token of its agent, and the file that names the default instance.
\<close>

section \<open>Definitions\<close>

definition MANIFEST_FILE :: string where "MANIFEST_FILE = ''instance.lsw''"
definition AGENT_TOKEN_FILE :: string where "AGENT_TOKEN_FILE = ''agent.token''"
definition DEFAULT_INSTANCE_FILE :: string where "DEFAULT_INSTANCE_FILE = ''default-instance''"

text \<open>A store is the path of its root.\<close>

type_synonym StateStore = string

type_synonym ('w, 'a) store = "('w host, LswError, 'a) io"

abbreviation io_lsw :: "('w, 'a) fs \<Rightarrow> ('w, 'a) store" where
  "io_lsw \<equiv> io_map_error LswIo"

definition default_state_root :: "string option \<Rightarrow> string option \<Rightarrow> LswError + StateStore" where
  "default_state_root state_dir home =
     (case state_dir of
        Some configured \<Rightarrow> Inr configured
      | None \<Rightarrow> and_then (ok_or home (InvalidValue ''state directory''
                  [Text ''HOME is not set; configure LSW_STATE_DIR''])) (\<lambda>home.
                Inr (path_join home ''.local/share/lsw'')))"

definition instances_root :: "StateStore \<Rightarrow> string" where
  "instances_root st = path_join st ''instances''"

definition instance_dir :: "StateStore \<Rightarrow> string \<Rightarrow> LswError + string" where
  "instance_dir st name = and_then (validate_instance_name name) (\<lambda>_. Inr (path_join (instances_root st) name))"

definition agent_token_path :: "StateStore \<Rightarrow> string \<Rightarrow> LswError + string" where
  "agent_token_path st name = and_then (instance_dir st name) (\<lambda>dir. Inr (path_join dir AGENT_TOKEN_FILE))"


subsection \<open>File checks\<close>

definition node_check :: "(fs_node \<Rightarrow> bool) \<Rightarrow> 'w host_os \<Rightarrow> string \<Rightarrow> ('w, bool) store" where
  "node_check test os p =
     io_bind (io_attempt (symlink_metadata os p)) (\<lambda>r.
     case r of
       Inr metadata \<Rightarrow> io_return (test metadata)
     | Inl e \<Rightarrow> if e = NotFound then io_return False else io_fail (LswIo e))"

definition is_real_directory :: "'w host_os \<Rightarrow> string \<Rightarrow> ('w, bool) store" where
  "is_real_directory = node_check is_dir"

definition is_regular_file :: "'w host_os \<Rightarrow> string \<Rightarrow> ('w, bool) store" where
  "is_regular_file = node_check is_regular"

text \<open>The modes \<open>0o700\<close> and \<open>0o600\<close>.\<close>

definition set_private_directory_permissions :: "'w host_os \<Rightarrow> string \<Rightarrow> ('w, unit) store" where
  "set_private_directory_permissions os p = io_lsw (set_permissions os p 448)"

definition set_private_file_permissions :: "'w host_os \<Rightarrow> string \<Rightarrow> ('w, unit) store" where
  "set_private_file_permissions os p = io_lsw (set_permissions os p 384)"

definition ensure_private_directory :: "'w host_os \<Rightarrow> string \<Rightarrow> ('w, unit) store" where
  "ensure_private_directory os p =
     io_bind (is_real_directory os p) (\<lambda>real.
     if \<not> real
     then io_fail (InvalidValue ''state directory'' [Disp (path_display p), Text '' must be a real directory''])
     else set_private_directory_permissions os p)"


subsection \<open>Writing files\<close>

definition write_atomic :: "'w host_os \<Rightarrow> string \<Rightarrow> string \<Rightarrow> ('w, unit) store" where
  "write_atomic os path contents =
     io_bind (os_ask (ho_nanos os)) (\<lambda>nonce.
     let temporary = with_extension path (''tmp-'' @ decimal (ho_pid os) @ ''-'' @ decimal nonce) in
     io_bind (io_lsw (open_create_new os temporary)) (\<lambda>_.
     io_bind (set_private_file_permissions os temporary) (\<lambda>_.
     io_bind (io_lsw (write_contents os temporary contents)) (\<lambda>_.
     io_bind (io_lsw (sync_file os temporary)) (\<lambda>_.
     io_bind (io_attempt (rename_path os temporary path)) (\<lambda>renamed.
     case renamed of
       Inl e \<Rightarrow> io_bind (io_ignore (unlink_file os temporary)) (\<lambda>_. io_fail (LswIo e))
     | Inr _ \<Rightarrow> io_return ()))))))"

definition write_new_private :: "'w host_os \<Rightarrow> string \<Rightarrow> string \<Rightarrow> ('w, unit) store" where
  "write_new_private os path contents =
     io_bind (io_lsw (open_create_new os path)) (\<lambda>_.
     io_bind (set_private_file_permissions os path) (\<lambda>_.
     io_bind (io_lsw (write_contents os path contents)) (\<lambda>_.
     io_bind (io_lsw (write_contents os path [NL])) (\<lambda>_.
     io_lsw (sync_file os path)))))"

definition hex_encode :: "bytes \<Rightarrow> string" where
  "hex_encode bytes = concat (map hex_byte bytes)"

text \<open>\<open>read_exact\<close> fills the 32 bytes or fails when the device ends before.\<close>

definition generate_agent_token :: "'w host_os \<Rightarrow> ('w, string) store" where
  "generate_agent_token os =
     io_bind (io_lsw (os_try (ho_random os))) (\<lambda>bytes.
     if length bytes < 32 then io_fail (LswIo UnexpectedEof)
     else io_return (hex_encode (take 32 bytes)))"


subsection \<open>Reading the store\<close>

definition load :: "'w host_os \<Rightarrow> StateStore \<Rightarrow> string \<Rightarrow> ('w, InstanceManifest) store" where
  "load os st name =
     io_bind (io_of (instance_dir st name)) (\<lambda>dir.
     io_bind (is_real_directory os dir) (\<lambda>real.
     if \<not> real then io_fail (InstanceNotFound name)
     else let path = path_join dir MANIFEST_FILE in
     io_bind (is_regular_file os path) (\<lambda>regular.
     if \<not> regular then io_fail (InstanceNotFound name)
     else io_bind (io_lsw (read_to_string os path)) (\<lambda>contents. io_of (manifest_decode contents)))))"

text \<open>The manifest of one entry of the instances directory, if it has one.\<close>

definition list_entry :: "'w host_os \<Rightarrow> string \<Rightarrow> string \<times> fs_node \<Rightarrow> ('w, InstanceManifest list) store" where
  "list_entry os root = (\<lambda>(name, node).
     io_bind (io_lsw (read_entry os (path_join root name))) (\<lambda>_.
     if \<not> is_dir node then io_return []
     else let manifest_path = path_join (path_join root name) MANIFEST_FILE in
     io_bind (is_regular_file os manifest_path) (\<lambda>regular.
     if \<not> regular then io_return []
     else io_bind (io_lsw (read_to_string os manifest_path)) (\<lambda>contents.
          io_bind (io_of (manifest_decode contents)) (\<lambda>m. io_return [m])))))"

definition sort_by_name :: "InstanceManifest list \<Rightarrow> InstanceManifest list" where
  "sort_by_name = sort_key (\<lambda>m. map char_code (is_name (im_spec m)))"

text \<open>When the directory of instances is not a directory: an empty list if there is nothing at all.\<close>

definition list_without_root :: "'w host_os \<Rightarrow> string \<Rightarrow> ('w, InstanceManifest list) store" where
  "list_without_root os root =
     io_bind (io_attempt (symlink_metadata os root)) (\<lambda>r.
     case r of
       Inl e \<Rightarrow> if e = NotFound then io_return [] else io_fail (LswIo e)
     | Inr _ \<Rightarrow> io_fail (InvalidValue ''instances directory''
                   [Disp (path_display root), Text '' must be a real directory'']))"

definition list_entries :: "'w host_os \<Rightarrow> string \<Rightarrow> (string \<times> fs_node) list \<Rightarrow> ('w, InstanceManifest list) store" where
  "list_entries os root entries =
     io_bind (io_collect (list_entry os root) entries) (\<lambda>found. io_return (sort_by_name (concat found)))"

definition list_instances :: "'w host_os \<Rightarrow> StateStore \<Rightarrow> ('w, InstanceManifest list) store" where
  "list_instances os st =
     (let root = instances_root st in
     io_bind (is_real_directory os root) (\<lambda>real.
     if \<not> real then list_without_root os root
     else io_bind (io_lsw (read_dir os root)) (list_entries os root)))"

definition read_agent_token :: "'w host_os \<Rightarrow> StateStore \<Rightarrow> string \<Rightarrow> ('w, string) store" where
  "read_agent_token os st name =
     io_bind (io_of (instance_dir st name)) (\<lambda>dir.
     io_bind (is_real_directory os dir) (\<lambda>real.
     if \<not> real then io_fail (InstanceNotFound name)
     else let path = path_join dir AGENT_TOKEN_FILE in
     io_bind (is_regular_file os path) (\<lambda>regular.
     if \<not> regular
     then io_fail (InvalidValue ''agent token''
            [Disp (path_display path), Text '' is missing or is not a regular file''])
     else io_bind (io_lsw (read_to_string os path)) (\<lambda>contents.
          let token = trim contents in
          if length token \<noteq> 64 \<or> \<not> list_all (\<lambda>c. is_ascii_hexdigit c \<and> \<not> is_ascii_uppercase c) token
          then io_fail (InvalidValue ''agent token'' [Text ''must contain 64 lowercase hexadecimal characters''])
          else io_return token))))"


subsection \<open>Ports\<close>

definition manifest_ports :: "InstanceManifest \<Rightarrow> u16 list" where
  "manifest_ports m = im_control_port m # map pf_host_port (is_port_forwards (im_spec m))"

fun reject_port_conflict :: "u16 list \<Rightarrow> string option \<Rightarrow> InstanceManifest list \<Rightarrow> LswError + unit" where
  "reject_port_conflict requested_ports excluded [] = Inr ()"
| "reject_port_conflict requested_ports excluded (existing # rest) =
     (if excluded = Some (is_name (im_spec existing)) then reject_port_conflict requested_ports excluded rest
      else case find (\<lambda>requested_port. im_control_port existing = requested_port
                  \<or> list_ex (\<lambda>forward. pf_host_port forward = requested_port) (is_port_forwards (im_spec existing)))
                requested_ports of
             Some port \<Rightarrow> Inl (InvalidValue ''host port'' [Text ''instance '', Dbg (is_name (im_spec existing)),
                 Text '' already reserves '', Num (unat port), Text ''; choose another instance name or published port''])
           | None \<Rightarrow> reject_port_conflict requested_ports excluded rest)"

definition ensure_host_ports_available ::
  "'w host_os \<Rightarrow> StateStore \<Rightarrow> InstanceManifest \<Rightarrow> string option \<Rightarrow> ('w, unit) store" where
  "ensure_host_ports_available os st m excluded =
     io_bind (list_instances os st) (\<lambda>existing.
     io_of (reject_port_conflict (manifest_ports m) excluded existing))"

definition reserve_port :: "'w host_os \<Rightarrow> u16 \<Rightarrow> ('w, unit) store" where
  "reserve_port os port =
     io_map_error (\<lambda>e. InvalidValue ''host port'' [Text ''127.0.0.1:'', Num (unat port),
         Text '' cannot be reserved: '', Disp (io_error_display e)])
       (os_try (ho_bind_port os port))"

definition reserve_host_ports :: "'w host_os \<Rightarrow> InstanceManifest \<Rightarrow> ('w, unit) store" where
  "reserve_host_ports os m = io_for (reserve_port os) (manifest_ports m)"


subsection \<open>Changing the store\<close>

definition initialize :: "'w host_os \<Rightarrow> StateStore \<Rightarrow> ('w, unit) store" where
  "initialize os st =
     io_bind (io_lsw (create_dir_all os st)) (\<lambda>_.
     io_bind (ensure_private_directory os st) (\<lambda>_.
     io_bind (io_lsw (create_dir_all os (instances_root st))) (\<lambda>_.
     ensure_private_directory os (instances_root st))))"

definition create_instance_dir :: "'w host_os \<Rightarrow> string \<Rightarrow> ('w, unit) store" where
  "create_instance_dir os dir =
     io_bind (io_attempt (create_dir os dir)) (\<lambda>created.
     case created of
       Inr _ \<Rightarrow> io_return ()
     | Inl e \<Rightarrow> if e = AlreadyExists then io_fail (InstanceAlreadyExists dir) else io_fail (LswIo e))"

definition create_token :: "'w host_os \<Rightarrow> string \<Rightarrow> ('w, unit) store" where
  "create_token os token_path = io_bind (generate_agent_token os) (write_new_private os token_path)"

text \<open>The files of a new instance; what was written is taken back if one of them fails.\<close>

definition populate_instance :: "'w host_os \<Rightarrow> string \<Rightarrow> string \<Rightarrow> ('w, string) store" where
  "populate_instance os dir encoded =
     (let manifest_path = path_join dir MANIFEST_FILE in
     io_bind (io_attempt (write_atomic os manifest_path encoded)) (\<lambda>written.
     case written of
       Inl e \<Rightarrow> io_bind (io_ignore (remove_dir os dir)) (\<lambda>_. io_fail e)
     | Inr _ \<Rightarrow>
         io_bind (io_attempt (create_token os (path_join dir AGENT_TOKEN_FILE))) (\<lambda>token.
         case token of
           Inl e \<Rightarrow>
             io_bind (io_ignore (unlink_file os manifest_path)) (\<lambda>_.
             io_bind (io_ignore (remove_dir os dir)) (\<lambda>_. io_fail e))
         | Inr _ \<Rightarrow> io_return dir)))"

definition create_instance :: "'w host_os \<Rightarrow> StateStore \<Rightarrow> InstanceManifest \<Rightarrow> ('w, string) store" where
  "create_instance os st m =
     io_bind (io_of (manifest_encode m)) (\<lambda>encoded.
     io_bind (io_of (instance_dir st (is_name (im_spec m)))) (\<lambda>dir.
     io_bind (path_exists os dir) (\<lambda>exists.
     if exists then io_fail (InstanceAlreadyExists dir)
     else
     io_bind (initialize os st) (\<lambda>_.
     io_bind (ensure_host_ports_available os st m None) (\<lambda>_.
     io_bind (reserve_host_ports os m) (\<lambda>_.
     io_bind (create_instance_dir os dir) (\<lambda>_.
     io_bind (set_private_directory_permissions os dir) (\<lambda>_.
     populate_instance os dir encoded))))))))"

definition update_instance :: "'w host_os \<Rightarrow> StateStore \<Rightarrow> InstanceManifest \<Rightarrow> ('w, unit) store" where
  "update_instance os st m =
     io_bind (io_of (manifest_encode m)) (\<lambda>encoded.
     io_bind (io_of (instance_dir st (is_name (im_spec m)))) (\<lambda>dir.
     io_bind (is_real_directory os dir) (\<lambda>real.
     if \<not> real then io_fail (InstanceNotFound (is_name (im_spec m)))
     else
     io_bind (ensure_host_ports_available os st m (Some (is_name (im_spec m)))) (\<lambda>_.
     write_atomic os (path_join dir MANIFEST_FILE) encoded))))"

text \<open>\<open>is_regular_file(..).unwrap_or(false)\<close> and the comparison of the name in the file.\<close>

definition default_is :: "'w host_os \<Rightarrow> StateStore \<Rightarrow> string \<Rightarrow> ('w, bool) store" where
  "default_is os st name =
     (let default_path = path_join st DEFAULT_INSTANCE_FILE in
     io_bind (io_attempt (is_regular_file os default_path)) (\<lambda>regular.
     if regular = Inr True
     then io_bind (io_attempt (read_to_string os default_path)) (\<lambda>contents.
          io_return (case contents of Inl _ \<Rightarrow> False | Inr value \<Rightarrow> trim value = name))
     else io_return False))"

text \<open>The directory of the instance, and the default if it names the instance.\<close>

definition delete_instance :: "'w host_os \<Rightarrow> StateStore \<Rightarrow> string \<Rightarrow> string \<Rightarrow> ('w, unit) store" where
  "delete_instance os st name dir =
     io_bind (io_lsw (remove_dir_all os dir)) (\<lambda>_.
     io_bind (default_is os st name) (\<lambda>is_default.
     if is_default then io_lsw (unlink_file os (path_join st DEFAULT_INSTANCE_FILE)) else io_return ()))"

definition active_states :: "InstanceState set" where
  "active_states = {Installing, Running, Suspended}"

definition still_active :: "string \<Rightarrow> InstanceManifest \<Rightarrow> LswError" where
  "still_active name m = InvalidValue ''instance state'' [Text ''instance '', Dbg name, Text '' is '',
     Disp (instance_state_display (im_state m)), Text ''; shut it down before removing it'']"

definition remove_instance :: "'w host_os \<Rightarrow> StateStore \<Rightarrow> string \<Rightarrow> ('w, unit) store" where
  "remove_instance os st name =
     io_bind (io_of (instance_dir st name)) (\<lambda>dir.
     io_bind (is_real_directory os dir) (\<lambda>real.
     if \<not> real then io_fail (InstanceNotFound name)
     else
     io_bind (load os st name) (\<lambda>m.
     if im_state m \<in> active_states then io_fail (still_active name m)
     else delete_instance os st name dir)))"

definition set_default :: "'w host_os \<Rightarrow> StateStore \<Rightarrow> string \<Rightarrow> ('w, unit) store" where
  "set_default os st name =
     io_bind (io_of (validate_instance_name name)) (\<lambda>_.
     io_bind (load os st name) (\<lambda>_.
     io_bind (initialize os st) (\<lambda>_.
     write_atomic os (path_join st DEFAULT_INSTANCE_FILE) (name @ [NL]))))"

definition default_name :: "'w host_os \<Rightarrow> StateStore \<Rightarrow> ('w, string option) store" where
  "default_name os st =
     (let path = path_join st DEFAULT_INSTANCE_FILE in
     io_bind (path_exists os path) (\<lambda>exists.
     if \<not> exists then io_return None
     else
     io_bind (is_regular_file os path) (\<lambda>regular.
     if \<not> regular
     then io_fail (InvalidValue ''default instance'' [Disp (path_display path), Text '' is not a regular file''])
     else
     io_bind (io_lsw (read_to_string os path)) (\<lambda>contents.
     let name = trim contents in
     io_bind (io_of (validate_instance_name name)) (\<lambda>_.
     io_bind (load os st name) (\<lambda>_.
     io_return (Some name)))))))"

definition resolve_name :: "'w host_os \<Rightarrow> StateStore \<Rightarrow> string option \<Rightarrow> ('w, string) store" where
  "resolve_name os st requested =
     (case requested of
        Some name \<Rightarrow> io_bind (load os st name) (\<lambda>_. io_return name)
      | None \<Rightarrow>
          io_bind (default_name os st) (\<lambda>default.
          case default of
            Some name \<Rightarrow> io_return name
          | None \<Rightarrow>
              io_bind (list_instances os st) (\<lambda>instances.
              case instances of
                [only] \<Rightarrow> io_return (is_name (im_spec only))
              | [] \<Rightarrow> io_fail (InvalidValue ''default instance'' [Text ''no instances exist; create one first''])
              | _ \<Rightarrow> io_fail (InvalidValue ''default instance''
                       [Text ''multiple instances exist; run `lsw use NAME`'']))))"


section \<open>Writing atomically\<close>

definition temporary_path :: "'w host_os \<Rightarrow> string \<Rightarrow> nat \<Rightarrow> string" where
  "temporary_path os path nonce = with_extension path (''tmp-'' @ decimal (ho_pid os) @ ''-'' @ decimal nonce)"

text \<open>A file that is empty or that only its owner can read.\<close>

definition private_file :: "fs_node option \<Rightarrow> bool" where
  "private_file n \<longleftrightarrow> (\<exists>mode s. n = Some (Regular mode s) \<and> (s = [] \<or> mode = 384))"

lemma private_file_simps [simp]:
  "private_file (Some (Regular mode [])) " "private_file (Some (Regular 384 s))"
  by (auto simp: private_file_def)

text \<open>
  What is left of an attempt to write \<open>contents\<close> at \<open>path\<close>: nothing but the temporary file if it
  failed, and the whole contents if it succeeded.
\<close>

definition written_or_not :: "'w host_os \<Rightarrow> string \<Rightarrow> string \<Rightarrow> 'w host \<Rightarrow> 'e + unit \<Rightarrow> 'w host \<Rightarrow> bool" where
  "written_or_not os path contents h r h' \<longleftrightarrow> (wf_host h \<longrightarrow> wf_host h') \<and>
     (\<exists>n. (\<forall>p. p \<noteq> path \<and> p \<noteq> temporary_path os path n \<longrightarrow> node_at h' p = node_at h p) \<and>
       (case r of
          Inr _ \<Rightarrow> node_at h' path = Some (Regular 384 contents)
            \<and> node_at h (temporary_path os path n) = None \<and> node_at h' (temporary_path os path n) = None
        | Inl _ \<Rightarrow> node_at h' path = node_at h path
            \<and> (node_at h' (temporary_path os path n) = node_at h (temporary_path os path n)
               \<or> node_at h (temporary_path os path n) = None \<and> private_file (node_at h' (temporary_path os path n)))))"

lemma write_atomic_outcome:
  assumes "\<And>n. temporary_path os path n \<noteq> path"
  shows "post (write_atomic os path contents) (written_or_not os path contents h) h"
  unfolding write_atomic_def set_private_file_permissions_def Let_def temporary_path_def [symmetric]
proof (simp only: wp, rule post_os_ask, simp only: on_ok.simps)
  fix n h1
  assume h1: "unchanged h h1"
  let ?t = "temporary_path os path n"
  have "written_or_not os path contents h r h'"
    if "\<forall>p. p \<noteq> path \<and> p \<noteq> ?t \<longrightarrow> node_at h' p = node_at h p" and "wf_host h \<longrightarrow> wf_host h'"
      and "case r of
          Inr _ \<Rightarrow> node_at h' path = Some (Regular 384 contents) \<and> node_at h ?t = None \<and> node_at h' ?t = None
        | Inl _ \<Rightarrow> node_at h' path = node_at h path
            \<and> (node_at h' ?t = node_at h ?t \<or> node_at h ?t = None \<and> private_file (node_at h' ?t))"
    for r :: "LswError + unit" and h' :: "'a host"
    using that by (auto simp: written_or_not_def)
  then show "post (io_bind (io_lsw (open_create_new os ?t)) (\<lambda>_. io_bind (io_lsw (set_permissions os ?t 384)) (\<lambda>_.
      io_bind (io_lsw (write_contents os ?t contents)) (\<lambda>_. io_bind (io_lsw (sync_file os ?t)) (\<lambda>_.
      io_bind (io_attempt (rename_path os ?t path)) (\<lambda>renamed.
        case renamed of Inl e \<Rightarrow> io_bind (io_ignore (unlink_file os ?t)) (\<lambda>_. io_fail (LswIo e))
        | Inr _ \<Rightarrow> io_return ())))))) (written_or_not os path contents h) h1"
    using h1 assms [of n] assms [of n, symmetric]
    by (auto simp: wp set_mode_def leaves_def intro!: fs_post)
qed

end
