(* ===== verification/Qemu_Plan.thy ===== *)
theory Qemu_Plan
  imports Qemu_Backend State_Store Contract
begin

text \<open>
  The planner of QEMU's command line (\<open>qemu.rs\<close> of \<open>lsw-core\<close>): the arguments are accumulated one
  device group at a time, in the order of the code.
\<close>

section \<open>Definitions\<close>

definition LIVE_SMB_RUNTIME_DIRECTORY :: string where "LIVE_SMB_RUNTIME_DIRECTORY = ''live-smb''"
definition LIVE_SMB_CONFIG_FILE :: string where "LIVE_SMB_CONFIG_FILE = ''smb.conf''"

datatype LaunchPhase = Install | Run

primrec launch_phase_display :: "LaunchPhase \<Rightarrow> string" where
  "launch_phase_display Install = ''install''"
| "launch_phase_display Run = ''run''"

record CommandInvocation =
  ci_program :: string
  ci_arguments :: "string list"

record CommandPlan =
  cp_backend :: QemuBackend
  cp_program :: string
  cp_arguments :: "string list"
  cp_helper_commands :: "CommandInvocation list"
  cp_notes :: "message list"
  cp_missing_capabilities :: "string list"

record QemuPlanner =
  qp_capabilities :: HostCapabilities
  qp_backend :: QemuBackend
  qp_cpu_tuning :: GuestCpuTuning

definition planner_new :: "HostCapabilities \<Rightarrow> QemuPlanner" where
  "planner_new c = \<lparr>qp_capabilities = c, qp_backend = backend_select c, qp_cpu_tuning = Enlightened\<rparr>"

definition planner_with_backend :: "HostCapabilities \<Rightarrow> QemuBackend \<Rightarrow> LswError + QemuPlanner" where
  "planner_with_backend c b =
     and_then (backend_validate b c) (\<lambda>_. Inr \<lparr>qp_capabilities = c, qp_backend = b, qp_cpu_tuning = Enlightened\<rparr>)"

definition with_cpu_tuning :: "QemuPlanner \<Rightarrow> GuestCpuTuning \<Rightarrow> QemuPlanner" where
  "with_cpu_tuning planner tuning = planner\<lparr>qp_cpu_tuning := tuning\<rparr>"


subsection \<open>Text\<close>

definition replace_with :: "char \<Rightarrow> string \<Rightarrow> string \<Rightarrow> string" where
  "replace_with c t s = concat (map (\<lambda>x. if x = c then t else [x]) s)"

definition qemu_option_text :: "string \<Rightarrow> string" where
  "qemu_option_text value = replace_with (CHR '','') '',,'' value"

definition qemu_path :: "string \<Rightarrow> string" where
  "qemu_path path = replace_with (CHR '','') '',,'' (path_display path)"

definition QUOTE :: char where "QUOTE = CHR 0x27"

definition shell_quote :: "string \<Rightarrow> string" where
  "shell_quote value =
     (let value = path_display value
      in if list_all (\<lambda>c. is_ascii_alphanumeric c \<or> c \<in> set ''_+-./:=,@'') value then value
         else QUOTE # replace_with QUOTE [QUOTE, BACKSLASH, QUOTE, QUOTE] value @ [QUOTE])"

definition display_command :: "string \<Rightarrow> string list \<Rightarrow> string" where
  "display_command program arguments = join '' '' (map shell_quote (program # arguments))"

definition live_smb_guest_forward_command :: "string \<Rightarrow> string \<Rightarrow> string" where
  "live_smb_guest_forward_command smbd dir =
     (let runtime = path_join (path_join dir ''run'') LIVE_SMB_RUNTIME_DIRECTORY;
          config = path_join runtime LIVE_SMB_CONFIG_FILE
      in join '' '' (map shell_quote [smbd, ''-l'', runtime, ''-s'', config]))"


subsection \<open>Checks of the file system\<close>

definition real_directory_exists :: "'w host_os \<Rightarrow> string \<Rightarrow> string \<Rightarrow> ('w, bool) store" where
  "real_directory_exists os path field =
     io_bind (io_attempt (symlink_metadata os path)) (\<lambda>r.
     case r of
       Inr metadata \<Rightarrow> if is_dir metadata then io_return True
         else io_fail (InvalidValue field [Disp (path_display path), Text '' must be a real directory''])
     | Inl e \<Rightarrow> if e = NotFound then io_return False else io_fail (LswIo e))"

definition canonical_live_share_root :: "'w host_os \<Rightarrow> string \<Rightarrow> ('w, string) store" where
  "canonical_live_share_root os path =
     io_bind (io_for (\<lambda>ancestor.
       io_bind (io_lsw (symlink_metadata os ancestor)) (\<lambda>metadata.
       if metadata = Symlink
       then io_fail (InvalidValue ''live folder share root'' [Disp (path_display path), Text '' crosses a symbolic link''])
       else io_return ())) (ancestors path)) (\<lambda>_.
     io_bind (io_lsw (canonicalize os path)) (\<lambda>canonical.
     io_bind (io_lsw (symlink_metadata os canonical)) (\<lambda>metadata.
     if \<not> is_dir metadata
     then io_fail (InvalidValue ''live folder share root'' [Disp (path_display path), Text '' must be a real directory''])
     else io_return canonical)))"


subsection \<open>One group of arguments at a time\<close>

record LaunchArguments =
  la_arguments :: "string list"
  la_helper_commands :: "CommandInvocation list"
  la_notes :: "message list"

definition push_pair :: "string list \<Rightarrow> string \<Rightarrow> string \<Rightarrow> string list" where
  "push_pair arguments option value = arguments @ [option, value]"

definition push :: "string \<Rightarrow> string \<Rightarrow> LaunchArguments \<Rightarrow> LaunchArguments" where
  "push option value la = la_arguments_update (\<lambda>arguments. push_pair arguments option value) la"

definition add_note :: "message \<Rightarrow> LaunchArguments \<Rightarrow> LaunchArguments" where
  "add_note n la = la_notes_update (\<lambda>notes. notes @ [n]) la"

definition machine_and_cpu :: "QemuPlanner \<Rightarrow> InstanceManifest \<Rightarrow> LaunchArguments \<Rightarrow> LaunchArguments" where
  "machine_and_cpu planner m la =
     (let backend = qp_backend planner;
          spec = im_spec m;
          la = push ''-name'' (is_name spec) la;
          la = push ''-machine'' (if ss_secure_boot (profile_security (is_profile spec))
                                  then ''q35,usb=on,smm=on'' else ''q35,usb=on'') la;
          cpus = decimal (unat (is_cpus spec));
          la = push ''-smp'' (cpus @ '',sockets=1,cores='' @ cpus @ '',threads=1'') la;
          la = push ''-m'' (decimal (unat (is_memory_mib spec)) @ ''M'') la;
          la = la_arguments_update (\<lambda>arguments. arguments @ acceleration_arguments backend) la;
          la = push ''-cpu'' (cpu_model backend (qp_cpu_tuning planner)) la;
          la = push ''-rtc'' ''base=utc,driftfix=slew'' la;
          la = (case fallback_note backend of Some n \<Rightarrow> add_note n la | None \<Rightarrow> la)
      in if qb_accelerator backend = Kvm
         then add_note [Text (case qp_cpu_tuning planner of
             Enlightened \<Rightarrow> ''guest CPU: host passthrough with Hyper-V enlightenments; set LSW_GUEST_CPU_TUNING=baseline if QEMU rejects an hv-* feature''
           | Baseline \<Rightarrow> ''guest CPU: baseline host passthrough without Hyper-V enlightenments'')] la
         else la)"

definition firmware :: "QemuPlanner \<Rightarrow> InstanceManifest \<Rightarrow> string \<Rightarrow> LaunchArguments \<Rightarrow> LaunchArguments" where
  "firmware planner m dir la =
     (let profile = is_profile (im_spec m);
          code = (case firmware_code (qp_capabilities planner) profile of
                    Some p \<Rightarrow> p | None \<Rightarrow> ''/path/to/OVMF_CODE.fd'');
          vars = path_join dir ''OVMF_VARS.fd'';
          la = push ''-drive'' (''if=pflash,format=raw,readonly=on,file='' @ qemu_path code) la;
          la = push ''-drive'' (''if=pflash,format=raw,file='' @ qemu_path vars) la
      in if ss_secure_boot (profile_security profile)
         then push ''-global'' ''driver=cfi.pflash01,property=secure,value=on'' la else la)"

definition system_disk :: "InstanceManifest \<Rightarrow> string \<Rightarrow> LaunchPhase \<Rightarrow> LaunchArguments \<Rightarrow> LaunchArguments" where
  "system_disk m dir phase la =
     (let disk = (if phase = Run \<and> is_profile (im_spec m) = Ephemeral
                  then path_join dir ''run/ephemeral.qcow2'' else path_join dir ''disk.qcow2'');
          la = push ''-drive'' (''file='' @ qemu_path disk @ '',if=none,id=system,format=qcow2,discard=unmap,detect-zeroes=unmap'') la
      in push ''-device'' ''nvme,drive=system,serial=lsw-system'' la)"

definition forward_option :: "PortForward \<Rightarrow> string" where
  "forward_option f = '',hostfwd=tcp:127.0.0.1:'' @ decimal (unat (pf_host_port f)) @ ''-:'' @ decimal (unat (pf_guest_port f))"

definition guest_forward_option :: "string \<Rightarrow> nat \<Rightarrow> string" where
  "guest_forward_option command port = '',guestfwd=tcp:10.0.2.4:'' @ decimal port @ ''-cmd:'' @ qemu_option_text command"

definition network_policy_note :: "InstanceSpec \<Rightarrow> message" where
  "network_policy_note spec =
     [Text (case is_network spec of
        Nat \<Rightarrow> if is_port_forwards spec = []
               then ''network policy: user-mode NAT permits guest egress and exposes only the agent port on host loopback''
               else ''network policy: user-mode NAT permits guest egress; the agent and explicitly published TCP ports bind only to host loopback''
      | Offline \<Rightarrow> ''network policy: offline blocks guest egress while retaining the host-only agent forward'')]"

definition network ::
  "'w host_os \<Rightarrow> QemuPlanner \<Rightarrow> InstanceManifest \<Rightarrow> string \<Rightarrow> LaunchPhase \<Rightarrow> LaunchArguments
     \<Rightarrow> ('w, bool \<times> LaunchArguments) store" where
  "network os planner m dir phase la =
     (let spec = im_spec m;
          restrict = (case is_network spec of Nat \<Rightarrow> ''off'' | Offline \<Rightarrow> ''on'');
          net = ''user,id=net0,restrict='' @ restrict @ '',hostfwd=tcp:127.0.0.1:'' @ decimal (unat (im_control_port m))
                @ ''-:'' @ decimal (unat AGENT_GUEST_PORT) @ concat (map forward_option (is_port_forwards spec));
          live = (if phase = Run then List.find (\<lambda>share. sh_transport share = LiveSmb) (im_folder_shares m) else None)
      in io_bind (case live of
             None \<Rightarrow> io_return (net, la)
           | Some share \<Rightarrow>
               io_bind (canonical_live_share_root os (sh_host_path share)) (\<lambda>root.
               let smbd = (case hc_smbd (qp_capabilities planner) of Some p \<Rightarrow> p | None \<Rightarrow> ''smbd'');
                   command = live_smb_guest_forward_command smbd dir
               in io_return (net @ concat (map (guest_forward_option command) [139, 445]),
                    add_note [Text ''live folder '', Dbg (sh_name share), Text '': private authenticated QEMU SMB exports '',
                          Disp (path_display root), Text ('' read-write at '' @ [BACKSLASH, BACKSLASH] @ ''10.0.2.4''
                            @ [BACKSLASH] @ ''qemu'')] la))) (\<lambda>(net, la).
         let la = push ''-netdev'' net la;
             la = push ''-device'' ''e1000e,netdev=net0'' la;
             la = add_note (network_policy_note spec) la;
             la = fold (\<lambda>f. add_note [Text ''published TCP port: 127.0.0.1:'', Disp (decimal (unat (pf_host_port f))),
                          Text '' forwards to guest port '', Disp (decimal (unat (pf_guest_port f)))])
                    (is_port_forwards spec) la
         in io_return (live \<noteq> None, la)))"

definition input_and_platform_devices :: "LaunchArguments \<Rightarrow> LaunchArguments" where
  "input_and_platform_devices la =
     fold (push ''-device'') [''qemu-xhci'', ''usb-kbd'', ''usb-tablet'', ''virtio-rng-pci'',
       ''virtio-balloon-pci,id=balloon0'', ''VGA''] la"

definition boot_media :: "InstanceManifest \<Rightarrow> LaunchPhase \<Rightarrow> LaunchArguments \<Rightarrow> LaunchArguments" where
  "boot_media m phase la =
     (if phase = Install
      then let la = push ''-drive'' (''media=cdrom,readonly=on,file='' @ qemu_path (is_source_iso (im_spec m))) la
           in push ''-boot'' ''once=d,menu=on'' la
      else push ''-boot'' ''order=c,menu=on'' la)"

definition plan_install_seed :: "'w host_os \<Rightarrow> string \<Rightarrow> LaunchPhase \<Rightarrow> LaunchArguments \<Rightarrow> ('w, LaunchArguments) store" where
  "plan_install_seed os dir phase la =
     (if phase \<noteq> Install then io_return la
      else let seed = path_join dir ''seed'' in
        io_bind (real_directory_exists os seed ''install seed'') (\<lambda>exists.
        if \<not> exists then io_return la
        else let la = push ''-drive'' (''file=fat:ro:'' @ qemu_path seed @ '',format=raw,if=none,id=lsw-seed,snapshot=on'') la;
                 la = push ''-device'' ''usb-storage,drive=lsw-seed,removable=on'' la
             in io_return (add_note [Text ''the local installation seed is attached read-only as removable media''] la)))"

definition identity_seed :: "'w host_os \<Rightarrow> string \<Rightarrow> LaunchPhase \<Rightarrow> LaunchArguments \<Rightarrow> ('w, LaunchArguments) store" where
  "identity_seed os dir phase la =
     (let seed = path_join dir ''identity-seed'' in
      if phase \<noteq> Run
      then io_bind (io_attempt (symlink_metadata os seed)) (\<lambda>r.
           case r of
             Inr _ \<Rightarrow> io_return la
           | Inl e \<Rightarrow> if e = NotFound then io_return la else io_fail (LswIo e))
      else io_bind (real_directory_exists os seed ''boot identity seed'') (\<lambda>exists.
           if \<not> exists then io_return la
           else let la = push ''-drive'' (''file=fat:ro:'' @ qemu_path seed @ '',format=raw,if=none,id=lsw-identity,snapshot=on'') la;
                    la = push ''-device'' ''ide-hd,drive=lsw-identity'' la
                in io_return (add_note [Text ''the boot identity uses an inbox IDE path, is attached read-only, and is consumed by the guest agent''] la)))"

definition plan_vtpm :: "QemuPlanner \<Rightarrow> InstanceManifest \<Rightarrow> string \<Rightarrow> LaunchArguments \<Rightarrow> LaunchArguments" where
  "plan_vtpm planner m dir la =
     (if \<not> ss_vtpm (profile_security (is_profile (im_spec m))) then la
      else let socket = path_join dir ''run/swtpm.sock'';
               swtpm = (case hc_swtpm (qp_capabilities planner) of Some p \<Rightarrow> p | None \<Rightarrow> ''swtpm'');
               helper = \<lparr>ci_program = swtpm,
                         ci_arguments = [''socket'', ''--tpm2'', ''--tpmstate'',
                           ''dir='' @ path_display (path_join dir ''swtpm-state''), ''--ctrl'',
                           ''type=unixio,path='' @ path_display socket, ''--log'',
                           ''file='' @ path_display (path_join dir ''swtpm.log''), ''--terminate'']\<rparr>;
               la = la_helper_commands_update (\<lambda>helpers. helpers @ [helper]) la;
               la = push ''-chardev'' (''socket,id=chrtpm,path='' @ qemu_path socket) la;
               la = push ''-tpmdev'' ''emulator,id=tpm0,chardev=chrtpm'' la
           in push ''-device'' ''tpm-tis,tpmdev=tpm0'' la)"

definition control_sockets :: "string \<Rightarrow> LaunchArguments \<Rightarrow> LaunchArguments" where
  "control_sockets dir la =
     (let la = push ''-qmp'' (''unix:'' @ qemu_path (path_join dir ''run/qmp.sock'') @ '',server=on,wait=off'') la;
          la = push ''-pidfile'' (path_join dir ''run/qemu.pid'') la;
          la = la_arguments_update (\<lambda>arguments. arguments @ [''-nodefaults'']) la;
          la = push ''-monitor'' ''none'' la;
          la = push ''-display'' ''none'' la;
          la = push ''-serial'' ''none'' la
      in push ''-vnc'' (''unix:'' @ qemu_path (path_join dir ''run/recovery-vnc.sock'')) la)"

definition profile_notes :: "InstanceManifest \<Rightarrow> LaunchArguments \<Rightarrow> LaunchArguments" where
  "profile_notes m la =
     (let profile = is_profile (im_spec m);
          la = (if ss_secure_boot (profile_security profile)
                then add_note [Text ''secure profile uses the driverless Windows capture path'']
                       (add_note [Text ''secure profile: prepare an OVMF variable store enrolled with production keys''] la)
                else add_note [Text ''test-signed guest drivers are optional; the initial capture path remains driverless'']
                       (add_note [Text ''seamless profile: guest Secure Boot is disabled; host Secure Boot is unchanged''] la));
          la = add_note [Text ''the VNC Unix socket is reserved for installation and recovery; it is not the seamless application transport''] la;
          la = add_note [Text ''start each helper command before starting QEMU''] la
      in if profile = Ephemeral
         then add_note [Text ''ephemeral profile preserves the base disk and discards its per-run overlay when the guest stops''] la
         else la)"

definition plan_missing_capabilities ::
  "'w host_os \<Rightarrow> QemuPlanner \<Rightarrow> InstanceManifest \<Rightarrow> string \<Rightarrow> LaunchPhase \<Rightarrow> bool \<Rightarrow> LaunchArguments
     \<Rightarrow> ('w, string list \<times> LaunchArguments) store" where
  "plan_missing_capabilities os planner m dir phase live la =
     (let profile = is_profile (im_spec m);
          c = qp_capabilities planner;
          missing = missing_for_profile_launch c profile
            @ (if live \<and> hc_smbd c = None then [''smbd (Samba user-mode server)''] else [])
      in io_bind (path_is_file os (path_join dir ''disk.qcow2'')) (\<lambda>disk.
         let missing = missing @ (if \<not> disk then [''prepared system disk''] else []) in
         io_bind (if phase = Run \<and> profile = Ephemeral
                  then path_is_file os (path_join dir ''run/ephemeral.qcow2'') else io_return True) (\<lambda>overlay.
         let missing = missing @ (if \<not> overlay then [''prepared ephemeral overlay''] else []) in
         io_bind (path_is_file os (path_join dir ''OVMF_VARS.fd'')) (\<lambda>vars.
         let missing = missing @ (if \<not> vars then [''prepared OVMF variable store''] else []) in
         io_bind (path_is_dir os (path_join dir ''run'')) (\<lambda>run.
         io_bind (if run then path_is_dir os (path_join dir ''swtpm-state'') else io_return False) (\<lambda>tpm.
         let missing = missing @ (if \<not> run \<or> \<not> tpm then [''prepared runtime directories''] else []);
             la = (if list_ex (\<lambda>s. strip_prefix s ''prepared '' \<noteq> None) missing
                   then add_note [Text ''run `lsw prepare NAME --execute` before launching the guest''] la else la)
         in io_return (missing, la)))))))"

definition plan :: "'w host_os \<Rightarrow> QemuPlanner \<Rightarrow> InstanceManifest \<Rightarrow> string \<Rightarrow> LaunchPhase \<Rightarrow> ('w, CommandPlan) store" where
  "plan os planner m dir phase =
     io_bind (if phase = Install
              then io_bind (path_is_file os (is_source_iso (im_spec m))) (\<lambda>is_file.
                   io_of (validate_for_create is_file (im_spec m)))
              else io_of (spec_validate (im_spec m))) (\<lambda>_.
     let program = (case hc_qemu_system (qp_capabilities planner) of Some p \<Rightarrow> p | None \<Rightarrow> ''qemu-system-x86_64'');
         la = \<lparr>la_arguments = [], la_helper_commands = [], la_notes = []\<rparr>;
         la = machine_and_cpu planner m la;
         la = firmware planner m dir la;
         la = system_disk m dir phase la
     in io_bind (network os planner m dir phase la) (\<lambda>(live, la).
     let la = input_and_platform_devices la;
         la = boot_media m phase la
     in io_bind (plan_install_seed os dir phase la) (\<lambda>la.
     io_bind (identity_seed os dir phase la) (\<lambda>la.
     let la = plan_vtpm planner m dir la;
         la = control_sockets dir la;
         la = profile_notes m la
     in io_bind (plan_missing_capabilities os planner m dir phase live la) (\<lambda>(missing, la).
     io_return \<lparr>cp_backend = qp_backend planner, cp_program = program, cp_arguments = la_arguments la,
                cp_helper_commands = la_helper_commands la, cp_notes = la_notes la,
                cp_missing_capabilities = missing\<rparr>)))))"



section \<open>The shape of a planned command line\<close>

text \<open>
  The arguments that identify the instance of a QEMU process are its name, its QMP socket and its pid
  file.  Every other group of arguments keeps clear of these options.
\<close>

definition IDENTITY_OPTIONS :: "string set" where
  "IDENTITY_OPTIONS = {''-name'', ''-qmp'', ''-pidfile''}"

definition appends_plain :: "LaunchArguments \<Rightarrow> LaunchArguments \<Rightarrow> bool" where
  "appends_plain la la' \<longleftrightarrow> (\<exists>xs. la_arguments la' = la_arguments la @ xs \<and> set xs \<inter> IDENTITY_OPTIONS = {})"

lemma appends_plain_refl [simp]: "appends_plain la la"
  by (simp add: appends_plain_def)

lemma appends_plain_trans [trans]: "appends_plain a b \<Longrightarrow> appends_plain b c \<Longrightarrow> appends_plain a c"
  by (fastforce simp: appends_plain_def)

lemma appends_plain_push [intro]:
  "appends_plain a b \<Longrightarrow> o' \<notin> IDENTITY_OPTIONS \<Longrightarrow> v \<notin> IDENTITY_OPTIONS \<Longrightarrow> appends_plain a (push o' v b)"
  by (auto simp: appends_plain_def push_def push_pair_def)

lemma appends_plain_note [simp]: "appends_plain a (add_note n b) \<longleftrightarrow> appends_plain a b"
  by (simp add: appends_plain_def add_note_def)

lemma appends_plain_fold_note [simp]: "appends_plain a (fold (\<lambda>x. add_note (f x)) xs b) \<longleftrightarrow> appends_plain a b"
  by (induction xs arbitrary: b) simp_all

lemma decimal_not_identity: "decimal n @ s \<notin> IDENTITY_OPTIONS"
proof
  assume "decimal n @ s \<in> IDENTITY_OPTIONS"
  then have "CHR ''-'' \<in> set (decimal n)" by (cases "decimal n") (auto simp: IDENTITY_OPTIONS_def)
  then show False by (auto dest: decimal_digits simp: is_ascii_digit_def char_code_def)
qed

lemma cpu_model_not_identity: "cpu_model b t \<notin> IDENTITY_OPTIONS"
  by (auto simp: cpu_model_def KVM_ENLIGHTENED_CPU_MODEL_def IDENTITY_OPTIONS_def
      split: VmAccelerator.splits GuestCpuTuning.splits)

lemma appends_plain_acceleration:
  "appends_plain a b \<Longrightarrow> appends_plain a (la_arguments_update (\<lambda>as. as @ acceleration_arguments c) b)"
  by (auto simp: appends_plain_def acceleration_arguments_def IDENTITY_OPTIONS_def split: VmAccelerator.splits)

lemma machine_and_cpu_plain: "appends_plain (push ''-name'' (is_name (im_spec m)) la) (machine_and_cpu planner m la)"
proof -
  define b where "b = push ''-name'' (is_name (im_spec m)) la"
  show ?thesis
    by (auto simp: machine_and_cpu_def Let_def cpu_model_not_identity decimal_not_identity b_def [symmetric]
        intro!: appends_plain_push appends_plain_acceleration split: option.splits)
       (auto simp: IDENTITY_OPTIONS_def)
qed

lemma firmware_plain: "appends_plain la (firmware planner m dir la)"
  by (auto simp: firmware_def Let_def intro!: appends_plain_push) (auto simp: IDENTITY_OPTIONS_def)

lemma system_disk_plain: "appends_plain la (system_disk m dir phase la)"
  by (auto simp: system_disk_def Let_def intro!: appends_plain_push) (auto simp: IDENTITY_OPTIONS_def)

lemma input_and_platform_devices_plain: "appends_plain la (input_and_platform_devices la)"
  by (auto simp: input_and_platform_devices_def intro!: appends_plain_push) (auto simp: IDENTITY_OPTIONS_def)

lemma boot_media_plain: "appends_plain la (boot_media m phase la)"
  by (auto simp: boot_media_def Let_def intro!: appends_plain_push) (auto simp: IDENTITY_OPTIONS_def)

lemma plan_vtpm_plain: "appends_plain la (plan_vtpm planner m dir la)"
  by (auto simp: plan_vtpm_def Let_def appends_plain_def push_def push_pair_def IDENTITY_OPTIONS_def)

lemma profile_notes_arguments [simp]: "la_arguments (profile_notes m la) = la_arguments la"
  by (simp add: profile_notes_def Let_def add_note_def)

definition control_arguments :: "string \<Rightarrow> string list" where
  "control_arguments dir =
     [''-qmp'', ''unix:'' @ qemu_path (path_join dir ''run/qmp.sock'') @ '',server=on,wait=off'',
      ''-pidfile'', path_join dir ''run/qemu.pid'', ''-nodefaults'', ''-monitor'', ''none'', ''-display'', ''none'',
      ''-serial'', ''none'', ''-vnc'', ''unix:'' @ qemu_path (path_join dir ''run/recovery-vnc.sock'')]"

lemma control_sockets_arguments [simp]: "la_arguments (control_sockets dir la) = la_arguments la @ control_arguments dir"
  by (simp add: control_sockets_def control_arguments_def push_def push_pair_def Let_def)

text \<open>The groups that look at the file system: what they compute does not depend on what they see, except for the choice.\<close>

lemma post_value:
  assumes "\<And>e. Q (Inl e)" and "post m (\<lambda>r _. \<forall>x. r = Inr x \<longrightarrow> P x) s" and "\<And>x t. P x \<Longrightarrow> post (f x) (\<lambda>r _. Q r) t"
  shows "post (io_bind m f) (\<lambda>r _. Q r) s"
  by (rule post_seq [OF assms(2)]) (use assms in auto)

lemma post_whatever:
  assumes "\<And>e. Q (Inl e)" and "\<And>x t. post (f x) (\<lambda>r _. Q r) t"
  shows "post (io_bind m f) (\<lambda>r _. Q r) s"
  by (rule post_value [where P = "\<lambda>_. True", OF assms(1) _ assms(2)]) (simp add: post_iff)

lemma network_plain:
  "post (network os planner m dir phase la) (\<lambda>r _. \<forall>x. r = Inr x \<longrightarrow> appends_plain la (snd x)) h"
proof -
  let ?P = "\<lambda>(net, la'). appends_plain la la' \<and> net \<notin> IDENTITY_OPTIONS"
  have P: "post (case share of
             None \<Rightarrow> io_return (net, la)
           | Some share \<Rightarrow> io_bind (canonical_live_share_root os (sh_host_path share)) (\<lambda>root.
               io_return (net @ f root share, add_note (n root share) la)))
        (\<lambda>r _. \<forall>x. r = Inr x \<longrightarrow> ?P x) h" if "\<exists>s. net = ''user,'' @ s" for share net f n
  proof (cases share)
    case (Some a)
    show ?thesis using that
      unfolding Some option.case by (intro post_whatever) (auto simp: wp IDENTITY_OPTIONS_def)
  qed (use that in \<open>auto simp: wp IDENTITY_OPTIONS_def\<close>)
  show ?thesis
    unfolding network_def Let_def
    by (rule post_value [OF _ P]) (auto simp: wp intro!: appends_plain_push, auto simp: IDENTITY_OPTIONS_def)
qed

lemma seed_plain:
  "appends_plain la (add_note n (push ''-device'' (CHR ''u'' # v) (push ''-drive'' (''file='' @ s) la)))"
  "appends_plain la (add_note n (push ''-device'' (CHR ''i'' # v) (push ''-drive'' (''file='' @ s) la)))"
  by (auto simp: appends_plain_def push_def push_pair_def add_note_def IDENTITY_OPTIONS_def)

lemma plan_install_seed_plain:
  "post (plan_install_seed os dir phase la) (\<lambda>r _. \<forall>x. r = Inr x \<longrightarrow> appends_plain la x) h"
proof (cases "phase = Install")
  case True
  then show ?thesis
    unfolding plan_install_seed_def Let_def using seed_plain(1)
    by (simp del: appends_plain_note) (rule post_whatever, simp_all add: wp del: appends_plain_note)
qed (simp add: plan_install_seed_def wp)

lemma identity_seed_plain:
  "post (identity_seed os dir phase la) (\<lambda>r _. \<forall>x. r = Inr x \<longrightarrow> appends_plain la x) h"
proof (cases "phase = Run")
  case True
  then show ?thesis
    unfolding identity_seed_def Let_def using seed_plain(2)
    by (simp del: appends_plain_note) (rule post_whatever, simp_all add: wp del: appends_plain_note)
next
  case False
  then show ?thesis
    unfolding identity_seed_def Let_def
    by simp (rule post_whatever, auto simp: wp split: sum.splits)
qed

lemma plan_missing_capabilities_arguments:
  "post (plan_missing_capabilities os planner m dir phase live la)
     (\<lambda>r _. \<forall>x. r = Inr x \<longrightarrow> la_arguments (snd x) = la_arguments la \<and> la_helper_commands (snd x) = la_helper_commands la) h"
  unfolding plan_missing_capabilities_def Let_def
  by (intro post_whatever) (auto simp: wp add_note_def)

text \<open>
  A planned command line starts with the name of the instance and ends with its control sockets; no
  option that identifies an instance occurs in between.
\<close>

definition planned :: "QemuPlanner \<Rightarrow> InstanceManifest \<Rightarrow> string \<Rightarrow> CommandPlan \<Rightarrow> bool" where
  "planned planner m dir p \<longleftrightarrow>
     cp_program p = (case hc_qemu_system (qp_capabilities planner) of Some p \<Rightarrow> p | None \<Rightarrow> ''qemu-system-x86_64'')
     \<and> valid_label 63 (is_name (im_spec m))
     \<and> (\<exists>xs. cp_arguments p = [''-name'', is_name (im_spec m)] @ xs @ control_arguments dir \<and> set xs \<inter> IDENTITY_OPTIONS = {})"

lemma spec_validate_name: "spec_validate spec = Inr u \<Longrightarrow> valid_label 63 (is_name spec)"
  by (auto simp: spec_validate_def validate_instance_name_def split: sum.splits if_splits)

lemma plan_planned: "post (plan os planner m dir phase) (\<lambda>r _. \<forall>p. r = Inr p \<longrightarrow> planned planner m dir p) h"
proof -
  let ?V = "\<lambda>_ :: unit. valid_label 63 (is_name (im_spec m))"
  let ?start = "\<lparr>la_arguments = [], la_helper_commands = [], la_notes = []\<rparr>"
  let ?name = "push ''-name'' (is_name (im_spec m)) ?start"
  have valid: "post (if phase = Install
              then io_bind (path_is_file os (is_source_iso (im_spec m))) (\<lambda>is_file.
                   io_of (validate_for_create is_file (im_spec m)))
              else io_of (spec_validate (im_spec m))) (\<lambda>r _. \<forall>x. r = Inr x \<longrightarrow> ?V x) h"
    by (auto simp: post_bind [symmetric] simp del: post_bind intro!: post_whatever)
       (auto simp: wp validate_for_create_def ok_iff split: if_splits dest: spec_validate_name)
  have first: "appends_plain ?name (system_disk m dir phase (firmware planner m dir (machine_and_cpu planner m ?start)))"
    by (rule appends_plain_trans [OF appends_plain_trans [OF machine_and_cpu_plain firmware_plain] system_disk_plain])
  have planned: "planned planner m dir \<lparr>cp_backend = b, cp_program = (case hc_qemu_system (qp_capabilities planner) of
        Some p \<Rightarrow> p | None \<Rightarrow> ''qemu-system-x86_64''), cp_arguments = la_arguments la' @ control_arguments dir,
        cp_helper_commands = hs, cp_notes = ns, cp_missing_capabilities = ms\<rparr>"
    if "valid_label 63 (is_name (im_spec m))" "appends_plain ?name la'"
    for b la' hs ns ms
    using that by (auto simp: planned_def appends_plain_def push_def push_pair_def)
  have rest: "appends_plain ?name (plan_vtpm planner m dir d)"
    if "appends_plain ?name a" "appends_plain (boot_media m phase (input_and_platform_devices a)) c" "appends_plain c d"
    for a c d
    using that input_and_platform_devices_plain boot_media_plain plan_vtpm_plain by (meson appends_plain_trans)
  show ?thesis
    unfolding plan_def Let_def
  proof (rule post_value [OF _ valid], simp, rule post_value [OF _ network_plain], simp, clarify, unfold snd_conv prod.case,
      rule post_value [OF _ plan_install_seed_plain], simp, rule post_value [OF _ identity_seed_plain], simp,
      rule post_value [OF _ plan_missing_capabilities_arguments], simp, clarify, unfold snd_conv prod.case)
    fix live a c d missing and la :: LaunchArguments and t :: "'a host"
    assume "valid_label 63 (is_name (im_spec m))"
      and a: "appends_plain (system_disk m dir phase (firmware planner m dir (machine_and_cpu planner m ?start))) a"
      and c: "appends_plain (boot_media m phase (input_and_platform_devices a)) c" and d: "appends_plain c d"
      and la: "la_arguments la = la_arguments (profile_notes m (control_sockets dir (plan_vtpm planner m dir d)))"
    then show "post (io_return \<lparr>cp_backend = qp_backend planner, cp_program = (case hc_qemu_system (qp_capabilities planner) of
        Some p \<Rightarrow> p | None \<Rightarrow> ''qemu-system-x86_64''), cp_arguments = la_arguments la,
        cp_helper_commands = la_helper_commands la, cp_notes = la_notes la, cp_missing_capabilities = missing\<rparr>)
        (\<lambda>r _. \<forall>p. r = Inr p \<longrightarrow> planned planner m dir p) t"
      using planned [OF _ rest [OF appends_plain_trans [OF first a] c d]] by (simp add: wp)
  qed
qed

end
