(* ===== verification/Store_View.thy ===== *)
theory Store_View
  imports State_Store
begin

text \<open>
  The store of instances as a map from names to manifests.  The operations of \<open>State_Store\<close> are
  shown to read and update this map, whatever calls of the operating system fail on the way, and
  to keep the ports of the instances apart.
\<close>

section \<open>Paths of the store\<close>

abbreviation idir :: "StateStore \<Rightarrow> string \<Rightarrow> string" where
  "idir st name \<equiv> instances_root st @ CHR ''/'' # name"

abbreviation manifest_path :: "StateStore \<Rightarrow> string \<Rightarrow> string" where
  "manifest_path st name \<equiv> idir st name @ CHR ''/'' # MANIFEST_FILE"

abbreviation token_path :: "StateStore \<Rightarrow> string \<Rightarrow> string" where
  "token_path st name \<equiv> idir st name @ CHR ''/'' # AGENT_TOKEN_FILE"

lemma instances_root_end: "instances_root st \<noteq> []" "last (instances_root st) \<noteq> CHR ''/''"
  by (simp_all add: instances_root_def path_join_def path_is_absolute_def)

lemma valid_label_plain:
  assumes "valid_label n name"
  shows "name \<noteq> []" "CHR ''/'' \<notin> set name" "last name \<noteq> CHR ''/''" "\<not> path_is_absolute name"
proof -
  show ne: "name \<noteq> []" using assms by (simp add: valid_label_def)
  show slash: "CHR ''/'' \<notin> set name"
    using assms by (auto simp: valid_label_def list_all_iff is_ascii_lowercase_def is_ascii_digit_def char_code_def)
  show "last name \<noteq> CHR ''/''" using slash last_in_set [OF ne] by auto
  show "\<not> path_is_absolute name" using slash hd_in_set [OF ne] by (metis path_is_absolute_def)
qed

lemma instance_dir_ok [ok_iff]: "instance_dir st name = Inr d \<longleftrightarrow> valid_label 63 name \<and> d = idir st name"
  by (auto simp: instance_dir_def validate_instance_name_def path_join_def instances_root_end valid_label_plain(4)
      ok_iff split: if_splits)

lemma instance_dir_valid: "valid_label 63 name \<Longrightarrow> instance_dir st name = Inr (idir st name)"
  by (simp add: ok_iff)

lemma instance_dir_invalid: "\<not> valid_label 63 name \<Longrightarrow> instance_dir st name = Inl (InvalidInstanceName name)"
  by (simp add: instance_dir_def validate_instance_name_def)

lemma path_join_instance:
  assumes "valid_label 63 name" and "\<not> path_is_absolute q"
  shows "path_join (idir st name) q = idir st name @ CHR ''/'' # q"
  using assms(2) valid_label_plain [OF assms(1)] by (simp add: path_join_def)

lemma file_names_relative [simp]: "\<not> path_is_absolute MANIFEST_FILE" "\<not> path_is_absolute AGENT_TOKEN_FILE"
  by (simp_all add: path_is_absolute_def MANIFEST_FILE_def AGENT_TOKEN_FILE_def)

lemmas instance_paths = path_join_instance [OF _ file_names_relative(1)] path_join_instance [OF _ file_names_relative(2)]

text \<open>The first part of a relative path determines it.\<close>

lemma first_part_eq:
  assumes "(c :: char) \<notin> set a" and "c \<notin> set b"
  shows "a @ c # x = b @ c # y \<longleftrightarrow> a = b \<and> x = y"
proof
  assume "a @ c # x = b @ c # y"
  then have "split_once c (a @ c # x) = split_once c (b @ c # y)" by (rule arg_cong)
  with assms show "a = b \<and> x = y" by (simp add: split_once_append)
qed simp

lemma below_distinct [simp]:
  assumes "valid_label 63 a" and "valid_label 63 b"
  shows "idir st a @ CHR ''/'' # p = idir st b @ CHR ''/'' # q \<longleftrightarrow> a = b \<and> p = q"
    "idir st a \<noteq> idir st b @ CHR ''/'' # q" "idir st b @ CHR ''/'' # q \<noteq> idir st a"
  using assms [THEN valid_label_plain(2)] first_part_eq [of "CHR ''/''" a b p q] by auto

lemma temporary_manifest_path:
  assumes "valid_label 63 name"
  shows "temporary_path os (manifest_path st name) n
    = idir st name @ CHR ''/'' # ''instance.tmp-'' @ decimal (ho_pid os) @ ''-'' @ decimal n"
  by (simp add: temporary_path_def with_extension_def MANIFEST_FILE_def)


section \<open>The map of instances\<close>

fun manifest_of :: "fs_node option \<Rightarrow> fs_node option \<Rightarrow> InstanceManifest option" where
  "manifest_of (Some (Directory mode)) (Some (Regular mode' contents)) =
     (if utf8_valid contents then case manifest_decode contents of Inl _ \<Rightarrow> None | Inr m \<Rightarrow> Some m else None)"
| "manifest_of _ _ = None"

definition view :: "StateStore \<Rightarrow> 'w host \<Rightarrow> string \<Rightarrow> InstanceManifest option" where
  "view st h name =
     (if valid_label 63 name then manifest_of (node_at h (idir st name)) (node_at h (manifest_path st name)) else None)"

lemma manifest_of_Some:
  "manifest_of d f = Some m \<longleftrightarrow> (\<exists>mode mode' s. d = Some (Directory mode) \<and> f = Some (Regular mode' s)
     \<and> utf8_valid s \<and> manifest_decode s = Inr m)"
  by (cases "(d, f)" rule: manifest_of.cases) (auto split: sum.splits if_splits)

lemma is_dir_iff: "is_dir n \<longleftrightarrow> (\<exists>mode. n = Directory mode)"
  and is_regular_iff: "is_regular n \<longleftrightarrow> (\<exists>mode s. n = Regular mode s)"
  by (cases n; simp)+

lemma view_Some:
  "view st h name = Some m \<longleftrightarrow> valid_label 63 name \<and> (\<exists>mode mode' s. node_at h (idir st name) = Some (Directory mode)
     \<and> node_at h (manifest_path st name) = Some (Regular mode' s) \<and> utf8_valid s \<and> manifest_decode s = Inr m)"
  by (auto simp: view_def manifest_of_Some)

lemma view_eq:
  assumes "valid_label 63 name \<Longrightarrow> node_at h' (idir st name) = node_at h (idir st name)"
    and "valid_label 63 name \<Longrightarrow> node_at h' (manifest_path st name) = node_at h (manifest_path st name)"
  shows "view st h' name = view st h name"
  using assms by (simp add: view_def)

lemma view_unchanged: "unchanged h h' \<Longrightarrow> view st h' = view st h"
  by (rule ext) (simp add: leaves_def view_def)

text \<open>The manifests that the file format can hold without loss.\<close>

definition storable :: "InstanceManifest \<Rightarrow> bool" where
  "storable m \<longleftrightarrow> manifest_utf8 m \<and> im_version m = MANIFEST_VERSION
     \<and> im_control_port m = stable_control_port (is_name (im_spec m)) \<and> length (im_folder_shares m) \<le> 64"

lemma utf8_valid_concat: "\<forall>s \<in> set ss. utf8_valid s \<Longrightarrow> utf8_valid (concat ss)"
  by (induction ss) (auto intro: utf8_valid_append)

lemma storable_encoded:
  assumes "storable m" and "manifest_encode m = Inr s"
  shows "manifest_decode s = Inr m" "utf8_valid s" "valid_label 63 (is_name (im_spec m))"
proof -
  have utf8: "manifest_utf8 m" using assms(1) by (simp add: storable_def)
  show "manifest_decode s = Inr m"
    using stored_read [OF assms(2) utf8] decode_fields_stored [OF assms(2)] assms(1)
    by (simp add: manifest_decode_def storable_def)
  have s: "s = concat (map (\<lambda>field. field_line field @ [NL]) (manifest_fields m (is_source_iso (im_spec m))))"
    using assms(2) by (auto simp: manifest_encode_def path_to_str_def ok_iff split: if_splits)
  have "utf8_valid [NL]" by (rule utf8_valid_ascii) (simp add: NL_def char_code_def)
  then show "utf8_valid s" unfolding s
    using manifest_values_ok [OF assms(2) utf8]
    by (intro utf8_valid_concat) (auto intro!: utf8_valid_append dest!: bspec field_line_read(4) simp: line_ok_def)
  show "valid_label 63 (is_name (im_spec m))"
    using assms(2) by (auto simp: manifest_encode_def spec_validate_def validate_instance_name_def ok_iff split: if_splits)
qed


section \<open>Reading\<close>

lemma node_check_outcome [fs_post]:
  assumes "\<And>e h'. unchanged h h' \<Longrightarrow> Q (Inl (LswIo e)) h'"
    and "\<And>n h'. unchanged h h' \<Longrightarrow> node_at h p = Some n \<Longrightarrow> Q (Inr (test n)) h'"
    and "\<And>h'. unchanged h h' \<Longrightarrow> Q (Inr False) h'"
  shows "post (node_check test os p) Q h"
  unfolding node_check_def using assms by (auto simp: wp intro!: fs_post)

lemmas is_real_directory_outcome [fs_post] = node_check_outcome [where test = is_dir, folded is_real_directory_def]
  and is_regular_file_outcome [fs_post] = node_check_outcome [where test = is_regular, folded is_regular_file_def]

lemma unchanged_trans: "unchanged h h' \<Longrightarrow> unchanged h' h'' \<Longrightarrow> unchanged h h''"
  by (auto simp: leaves_def)

lemma load_outcome:
  "post (load os st name) (\<lambda>r h'. unchanged h h' \<and> (\<forall>m. r = Inr m \<longrightarrow> view st h name = Some m)) h"
proof (cases "valid_label 63 name")
  case True
  then show ?thesis
    unfolding load_def Let_def
    by (auto simp: wp instance_dir_valid instance_paths leaves_def view_Some is_dir_iff intro!: fs_post)
next
  case False
  then show ?thesis by (auto simp: load_def wp instance_dir_invalid leaves_def)
qed


text \<open>A calm system: no call fails.\<close>

definition calm :: "'w host_os \<Rightarrow> bool" where
  "calm os \<longleftrightarrow> (\<forall>call w. ho_fault os call w = (None, w))"

lemma fs_run_calm: "calm os \<Longrightarrow> fs_run os call f h = (case f (h_rest h) (h_nodes h) of (r, ns) \<Rightarrow> Some (r, h\<lparr>h_nodes := ns\<rparr>))"
  by (cases h) (simp add: fs_run_def calm_def split: prod.splits)

lemma calm_reads:
  assumes "calm os"
  shows "symlink_metadata os p h = Some (ok_or (node_at h p) NotFound, h)"
    "read_file os p h = Some (node_contents (ho_link_contents os p (h_rest h)) (node_at h p), h)"
  by (simp_all add: symlink_metadata_def read_file_def fs_run_calm [OF assms] node_at_def)

lemma load_calm:
  assumes "calm os"
  shows "load os st name h = Some (Inr m, h) \<longleftrightarrow> view st h name = Some m"
proof
  assume "load os st name h = Some (Inr m, h)"
  with load_outcome [of os st name h] show "view st h name = Some m" by (auto simp: post_iff)
next
  assume "view st h name = Some m"
  then show "load os st name h = Some (Inr m, h)"
    by (auto simp: view_Some load_def is_real_directory_def is_regular_file_def node_check_def read_to_string_def
        io_bind_def io_of_def io_attempt_def io_return_def io_map_error_def calm_reads [OF assms] Let_def
        instance_dir_valid instance_paths)
qed

text \<open>Listing finds every instance of the map, unless a call fails.\<close>

text \<open>Only a missing node is reported as missing, and only an existing one as existing.\<close>

definition honest :: "'w host_os \<Rightarrow> bool" where
  "honest os \<longleftrightarrow> (\<forall>call w. fst (ho_fault os call w) \<notin> {Some NotFound, Some AlreadyExists})"

lemma post_symlink_metadata_honest:
  assumes "honest os"
    and "\<And>e h'. unchanged h h' \<Longrightarrow> e \<noteq> NotFound \<Longrightarrow> Q (Inl e) h'"
    and "\<And>h'. unchanged h h' \<Longrightarrow> node_at h p = None \<Longrightarrow> Q (Inl NotFound) h'"
    and "\<And>n h'. unchanged h h' \<Longrightarrow> node_at h p = Some n \<Longrightarrow> Q (Inr n) h'"
  shows "post (symlink_metadata os p) Q h"
proof (cases "ho_fault os (FsMetadata p) (h_rest h)")
  case (Pair e w)
  then have "e \<noteq> Some NotFound" using assms(1) unfolding honest_def by (metis fst_conv insertCI)
  with Pair show ?thesis
    using assms(2-) leaves_updates(1,2) [of h w]
    by (cases e; cases "map_of (h_nodes h) p") (auto simp: post_def symlink_metadata_def fs_run_def node_at_def)
qed

lemma node_check_honest:
  assumes "honest os"
    and "\<And>e h'. unchanged h h' \<Longrightarrow> Q (Inl (LswIo e)) h'"
    and "\<And>n h'. unchanged h h' \<Longrightarrow> node_at h p = Some n \<Longrightarrow> Q (Inr (test n)) h'"
    and "\<And>h'. unchanged h h' \<Longrightarrow> node_at h p = None \<Longrightarrow> Q (Inr False) h'"
  shows "post (node_check test os p) Q h"
  unfolding node_check_def using assms by (auto simp: wp intro!: post_symlink_metadata_honest)


lemma dir_entries_in:
  assumes "wf_host h" and "p \<noteq> []" and "last p \<noteq> CHR ''/''"
  shows "(name, n) \<in> set (dir_entries (h_nodes h) p)
    \<longleftrightarrow> name \<noteq> [] \<and> CHR ''/'' \<notin> set name \<and> node_at h (p @ CHR ''/'' # name) = Some n"
proof -
  have "path_join p [] = p @ ''/''" using assms(2,3) by (simp add: path_join_def path_is_absolute_def)
  then have "(name, n) \<in> set (dir_entries (h_nodes h) p)
      \<longleftrightarrow> name \<noteq> [] \<and> CHR ''/'' \<notin> set name \<and> (\<exists>k. (k, n) \<in> set (h_nodes h) \<and> strip_prefix k (p @ ''/'') = Some name)"
    by (force simp: dir_entries_def map_filter_def)
  also have "(\<exists>k. (k, n) \<in> set (h_nodes h) \<and> strip_prefix k (p @ ''/'') = Some name)
      \<longleftrightarrow> (p @ CHR ''/'' # name, n) \<in> set (h_nodes h)"
  proof
    assume "\<exists>k. (k, n) \<in> set (h_nodes h) \<and> strip_prefix k (p @ ''/'') = Some name"
    then obtain k where k: "(k, n) \<in> set (h_nodes h)" "take (length (p @ ''/'')) k = p @ ''/''"
      "drop (length (p @ ''/'')) k = name"
      by (auto simp: strip_prefix_def split: if_splits)
    have "k = (p @ ''/'') @ name" using k(2,3) by (metis append_take_drop_id)
    with k(1) show "(p @ CHR ''/'' # name, n) \<in> set (h_nodes h)" by simp
  qed (auto simp: strip_prefix_def intro!: exI [of _ "p @ CHR ''/'' # name"])
  also have "\<dots> \<longleftrightarrow> node_at h (p @ CHR ''/'' # name) = Some n"
    using assms(1) by (simp add: node_at_def wf_host_def map_of_eq_Some_iff)
  finally show ?thesis .
qed

lemma list_entry_outcome:
  assumes "honest os" and "name \<noteq> []" and "CHR ''/'' \<notin> set name" and "node_at h (idir st name) = Some n"
  shows "post (list_entry os (instances_root st) (name, n))
    (\<lambda>r h'. unchanged h h' \<and> (\<forall>ms. r = Inr ms \<longrightarrow> (\<forall>m. view st h name = Some m \<longrightarrow> m \<in> set ms))) h"
proof -
  have "last name \<noteq> CHR ''/''" using assms(2,3) last_in_set by metis
  moreover have "\<not> path_is_absolute name" using assms(2,3) hd_in_set [of name] by (metis path_is_absolute_def)
  ultimately have paths: "path_join (instances_root st) name = idir st name"
    "path_join (idir st name) MANIFEST_FILE = manifest_path st name"
    using instances_root_end [of st] assms(2) by (simp_all add: path_join_def)
  show ?thesis
    unfolding list_entry_def prod.case Let_def paths is_regular_file_def
    using assms(1,4)
    by (auto simp: wp leaves_def view_Some is_dir_iff is_regular_iff on_ok_cases [of _ _ "manifest_decode _"]
        intro!: post_read_entry node_check_honest post_read_to_string)
qed

text \<open>
  A well-formed store: the directory of instances holds every instance, a file of an instance lies
  in its directory, and a manifest names the instance it belongs to.
\<close>

definition store_tree :: "StateStore \<Rightarrow> 'w host \<Rightarrow> bool" where
  "store_tree st h \<longleftrightarrow> wf_host h
     \<and> (\<forall>name m. view st h name = Some m \<longrightarrow> is_name (im_spec m) = name)
     \<and> (\<forall>name. valid_label 63 name \<and> node_at h (idir st name) \<noteq> None \<longrightarrow>
          (\<exists>mode. node_at h (instances_root st) = Some (Directory mode)))
     \<and> (\<forall>name q. valid_label 63 name \<and> node_at h (idir st name) = None \<and> q \<noteq> [] \<and> CHR ''/'' \<notin> set q \<longrightarrow>
          node_at h (idir st name @ CHR ''/'' # q) = None)"

text \<open>The entries of the directory of instances, in the order the system gives them.\<close>

definition root_entries :: "StateStore \<Rightarrow> 'w host \<Rightarrow> (string \<times> fs_node) list \<Rightarrow> bool" where
  "root_entries st h es \<longleftrightarrow> (\<forall>name n. (name, n) \<in> set es
     \<longleftrightarrow> name \<noteq> [] \<and> CHR ''/'' \<notin> set name \<and> node_at h (idir st name) = Some n)"

abbreviation lists_all :: "StateStore \<Rightarrow> 'w host \<Rightarrow> LswError + InstanceManifest list \<Rightarrow> 'w host \<Rightarrow> bool" where
  "lists_all st h r h' \<equiv> unchanged h h' \<and> (\<forall>ms. r = Inr ms \<longrightarrow> (\<forall>name m. view st h name = Some m \<longrightarrow> m \<in> set ms))"

lemma list_entries_outcome:
  assumes "honest os" and es: "root_entries st h es" and h1: "unchanged h h1"
  shows "post (list_entries os (instances_root st) es) (lists_all st h) h1"
proof -
  let ?r = "instances_root st" and ?P = "\<lambda>(name, n) ms. \<forall>m. view st h name = Some m \<longrightarrow> m \<in> set ms"
  have "post (io_collect (list_entry os ?r) es) (\<lambda>r t. unchanged h t \<and> (\<forall>ys. r = Inr ys \<longrightarrow> list_all2 ?P es ys)) h1"
  proof (rule post_collect [where I = "unchanged h"])
    fix x s assume x: "x \<in> set es" and s: "unchanged h s"
    obtain name n where xn: "x = (name, n)" by (cases x)
    have e: "name \<noteq> []" "CHR ''/'' \<notin> set name" "node_at h (idir st name) = Some n"
      using x xn es by (simp_all add: root_entries_def)
    have eq: "node_at s = node_at h" "view st s = view st h"
      using s view_unchanged [OF s] by (simp_all add: leaves_def)
    have "post (list_entry os ?r x)
        (\<lambda>r h'. unchanged s h' \<and> (\<forall>ms. r = Inr ms \<longrightarrow> (\<forall>m. view st s name = Some m \<longrightarrow> m \<in> set ms))) s"
      unfolding xn using assms(1) e by (intro list_entry_outcome) (simp_all add: eq)
    then show "post (list_entry os ?r x) (\<lambda>r t. unchanged h t \<and> (\<forall>y. r = Inr y \<longrightarrow> ?P x y)) s"
      by (rule post_mono) (auto simp: xn eq intro: unchanged_trans [OF s])
  qed (rule h1)
  then show ?thesis
    unfolding list_entries_def
  proof (simp only: wp, rule post_mono)
    fix r :: "LswError + InstanceManifest list list" and t
    assume r: "unchanged h t \<and> (\<forall>ys. r = Inr ys \<longrightarrow> list_all2 ?P es ys)"
    have "m \<in> set (concat ys)" if ys: "list_all2 ?P es ys" and m: "view st h name = Some m" for ys name m
    proof -
      obtain mode where "valid_label 63 name" "node_at h (idir st name) = Some (Directory mode)"
        using m by (auto simp: view_Some)
      then have "(name, Directory mode) \<in> set es" using valid_label_plain es by (auto simp: root_entries_def)
      then obtain i where i: "i < length es" "es ! i = (name, Directory mode)" by (metis in_set_conv_nth)
      then have "?P (name, Directory mode) (ys ! i)" "i < length ys"
        using list_all2_nthD [OF ys i(1)] list_all2_lengthD [OF ys] by simp_all
      with m show ?thesis by auto
    qed
    with r show "on_ok (\<lambda>found. post (io_return (sort_by_name (concat found))) (lists_all st h)) (lists_all st h) r t"
      by (cases r) (auto simp: wp sort_by_name_def)
  qed
qed

lemma list_outcome:
  assumes "honest os" and "store_tree st h"
  shows "post (list_instances os st) (lists_all st h) h"
proof -
  let ?r = "instances_root st"
  have none: "view st h name = None" if "node_at h ?r = None" for name
    using that assms(2) by (cases "view st h name") (auto simp: store_tree_def view_Some)
  have entries: "root_entries st h (dir_entries (h_nodes h1) ?r)" if "unchanged h h1" for h1
    using that assms(2) dir_entries_in [OF _ instances_root_end, of h1 _ _ st]
    by (auto simp: leaves_def store_tree_def root_entries_def)
  have without: "post (list_without_root os ?r) (lists_all st h) h1" if "unchanged h h1" for h1
    unfolding list_without_root_def
    using that none by (auto simp: wp leaves_def intro!: post_symlink_metadata_honest [OF assms(1)])
  have "post (read_dir os ?r) (\<lambda>r. on_ok (\<lambda>es. post (list_entries os ?r es) (lists_all st h)) (lists_all st h)
      (map_error LswIo r)) h1" if h1: "unchanged h h1" for h1
    using list_entries_outcome [OF assms(1) entries [OF h1]] unchanged_trans [OF h1] by (auto intro!: post_read_dir)
  with without show ?thesis
    unfolding list_instances_def Let_def is_real_directory_def
    by (auto simp: wp intro!: node_check_honest [OF assms(1)])
qed


section \<open>Ports\<close>

lemma reject_port_conflict_ok:
  "reject_port_conflict ports excluded ms = Inr u \<longleftrightarrow>
     (\<forall>m \<in> set ms. excluded = Some (is_name (im_spec m)) \<or> set ports \<inter> set (manifest_ports m) = {})"
proof (induction ms)
  case (Cons m ms)
  have "find (\<lambda>p. im_control_port m = p \<or> list_ex (\<lambda>f. pf_host_port f = p) (is_port_forwards (im_spec m))) ports = None
      \<longleftrightarrow> set ports \<inter> set (manifest_ports m) = {}"
    by (auto simp: find_None_iff manifest_ports_def list_ex_iff)
  with Cons.IH show ?case by (auto split: option.splits)
qed simp

definition ports_apart :: "StateStore \<Rightarrow> 'w host \<Rightarrow> bool" where
  "ports_apart st h \<longleftrightarrow> (\<forall>a b m n. view st h a = Some m \<and> view st h b = Some n \<and> a \<noteq> b \<longrightarrow>
     set (manifest_ports m) \<inter> set (manifest_ports n) = {})"

definition store_ok :: "StateStore \<Rightarrow> 'w host \<Rightarrow> bool" where
  "store_ok st h \<longleftrightarrow> store_tree st h \<and> ports_apart st h"

lemma ports_available_outcome:
  assumes "honest os" and "store_tree st h"
  shows "post (ensure_host_ports_available os st m excluded) (\<lambda>r h'. unchanged h h' \<and>
    (r = Inr () \<longrightarrow> (\<forall>name n. view st h name = Some n \<longrightarrow> excluded = Some name \<or>
       set (manifest_ports m) \<inter> set (manifest_ports n) = {}))) h"
  unfolding ensure_host_ports_available_def
proof (simp only: wp, rule post_mono [OF list_outcome [OF assms]])
  fix r :: "LswError + InstanceManifest list" and t
  assume r: "lists_all st h r t"
  show "on_ok (\<lambda>ms. post (io_of (reject_port_conflict (manifest_ports m) excluded ms)) (\<lambda>r h'. unchanged h h' \<and>
    (r = Inr () \<longrightarrow> (\<forall>name n. view st h name = Some n \<longrightarrow> excluded = Some name \<or>
       set (manifest_ports m) \<inter> set (manifest_ports n) = {})))) (\<lambda>r h'. unchanged h h' \<and>
    (r = Inr () \<longrightarrow> (\<forall>name n. view st h name = Some n \<longrightarrow> excluded = Some name \<or>
       set (manifest_ports m) \<inter> set (manifest_ports n) = {}))) r t"
  proof (cases r)
    case (Inr ms)
    have "excluded = Some name \<or> set (manifest_ports m) \<inter> set (manifest_ports n) = {}"
      if "reject_port_conflict (manifest_ports m) excluded ms = Inr ()" "view st h name = Some n" for name n
    proof -
      have "n \<in> set ms" "is_name (im_spec n) = name" using r Inr that(2) assms(2) by (auto simp: store_tree_def)
      with that(1) show ?thesis unfolding reject_port_conflict_ok by auto
    qed
    with r Inr show ?thesis by (auto simp: wp)
  qed (use r in simp)
qed


section \<open>Updating an instance\<close>

text \<open>A write to the manifest of an instance, seen in the map.\<close>

lemma written_manifest:
  assumes name: "valid_label 63 name" and written: "written_or_not os (manifest_path st name) contents h r h'"
  shows "r = Inl e \<Longrightarrow> view st h' = view st h"
    and "r = Inr u \<Longrightarrow> node_at h (idir st name) = Some (Directory mode) \<Longrightarrow> utf8_valid contents \<Longrightarrow>
      manifest_decode contents = Inr m \<Longrightarrow> view st h' = (view st h)(name \<mapsto> m)"
    and "valid_label 63 other \<Longrightarrow> node_at h' (idir st other) = node_at h (idir st other)"
    and "node_at h' (instances_root st) = node_at h (instances_root st)"
    and "wf_host h \<Longrightarrow> wf_host h'"
    and "valid_label 63 other \<Longrightarrow> other \<noteq> name \<Longrightarrow>
      node_at h' (idir st other @ CHR ''/'' # q) = node_at h (idir st other @ CHR ''/'' # q)"
    and "node_at h' (token_path st name) = node_at h (token_path st name)"
    and "(\<And>q. p \<noteq> idir st name @ CHR ''/'' # q) \<Longrightarrow> node_at h' p = node_at h p"
    and "r = Inl e \<Longrightarrow> node_at h' (manifest_path st name) = node_at h (manifest_path st name)"
    and "r = Inr u \<Longrightarrow> node_at h' (manifest_path st name) = Some (Regular 384 contents)"
proof -
  from written obtain n where
    same: "\<And>p. p \<noteq> manifest_path st name \<Longrightarrow> p \<noteq> temporary_path os (manifest_path st name) n \<Longrightarrow> node_at h' p = node_at h p"
    and outcome: "case r of
          Inr _ \<Rightarrow> node_at h' (manifest_path st name) = Some (Regular 384 contents)
            \<and> node_at h (temporary_path os (manifest_path st name) n) = None
            \<and> node_at h' (temporary_path os (manifest_path st name) n) = None
        | Inl _ \<Rightarrow> node_at h' (manifest_path st name) = node_at h (manifest_path st name)
            \<and> (node_at h' (temporary_path os (manifest_path st name) n) = node_at h (temporary_path os (manifest_path st name) n)
               \<or> node_at h (temporary_path os (manifest_path st name) n) = None
                  \<and> private_file (node_at h' (temporary_path os (manifest_path st name) n)))"
    unfolding written_or_not_def by blast
  then have res: "case r of
          Inr _ \<Rightarrow> node_at h' (manifest_path st name) = Some (Regular 384 contents)
        | Inl _ \<Rightarrow> node_at h' (manifest_path st name) = node_at h (manifest_path st name)"
    by (cases r) simp_all
  note tmp = temporary_manifest_path [OF name, of os st n]
  show dirs: "node_at h' (idir st other) = node_at h (idir st other)" if "valid_label 63 other" for other
    using that name unfolding tmp by (intro same) (simp_all only: tmp below_distinct not_False_eq_True)
  show "node_at h' (instances_root st) = node_at h (instances_root st)"
    unfolding tmp by (intro same) (simp_all only: tmp, simp_all)
  show "wf_host h \<Longrightarrow> wf_host h'" using written by (simp add: written_or_not_def)
  show "node_at h' p = node_at h p" if "\<And>q. p \<noteq> idir st name @ CHR ''/'' # q"
    using that by (intro same) (simp_all only: tmp not_False_eq_True)
  show "r = Inl e \<Longrightarrow> node_at h' (manifest_path st name) = node_at h (manifest_path st name)"
    "r = Inr u \<Longrightarrow> node_at h' (manifest_path st name) = Some (Regular 384 contents)"
    using res by simp_all
  show others: "node_at h' (idir st other @ CHR ''/'' # q) = node_at h (idir st other @ CHR ''/'' # q)"
    if "valid_label 63 other" "other \<noteq> name" for other q
    using that name by (intro same) (simp_all only: tmp below_distinct, simp_all)
  show "node_at h' (token_path st name) = node_at h (token_path st name)"
    using name by (intro same) (simp_all only: tmp below_distinct, simp_all add: AGENT_TOKEN_FILE_def MANIFEST_FILE_def)
  show "view st h' = view st h" if "r = Inl e"
  proof
    fix other
    show "view st h' other = view st h other"
      using that res dirs others [of other] by (cases "other = name") (auto intro!: view_eq)
  qed
  show "view st h' = (view st h)(name \<mapsto> m)"
    if r: "r = Inr u" "node_at h (idir st name) = Some (Directory mode)" "utf8_valid contents" "manifest_decode contents = Inr m"
  proof
    fix other
    show "view st h' other = ((view st h)(name \<mapsto> m)) other"
      using r res dirs [OF name] name by (cases "other = name") (auto simp: view_Some intro!: view_eq dirs others)
  qed
qed


lemma temporary_manifest_differs:
  "valid_label 63 name \<Longrightarrow> temporary_path os (manifest_path st name) n \<noteq> manifest_path st name"
  by (simp only: temporary_manifest_path below_distinct) (simp add: MANIFEST_FILE_def)

text \<open>The map after an update: the new manifest if it succeeded, the old map if it did not.\<close>

definition map_updated :: "StateStore \<Rightarrow> InstanceManifest \<Rightarrow> 'w host \<Rightarrow> 'e + 'a \<Rightarrow> 'w host \<Rightarrow> bool" where
  "map_updated st m h r h' \<longleftrightarrow>
     (case r of Inl _ \<Rightarrow> view st h' = view st h | Inr _ \<Rightarrow> view st h' = (view st h)(is_name (im_spec m) \<mapsto> m))"

text \<open>A change of the map that leaves the directories alone keeps the store well-formed.\<close>

lemma store_tree_step:
  assumes "store_tree st h" and "wf_host h'"
    and "\<And>name m. view st h' name = Some m \<Longrightarrow> is_name (im_spec m) = name"
    and "\<And>name. valid_label 63 name \<Longrightarrow> node_at h' (idir st name) \<noteq> None \<Longrightarrow>
      \<exists>mode. node_at h' (instances_root st) = Some (Directory mode)"
    and "\<And>name q. valid_label 63 name \<Longrightarrow> node_at h' (idir st name) = None \<Longrightarrow> q \<noteq> [] \<Longrightarrow> CHR ''/'' \<notin> set q \<Longrightarrow>
      node_at h' (idir st name @ CHR ''/'' # q) = None"
  shows "store_tree st h'"
  using assms unfolding store_tree_def by blast

lemma ports_apart_update:
  assumes "ports_apart st h" and "view st h' = (view st h)(name \<mapsto> m)"
    and "\<And>other n. view st h other = Some n \<Longrightarrow> other \<noteq> name \<Longrightarrow> set (manifest_ports m) \<inter> set (manifest_ports n) = {}"
  shows "ports_apart st h'"
  unfolding ports_apart_def
proof (intro allI impI)
  fix a b x y
  assume ab: "view st h' a = Some x \<and> view st h' b = Some y \<and> a \<noteq> b"
  show "set (manifest_ports x) \<inter> set (manifest_ports y) = {}"
  proof (cases "a = name \<or> b = name")
    case True
    then show ?thesis using ab assms(2,3) by (auto split: if_splits)
  next
    case False
    then have "view st h a = Some x" "view st h b = Some y" using ab assms(2) by simp_all
    then show ?thesis using ab assms(1) unfolding ports_apart_def by blast
  qed
qed

text \<open>A manifest that was written, or not, over that of an instance.\<close>

lemma store_ok_written:
  assumes ok: "store_ok st h" and name: "valid_label 63 (is_name (im_spec m))"
    and dir: "node_at h (idir st (is_name (im_spec m))) = Some (Directory mode)"
    and decode: "utf8_valid s" "manifest_decode s = Inr m"
    and ports: "\<And>name n. view st h name = Some n \<Longrightarrow> name \<noteq> is_name (im_spec m) \<Longrightarrow>
      set (manifest_ports m) \<inter> set (manifest_ports n) = {}"
    and w: "written_or_not os (manifest_path st (is_name (im_spec m))) s h r h'"
  shows "map_updated st m h r h' \<and> store_ok st h'"
proof -
  note same = written_manifest(3-6) [OF name w]
  have tree: "store_tree st h" and apart: "ports_apart st h" using ok by (simp_all add: store_ok_def)
  have root: "\<exists>mode. node_at h (instances_root st) = Some (Directory mode)"
    using tree name dir unfolding store_tree_def by (metis option.distinct(1))
  have closed: "node_at h' (idir st other @ CHR ''/'' # q) = None"
    if "valid_label 63 other" "node_at h' (idir st other) = None" "q \<noteq> []" "CHR ''/'' \<notin> set q" for other q
  proof -
    have "node_at h (idir st other) = None" using that(1,2) same(1) by simp
    moreover from this have "other \<noteq> is_name (im_spec m)" using dir by auto
    ultimately show ?thesis using same(4) [OF that(1)] tree that unfolding store_tree_def by metis
  qed
  show ?thesis
  proof (cases r)
    case (Inl e)
    have view: "view st h' = view st h" by (rule written_manifest(1) [OF name w Inl])
    have "store_tree st h'"
      using tree by (intro store_tree_step [OF tree]) (auto simp: view same(1-3) store_tree_def intro: closed [simplified])
    then show ?thesis using Inl view apart by (simp add: map_updated_def store_ok_def ports_apart_def)
  next
    case (Inr u)
    have view: "view st h' = (view st h)(is_name (im_spec m) \<mapsto> m)"
      by (rule written_manifest(2) [OF name w Inr dir decode])
    have "store_tree st h'"
      using tree root by (intro store_tree_step [OF tree])
        (auto simp: view same(1-3) store_tree_def split: if_splits intro: closed [simplified])
    moreover have "ports_apart st h'" by (rule ports_apart_update [OF apart view]) (rule ports)
    ultimately show ?thesis using Inr view by (simp add: map_updated_def store_ok_def)
  qed
qed

lemma store_ok_unchanged: "store_ok st h \<Longrightarrow> unchanged h h' \<Longrightarrow> store_ok st h'"
  using view_unchanged [of h h' st] by (auto simp: store_ok_def store_tree_def ports_apart_def leaves_def)

lemma update_outcome:
  assumes "honest os" and ok: "store_ok st h" and "storable m"
  shows "post (update_instance os st m) (\<lambda>r h'. map_updated st m h r h' \<and> store_ok st h') h"
proof (cases "manifest_encode m")
  case (Inl e)
  then show ?thesis using ok by (simp add: update_instance_def wp map_updated_def)
next
  case (Inr s)
  let ?name = "is_name (im_spec m)" and ?Q = "\<lambda>(r :: LswError + unit) h'. map_updated st m h r h' \<and> store_ok st h'"
  note enc = storable_encoded [OF assms(3) Inr]
  have keep: "?Q (Inl e) h'" if "unchanged h h'" for e h'
    using store_ok_unchanged [OF ok that] view_unchanged [OF that, of st] by (simp add: map_updated_def)
  have tail: "post (io_bind (ensure_host_ports_available os st m (Some ?name))
      (\<lambda>_. write_atomic os (manifest_path st ?name) s)) ?Q h1"
    if h1: "unchanged h h1" and dir: "node_at h (idir st ?name) = Some (Directory mode)" for h1 mode
  proof (simp only: wp, rule post_mono [OF ports_available_outcome [OF assms(1)]])
    show "store_tree st h1" using store_ok_unchanged [OF ok h1] by (simp add: store_ok_def)
    fix r :: "LswError + unit" and h2
    assume r: "unchanged h1 h2 \<and> (r = Inr () \<longrightarrow> (\<forall>name n. view st h1 name = Some n \<longrightarrow> Some ?name = Some name \<or>
       set (manifest_ports m) \<inter> set (manifest_ports n) = {}))"
    have h2: "unchanged h h2" using h1 r by (blast intro: unchanged_trans)
    show "on_ok (\<lambda>_. post (write_atomic os (manifest_path st ?name) s) ?Q) ?Q r h2"
    proof (cases r)
      case (Inl e)
      with keep [OF h2] show ?thesis by simp
    next
      case (Inr u)
      have view: "view st h2 = view st h" "view st h1 = view st h" by (rule view_unchanged [OF h2], rule view_unchanged [OF h1])
      have "post (write_atomic os (manifest_path st ?name) s) (written_or_not os (manifest_path st ?name) s h2) h2"
        by (rule write_atomic_outcome) (rule temporary_manifest_differs [OF enc(3)])
      then have "post (write_atomic os (manifest_path st ?name) s) ?Q h2"
      proof (rule post_mono)
        fix r' :: "LswError + unit" and h3
        assume w: "written_or_not os (manifest_path st ?name) s h2 r' h3"
        have "map_updated st m h2 r' h3 \<and> store_ok st h3"
          using store_ok_unchanged [OF ok h2] enc dir h2 r Inr w
          by (intro store_ok_written [OF _ enc(3)]) (auto simp: leaves_def view)
        then show "?Q r' h3" by (cases r') (simp_all add: map_updated_def view)
      qed
      with Inr show ?thesis by simp
    qed
  qed
  show ?thesis
    unfolding update_instance_def is_real_directory_def Inr
    using keep tail
    by (auto simp: wp instance_dir_valid [OF enc(3)] path_join_instance [OF enc(3)] is_dir_iff
        intro!: node_check_honest [OF assms(1)])
qed


section \<open>Creating an instance\<close>

text \<open>The directories above the instances: what \<open>initialize\<close> may create and make private.\<close>

definition kept_below :: "nat \<Rightarrow> 'w host \<Rightarrow> 'w host \<Rightarrow> bool" where
  "kept_below n h h' \<longleftrightarrow> (wf_host h \<longrightarrow> wf_host h') \<and> (\<forall>p. n < length p \<longrightarrow> node_at h' p = node_at h p)
     \<and> (\<forall>p d. node_at h p = Some d \<and> is_dir d \<longrightarrow> (\<exists>d'. node_at h' p = Some d' \<and> is_dir d'))"

interpretation shallow: step_order "kept_below n" for n
  by unfold_locales (force simp: kept_below_def)+

lemma kept_below_leaves:
  assumes "leaves h ns h'" and "\<And>p. n < length p \<Longrightarrow> ns p = node_at h p"
    and "\<And>p d. node_at h p = Some d \<Longrightarrow> is_dir d \<Longrightarrow> \<exists>d'. ns p = Some d' \<and> is_dir d'"
  shows "kept_below n h h'"
  using assms by (auto simp: kept_below_def leaves_def)

lemma set_mode_is_dir [simp]: "is_dir (set_mode mode d) = is_dir d"
  by (cases d) (simp_all add: set_mode_def)

lemma keeps_node_check: "keeps (kept_below n) (node_check test os p)"
  by (rule keepsI, rule node_check_outcome) (auto intro: kept_below_leaves)

lemma keeps_set_permissions: "length p \<le> n \<Longrightarrow> keeps (kept_below n) (set_permissions os p mode)"
  by (rule keepsI, rule post_set_permissions) (auto intro!: kept_below_leaves split: if_splits)

lemma keeps_create_dir_all:
  assumes "length p \<le> n"
  shows "keeps (kept_below n) (create_dir_all os p)"
  unfolding create_dir_all_def
proof (rule shallow.keeps_for, rule keepsI, rule post_fs_run)
  fix q :: string and h :: "'a host" and w
  assume "q \<in> set (path_ancestors p)"
  then have q: "length q \<le> n" using assms by (auto simp: path_ancestors_def)
  show "kept_below n h (h\<lparr>h_rest := w\<rparr>)" by (rule kept_below_leaves [OF leaves_updates(1)]) auto
  have same: "kept_below n h \<lparr>h_nodes = h_nodes h, h_rest = w\<rparr>"
    by (rule kept_below_leaves [OF leaves_updates(2)]) auto
  have "kept_below n h \<lparr>h_nodes = AList.update q (Directory mode) (h_nodes h), h_rest = w\<rparr>" for mode
    using q by (intro kept_below_leaves [OF leaves_updates(3)]) auto
  with same show "case case map_of (h_nodes h) q of
       None \<Rightarrow> (Inr (), AList.update q (Directory (ho_dir_mode os)) (h_nodes h))
     | Some (Directory mode) \<Rightarrow> (Inr (), h_nodes h)
     | Some Symlink \<Rightarrow> (if ho_link_exists os q w then Inr () else Inl AlreadyExists, h_nodes h)
     | Some _ \<Rightarrow> (Inl AlreadyExists, h_nodes h) of (r, ns) \<Rightarrow> kept_below n h \<lparr>h_nodes = ns, h_rest = w\<rparr>"
    by (auto split: option.splits fs_node.splits)
qed

lemma initialize_outcome:
  "post (initialize os st) (\<lambda>r h'. kept_below (length (instances_root st)) h h' \<and>
     (r = Inr () \<longrightarrow> (\<exists>mode. node_at h' (instances_root st) = Some (Directory mode)))) h"
proof -
  have len: "length st \<le> length (instances_root st)" by (simp add: instances_root_def path_join_def path_is_absolute_def)
  have priv: "keeps (kept_below (length (instances_root st))) (ensure_private_directory os p)"
    if "length p \<le> length (instances_root st)" for p
    unfolding ensure_private_directory_def is_real_directory_def set_private_directory_permissions_def
    by (intro shallow.keeps_rules keeps_node_check keeps_set_permissions that)
  have "keeps (kept_below (length (instances_root st))) (initialize os st)"
    unfolding initialize_def
    by (intro shallow.keeps_rules priv keeps_create_dir_all len order_refl)
  moreover have "post (ensure_private_directory os (instances_root st)) (\<lambda>r h'.
      r = Inr () \<longrightarrow> (\<exists>mode. node_at h' (instances_root st) = Some (Directory mode))) s" for s
    unfolding ensure_private_directory_def set_private_directory_permissions_def
    by (auto simp: wp is_dir_iff leaves_def set_mode_def intro!: fs_post)
  then have "post (initialize os st) (\<lambda>r h'.
      r = Inr () \<longrightarrow> (\<exists>mode. node_at h' (instances_root st) = Some (Directory mode))) h"
    unfolding initialize_def
    by (auto simp: post_iff io_bind_Some)
  ultimately show ?thesis by (auto intro: post_conj keeps_post)
qed


text \<open>What a new instance directory holds, and what is left when its files could not be written.\<close>

definition inside :: "StateStore \<Rightarrow> string \<Rightarrow> string \<Rightarrow> bool" where
  "inside st name p \<longleftrightarrow> p = idir st name \<or> (\<exists>q. p = idir st name @ CHR ''/'' # q)"

definition children_free :: "StateStore \<Rightarrow> string \<Rightarrow> 'w host \<Rightarrow> bool" where
  "children_free st name h \<longleftrightarrow>
     (\<forall>q. q \<noteq> [] \<and> CHR ''/'' \<notin> set q \<longrightarrow> node_at h (idir st name @ CHR ''/'' # q) = None)"

definition token_node :: "'w host_os \<Rightarrow> fs_node option \<Rightarrow> bool" where
  "token_node os n \<longleftrightarrow>
     (\<exists>bytes w w'. ho_random os w = (Inr bytes, w') \<and> 32 \<le> length bytes
        \<and> n = Some (Regular 384 (hex_encode (take 32 bytes) @ [NL])))"

definition populated :: "'w host_os \<Rightarrow> StateStore \<Rightarrow> string \<Rightarrow> string \<Rightarrow> 'w host \<Rightarrow> LswError + string \<Rightarrow> 'w host \<Rightarrow> bool" where
  "populated os st name s h r h' \<longleftrightarrow> wf_host h' \<and> (\<forall>p. \<not> inside st name p \<longrightarrow> node_at h' p = node_at h p) \<and>
     (case r of
        Inr d \<Rightarrow> d = idir st name \<and> node_at h' (idir st name) = node_at h (idir st name)
          \<and> node_at h' (manifest_path st name) = Some (Regular 384 s)
          \<and> token_node os (node_at h' (token_path st name))
      | Inl _ \<Rightarrow> node_at h' (idir st name) = None \<and> children_free st name h'
          \<or> node_at h' (idir st name) = node_at h (idir st name)
            \<and> node_at h' (manifest_path st name) \<in> {None, Some (Regular 384 s)})"

lemma post_remove_instance_dir:
  assumes "valid_label 63 name" and "wf_host h"
    and "\<And>e h'. unchanged h h' \<Longrightarrow> Q (Inl e) h'"
    and "\<And>h'. wf_host h' \<Longrightarrow> children_free st name h' \<Longrightarrow> node_at h' = (node_at h)(idir st name := None) \<Longrightarrow> Q (Inr ()) h'"
  shows "post (remove_dir os (idir st name)) Q h"
proof (rule post_remove_dir)
  show "Q (Inl e) h'" if "unchanged h h'" for e h' using that by (rule assms(3))
  fix n h'
  assume "dir_entries (h_nodes h) (idir st name) = []" and h': "leaves h ((node_at h)(idir st name := None)) h'"
  then have free: "node_at h (idir st name @ CHR ''/'' # q) = None" if "q \<noteq> []" "CHR ''/'' \<notin> set q" for q
    using dir_entries_in [OF assms(2), of "idir st name" q] valid_label_plain [OF assms(1)] that
    by (cases "node_at h (idir st name @ CHR ''/'' # q)") auto
  show "Q (Inr ()) h'"
    using h' assms(2) free by (intro assms(4)) (auto simp: leaves_def children_free_def)
qed

lemma create_token_outcome:
  assumes "node_at h p = None" and "wf_host h"
  shows "post (create_token os p) (\<lambda>r h'. wf_host h' \<and> (\<forall>q. q \<noteq> p \<longrightarrow> node_at h' q = node_at h q) \<and>
    (r = Inr () \<longrightarrow> token_node os (node_at h' p))) h"
  unfolding create_token_def generate_agent_token_def write_new_private_def set_private_file_permissions_def
  using assms by (auto simp: wp leaves_def set_mode_def token_node_def not_less intro!: fs_post) blast

lemma inside_paths [simp]:
  "inside st name (idir st name)" "inside st name (idir st name @ CHR ''/'' # q)"
  by (auto simp: inside_def)

lemma populate_outcome:
  assumes name: "valid_label 63 name" and wf: "wf_host h" and free: "children_free st name h"
  shows "post (populate_instance os (idir st name) s) (populated os st name s h) h"
proof -
  let ?d = "idir st name" and ?m = "manifest_path st name" and ?t = "token_path st name"
  have ne: "?t \<noteq> ?m" "?m \<noteq> ?d" "?t \<noteq> ?d" by (simp_all add: MANIFEST_FILE_def AGENT_TOKEN_FILE_def)
  have failed: "post (remove_dir os ?d) (\<lambda>_. populated os st name s h (Inl e)) h1"
    if "wf_host h1" "\<forall>p. \<not> inside st name p \<longrightarrow> node_at h1 p = node_at h p" "node_at h1 ?d = node_at h ?d"
      "node_at h1 ?m \<in> {None, Some (Regular 384 s)}" for e h1
    using that name by (auto simp: populated_def leaves_def intro!: post_remove_instance_dir)
  have token: "post (create_token os ?t) (\<lambda>r. post (case r of
        Inl e \<Rightarrow> io_bind (io_ignore (unlink_file os ?m)) (\<lambda>_. io_bind (io_ignore (remove_dir os ?d)) (\<lambda>_. io_fail e))
      | Inr _ \<Rightarrow> io_return ?d) (populated os st name s h)) h1"
    if h1: "wf_host h1" "\<forall>p. \<not> inside st name p \<longrightarrow> node_at h1 p = node_at h p" "node_at h1 ?d = node_at h ?d"
      "node_at h1 ?m = Some (Regular 384 s)" "node_at h1 ?t = None" for h1
  proof (rule post_mono [OF create_token_outcome [OF h1(5,1)]])
    fix r :: "LswError + unit" and h2 :: "'a host"
    assume r: "wf_host h2 \<and> (\<forall>q. q \<noteq> ?t \<longrightarrow> node_at h2 q = node_at h1 q) \<and>
      (r = Inr () \<longrightarrow> token_node os (node_at h2 ?t))"
    then have h2: "wf_host h2" "\<forall>p. \<not> inside st name p \<longrightarrow> node_at h2 p = node_at h p" "node_at h2 ?d = node_at h ?d"
      "node_at h2 ?m = Some (Regular 384 s)"
      using h1 ne by (auto simp: inside_def)
    show "post (case r of
        Inl e \<Rightarrow> io_bind (io_ignore (unlink_file os ?m)) (\<lambda>_. io_bind (io_ignore (remove_dir os ?d)) (\<lambda>_. io_fail e))
      | Inr _ \<Rightarrow> io_return ?d) (populated os st name s h) h2"
    proof (cases r)
      case (Inl e)
      have "post (unlink_file os ?m) (\<lambda>_. post (remove_dir os ?d) (\<lambda>_. populated os st name s h (Inl e))) h2"
        by (rule post_unlink_file; rule failed) (use h2 ne in \<open>auto simp: leaves_def inside_def\<close>)
      with Inl show ?thesis by (simp add: wp)
    next
      case (Inr u)
      with r h2 show ?thesis by (auto simp: wp populated_def)
    qed
  qed
  have "post (write_atomic os ?m s) (written_or_not os ?m s h) h"
    by (rule write_atomic_outcome) (rule temporary_manifest_differs [OF name])
  then have "post (write_atomic os ?m s) (\<lambda>r. post (case r of
        Inl e \<Rightarrow> io_bind (io_ignore (remove_dir os ?d)) (\<lambda>_. io_fail e)
      | Inr _ \<Rightarrow> io_bind (io_attempt (create_token os ?t)) (\<lambda>token. case token of
          Inl e \<Rightarrow> io_bind (io_ignore (unlink_file os ?m)) (\<lambda>_. io_bind (io_ignore (remove_dir os ?d)) (\<lambda>_. io_fail e))
        | Inr _ \<Rightarrow> io_return ?d)) (populated os st name s h)) h"
  proof (rule post_mono)
    fix r :: "LswError + unit" and h1 :: "'a host"
    assume w: "written_or_not os ?m s h r h1"
    note same = written_manifest(3,5,7) [OF name w]
    have same: "wf_host h1" "\<forall>p. \<not> inside st name p \<longrightarrow> node_at h1 p = node_at h p" "node_at h1 ?d = node_at h ?d"
      "node_at h1 ?t = node_at h ?t"
      using same wf name written_manifest(8) [OF name w] by (simp_all add: inside_def)
    show "post (case r of
        Inl e \<Rightarrow> io_bind (io_ignore (remove_dir os ?d)) (\<lambda>_. io_fail e)
      | Inr _ \<Rightarrow> io_bind (io_attempt (create_token os ?t)) (\<lambda>token. case token of
          Inl e \<Rightarrow> io_bind (io_ignore (unlink_file os ?m)) (\<lambda>_. io_bind (io_ignore (remove_dir os ?d)) (\<lambda>_. io_fail e))
        | Inr _ \<Rightarrow> io_return ?d)) (populated os st name s h) h1"
    proof (cases r)
      case (Inl e)
      have "node_at h1 ?m = node_at h ?m" by (rule written_manifest(9) [OF name w Inl])
      moreover have "node_at h ?m = None" using free by (simp add: children_free_def MANIFEST_FILE_def)
      ultimately have "post (remove_dir os ?d) (\<lambda>_. populated os st name s h (Inl e)) h1"
        using same wf name by (intro failed) auto
      with Inl show ?thesis by (simp add: wp)
    next
      case (Inr u)
      have "node_at h ?t = None" using free by (simp add: children_free_def AGENT_TOKEN_FILE_def)
      then have "post (create_token os ?t) (\<lambda>r. post (case r of
            Inl e \<Rightarrow> io_bind (io_ignore (unlink_file os ?m)) (\<lambda>_. io_bind (io_ignore (remove_dir os ?d)) (\<lambda>_. io_fail e))
          | Inr _ \<Rightarrow> io_return ?d) (populated os st name s h)) h1"
        using same wf name written_manifest(10) [OF name w Inr] by (intro token) auto
      with Inr show ?thesis by (simp only: wp on_ok_apply sum.case)
    qed
  qed
  then show ?thesis
    by (simp only: populate_instance_def Let_def instance_paths [OF name] wp on_ok_apply)
qed

text \<open>A change inside the directory of one instance changes the map at most there.\<close>

lemma inside_other:
  assumes "valid_label 63 name" and "valid_label 63 other" and "other \<noteq> name"
  shows "\<not> inside st name (idir st other)" "\<not> inside st name (idir st other @ CHR ''/'' # q)"
  using below_distinct(1) [OF assms(2,1), of st] below_distinct(2) [OF assms(2,1), of st]
    below_distinct(3) [OF assms(1,2), of st] assms(3) unfolding inside_def by blast+

lemma root_not_inside: "\<not> inside st name (instances_root st)"
  by (simp add: inside_def)

lemma view_inside:
  assumes "valid_label 63 name" and "\<forall>p. \<not> inside st name p \<longrightarrow> node_at h' p = node_at h p"
  shows "view st h' = (view st h)(name := view st h' name)"
proof
  fix other
  show "view st h' other = ((view st h)(name := view st h' name)) other"
    using assms(2) inside_other [OF assms(1)] by (cases "other = name") (auto intro!: view_eq)
qed

lemma store_ok_inside:
  assumes ok: "store_ok st h" and name: "valid_label 63 name" and wf: "wf_host h'"
    and same: "\<forall>p. \<not> inside st name p \<longrightarrow> node_at h' p = node_at h p"
    and root: "node_at h' (idir st name) \<noteq> None \<Longrightarrow> \<exists>mode. node_at h (instances_root st) = Some (Directory mode)"
    and closed: "node_at h' (idir st name) = None \<Longrightarrow> children_free st name h'"
    and m: "\<And>m. view st h' name = Some m \<Longrightarrow> is_name (im_spec m) = name \<and>
      (\<forall>other n. view st h other = Some n \<longrightarrow> other \<noteq> name \<longrightarrow> set (manifest_ports m) \<inter> set (manifest_ports n) = {})"
  shows "store_ok st h'"
proof -
  have tree: "store_tree st h" and apart: "ports_apart st h" using ok by (simp_all add: store_ok_def)
  note view = view_inside [OF name same]
  have others: "node_at h' (idir st other) = node_at h (idir st other)"
    "node_at h' (idir st other @ CHR ''/'' # q) = node_at h (idir st other @ CHR ''/'' # q)"
    if "valid_label 63 other" "other \<noteq> name" for other q
    using same inside_other [OF name that] by blast+
  have root_same: "node_at h' (instances_root st) = node_at h (instances_root st)"
    using same root_not_inside by blast
  have "store_tree st h'"
  proof (rule store_tree_step [OF tree wf])
    fix other x assume "view st h' other = Some x"
    then show "is_name (im_spec x) = other"
      using m tree view by (cases "other = name") (auto simp: store_tree_def dest: fun_cong [of _ _ other])
  next
    fix other assume o: "valid_label 63 other" "node_at h' (idir st other) \<noteq> None"
    then show "\<exists>mode. node_at h' (instances_root st) = Some (Directory mode)"
      using root tree others(1) [OF o(1)] unfolding root_same store_tree_def by (cases "other = name") metis+
  next
    fix other q
    assume o: "valid_label 63 other" "node_at h' (idir st other) = None" "q \<noteq> []" "CHR ''/'' \<notin> set q"
    then show "node_at h' (idir st other @ CHR ''/'' # q) = None"
      using closed tree others [OF o(1)] unfolding store_tree_def children_free_def by (cases "other = name") metis+
  qed
  moreover have "ports_apart st h'"
  proof (cases "view st h' name")
    case (Some x)
    then have "view st h' = (view st h)(name \<mapsto> x)" using view by simp
    then show ?thesis by (rule ports_apart_update [OF apart]) (use m Some in blast)
  next
    case None
    then have sub: "view st h other = Some x" if "view st h' other = Some x" for other x
      using that fun_cong [OF view, of other] by (simp split: if_splits)
    then show ?thesis using apart unfolding ports_apart_def by blast
  qed
  ultimately show ?thesis by (simp add: store_ok_def)
qed

lemma store_ok_kept_below:
  assumes ok: "store_ok st h" and kept: "kept_below (length (instances_root st)) h h'"
  shows "view st h' = view st h" "store_ok st h'"
proof -
  have deep: "node_at h' (idir st name) = node_at h (idir st name)"
    "node_at h' (idir st name @ CHR ''/'' # q) = node_at h (idir st name @ CHR ''/'' # q)" for name q
    using kept by (auto simp: kept_below_def)
  show view: "view st h' = view st h" by (rule ext) (simp only: view_def deep)
  have tree: "store_tree st h" and apart: "ports_apart st h" using ok by (simp_all add: store_ok_def)
  have "wf_host h'" using kept tree by (simp add: kept_below_def store_tree_def)
  then have "store_tree st h'"
  proof (rule store_tree_step [OF tree])
    fix name x assume "view st h' name = Some x"
    then show "is_name (im_spec x) = name" using tree by (auto simp: view store_tree_def)
  next
    fix name assume n: "valid_label 63 name" "node_at h' (idir st name) \<noteq> None"
    then obtain mode where "node_at h (instances_root st) = Some (Directory mode)"
      using tree unfolding deep store_tree_def by blast
    with kept show "\<exists>mode. node_at h' (instances_root st) = Some (Directory mode)"
      unfolding kept_below_def by (metis is_dir.simps(1) is_dir_iff)
  next
    fix name q
    assume "valid_label 63 name" "node_at h' (idir st name) = None" "q \<noteq> []" "CHR ''/'' \<notin> set q"
    then show "node_at h' (idir st name @ CHR ''/'' # q) = None" using tree unfolding deep store_tree_def by blast
  qed
  then show "store_ok st h'" using apart by (simp add: store_ok_def ports_apart_def view)
qed

definition created :: "'w host_os \<Rightarrow> StateStore \<Rightarrow> InstanceManifest \<Rightarrow> 'w host \<Rightarrow> LswError + string \<Rightarrow> 'w host \<Rightarrow> bool" where
  "created os st m h r h' \<longleftrightarrow> store_ok st h' \<and>
     (let name = is_name (im_spec m) in
      case r of
        Inr d \<Rightarrow> d = idir st name \<and> view st h name = None \<and> view st h' = (view st h)(name \<mapsto> m)
          \<and> token_node os (node_at h' (token_path st name))
      | Inl _ \<Rightarrow> view st h' = view st h \<or> view st h name = None \<and> view st h' = (view st h)(name \<mapsto> m))"

lemma created_populated:
  assumes ok: "store_ok st h" and enc: "manifest_encode m = Inr s" "storable m"
    and dir: "node_at h (idir st (is_name (im_spec m))) = Some (Directory mode)"
    and free: "children_free st (is_name (im_spec m)) h"
    and ports: "\<forall>name n. view st h name = Some n \<longrightarrow> set (manifest_ports m) \<inter> set (manifest_ports n) = {}"
    and pop: "populated os st (is_name (im_spec m)) s h r h'"
  shows "created os st m h r h'"
proof -
  let ?name = "is_name (im_spec m)"
  note e = storable_encoded [OF enc(2,1)]
  have none: "view st h ?name = None"
    using free by (cases "view st h ?name") (auto simp: view_Some children_free_def MANIFEST_FILE_def)
  have same: "\<forall>p. \<not> inside st ?name p \<longrightarrow> node_at h' p = node_at h p" and wf: "wf_host h'"
    using pop by (simp_all add: populated_def)
  note view = view_inside [OF e(3) same]
  have root: "\<exists>mode. node_at h (instances_root st) = Some (Directory mode)"
    using ok e(3) dir by (auto simp: store_ok_def store_tree_def)
  have at: "view st h' ?name = None \<or> view st h' ?name = Some m"
    "\<And>d. r = Inr d \<Longrightarrow> view st h' ?name = Some m"
    using pop dir e by (auto simp: populated_def view_def split: sum.splits)
  have "store_ok st h'"
    using root pop at(1) ports by (intro store_ok_inside [OF ok e(3) wf same]) (auto simp: populated_def dir split: sum.splits)
  moreover have "view st h' = view st h" if "view st h' ?name = None"
    using view none that by (simp add: fun_upd_idem)
  moreover have "view st h' = (view st h)(?name \<mapsto> m)" if "view st h' ?name = Some m"
    using view that by simp
  ultimately show ?thesis
    using at none pop by (cases r) (auto simp: created_def Let_def populated_def)
qed

lemma reserve_outcome: "post (reserve_host_ports os m) (\<lambda>_ h'. unchanged h h') h"
  unfolding reserve_host_ports_def reserve_port_def
  by (rule post_for) (auto simp: wp leaves_def intro!: post_os_try)

text \<open>The new directory of an instance, before it has any files.\<close>

lemma store_ok_new_dir:
  assumes ok: "store_ok st h" and name: "valid_label 63 name" and none: "node_at h (idir st name) = None"
    and root: "node_at h (instances_root st) = Some (Directory mode)"
    and h': "leaves h ((node_at h)(idir st name \<mapsto> Directory mode')) h'"
  shows "store_ok st h'" "view st h' = view st h" "children_free st name h'"
    "node_at h' (idir st name) = Some (Directory mode')"
proof -
  have tree: "store_tree st h" using ok by (simp add: store_ok_def)
  have wf: "wf_host h'" using h' tree by (simp add: leaves_def store_tree_def)
  have same: "\<forall>p. \<not> inside st name p \<longrightarrow> node_at h' p = node_at h p"
    using h' by (auto simp: leaves_def inside_def)
  show free: "children_free st name h'"
    using h' none tree name unfolding leaves_def children_free_def store_tree_def by auto
  then have "view st h' name = None" "view st h name = None"
    using none by (auto simp: view_def children_free_def MANIFEST_FILE_def dest: spec [of _ MANIFEST_FILE])
  then show "view st h' = view st h" using view_inside [OF name same] by (simp add: fun_upd_idem)
  show "store_ok st h'"
    using \<open>view st h' name = None\<close> root free by (intro store_ok_inside [OF ok name wf same]) auto
  show "node_at h' (idir st name) = Some (Directory mode')" using h' by (simp add: leaves_def)
qed

lemma created_error: "store_ok st h' \<Longrightarrow> view st h' = view st h \<Longrightarrow> created os st m h (Inl e) h'"
  by (simp add: created_def Let_def)

lemma created_same_map: "created os st m h r h' \<Longrightarrow> view st h = view st g \<Longrightarrow> created os st m g r h'"
  by (cases r) (simp_all add: created_def Let_def)

lemma create_dir_outcome:
  assumes ok: "store_ok st h" and enc: "manifest_encode m = Inr s" "storable m"
    and root: "node_at h (instances_root st) = Some (Directory mode)"
    and ports: "\<forall>name n. view st h name = Some n \<longrightarrow> set (manifest_ports m) \<inter> set (manifest_ports n) = {}"
  shows "post (io_bind (create_instance_dir os (idir st (is_name (im_spec m)))) (\<lambda>_.
     io_bind (set_private_directory_permissions os (idir st (is_name (im_spec m)))) (\<lambda>_.
     populate_instance os (idir st (is_name (im_spec m))) s))) (created os st m h) h"
proof -
  let ?name = "is_name (im_spec m)"
  note name = storable_encoded(3) [OF enc(2,1)]
  have unchanged: "created os st m h (Inl e) h1" if "unchanged h h1" for e h1
    using that by (intro created_error store_ok_unchanged [OF ok] view_unchanged)
  have "post (set_permissions os (idir st ?name) 448) (\<lambda>r. on_ok (\<lambda>_. post (populate_instance os (idir st ?name) s)
      (created os st m h)) (created os st m h) (map_error LswIo r)) h1"
    if none: "node_at h (idir st ?name) = None" and h1: "leaves h ((node_at h)(idir st ?name \<mapsto> Directory md)) h1" for h1 md
  proof -
    note new = store_ok_new_dir [OF ok name none root h1]
    have wf: "wf_host h1" using new(1) by (simp add: store_ok_def store_tree_def)
    have "post (populate_instance os (idir st ?name) s) (created os st m h) h2"
      if h2: "leaves h1 ((node_at h1)(idir st ?name \<mapsto> set_mode 448 n)) h2" "node_at h1 (idir st ?name) = Some n" for h2 n
    proof -
      have n: "set_mode 448 n = Directory 448" using that(2) new(4) by (auto simp: set_mode_def)
      have "leaves h ((node_at h)(idir st ?name \<mapsto> Directory 448)) h2"
        using h1 h2 n by (simp add: leaves_def)
      note new2 = store_ok_new_dir [OF ok name none root this]
      have "wf_host h2" using new2(1) by (simp add: store_ok_def store_tree_def)
      from populate_outcome [OF name this new2(3)] show ?thesis
        by (rule post_mono) (rule created_same_map [OF created_populated [OF new2(1) enc new2(4,3)] new2(2)],
          simp_all add: new2(2) ports)
    qed
    then show ?thesis
      using new(1,2) by (intro post_set_permissions)
        (auto intro!: created_error store_ok_unchanged [OF new(1)] simp: view_unchanged)
  qed
  then show ?thesis
    unfolding create_instance_dir_def set_private_directory_permissions_def
    using unchanged by (auto simp: wp intro!: post_create_dir)
qed

lemma create_outcome:
  assumes "honest os" and ok: "store_ok st h" and "storable m"
  shows "post (create_instance os st m) (created os st m h) h"
proof (cases "manifest_encode m")
  case (Inl e)
  then show ?thesis using ok by (simp add: create_instance_def wp created_error)
next
  case (Inr s)
  let ?name = "is_name (im_spec m)" and ?n = "length (instances_root st)"
  note name = storable_encoded(3) [OF assms(3) Inr]
  let ?rest = "io_bind (create_instance_dir os (idir st ?name)) (\<lambda>_.
     io_bind (set_private_directory_permissions os (idir st ?name)) (\<lambda>_.
     populate_instance os (idir st ?name) s))"
  have ports: "post (io_bind (ensure_host_ports_available os st m None) (\<lambda>_.
      io_bind (reserve_host_ports os m) (\<lambda>_. ?rest))) (created os st m h) h2"
    if h2: "store_ok st h2" "view st h2 = view st h" "node_at h2 (instances_root st) = Some (Directory mode)" for h2 mode
  proof (subst post_bind, rule post_mono [OF ports_available_outcome [OF assms(1)]])
    show "store_tree st h2" using h2(1) by (simp add: store_ok_def)
    fix r :: "LswError + unit" and h3 :: "'a host"
    assume r: "unchanged h2 h3 \<and> (r = Inr () \<longrightarrow> (\<forall>name n. view st h2 name = Some n \<longrightarrow> None = Some name \<or>
       set (manifest_ports m) \<inter> set (manifest_ports n) = {}))"
    have still: "store_ok st h4 \<and> view st h4 = view st h \<and> node_at h4 = node_at h2" if "unchanged h3 h4" for h4
    proof -
      have "unchanged h2 h4" using r that by (blast intro: unchanged_trans)
      then show ?thesis using h2 store_ok_unchanged view_unchanged by (metis leaves_def)
    qed
    show "on_ok (\<lambda>_. post (io_bind (reserve_host_ports os m) (\<lambda>_. ?rest)) (created os st m h)) (created os st m h) r h3"
    proof (cases r)
      case (Inl e)
      have "unchanged h3 h3" by (simp add: leaves_def)
      with still have "created os st m h (Inl e) h3" by (intro created_error) blast+
      with Inl show ?thesis by simp
    next
      case r': (Inr u)
      have free: "\<forall>name n. view st h name = Some n \<longrightarrow> set (manifest_ports m) \<inter> set (manifest_ports n) = {}"
        using r r' h2(2) by simp
      have "on_ok (\<lambda>_. post ?rest (created os st m h)) (created os st m h) r'' h4" if h4: "unchanged h3 h4"
        for r'' :: "LswError + unit" and h4
      proof (cases r'')
        case (Inl e)
        with still [OF h4] show ?thesis by (simp add: created_error)
      next
        case (Inr v)
        have "post ?rest (created os st m h4) h4"
          using still [OF h4] h2(3) free by (intro create_dir_outcome [OF _ \<open>manifest_encode m = Inr s\<close> assms(3)]) auto
        then have "post ?rest (created os st m h) h4"
          by (rule post_mono) (rule created_same_map, assumption, use still [OF h4] in simp)
        with Inr show ?thesis by simp
      qed
      then have "post (io_bind (reserve_host_ports os m) (\<lambda>_. ?rest)) (created os st m h) h3"
        by (subst post_bind) (rule post_mono [OF reserve_outcome])
      with r' show ?thesis by simp
    qed
  qed
  have init: "post (io_bind (initialize os st) (\<lambda>_. io_bind (ensure_host_ports_available os st m None) (\<lambda>_.
      io_bind (reserve_host_ports os m) (\<lambda>_. ?rest)))) (created os st m h) h1" if h1: "unchanged h h1" for h1
  proof (subst post_bind, rule post_mono [OF initialize_outcome])
    fix r :: "LswError + unit" and h2 :: "'a host"
    assume r: "kept_below ?n h1 h2 \<and> (r = Inr () \<longrightarrow> (\<exists>mode. node_at h2 (instances_root st) = Some (Directory mode)))"
    note kept = store_ok_kept_below [OF store_ok_unchanged [OF ok h1] conjunct1 [OF r]] view_unchanged [OF h1, of st]
    show "on_ok (\<lambda>_. post (io_bind (ensure_host_ports_available os st m None) (\<lambda>_.
      io_bind (reserve_host_ports os m) (\<lambda>_. ?rest))) (created os st m h)) (created os st m h) r h2"
      using r kept ports by (cases r) (auto intro!: created_error)
  qed
  show ?thesis
    unfolding create_instance_def Inr
    using init view_unchanged store_ok_unchanged [OF ok]
    by (auto simp: post_simps post_bind [of "io_of _"] post_bind [of "path_exists _ _"] instance_dir_valid [OF name]
        intro!: post_path_exists created_error)
qed


section \<open>Removing an instance and naming the default\<close>

abbreviation default_path :: "StateStore \<Rightarrow> string" where
  "default_path st \<equiv> path_join st DEFAULT_INSTANCE_FILE"

text \<open>Paths that are neither the directory of instances nor below it.\<close>

definition elsewhere :: "StateStore \<Rightarrow> 'w host \<Rightarrow> 'w host \<Rightarrow> bool" where
  "elsewhere st h h' \<longleftrightarrow> (wf_host h \<longrightarrow> wf_host h') \<and>
     (\<forall>x. node_at h' (instances_root st @ x) = node_at h (instances_root st @ x))"

lemma store_ok_elsewhere:
  assumes ok: "store_ok st h" and e: "elsewhere st h h'"
  shows "store_ok st h'" "view st h' = view st h"
proof -
  have same: "node_at h' (instances_root st @ x) = node_at h (instances_root st @ x)" for x
    using e by (simp add: elsewhere_def)
  have dirs: "node_at h' (idir st n) = node_at h (idir st n)"
    "node_at h' (idir st n @ CHR ''/'' # q) = node_at h (idir st n @ CHR ''/'' # q)" for n q
    using same [of "CHR ''/'' # n"] same [of "CHR ''/'' # n @ CHR ''/'' # q"] by simp_all
  show view: "view st h' = view st h" by (rule ext) (simp only: view_def dirs)
  have "node_at h' (instances_root st) = node_at h (instances_root st)" using same [of "[]"] by simp
  with ok e show "store_ok st h'"
    by (simp only: store_ok_def store_tree_def ports_apart_def view dirs) (simp add: elsewhere_def)
qed

lemma default_path_elsewhere:
  "default_path st \<noteq> instances_root st @ x" "instances_root st @ x \<noteq> default_path st"
  "instances_root st @ x \<noteq> default_path st @ y"
  by (auto simp: instances_root_def path_join_def path_is_absolute_def DEFAULT_INSTANCE_FILE_def)

lemma elsewhere_leaves:
  assumes "leaves h ns h'" and "\<And>x. ns (instances_root st @ x) = node_at h (instances_root st @ x)"
  shows "elsewhere st h h'"
  using assms by (simp add: elsewhere_def leaves_def)

lemma elsewhere_unchanged: "unchanged h h' \<Longrightarrow> elsewhere st h h'"
  by (simp add: elsewhere_def leaves_def)

lemma elsewhere_trans: "elsewhere st h h' \<Longrightarrow> elsewhere st h' h'' \<Longrightarrow> elsewhere st h h''"
  by (simp add: elsewhere_def)

interpretation outside: step_order "elsewhere st" for st
  by unfold_locales (simp add: elsewhere_def, erule elsewhere_trans)

lemma map_of_remove_below:
  "distinct (map fst ns) \<Longrightarrow> map_of (remove_below n p ns) k = map_of ns k
     \<or> below p k \<and> k \<noteq> p \<and> map_of (remove_below n p ns) k = None"
proof (induction n p ns rule: remove_below.induct)
  case (2 n p a v ns)
  have "map_of (remove_below m p ns) k = None" if "map_of ns k = None" for m
    using that by (induction m p ns rule: remove_below.induct) (auto split: if_splits)
  with 2 show ?case by (auto simp: map_of_eq_None_iff)
qed simp

lemma distinct_remove_below: "distinct (map fst ns) \<Longrightarrow> distinct (map fst (remove_below n p ns))"
proof (induction n p ns rule: remove_below.induct)
  case (2 n p a v ns)
  have "set (remove_below m p ns) \<subseteq> set ns" for m
    by (induction m p ns rule: remove_below.induct) auto
  with 2 show ?case by force
qed simp

lemma below_idir:
  assumes "valid_label 63 name"
  shows "below (idir st name) p \<longleftrightarrow> inside st name p"
proof -
  have "path_join (idir st name) [] = idir st name @ ''/''"
    using valid_label_plain [OF assms] by (simp add: path_join_def path_is_absolute_def)
  moreover have "strip_prefix p (a @ ''/'') \<noteq> None \<longleftrightarrow> (\<exists>q. p = a @ CHR ''/'' # q)" for a :: string
    by (auto simp: strip_prefix_def) (metis append_assoc append_Cons append_Nil append_take_drop_id)
  ultimately show ?thesis unfolding below_def inside_def by metis
qed

lemma post_remove_instance_all:
  assumes name: "valid_label 63 name" and wf: "wf_host h"
    and err: "\<And>e h'. wf_host h' \<Longrightarrow> \<forall>p. \<not> inside st name p \<longrightarrow> node_at h' p = node_at h p \<Longrightarrow>
      node_at h' (idir st name) = node_at h (idir st name) \<Longrightarrow>
      node_at h' (manifest_path st name) \<in> {node_at h (manifest_path st name), None} \<Longrightarrow> Q (Inl e) h'"
    and good: "\<And>h'. wf_host h' \<Longrightarrow> \<forall>p. \<not> inside st name p \<longrightarrow> node_at h' p = node_at h p \<Longrightarrow>
      \<forall>p. inside st name p \<longrightarrow> node_at h' p = None \<Longrightarrow> Q (Inr ()) h'"
  shows "post (remove_dir_all os (idir st name)) Q h"
proof -
  let ?d = "idir st name"
  have dist: "distinct (map fst (h_nodes h))" using wf by (simp add: wf_host_def)
  have part: "map_of (remove_below n ?d (h_nodes h)) k = map_of (h_nodes h) k
      \<or> inside st name k \<and> k \<noteq> ?d \<and> map_of (remove_below n ?d (h_nodes h)) k = None" for n k
    using map_of_remove_below [OF dist] below_idir [OF name] by blast
  have partial: "Q (Inl e) \<lparr>h_nodes = remove_below n ?d (h_nodes h), h_rest = w\<rparr>" for e n w
  proof (rule err)
    show "wf_host \<lparr>h_nodes = remove_below n ?d (h_nodes h), h_rest = w\<rparr>"
      using distinct_remove_below [OF dist] by (simp add: wf_host_def)
  qed (use part [of n] in \<open>auto simp only: node_at_def host.simps insert_iff empty_iff\<close>)
  have "map_of (filter (\<lambda>(k, _). \<not> below ?d k) ns) p = (if inside st name p then None else map_of ns p)"
    for p and ns :: node_list
    by (induction ns) (auto simp: below_idir [OF name])
  then have kept: "map_of (filter (\<lambda>(k, _). \<not> below ?d k) (h_nodes h)) p = (if inside st name p then None else node_at h p)"
    for p by (simp add: node_at_def)
  have full: "Q (Inr ()) \<lparr>h_nodes = filter (\<lambda>(k, _). \<not> below ?d k) (h_nodes h), h_rest = w\<rparr>" for w
    using dist kept by (intro good) (auto simp: wf_host_def node_at_def distinct_map_filter)
  have missing: "Q (Inl e) (h\<lparr>h_rest := w\<rparr>)" for e w
    using wf by (intro err) (auto simp: wf_host_def node_at_def)
  show ?thesis
    using partial full missing
    by (cases "ho_fault os (FsRemoveDirAll ?d) (h_rest h)"; cases "fst (ho_fault os (FsRemoveDirAll ?d) (h_rest h))")
      (auto simp: post_def remove_dir_all_def split: option.splits)
qed

text \<open>What a removal leaves: the map without the instance, or the old map.\<close>

definition removed :: "StateStore \<Rightarrow> string \<Rightarrow> 'w host \<Rightarrow> LswError + unit \<Rightarrow> 'w host \<Rightarrow> bool" where
  "removed st name h r h' \<longleftrightarrow> store_ok st h' \<and>
     (case r of Inr _ \<Rightarrow> view st h' = (view st h)(name := None)
      | Inl _ \<Rightarrow> view st h' = view st h \<or> view st h' = (view st h)(name := None)) \<and>
     (\<forall>m. view st h name = Some m \<and> im_state m \<in> active_states \<longrightarrow> \<not> is_ok r \<and> node_at h' = node_at h)"

lemma default_is_outcome: "post (default_is os st name) (\<lambda>r h'. unchanged h h') h"
  unfolding default_is_def Let_def by (auto simp: wp leaves_def intro!: fs_post)

lemma clear_default_outcome:
  "post (io_bind (default_is os st name) (\<lambda>is_default.
     if is_default then io_lsw (unlink_file os (default_path st)) else io_return ())) (\<lambda>r h'. elsewhere st h h') h"
proof (subst post_bind, rule post_mono [OF default_is_outcome])
  fix r :: "LswError + bool" and h1 :: "'a host"
  assume h1: "unchanged h h1"
  have gone: "elsewhere st h h2" if "leaves h1 ((node_at h1)(default_path st := None)) h2" for h2
    using h1 that by (auto simp: elsewhere_def leaves_def default_path_elsewhere)
  have same: "elsewhere st h h2" if "unchanged h1 h2" for h2
    using h1 that by (auto simp: elsewhere_def leaves_def)
  show "on_ok (\<lambda>x. post (if x then io_lsw (unlink_file os (default_path st)) else io_return ())
      (\<lambda>r h'. elsewhere st h h')) (\<lambda>r h'. elsewhere st h h') r h1"
    using elsewhere_unchanged [OF h1] gone same by (cases r) (auto simp: wp intro!: post_unlink_file)
qed

text \<open>A change inside the directory of an instance that only takes something away.\<close>

lemma store_ok_reduced:
  assumes ok: "store_ok st h" and name: "valid_label 63 name" and wf: "wf_host h'"
    and same: "\<forall>p. \<not> inside st name p \<longrightarrow> node_at h' p = node_at h p"
    and dir: "node_at h' (idir st name) \<noteq> None \<Longrightarrow> node_at h (idir st name) \<noteq> None"
    and closed: "node_at h' (idir st name) = None \<Longrightarrow> children_free st name h'"
    and v: "view st h' name = None \<or> view st h' name = view st h name"
  shows "store_ok st h'" "view st h' = (view st h)(name := view st h' name)"
proof -
  have tree: "store_tree st h" and apart: "ports_apart st h" using ok by (simp_all add: store_ok_def)
  show "view st h' = (view st h)(name := view st h' name)" by (rule view_inside [OF name same])
  show "store_ok st h'"
  proof (rule store_ok_inside [OF ok name wf same _ closed])
    assume "node_at h' (idir st name) \<noteq> None"
    with dir tree name show "\<exists>mode. node_at h (instances_root st) = Some (Directory mode)"
      unfolding store_tree_def by blast
  next
    fix m assume "view st h' name = Some m"
    with v have m: "view st h name = Some m" by simp
    with tree apart show "is_name (im_spec m) = name \<and> (\<forall>other n. view st h other = Some n \<longrightarrow> other \<noteq> name \<longrightarrow>
        set (manifest_ports m) \<inter> set (manifest_ports n) = {})"
      unfolding store_tree_def ports_apart_def by metis
  qed
qed

lemma delete_outcome:
  assumes ok: "store_ok st h" and m: "view st h name = Some m" "im_state m \<notin> active_states"
  shows "post (delete_instance os st name (idir st name)) (removed st name h) h"
proof -
  have name: "valid_label 63 name" and dir: "node_at h (idir st name) \<noteq> None" using m(1) by (auto simp: view_Some)
  have wf: "wf_host h" using ok by (simp add: store_ok_def store_tree_def)
  have err: "removed st name h (Inl e) h2"
    if h2: "wf_host h2" "\<forall>p. \<not> inside st name p \<longrightarrow> node_at h2 p = node_at h p"
      "node_at h2 (idir st name) = node_at h (idir st name)"
      "node_at h2 (manifest_path st name) \<in> {node_at h (manifest_path st name), None}" for e h2
  proof -
    have v: "view st h2 name = None \<or> view st h2 name = view st h name"
      using h2(3,4) name by (cases "node_at h (idir st name)") (auto simp: view_def)
    have "store_ok st h2" "view st h2 = (view st h)(name := view st h2 name)"
      using h2(3) dir by (auto intro!: store_ok_reduced [OF ok name h2(1,2) _ _ v])
    with v m show ?thesis by (auto simp: removed_def)
  qed
  have good: "removed st name h r h3"
    if h2: "wf_host h2" "\<forall>p. \<not> inside st name p \<longrightarrow> node_at h2 p = node_at h p"
      "\<forall>p. inside st name p \<longrightarrow> node_at h2 p = None" and h3: "elsewhere st h2 h3" for r h2 h3
  proof -
    have none: "view st h2 name = None" using h2(3) name by (simp add: view_def)
    have "store_ok st h2" "view st h2 = (view st h)(name := view st h2 name)"
      using h2(3) by (auto intro!: store_ok_reduced [OF ok name h2(1,2) _ _ disjI1 [OF none]] simp: children_free_def
          inside_paths [simplified])
    with store_ok_elsewhere [OF _ h3] m none show ?thesis by (cases r) (auto simp: removed_def)
  qed
  show ?thesis
    unfolding delete_instance_def
  proof (subst post_bind, subst post_map_error, rule post_remove_instance_all [OF name wf])
    fix h2 :: "'a host"
    assume h2: "wf_host h2" "\<forall>p. \<not> inside st name p \<longrightarrow> node_at h2 p = node_at h p"
      "\<forall>p. inside st name p \<longrightarrow> node_at h2 p = None"
    show "on_ok (\<lambda>_. post (io_bind (default_is os st name) (\<lambda>is_default.
      if is_default then io_lsw (unlink_file os (default_path st)) else io_return ())) (removed st name h))
      (removed st name h) (map_error LswIo (Inr ())) h2"
      using good [OF h2] by (auto intro: post_mono [OF clear_default_outcome])
  qed (use err in simp)
qed

lemma removed_same: "removed st name h r h' \<Longrightarrow> unchanged g h \<Longrightarrow> removed st name g r h'"
  using view_unchanged [of g h st] by (cases r) (auto simp: removed_def leaves_def)

lemma remove_outcome:
  assumes ok: "store_ok st h"
  shows "post (remove_instance os st name) (removed st name h) h"
proof (cases "valid_label 63 name")
  case False
  then have "view st h name = None" by (simp add: view_def)
  with False ok show ?thesis by (simp add: remove_instance_def wp instance_dir_invalid removed_def)
next
  case name: True
  have keep: "removed st name h (Inl e) h1" if "unchanged h h1" for e h1
    using store_ok_unchanged [OF ok that] view_unchanged [OF that] that by (simp add: removed_def leaves_def)
  let ?rest = "\<lambda>m. if im_state m \<in> active_states then io_fail (still_active name m)
     else delete_instance os st name (idir st name)"
  have "post (io_bind (load os st name) ?rest) (removed st name h) h1" if h1: "unchanged h h1" for h1
  proof (subst post_bind, rule post_mono [OF load_outcome])
    fix r :: "LswError + InstanceManifest" and h2 :: "'a host"
    assume r: "unchanged h1 h2 \<and> (\<forall>m. r = Inr m \<longrightarrow> view st h1 name = Some m)"
    then have h2: "unchanged h h2" using h1 by (blast intro: unchanged_trans)
    show "on_ok (\<lambda>m. post (?rest m) (removed st name h)) (removed st name h) r h2"
    proof (cases r)
      case (Inr m)
      have "post (delete_instance os st name (idir st name)) (removed st name h) h2" if "im_state m \<notin> active_states"
        using delete_outcome [OF store_ok_unchanged [OF ok h2] _ that, of name] r Inr view_unchanged [of h1 h2 st]
        by (auto intro: post_mono removed_same [OF _ h2])
      with Inr keep [OF h2] show ?thesis by (simp add: post_simps)
    qed (use keep [OF h2] in simp)
  qed
  then show ?thesis
    unfolding remove_instance_def
    using keep name by (auto simp: post_bind [of "io_of _"] post_bind [of "is_real_directory _ _"] post_simps
        instance_dir_valid intro!: is_real_directory_outcome)
qed

lemma temporary_default_path: "temporary_path os (default_path st) n
    = default_path st @ ''.tmp-'' @ decimal (ho_pid os) @ ''-'' @ decimal n"
proof -
  have "takeWhile (\<lambda>c. c \<noteq> CHR ''/'') (rev (default_path st)) = rev DEFAULT_INSTANCE_FILE"
  proof (cases "st = [] \<or> last st = CHR ''/''")
    case True
    then have "default_path st = st @ DEFAULT_INSTANCE_FILE"
      by (simp add: path_join_def path_is_absolute_def DEFAULT_INSTANCE_FILE_def)
    moreover have "takeWhile (\<lambda>c. c \<noteq> CHR ''/'') (rev st) = []"
      using True by (cases st rule: rev_cases) auto
    ultimately show ?thesis by (simp add: DEFAULT_INSTANCE_FILE_def)
  next
    case False
    then show ?thesis by (simp add: path_join_def path_is_absolute_def DEFAULT_INSTANCE_FILE_def)
  qed
  moreover have "length DEFAULT_INSTANCE_FILE \<le> length (default_path st)"
    "drop (length (default_path st) - length DEFAULT_INSTANCE_FILE) (default_path st) = DEFAULT_INSTANCE_FILE"
    by (auto simp: path_join_def path_is_absolute_def DEFAULT_INSTANCE_FILE_def)
  ultimately show ?thesis
    using append_take_drop_id [of "length (default_path st) - length DEFAULT_INSTANCE_FILE" "default_path st"]
    by (auto simp: temporary_path_def with_extension_def Let_def DEFAULT_INSTANCE_FILE_def)
qed

end
