(* ===== verification/Store_Access.thy ===== *)
theory Store_Access
  imports Store_View
begin

text \<open>
  What reads of the store give back: the default instance that was set, the token that was created,
  and the properties of every sequence of operations on the store.
\<close>

section \<open>Trimming\<close>

text \<open>ASCII text whose first and last characters are visible.\<close>

definition solid :: "string \<Rightarrow> bool" where
  "solid s \<longleftrightarrow> s \<noteq> [] \<and> (\<forall>c \<in> set s. char_code c < 0x80)
     \<and> \<not> char_is_whitespace (char_code (hd s)) \<and> \<not> char_is_whitespace (char_code (last s))"

lemma ascii_parts:
  assumes "\<forall>c \<in> set s. char_code c < 0x80"
  shows "char_boundary s n" "is_blank (drop n s) \<longleftrightarrow> (\<forall>c \<in> set (drop n s). char_is_whitespace (char_code c))"
    "is_blank (take n s) \<longleftrightarrow> (\<forall>c \<in> set (take n s). char_is_whitespace (char_code c))"
proof -
  have parts: "\<forall>c \<in> set (take n s). char_code c < 0x80" "\<forall>c \<in> set (drop n s). char_code c < 0x80"
    using assms set_take_subset [of n s] set_drop_subset [of n s] by blast+
  show "char_boundary s n" using parts by (simp add: char_boundary_def utf8_valid_ascii)
  show "is_blank (drop n s) \<longleftrightarrow> (\<forall>c \<in> set (drop n s). char_is_whitespace (char_code c))"
    "is_blank (take n s) \<longleftrightarrow> (\<forall>c \<in> set (take n s). char_is_whitespace (char_code c))"
    using parts by (simp_all add: is_blank_def str_chars_ascii list_all_iff)
qed

lemma trim_line:
  assumes "solid s"
  shows "trim (s @ [NL]) = s"
proof -
  let ?t = "s @ [NL]"
  have nl: "char_code NL < 0x80" "char_is_whitespace (char_code NL)"
    by (simp_all add: NL_def char_code_def char_is_whitespace_def)
  have ascii: "\<forall>c \<in> set s. char_code c < 0x80" "\<forall>c \<in> set ?t. char_code c < 0x80"
    using assms nl by (auto simp: solid_def)
  have tail: "is_blank (drop n ?t) \<longleftrightarrow> length s \<le> n" for n
  proof (cases "length s \<le> n")
    case True
    then show ?thesis unfolding ascii_parts(2) [OF ascii(2)] using nl by (auto dest: in_set_dropD)
  next
    case False
    then have "drop n s \<noteq> []" "last (drop n s) = last s" by simp_all
    then have "last s \<in> set (drop n ?t)" using last_in_set [of "drop n s"] by auto
    then show ?thesis unfolding ascii_parts(2) [OF ascii(2)] using assms False by (auto simp: solid_def)
  qed
  have "filter (\<lambda>n. char_boundary ?t n \<and> is_blank (drop n ?t)) [0..<Suc (length ?t)] = [length s, Suc (length s)]"
  proof -
    have "[0..<Suc (length ?t)] = [0..<length s] @ [length s, Suc (length s)]" by simp
    moreover have "filter (\<lambda>n. char_boundary ?t n \<and> is_blank (drop n ?t)) ns = filter (\<lambda>n. length s \<le> n) ns" for ns
      by (rule filter_cong [OF refl]) (simp only: ascii_parts(1) [OF ascii(2)] tail simp_thms)
    ultimately show ?thesis by simp
  qed
  then have "trim_end ?t = s" by (simp add: trim_end_def)
  have head: "is_blank (take n s) \<longleftrightarrow> n = 0" for n
  proof (cases n)
    case (Suc k)
    then have "hd s \<in> set (take n s)" using assms by (cases s) (auto simp: solid_def)
    then show ?thesis using assms Suc by (auto simp: ascii_parts(3) [OF ascii(1)] solid_def)
  qed (simp add: is_blank_def str_chars_ascii)
  have "filter (\<lambda>n. char_boundary s n \<and> is_blank (take n s)) [0..<Suc (length s)] = [0]"
    by (simp add: ascii_parts(1) [OF ascii(1)] head upt_rec [of 0])
  then have "trim_start s = s" by (simp add: trim_start_def)
  with \<open>trim_end ?t = s\<close> show ?thesis by (simp add: trim_def)
qed

lemma utf8_valid_line: "solid s \<Longrightarrow> utf8_valid (s @ [NL])"
  by (rule utf8_valid_ascii) (auto simp: solid_def NL_def char_code_def)

lemma valid_label_solid: "valid_label n s \<Longrightarrow> solid s"
  using valid_label_printable [of n s]
  by (auto simp: valid_label_def solid_def printable_def char_is_whitespace_def is_ascii_alphanumeric_def
      is_ascii_alphabetic_def is_ascii_lowercase_def is_ascii_uppercase_def is_ascii_digit_def)


section \<open>The default instance\<close>

lemma set_default_outcome:
  assumes ok: "store_ok st h"
  shows "post (set_default os st name) (\<lambda>r h'. store_ok st h' \<and> view st h' = view st h \<and>
    (r = Inr () \<longrightarrow> view st h name \<noteq> None \<and> node_at h' (default_path st) = Some (Regular 384 (name @ [NL])))) h"
    (is "post _ ?Q h")
proof -
  have written: "elsewhere st h1 h2" if w: "written_or_not os (default_path st) s h1 r h2" for s h1 h2 and r :: "LswError + unit"
  proof -
    obtain n where "\<forall>p. p \<noteq> default_path st \<and> p \<noteq> temporary_path os (default_path st) n \<longrightarrow> node_at h2 p = node_at h1 p"
      and "wf_host h1 \<longrightarrow> wf_host h2"
      using w unfolding written_or_not_def by blast
    then show ?thesis
      using default_path_elsewhere [of st] unfolding elsewhere_def temporary_default_path by metis
  qed
  have put: "post (write_atomic os (default_path st) (name @ [NL])) ?Q h2"
    if h2: "store_ok st h2" "view st h2 = view st h" and name: "view st h name \<noteq> None" for h2
  proof (rule post_mono [OF write_atomic_outcome])
    show "temporary_path os (default_path st) n \<noteq> default_path st" for n by (simp add: temporary_default_path)
    fix r :: "LswError + unit" and h3 :: "'a host"
    assume w: "written_or_not os (default_path st) (name @ [NL]) h2 r h3"
    have "r = Inr () \<longrightarrow> node_at h3 (default_path st) = Some (Regular 384 (name @ [NL]))"
      using w by (auto simp: written_or_not_def)
    with store_ok_elsewhere [OF h2(1) written [OF w]] h2(2) name show "?Q r h3" by simp
  qed
  have "post (io_bind (initialize os st) (\<lambda>_. write_atomic os (default_path st) (name @ [NL]))) ?Q h1"
    if h1: "store_ok st h1" "view st h1 = view st h" and name: "view st h name \<noteq> None" for h1
  proof (rule post_seq [OF initialize_outcome])
    fix h2 :: "'a host" and u
    assume "kept_below (length (instances_root st)) h1 h2 \<and>
      (Inr u = Inr () \<longrightarrow> (\<exists>mode. node_at h2 (instances_root st) = Some (Directory mode)))"
    with store_ok_kept_below [OF h1(1)] h1(2) name
    show "post (write_atomic os (default_path st) (name @ [NL])) ?Q h2" by (intro put) simp_all
  qed (use store_ok_kept_below [OF h1(1)] h1(2) in auto)
  then show ?thesis
    unfolding set_default_def
    using ok store_ok_unchanged [OF ok] view_unchanged [of h]
    by (auto simp: post_bind [of "io_of _"] post_simps on_ok_cases intro!: post_seq [OF load_outcome])
qed

lemma default_name_calm:
  assumes "calm os" and "node_at h (default_path st) = Some (Regular mode (name @ [NL]))"
    and "view st h name = Some m"
  shows "default_name os st h = Some (Inr (Some name), h)"
proof -
  have label: "valid_label 63 name" using assms(3) by (simp add: view_Some)
  have "solid name" by (rule valid_label_solid [OF label])
  then have str: "utf8_valid (name @ [NL])" "trim (name @ [NL]) = name"
    by (simp_all only: utf8_valid_line trim_line)
  have exists: "path_exists os (default_path st) h = Some (Inr True :: LswError + bool, h)"
    using assms(1,2) by (simp add: path_exists_def io_bind_def io_attempt_def io_return_def fs_run_calm node_at_def)
  have "load os st name h = Some (Inr m, h)" using load_calm [OF assms(1)] assms(3) by blast
  with exists str label show ?thesis
    by (simp add: default_name_def Let_def io_bind_def io_return_def io_of_def io_map_error_def is_regular_file_def
        node_check_def io_attempt_def read_to_string_def calm_reads [OF assms(1)] assms(2) validate_instance_name_def)
qed


section \<open>Tokens\<close>

lemma hex_digit_lower: "n < 16 \<Longrightarrow> is_ascii_hexdigit (hex_digit n) \<and> \<not> is_ascii_uppercase (hex_digit n)"
proof -
  have "\<forall>n \<in> {0..<16}. is_ascii_hexdigit (hex_digit n) \<and> \<not> is_ascii_uppercase (hex_digit n)" by code_simp
  then show "n < 16 \<Longrightarrow> is_ascii_hexdigit (hex_digit n) \<and> \<not> is_ascii_uppercase (hex_digit n)" by simp
qed

lemma hex_encode_token:
  "length (hex_encode bs) = 2 * length bs"
  "list_all (\<lambda>c. is_ascii_hexdigit c \<and> \<not> is_ascii_uppercase c) (hex_encode bs)"
proof -
  show "length (hex_encode bs) = 2 * length bs" by (induction bs) (simp_all add: hex_encode_def hex_byte_def)
  have "list_all (\<lambda>c. is_ascii_hexdigit c \<and> \<not> is_ascii_uppercase c) (hex_byte b)" for b
  proof -
    have "unat b < 256" using unsigned_less [of b] by simp
    then show ?thesis using hex_digit_lower by (simp add: hex_byte_def)
  qed
  then show "list_all (\<lambda>c. is_ascii_hexdigit c \<and> \<not> is_ascii_uppercase c) (hex_encode bs)"
    by (induction bs) (simp_all add: hex_encode_def)
qed

lemma hexdigits_solid:
  assumes "s \<noteq> []" and "list_all (\<lambda>c. is_ascii_hexdigit c \<and> \<not> is_ascii_uppercase c) s"
  shows "solid s"
proof -
  have "char_code c < 0x80 \<and> \<not> char_is_whitespace (char_code c)" if "is_ascii_hexdigit c" for c
    using that by (auto simp: is_ascii_hexdigit_def is_ascii_digit_def char_is_whitespace_def)
  then show ?thesis using assms hd_in_set last_in_set unfolding solid_def list_all_iff by blast
qed

lemma read_agent_token_calm:
  assumes "calm os" and "valid_label 63 name" and "node_at h (idir st name) = Some (Directory mode)"
    and "node_at h (token_path st name) = Some (Regular mode' (hex_encode bs @ [NL]))" and "length bs = 32"
  shows "read_agent_token os st name h = Some (Inr (hex_encode bs), h)"
proof -
  note token = hex_encode_token [of bs]
  have "solid (hex_encode bs)" using token assms(5) by (intro hexdigits_solid) auto
  then have str: "utf8_valid (hex_encode bs @ [NL])" "trim (hex_encode bs @ [NL]) = hex_encode bs"
    by (simp_all only: utf8_valid_line trim_line)
  show ?thesis
    using str token assms(2-5)
    by (simp add: read_agent_token_def Let_def io_bind_def io_return_def io_of_def io_map_error_def is_regular_file_def
        is_real_directory_def node_check_def io_attempt_def read_to_string_def calm_reads [OF assms(1)]
        instance_dir_valid instance_paths)
qed


section \<open>Every operation ends\<close>

lemma returns_store [returns_intro]:
  "returns (node_check test os p)" "returns (write_atomic os p s)" "returns (initialize os st)"
  "returns (list_instances os st)" "returns (load os st name)"
  unfolding node_check_def write_atomic_def set_private_file_permissions_def Let_def initialize_def
    ensure_private_directory_def is_real_directory_def set_private_directory_permissions_def list_instances_def
    list_without_root_def list_entries_def load_def is_regular_file_def list_entry_def
  by (auto intro!: returns_intro split: prod.splits)

lemma returns_operations [returns_intro]:
  "returns (create_instance os st m)" "returns (update_instance os st m)" "returns (remove_instance os st name)"
  "returns (set_default os st name)"
  unfolding create_instance_def update_instance_def remove_instance_def set_default_def populate_instance_def
    create_token_def generate_agent_token_def write_new_private_def set_private_file_permissions_def Let_def
    create_instance_dir_def set_private_directory_permissions_def reserve_host_ports_def reserve_port_def
    ensure_host_ports_available_def is_real_directory_def delete_instance_def default_is_def is_regular_file_def
  by (auto intro!: returns_intro split: prod.splits)


section \<open>Creations that fail at the token\<close>

text \<open>The system whose writes to one file all fail, and which is otherwise the same.\<close>

definition write_fails :: "'w host_os \<Rightarrow> string \<Rightarrow> io_error \<Rightarrow> 'w host_os" where
  "write_fails os p e = os\<lparr>ho_fault := (\<lambda>call w. if call = FsWrite p then (Some e, w) else ho_fault os call w)\<rparr>"

lemma write_fails_run:
  "fs_run (write_fails os p e) (FsMetadata q) f = fs_run os (FsMetadata q) f"
  "fs_run (write_fails os p e) (FsExists q) f = fs_run os (FsExists q) f"
  "fs_run (write_fails os p e) (FsRead q) f = fs_run os (FsRead q) f"
  "fs_run (write_fails os p e) (FsReadDir q) f = fs_run os (FsReadDir q) f"
  "fs_run (write_fails os p e) (FsReadEntry q) f = fs_run os (FsReadEntry q) f"
  "fs_run (write_fails os p e) (FsCreateDir q) f = fs_run os (FsCreateDir q) f"
  "fs_run (write_fails os p e) (FsOpen q) f = fs_run os (FsOpen q) f"
  "fs_run (write_fails os p e) (FsSync q) f = fs_run os (FsSync q) f"
  "fs_run (write_fails os p e) (FsPermissions q) f = fs_run os (FsPermissions q) f"
  "fs_run (write_fails os p e) (FsRename q q') f = fs_run os (FsRename q q') f"
  "fs_run (write_fails os p e) (FsRemoveFile q) f = fs_run os (FsRemoveFile q) f"
  "fs_run (write_fails os p e) (FsRemoveDir q) f = fs_run os (FsRemoveDir q) f"
  by (simp_all add: fs_run_def write_fails_def)

lemma write_fails_fields [simp]:
  "ho_link_exists (write_fails os p e) = ho_link_exists os" "ho_link_contents (write_fails os p e) = ho_link_contents os"
  "ho_dir_mode (write_fails os p e) = ho_dir_mode os" "ho_file_mode (write_fails os p e) = ho_file_mode os"
  "ho_nanos (write_fails os p e) = ho_nanos os" "ho_pid (write_fails os p e) = ho_pid os"
  "ho_random (write_fails os p e) = ho_random os" "ho_partial (write_fails os p e) = ho_partial os" "ho_bind_port (write_fails os p e) = ho_bind_port os"
  by (simp_all add: write_fails_def)

lemma write_fails_calls:
  "symlink_metadata (write_fails os p e) q = symlink_metadata os q"
  "path_exists (write_fails os p e) q = path_exists os q"
  "read_to_string (write_fails os p e) q = read_to_string os q"
  "read_dir (write_fails os p e) q = read_dir os q"
  "read_entry (write_fails os p e) q = read_entry os q"
  "create_dir (write_fails os p e) q = create_dir os q"
  "create_dir_all (write_fails os p e) q = create_dir_all os q"
  "set_permissions (write_fails os p e) q mode = set_permissions os q mode"
  "open_create_new (write_fails os p e) q = open_create_new os q"
  "sync_file (write_fails os p e) q = sync_file os q"
  "rename_path (write_fails os p e) q q' = rename_path os q q'"
  "unlink_file (write_fails os p e) q = unlink_file os q"
  "remove_dir (write_fails os p e) q = remove_dir os q"
  unfolding symlink_metadata_def path_exists_def read_to_string_def read_file_def read_dir_def read_entry_def
    create_dir_def create_dir_all_def set_permissions_def open_create_new_def sync_file_def rename_path_def
    unlink_file_def remove_dir_def write_fails_run write_fails_fields
  by (rule refl)+

lemma write_fails_other: "q \<noteq> p \<Longrightarrow> write_contents (write_fails os p e) q s = write_contents os q s"
  by (auto simp: write_contents_def write_fails_def fun_eq_iff split: prod.splits option.splits)

lemma write_fails_at:
  "write_contents (write_fails os p e) p s h
   = Some (Inl e, h\<lparr>h_nodes := append_node p (take (ho_partial os (h_rest h)) s) (h_nodes h)\<rparr>)"
  by (cases h) (simp add: write_contents_def write_fails_def)

lemma write_fails_store:
  "initialize (write_fails os p e) st = initialize os st"
  "ensure_host_ports_available (write_fails os p e) st m excluded = ensure_host_ports_available os st m excluded"
  "reserve_host_ports (write_fails os p e) m = reserve_host_ports os m"
  "create_instance_dir (write_fails os p e) q = create_instance_dir os q"
  "set_private_directory_permissions (write_fails os p e) q = set_private_directory_permissions os q"
  "generate_agent_token (write_fails os p e) = generate_agent_token os"
  unfolding initialize_def ensure_private_directory_def is_real_directory_def node_check_def
    set_private_directory_permissions_def ensure_host_ports_available_def list_instances_def list_without_root_def
    list_entries_def list_entry_def [abs_def] is_regular_file_def reserve_host_ports_def reserve_port_def [abs_def]
    create_instance_dir_def generate_agent_token_def write_fails_calls write_fails_fields Let_def
  by (rule refl)+

lemma write_fails_atomic:
  assumes "\<And>n. temporary_path os q n \<noteq> p"
  shows "write_atomic (write_fails os p e) q s = write_atomic os q s"
  unfolding write_atomic_def set_private_file_permissions_def write_fails_calls write_fails_fields Let_def
    temporary_path_def [symmetric] write_fails_other [OF assms]
  by (rule refl)

lemma create_reaches:
  assumes "create_instance os st m h = Some (Inr d, g)"
  obtains s k where "valid_label 63 (is_name (im_spec m))" "manifest_encode m = Inr s"
    "populate_instance os (idir st (is_name (im_spec m))) s k = Some (Inr d, g)"
    "\<And>p e. create_instance (write_fails os p e) st m h
       = populate_instance (write_fails os p e) (idir st (is_name (im_spec m))) s k"
proof -
  let ?name = "is_name (im_spec m)"
  from assms have name: "valid_label 63 ?name"
    by (auto simp: create_instance_def io_bind_def io_of_def instance_dir_def validate_instance_name_def
        split: sum.splits option.splits if_splits)
  obtain s k where s: "manifest_encode m = Inr s" and k: "io_bind (path_exists os (idir st ?name)) (\<lambda>exists.
     if exists then io_fail (InstanceAlreadyExists (idir st ?name))
     else
     io_bind (initialize os st) (\<lambda>_.
     io_bind (ensure_host_ports_available os st m None) (\<lambda>_.
     io_bind (reserve_host_ports os m) (\<lambda>_.
     io_bind (create_instance_dir os (idir st ?name)) (\<lambda>_.
     set_private_directory_permissions os (idir st ?name)))))) h = Some (Inr (), k)"
     "populate_instance os (idir st ?name) s k = Some (Inr d, g)"
    using assms by (auto simp: create_instance_def instance_dir_valid [OF name] io_bind_def io_of_def io_fail_def
        split: sum.splits option.splits if_splits prod.splits)
  have "create_instance (write_fails os p e) st m h = populate_instance (write_fails os p e) (idir st ?name) s k" for p e
    using k(1) s unfolding create_instance_def write_fails_store write_fails_calls
    by (auto simp: instance_dir_valid [OF name] io_bind_def io_of_def io_fail_def
        split: sum.splits option.splits if_splits prod.splits)
  with that name s k(2) show ?thesis by blast
qed

text \<open>The token's file is there when writing it fails, and nothing else differs from a creation that succeeds.\<close>

lemma token_write_fails:
  assumes "calm os" and "create_token os p h = Some (Inr (), g)"
  obtains k where "create_token (write_fails os p e) p h = Some (Inl (LswIo e), k)" "node_at k p \<noteq> None"
    "\<forall>q. q \<noteq> p \<longrightarrow> node_at k q = node_at g q" "wf_host g \<Longrightarrow> wf_host k"
proof -
  obtain bytes w where r: "ho_random os (h_rest h) = (Inr bytes, w)" "\<not> length bytes < 32"
    using assms(2) by (cases "ho_random os (h_rest h)"; cases "fst (ho_random os (h_rest h))")
      (auto simp: create_token_def generate_agent_token_def io_bind_def io_map_error_def os_try_def io_fail_def
        split: if_splits)
  then have free: "map_of (h_nodes h) p = None"
    using assms(2) by (auto simp: create_token_def generate_agent_token_def write_new_private_def io_bind_def io_map_error_def
        os_try_def io_return_def open_create_new_def fs_run_calm [OF assms(1)] split: option.splits)
  let ?ns = "AList.update p (Regular 384 []) (AList.update p (Regular (ho_file_mode os) []) (h_nodes h))"
  let ?token = "hex_encode (take 32 bytes)"
  have g: "h_nodes g = append_node p [NL] (append_node p ?token ?ns)"
    using assms(2) r free
    by (auto simp: create_token_def generate_agent_token_def write_new_private_def io_bind_def io_map_error_def os_try_def
        io_return_def open_create_new_def set_private_file_permissions_def set_permissions_def sync_file_def set_mode_def update_conv
        fs_run_calm [OF assms(1)] write_contents_def assms(1) [unfolded calm_def, rule_format])
  let ?k = "h\<lparr>h_rest := w, h_nodes := append_node p (take (ho_partial os w) ?token) ?ns\<rparr>"
  have "create_token (write_fails os p e) p h = Some (Inl (LswIo e), ?k)"
    using r free unfolding create_token_def write_new_private_def write_fails_store set_private_file_permissions_def write_fails_calls
    by (simp add: generate_agent_token_def io_bind_def io_map_error_def os_try_def io_return_def open_create_new_def
        set_permissions_def set_mode_def update_conv fs_run_calm [OF assms(1)] write_fails_at)
  then show thesis
    by (intro that [of ?k]) (auto simp: g node_at_def wf_host_def append_node_def update_conv update_keys split: option.splits)
qed

text \<open>
  A directory with a token and no manifest takes the name: no instance of that name can be created,
  because the directory exists, and none can be removed, because there is no manifest.
\<close>

lemma taken_name:
  assumes "calm os" and "valid_label 63 name" and "is_name (im_spec m) = name" and "manifest_encode m = Inr s"
    and "node_at h (idir st name) = Some (Directory mode)" and "node_at h (manifest_path st name) = None"
  shows "create_instance os st m h = Some (Inl (InstanceAlreadyExists (idir st name)), h)"
    and "remove_instance os st name h = Some (Inl (InstanceNotFound name), h)"
  using assms
  by (simp_all add: create_instance_def remove_instance_def load_def is_real_directory_def is_regular_file_def node_check_def
      path_exists_def io_bind_def io_of_def io_attempt_def io_return_def io_fail_def fs_run_calm calm_reads
      instance_dir_valid instance_paths Let_def flip: node_at_def)

lemma token_failure_keeps_directory:
  assumes "calm os" and name: "valid_label 63 name" and "populate_instance os (idir st name) s h = Some (Inr d, g)"
    and "wf_host g" and "node_at g (idir st name) = Some (Directory mode)"
    and "node_at g (manifest_path st name) = Some (Regular mode' s')"
  obtains k where "populate_instance (write_fails os (token_path st name) e) (idir st name) s h = Some (Inl (LswIo e), k)"
    "node_at k (idir st name) = Some (Directory mode)" "node_at k (manifest_path st name) = None"
proof -
  let ?d = "idir st name" and ?m = "manifest_path st name" and ?t = "token_path st name"
  have ne: "?t \<noteq> ?m" "?m \<noteq> ?d" "?t \<noteq> ?d" by (simp_all add: MANIFEST_FILE_def AGENT_TOKEN_FILE_def)
  obtain h1 where h1: "write_atomic os ?m s h = Some (Inr (), h1)" "create_token os ?t h1 = Some (Inr (), g)"
    using assms(3) by (auto simp: populate_instance_def io_bind_def io_attempt_def io_fail_def io_return_def
        instance_paths [OF name] Let_def split: option.splits prod.splits sum.splits)
  obtain k1 where k1: "create_token (write_fails os ?t e) ?t h1 = Some (Inl (LswIo e), k1)" "node_at k1 ?t \<noteq> None"
    "\<forall>q. q \<noteq> ?t \<longrightarrow> node_at k1 q = node_at g q" "wf_host k1"
    using token_write_fails [OF assms(1) h1(2)] assms(4) by metis
  have atomic: "write_atomic (write_fails os ?t e) ?m s = write_atomic os ?m s"
    by (rule write_fails_atomic, subst temporary_manifest_path [OF name]) (simp add: AGENT_TOKEN_FILE_def)
  let ?k = "k1\<lparr>h_nodes := AList.delete ?m (h_nodes k1)\<rparr>"
  have nodes: "node_at ?k = (node_at k1)(?m := None)" by (rule ext) (simp add: node_at_def delete_conv)
  have unlink: "unlink_file os ?m k1 = Some (Inr (), ?k)"
    using k1(3) ne assms(6) by (simp add: unlink_file_def fs_run_calm [OF assms(1)] flip: node_at_def)
  have "wf_host ?k" using k1(4) by (simp add: wf_host_def distinct_delete)
  moreover obtain n where "node_at ?k ?t = Some n" using k1(2) ne nodes by auto
  ultimately have "(AGENT_TOKEN_FILE, n) \<in> set (dir_entries (h_nodes ?k) ?d)"
    using valid_label_plain [OF name] by (subst dir_entries_in) (auto simp: AGENT_TOKEN_FILE_def)
  then have "dir_entries (h_nodes ?k) ?d \<noteq> []" by auto
  then have "remove_dir os ?d ?k = Some (Inl (OsError ''Directory not empty (os error 39)''), ?k)"
    using nodes k1(3) ne assms(5) by (simp add: remove_dir_def fs_run_calm [OF assms(1)] flip: node_at_def)
  with h1(1) k1(1) unlink have "populate_instance (write_fails os ?t e) ?d s h = Some (Inl (LswIo e), ?k)"
    unfolding populate_instance_def Let_def instance_paths [OF name] write_fails_calls atomic io_bind_def io_attempt_def
      io_ignore_def io_fail_def by simp
  with nodes k1(3) ne assms(5) show thesis by (intro that [of ?k]) simp_all
qed


section \<open>Concrete stores\<close>

text \<open>A system on which every call succeeds, and one on which the disk is full when the token is written.\<close>

definition sample_os :: "unit host_os" where
  "sample_os = \<lparr>ho_fault = (\<lambda>call w. (None, w)), ho_partial = (\<lambda>w. 0), ho_link_exists = (\<lambda>p w. False),
     ho_link_contents = (\<lambda>p w. Inl NotFound), ho_link_is_file = (\<lambda>p w. False), ho_link_is_dir = (\<lambda>p w. False),
     ho_canonical = (\<lambda>p w. Inr p), ho_owner = (\<lambda>p w. 1000), ho_file_mode = 420, ho_dir_mode = 493,
     ho_nanos = (\<lambda>w. (7, w)), ho_pid = 1,
     ho_random = (\<lambda>w. (Inr (replicate 32 (0xAB :: u8)), w)), ho_bind_port = (\<lambda>port w. (Inr (), w)),
     ho_command = (\<lambda>program arguments h. (Inr (Exited 0), h))\<rparr>"

definition full_disk_os :: "unit host_os" where
  "full_disk_os = sample_os\<lparr>ho_fault := (\<lambda>call w.
     (if call = FsWrite ''/s/instances/w/agent.token'' then Some (OsError ''No space left on device (os error 28)'') else None,
      w))\<rparr>"

definition empty_host :: "unit host" where
  "empty_host = \<lparr>h_nodes = [], h_rest = ()\<rparr>"

lemma sample_os_calm: "calm sample_os" "honest sample_os" "honest full_disk_os"
  by (auto simp: sample_os_def full_disk_os_def calm_def honest_def)

lemma empty_host_ok: "store_ok st empty_host"
  by (auto simp: store_ok_def store_tree_def ports_apart_def view_def node_at_def empty_host_def wf_host_def)

lemma sample_storable: "storable (sample_manifest [])" by code_simp

lemma sample_created:
  "case create_instance sample_os ''/s'' (sample_manifest []) empty_host of None \<Rightarrow> False | Some (r, h) \<Rightarrow> is_ok r"
  by code_simp

definition sample_host :: "unit host" where
  "sample_host = (case create_instance sample_os ''/s'' (sample_manifest []) empty_host of
     None \<Rightarrow> empty_host | Some (r, h) \<Rightarrow> h)"

lemma sample_host_created:
  obtains d where "create_instance sample_os ''/s'' (sample_manifest []) empty_host = Some (Inr d, sample_host)"
  using sample_created unfolding sample_host_def by (auto split: option.splits prod.splits simp: ok_iff)

lemma sample_host_ok: "store_ok ''/s'' sample_host" "view ''/s'' sample_host ''w'' = Some (sample_manifest [])"
proof -
  obtain d where "create_instance sample_os ''/s'' (sample_manifest []) empty_host = Some (Inr d, sample_host)"
    by (rule sample_host_created)
  with postD [OF create_outcome [OF sample_os_calm(2) empty_host_ok sample_storable]]
  have "created sample_os ''/s'' (sample_manifest []) empty_host (Inr d) sample_host" by blast
  then show "store_ok ''/s'' sample_host" "view ''/s'' sample_host ''w'' = Some (sample_manifest [])"
    by (simp_all add: created_def Let_def sample_manifest_def sample_spec_def)
qed


section \<open>Properties\<close>

text \<open>
  C24: an update of an instance to a manifest that can be read back (texts in UTF-8, the current version,
  the control port that belongs to the name and at most 64 shares) is atomic, whatever call of the operating
  system fails on the way: it always ends; if it reports success, the store holds the new manifest, which every later read
  returns; if it reports an error, the store holds what it held before.  In both cases all other
  instances are untouched and the store stays well-formed with no host port in use twice.  (A manifest with
  more shares is accepted as well, and then cannot be read any more.)
\<close>

theorem store_update_atomic:
  assumes "honest os" and "store_ok st h" and "storable m"
  shows "\<exists>r h'. update_instance os st m h = Some (r, h') \<and> store_ok st h' \<and>
    (case r of Inr _ \<Rightarrow> view st h' = (view st h)(is_name (im_spec m) \<mapsto> m) | Inl _ \<Rightarrow> view st h' = view st h)"
proof -
  obtain r h' where "update_instance os st m h = Some (r, h')" "map_updated st m h r h' \<and> store_ok st h'"
    using returns_post [OF returns_operations(2) update_outcome [OF assms]] by blast
  then show ?thesis by (cases r) (auto simp: map_updated_def)
qed

theorem store_update_atomic_witness:
  "\<exists>r h'. update_instance full_disk_os ''/s'' (sample_manifest [nth_share 0]) sample_host = Some (r, h') \<and> store_ok ''/s'' h'"
proof -
  have "storable (sample_manifest [nth_share 0])" by code_simp
  from store_update_atomic [OF sample_os_calm(3) sample_host_ok(1) this] show ?thesis by blast
qed

text \<open>
  C25: creating an instance from a manifest that can be read back succeeds only for a name that is not taken, and then adds exactly the
  new manifest to the store, with a token that only its owner can read and that is read back as
  64 lower-case hexadecimal digits.  If it fails, the store holds the same instances as before, or,
  when undoing failed as well, the complete new manifest; it stays well-formed in every case.
\<close>

theorem instance_created:
  assumes "honest os" and "store_ok st h" and "storable m"
  shows "\<exists>r h'. create_instance os st m h = Some (r, h') \<and> store_ok st h' \<and>
    (case r of
       Inr _ \<Rightarrow> view st h (is_name (im_spec m)) = None \<and> view st h' = (view st h)(is_name (im_spec m) \<mapsto> m)
         \<and> token_node os (node_at h' (token_path st (is_name (im_spec m))))
     | Inl _ \<Rightarrow> view st h' = view st h
         \<or> view st h (is_name (im_spec m)) = None \<and> view st h' = (view st h)(is_name (im_spec m) \<mapsto> m))"
proof -
  obtain r h' where "create_instance os st m h = Some (r, h')" "created os st m h r h'"
    using returns_post [OF returns_operations(1) create_outcome [OF assms]] by blast
  then show ?thesis by (cases r) (force simp: created_def Let_def)+
qed

theorem instance_created_witness:
  "\<exists>d h'. create_instance sample_os ''/s'' (sample_manifest []) empty_host = Some (Inr d, h')
     \<and> view ''/s'' h' ''w'' = Some (sample_manifest [])"
proof -
  obtain d where d: "create_instance sample_os ''/s'' (sample_manifest []) empty_host = Some (Inr d, sample_host)"
    by (rule sample_host_created)
  have "is_name (im_spec (sample_manifest [])) = ''w''" by (simp add: sample_manifest_def sample_spec_def)
  with instance_created [OF sample_os_calm(2) empty_host_ok sample_storable, of "''/s''"] d show ?thesis by auto
qed

text \<open>
  The token that was created for an instance is what its client reads: 64 lower-case
  hexadecimal digits of the 32 random bytes.
\<close>

lemma created_token_read:
  assumes "honest os" and "store_ok st h" and "storable m" and "create_instance os st m h = Some (Inr d, h')"
    and "calm quiet"
  shows "\<exists>bs. read_agent_token quiet st (is_name (im_spec m)) h' = Some (Inr (hex_encode (take 32 bs)), h')
    \<and> 32 \<le> length bs \<and> (\<exists>w w'. ho_random os w = (Inr bs, w'))"
proof -
  from postD [OF create_outcome [OF assms(1-3)] assms(4)] have c: "created os st m h (Inr d) h'" .
  let ?name = "is_name (im_spec m)"
  from c have "view st h' ?name = Some m" by (simp add: created_def Let_def)
  then obtain mode where dir: "valid_label 63 ?name" "node_at h' (idir st ?name) = Some (Directory mode)"
    by (auto simp: view_Some)
  from c obtain bs w w' where bs: "ho_random os w = (Inr bs, w')" "32 \<le> length bs"
    "node_at h' (token_path st ?name) = Some (Regular 384 (hex_encode (take 32 bs) @ [NL]))"
    unfolding created_def Let_def token_node_def by auto
  from read_agent_token_calm [OF assms(5) dir bs(3)] bs(1,2) show ?thesis by auto
qed

text \<open>
  The life of a store: operations one after the other, on a system whose calls may fail at any time
  and in any way.
\<close>

inductive store_step :: "'w host_os \<Rightarrow> StateStore \<Rightarrow> 'w host \<Rightarrow> 'w host \<Rightarrow> bool" for os st where
  step_create: "storable m \<Longrightarrow> create_instance os st m h = Some (r, h') \<Longrightarrow> store_step os st h h'"
| step_update: "storable m \<Longrightarrow> update_instance os st m h = Some (r, h') \<Longrightarrow> store_step os st h h'"
| step_remove: "remove_instance os st name h = Some (r, h') \<Longrightarrow> store_step os st h h'"
| step_default: "set_default os st name h = Some (r, h') \<Longrightarrow> store_step os st h h'"

lemma store_step_ok: "store_step os st h h' \<Longrightarrow> honest os \<Longrightarrow> store_ok st h \<Longrightarrow> store_ok st h'"
proof (induction rule: store_step.induct)
  case (step_create m h r h')
  from postD [OF create_outcome [OF step_create(3,4,1)] step_create(2)] show ?case by (simp add: created_def)
next
  case (step_update m h r h')
  from postD [OF update_outcome [OF step_update(3,4,1)] step_update(2)] show ?case by simp
next
  case (step_remove name h r h')
  from postD [OF remove_outcome [OF step_remove(3)] step_remove(1)] show ?case by (simp add: removed_def)
next
  case (step_default name h r h')
  from postD [OF set_default_outcome [OF step_default(3)] step_default(1)] show ?case by simp
qed

text \<open>
  C26: whatever sequence of creations and updates (with manifests that can be read back), removals and
  choices of the default is applied to a store, and whichever calls fail, no two instances ever share a host port: neither a control
  port nor a published one.
\<close>

theorem host_ports_never_shared:
  assumes "honest os" and "(store_step os st)\<^sup>*\<^sup>* h h'" and "store_ok st h"
    and "view st h' a = Some m" and "view st h' b = Some n" and "a \<noteq> b"
  shows "set (manifest_ports m) \<inter> set (manifest_ports n) = {}"
proof -
  from assms(2) have "store_ok st h'"
    by (induction rule: rtranclp_induct) (auto intro: assms(3) store_step_ok [OF _ assms(1)])
  with assms(4-6) show ?thesis unfolding store_ok_def ports_apart_def by blast
qed

definition other_manifest :: InstanceManifest where
  "other_manifest = (sample_manifest [])\<lparr>im_spec := sample_spec\<lparr>is_name := ''v'', is_port_forwards := []\<rparr>,
     im_control_port := stable_control_port ''v''\<rparr>"

definition pair_host :: "unit host" where
  "pair_host = (case create_instance sample_os ''/s'' other_manifest sample_host of
     None \<Rightarrow> sample_host | Some (r, h) \<Rightarrow> h)"

lemma pair_host_created:
  "case create_instance sample_os ''/s'' other_manifest sample_host of None \<Rightarrow> False | Some (r, h) \<Rightarrow> is_ok r"
  by code_simp

theorem host_ports_never_shared_witness:
  "\<exists>m n. view ''/s'' pair_host ''v'' = Some m \<and> view ''/s'' pair_host ''w'' = Some n
     \<and> set (manifest_ports m) \<inter> set (manifest_ports n) = {}"
proof -
  obtain d where d: "create_instance sample_os ''/s'' (sample_manifest []) empty_host = Some (Inr d, sample_host)"
    by (rule sample_host_created)
  obtain e where e: "create_instance sample_os ''/s'' other_manifest sample_host = Some (Inr e, pair_host)"
    using pair_host_created unfolding pair_host_def by (auto split: option.splits prod.splits simp: ok_iff)
  have other: "storable other_manifest" "is_name (im_spec other_manifest) = ''v''" by code_simp+
  have run: "(store_step sample_os ''/s'')\<^sup>*\<^sup>* empty_host pair_host"
    using step_create [OF sample_storable d] step_create [OF other(1) e] by auto
  have "created sample_os ''/s'' other_manifest sample_host (Inr e) pair_host"
    by (rule postD [OF create_outcome [OF sample_os_calm(2) sample_host_ok(1) other(1)] e])
  then have views: "view ''/s'' pair_host ''v'' = Some other_manifest" "view ''/s'' pair_host ''w'' = Some (sample_manifest [])"
    using sample_host_ok(2) by (simp_all add: created_def Let_def other)
  from host_ports_never_shared [OF sample_os_calm(2) run empty_host_ok views] views show ?thesis by auto
qed

text \<open>
  C27: an instance that is installing, running or suspended is never removed: the attempt fails
  and not a single file changes.  A removal that succeeds takes exactly this instance out of the
  store.
\<close>

theorem active_instance_not_removed:
  assumes "store_ok st h" and "view st h name = Some m"
  shows "\<exists>r h'. remove_instance os st name h = Some (r, h') \<and> store_ok st h' \<and>
    (im_state m \<in> {Installing, Running, Suspended} \<longrightarrow> \<not> is_ok r \<and> node_at h' = node_at h) \<and>
    (is_ok r \<longrightarrow> view st h' = (view st h)(name := None))"
proof -
  obtain r h' where "remove_instance os st name h = Some (r, h')" "removed st name h r h'"
    using returns_post [OF returns_operations(3) remove_outcome [OF assms(1)]] by blast
  with assms(2) show ?thesis by (cases r) (force simp: removed_def active_states_def)+
qed

definition running_manifest :: InstanceManifest where
  "running_manifest = (sample_manifest [])\<lparr>im_state := Running\<rparr>"

definition running_host :: "unit host" where
  "running_host = (case update_instance sample_os ''/s'' running_manifest sample_host of
     None \<Rightarrow> sample_host | Some (r, h) \<Rightarrow> h)"

lemma running_host_updated:
  "case update_instance sample_os ''/s'' running_manifest sample_host of None \<Rightarrow> False | Some (r, h) \<Rightarrow> is_ok r"
  by code_simp

lemma running_host_ok: "store_ok ''/s'' running_host" "view ''/s'' running_host ''w'' = Some running_manifest"
proof -
  obtain u where u: "update_instance sample_os ''/s'' running_manifest sample_host = Some (Inr u, running_host)"
    using running_host_updated unfolding running_host_def by (auto split: option.splits prod.splits simp: ok_iff)
  have m: "storable running_manifest" "is_name (im_spec running_manifest) = ''w''" by code_simp+
  from postD [OF update_outcome [OF sample_os_calm(2) sample_host_ok(1) m(1)] u] m(2)
  show "store_ok ''/s'' running_host" "view ''/s'' running_host ''w'' = Some running_manifest"
    by (auto simp: map_updated_def)
qed

theorem active_instance_not_removed_witness:
  "\<exists>r h'. remove_instance sample_os ''/s'' ''w'' running_host = Some (r, h') \<and> \<not> is_ok r \<and> node_at h' = node_at running_host"
proof -
  have "im_state running_manifest = Running" by (simp add: running_manifest_def)
  with active_instance_not_removed [OF running_host_ok, of sample_os] show ?thesis by auto
qed

text \<open>
  The instance that was made the default is the one that is found when no name is given.
\<close>

lemma default_instance_found:
  assumes "store_ok st h" and "set_default os st name h = Some (Inr (), h')" and "calm quiet"
  shows "resolve_name quiet st None h' = Some (Inr name, h')"
proof -
  from postD [OF set_default_outcome [OF assms(1)] assms(2)]
  have "view st h' = view st h" "view st h name \<noteq> None" "node_at h' (default_path st) = Some (Regular 384 (name @ [NL]))"
    by simp_all
  then obtain m where "view st h' name = Some m" by auto
  from default_name_calm [OF assms(3) _ this] \<open>node_at h' (default_path st) = _\<close> show ?thesis
    by (simp add: resolve_name_def io_bind_def io_return_def)
qed

text \<open>
  C28: an instance whose token cannot be written is neither there nor gone.  Take any creation that would
  succeed, and let every write to the token's file fail (a full disk, say) and no other call: the creation
  reports the error, its cleanup removes the manifest, but not the directory, which holds the token's file.
  From then on, on a system where no call fails, the name can be neither created, because it exists, nor
  removed, because it is not found.
\<close>

theorem failed_create_blocks_name:
  assumes "calm os" and "store_ok st h" and "storable m" and "create_instance os st m h = Some (Inr d, g)"
  shows "\<exists>k. create_instance (write_fails os (token_path st (is_name (im_spec m))) e) st m h = Some (Inl (LswIo e), k)
    \<and> create_instance os st m k = Some (Inl (InstanceAlreadyExists (idir st (is_name (im_spec m)))), k)
    \<and> remove_instance os st (is_name (im_spec m)) k = Some (Inl (InstanceNotFound (is_name (im_spec m))), k)"
proof -
  let ?name = "is_name (im_spec m)"
  obtain s h1 where c: "valid_label 63 ?name" "manifest_encode m = Inr s"
    "populate_instance os (idir st ?name) s h1 = Some (Inr d, g)"
    "\<And>p e. create_instance (write_fails os p e) st m h = populate_instance (write_fails os p e) (idir st ?name) s h1"
    using create_reaches [OF assms(4)] by metis
  have "honest os" using assms(1) by (simp add: calm_def honest_def)
  from postD [OF create_outcome [OF this assms(2,3)] assms(4)] have "created os st m h (Inr d) g" .
  then have "store_ok st g" and "view st g ?name = Some m" by (simp_all add: created_def Let_def)
  then have "wf_host g" by (simp add: store_ok_def store_tree_def)
  from \<open>view st g ?name = Some m\<close> obtain mode mode' s' where g: "node_at g (idir st ?name) = Some (Directory mode)"
    "node_at g (manifest_path st ?name) = Some (Regular mode' s')" by (auto simp: view_Some)
  obtain k where k: "populate_instance (write_fails os (token_path st ?name) e) (idir st ?name) s h1 = Some (Inl (LswIo e), k)"
    "node_at k (idir st ?name) = Some (Directory mode)" "node_at k (manifest_path st ?name) = None"
    by (rule token_failure_keeps_directory [OF assms(1) c(1,3) \<open>wf_host g\<close> g])
  note taken = taken_name [OF assms(1) c(1) refl c(2) k(2,3)]
  from k(1) taken show ?thesis unfolding c(4) by (intro exI [of _ k] conjI)
qed

theorem failed_create_blocks_name_witness:
  "\<exists>k. create_instance full_disk_os ''/s'' (sample_manifest []) empty_host
       = Some (Inl (LswIo (OsError ''No space left on device (os error 28)'')), k)
     \<and> remove_instance sample_os ''/s'' ''w'' k = Some (Inl (InstanceNotFound ''w''), k)"
proof -
  obtain d where d: "create_instance sample_os ''/s'' (sample_manifest []) empty_host = Some (Inr d, sample_host)"
    by (rule sample_host_created)
  have "token_path ''/s'' ''w'' = ''/s/instances/w/agent.token''" by code_simp
  moreover have "is_name (im_spec (sample_manifest [])) = ''w''" by (simp add: sample_manifest_def sample_spec_def)
  ultimately have "write_fails sample_os (token_path ''/s'' (is_name (im_spec (sample_manifest []))))
      (OsError ''No space left on device (os error 28)'') = full_disk_os"
    by (simp add: write_fails_def full_disk_os_def sample_os_def fun_eq_iff)
  with failed_create_blocks_name [OF sample_os_calm(1) empty_host_ok sample_storable d,
      of "OsError ''No space left on device (os error 28)''"] \<open>is_name _ = ''w''\<close>
  show ?thesis by auto
qed

end
