(* ===== verification/Provision.thy ===== *)
theory Provision
  imports Qemu_Plan Store_Access
begin

text \<open>
  Preparing an instance for its start: the directories, the variable store of the firmware and the
  system disk (\<open>preparation.rs\<close> and \<open>fs_checks.rs\<close> of \<open>lsw-core\<close>), and the private Samba server of a
  live folder share (\<open>samba.rs\<close>).
\<close>

section \<open>Preparation\<close>

subsection \<open>Checks\<close>

definition require_regular_file :: "'w host_os \<Rightarrow> string \<Rightarrow> string \<Rightarrow> ('w, unit) store" where
  "require_regular_file os path field =
     io_bind (io_lsw (symlink_metadata os path)) (\<lambda>metadata.
     if is_regular metadata then io_return ()
     else io_fail (InvalidValue field [Disp (path_display path), Text '' is not a regular file'']))"

definition require_real_directory :: "'w host_os \<Rightarrow> string \<Rightarrow> string \<Rightarrow> ('w, unit) store" where
  "require_real_directory os path field =
     io_bind (io_lsw (symlink_metadata os path)) (\<lambda>metadata.
     if is_dir metadata then io_return ()
     else io_fail (InvalidValue field [Disp (path_display path), Text '' is not a real directory'']))"

text \<open>\<open>preparation.rs\<close> has its own check for directories.\<close>

definition require_directory :: "'w host_os \<Rightarrow> string \<Rightarrow> string \<Rightarrow> ('w, unit) store" where
  "require_directory os path field =
     io_bind (io_lsw (symlink_metadata os path)) (\<lambda>metadata.
     if is_dir metadata then io_return ()
     else io_fail (InvalidValue field [Disp (path_display path), Text '' is not a real directory'']))"

definition path_is_missing :: "'w host_os \<Rightarrow> string \<Rightarrow> string \<Rightarrow> ('w, bool) store" where
  "path_is_missing os path field =
     io_bind (io_attempt (symlink_metadata os path)) (\<lambda>r.
     case r of
       Inr metadata \<Rightarrow>
         if metadata = Symlink
         then io_fail (InvalidValue field [Disp (path_display path), Text '' must not be a symbolic link''])
         else io_return False
     | Inl e \<Rightarrow> if e = NotFound then io_return True else io_fail (LswIo e))"


subsection \<open>The plan\<close>

datatype PreparationStep =
    CreateDirectory string
  | CopyFirmwareVariables string string
  | CreateDisk string string u32

fun preparation_describe :: "PreparationStep \<Rightarrow> string" where
  "preparation_describe (CreateDirectory path) = ''create directory '' @ path_display path"
| "preparation_describe (CopyFirmwareVariables source destination) =
     ''copy firmware variables '' @ path_display source @ '' -> '' @ path_display destination"
| "preparation_describe (CreateDisk program destination size_gib) =
     path_display program @ '' create -f qcow2 '' @ path_display destination @ '' '' @ decimal (unat size_gib) @ ''G''"

record PreparationPlan =
  pp_steps :: "PreparationStep list"
  pp_missing_capabilities :: "string list"

definition preparation_is_ready :: "PreparationPlan \<Rightarrow> bool" where
  "preparation_is_ready p \<longleftrightarrow> pp_steps p = [] \<and> pp_missing_capabilities p = []"

definition plan_directory :: "'w host_os \<Rightarrow> string \<Rightarrow> ('w, PreparationStep list) store" where
  "plan_directory os directory =
     io_bind (path_is_missing os directory ''runtime directory'') (\<lambda>missing.
     if missing then io_return [CreateDirectory directory]
     else io_bind (require_directory os directory ''runtime directory'') (\<lambda>_. io_return []))"

definition plan_firmware ::
  "'w host_os \<Rightarrow> HostCapabilities \<Rightarrow> WindowsProfile \<Rightarrow> string \<Rightarrow> ('w, PreparationStep list \<times> string list) store" where
  "plan_firmware os c profile destination =
     io_bind (path_is_missing os destination ''firmware variable store'') (\<lambda>missing.
     if missing
     then io_return
       ([CopyFirmwareVariables (case firmware_vars c profile of Some p \<Rightarrow> p | None \<Rightarrow> ''/path/to/OVMF_VARS.fd'') destination],
        if firmware_vars c profile = None
        then [if ss_secure_boot (profile_security profile) then ''enrolled Secure Boot OVMF variable template''
              else ''OVMF variable template'']
        else [])
     else io_bind (require_regular_file os destination ''firmware variable store'') (\<lambda>_. io_return ([], [])))"

definition plan_disk ::
  "'w host_os \<Rightarrow> HostCapabilities \<Rightarrow> u32 \<Rightarrow> string \<Rightarrow> ('w, PreparationStep list \<times> string list) store" where
  "plan_disk os c size_gib destination =
     io_bind (path_is_missing os destination ''system disk'') (\<lambda>missing.
     if missing
     then io_return
       ([CreateDisk (case hc_qemu_img c of Some p \<Rightarrow> p | None \<Rightarrow> ''qemu-img'') destination size_gib],
        if hc_qemu_img c = None then [''qemu-img''] else [])
     else io_bind (require_regular_file os destination ''system disk'') (\<lambda>_. io_return ([], [])))"

definition provision_plan :: "'w host_os \<Rightarrow> HostCapabilities \<Rightarrow> InstanceManifest \<Rightarrow> string \<Rightarrow> ('w, PreparationPlan) store" where
  "provision_plan os c m dir =
     io_bind (io_of (spec_validate (im_spec m))) (\<lambda>_.
     io_bind (require_directory os dir ''instance directory'') (\<lambda>_.
     io_bind (plan_directory os (path_join dir ''run'')) (\<lambda>run_steps.
     io_bind (plan_directory os (path_join dir ''swtpm-state'')) (\<lambda>tpm_steps.
     io_bind (plan_firmware os c (is_profile (im_spec m)) (path_join dir ''OVMF_VARS.fd'')) (\<lambda>(firmware_steps, firmware_missing).
     io_bind (plan_disk os c (is_disk_gib (im_spec m)) (path_join dir ''disk.qcow2'')) (\<lambda>(disk_steps, disk_missing).
     io_return \<lparr>pp_steps = run_steps @ tpm_steps @ firmware_steps @ disk_steps,
                pp_missing_capabilities = firmware_missing @ disk_missing\<rparr>))))))"


subsection \<open>Applying it\<close>

definition create_directory :: "'w host_os \<Rightarrow> string \<Rightarrow> ('w, unit) store" where
  "create_directory os path =
     io_bind (io_attempt (create_dir os path)) (\<lambda>r.
     case r of
       Inr _ \<Rightarrow> set_private_directory_permissions os path
     | Inl e \<Rightarrow>
         if e = AlreadyExists
         then io_bind (require_directory os path ''runtime directory'') (\<lambda>_. set_private_directory_permissions os path)
         else io_fail (LswIo e))"

text \<open>
  \<open>io::copy\<close> fails when reading or writing does; opening the source is the read of \<open>File::open\<close>.
\<close>

definition copy_new_file :: "'w host_os \<Rightarrow> string \<Rightarrow> string \<Rightarrow> ('w, unit) store" where
  "copy_new_file os source destination =
     io_bind (path_is_file os source) (\<lambda>regular.
     if \<not> regular
     then io_fail (InvalidValue ''OVMF variable template'' [Disp (path_display source), Text '' is not a regular file''])
     else io_bind (io_lsw (open_read os source)) (\<lambda>_.
          io_bind (io_lsw (open_create_new os destination)) (\<lambda>_.
          io_bind (set_private_file_permissions os destination) (\<lambda>_.
          io_bind (io_attempt (io_bind (read_file os source) (write_contents os destination))) (\<lambda>copied.
          case copied of
            Inl e \<Rightarrow> io_bind (io_ignore (unlink_file os destination)) (\<lambda>_. io_fail (LswIo e))
          | Inr _ \<Rightarrow> io_lsw (sync_file os destination))))))"

definition create_disk :: "'w host_os \<Rightarrow> string \<Rightarrow> string \<Rightarrow> u32 \<Rightarrow> ('w, unit) store" where
  "create_disk os program destination size_gib =
     io_bind (path_is_missing os destination ''system disk'') (\<lambda>missing.
     if \<not> missing
     then io_fail (InvalidValue ''system disk'' [Text ''refusing to overwrite '', Disp (path_display destination)])
     else io_bind (io_lsw (run_command os program
            [''create'', ''-f'', ''qcow2'', destination, decimal (unat size_gib) @ ''G''])) (\<lambda>status.
          if \<not> exit_success status
          then io_bind (io_ignore (unlink_file os destination)) (\<lambda>_.
               io_fail (ExternalCommandFailed (path_display program) (exit_code status)))
          else io_bind (require_regular_file os destination ''system disk'') (\<lambda>_.
               set_private_file_permissions os destination)))"

fun apply_step :: "'w host_os \<Rightarrow> PreparationStep \<Rightarrow> ('w, unit) store" where
  "apply_step os (CreateDirectory path) = create_directory os path"
| "apply_step os (CopyFirmwareVariables source destination) = copy_new_file os source destination"
| "apply_step os (CreateDisk program destination size_gib) = create_disk os program destination size_gib"

definition provision_apply :: "'w host_os \<Rightarrow> PreparationPlan \<Rightarrow> ('w, unit) store" where
  "provision_apply os p =
     (if pp_missing_capabilities p \<noteq> [] then io_fail (MissingCapabilities (pp_missing_capabilities p))
      else io_for (apply_step os) (pp_steps p))"


section \<open>The live folder share\<close>

definition LIVE_SMB_PASSWORD_FILE :: string where "LIVE_SMB_PASSWORD_FILE = ''smbpasswd''"
definition LIVE_SMB_USERNAME_MAP_FILE :: string where "LIVE_SMB_USERNAME_MAP_FILE = ''username.map''"
definition LIVE_SMB_CLIENT_USER :: string where "LIVE_SMB_CLIENT_USER = ''lsw''"

definition canonical_share_root :: "'w host_os \<Rightarrow> string \<Rightarrow> ('w, string) store" where
  "canonical_share_root os path =
     io_bind (io_for (\<lambda>ancestor.
       io_bind (io_lsw (symlink_metadata os ancestor)) (\<lambda>metadata.
       if metadata = Symlink
       then io_fail (InvalidValue ''live folder share root'' [Disp (path_display path), Text '' crosses a symbolic link''])
       else io_return ())) (ancestors path)) (\<lambda>_.
     io_bind (io_lsw (canonicalize os path)) (\<lambda>root.
     io_bind (require_real_directory os root ''live folder share root'') (\<lambda>_. io_return root)))"

definition passwd_entry :: "u32 \<Rightarrow> string \<Rightarrow> string option" where
  "passwd_entry uid line =
     (case split_char [CHR '':''] line of
        name # password # candidate # _ \<Rightarrow>
          (case parse_word candidate of Inl _ \<Rightarrow> None | Inr n \<Rightarrow> if n = uid then Some name else None)
      | _ \<Rightarrow> None)"

fun find_map :: "('a \<Rightarrow> 'b option) \<Rightarrow> 'a list \<Rightarrow> 'b option" where
  "find_map f [] = None"
| "find_map f (x # xs) = (case f x of None \<Rightarrow> find_map f xs | Some y \<Rightarrow> Some y)"

definition account_name_for_uid :: "'w host_os \<Rightarrow> u32 \<Rightarrow> ('w, string) store" where
  "account_name_for_uid os uid =
     io_bind (io_lsw (read_to_string os ''/etc/passwd'')) (\<lambda>passwd.
     io_of (and_then (ok_or (find_map (passwd_entry uid) (lines passwd))
              (InvalidValue ''live folder host account''
                 [Text ''could not resolve uid '', Num (unat uid), Text '' through /etc/passwd''])) (\<lambda>account.
            if account = [] \<or> \<not> list_all (\<lambda>c. is_ascii_alphanumeric c \<or> c \<in> set ''_.-'') account
            then Inl (InvalidValue ''live folder host account''
                   [Text ''the resolved Unix account name is not safe for a private Samba mapping''])
            else Inr account)))"

definition samba_value :: "string \<Rightarrow> LswError + string" where
  "samba_value path =
     and_then (ok_or (path_to_str path) (InvalidValue ''live folder Samba path''
        [Disp (path_display path), Text '' is not valid UTF-8''])) (\<lambda>value.
     if trim value \<noteq> value
        \<or> list_ex (\<lambda>c. c \<in> {CR, NL, CHR 0x00, CHR ''%'', CHR ''#'', CHR '';'', CHR 0x22, BACKSLASH}) value
     then Inl (InvalidValue ''live folder Samba path''
            [Disp (path_display path), Text '' contains syntax that is unsafe in a private Samba configuration''])
     else Inr value)"

text \<open>The configuration, line by line; a line of a section starts with a tab.\<close>

definition TAB :: char where "TAB = CHR 0x09"

definition samba_lines :: "string \<Rightarrow> string \<Rightarrow> string \<Rightarrow> string list" where
  "samba_lines runtime share_root unix_user =
     [''[global]'',
      TAB # ''private dir = '' @ runtime,
      TAB # ''pid directory = '' @ runtime,
      TAB # ''lock directory = '' @ runtime,
      TAB # ''state directory = '' @ runtime,
      TAB # ''cache directory = '' @ runtime,
      TAB # ''ncalrpc dir = '' @ runtime @ ''/ncalrpc'',
      TAB # ''log file = '' @ runtime @ ''/log.smbd'',
      TAB # ''max log size = 1024'',
      TAB # ''log level = 1 auth:2'',
      TAB # ''server role = standalone server'',
      TAB # ''security = user'',
      TAB # ''map to guest = Never'',
      TAB # ''passdb backend = smbpasswd:'' @ runtime @ ''/'' @ LIVE_SMB_PASSWORD_FILE,
      TAB # ''username map = '' @ runtime @ ''/'' @ LIVE_SMB_USERNAME_MAP_FILE,
      TAB # ''server min protocol = SMB2_10'',
      TAB # ''server signing = mandatory'',
      TAB # ''server smb encrypt = required'',
      TAB # ''load printers = no'',
      TAB # ''printing = bsd'',
      TAB # ''disable spoolss = yes'',
      TAB # ''usershare max shares = 0'',
      TAB # ''dns proxy = no'',
      TAB # ''local master = no'',
      [],
      ''[qemu]'',
      TAB # ''path = '' @ share_root,
      TAB # ''read only = no'',
      TAB # ''guest ok = no'',
      TAB # ''browseable = no'',
      TAB # ''valid users = '' @ unix_user,
      TAB # ''force user = '' @ unix_user,
      TAB # ''follow symlinks = no'',
      TAB # ''wide links = no'',
      TAB # ''smb encrypt = required'']"

definition samba_config :: "string \<Rightarrow> string \<Rightarrow> string \<Rightarrow> LswError + string" where
  "samba_config runtime share_root unix_user =
     and_then (samba_value runtime) (\<lambda>runtime.
     and_then (samba_value share_root) (\<lambda>share_root.
     Inr (concat (map (\<lambda>line. line @ [NL]) (samba_lines runtime share_root unix_user)))))"

text \<open>\<open>encode_utf16\<close> of one character, and hexadecimal numbers in upper case with a minimal width.\<close>

definition utf16_units :: "nat \<Rightarrow> u16 list" where
  "utf16_units c =
     (if c < 0x10000 then [word_of_nat c]
      else [word_of_nat (0xD800 + (c - 0x10000) div 0x400), word_of_nat (0xDC00 + (c - 0x10000) mod 0x400)])"

definition upper_hex_digit :: "nat \<Rightarrow> char" where
  "upper_hex_digit n = (if n < 10 then char_of (48 + n) else char_of (55 + n))"

fun upper_hex :: "nat \<Rightarrow> string" where
  "upper_hex n = (if n < 16 then [upper_hex_digit n] else upper_hex (n div 16) @ [upper_hex_digit (n mod 16)])"

declare upper_hex.simps [simp del]

definition upper_hex_padded :: "nat \<Rightarrow> nat \<Rightarrow> string" where
  "upper_hex_padded width n = (let digits = upper_hex n in replicate (width - length digits) (CHR ''0'') @ digits)"

definition smb_password_entry :: "(bytes \<Rightarrow> bytes) \<Rightarrow> u64 \<Rightarrow> string \<Rightarrow> u32 \<Rightarrow> string \<Rightarrow> string" where
  "smb_password_entry md4 changed unix_user uid credential =
     (let utf16 = concat (map le_bytes (concat (map utf16_units (str_chars credential))));
          nt_hash = concat (map (\<lambda>byte. upper_hex_padded 2 (unat byte)) (md4 utf16))
      in unix_user @ '':'' @ decimal (unat uid) @ '':XXXXXXXXXXXXXXXXXXXXXXXXXXXXXXXX:'' @ nt_hash
         @ '':[UX         ]:LCT-'' @ upper_hex_padded 8 (unat changed) @ '':'' @ [NL])"

definition ensure_private_runtime_directory :: "'w host_os \<Rightarrow> string \<Rightarrow> ('w, unit) store" where
  "ensure_private_runtime_directory os path =
     io_bind (io_attempt (symlink_metadata os path)) (\<lambda>r.
     io_bind (case r of
         Inr metadata \<Rightarrow>
           if is_dir metadata then io_return ()
           else io_fail (InvalidValue ''live folder runtime'' [Disp (path_display path), Text '' must be a real directory''])
       | Inl e \<Rightarrow> if e = NotFound then io_lsw (create_dir os path) else io_fail (LswIo e)) (\<lambda>_.
     io_lsw (set_permissions os path 448)))"

definition require_missing_or_regular_file :: "'w host_os \<Rightarrow> string \<Rightarrow> ('w, unit) store" where
  "require_missing_or_regular_file os path =
     io_bind (io_attempt (symlink_metadata os path)) (\<lambda>r.
     case r of
       Inr metadata \<Rightarrow>
         if is_regular metadata then io_return ()
         else io_fail (InvalidValue ''live folder credential file''
                [Disp (path_display path), Text '' must be a regular non-symlink file''])
     | Inl e \<Rightarrow> if e = NotFound then io_return () else io_fail (LswIo e))"

text \<open>The depth of the directories is bounded by \<open>depth\<close>; deeper ones leave the computation running.\<close>

fun remove_runtime_children :: "nat \<Rightarrow> 'w host_os \<Rightarrow> string \<Rightarrow> ('w, unit) store" where
  "remove_runtime_children 0 os path = io_stuck"
| "remove_runtime_children (Suc depth) os path =
     io_bind (io_lsw (read_dir os path)) (\<lambda>entries.
     io_for (\<lambda>(name, _).
       let entry = path_join path name in
       io_bind (io_lsw (read_entry os entry)) (\<lambda>_.
       io_bind (io_lsw (symlink_metadata os entry)) (\<lambda>metadata.
       if metadata = Symlink
       then io_fail (InvalidValue ''live folder runtime''
              [Text ''refusing to remove symbolic link '', Disp (path_display entry)])
       else if is_dir metadata
       then io_bind (remove_runtime_children depth os entry) (\<lambda>_. io_lsw (remove_dir os entry))
       else io_lsw (unlink_file os entry)))) entries)"

definition remove_runtime_if_present :: "nat \<Rightarrow> 'w host_os \<Rightarrow> string \<Rightarrow> ('w, unit) store" where
  "remove_runtime_if_present depth os path =
     io_bind (io_attempt (symlink_metadata os path)) (\<lambda>r.
     case r of
       Inl e \<Rightarrow> if e = NotFound then io_return () else io_fail (LswIo e)
     | Inr metadata \<Rightarrow>
         if \<not> is_dir metadata
         then io_fail (InvalidValue ''live folder runtime''
                [Text ''refusing to remove unexpected path '', Disp (path_display path)])
         else io_bind (remove_runtime_children depth os path) (\<lambda>_. io_lsw (remove_dir os path)))"

text \<open>The clock gives the seconds since the epoch, 0 if it is before it.\<close>

definition prepare_live_share_runtime ::
  "(bytes \<Rightarrow> bytes) \<Rightarrow> nat \<Rightarrow> 'w host_os \<Rightarrow> ('w \<Rightarrow> u64 \<times> 'w) \<Rightarrow> InstanceManifest \<Rightarrow> string \<Rightarrow> string \<Rightarrow> ('w, unit) store" where
  "prepare_live_share_runtime md4 depth os clock m dir credential =
     (let runtime = path_join (path_join dir ''run'') LIVE_SMB_RUNTIME_DIRECTORY in
      case List.find (\<lambda>share. sh_transport share = LiveSmb) (im_folder_shares m) of
        None \<Rightarrow> remove_runtime_if_present depth os runtime
      | Some share \<Rightarrow>
          if length credential \<noteq> 64 \<or> \<not> list_all (\<lambda>c. is_ascii_hexdigit c \<and> \<not> is_ascii_uppercase c) credential
          then io_fail (InvalidValue ''live folder credential'' [Text ''must contain 64 lowercase hexadecimal characters''])
          else
            io_bind (require_real_directory os dir ''instance directory'') (\<lambda>_.
            io_bind (require_real_directory os (path_join dir ''run'') ''runtime directory'') (\<lambda>_.
            io_bind (remove_runtime_if_present depth os runtime) (\<lambda>_.
            io_bind (ensure_private_runtime_directory os runtime) (\<lambda>_.
            io_bind (io_lsw (metadata_uid os dir)) (\<lambda>uid.
            io_bind (account_name_for_uid os uid) (\<lambda>unix_user.
            io_bind (canonical_share_root os (sh_host_path share)) (\<lambda>share_root.
            io_bind (io_of (samba_config runtime share_root unix_user)) (\<lambda>config.
            let username_map = unix_user @ '' = '' @ LIVE_SMB_CLIENT_USER @ [NL] in
            io_bind (os_ask clock) (\<lambda>changed.
            let password = smb_password_entry md4 changed unix_user uid credential in
            io_bind (io_for (require_missing_or_regular_file os)
              [path_join runtime LIVE_SMB_CONFIG_FILE, path_join runtime LIVE_SMB_PASSWORD_FILE,
               path_join runtime LIVE_SMB_USERNAME_MAP_FILE]) (\<lambda>_.
            io_bind (write_atomic os (path_join runtime LIVE_SMB_USERNAME_MAP_FILE) username_map) (\<lambda>_.
            io_bind (write_atomic os (path_join runtime LIVE_SMB_PASSWORD_FILE) password) (\<lambda>_.
            write_atomic os (path_join runtime LIVE_SMB_CONFIG_FILE) config)))))))))))))"


section \<open>What preparation does\<close>

text \<open>\<open>qemu-img create\<close> writes nothing but the image.\<close>

definition img_stays :: "'w host_os \<Rightarrow> bool" where
  "img_stays os \<longleftrightarrow> (\<forall>program destination gib h.
     let h' = snd (ho_command os program [''create'', ''-f'', ''qcow2'', destination, gib] h)
     in (\<forall>p. p \<noteq> destination \<longrightarrow> node_at h' p = node_at h p) \<and> (wf_host h \<longrightarrow> wf_host h'))"

text \<open>Nothing changes outside one path.\<close>

definition only_at :: "string \<Rightarrow> 'w host \<Rightarrow> 'w host \<Rightarrow> bool" where
  "only_at p h h' \<longleftrightarrow> (\<forall>q. q \<noteq> p \<longrightarrow> node_at h' q = node_at h q) \<and> (wf_host h \<longrightarrow> wf_host h')"

lemma only_at_leaves: "leaves h ns h' \<Longrightarrow> (\<And>q. q \<noteq> p \<Longrightarrow> ns q = node_at h q) \<Longrightarrow> only_at p h h'"
  by (auto simp: only_at_def leaves_def)

fun step_target :: "PreparationStep \<Rightarrow> string" where
  "step_target (CreateDirectory path) = path"
| "step_target (CopyFirmwareVariables source destination) = destination"
| "step_target (CreateDisk program destination size_gib) = destination"

fun step_result :: "PreparationStep \<Rightarrow> fs_node \<Rightarrow> bool" where
  "step_result (CreateDirectory path) n = is_dir n"
| "step_result (CopyFirmwareVariables source destination) n = is_regular n"
| "step_result (CreateDisk program destination size_gib) n = is_regular n"

lemma path_is_missing_outcome:
  assumes "honest os"
    and "\<And>e h'. unchanged h h' \<Longrightarrow> Q (Inl e) h'"
    and "\<And>h'. unchanged h h' \<Longrightarrow> node_at h p = None \<Longrightarrow> Q (Inr True) h'"
    and "\<And>n h'. unchanged h h' \<Longrightarrow> node_at h p = Some n \<Longrightarrow> n \<noteq> Symlink \<Longrightarrow> Q (Inr False) h'"
  shows "post (path_is_missing os p field) Q h"
  unfolding path_is_missing_def using assms
  by (auto simp: wp intro!: post_symlink_metadata_honest [OF assms(1)])

lemma set_mode_is_regular [simp]: "is_regular (set_mode mode n) = is_regular n"
  by (cases n) (simp_all add: set_mode_def)

lemma append_contents_is_regular [simp]: "is_regular (append_contents s n) = is_regular n"
  by (cases n) simp_all

lemma create_directory_outcome:
  "post (create_directory os p) (\<lambda>r h'. only_at p h h' \<and> (r = Inr () \<longrightarrow> (\<exists>n. node_at h' p = Some n \<and> is_dir n))) h"
  unfolding create_directory_def set_private_directory_permissions_def require_directory_def
  by (auto simp: wp only_at_def leaves_def intro!: fs_post split: sum.splits)

lemma copy_new_file_outcome:
  "post (copy_new_file os source p)
    (\<lambda>r h'. only_at p h h' \<and> (r = Inr () \<longrightarrow> (\<exists>n. node_at h' p = Some n \<and> is_regular n))) h"
  unfolding copy_new_file_def set_private_file_permissions_def path_is_file_def
  by (auto simp: wp only_at_def leaves_def intro!: fs_post split: sum.splits)

lemma post_run_img [fs_post]:
  assumes "img_stays os" and "\<And>e h'. only_at p h h' \<Longrightarrow> Q (Inl e) h'" and "\<And>x h'. only_at p h h' \<Longrightarrow> Q (Inr x) h'"
  shows "post (run_command os program [''create'', ''-f'', ''qcow2'', p, gib]) Q h"
proof (cases "ho_command os program [''create'', ''-f'', ''qcow2'', p, gib] h")
  case (Pair r h')
  then have "only_at p h h'" using assms(1) unfolding img_stays_def only_at_def Let_def by (metis snd_conv)
  with assms(2,3) Pair show ?thesis by (cases r) (simp_all add: post_def run_command_def)
qed

lemma create_disk_outcome:
  assumes "img_stays os"
  shows "post (create_disk os program p gib)
    (\<lambda>r h'. only_at p h h' \<and> (r = Inr () \<longrightarrow> (\<exists>n. node_at h' p = Some n \<and> is_regular n))) h"
  unfolding create_disk_def path_is_missing_def set_private_file_permissions_def require_regular_file_def
  by (auto simp: wp only_at_def leaves_def intro!: fs_post assms split: sum.splits)

lemmas step_outcomes = create_directory_outcome copy_new_file_outcome create_disk_outcome

lemma apply_step_outcome:
  "img_stays os \<Longrightarrow> post (apply_step os s)
    (\<lambda>r h'. only_at (step_target s) h h' \<and> (r = Inr () \<longrightarrow> (\<exists>n. node_at h' (step_target s) = Some n \<and> step_result s n))) h"
  by (cases s) (simp_all add: step_outcomes)

lemma apply_steps_outcome:
  assumes "img_stays os" and "distinct (map step_target ss)"
  shows "post (io_for (apply_step os) ss)
    (\<lambda>r h'. (\<forall>q. q \<notin> step_target ` set ss \<longrightarrow> node_at h' q = node_at h q) \<and> (wf_host h \<longrightarrow> wf_host h') \<and>
      (r = Inr () \<longrightarrow> (\<forall>s \<in> set ss. \<exists>n. node_at h' (step_target s) = Some n \<and> step_result s n))) h"
  using assms(2)
proof (induction ss arbitrary: h)
  case (Cons s ss)
  show ?case unfolding io_for.simps
  proof (rule post_seq [OF apply_step_outcome [OF assms(1)]])
    fix u t assume "only_at (step_target s) h t \<and>
        (Inr u = Inr () \<longrightarrow> (\<exists>n. node_at t (step_target s) = Some n \<and> step_result s n))"
    moreover from Cons.prems have "distinct (map step_target ss)" "step_target s \<notin> step_target ` set ss" by auto
    ultimately show "post (io_for (apply_step os) ss) (\<lambda>r h'. (\<forall>q. q \<notin> step_target ` set (s # ss) \<longrightarrow> node_at h' q = node_at h q) \<and> (wf_host h \<longrightarrow> wf_host h') \<and>
        (r = Inr () \<longrightarrow> (\<forall>s \<in> set (s # ss). \<exists>n. node_at h' (step_target s) = Some n \<and> step_result s n))) t"
      by (intro post_mono [OF Cons.IH]) (auto simp: only_at_def)
  qed (auto simp: only_at_def)
qed (simp add: wp)

text \<open>The places of an instance that preparation fills, with the kind of node that belongs there.\<close>

definition places :: "string \<Rightarrow> (string \<times> (fs_node \<Rightarrow> bool)) list" where
  "places dir = [(path_join dir ''run'', is_dir), (path_join dir ''swtpm-state'', is_dir),
     (path_join dir ''OVMF_VARS.fd'', is_regular), (path_join dir ''disk.qcow2'', is_regular)]"

definition prepared :: "string \<Rightarrow> 'w host \<Rightarrow> bool" where
  "prepared dir h \<longleftrightarrow> (\<forall>(q, test) \<in> set (places dir). \<exists>n. node_at h q = Some n \<and> test n)"

text \<open>What is planned for one place: to make what is missing, or nothing.\<close>

definition planned_for :: "'w host \<Rightarrow> string \<Rightarrow> (fs_node \<Rightarrow> bool) \<Rightarrow> PreparationStep list \<Rightarrow> bool" where
  "planned_for h q test ss \<longleftrightarrow>
     (\<exists>s. ss = [s] \<and> step_target s = q \<and> step_result s = test \<and> node_at h q = None)
     \<or> (\<exists>n. ss = [] \<and> node_at h q = Some n \<and> test n)"

lemma plan_directory_outcome:
  "honest os \<Longrightarrow> unchanged h h1 \<Longrightarrow> post (plan_directory os q) (\<lambda>r h'. unchanged h h' \<and> (\<forall>ss. r = Inr ss \<longrightarrow> planned_for h q is_dir ss)) h1"
  unfolding plan_directory_def require_directory_def
  by (auto simp: wp leaves_def planned_for_def fun_eq_iff intro!: path_is_missing_outcome fs_post)

lemma plan_firmware_outcome:
  "honest os \<Longrightarrow> unchanged h h1 \<Longrightarrow> post (plan_firmware os c profile q) (\<lambda>r h'. unchanged h h' \<and>
     (\<forall>x. r = Inr x \<longrightarrow> planned_for h q is_regular (fst x) \<and> (fst x = [] \<longrightarrow> snd x = []))) h1"
  unfolding plan_firmware_def require_regular_file_def
  by (auto simp: wp leaves_def planned_for_def fun_eq_iff intro!: path_is_missing_outcome fs_post)

lemma plan_disk_outcome:
  "honest os \<Longrightarrow> unchanged h h1 \<Longrightarrow> post (plan_disk os c gib q) (\<lambda>r h'. unchanged h h' \<and>
     (\<forall>x. r = Inr x \<longrightarrow> planned_for h q is_regular (fst x) \<and> (fst x = [] \<longrightarrow> snd x = []))) h1"
  unfolding plan_disk_def require_regular_file_def
  by (auto simp: wp leaves_def planned_for_def fun_eq_iff intro!: path_is_missing_outcome fs_post)

text \<open>A plan for the four places.\<close>

definition planned_places :: "'w host \<Rightarrow> string \<Rightarrow> PreparationPlan \<Rightarrow> bool" where
  "planned_places h dir p \<longleftrightarrow> (\<exists>a b c d. pp_steps p = a @ b @ c @ d
     \<and> planned_for h (path_join dir ''run'') is_dir a \<and> planned_for h (path_join dir ''swtpm-state'') is_dir b
     \<and> planned_for h (path_join dir ''OVMF_VARS.fd'') is_regular c \<and> planned_for h (path_join dir ''disk.qcow2'') is_regular d
     \<and> (c = [] \<and> d = [] \<longrightarrow> pp_missing_capabilities p = []))"

lemma planned_for_same: "unchanged h h' \<Longrightarrow> planned_for h' q test ss \<longleftrightarrow> planned_for h q test ss"
  by (simp add: planned_for_def leaves_def)

lemma provision_plan_outcome:
  assumes "honest os"
  shows "post (provision_plan os c m dir) (\<lambda>r h'. unchanged h h' \<and> (\<forall>p. r = Inr p \<longrightarrow> planned_places h dir p)) h"
    (is "post _ ?Q h")
proof -
  have "post (require_directory os dir ''instance directory'') (\<lambda>_. unchanged h) h1" if "unchanged h h1" for h1
    using that unfolding require_directory_def by (auto simp: wp leaves_def intro!: fs_post)
  note start = post_seq [OF this]
  have final: "?Q (Inr \<lparr>pp_steps = a @ b @ fst x @ fst y, pp_missing_capabilities = snd x @ snd y\<rparr>) h'"
    if "unchanged h h'" "planned_for h (path_join dir ''run'') is_dir a" "planned_for h (path_join dir ''swtpm-state'') is_dir b"
      "planned_for h (path_join dir ''OVMF_VARS.fd'') is_regular (fst x) \<and> (fst x = [] \<longrightarrow> snd x = [])"
      "planned_for h (path_join dir ''disk.qcow2'') is_regular (fst y) \<and> (fst y = [] \<longrightarrow> snd y = [])" for a b x y h'
    using that unfolding planned_places_def by simp blast
  show ?thesis
    unfolding provision_plan_def
    apply (subst post_bind, simp only: wp)
    apply (cases "spec_validate (im_spec m)")
    subgoal by (simp add: leaves_def)
    apply (simp only: on_ok_apply)
    apply (rule start)
    subgoal by (simp add: leaves_def)
    subgoal by simp
    apply (rule post_seq [OF plan_directory_outcome [OF assms]], assumption, simp)
    apply (elim conjE, rule post_seq [OF plan_directory_outcome [OF assms]], assumption, simp)
    apply (elim conjE, rule post_seq [OF plan_firmware_outcome [OF assms]], assumption, simp)
    apply (elim conjE, simp only: prod.case_eq_if, rule post_seq [OF plan_disk_outcome [OF assms]], assumption, simp)
    subgoal premises prems for _ _ _ a _ b _ x _ y h'
      using final [of h' a b x y] prems unfolding prod.case_eq_if post_simps(1) by blast
    done
qed

lemma places_distinct: "distinct (map fst (places dir))"
  by (auto simp: places_def path_join_def path_is_absolute_def)

lemma planned_places_steps:
  assumes "planned_places h dir p"
  shows "distinct (map step_target (pp_steps p))" "\<And>s. s \<in> set (pp_steps p) \<Longrightarrow> node_at h (step_target s) = None"
    "\<And>q test. (q, test) \<in> set (places dir) \<Longrightarrow>
       (\<exists>s \<in> set (pp_steps p). step_target s = q \<and> step_result s = test) \<or> (\<exists>n. node_at h q = Some n \<and> test n)"
proof -
  obtain a b c d where p: "pp_steps p = a @ b @ c @ d"
    and parts: "planned_for h (path_join dir ''run'') is_dir a" "planned_for h (path_join dir ''swtpm-state'') is_dir b"
      "planned_for h (path_join dir ''OVMF_VARS.fd'') is_regular c" "planned_for h (path_join dir ''disk.qcow2'') is_regular d"
    using assms unfolding planned_places_def by blast
  have target: "step_target s = q \<and> node_at h q = None" "distinct (map step_target ss)"
    if "planned_for h q test ss" "s \<in> set ss" for q test ss s
    using that by (auto simp: planned_for_def)
  have dist: "distinct (map step_target ss)" if "planned_for h q test ss" for q test ss
    using that by (auto simp: planned_for_def)
  show "\<And>s. s \<in> set (pp_steps p) \<Longrightarrow> node_at h (step_target s) = None"
    using parts target(1) unfolding p by fastforce
  show "distinct (map step_target (pp_steps p))"
    using dist [OF parts(1)] dist [OF parts(2)] dist [OF parts(3)] dist [OF parts(4)]
      target(1) [OF parts(1)] target(1) [OF parts(2)] target(1) [OF parts(3)] target(1) [OF parts(4)] places_distinct [of dir]
    unfolding p by (auto simp: places_def) 
  show "(\<exists>s \<in> set (pp_steps p). step_target s = q \<and> step_result s = test) \<or> (\<exists>n. node_at h q = Some n \<and> test n)"
    if "(q, test) \<in> set (places dir)" for q test
    using that parts unfolding p places_def planned_for_def by auto
qed

lemma planned_places_ready: "planned_places h dir p \<Longrightarrow> prepared dir h \<Longrightarrow> preparation_is_ready p"
  by (auto simp: planned_places_def prepared_def places_def planned_for_def preparation_is_ready_def)

lemma provision_apply_outcome:
  assumes "img_stays os" and "planned_places h dir p"
  shows "post (provision_apply os p) (\<lambda>r h'. (\<forall>q n. node_at h q = Some n \<longrightarrow> node_at h' q = Some n) \<and>
    (r = Inr () \<longrightarrow> prepared dir h')) h"
proof -
  note steps = planned_places_steps [OF assms(2)]
  have "(\<forall>q n. node_at h q = Some n \<longrightarrow> node_at h' q = Some n) \<and> (r = Inr () \<longrightarrow> prepared dir h')"
    if same: "\<forall>q. q \<notin> step_target ` set (pp_steps p) \<longrightarrow> node_at h' q = node_at h q"
      and made: "r = Inr () \<longrightarrow> (\<forall>s \<in> set (pp_steps p). \<exists>n. node_at h' (step_target s) = Some n \<and> step_result s n)"
    for r :: "LswError + unit" and h' :: "'a host"
  proof
    show kept: "\<forall>q n. node_at h q = Some n \<longrightarrow> node_at h' q = Some n"
    proof (intro allI impI)
      fix q n assume "node_at h q = Some n"
      moreover from this have "q \<notin> step_target ` set (pp_steps p)" using steps(2) by auto
      ultimately show "node_at h' q = Some n" using same by simp
    qed
    show "r = Inr () \<longrightarrow> prepared dir h'"
    proof (intro impI, unfold prepared_def, clarify)
      fix q test assume "r = Inr ()" and "(q, test) \<in> set (places dir)"
      from steps(3) [OF this(2)] made [rule_format, OF this(1)] kept
      show "\<exists>n. node_at h' q = Some n \<and> test n" by blast
    qed
  qed
  note outcome = this
  show ?thesis
  proof (cases "pp_missing_capabilities p = []")
    case True
    show ?thesis
      unfolding provision_apply_def if_not_P [OF not_not [THEN iffD2], OF True]
      by (rule post_mono [OF apply_steps_outcome [OF assms(1) steps(1)]], elim conjE, rule outcome)
  qed (simp add: provision_apply_def wp)
qed

text \<open>
  C30: preparing an instance never touches what is already there, whatever fails on the way; when
  it succeeds, the directories, the variable store and the disk are in place, and a second
  preparation has nothing to do.
\<close>

theorem preparation_completes:
  assumes "honest os" and "img_stays os" and "provision_plan os c m dir h = Some (Inr p, h1)"
    and "provision_apply os p h1 = Some (r, h2)"
  shows "(\<forall>q n. node_at h q = Some n \<longrightarrow> node_at h2 q = Some n)
    \<and> (r = Inr () \<longrightarrow> prepared dir h2 \<and> (\<forall>p' h3. provision_plan os c m dir h2 = Some (Inr p', h3) \<longrightarrow> preparation_is_ready p'))"
proof -
  from postD [OF provision_plan_outcome [OF assms(1)] assms(3)]
  have p: "unchanged h h1" "planned_places h dir p" by auto
  then have "planned_places h1 dir p" by (simp add: planned_places_def planned_for_same)
  from postD [OF provision_apply_outcome [OF assms(2) this] assms(4)] p(1)
  have h2: "\<forall>q n. node_at h q = Some n \<longrightarrow> node_at h2 q = Some n" "r = Inr () \<longrightarrow> prepared dir h2"
    by (simp_all add: leaves_def)
  have "preparation_is_ready p'" if "provision_plan os c m dir h2 = Some (Inr p', h3)" "prepared dir h2" for p' h3
    using postD [OF provision_plan_outcome [OF assms(1)] that(1)] that(2) by (auto intro: planned_places_ready)
  with h2 show ?thesis by blast
qed

text \<open>A host where the instance has nothing but its directory and the tools are found.\<close>

definition img_os :: "unit host_os" where
  "img_os = sample_os\<lparr>ho_command := (\<lambda>program arguments h.
     (Inr (Exited 0), h\<lparr>h_nodes := AList.update (arguments ! 3) (Regular 420 ''image'') (h_nodes h)\<rparr>))\<rparr>"

definition bare_host :: "unit host" where
  "bare_host = \<lparr>h_nodes = [(''/i'', Directory 448), (''/f/VARS.fd'', Regular 420 ''vars'')], h_rest = ()\<rparr>"

definition img_capabilities :: HostCapabilities where
  "img_capabilities = (capabilities_unavailable Linux)\<lparr>hc_qemu_img := Some ''/usr/bin/qemu-img'', hc_ovmf_vars := Some ''/f/VARS.fd''\<rparr>"

lemma img_os_stays: "img_stays img_os" "honest img_os"
  by (auto simp: img_stays_def img_os_def node_at_def update_conv' honest_def sample_os_def wf_host_def distinct_update)

theorem preparation_completes_witness:
  "\<exists>p h1 h2. provision_plan img_os img_capabilities (sample_manifest []) ''/i'' bare_host = Some (Inr p, h1)
     \<and> length (pp_steps p) = 4 \<and> provision_apply img_os p h1 = Some (Inr (), h2)
     \<and> prepared ''/i'' h2 \<and> node_at h2 ''/f/VARS.fd'' = Some (Regular 420 ''vars'')"
proof -
  have "case provision_plan img_os img_capabilities (sample_manifest []) ''/i'' bare_host of
      Some (Inr p, h1) \<Rightarrow> length (pp_steps p) = 4 \<and>
        (case provision_apply img_os p h1 of Some (r, h2) \<Rightarrow> is_ok r | None \<Rightarrow> False)
    | _ \<Rightarrow> False" by code_simp
  then obtain p h1 h2 where p: "provision_plan img_os img_capabilities (sample_manifest []) ''/i'' bare_host = Some (Inr p, h1)"
    and len: "length (pp_steps p) = 4" and h2: "provision_apply img_os p h1 = Some (Inr (), h2)"
    by (auto split: option.splits prod.splits sum.splits simp: ok_iff)
  have "node_at bare_host ''/f/VARS.fd'' = Some (Regular 420 ''vars'')" by (simp add: node_at_def bare_host_def)
  with preparation_completes [OF img_os_stays(2,1) p h2] p len h2 show ?thesis by blast
qed


section \<open>The Samba configuration\<close>

text \<open>
  Neither a path nor the name of the account can add a line to the configuration: it has exactly the
  lines of the template.
\<close>

lemma samba_config_lines:
  assumes "samba_config runtime share_root unix_user = Inr text'"
    and "list_all (\<lambda>c. is_ascii_alphanumeric c \<or> c \<in> set ''_.-'') unix_user"
  shows "lines text' = samba_lines runtime share_root unix_user"
proof -
  have clean: "NL \<notin> set v \<and> CR \<notin> set v" if "samba_value v = Inr v'" for v v'
    using that by (auto simp: samba_value_def ok_iff path_to_str_def list_ex_iff split: if_splits)
  have same: "v' = v" if "samba_value v = Inr v'" for v v'
    using that by (auto simp: samba_value_def ok_iff path_to_str_def split: if_splits)
  obtain r s where rs: "samba_value runtime = Inr r" "samba_value share_root = Inr s"
    and text': "text' = concat (map (\<lambda>line. line @ [NL]) (samba_lines r s unix_user))"
    using assms(1) by (auto simp: samba_config_def ok_iff)
  have user: "NL \<notin> set unix_user \<and> CR \<notin> set unix_user"
    using assms(2) by (auto simp: list_all_iff NL_def CR_def is_ascii_alphanumeric_def is_ascii_alphabetic_def
        is_ascii_digit_def is_ascii_lowercase_def is_ascii_uppercase_def char_code_def)
  have "\<forall>l \<in> set (samba_lines runtime share_root unix_user). NL \<notin> set l \<and> CR \<notin> set l"
    using clean [OF rs(1)] clean [OF rs(2)] user
    by (simp add: samba_lines_def TAB_def NL_def CR_def LIVE_SMB_PASSWORD_FILE_def LIVE_SMB_USERNAME_MAP_FILE_def)
  then show ?thesis
    unfolding text' same [OF rs(1)] same [OF rs(2)] by (intro lines_concat) auto
qed

end
