(* ===== verification/Qemu_Evidence.thy ===== *)
theory Qemu_Evidence
  imports Qemu_Plan Store_Access Path_Names
begin

text \<open>
  Which QEMU process belongs to an instance (\<open>supervisor/runtime.rs\<close> of \<open>lsw-daemon\<close>): the pid file of
  the instance and the command lines under \<open>/proc\<close> are evidence that a process of an earlier daemon is
  still alive.  The command line that the planner makes is recognised, unless a comma in the path of
  the instance has been doubled in it.
\<close>

section \<open>Definitions\<close>

datatype QemuProcessEvidence = Live | Gone | Unknown

definition NUL :: char where "NUL = CHR 0x00"

definition command_has_exact_option :: "string list \<Rightarrow> string \<Rightarrow> string \<Rightarrow> bool" where
  "command_has_exact_option arguments option value \<longleftrightarrow> list_ex (\<lambda>pair. pair = (option, value)) (zip arguments (tl arguments))"

definition qemu_command_matches_instance :: "string \<Rightarrow> string \<Rightarrow> string \<Rightarrow> bool" where
  "qemu_command_matches_instance command_line dir name =
     (let arguments = map path_display (filter (\<lambda>argument. argument \<noteq> []) (split_char [NUL] command_line))
      in case arguments of
           [] \<Rightarrow> False
         | program # _ \<Rightarrow>
             (case path_file_name program of
                None \<Rightarrow> False
              | Some program_name \<Rightarrow>
                  if strip_prefix program_name ''qemu-system-'' = None then False
                  else let qmp = ''unix:'' @ path_display (path_join dir ''run/qmp.sock'') @ '',server=on,wait=off'';
                           pid_file = path_display (path_join dir ''run/qemu.pid'')
                       in command_has_exact_option arguments ''-name'' name
                          \<and> command_has_exact_option arguments ''-qmp'' qmp
                          \<and> command_has_exact_option arguments ''-pidfile'' pid_file))"

text \<open>A process id that names a process other than \<open>init\<close>.\<close>

definition parse_pid :: "string \<Rightarrow> u32 option" where
  "parse_pid s = (case parse_word s of Inl _ \<Rightarrow> None | Inr pid \<Rightarrow> if pid > 1 then Some pid else None)"

fun scan_processes ::
  "'w host_os \<Rightarrow> string \<Rightarrow> string \<Rightarrow> string \<Rightarrow> bool \<Rightarrow> (string \<times> fs_node) list \<Rightarrow> ('w host, 'e, QemuProcessEvidence) io" where
  "scan_processes os proc_root dir name inspection_failed [] =
     io_return (if inspection_failed then Unknown else Gone)"
| "scan_processes os proc_root dir name inspection_failed ((entry, node) # entries) =
     io_bind (io_attempt (read_entry os (path_join proc_root entry))) (\<lambda>taken.
     case taken of
       Inl _ \<Rightarrow> scan_processes os proc_root dir name True entries
     | Inr _ \<Rightarrow>
         if \<not> utf8_valid entry \<or> parse_pid entry = None then scan_processes os proc_root dir name inspection_failed entries
         else io_bind (io_attempt (read_file os (path_join (path_join proc_root entry) ''cmdline''))) (\<lambda>command.
              case command of
                Inr command_line \<Rightarrow>
                  if command_line \<noteq> [] \<and> qemu_command_matches_instance command_line dir name then io_return Live
                  else scan_processes os proc_root dir name inspection_failed entries
              | Inl e \<Rightarrow> scan_processes os proc_root dir name (inspection_failed \<or> e \<noteq> NotFound) entries))"

definition scan_exact_qemu_process ::
  "'w host_os \<Rightarrow> string \<Rightarrow> string \<Rightarrow> string \<Rightarrow> ('w host, 'e, QemuProcessEvidence) io" where
  "scan_exact_qemu_process os proc_root dir name =
     io_bind (io_attempt (read_dir os proc_root)) (\<lambda>r.
     case r of
       Inl _ \<Rightarrow> io_return Unknown
     | Inr entries \<Rightarrow> scan_processes os proc_root dir name False entries)"

definition evidence_of_pid ::
  "'w host_os \<Rightarrow> string \<Rightarrow> string \<Rightarrow> string \<Rightarrow> u32 \<Rightarrow> ('w host, 'e, QemuProcessEvidence) io" where
  "evidence_of_pid os proc_root dir name pid =
     io_bind (io_attempt (read_file os (path_join (path_join proc_root (decimal (unat pid))) ''cmdline''))) (\<lambda>command.
     case command of
       Inr command_line \<Rightarrow>
         if command_line = [] then io_return Gone
         else io_return (if qemu_command_matches_instance command_line dir name then Live else Gone)
     | Inl e \<Rightarrow> io_return (if e = NotFound then Gone else Unknown))"

definition qemu_process_evidence_with_proc ::
  "'w host_os \<Rightarrow> string \<Rightarrow> string \<Rightarrow> string \<Rightarrow> ('w host, 'e, QemuProcessEvidence) io" where
  "qemu_process_evidence_with_proc os dir name proc_root =
     (let pid_path = path_join dir ''run/qemu.pid'' in
      io_bind (io_attempt (symlink_metadata os pid_path)) (\<lambda>r.
      case r of
        Inl e \<Rightarrow> if e = NotFound then scan_exact_qemu_process os proc_root dir name else io_return Unknown
      | Inr metadata \<Rightarrow>
          (case metadata of
             Regular mode contents \<Rightarrow>
               if contents = [] \<or> length contents > 32 then io_return Unknown
               else io_bind (io_attempt (read_to_string os pid_path)) (\<lambda>r.
                    case r of
                      Inl _ \<Rightarrow> io_return Unknown
                    | Inr value \<Rightarrow>
                        (case parse_pid (trim value) of
                           None \<Rightarrow> io_return Unknown
                         | Some pid \<Rightarrow> evidence_of_pid os proc_root dir name pid))
           | _ \<Rightarrow> io_return Unknown)))"

definition qemu_process_evidence ::
  "'w host_os \<Rightarrow> string \<Rightarrow> string \<Rightarrow> bool \<Rightarrow> ('w host, 'e, QemuProcessEvidence) io" where
  "qemu_process_evidence os dir name owned_by_supervisor =
     (if owned_by_supervisor then io_return Live else qemu_process_evidence_with_proc os dir name ''/proc'')"


section \<open>Recognising planned command lines\<close>

text \<open>How Linux shows the arguments of a process: each is followed by a zero byte.\<close>

definition proc_cmdline :: "string \<Rightarrow> string list \<Rightarrow> string" where
  "proc_cmdline program arguments = concat (map (\<lambda>a. a @ [NUL]) (program # arguments))"

text \<open>An argument that a process can be given and that is text.\<close>

definition plain_argument :: "string \<Rightarrow> bool" where
  "plain_argument a \<longleftrightarrow> NUL \<notin> set a \<and> utf8_valid a"

lemma split_cmdline:
  "list_all plain_argument (program # arguments) \<Longrightarrow> split_char [NUL] (proc_cmdline program arguments) = program # arguments @ [[]]"
proof (induction arguments arbitrary: program)
  case Nil
  then show ?case using split_char_append [of program "[NUL]" NUL "[]"]
    by (auto simp: proc_cmdline_def plain_argument_def)
next
  case (Cons a as)
  then have "split_char [NUL] (proc_cmdline a as) = a # as @ [[]]" by simp
  moreover have "proc_cmdline program (a # as) = program @ NUL # proc_cmdline a as"
    by (simp add: proc_cmdline_def)
  moreover have "\<forall>x \<in> set program. x \<notin> set [NUL]" using Cons.prems by (auto simp: plain_argument_def)
  ultimately show ?case using split_char_append [of program "[NUL]" NUL] by simp
qed

lemma has_option_iff:
  "command_has_exact_option arguments option value \<longleftrightarrow> (\<exists>xs ys. arguments = xs @ option # value # ys)"
proof (induction arguments)
  case (Cons a as)
  have "command_has_exact_option (a # as) option value \<longleftrightarrow>
      (\<exists>ys. a # as = option # value # ys) \<or> command_has_exact_option as option value"
    by (cases as) (auto simp: command_has_exact_option_def)
  also have "\<dots> \<longleftrightarrow> (\<exists>xs ys. a # as = xs @ option # value # ys)"
    unfolding Cons.IH by (metis (no_types, opaque_lifting) append_Cons append_Nil list.inject neq_Nil_conv)
  finally show ?case .
qed (simp add: command_has_exact_option_def)

text \<open>An option that occurs once has one value.\<close>

lemma option_once:
  assumes "o' \<notin> set xs" and "o' \<notin> set (w # ys)"
  shows "command_has_exact_option (xs @ o' # w # ys) o' v \<longleftrightarrow> v = w"
proof
  assume "command_has_exact_option (xs @ o' # w # ys) o' v"
  then obtain as bs where "xs @ o' # (w # ys) = as @ o' # (v # bs)" by (auto simp: has_option_iff)
  moreover from this have "o' \<notin> set as"
    using assms by (metis append_Cons_eq_iff append_eq_append_conv2 in_set_conv_decomp_first)
  ultimately show "v = w" using assms append_Cons_eq_iff [of o' xs "w # ys" as "v # bs"] by auto
next
  assume "v = w"
  then show "command_has_exact_option (xs @ o' # w # ys) o' v" by (auto simp: has_option_iff)
qed

lemma length_replace_comma: "length (replace_with c [c, c] s) = length s + count_list s c"
  by (induction s) (auto simp: replace_with_def)

lemma replace_comma_same: "replace_with c [c, c] s = s \<longleftrightarrow> c \<notin> set s"
proof
  assume "replace_with c [c, c] s = s"
  then have "count_list s c = 0" using length_replace_comma [of c s] by simp
  then show "c \<notin> set s" by (simp add: count_list_0_iff)
next
  assume "c \<notin> set s"
  then show "replace_with c [c, c] s = s" by (induction s) (auto simp: replace_with_def)
qed

lemma path_join_base_utf8: "utf8_valid d \<Longrightarrow> utf8_valid (path_join d [])"
  using utf8_valid_append [of d "''/''"] utf8_valid_ascii [of "''/''"]
  by (simp add: path_join_def path_is_absolute_def char_code_def)

lemma utf8_valid_below: "utf8_valid d \<Longrightarrow> list_all (\<lambda>c. char_code c < 0x80) s \<Longrightarrow> utf8_valid (path_join d [] @ s)"
  by (rule utf8_valid_append [OF path_join_base_utf8 utf8_valid_ascii]) (auto simp: list_all_iff)

lemma pid_path_not_identity: "path_join d ''run/qemu.pid'' \<notin> IDENTITY_OPTIONS"
proof
  assume "path_join d ''run/qemu.pid'' \<in> IDENTITY_OPTIONS"
  moreover have "last (path_join d ''run/qemu.pid'') = CHR ''d''" by (simp add: path_join_base)
  ultimately show False by (auto simp: IDENTITY_OPTIONS_def)
qed

lemma control_arguments_options:
  "''-name'' \<notin> set (control_arguments d)"
  "''-qmp'' \<notin> set (tl (control_arguments d))"
  "''-pidfile'' \<notin> set (take 2 (control_arguments d))" "''-pidfile'' \<notin> set (drop 3 (control_arguments d))"
  using pid_path_not_identity [of d] by (auto simp: control_arguments_def IDENTITY_OPTIONS_def)

text \<open>The program is QEMU.\<close>

definition runs_qemu :: "string \<Rightarrow> bool" where
  "runs_qemu program = (case path_file_name program of None \<Rightarrow> False | Some f \<Rightarrow> strip_prefix f ''qemu-system-'' \<noteq> None)"

lemma runs_qemu_not_identity: "runs_qemu program \<Longrightarrow> program \<notin> IDENTITY_OPTIONS \<and> program \<noteq> []"
proof -
  have "\<not> runs_qemu ''-name''" "\<not> runs_qemu ''-qmp''" "\<not> runs_qemu ''-pidfile''" "\<not> runs_qemu []" by code_simp+
  then show "runs_qemu program \<Longrightarrow> program \<notin> IDENTITY_OPTIONS \<and> program \<noteq> []" by (auto simp: IDENTITY_OPTIONS_def)
qed

lemma label_not_identity: "valid_label n name \<Longrightarrow> name \<notin> IDENTITY_OPTIONS \<and> name \<noteq> []"
  by (auto simp: valid_label_def IDENTITY_OPTIONS_def is_ascii_alphanumeric_def is_ascii_alphabetic_def
      is_ascii_digit_def is_ascii_lowercase_def is_ascii_uppercase_def char_code_def)

lemma qmp_option_same:
  assumes "utf8_valid d" "utf8_valid d'"
  shows "''unix:'' @ path_display (path_join d' ''run/qmp.sock'') @ '',server=on,wait=off''
       = ''unix:'' @ qemu_path (path_join d ''run/qmp.sock'') @ '',server=on,wait=off''
     \<and> path_join d' [] = path_join d []
     \<longleftrightarrow> path_join d' [] = path_join d [] \<and> CHR '','' \<notin> set d"
proof -
  let ?s = "''run/qmp.sock''"
  have display: "path_display (path_join x ?s) = path_join x [] @ ?s" if "utf8_valid x" for x
    using path_display_valid [OF utf8_valid_below [OF that, of ?s]] by (simp add: path_join_base char_code_def)
  have "CHR '','' \<notin> set (path_join d [] @ ?s) \<longleftrightarrow> CHR '','' \<notin> set d"
    by (simp add: path_join_def path_is_absolute_def)
  then have "qemu_path (path_join d ?s) = path_join d [] @ ?s \<longleftrightarrow> CHR '','' \<notin> set d"
    using replace_comma_same [of "CHR '',''" "path_join d [] @ ?s"] unfolding qemu_path_def display [OF assms(1)] by simp
  then show ?thesis
    unfolding display [OF assms(2)] append_same_eq same_append_eq by (metis same_append_eq append_same_eq)
qed

lemma qemu_command_matches_planned:
  assumes args: "arguments = [''-name'', name] @ xs @ control_arguments d" and xs: "set xs \<inter> IDENTITY_OPTIONS = {}"
    and plain: "list_all plain_argument (program # arguments)" and name: "valid_label 63 name"
    and qemu: "runs_qemu program" and utf8: "utf8_valid d" "utf8_valid d'"
  shows "qemu_command_matches_instance (proc_cmdline program arguments) d' name' \<longleftrightarrow>
           name' = name \<and> path_join d' [] = path_join d [] \<and> CHR '','' \<notin> set d"
proof -
  let ?ne = "filter (\<lambda>a. a \<noteq> [])"
  let ?qmp = "\<lambda>f d. ''unix:'' @ f (path_join d ''run/qmp.sock'') @ '',server=on,wait=off''"
  define A where "A = program # ''-name'' # name # ?ne xs @ control_arguments d"
  have ne: "?ne (control_arguments d) = control_arguments d"
    by (auto simp: control_arguments_def path_join_base)
  have A: "map path_display (?ne (split_char [NUL] (proc_cmdline program arguments))) = A"
  proof -
    have "?ne (split_char [NUL] (proc_cmdline program arguments)) = A"
      using split_cmdline [OF plain] runs_qemu_not_identity [OF qemu] label_not_identity [OF name]
      by (simp add: args A_def ne)
    moreover have "map path_display A = A"
      using plain by (intro map_idI) (auto simp: A_def args list_all_iff plain_argument_def)
    ultimately show ?thesis by simp
  qed
  have free: "o' \<notin> set (program # name # ?ne xs)" if "o' \<in> IDENTITY_OPTIONS" for o'
    using that xs runs_qemu_not_identity [OF qemu] label_not_identity [OF name] by auto
  have name_iff: "command_has_exact_option A ''-name'' v \<longleftrightarrow> v = name" for v
    unfolding A_def using free [of "''-name''"] control_arguments_options(1) [of d]
      option_once [of "''-name''" "[program]" name "?ne xs @ control_arguments d" v]
    by (simp add: IDENTITY_OPTIONS_def)
  have qmp_iff: "command_has_exact_option A ''-qmp'' v \<longleftrightarrow> v = ?qmp qemu_path d" for v
    unfolding A_def using free [of "''-qmp''"] control_arguments_options(2) [of d]
      option_once [of "''-qmp''" "program # ''-name'' # name # ?ne xs" "?qmp qemu_path d" "drop 2 (control_arguments d)" v]
    by (simp add: IDENTITY_OPTIONS_def control_arguments_def)
  have pid_iff: "command_has_exact_option A ''-pidfile'' v \<longleftrightarrow> v = path_join d ''run/qemu.pid''" for v
    unfolding A_def using free [of "''-pidfile''"] control_arguments_options(3,4) [of d]
      option_once [of "''-pidfile''" "program # ''-name'' # name # ?ne xs @ take 2 (control_arguments d)"
        "path_join d ''run/qemu.pid''" "drop 4 (control_arguments d)" v]
    by (simp add: IDENTITY_OPTIONS_def control_arguments_def)
  have pid: "path_display (path_join d' ''run/qemu.pid'') = path_join d ''run/qemu.pid'' \<longleftrightarrow> path_join d' [] = path_join d []"
    using path_display_valid [OF utf8_valid_below [OF utf8(2), of "''run/qemu.pid''"]]
    by (simp add: path_join_base char_code_def)
  have "qemu_command_matches_instance (proc_cmdline program arguments) d' name' \<longleftrightarrow>
      name' = name \<and> ?qmp path_display d' = ?qmp qemu_path d \<and> path_join d' [] = path_join d []"
    unfolding qemu_command_matches_instance_def A Let_def
    using qemu name_iff qmp_iff pid_iff pid
    by (simp add: A_def [symmetric] runs_qemu_def split: option.splits) (simp add: A_def runs_qemu_def)
  then show ?thesis using qmp_option_same [OF utf8] by blast
qed

section \<open>Evidence\<close>

lemma symlink_metadata_calm:
  "calm os \<Longrightarrow> node_at h p = Some n \<Longrightarrow> symlink_metadata os p h = Some (Inr n, h)"
  by (simp add: symlink_metadata_def fs_run_calm node_at_def)

lemma read_file_calm:
  "calm os \<Longrightarrow> node_at h p = Some (Regular mode s) \<Longrightarrow> read_file os p h = Some (Inr s, h)"
  by (simp add: read_file_def fs_run_calm node_at_def)

lemma read_to_string_calm:
  "calm os \<Longrightarrow> node_at h p = Some (Regular mode s) \<Longrightarrow> utf8_valid s \<Longrightarrow> read_to_string os p h = Some (Inr s, h)"
  by (simp add: read_to_string_def io_bind_def read_file_calm io_return_def)

lemma decimal_solid: "solid (decimal n)"
proof -
  have "is_ascii_digit (hd (decimal n))" "is_ascii_digit (last (decimal n))" by (rule decimal_digits [of _ n], simp)+
  moreover have "char_code c < 0x80" if "c \<in> set (decimal n)" for c
    using decimal_digits [OF that] by (simp add: is_ascii_digit_def)
  ultimately show ?thesis by (auto simp: solid_def is_ascii_digit_def char_is_whitespace_def)
qed

lemma length_decimal: "n < 10 ^ k \<Longrightarrow> 0 < k \<Longrightarrow> length (decimal n) \<le> k"
proof (induction k arbitrary: n)
  case (Suc k)
  show ?case
  proof (cases "n < 10")
    case False
    with Suc.prems have "n div 10 < 10 ^ k" "0 < k" by (auto intro: Nat.gr0I)
    with Suc.IH [of "n div 10"] False show ?thesis by (subst decimal.simps) simp
  qed (subst decimal.simps, simp)
qed simp

lemma parse_pid_decimal: "1 < pid \<Longrightarrow> parse_pid (decimal (unat pid)) = Some pid"
  by (simp add: parse_pid_def)

lemma proc_cmdline_nonempty: "proc_cmdline program arguments \<noteq> []"
  by (simp add: proc_cmdline_def)

lemma evidence_of_process:
  fixes pid :: u32
  assumes "calm os" and "node_at h (path_join d ''run/qemu.pid'') = Some (Regular mode (decimal (unat pid) @ [NL]))" and "1 < pid"
    and "node_at h (path_join (path_join proc (decimal (unat pid))) ''cmdline'') = Some (Regular mode' (proc_cmdline program arguments))"
  shows "qemu_process_evidence_with_proc os d name proc h =
    Some (Inr (if qemu_command_matches_instance (proc_cmdline program arguments) d name then Live else Gone), h)"
proof -
  have "unat pid < 2 ^ 32" using unsigned_less [of pid] by simp
  then have len: "length (decimal (unat pid)) \<le> 10" by (intro length_decimal) simp_all
  show ?thesis
    using assms len decimal_solid [of "unat pid"]
    by (simp add: qemu_process_evidence_with_proc_def Let_def io_bind_def io_attempt_def symlink_metadata_calm
        read_to_string_calm utf8_valid_line trim_line parse_pid_decimal evidence_of_pid_def read_file_calm
        proc_cmdline_nonempty io_return_def)
qed


section \<open>Properties\<close>

definition sample_capabilities :: HostCapabilities where
  "sample_capabilities = (capabilities_unavailable Linux)\<lparr>hc_qemu_system := Some ''/usr/bin/qemu-system-x86_64'',
     hc_swtpm := Some ''/usr/bin/swtpm'', hc_setsid := Some ''/usr/bin/setsid'', hc_ovmf_code := Some ''/f/CODE.fd''\<rparr>"

lemma plan_planned_result: "plan os planner m dir phase h = Some (Inr p, h') \<Longrightarrow> planned planner m dir p"
  using postD [OF plan_planned] by blast

text \<open>
  The command line that the planner makes for an instance identifies that instance and no
  other: the check that the daemon applies to the arguments of a foreign process accepts it for a
  name and a directory exactly if they are the ones it was planned for, provided that there is no
  comma in the directory.  The planner doubles commas in the address of the QMP socket, which the
  check does not.
\<close>

lemma planned_command_identified:
  assumes "plan os planner m dir phase h = Some (Inr p, h')"
    and "list_all plain_argument (cp_program p # cp_arguments p)" and "runs_qemu (cp_program p)"
    and "utf8_valid dir" and "utf8_valid dir'"
  shows "qemu_command_matches_instance (proc_cmdline (cp_program p) (cp_arguments p)) dir' name \<longleftrightarrow>
           name = is_name (im_spec m) \<and> path_join dir' [] = path_join dir [] \<and> CHR '','' \<notin> set dir"
  using plan_planned_result [OF assms(1)] qemu_command_matches_planned [OF _ _ assms(2)] assms(3-5)
  unfolding planned_def by blast

lemma sample_plan:
  obtains p where "plan sample_os (planner_new sample_capabilities) (sample_manifest []) ''/s/instances/w'' Run empty_host = Some (Inr p, empty_host)"
    and "list_all plain_argument (cp_program p # cp_arguments p)" and "runs_qemu (cp_program p)"
proof -
  have "case plan sample_os (planner_new sample_capabilities) (sample_manifest []) ''/s/instances/w'' Run empty_host of
      Some (Inr p, h) \<Rightarrow> h = empty_host \<and> list_all plain_argument (cp_program p # cp_arguments p) \<and> runs_qemu (cp_program p)
    | _ \<Rightarrow> False" by code_simp
  then show thesis by (auto split: option.splits prod.splits sum.splits intro!: that)
qed

text \<open>
  C29: when a guest that an earlier daemon launched is still running, its pid file is in place and
  the system shows the command line that was planned, then the evidence is that it is alive, unless
  there is a comma in the path of the instance: then a running guest is judged to be gone.
\<close>

theorem running_guest_evidence:
  fixes pid :: u32
  assumes "calm os" and "1 < pid" and "plan os planner m dir phase g = Some (Inr p, g')"
    and "list_all plain_argument (cp_program p # cp_arguments p)" and "runs_qemu (cp_program p)" and "utf8_valid dir"
    and "node_at h (path_join dir ''run/qemu.pid'') = Some (Regular mode (decimal (unat pid) @ [NL]))"
    and "node_at h (path_join (path_join ''/proc'' (decimal (unat pid))) ''cmdline'') =
           Some (Regular mode' (proc_cmdline (cp_program p) (cp_arguments p)))"
  shows "qemu_process_evidence os dir (is_name (im_spec m)) False h =
           Some (Inr (if CHR '','' \<in> set dir then Gone else Live), h)"
proof -
  have "qemu_command_matches_instance (proc_cmdline (cp_program p) (cp_arguments p)) dir (is_name (im_spec m)) \<longleftrightarrow> CHR '','' \<notin> set dir"
    using plan_planned_result [OF assms(3)] qemu_command_matches_planned [OF _ _ assms(4) _ assms(5,6,6)]
    unfolding planned_def by blast
  then show ?thesis by (simp add: qemu_process_evidence_def evidence_of_process [OF assms(1,7,2,8)])
qed

lemma comma_plan:
  obtains p where "plan sample_os (planner_new sample_capabilities) (sample_manifest []) ''/s,t/instances/w'' Run empty_host = Some (Inr p, empty_host)"
    and "list_all plain_argument (cp_program p # cp_arguments p)" and "runs_qemu (cp_program p)"
proof -
  have "case plan sample_os (planner_new sample_capabilities) (sample_manifest []) ''/s,t/instances/w'' Run empty_host of
      Some (Inr p, h) \<Rightarrow> h = empty_host \<and> list_all plain_argument (cp_program p # cp_arguments p) \<and> runs_qemu (cp_program p)
    | _ \<Rightarrow> False" by code_simp
  then show thesis by (auto split: option.splits prod.splits sum.splits intro!: that)
qed

theorem running_guest_evidence_witness:
  "\<exists>p. plan sample_os (planner_new sample_capabilities) (sample_manifest []) ''/s,t/instances/w'' Run empty_host = Some (Inr p, empty_host)
     \<and> qemu_process_evidence sample_os ''/s,t/instances/w'' ''w'' False
         (empty_host\<lparr>h_nodes := [(''/s,t/instances/w/run/qemu.pid'', Regular 384 (''77'' @ [NL])),
                                (''/proc/77/cmdline'', Regular 292 (proc_cmdline (cp_program p) (cp_arguments p)))]\<rparr>)
       = Some (Inr Gone, empty_host\<lparr>h_nodes := [(''/s,t/instances/w/run/qemu.pid'', Regular 384 (''77'' @ [NL])),
                                (''/proc/77/cmdline'', Regular 292 (proc_cmdline (cp_program p) (cp_arguments p)))]\<rparr>)"
proof -
  obtain p where p: "plan sample_os (planner_new sample_capabilities) (sample_manifest []) ''/s,t/instances/w'' Run empty_host = Some (Inr p, empty_host)"
    and args: "list_all plain_argument (cp_program p # cp_arguments p)" "runs_qemu (cp_program p)"
    by (rule comma_plan)
  have utf8: "utf8_valid ''/s,t/instances/w''" by code_simp
  have pid: "decimal (unat (77 :: u32)) = ''77''" "(1 :: u32) < 77" by code_simp+
  have paths: "path_join ''/s,t/instances/w'' ''run/qemu.pid'' = ''/s,t/instances/w/run/qemu.pid''"
    "path_join (path_join ''/proc'' ''77'') ''cmdline'' = ''/proc/77/cmdline''"
    "is_name (im_spec (sample_manifest [])) = ''w''" by code_simp+
  show ?thesis
    using running_guest_evidence [OF sample_os_calm(1) pid(2) p args utf8, where mode = 384 and mode' = 292 and h = "empty_host\<lparr>h_nodes :=
        [(''/s,t/instances/w/run/qemu.pid'', Regular 384 (''77'' @ [NL])),
         (''/proc/77/cmdline'', Regular 292 (proc_cmdline (cp_program p) (cp_arguments p)))]\<rparr>"]
    unfolding pid paths by (intro exI [of _ p]) (simp add: p node_at_def)
qed

end
