(* ===== verification/Qmp_Client.thy ===== *)
theory Qmp_Client
  imports Provision Qemu_Evidence Session
begin

text \<open>
  The client of QEMU's machine protocol (\<open>qmp.rs\<close> of \<open>lsw-daemon\<close>), and what the daemon needs of the
  system besides files: sockets, child processes and clocks.  All of it happens while other programs
  run, so that every call may find the whole host changed.
\<close>

section \<open>The system of the daemon\<close>

text \<open>The values of \<open>serde_json\<close>; its parser and printer are parameters.\<close>

datatype json =
    JNull
  | JBool bool
  | JNumber int
  | JString string
  | JArray "json list"
  | JObject "(string \<times> json) list"

fun json_get :: "json \<Rightarrow> string \<Rightarrow> json option" where
  "json_get (JObject members) key = map_of members key"
| "json_get _ key = None"

fun json_as_str :: "json \<Rightarrow> string option" where
  "json_as_str (JString s) = Some s"
| "json_as_str _ = None"

fun json_is_object :: "json \<Rightarrow> bool" where
  "json_is_object (JObject members) \<longleftrightarrow> True"
| "json_is_object _ \<longleftrightarrow> False"

text \<open>A connection and a child process are known by a number.  The clock counts milliseconds.\<close>

type_synonym ('w, 'a) host_call = "'w host \<Rightarrow> (io_error + 'a) \<times> 'w host"

record 'w daemon_os =
  do_fs :: "'w host_os"
  do_loops :: nat
  do_connect :: "string \<Rightarrow> ('w, nat) host_call"
  do_set_timeouts :: "nat \<Rightarrow> ('w, unit) host_call"
  do_write_line :: "nat \<Rightarrow> string \<Rightarrow> ('w, unit) host_call"
  do_read_line :: "nat \<Rightarrow> nat \<Rightarrow> ('w, string) host_call"
  do_json_parse :: "string \<Rightarrow> string + json"
  do_json_text :: "json \<Rightarrow> string"
  do_spawn :: "string \<Rightarrow> string list \<Rightarrow> ('w, nat) host_call"
  do_try_wait :: "nat \<Rightarrow> ('w, ExitStatus option) host_call"
  do_kill :: "nat \<Rightarrow> ('w, unit) host_call"
  do_wait :: "nat \<Rightarrow> ('w, ExitStatus) host_call"
  do_now :: "'w host \<Rightarrow> nat \<times> 'w host"
  do_sleep :: "nat \<Rightarrow> 'w host \<Rightarrow> 'w host"
  do_unix_seconds :: "'w \<Rightarrow> u64 \<times> 'w"
  do_tcp_connect :: "u16 \<Rightarrow> ('w, nat) host_call"
  do_tcp_write :: "nat \<Rightarrow> bytes \<Rightarrow> ('w, unit) host_call"
  do_tcp_input :: "nat \<Rightarrow> 'w host \<Rightarrow> bytes \<times> 'w host"
  do_md4 :: "bytes \<Rightarrow> bytes"
  do_sha256 :: "bytes \<Rightarrow> bytes"

text \<open>A boxed error is its text.\<close>

type_synonym ('w, 'a) host_io = "('w host, message, 'a) io"

definition boxed :: "('w, 'a) fs \<Rightarrow> ('w, 'a) host_io" where
  "boxed = io_map_error (\<lambda>e. [Disp (io_error_display e)])"

definition boxed_lsw :: "('w, 'a) store \<Rightarrow> ('w, 'a) host_io" where
  "boxed_lsw = io_map_error lsw_error_display"

definition sys :: "('w, 'a) host_call \<Rightarrow> ('w, 'a) fs" where
  "sys f = (\<lambda>h. Some (f h))"

definition ask :: "('w host \<Rightarrow> 'a \<times> 'w host) \<Rightarrow> ('w host, 'e, 'a) io" where
  "ask f = (\<lambda>h. case f h of (x, h') \<Rightarrow> Some (Inr x, h'))"

definition sleep :: "'w daemon_os \<Rightarrow> nat \<Rightarrow> ('w host, 'e, unit) io" where
  "sleep os ms = io_modify (do_sleep os ms)"


section \<open>The client\<close>

definition MAX_QMP_MESSAGE_BYTES :: nat where "MAX_QMP_MESSAGE_BYTES = 256 * 1024"
definition MAX_QMP_REQUEST_BYTES :: nat where "MAX_QMP_REQUEST_BYTES = 4096"

definition read_message :: "'w daemon_os \<Rightarrow> nat \<Rightarrow> ('w, json) host_io" where
  "read_message os qmp =
     io_bind (boxed (sys (do_read_line os qmp (MAX_QMP_MESSAGE_BYTES + 1)))) (\<lambda>line.
     if line = [] then io_fail [Text ''QMP socket closed unexpectedly'']
     else if length line > MAX_QMP_MESSAGE_BYTES \<or> last line \<noteq> NL
     then io_fail [Text ''QMP message was too large or unterminated'']
     else case do_json_parse os line of
            Inl e \<Rightarrow> io_fail [Text ''QMP message was not valid JSON: '', Disp e]
          | Inr message \<Rightarrow>
              if \<not> json_is_object message then io_fail [Text ''QMP message was not a JSON object'']
              else io_return message)"

text \<open>Events are skipped until the response arrives; \<open>n\<close> messages are read at most.\<close>

fun read_responses :: "nat \<Rightarrow> 'w daemon_os \<Rightarrow> nat \<Rightarrow> ('w, json) host_io" where
  "read_responses 0 os qmp = io_stuck"
| "read_responses (Suc n) os qmp =
     io_bind (read_message os qmp) (\<lambda>message.
     case json_get message ''error'' of
       Some error \<Rightarrow> io_fail [Text ''QMP command failed: '', Disp (do_json_text os error)]
     | None \<Rightarrow>
         (case json_get message ''return'' of
            Some value \<Rightarrow> io_return value
          | None \<Rightarrow>
              if json_get message ''event'' = None
              then io_fail [Text ''unexpected QMP message: '', Disp (do_json_text os message)]
              else read_responses n os qmp))"

definition read_response :: "'w daemon_os \<Rightarrow> nat \<Rightarrow> ('w, json) host_io" where
  "read_response os = read_responses (do_loops os) os"

definition qmp_send :: "'w daemon_os \<Rightarrow> nat \<Rightarrow> json \<Rightarrow> ('w, unit) host_io" where
  "qmp_send os qmp document =
     (let encoded = do_json_text os document in
      if length encoded > MAX_QMP_REQUEST_BYTES then io_fail [Text ''QMP request document is too large'']
      else boxed (sys (do_write_line os qmp encoded)))"

definition execute_document :: "'w daemon_os \<Rightarrow> nat \<Rightarrow> json \<Rightarrow> ('w, json) host_io" where
  "execute_document os qmp document = io_bind (qmp_send os qmp document) (\<lambda>_. read_response os qmp)"

definition qmp_execute :: "'w daemon_os \<Rightarrow> nat \<Rightarrow> string \<Rightarrow> ('w, json) host_io" where
  "qmp_execute os qmp command =
     (if \<not> list_all (\<lambda>c. is_ascii_lowercase c \<or> c = CHR ''-'' \<or> c = CHR ''_'') command
      then io_fail [Text ''invalid QMP command name'']
      else execute_document os qmp (JObject [(''execute'', JString command)]))"

definition qmp_connect :: "'w daemon_os \<Rightarrow> string \<Rightarrow> ('w, nat) host_io" where
  "qmp_connect os path =
     io_bind (boxed (sys (do_connect os path))) (\<lambda>qmp.
     io_bind (boxed (sys (do_set_timeouts os qmp))) (\<lambda>_.
     io_bind (read_message os qmp) (\<lambda>greeting.
     if \<not> (case json_get greeting ''QMP'' of None \<Rightarrow> False | Some v \<Rightarrow> json_is_object v)
     then io_fail [Text ''QMP socket returned an invalid greeting'']
     else io_bind (qmp_execute os qmp ''qmp_capabilities'') (\<lambda>_. io_return qmp))))"

definition qmp_query_status :: "'w daemon_os \<Rightarrow> nat \<Rightarrow> ('w, string) host_io" where
  "qmp_query_status os qmp =
     io_bind (qmp_execute os qmp ''query-status'') (\<lambda>response.
     case Option.bind (json_get response ''status'') json_as_str of
       None \<Rightarrow> io_fail [Text ''QMP query-status response did not contain a status'']
     | Some status \<Rightarrow> io_return status)"

definition qmp_system_powerdown :: "'w daemon_os \<Rightarrow> nat \<Rightarrow> ('w, unit) host_io" where
  "qmp_system_powerdown os qmp = io_bind (qmp_execute os qmp ''system_powerdown'') (\<lambda>_. io_return ())"

definition qmp_pause :: "'w daemon_os \<Rightarrow> nat \<Rightarrow> ('w, unit) host_io" where
  "qmp_pause os qmp = io_bind (qmp_execute os qmp ''stop'') (\<lambda>_. io_return ())"

definition qmp_resume :: "'w daemon_os \<Rightarrow> nat \<Rightarrow> ('w, unit) host_io" where
  "qmp_resume os qmp = io_bind (qmp_execute os qmp ''cont'') (\<lambda>_. io_return ())"

definition qmp_balloon :: "'w daemon_os \<Rightarrow> nat \<Rightarrow> u64 \<Rightarrow> ('w, unit) host_io" where
  "qmp_balloon os qmp target_bytes =
     io_bind (execute_document os qmp (JObject [(''execute'', JString ''balloon''),
        (''arguments'', JObject [(''value'', JNumber (uint target_bytes))])])) (\<lambda>_. io_return ())"

text \<open>The text of an error; those of this client consist of literal and displayed parts.\<close>

fun fragment_text :: "fragment \<Rightarrow> string" where
  "fragment_text (Text s) = s"
| "fragment_text (Disp s) = s"
| "fragment_text (Num n) = decimal n"
| "fragment_text (Hex width n) = []"
| "fragment_text (Dbg s) = s"

definition message_text :: "message \<Rightarrow> string" where
  "message_text m = concat (map fragment_text m)"

definition str_contains :: "string \<Rightarrow> string \<Rightarrow> bool" where
  "str_contains s t \<longleftrightarrow> list_ex (\<lambda>n. take (length t) (drop n s) = t) [0..<Suc (length s)]"

definition is_disconnect :: "message \<Rightarrow> bool" where
  "is_disconnect error =
     (let shown = message_text error
      in str_contains shown ''closed unexpectedly'' \<or> str_contains shown ''Broken pipe'' \<or> str_contains shown ''Connection reset'')"

definition qmp_quit :: "'w daemon_os \<Rightarrow> nat \<Rightarrow> ('w, unit) host_io" where
  "qmp_quit os qmp =
     io_bind (qmp_send os qmp (JObject [(''execute'', JString ''quit'')])) (\<lambda>_.
     io_bind (io_attempt (read_response os qmp)) (\<lambda>r.
     case r of
       Inr _ \<Rightarrow> io_return ()
     | Inl error \<Rightarrow> if is_disconnect error then io_return () else io_fail error))"

end
