(* ===== verification/Supervisor_Runtime.thy ===== *)
theory Supervisor_Runtime
  imports Qmp_Client
begin

text \<open>
  The helpers of the supervisor (\<open>supervisor/runtime.rs\<close> of \<open>lsw-daemon\<close>): markers in the directory of
  an instance, child processes, waiting and cleaning up.
\<close>

section \<open>Files and markers\<close>

text \<open>
  \<open>OpenOptions\<close> with \<open>create\<close> and \<open>append\<close> or \<open>truncate\<close>, and mode \<open>0o600\<close>; the last is for new files.
  Neither is called with \<open>O_NOFOLLOW\<close>: a symbolic link at the path would be followed and its target
  changed.  The tree of files records no targets, so a link is opened without an effect here; what is
  shown of these operations is about paths at which no link was planted.
\<close>

definition open_append :: "'w host_os \<Rightarrow> string \<Rightarrow> ('w, unit) fs" where
  "open_append os p = fs_run os (FsOpen p) (\<lambda>w ns.
     case map_of ns p of
       None \<Rightarrow> (Inr (), AList.update p (Regular 384 []) ns)
     | Some (Directory _) \<Rightarrow> (Inl (OsError ''Is a directory (os error 21)''), ns)
     | Some SocketNode \<Rightarrow> (Inl (OsError ''No such device or address (os error 6)''), ns)
     | Some _ \<Rightarrow> (Inr (), ns))"

definition open_truncate :: "'w host_os \<Rightarrow> string \<Rightarrow> ('w, unit) fs" where
  "open_truncate os p = fs_run os (FsOpen p) (\<lambda>w ns.
     case map_of ns p of
       None \<Rightarrow> (Inr (), AList.update p (Regular 384 []) ns)
     | Some (Regular mode _) \<Rightarrow> (Inr (), AList.update p (Regular mode []) ns)
     | Some (Directory _) \<Rightarrow> (Inl (OsError ''Is a directory (os error 21)''), ns)
     | Some SocketNode \<Rightarrow> (Inl (OsError ''No such device or address (os error 6)''), ns)
     | Some Symlink \<Rightarrow> (Inr (), ns))"

definition append_log :: "'w daemon_os \<Rightarrow> string \<Rightarrow> ('w, unit) fs" where
  "append_log os path = open_append (do_fs os) path"

definition spawn_command :: "'w daemon_os \<Rightarrow> CommandInvocation \<Rightarrow> string \<Rightarrow> string \<Rightarrow> ('w, nat) host_io" where
  "spawn_command os invocation dir log_name =
     io_bind (boxed (append_log os (path_join dir log_name))) (\<lambda>_.
     boxed (sys (do_spawn os (ci_program invocation) (ci_arguments invocation))))"

definition write_private_marker :: "'w daemon_os \<Rightarrow> string \<Rightarrow> string \<Rightarrow> ('w, unit) host_io" where
  "write_private_marker os path value =
     boxed (io_bind (open_truncate (do_fs os) path) (\<lambda>_.
       io_bind (write_contents (do_fs os) path (value @ [NL])) (\<lambda>_.
       sync_file (do_fs os) path)))"

definition write_shutdown_marker :: "'w daemon_os \<Rightarrow> string \<Rightarrow> ('w, unit) host_io" where
  "write_shutdown_marker os dir = write_private_marker os (path_join dir ''run/shutdown.requested'') ''requested''"

definition write_hibernate_marker :: "'w daemon_os \<Rightarrow> string \<Rightarrow> ('w, unit) host_io" where
  "write_hibernate_marker os dir = write_private_marker os (path_join dir ''run/hibernate.requested'') ''requested''"

text \<open>\<open>matches!(fs::symlink_metadata(path), Ok(metadata) if ..)\<close> with a regular file.\<close>

definition regular_file_at :: "'w daemon_os \<Rightarrow> string \<Rightarrow> ('w host, 'e, bool) io" where
  "regular_file_at os path =
     io_bind (io_attempt (symlink_metadata (do_fs os) path)) (\<lambda>r.
     io_return (case r of Inr metadata \<Rightarrow> is_regular metadata | Inl _ \<Rightarrow> False))"

definition requested_marker_exists :: "'w daemon_os \<Rightarrow> StateStore \<Rightarrow> string \<Rightarrow> string \<Rightarrow> ('w host, 'e, bool) io" where
  "requested_marker_exists os st name file_name =
     (case instance_dir st name of
        Inl _ \<Rightarrow> io_return False
      | Inr dir \<Rightarrow> regular_file_at os (path_join (path_join dir ''run'') file_name))"

definition shutdown_was_requested :: "'w daemon_os \<Rightarrow> StateStore \<Rightarrow> string \<Rightarrow> ('w host, 'e, bool) io" where
  "shutdown_was_requested os st name =
     (case instance_dir st name of
        Inl _ \<Rightarrow> io_return False
      | Inr dir \<Rightarrow> regular_file_at os (path_join dir ''run/shutdown.requested''))"

definition hibernate_was_requested :: "'w daemon_os \<Rightarrow> StateStore \<Rightarrow> string \<Rightarrow> ('w host, 'e, bool) io" where
  "hibernate_was_requested os st name = requested_marker_exists os st name ''hibernate.requested''"

definition state_after_qemu_exit :: "bool \<Rightarrow> bool \<Rightarrow> bool \<Rightarrow> InstanceState" where
  "state_after_qemu_exit shutdown_requested hibernate_requested exited_well =
     (if hibernate_requested then Hibernated
      else if shutdown_requested \<or> exited_well then Stopped
      else InstanceState.Failed)"

text \<open>Removes a regular file and keeps silent about everything else.\<close>

definition remove_regular :: "'w daemon_os \<Rightarrow> string \<Rightarrow> ('w host, 'e, unit) io" where
  "remove_regular os path =
     io_bind (regular_file_at os path) (\<lambda>regular.
     if regular then io_ignore (unlink_file (do_fs os) path) else io_return ())"

definition remove_requested_marker :: "'w daemon_os \<Rightarrow> StateStore \<Rightarrow> string \<Rightarrow> string \<Rightarrow> ('w host, 'e, unit) io" where
  "remove_requested_marker os st name file_name =
     (case instance_dir st name of
        Inl _ \<Rightarrow> io_return ()
      | Inr dir \<Rightarrow> remove_regular os (path_join (path_join dir ''run'') file_name))"

definition remove_shutdown_marker :: "'w daemon_os \<Rightarrow> StateStore \<Rightarrow> string \<Rightarrow> ('w host, 'e, unit) io" where
  "remove_shutdown_marker os st name = remove_requested_marker os st name ''shutdown.requested''"

definition remove_hibernate_marker :: "'w daemon_os \<Rightarrow> StateStore \<Rightarrow> string \<Rightarrow> ('w host, 'e, unit) io" where
  "remove_hibernate_marker os st name = remove_requested_marker os st name ''hibernate.requested''"

definition parse_u64 :: "string \<Rightarrow> u64 option" where
  "parse_u64 s = (case parse_word s of Inl _ \<Rightarrow> None | Inr n \<Rightarrow> Some n)"

definition read_activity :: "'w daemon_os \<Rightarrow> StateStore \<Rightarrow> string \<Rightarrow> ('w host, 'e, u64 option) io" where
  "read_activity os st name =
     (case instance_dir st name of
        Inl _ \<Rightarrow> io_return None
      | Inr dir \<Rightarrow>
          let path = path_join dir ''run/last-activity'' in
          io_bind (regular_file_at os path) (\<lambda>regular.
          if \<not> regular then io_return None
          else io_bind (io_attempt (read_to_string (do_fs os) path)) (\<lambda>r.
               io_return (case r of Inl _ \<Rightarrow> None | Inr value \<Rightarrow> parse_u64 (trim value)))))"

definition unix_seconds :: "'w daemon_os \<Rightarrow> ('w host, 'e, u64) io" where
  "unix_seconds os = os_ask (do_unix_seconds os)"


section \<open>Memory pressure\<close>

text \<open>\<open>split_ascii_whitespace\<close> and the first of its parts.\<close>

definition ascii_blank :: "char \<Rightarrow> bool" where
  "ascii_blank c \<longleftrightarrow> char_code c \<in> {0x20, 0x09, 0x0A, 0x0C, 0x0D}"

definition first_word :: "string \<Rightarrow> string option" where
  "first_word s = (case takeWhile (\<lambda>c. \<not> ascii_blank c) (dropWhile ascii_blank s) of [] \<Rightarrow> None | w \<Rightarrow> Some w)"

definition meminfo_value :: "string \<Rightarrow> string \<Rightarrow> u64 option" where
  "meminfo_value meminfo name =
     find_map (\<lambda>line. Option.bind (strip_prefix line name) (\<lambda>rest. Option.bind (first_word (trim rest)) parse_u64))
       (lines meminfo)"

text \<open>The product on the left saturates; the one on the right wraps, as it does in a release build.\<close>

definition saturating_mul :: "u64 \<Rightarrow> u64 \<Rightarrow> u64" where
  "saturating_mul a b = (if unat a * unat b < 2 ^ 64 then a * b else - 1)"

definition memory_is_short :: "u64 option \<Rightarrow> u64 option \<Rightarrow> bool" where
  "memory_is_short available whole =
     (case (available, whole) of
        (Some free, Some all) \<Rightarrow> all > 0 \<and> saturating_mul free 100 < all * 10
      | _ \<Rightarrow> False)"

definition host_memory_pressure :: "'w daemon_os \<Rightarrow> ('w host, 'e, bool) io" where
  "host_memory_pressure os =
     io_bind (io_attempt (read_to_string (do_fs os) ''/proc/meminfo'')) (\<lambda>r.
     io_return (case r of
         Inl _ \<Rightarrow> False
       | Inr meminfo \<Rightarrow> memory_is_short (meminfo_value meminfo ''MemAvailable:'') (meminfo_value meminfo ''MemTotal:'')))"


section \<open>Asking the guest to hibernate\<close>

definition CAPABILITY_POWER_HIBERNATE_V1 :: string where "CAPABILITY_POWER_HIBERNATE_V1 = ''power-hibernate-v1''"

definition agent_write :: "'w daemon_os \<Rightarrow> nat \<Rightarrow> Frame \<Rightarrow> ('w, unit) host_io" where
  "agent_write os stream f =
     (if length (fr_payload f) > MAX_FRAME_BYTES
      then io_fail [Text ''protocol error: '', Text ''frame exceeds the '', Num MAX_FRAME_BYTES, Text '' byte limit'']
      else io_map_error (\<lambda>e. protocol_error_display (Io e)) (sys (do_tcp_write os stream (frame_bytes f))))"

text \<open>\<open>read_frame\<close> on the bytes that arrive until a frame is complete or the connection ends.\<close>

definition agent_read :: "'w daemon_os \<Rightarrow> nat \<Rightarrow> ('w, Frame) host_io" where
  "agent_read os stream =
     io_bind (ask (do_tcp_input os stream)) (\<lambda>input.
     io_map_error protocol_error_display (io_of (map_sum id fst (read_frame input))))"

text \<open>Connecting includes setting the timeouts of the connection.\<close>

definition request_guest_hibernate :: "'w daemon_os \<Rightarrow> InstanceManifest \<Rightarrow> string \<Rightarrow> ('w, unit) host_io" where
  "request_guest_hibernate os m token =
     io_bind (boxed (sys (do_tcp_connect os (im_control_port m)))) (\<lambda>stream.
     io_bind (io_map_error protocol_error_display (io_of (client_hello_encode
        \<lparr>ch_version = AGENT_PROTOCOL_VERSION, ch_token = token\<rparr>))) (\<lambda>hello.
     io_bind (agent_write os stream (frame_new Hello hello)) (\<lambda>_.
     io_bind (agent_read os stream) (\<lambda>response.
     if fr_kind response \<noteq> HelloOk
     then io_fail [Text ''guest agent rejected the hibernate control connection'']
     else io_bind (io_map_error protocol_error_display (io_of (server_hello_decode (fr_payload response)))) (\<lambda>hello.
     if CAPABILITY_POWER_HIBERNATE_V1 \<notin> set (sh_capabilities hello)
     then io_fail [Text ''guest agent does not support Windows hibernation'']
     else io_bind (agent_write os stream (frame_new PowerHibernate [])) (\<lambda>_.
     io_bind (agent_read os stream) (\<lambda>response.
     if fr_kind response = Pong \<and> fr_payload response = [] then io_return ()
     else if fr_kind response = FK_Error
     then io_fail [Text ''guest agent refused hibernation: '', Disp (from_utf8_lossy (fr_payload response))]
     else io_fail [Text ''guest agent returned an invalid hibernate response''])))))))"


section \<open>Cleaning up and waiting\<close>

definition cleanup_runtime_sockets :: "'w daemon_os \<Rightarrow> string \<Rightarrow> ('w, unit) host_io" where
  "cleanup_runtime_sockets os dir =
     io_for (\<lambda>path.
       io_bind (io_attempt (symlink_metadata (do_fs os) path)) (\<lambda>r.
       case r of
         Inr metadata \<Rightarrow>
           if metadata = SocketNode then boxed (unlink_file (do_fs os) path)
           else io_fail [Text ''refusing to replace non-socket path '', Disp (path_display path)]
       | Inl e \<Rightarrow> if e = NotFound then io_return () else io_fail [Disp (io_error_display e)]))
       [path_join dir ''run/swtpm.sock'', path_join dir ''run/qmp.sock'', path_join dir ''run/recovery-vnc.sock'']"

definition cleanup_stopped_runtime_artifacts :: "'w daemon_os \<Rightarrow> StateStore \<Rightarrow> string \<Rightarrow> ('w host, 'e, unit) io" where
  "cleanup_stopped_runtime_artifacts os st name =
     (case instance_dir st name of
        Inl _ \<Rightarrow> io_return ()
      | Inr dir \<Rightarrow>
          io_bind (io_for (remove_regular os) [path_join dir ''run/qemu.pid'', path_join dir ''run/installation-viewer.vv'']) (\<lambda>_.
          io_ignore (cleanup_runtime_sockets os dir)))"

definition check_helpers :: "'w daemon_os \<Rightarrow> nat list \<Rightarrow> ('w, unit) host_io" where
  "check_helpers os helpers =
     io_for (\<lambda>helper.
       io_bind (boxed (sys (do_try_wait os helper))) (\<lambda>status.
       case status of
         Some status \<Rightarrow> io_fail [Text ''helper process exited during startup with '', Disp (exit_status_display status)]
       | None \<Rightarrow> io_return ())) helpers"

fun wait_for_socket_until :: "nat \<Rightarrow> 'w daemon_os \<Rightarrow> string \<Rightarrow> nat list \<Rightarrow> nat \<Rightarrow> ('w, unit) host_io" where
  "wait_for_socket_until 0 os socket helpers deadline = io_stuck"
| "wait_for_socket_until (Suc n) os socket helpers deadline =
     io_bind (io_attempt (symlink_metadata (do_fs os) socket)) (\<lambda>r.
     if r = Inr SocketNode then io_return ()
     else io_bind (check_helpers os helpers) (\<lambda>_.
          io_bind (ask (do_now os)) (\<lambda>now.
          if now \<ge> deadline then io_fail [Text ''timed out waiting for '', Disp (path_display socket)]
          else io_bind (sleep os 50) (\<lambda>_. wait_for_socket_until n os socket helpers deadline))))"

definition wait_for_socket :: "'w daemon_os \<Rightarrow> string \<Rightarrow> nat list \<Rightarrow> nat \<Rightarrow> ('w, unit) host_io" where
  "wait_for_socket os socket helpers timeout =
     io_bind (ask (do_now os)) (\<lambda>now. wait_for_socket_until (do_loops os) os socket helpers (now + timeout))"

fun wait_for_child_until :: "nat \<Rightarrow> 'w daemon_os \<Rightarrow> nat \<Rightarrow> nat \<Rightarrow> ('w, ExitStatus option) fs" where
  "wait_for_child_until 0 os child deadline = io_stuck"
| "wait_for_child_until (Suc n) os child deadline =
     io_bind (ask (do_now os)) (\<lambda>now.
     if \<not> now < deadline then io_return None
     else io_bind (sys (do_try_wait os child)) (\<lambda>status.
          case status of
            Some status \<Rightarrow> io_return (Some status)
          | None \<Rightarrow> io_bind (sleep os 50) (\<lambda>_. wait_for_child_until n os child deadline)))"

definition wait_for_child_exit :: "'w daemon_os \<Rightarrow> nat \<Rightarrow> nat \<Rightarrow> ('w, ExitStatus option) fs" where
  "wait_for_child_exit os child timeout =
     io_bind (ask (do_now os)) (\<lambda>now. wait_for_child_until (do_loops os) os child (now + timeout))"

definition wait_or_kill :: "'w daemon_os \<Rightarrow> nat \<Rightarrow> nat \<Rightarrow> ('w, unit) host_io" where
  "wait_or_kill os child timeout =
     io_bind (boxed (wait_for_child_exit os child timeout)) (\<lambda>status.
     if status \<noteq> None then io_return ()
     else io_bind (boxed (sys (do_kill os child))) (\<lambda>_.
          io_bind (boxed (sys (do_wait os child))) (\<lambda>_. io_return ())))"

fun wait_for_disconnect_until :: "nat \<Rightarrow> 'w daemon_os \<Rightarrow> string \<Rightarrow> nat \<Rightarrow> ('w, unit) host_io" where
  "wait_for_disconnect_until 0 os socket deadline = io_stuck"
| "wait_for_disconnect_until (Suc n) os socket deadline =
     io_bind (ask (do_now os)) (\<lambda>now.
     if \<not> now < deadline
     then io_fail [Text ''timed out waiting for the externally managed QEMU at '', Disp (path_display socket), Text '' to stop'']
     else io_bind (io_attempt (qmp_connect os socket)) (\<lambda>r.
          case r of
            Inl _ \<Rightarrow> io_return ()
          | Inr _ \<Rightarrow> io_bind (sleep os 50) (\<lambda>_. wait_for_disconnect_until n os socket deadline)))"

definition wait_for_qmp_disconnect :: "'w daemon_os \<Rightarrow> string \<Rightarrow> nat \<Rightarrow> ('w, unit) host_io" where
  "wait_for_qmp_disconnect os socket timeout =
     io_bind (ask (do_now os)) (\<lambda>now. wait_for_disconnect_until (do_loops os) os socket (now + timeout))"

definition active_state :: "InstanceState \<Rightarrow> bool" where
  "active_state state \<longleftrightarrow> state \<in> {Running, Installing, Suspended}"

definition refuse_unproven_external_force_stop ::
  "bool \<Rightarrow> bool \<Rightarrow> bool \<Rightarrow> InstanceState \<Rightarrow> string \<Rightarrow> message + unit" where
  "refuse_unproven_external_force_stop force requested_qmp_quit owns_process state name =
     (if force \<and> \<not> requested_qmp_quit \<and> \<not> owns_process \<and> active_state state
      then Inl [Text ''cannot prove active instance '', Disp name,
        Text '' stopped: QMP is unavailable and this daemon does not own its QEMU process; verify or terminate QEMU before changing the manifest'']
      else Inr ())"

definition stop_helpers :: "'w daemon_os \<Rightarrow> nat list \<Rightarrow> ('w host, 'e, unit) io" where
  "stop_helpers os helpers =
     io_for (\<lambda>helper.
       io_bind (io_attempt (sys (do_try_wait os helper))) (\<lambda>r.
       io_bind (case r of Inr (Some _) \<Rightarrow> io_return () | _ \<Rightarrow> io_ignore (sys (do_kill os helper))) (\<lambda>_.
       io_ignore (sys (do_wait os helper))))) helpers"

end
