(* ===== verification/Daemon_Protocol.thy ===== *)
theory Daemon_Protocol
  imports Qemu_Plan Framing
begin

text \<open>
  The messages between the clients and the daemon (\<open>daemon_protocol.rs\<close> of \<open>lsw-core\<close>): one line of
  JSON each, of bounded length.  The encoding itself is that of \<open>serde_json\<close>, a parameter.
\<close>

section \<open>Definitions\<close>

definition DAEMON_PROTOCOL_VERSION :: u16 where "DAEMON_PROTOCOL_VERSION = 3"
definition MAX_DAEMON_REQUEST_BYTES :: nat where "MAX_DAEMON_REQUEST_BYTES = 4096"
definition MAX_DAEMON_REPLY_BYTES :: nat where "MAX_DAEMON_REPLY_BYTES = 2 * 1024 * 1024"

datatype DaemonRequest =
    DR_Ping
  | DR_List
  | DR_Show string
  | DR_Plan string LaunchPhase
  | DR_Start string LaunchPhase
  | DR_Status string
  | DR_Suspend string
  | DR_Resume string
  | DR_Hibernate string
  | DR_Activity string
  | DR_Balloon string u32
  | DR_Stop string bool

record DaemonInfo =
  di_protocol :: u16
  di_features :: "string list"
  di_pid :: u32
  di_rss_kib :: "u64 option"

record InstanceSummary =
  sm_name :: string
  sm_state :: InstanceState
  sm_profile :: WindowsProfile

record LaunchPlanSummary =
  ps_helper_commands :: "string list"
  ps_command :: string
  ps_notes :: "message list"
  ps_missing_capabilities :: "string list"

datatype Liveness = Active | Inactive | UnknownLiveness

primrec liveness_display :: "Liveness \<Rightarrow> string" where
  "liveness_display Active = ''true''"
| "liveness_display Inactive = ''false''"
| "liveness_display UnknownLiveness = ''unknown''"

record InstanceStatus =
  st_state :: InstanceState
  st_qmp :: "string option"
  st_active :: Liveness

record StartedInstance =
  si_name :: string
  si_phase :: LaunchPhase
  si_qmp_socket :: string
  si_log :: string

datatype DaemonResponse =
    PongInfo DaemonInfo
  | Instances "InstanceSummary list"
  | ManifestText string
  | PlanSummary LaunchPlanSummary
  | StatusOf InstanceStatus
  | Started StartedInstance
  | Notice "message list"

datatype DaemonReply = ReplyOk DaemonResponse | ReplyError message

definition is_compatible :: "DaemonInfo \<Rightarrow> bool" where
  "is_compatible info \<longleftrightarrow> di_protocol info = DAEMON_PROTOCOL_VERSION"

definition daemon_info_lines :: "DaemonInfo \<Rightarrow> message list" where
  "daemon_info_lines info =
     [[Text ''PONG''],
      [Text ''PROTOCOL='', Num (unat (di_protocol info))],
      [Text ''FEATURES='', Disp (join '','' (di_features info))],
      [Text ''PID='', Num (unat (di_pid info))],
      [Text ''RSS_KIB='', Num (case di_rss_kib info of Some n \<Rightarrow> unat n | None \<Rightarrow> 0)]]"

definition TABULATOR :: string where "TABULATOR = [CHR 0x09]"

fun daemon_response_lines :: "DaemonResponse \<Rightarrow> message list" where
  "daemon_response_lines (PongInfo info) = daemon_info_lines info"
| "daemon_response_lines (Instances instances) =
     map (\<lambda>i. [Text (''INSTANCE'' @ TABULATOR), Disp (sm_name i), Text TABULATOR, Disp (instance_state_display (sm_state i)),
                Text TABULATOR, Disp (profile_display (sm_profile i))]) instances"
| "daemon_response_lines (ManifestText encoded) = map (\<lambda>line. [Disp line]) (lines encoded)"
| "daemon_response_lines (PlanSummary p) =
     map (\<lambda>helper. [Text (''HELPER'' @ TABULATOR), Disp helper]) (ps_helper_commands p)
     @ [[Text (''COMMAND'' @ TABULATOR), Disp (ps_command p)]]
     @ map (\<lambda>n. Text (''NOTE'' @ TABULATOR) # n) (ps_notes p)
     @ map (\<lambda>missing. [Text (''MISSING'' @ TABULATOR), Disp missing]) (ps_missing_capabilities p)"
| "daemon_response_lines (StatusOf status) =
     [[Text ''STATE='', Disp (instance_state_display (st_state status))],
      [Text ''QMP='', Disp (case st_qmp status of Some q \<Rightarrow> q | None \<Rightarrow> ''unavailable'')],
      [Text ''ACTIVE='', Disp (liveness_display (st_active status))]]"
| "daemon_response_lines (Started s) =
     [[Text ''instance '', Disp (si_name s), Text '' started in '', Disp (launch_phase_display (si_phase s)), Text '' phase''],
      [Text ''QMP='', Disp (path_display (si_qmp_socket s))],
      [Text ''LOG='', Disp (path_display (si_log s))]]"
| "daemon_response_lines (Notice ls) = ls"

text \<open>\<open>to_vec\<close> gives the bytes of a value or the text of an error; \<open>from_slice\<close> the value.\<close>

definition write_bounded_line :: "('a \<Rightarrow> string + bytes) \<Rightarrow> nat \<Rightarrow> string \<Rightarrow> Writer \<Rightarrow> 'a \<Rightarrow> Writer \<times> (LswError + unit)" where
  "write_bounded_line to_vec limit what w value =
     (case to_vec value of
        Inl e \<Rightarrow> (w, Inl (LswProtocol [Text ''could not encode '', Disp what, Text '': '', Disp e]))
      | Inr encoded \<Rightarrow>
          let encoded = encoded @ [byte_of_char NL] in
          if length encoded > limit
          then (w, Inl (LswProtocol [Disp what, Text '' exceeds '', Num limit, Text '' bytes'']))
          else map_prod id (map_sum lsw_error_of_protocol id) (write_all w encoded))"

definition write_daemon_request :: "(DaemonRequest \<Rightarrow> string + bytes) \<Rightarrow> Writer \<Rightarrow> DaemonRequest \<Rightarrow> Writer \<times> (LswError + unit)" where
  "write_daemon_request to_vec = write_bounded_line to_vec MAX_DAEMON_REQUEST_BYTES ''daemon request''"

definition write_daemon_reply :: "(DaemonReply \<Rightarrow> string + bytes) \<Rightarrow> Writer \<Rightarrow> DaemonReply \<Rightarrow> Writer \<times> (LswError + unit)" where
  "write_daemon_reply to_vec = write_bounded_line to_vec MAX_DAEMON_REPLY_BYTES ''daemon reply''"

text \<open>\<open>take(limit + 1)\<close> and \<open>read_until\<close>: the bytes up to and with the first line feed.\<close>

definition read_until_newline :: "bytes \<Rightarrow> bytes" where
  "read_until_newline stream =
     (let line = takeWhile (\<lambda>b. b \<noteq> byte_of_char NL) stream
      in if length line < length stream then line @ [byte_of_char NL] else line)"

definition read_bounded_line :: "(bytes \<Rightarrow> string + 'a) \<Rightarrow> nat \<Rightarrow> string \<Rightarrow> bytes \<Rightarrow> LswError + 'a option" where
  "read_bounded_line from_slice limit what stream =
     (let line = read_until_newline (take (limit + 1) stream)
      in if line = [] then Inr None
         else if length line > limit \<or> last line \<noteq> byte_of_char NL
         then Inl (LswProtocol [Disp what, Text '' is larger than '', Num limit, Text '' bytes or not newline-terminated''])
         else case from_slice line of
                Inl e \<Rightarrow> Inl (LswProtocol [Text ''invalid '', Disp what, Text '': '', Disp e])
              | Inr value \<Rightarrow> Inr (Some value))"

definition read_daemon_request :: "(bytes \<Rightarrow> string + DaemonRequest) \<Rightarrow> bytes \<Rightarrow> LswError + DaemonRequest option" where
  "read_daemon_request from_slice = read_bounded_line from_slice MAX_DAEMON_REQUEST_BYTES ''daemon request''"

definition read_daemon_reply :: "(bytes \<Rightarrow> string + DaemonReply) \<Rightarrow> bytes \<Rightarrow> LswError + DaemonReply option" where
  "read_daemon_reply from_slice = read_bounded_line from_slice MAX_DAEMON_REPLY_BYTES ''daemon reply''"


section \<open>Lemmas\<close>

text \<open>
  A line that is written within the limit is read back whole, whatever follows it, when the encoding
  has no line feed and decoding inverts it on the line.
\<close>

lemma bounded_line_read:
  assumes "to_vec value = Inr bs" and "byte_of_char NL \<notin> set bs" and "length bs < limit"
    and "from_slice (bs @ [byte_of_char NL]) = Inr value"
  shows "read_bounded_line from_slice limit what (bs @ byte_of_char NL # rest) = Inr (Some value)"
proof -
  let ?nl = "byte_of_char NL" and ?tail = "take (limit - length bs) rest"
  have cut: "take (limit + 1) (bs @ ?nl # rest) = bs @ ?nl # ?tail"
    using assms(3) by (simp add: Suc_diff_le)
  have "takeWhile (\<lambda>b. b \<noteq> ?nl) (bs @ ?nl # ?tail) = bs"
    using assms(2) by (simp add: takeWhile_append2 takeWhile_tail) (metis takeWhile_eq_all_conv)
  then have "read_until_newline (take (limit + 1) (bs @ ?nl # rest)) = bs @ [?nl]"
    unfolding cut by (simp add: read_until_newline_def)
  with assms(3,4) show ?thesis by (simp add: read_bounded_line_def)
qed

text \<open>What is accepted fits the limit and is a whole line.\<close>

lemma bounded_line_accepted:
  assumes "read_bounded_line from_slice limit what stream = Inr (Some value)"
  shows "\<exists>line. from_slice line = Inr value \<and> length line \<le> limit \<and> last line = byte_of_char NL \<and> take (length line) stream = line"
proof -
  let ?line = "read_until_newline (take (limit + 1) stream)" and ?s = "take (limit + 1) stream"
  have line: "from_slice ?line = Inr value" "length ?line \<le> limit" "last ?line = byte_of_char NL"
    using assms by (auto simp: read_bounded_line_def Let_def split: if_splits sum.splits)
  have "take (length ?line) ?s = ?line"
  proof -
    let ?w = "takeWhile (\<lambda>b. b \<noteq> byte_of_char NL) ?s"
    have "?w = take (length ?w) ?s" by (rule takeWhile_eq_take)
    moreover have "?s ! length ?w = byte_of_char NL" if "length ?w < length ?s" using nth_length_takeWhile [OF that] by simp
    ultimately show ?thesis
      by (auto simp: read_until_newline_def Let_def take_Suc_conv_app_nth)
  qed
  then have "take (length ?line) stream = ?line"
    using line(2) by (metis min.absorb2 le_SucI take_take Suc_eq_plus1 min.commute)
  with line show ?thesis by blast
qed

end
