(* ===== verification/Supervisor.thy ===== *)
theory Supervisor
  imports Supervisor_Runtime Daemon_Protocol
begin

text \<open>
  The supervisor of the daemon (\<open>supervisor.rs\<close> of \<open>lsw-daemon\<close>): it owns the QEMU processes it has
  started and keeps the state of each manifest in step with them.  The operations call \<open>poll\<close> first,
  and \<open>poll\<close> applies the idle policies, which use the operations: each body is given the operations
  it calls, and the recursion is tied at the end, with the depth it may reach as a parameter.
\<close>

section \<open>State\<close>

text \<open>Timeouts in milliseconds.\<close>

definition START_TIMEOUT :: nat where "START_TIMEOUT = 8000"
definition HELPER_TIMEOUT :: nat where "HELPER_TIMEOUT = 4000"
definition FORCE_STOP_TIMEOUT :: nat where "FORCE_STOP_TIMEOUT = 4000"
definition POLICY_POLL_INTERVAL :: nat where "POLICY_POLL_INTERVAL = 1000"

record ManagedVm =
  mv_qemu :: nat
  mv_helpers :: "nat list"

text \<open>What of a supervisor does not change.\<close>

record Supervisor =
  su_store :: StateStore
  su_capabilities :: HostCapabilities
  su_cpu_tuning :: GuestCpuTuning

text \<open>The rest of it, and the host it runs on.\<close>

record 'w daemon =
  dm_host :: "'w host"
  dm_processes :: "(string \<times> ManagedVm) list"
  dm_last_policy_poll :: nat

type_synonym ('w, 'a) daemon_io = "('w daemon, message, 'a) io"

definition on_host :: "('w host, 'e, 'a) io \<Rightarrow> ('w daemon, 'e, 'a) io" where
  "on_host = io_zoom dm_host (\<lambda>h d. d\<lparr>dm_host := h\<rparr>)"

definition managed :: "string \<Rightarrow> ('w daemon, 'e, ManagedVm option) io" where
  "managed name = io_get (\<lambda>d. map_of (dm_processes d) name)"

definition owns :: "string \<Rightarrow> ('w daemon, 'e, bool) io" where
  "owns name = io_get (\<lambda>d. map_of (dm_processes d) name \<noteq> None)"

definition remove_process :: "string \<Rightarrow> ('w daemon, 'e, unit) io" where
  "remove_process name = io_modify (\<lambda>d. d\<lparr>dm_processes := AList.delete name (dm_processes d)\<rparr>)"

definition insert_process :: "string \<Rightarrow> ManagedVm \<Rightarrow> ('w daemon, 'e, unit) io" where
  "insert_process name vm = io_modify (\<lambda>d. d\<lparr>dm_processes := AList.update name vm (dm_processes d)\<rparr>)"

text \<open>The names in the order of the map, which is that of their bytes.\<close>

definition process_names :: "('w daemon, 'e, string list) io" where
  "process_names = io_get (\<lambda>d. sort_key (map char_code) (map fst (dm_processes d)))"

definition planner :: "Supervisor \<Rightarrow> QemuPlanner" where
  "planner su = with_cpu_tuning (planner_new (su_capabilities su)) (su_cpu_tuning su)"


section \<open>Steps that do not poll\<close>

definition qmp_status :: "'w daemon_os \<Rightarrow> Supervisor \<Rightarrow> string \<Rightarrow> ('w, string) host_io" where
  "qmp_status os su name =
     io_bind (boxed_lsw (io_of (instance_dir (su_store su) name))) (\<lambda>dir.
     io_bind (qmp_connect os (path_join dir ''run/qmp.sock'')) (qmp_query_status os))"

definition set_state :: "'w daemon_os \<Rightarrow> Supervisor \<Rightarrow> string \<Rightarrow> InstanceState \<Rightarrow> ('w, unit) host_io" where
  "set_state os su name state =
     io_bind (boxed_lsw (load (do_fs os) (su_store su) name)) (\<lambda>m.
     io_bind (unix_seconds os) (\<lambda>now.
     boxed_lsw (update_instance (do_fs os) (su_store su)
       (m\<lparr>im_state := state, im_state_changed_unix_seconds := now\<rparr>))))"

definition record_activity :: "'w daemon_os \<Rightarrow> Supervisor \<Rightarrow> string \<Rightarrow> ('w, unit) host_io" where
  "record_activity os su name =
     io_bind (boxed_lsw (io_of (instance_dir (su_store su) name))) (\<lambda>dir.
     io_bind (unix_seconds os) (\<lambda>now.
     write_private_marker os (path_join dir ''run/last-activity'') (decimal (unat now))))"

text \<open>The product of a \<open>u32\<close> and \<open>1024 * 1024\<close> always fits into a \<open>u64\<close>.\<close>

definition set_balloon_target :: "'w daemon_os \<Rightarrow> Supervisor \<Rightarrow> string \<Rightarrow> u32 \<Rightarrow> ('w, unit) host_io" where
  "set_balloon_target os su name memory_mib =
     io_bind (boxed_lsw (io_of (instance_dir (su_store su) name))) (\<lambda>dir.
     let marker = path_join dir ''run/balloon.target'' in
     io_bind (io_attempt (read_to_string (do_fs os) marker)) (\<lambda>r.
     if (case r of Inl _ \<Rightarrow> False | Inr value \<Rightarrow> trim value = decimal (unat memory_mib)) then io_return ()
     else if unat memory_mib * (1024 * 1024) \<ge> 2 ^ 64 then io_fail [Text ''balloon target overflowed'']
     else io_bind (qmp_connect os (path_join dir ''run/qmp.sock'')) (\<lambda>qmp.
          io_bind (qmp_balloon os qmp (ucast memory_mib * (1024 * 1024))) (\<lambda>_.
          write_private_marker os marker (decimal (unat memory_mib))))))"

definition prepare_ephemeral_overlay :: "'w daemon_os \<Rightarrow> Supervisor \<Rightarrow> string \<Rightarrow> InstanceState \<Rightarrow> ('w, unit) host_io" where
  "prepare_ephemeral_overlay os su dir previous_state =
     (let overlay = path_join dir ''run/ephemeral.qcow2'' in
      io_bind (io_attempt (symlink_metadata (do_fs os) overlay)) (\<lambda>r.
      io_bind (case r of
          Inr metadata \<Rightarrow>
            if is_regular metadata \<and> previous_state \<in> {Stopped, InstanceState.Failed} then boxed (unlink_file (do_fs os) overlay)
            else io_fail [Text ''refusing to replace unexpected ephemeral overlay '', Disp (path_display overlay)]
        | Inl e \<Rightarrow> if e = NotFound then io_return () else io_fail [Disp (io_error_display e)]) (\<lambda>_.
      io_bind (boxed (canonicalize (do_fs os) (path_join dir ''disk.qcow2''))) (\<lambda>base.
      case hc_qemu_img (su_capabilities su) of
        None \<Rightarrow> io_fail [Text ''qemu-img is required for an ephemeral overlay'']
      | Some qemu_img \<Rightarrow>
          io_bind (boxed (run_command (do_fs os) qemu_img
            [''create'', ''-f'', ''qcow2'', ''-F'', ''qcow2'', ''-b'', base, overlay])) (\<lambda>status.
          if \<not> exit_success status
          then io_bind (io_ignore (unlink_file (do_fs os) overlay)) (\<lambda>_.
               io_fail [Text ''qemu-img could not create the ephemeral overlay: '', Disp (exit_status_display status)])
          else boxed (set_permissions (do_fs os) overlay 384))))))"

definition remove_ephemeral_overlay :: "'w daemon_os \<Rightarrow> Supervisor \<Rightarrow> string \<Rightarrow> ('w host, 'e, unit) io" where
  "remove_ephemeral_overlay os su name =
     io_bind (io_attempt (load (do_fs os) (su_store su) name)) (\<lambda>r.
     case r of
       Inl _ \<Rightarrow> io_return ()
     | Inr m \<Rightarrow>
         if is_profile (im_spec m) \<noteq> Ephemeral then io_return ()
         else case instance_dir (su_store su) name of
                Inl _ \<Rightarrow> io_return ()
              | Inr dir \<Rightarrow> remove_regular os (path_join dir ''run/ephemeral.qcow2''))"

fun wait_for_qmp_until :: "nat \<Rightarrow> 'w daemon_os \<Rightarrow> Supervisor \<Rightarrow> string \<Rightarrow> nat \<Rightarrow> ('w, unit) daemon_io" where
  "wait_for_qmp_until 0 os su name deadline = io_stuck"
| "wait_for_qmp_until (Suc n) os su name deadline =
     io_bind (io_attempt (on_host (qmp_status os su name))) (\<lambda>r.
     case r of
       Inr _ \<Rightarrow> io_return ()
     | Inl _ \<Rightarrow>
         io_bind (managed name) (\<lambda>vm.
         case vm of
           None \<Rightarrow> io_fail [Text ''QEMU process disappeared while starting'']
         | Some vm \<Rightarrow>
             io_bind (on_host (boxed (sys (do_try_wait os (mv_qemu vm))))) (\<lambda>status.
             case status of
               Some status \<Rightarrow> io_fail [Text ''QEMU exited during startup with '', Disp (exit_status_display status)]
             | None \<Rightarrow>
                 io_bind (on_host (ask (do_now os))) (\<lambda>now.
                 if now \<ge> deadline then io_fail [Text ''timed out waiting for the QMP socket'']
                 else io_bind (on_host (sleep os 50)) (\<lambda>_. wait_for_qmp_until n os su name deadline)))))"

definition wait_for_qmp :: "'w daemon_os \<Rightarrow> Supervisor \<Rightarrow> string \<Rightarrow> nat \<Rightarrow> ('w, unit) daemon_io" where
  "wait_for_qmp os su name timeout =
     io_bind (on_host (ask (do_now os))) (\<lambda>now. wait_for_qmp_until (do_loops os) os su name (now + timeout))"


section \<open>Polling\<close>

text \<open>What is done after QEMU has ended: the markers are read first, and removed.\<close>

definition settle :: "'w daemon_os \<Rightarrow> Supervisor \<Rightarrow> string \<Rightarrow> InstanceState \<Rightarrow> ('w host, 'e, unit) io" where
  "settle os su name next_state =
     io_bind (remove_shutdown_marker os (su_store su) name) (\<lambda>_.
     io_bind (remove_hibernate_marker os (su_store su) name) (\<lambda>_.
     io_bind (cleanup_stopped_runtime_artifacts os (su_store su) name) (\<lambda>_.
     io_bind (remove_ephemeral_overlay os su name) (\<lambda>_.
     io_ignore (set_state os su name next_state)))))"

definition reap_exited :: "'w daemon_os \<Rightarrow> Supervisor \<Rightarrow> string \<Rightarrow> ManagedVm \<Rightarrow> ExitStatus \<Rightarrow> ('w daemon, 'e, unit) io" where
  "reap_exited os su name vm status =
     io_bind (on_host (shutdown_was_requested os (su_store su) name)) (\<lambda>shutdown_requested.
     io_bind (on_host (hibernate_was_requested os (su_store su) name)) (\<lambda>hibernate_requested.
     io_bind (remove_process name) (\<lambda>_.
     io_bind (on_host (stop_helpers os (mv_helpers vm))) (\<lambda>_.
     on_host (settle os su name (state_after_qemu_exit shutdown_requested hibernate_requested (exit_success status)))))))"

text \<open>Stops looking at the first helper that has ended.\<close>

fun any_exited :: "'w daemon_os \<Rightarrow> nat list \<Rightarrow> ('w host, 'e, bool) io" where
  "any_exited os [] = io_return False"
| "any_exited os (helper # helpers) =
     io_bind (io_attempt (sys (do_try_wait os helper))) (\<lambda>r.
     case r of Inr (Some _) \<Rightarrow> io_return True | _ \<Rightarrow> any_exited os helpers)"

definition reap_helperless :: "'w daemon_os \<Rightarrow> Supervisor \<Rightarrow> string \<Rightarrow> ManagedVm \<Rightarrow> ('w daemon, 'e, unit) io" where
  "reap_helperless os su name vm =
     io_bind (on_host (shutdown_was_requested os (su_store su) name)) (\<lambda>shutdown_requested.
     io_bind (on_host (hibernate_was_requested os (su_store su) name)) (\<lambda>hibernate_requested.
     io_bind (remove_process name) (\<lambda>_.
     io_bind (if hibernate_requested
              then io_bind (io_attempt (on_host (wait_for_child_exit os (mv_qemu vm) FORCE_STOP_TIMEOUT))) (\<lambda>r.
                   io_return (case r of Inl _ \<Rightarrow> None | Inr status \<Rightarrow> status))
              else io_return None) (\<lambda>natural_qemu_exit.
     io_bind (if natural_qemu_exit = None
              then io_bind (io_ignore (on_host (sys (do_kill os (mv_qemu vm))))) (\<lambda>_.
                   io_ignore (on_host (sys (do_wait os (mv_qemu vm)))))
              else io_return ()) (\<lambda>_.
     io_bind (on_host (stop_helpers os (mv_helpers vm))) (\<lambda>_.
     on_host (settle os su name (state_after_qemu_exit shutdown_requested
       (hibernate_requested \<and> natural_qemu_exit \<noteq> None)
       (case natural_qemu_exit of None \<Rightarrow> False | Some status \<Rightarrow> exit_success status)))))))))"

definition poll_process :: "'w daemon_os \<Rightarrow> Supervisor \<Rightarrow> string \<Rightarrow> ('w daemon, 'e, unit) io" where
  "poll_process os su name =
     io_bind (managed name) (\<lambda>vm.
     case vm of
       None \<Rightarrow> io_return ()
     | Some vm \<Rightarrow>
         io_bind (io_attempt (on_host (sys (do_try_wait os (mv_qemu vm))))) (\<lambda>r.
         case r of
           Inr (Some status) \<Rightarrow> reap_exited os su name vm status
         | _ \<Rightarrow>
             io_bind (on_host (any_exited os (mv_helpers vm))) (\<lambda>helper_exited.
             if helper_exited then reap_helperless os su name vm else io_return ())))"

definition saturating_sub :: "u64 \<Rightarrow> u64 \<Rightarrow> u64" where
  "saturating_sub a b = (if a \<ge> b then a - b else 0)"

text \<open>The policies, given how to suspend and to hibernate an instance.\<close>

definition apply_idle_policy ::
  "(string \<Rightarrow> ('w, message list) daemon_io) \<Rightarrow> (string \<Rightarrow> ('w, message list) daemon_io)
     \<Rightarrow> 'w daemon_os \<Rightarrow> Supervisor \<Rightarrow> u64 \<Rightarrow> bool \<Rightarrow> InstanceManifest \<Rightarrow> ('w, unit) daemon_io" where
  "apply_idle_policy suspend hibernate os su now memory_pressure m =
     (let name = is_name (im_spec m) in
      if im_idle_policy m = Off then io_return ()
      else io_bind (on_host (read_activity os (su_store su) name)) (\<lambda>recorded.
        let activity = (case recorded of Some a \<Rightarrow> a | None \<Rightarrow> im_state_changed_unix_seconds m);
            idle_seconds = saturating_sub now activity
        in if im_state m = Running
           then io_bind (if memory_pressure \<or> (im_idle_timeout_seconds m > 0 \<and> idle_seconds \<ge> im_idle_timeout_seconds m div 2)
                         then io_ignore (on_host (set_balloon_target os su name (im_memory_min_mib m)))
                         else io_return ()) (\<lambda>_.
                if im_idle_timeout_seconds m > 0 \<and> idle_seconds \<ge> im_idle_timeout_seconds m
                then io_ignore (suspend name) else io_return ())
           else if im_state m = Suspended \<and> im_hibernate_timeout_seconds m > 0
                   \<and> saturating_sub now (im_state_changed_unix_seconds m) \<ge> im_hibernate_timeout_seconds m
           then io_ignore (hibernate name)
           else io_return ()))"

definition apply_idle_policies ::
  "(string \<Rightarrow> ('w, message list) daemon_io) \<Rightarrow> (string \<Rightarrow> ('w, message list) daemon_io)
     \<Rightarrow> 'w daemon_os \<Rightarrow> Supervisor \<Rightarrow> ('w, unit) daemon_io" where
  "apply_idle_policies suspend hibernate os su =
     io_bind (on_host (unix_seconds os)) (\<lambda>now.
     io_bind (on_host (host_memory_pressure os)) (\<lambda>memory_pressure.
     io_bind (on_host (boxed_lsw (list_instances (do_fs os) (su_store su)))) (\<lambda>manifests.
     io_for (apply_idle_policy suspend hibernate os su now memory_pressure) manifests)))"

definition poll_body ::
  "(string \<Rightarrow> ('w, message list) daemon_io) \<Rightarrow> (string \<Rightarrow> ('w, message list) daemon_io)
     \<Rightarrow> 'w daemon_os \<Rightarrow> Supervisor \<Rightarrow> ('w, unit) daemon_io" where
  "poll_body suspend hibernate os su =
     io_bind process_names (\<lambda>names.
     io_bind (io_for (poll_process os su) names) (\<lambda>_.
     io_bind (on_host (ask (do_now os))) (\<lambda>now.
     io_bind (io_get dm_last_policy_poll) (\<lambda>last_poll.
     if now - last_poll \<ge> POLICY_POLL_INTERVAL
     then io_bind (on_host (ask (do_now os))) (\<lambda>now.
          io_bind (io_modify (\<lambda>d. d\<lparr>dm_last_policy_poll := now\<rparr>)) (\<lambda>_.
          io_ignore (apply_idle_policies suspend hibernate os su)))
     else io_return ()))))"


section \<open>Operations\<close>

definition notice :: "message \<Rightarrow> DaemonResponse" where
  "notice line = Notice [line]"

definition launch_refusal :: "InstanceState \<Rightarrow> LaunchPhase \<Rightarrow> message option" where
  "launch_refusal state phase =
     (if state = Configured \<and> phase = Run
      then Some [Text ''instance is not installed; run the install phase first'']
      else if state = Running \<or> state = Installing
      then Some [Text ''manifest says the instance is active but QMP is unavailable; inspect its logs before retrying'']
      else if phase = Install \<and> state \<noteq> Configured
      then Some [Text ''refusing to reinstall a non-configured instance because its disk may contain data'']
      else None)"

text \<open>The files of an instance are made ready, and what an earlier run has left is removed.\<close>

definition prepare_launch ::
  "'w daemon_os \<Rightarrow> Supervisor \<Rightarrow> string \<Rightarrow> LaunchPhase \<Rightarrow> InstanceManifest \<Rightarrow> string \<Rightarrow> ('w, unit) host_io" where
  "prepare_launch os su name phase m dir =
     io_bind (boxed_lsw (provision_plan (do_fs os) (su_capabilities su) m dir)) (\<lambda>preparation.
     io_bind (boxed_lsw (provision_apply (do_fs os) preparation)) (\<lambda>_.
     io_bind (cleanup_stopped_runtime_artifacts os (su_store su) name) (\<lambda>_.
     io_bind (cleanup_runtime_sockets os dir) (\<lambda>_.
     io_bind (remove_shutdown_marker os (su_store su) name) (\<lambda>_.
     io_bind (remove_hibernate_marker os (su_store su) name) (\<lambda>_.
     io_bind (if phase = Run
         then io_bind (boxed_lsw (read_agent_token (do_fs os) (su_store su) name)) (\<lambda>token.
              io_bind (if im_scoped_live_share_credential m
                       then io_map_error protocol_error_display
                              (io_of (derive_scoped_credential (do_sha256 os) token LIVE_SHARE_CREDENTIAL_SCOPE))
                       else io_return token) (\<lambda>credential.
              boxed_lsw (prepare_live_share_runtime (do_md4 os) (do_loops os) (do_fs os) (do_unix_seconds os) m dir credential)))
         else io_return ()) (\<lambda>_.
     if phase = Run \<and> is_profile (im_spec m) = Ephemeral
     then prepare_ephemeral_overlay os su dir (im_state m)
     else io_return ())))))))"

text \<open>The helpers that were started, or the error of the first that was not, with those before it.\<close>

fun spawn_helpers :: "'w daemon_os \<Rightarrow> string \<Rightarrow> CommandInvocation list \<Rightarrow> nat list \<Rightarrow> ('w host, 'e, (nat list \<times> message) + nat list) io" where
  "spawn_helpers os dir [] started = io_return (Inr started)"
| "spawn_helpers os dir (helper # helpers) started =
     io_bind (io_attempt (spawn_command os helper dir ''helper.log'')) (\<lambda>r.
     case r of
       Inr child \<Rightarrow> spawn_helpers os dir helpers (started @ [child])
     | Inl error \<Rightarrow> io_return (Inl (started, error)))"

definition abandon_launch :: "'w daemon_os \<Rightarrow> Supervisor \<Rightarrow> string \<Rightarrow> nat list \<Rightarrow> message \<Rightarrow> ('w, 'a) host_io" where
  "abandon_launch os su name helpers error =
     io_bind (stop_helpers os helpers) (\<lambda>_.
     io_bind (remove_ephemeral_overlay os su name) (\<lambda>_. io_fail error))"

definition launch_processes :: "'w daemon_os \<Rightarrow> Supervisor \<Rightarrow> string \<Rightarrow> CommandPlan \<Rightarrow> string \<Rightarrow> ('w, ManagedVm) host_io" where
  "launch_processes os su name p dir =
     io_bind (spawn_helpers os dir (cp_helper_commands p) []) (\<lambda>r.
     case r of
       Inl (helpers, error) \<Rightarrow> abandon_launch os su name helpers error
     | Inr helpers \<Rightarrow>
         io_bind (io_attempt (wait_for_socket os (path_join dir ''run/swtpm.sock'') helpers HELPER_TIMEOUT)) (\<lambda>r.
         case r of
           Inl error \<Rightarrow> abandon_launch os su name helpers error
         | Inr _ \<Rightarrow>
             io_bind (io_attempt (spawn_command os \<lparr>ci_program = cp_program p, ci_arguments = cp_arguments p\<rparr> dir ''qemu.log'')) (\<lambda>r.
             case r of
               Inl error \<Rightarrow> abandon_launch os su name helpers error
             | Inr qemu \<Rightarrow> io_return \<lparr>mv_qemu = qemu, mv_helpers = helpers\<rparr>)))"

text \<open>After QEMU has been started: it has to answer, or it is killed.\<close>

definition give_up_start :: "'w daemon_os \<Rightarrow> Supervisor \<Rightarrow> string \<Rightarrow> message \<Rightarrow> ('w, 'a) daemon_io" where
  "give_up_start os su name error =
     io_bind (managed name) (\<lambda>vm.
     io_bind (case vm of
         None \<Rightarrow> io_return ()
       | Some vm \<Rightarrow>
           io_bind (remove_process name) (\<lambda>_.
           io_bind (io_ignore (on_host (sys (do_kill os (mv_qemu vm))))) (\<lambda>_.
           io_bind (io_ignore (on_host (sys (do_wait os (mv_qemu vm))))) (\<lambda>_.
           on_host (stop_helpers os (mv_helpers vm)))))) (\<lambda>_.
     io_bind (on_host (remove_ephemeral_overlay os su name)) (\<lambda>_.
     io_bind (io_ignore (on_host (set_state os su name InstanceState.Failed))) (\<lambda>_.
     io_fail error))))"

definition finish_start ::
  "'w daemon_os \<Rightarrow> Supervisor \<Rightarrow> string \<Rightarrow> LaunchPhase \<Rightarrow> InstanceManifest \<Rightarrow> string \<Rightarrow> ('w, DaemonResponse) daemon_io" where
  "finish_start os su name phase m dir =
     io_bind (io_attempt (wait_for_qmp os su name START_TIMEOUT)) (\<lambda>r.
     case r of
       Inl error \<Rightarrow> give_up_start os su name error
     | Inr _ \<Rightarrow>
         io_bind (on_host (set_state os su name (case phase of Install \<Rightarrow> Installing | Run \<Rightarrow> Running))) (\<lambda>_.
         io_bind (on_host (record_activity os su name)) (\<lambda>_.
         io_bind (io_ignore (on_host (set_balloon_target os su name (is_memory_mib (im_spec m))))) (\<lambda>_.
         io_return (Started \<lparr>si_name = name, si_phase = phase, si_qmp_socket = path_join dir ''run/qmp.sock'',
           si_log = path_join dir ''qemu.log''\<rparr>)))))"

definition launch :: "'w daemon_os \<Rightarrow> Supervisor \<Rightarrow> string \<Rightarrow> LaunchPhase \<Rightarrow> InstanceManifest \<Rightarrow> ('w, DaemonResponse) daemon_io" where
  "launch os su name phase m =
     io_bind (on_host (boxed_lsw (io_of (instance_dir (su_store su) name)))) (\<lambda>dir.
     io_bind (on_host (prepare_launch os su name phase m dir)) (\<lambda>_.
     io_bind (on_host (boxed_lsw (plan (do_fs os) (planner su) m dir phase))) (\<lambda>p.
     if cp_missing_capabilities p \<noteq> []
     then io_fail [Text ''cannot start instance; missing '', Disp (join '', '' (cp_missing_capabilities p))]
     else io_bind (on_host (launch_processes os su name p dir)) (\<lambda>vm.
          io_bind (insert_process name vm) (\<lambda>_.
          finish_start os su name phase m dir)))))"

text \<open>\<open>start\<close>, given how to poll and to resume.\<close>

definition start_body ::
  "('w, unit) daemon_io \<Rightarrow> (string \<Rightarrow> ('w, DaemonResponse) daemon_io)
     \<Rightarrow> 'w daemon_os \<Rightarrow> Supervisor \<Rightarrow> string \<Rightarrow> LaunchPhase \<Rightarrow> ('w, DaemonResponse) daemon_io" where
  "start_body poll resume os su name phase =
     io_bind poll (\<lambda>_.
     io_bind (io_attempt (on_host (qmp_status os su name))) (\<lambda>r.
     case r of
       Inr qmp_state \<Rightarrow>
         io_bind (on_host (boxed_lsw (load (do_fs os) (su_store su) name))) (\<lambda>m.
         if phase = Run \<and> im_state m = Suspended \<and> qmp_state = ''paused'' then resume name
         else io_return (notice [Text ''instance '', Disp name, Text '' is already running'']))
     | Inl _ \<Rightarrow>
         io_bind (on_host (boxed_lsw (load (do_fs os) (su_store su) name))) (\<lambda>m.
         case launch_refusal (im_state m) phase of
           Some error \<Rightarrow> io_fail error
         | None \<Rightarrow> launch os su name phase m)))"

definition suspend_body :: "('w, unit) daemon_io \<Rightarrow> 'w daemon_os \<Rightarrow> Supervisor \<Rightarrow> string \<Rightarrow> ('w, message list) daemon_io" where
  "suspend_body poll os su name =
     io_bind poll (\<lambda>_.
     on_host (io_bind (boxed_lsw (load (do_fs os) (su_store su) name)) (\<lambda>m.
     if im_state m = Suspended
     then io_bind (io_attempt (qmp_status os su name)) (\<lambda>r.
          if r = Inr ''paused'' then io_return [[Text ''instance '', Disp name, Text '' is already suspended'']]
          else io_fail [Text ''manifest says the instance is suspended but QMP is not paused''])
     else if im_state m \<noteq> Running
     then io_fail [Text ''instance '', Disp name, Text '' cannot be suspended from state '', Disp (instance_state_display (im_state m))]
     else io_bind (boxed_lsw (io_of (instance_dir (su_store su) name))) (\<lambda>dir.
          io_bind (qmp_connect os (path_join dir ''run/qmp.sock'')) (\<lambda>qmp.
          io_bind (qmp_query_status os qmp) (\<lambda>status.
          if status \<noteq> ''running''
          then io_fail [Text ''instance '', Disp name, Text '' cannot be suspended while QMP reports '', Dbg status]
          else io_bind (qmp_pause os qmp) (\<lambda>_.
               io_bind (qmp_query_status os qmp) (\<lambda>status.
               if status \<noteq> ''paused''
               then io_fail [Text ''QEMU accepted suspend for '', Disp name, Text '' but reported unexpected state '', Dbg status]
               else io_bind (set_state os su name Suspended) (\<lambda>_.
                    io_return [[Text ''instance '', Disp name, Text '' suspended in memory'']])))))))))"

definition resume_body ::
  "('w, unit) daemon_io \<Rightarrow> (string \<Rightarrow> LaunchPhase \<Rightarrow> ('w, DaemonResponse) daemon_io)
     \<Rightarrow> 'w daemon_os \<Rightarrow> Supervisor \<Rightarrow> string \<Rightarrow> ('w, DaemonResponse) daemon_io" where
  "resume_body poll start os su name =
     io_bind poll (\<lambda>_.
     io_bind (on_host (boxed_lsw (load (do_fs os) (su_store su) name))) (\<lambda>m.
     if im_state m = Hibernated then start name Run
     else on_host (io_bind (boxed_lsw (io_of (instance_dir (su_store su) name))) (\<lambda>dir.
       io_bind (qmp_connect os (path_join dir ''run/qmp.sock'')) (\<lambda>qmp.
       io_bind (qmp_query_status os qmp) (\<lambda>status.
       if im_state m = Running \<and> status = ''running''
       then io_return (notice [Text ''instance '', Disp name, Text '' is already running''])
       else if im_state m \<noteq> Suspended \<or> status \<noteq> ''paused''
       then io_fail [Text ''instance '', Disp name, Text '' cannot be resumed from manifest state '',
                     Disp (instance_state_display (im_state m)), Text '' and QMP state '', Dbg status]
       else io_bind (qmp_resume os qmp) (\<lambda>_.
            io_bind (qmp_query_status os qmp) (\<lambda>status.
            if status \<noteq> ''running''
            then io_fail [Text ''QEMU accepted resume for '', Disp name, Text '' but reported unexpected state '', Dbg status]
            else io_bind (set_state os su name Running) (\<lambda>_.
                 io_bind (record_activity os su name) (\<lambda>_.
                 io_bind (io_ignore (set_balloon_target os su name (is_memory_mib (im_spec m)))) (\<lambda>_.
                 io_return (notice [Text ''instance '', Disp name, Text '' resumed'']))))))))))))"

definition hibernate_body ::
  "('w, unit) daemon_io \<Rightarrow> (string \<Rightarrow> ('w, DaemonResponse) daemon_io)
     \<Rightarrow> 'w daemon_os \<Rightarrow> Supervisor \<Rightarrow> string \<Rightarrow> ('w, message list) daemon_io" where
  "hibernate_body poll resume os su name =
     io_bind poll (\<lambda>_.
     io_bind (on_host (boxed_lsw (load (do_fs os) (su_store su) name))) (\<lambda>m.
     if im_state m = Hibernated then io_return [[Text ''instance '', Disp name, Text '' is already hibernated'']]
     else io_bind (if im_state m = Suspended
                   then io_bind (resume name) (\<lambda>_. on_host (boxed_lsw (load (do_fs os) (su_store su) name)))
                   else io_return m) (\<lambda>m.
          if im_state m \<noteq> Running
          then io_fail [Text ''instance '', Disp name, Text '' cannot hibernate from state '', Disp (instance_state_display (im_state m))]
          else on_host (io_bind (boxed_lsw (io_of (instance_dir (su_store su) name))) (\<lambda>dir.
               io_bind (write_hibernate_marker os dir) (\<lambda>_.
               io_bind (boxed_lsw (read_agent_token (do_fs os) (su_store su) name)) (\<lambda>token.
               io_bind (io_attempt (request_guest_hibernate os m token)) (\<lambda>r.
               case r of
                 Inl error \<Rightarrow> io_bind (remove_hibernate_marker os (su_store su) name) (\<lambda>_. io_fail error)
               | Inr _ \<Rightarrow> io_return [[Text ''Windows hibernation requested for '', Disp name]]))))))))"

definition graceful_shutdown :: "'w daemon_os \<Rightarrow> Supervisor \<Rightarrow> string \<Rightarrow> string \<Rightarrow> nat \<Rightarrow> ('w, message list) host_io" where
  "graceful_shutdown os su name dir qmp =
     io_bind (qmp_query_status os qmp) (\<lambda>status.
     io_bind (if status = ''paused''
         then io_bind (qmp_resume os qmp) (\<lambda>_.
              io_bind (qmp_query_status os qmp) (\<lambda>resumed_status.
              if resumed_status \<noteq> ''running''
              then io_fail [Text ''QEMU accepted resume before shutdown for '', Disp name,
                            Text '' but reported unexpected state '', Dbg resumed_status]
              else set_state os su name Running))
         else io_return ()) (\<lambda>_.
     io_bind (qmp_system_powerdown os qmp) (\<lambda>_.
     io_bind (write_shutdown_marker os dir) (\<lambda>_.
     io_return [[Text ''graceful shutdown requested for '', Disp name]]))))"

text \<open>The process that is owned is waited for or killed; a foreign one has to close its socket.\<close>

definition end_process :: "'w daemon_os \<Rightarrow> string \<Rightarrow> string \<Rightarrow> bool \<Rightarrow> ('w, unit) daemon_io" where
  "end_process os name qmp_path requested_qmp_quit =
     io_bind (managed name) (\<lambda>vm.
     case vm of
       Some vm \<Rightarrow>
         io_bind (on_host (wait_or_kill os (mv_qemu vm) FORCE_STOP_TIMEOUT)) (\<lambda>_.
         io_bind (remove_process name) (\<lambda>_.
         on_host (stop_helpers os (mv_helpers vm))))
     | None \<Rightarrow>
         if requested_qmp_quit then on_host (wait_for_qmp_disconnect os qmp_path FORCE_STOP_TIMEOUT)
         else io_return ())"

definition mark_stopped :: "'w daemon_os \<Rightarrow> Supervisor \<Rightarrow> string \<Rightarrow> ('w, message list) host_io" where
  "mark_stopped os su name =
     io_bind (set_state os su name Stopped) (\<lambda>_.
     io_bind (remove_shutdown_marker os (su_store su) name) (\<lambda>_.
     io_bind (remove_hibernate_marker os (su_store su) name) (\<lambda>_.
     io_bind (cleanup_stopped_runtime_artifacts os (su_store su) name) (\<lambda>_.
     io_bind (remove_ephemeral_overlay os su name) (\<lambda>_.
     io_return [[Text ''instance '', Disp name, Text '' stopped'']])))))"

definition force_stop ::
  "'w daemon_os \<Rightarrow> Supervisor \<Rightarrow> string \<Rightarrow> InstanceState \<Rightarrow> string \<Rightarrow> message + nat \<Rightarrow> ('w, message list) daemon_io" where
  "force_stop os su name state qmp_path connected =
     io_bind (case connected of
         Inr qmp \<Rightarrow> io_bind (on_host (qmp_quit os qmp)) (\<lambda>_. io_return True)
       | Inl _ \<Rightarrow> io_return False) (\<lambda>requested_qmp_quit.
     io_bind (owns name) (\<lambda>owned.
     io_bind (io_of (refuse_unproven_external_force_stop True requested_qmp_quit owned state name)) (\<lambda>_.
     io_bind (end_process os name qmp_path requested_qmp_quit) (\<lambda>_.
     on_host (mark_stopped os su name)))))"

definition stop_body :: "('w, unit) daemon_io \<Rightarrow> 'w daemon_os \<Rightarrow> Supervisor \<Rightarrow> string \<Rightarrow> bool \<Rightarrow> ('w, message list) daemon_io" where
  "stop_body poll os su name force =
     io_bind poll (\<lambda>_.
     io_bind (on_host (boxed_lsw (io_of (instance_dir (su_store su) name)))) (\<lambda>dir.
     io_bind (on_host (boxed_lsw (load (do_fs os) (su_store su) name))) (\<lambda>m.
     if im_state m = Hibernated then io_return [[Text ''instance '', Disp name, Text '' is hibernated'']]
     else let qmp_path = path_join dir ''run/qmp.sock'' in
     io_bind (io_attempt (on_host (qmp_connect os qmp_path))) (\<lambda>connected.
     if force then force_stop os su name (im_state m) qmp_path connected
     else case connected of
            Inr qmp \<Rightarrow> on_host (graceful_shutdown os su name dir qmp)
          | Inl error \<Rightarrow> io_fail (Text ''cannot request a graceful shutdown: '' # error)))))"

definition reconciled_state :: "InstanceState \<Rightarrow> string \<Rightarrow> InstanceState" where
  "reconciled_state state qmp =
     (if state = Running \<and> qmp = ''paused'' then Suspended
      else if state = Suspended \<and> qmp = ''running'' then Running
      else state)"

text \<open>An active manifest without a QEMU process: what it becomes depends on what had been asked of the guest.\<close>

definition status_gone :: "'w daemon_os \<Rightarrow> Supervisor \<Rightarrow> string \<Rightarrow> ('w, InstanceState) host_io" where
  "status_gone os su name =
     io_bind (shutdown_was_requested os (su_store su) name) (\<lambda>requested.
     io_bind (hibernate_was_requested os (su_store su) name) (\<lambda>hibernated.
     let state = (if hibernated then Hibernated else if requested then Stopped else InstanceState.Failed) in
     io_bind (set_state os su name state) (\<lambda>_.
     io_bind (remove_shutdown_marker os (su_store su) name) (\<lambda>_.
     io_bind (remove_hibernate_marker os (su_store su) name) (\<lambda>_.
     io_bind (cleanup_stopped_runtime_artifacts os (su_store su) name) (\<lambda>_.
     io_bind (remove_ephemeral_overlay os su name) (\<lambda>_.
     io_return state)))))))"

definition status_body :: "('w, unit) daemon_io \<Rightarrow> 'w daemon_os \<Rightarrow> Supervisor \<Rightarrow> string \<Rightarrow> ('w, InstanceStatus) daemon_io" where
  "status_body poll os su name =
     io_bind poll (\<lambda>_.
     io_bind (on_host (boxed_lsw (load (do_fs os) (su_store su) name))) (\<lambda>m.
     io_bind (io_attempt (on_host (qmp_status os su name))) (\<lambda>answer.
     case answer of
       Inr qmp \<Rightarrow>
         let reconciled = reconciled_state (im_state m) qmp in
         io_bind (if reconciled \<noteq> im_state m then on_host (set_state os su name reconciled) else io_return ()) (\<lambda>_.
         io_return \<lparr>st_state = reconciled, st_qmp = Some qmp, st_active = Active\<rparr>)
     | Inl _ \<Rightarrow>
         if \<not> active_state (im_state m)
         then io_return \<lparr>st_state = im_state m, st_qmp = None, st_active = Inactive\<rparr>
         else io_bind (on_host (boxed_lsw (io_of (instance_dir (su_store su) name)))) (\<lambda>dir.
              io_bind (owns name) (\<lambda>owned.
              io_bind (on_host (qemu_process_evidence (do_fs os) dir name owned)) (\<lambda>evidence.
              if evidence \<noteq> Gone
              then io_return \<lparr>st_state = im_state m, st_qmp = None,
                     st_active = (if evidence = Live then Active else UnknownLiveness)\<rparr>
              else io_bind (on_host (status_gone os su name)) (\<lambda>state.
                   io_return \<lparr>st_state = state, st_qmp = None, st_active = Inactive\<rparr>)))))))"

definition activity :: "'w daemon_os \<Rightarrow> Supervisor \<Rightarrow> string \<Rightarrow> ('w, message list) daemon_io" where
  "activity os su name =
     on_host (io_bind (boxed_lsw (load (do_fs os) (su_store su) name)) (\<lambda>m.
     io_bind (record_activity os su name) (\<lambda>_.
     io_bind (if im_state m = Running
              then io_ignore (set_balloon_target os su name (is_memory_mib (im_spec m))) else io_return ()) (\<lambda>_.
     io_return [[Text ''activity recorded for '', Disp name]]))))"

definition balloon :: "'w daemon_os \<Rightarrow> Supervisor \<Rightarrow> string \<Rightarrow> u32 \<Rightarrow> ('w, message list) daemon_io" where
  "balloon os su name memory_mib =
     on_host (io_bind (boxed_lsw (load (do_fs os) (su_store su) name)) (\<lambda>m.
     if \<not> (im_memory_min_mib m \<le> memory_mib \<and> memory_mib \<le> is_memory_mib (im_spec m))
     then io_fail [Text ''balloon target must be between '', Num (unat (im_memory_min_mib m)), Text '' and '',
                   Num (unat (is_memory_mib (im_spec m))), Text '' MiB'']
     else io_bind (set_balloon_target os su name memory_mib) (\<lambda>_.
          io_return [[Text ''instance '', Disp name, Text '' balloon target is '', Num (unat memory_mib), Text '' MiB'']])))"

text \<open>Whether one of the manifests is active and its QEMU answers; later ones are not asked.\<close>

fun any_active :: "'w daemon_os \<Rightarrow> Supervisor \<Rightarrow> InstanceManifest list \<Rightarrow> ('w host, 'e, bool) io" where
  "any_active os su [] = io_return False"
| "any_active os su (m # ms) =
     (if active_state (im_state m)
      then io_bind (io_attempt (qmp_status os su (is_name (im_spec m)))) (\<lambda>r.
           case r of Inr _ \<Rightarrow> io_return True | Inl _ \<Rightarrow> any_active os su ms)
      else any_active os su ms)"

definition has_active_work :: "'w daemon_os \<Rightarrow> Supervisor \<Rightarrow> ('w daemon, 'e, bool) io" where
  "has_active_work os su =
     io_bind (io_get dm_processes) (\<lambda>processes.
     if processes \<noteq> [] then io_return True
     else on_host (io_bind (io_attempt (list_instances (do_fs os) (su_store su))) (\<lambda>r.
          case r of Inl _ \<Rightarrow> io_return False | Inr manifests \<Rightarrow> any_active os su manifests)))"


section \<open>The operations together\<close>

text \<open>
  \<open>n\<close> bounds how deep polls, starts and resumes nest: a poll applies the idle policies at most once a
  second, and the operations they use poll again.
\<close>

fun poll :: "nat \<Rightarrow> 'w daemon_os \<Rightarrow> Supervisor \<Rightarrow> ('w, unit) daemon_io"
  and start :: "nat \<Rightarrow> 'w daemon_os \<Rightarrow> Supervisor \<Rightarrow> string \<Rightarrow> LaunchPhase \<Rightarrow> ('w, DaemonResponse) daemon_io"
  and resume :: "nat \<Rightarrow> 'w daemon_os \<Rightarrow> Supervisor \<Rightarrow> string \<Rightarrow> ('w, DaemonResponse) daemon_io"
where
  "poll 0 os su = io_stuck"
| "poll (Suc n) os su = poll_body (suspend_body (poll n os su) os su) (hibernate_body (poll n os su) (resume n os su) os su) os su"
| "start 0 os su name phase = io_stuck"
| "start (Suc n) os su name phase = start_body (poll n os su) (resume n os su) os su name phase"
| "resume 0 os su name = io_stuck"
| "resume (Suc n) os su name = resume_body (poll n os su) (start n os su) os su name"

definition suspend :: "nat \<Rightarrow> 'w daemon_os \<Rightarrow> Supervisor \<Rightarrow> string \<Rightarrow> ('w, message list) daemon_io" where
  "suspend n os su = suspend_body (poll n os su) os su"

definition hibernate :: "nat \<Rightarrow> 'w daemon_os \<Rightarrow> Supervisor \<Rightarrow> string \<Rightarrow> ('w, message list) daemon_io" where
  "hibernate n os su = hibernate_body (poll n os su) (resume n os su) os su"

definition stop :: "nat \<Rightarrow> 'w daemon_os \<Rightarrow> Supervisor \<Rightarrow> string \<Rightarrow> bool \<Rightarrow> ('w, message list) daemon_io" where
  "stop n os su = stop_body (poll n os su) os su"

definition status :: "nat \<Rightarrow> 'w daemon_os \<Rightarrow> Supervisor \<Rightarrow> string \<Rightarrow> ('w, InstanceStatus) daemon_io" where
  "status n os su = status_body (poll n os su) os su"

end
