(* ===== verification/Daemon.thy ===== *)
theory Daemon
  imports Supervisor
begin

text \<open>
  The daemon around the supervisor (\<open>main.rs\<close> of \<open>lsw-daemon\<close>): the place of its socket, the dispatch of
  requests and the reply to a connection.
\<close>

section \<open>Definitions\<close>

definition DAEMON_FEATURES :: "string list" where
  "DAEMON_FEATURES = [''suspend'', ''resume'', ''hibernate'', ''balloon'', ''idle-exit'']"

text \<open>What \<open>env::var\<close> tells of a variable.\<close>

datatype env_var = Set string | NotPresent | NotUnicode

definition DEFAULT_IDLE_EXIT :: u64 where "DEFAULT_IDLE_EXIT = 30"

definition daemon_socket_path :: "string option \<Rightarrow> StateStore \<Rightarrow> string" where
  "daemon_socket_path configured st = (case configured of Some path \<Rightarrow> path | None \<Rightarrow> path_join st ''run/lswd.sock'')"

definition ENV_NOT_UNICODE :: message where
  "ENV_NOT_UNICODE = [Text ''environment variable was not valid unicode'']"

definition daemon_idle_exit :: "env_var \<Rightarrow> message + u64" where
  "daemon_idle_exit var =
     (case var of
        Set value \<Rightarrow>
          (case parse_word value of
             Inl _ \<Rightarrow> Inl [Text ''LSW_DAEMON_IDLE_SECONDS must be an integer'']
           | Inr seconds \<Rightarrow>
               if \<not> (1 \<le> seconds \<and> seconds \<le> (3600 :: u64))
               then Inl [Text ''LSW_DAEMON_IDLE_SECONDS must be between 1 and 3600'']
               else Inr seconds)
      | NotPresent \<Rightarrow> Inr DEFAULT_IDLE_EXIT
      | NotUnicode \<Rightarrow> Inl ENV_NOT_UNICODE)"

definition guest_cpu_tuning :: "env_var \<Rightarrow> message + GuestCpuTuning" where
  "guest_cpu_tuning var =
     (case var of
        Set value \<Rightarrow> map_error lsw_error_display (guest_cpu_tuning_parse value)
      | NotPresent \<Rightarrow> Inr Enlightened
      | NotUnicode \<Rightarrow> Inl ENV_NOT_UNICODE)"

definition current_rss_kib :: "'w daemon_os \<Rightarrow> ('w host, 'e, u64 option) io" where
  "current_rss_kib os =
     io_bind (io_attempt (read_to_string (do_fs os) ''/proc/self/status'')) (\<lambda>r.
     io_return (case r of
         Inl _ \<Rightarrow> None
       | Inr contents \<Rightarrow>
           find_map (\<lambda>line. Option.bind (strip_prefix line ''VmRSS:'') (\<lambda>rest. Option.bind (first_word rest) parse_u64))
             (lines contents)))"

definition node_mode :: "fs_node \<Rightarrow> nat" where
  "node_mode n = (case n of Directory mode \<Rightarrow> mode | Regular mode _ \<Rightarrow> mode | _ \<Rightarrow> 0)"

text \<open>Some of the bits \<open>0o077\<close> are set.\<close>

definition open_to_others :: "nat \<Rightarrow> bool" where
  "open_to_others mode \<longleftrightarrow> mode mod 64 \<noteq> 0"

definition socket_directory :: "'w daemon_os \<Rightarrow> string \<Rightarrow> ('w, unit) host_io" where
  "socket_directory os parent =
     io_bind (path_exists (do_fs os) parent) (\<lambda>exists.
     if \<not> exists
     then io_bind (boxed (create_dir_all (do_fs os) parent)) (\<lambda>_. boxed (set_permissions (do_fs os) parent 448))
     else io_bind (boxed (symlink_metadata (do_fs os) parent)) (\<lambda>metadata.
          if \<not> is_dir metadata
          then io_fail [Text ''socket parent '', Disp (path_display parent), Text '' is not a directory'']
          else io_bind (boxed (symlink_metadata (do_fs os) parent)) (\<lambda>metadata.
               if open_to_others (node_mode metadata)
               then io_fail [Text ''socket directory '', Disp (path_display parent),
                             Text '' must not be accessible by group or other users'']
               else io_return ())))"

definition prepare_socket_path :: "'w daemon_os \<Rightarrow> string \<Rightarrow> ('w, unit) host_io" where
  "prepare_socket_path os path =
     (case path_parent path of
        None \<Rightarrow> io_fail [Text ''daemon socket path does not have a parent directory'']
      | Some parent \<Rightarrow>
          io_bind (socket_directory os parent) (\<lambda>_.
          io_bind (io_attempt (symlink_metadata (do_fs os) path)) (\<lambda>r.
          case r of
            Inl e \<Rightarrow> if e = NotFound then io_return () else io_fail [Disp (io_error_display e)]
          | Inr metadata \<Rightarrow>
              io_bind (io_attempt (sys (do_connect os path))) (\<lambda>connected.
              case connected of
                Inr _ \<Rightarrow> io_fail [Text ''another lswd is already listening at '', Disp (path_display path)]
              | Inl _ \<Rightarrow>
                  if metadata \<noteq> SocketNode
                  then io_fail [Text ''refusing to replace non-socket path '', Disp (path_display path)]
                  else boxed (unlink_file (do_fs os) path)))))"

definition command_display :: "CommandInvocation \<Rightarrow> string" where
  "command_display c = display_command (ci_program c) (ci_arguments c)"

definition daemon_plan :: "'w daemon_os \<Rightarrow> Supervisor \<Rightarrow> string \<Rightarrow> LaunchPhase \<Rightarrow> ('w, DaemonResponse) host_io" where
  "daemon_plan os su name phase =
     io_bind (boxed_lsw (load (do_fs os) (su_store su) name)) (\<lambda>m.
     io_bind (boxed_lsw (io_of (instance_dir (su_store su) name))) (\<lambda>dir.
     io_bind (boxed_lsw (plan (do_fs os) (planner su) m dir phase)) (\<lambda>p.
     io_return (PlanSummary
       \<lparr>ps_helper_commands = map command_display (cp_helper_commands p),
        ps_command = display_command (cp_program p) (cp_arguments p),
        ps_notes = cp_notes p,
        ps_missing_capabilities = cp_missing_capabilities p\<rparr>))))"

text \<open>\<open>n\<close> is the depth of the supervisor's operations.\<close>

definition dispatch ::
  "nat \<Rightarrow> 'w daemon_os \<Rightarrow> Supervisor \<Rightarrow> DaemonRequest \<Rightarrow> ('w, DaemonResponse) daemon_io" where
  "dispatch n os su request =
     (let noticed = (\<lambda>m. io_bind m (\<lambda>ls. io_return (Notice ls))) in
      case request of
        DR_Ping \<Rightarrow> io_bind (on_host (current_rss_kib os)) (\<lambda>rss.
          io_return (PongInfo \<lparr>di_protocol = DAEMON_PROTOCOL_VERSION, di_features = DAEMON_FEATURES,
                     di_pid = word_of_nat (ho_pid (do_fs os)), di_rss_kib = rss\<rparr>))
      | DR_List \<Rightarrow> io_bind (on_host (boxed_lsw (list_instances (do_fs os) (su_store su)))) (\<lambda>manifests.
          io_return (Instances (map (\<lambda>m. \<lparr>sm_name = is_name (im_spec m), sm_state = im_state m,
                                          sm_profile = is_profile (im_spec m)\<rparr>) manifests)))
      | DR_Show name \<Rightarrow> io_bind (on_host (boxed_lsw (load (do_fs os) (su_store su) name))) (\<lambda>m.
          io_bind (on_host (boxed_lsw (io_of (manifest_encode m)))) (\<lambda>encoded. io_return (ManifestText encoded)))
      | DR_Plan name phase \<Rightarrow> on_host (daemon_plan os su name phase)
      | DR_Start name phase \<Rightarrow> start n os su name phase
      | DR_Status name \<Rightarrow> io_bind (status n os su name) (\<lambda>s. io_return (StatusOf s))
      | DR_Suspend name \<Rightarrow> noticed (suspend n os su name)
      | DR_Resume name \<Rightarrow> resume n os su name
      | DR_Hibernate name \<Rightarrow> noticed (hibernate n os su name)
      | DR_Activity name \<Rightarrow> noticed (activity os su name)
      | DR_Balloon name memory_mib \<Rightarrow> noticed (balloon os su name memory_mib)
      | DR_Stop name force \<Rightarrow> noticed (stop n os su name force))"

text \<open>The reply to what a connection has sent; writing it is \<open>write_daemon_reply\<close>.\<close>

definition connection_reply ::
  "nat \<Rightarrow> 'w daemon_os \<Rightarrow> Supervisor \<Rightarrow> (bytes \<Rightarrow> string + DaemonRequest) \<Rightarrow> bytes \<Rightarrow> ('w daemon, 'e, DaemonReply) io" where
  "connection_reply n os su from_slice stream =
     (case read_daemon_request from_slice stream of
        Inr (Some request) \<Rightarrow>
          io_bind (io_attempt (dispatch n os su request)) (\<lambda>r.
          io_return (case r of Inr response \<Rightarrow> ReplyOk response | Inl error \<Rightarrow> ReplyError error))
      | Inr None \<Rightarrow> io_return (ReplyError [Text ''empty request''])
      | Inl error \<Rightarrow> io_return (ReplyError (lsw_error_display error)))"


text \<open>
  One round of the loop of \<open>run\<close>, given what \<open>accept\<close> returns: whether the daemon goes on, and when it
  last had a request.  Times are in milliseconds.  A connection whose timeouts cannot be set ends the
  daemon with the error; one that cannot be cloned fails alone.
\<close>

datatype accepted = Connection bytes | TimeoutFailed io_error | CloneFailed io_error | WouldBlock | AcceptFailed

definition serve_round ::
  "nat \<Rightarrow> 'w daemon_os \<Rightarrow> Supervisor \<Rightarrow> (bytes \<Rightarrow> string + DaemonRequest) \<Rightarrow> (DaemonReply \<Rightarrow> ('w, unit) host_call)
     \<Rightarrow> u64 \<Rightarrow> nat \<Rightarrow> accepted \<Rightarrow> ('w, bool \<times> nat) daemon_io" where
  "serve_round n os su from_slice send idle_exit last_request accepted =
     (case accepted of
        Connection stream \<Rightarrow>
          io_bind (on_host (ask (do_now os))) (\<lambda>now.
          io_bind (connection_reply n os su from_slice stream) (\<lambda>reply.
          io_bind (io_ignore (on_host (sys (send reply)))) (\<lambda>_.
          io_return (True, now))))
      | TimeoutFailed error \<Rightarrow>
          io_bind (on_host (ask (do_now os))) (\<lambda>_. io_fail [Disp (io_error_display error)])
      | CloneFailed error \<Rightarrow>
          io_bind (on_host (ask (do_now os))) (\<lambda>now. io_return (True, now))
      | WouldBlock \<Rightarrow>
          io_bind (poll n os su) (\<lambda>_.
          io_bind (has_active_work os su) (\<lambda>active.
          io_bind (on_host (ask (do_now os))) (\<lambda>now.
          if \<not> active \<and> now - last_request \<ge> 1000 * unat idle_exit then io_return (False, last_request)
          else io_bind (on_host (sleep os 100)) (\<lambda>_. io_return (True, last_request)))))
      | AcceptFailed \<Rightarrow> io_return (True, last_request))"

end
