(* ===== verification/Supervisor_Safety.thy ===== *)
theory Supervisor_Safety
  imports Daemon
begin

text \<open>
  What the daemon does to the store.  The relation \<open>orderly\<close> between hosts says that the store stays
  well-formed and that every manifest is kept, except that its state may advance; it is a preorder,
  so that the rules of \<open>step_order\<close> carry it from the file system calls to the dispatch of requests.
\<close>

section \<open>Advancing the state of an instance\<close>

text \<open>Another state, never back to one that has not been installed, and the time of the change.\<close>

definition advanced :: "InstanceManifest \<Rightarrow> InstanceManifest \<Rightarrow> bool" where
  "advanced m m' \<longleftrightarrow> m' = m \<or>
     (\<exists>state now. m' = m\<lparr>im_state := state, im_state_changed_unix_seconds := now\<rparr> \<and> state \<noteq> Configured)"

lemma advanced_refl: "advanced m m"
  by (simp add: advanced_def)

lemma advanced_trans: "advanced a b \<Longrightarrow> advanced b c \<Longrightarrow> advanced a c"
proof -
  assume "advanced a b" and "advanced b c"
  moreover have "a\<lparr>im_state := s, im_state_changed_unix_seconds := t, im_state := s', im_state_changed_unix_seconds := t'\<rparr>
      = a\<lparr>im_state := s', im_state_changed_unix_seconds := t'\<rparr>" for s t s' t' by simp
  ultimately show ?thesis unfolding advanced_def by metis
qed

lemma advanced_set: "state \<noteq> Configured \<Longrightarrow> advanced m (m\<lparr>im_state := state, im_state_changed_unix_seconds := now\<rparr>)"
  by (auto simp: advanced_def)

definition views_advanced :: "(string \<Rightarrow> InstanceManifest option) \<Rightarrow> (string \<Rightarrow> InstanceManifest option) \<Rightarrow> bool" where
  "views_advanced v v' \<longleftrightarrow> (\<forall>name. rel_option advanced (v name) (v' name))"

lemma views_advanced_refl: "views_advanced v v"
  by (simp add: views_advanced_def option.rel_refl advanced_refl)

lemma views_advanced_trans: "views_advanced u v \<Longrightarrow> views_advanced v w \<Longrightarrow> views_advanced u w"
  unfolding views_advanced_def
proof
  fix name
  assume "\<forall>name. rel_option advanced (u name) (v name)" "\<forall>name. rel_option advanced (v name) (w name)"
  from spec [OF this(1), of name] spec [OF this(2), of name] show "rel_option advanced (u name) (w name)"
    by (cases "u name"; cases "v name"; cases "w name") (auto intro: advanced_trans)
qed

lemma views_advanced_dom: "views_advanced v v' \<Longrightarrow> v name \<noteq> None \<Longrightarrow> v' name \<noteq> None"
  unfolding views_advanced_def by (metis rel_option_None1 rel_option_None2)

lemma views_advanced_update:
  assumes "v name = Some m" and "advanced m m'"
  shows "views_advanced v (v(name \<mapsto> m'))"
  using assms unfolding views_advanced_def by (simp add: option.rel_refl advanced_refl)

text \<open>On a host where the instances \<open>N\<close> are present.\<close>

definition orderly :: "StateStore \<Rightarrow> string set \<Rightarrow> 'w host \<Rightarrow> 'w host \<Rightarrow> bool" where
  "orderly st N h h' \<longleftrightarrow> (store_ok st h \<and> (\<forall>name \<in> N. view st h name \<noteq> None) \<longrightarrow>
     store_ok st h' \<and> views_advanced (view st h) (view st h'))"

interpretation orderly: step_order "orderly st N" for st N
  by unfold_locales (auto simp: orderly_def intro: views_advanced_refl views_advanced_trans dest: views_advanced_dom)

text \<open>The same on the daemon.\<close>

definition daemon_orderly :: "StateStore \<Rightarrow> string set \<Rightarrow> 'w daemon \<Rightarrow> 'w daemon \<Rightarrow> bool" where
  "daemon_orderly st N d d' \<longleftrightarrow> orderly st N (dm_host d) (dm_host d')"

interpretation orderly_daemon: step_order "daemon_orderly st N" for st N
  by unfold_locales (auto simp: daemon_orderly_def intro: orderly.refl orderly.trans)

text \<open>Rules for the two, with the operations as \<open>orderly_calls\<close>.\<close>

named_theorems orderly_calls \<open>computations that keep the store\<close>

lemma orderly_unchanged: "unchanged h h' \<Longrightarrow> orderly st N h h'"
  by (auto simp: orderly_def store_ok_unchanged view_unchanged views_advanced_refl)

lemma orderly_looks: "keeps unchanged m \<Longrightarrow> keeps (orderly st N) m"
  by (auto simp: keeps_def intro: post_mono orderly_unchanged)

lemma orderly_on_host [orderly_calls]: "keeps (orderly st N) m \<Longrightarrow> keeps (daemon_orderly st N) (on_host m)"
  unfolding on_host_def keeps_def daemon_orderly_def by (simp add: wp)

lemma orderly_boxed [orderly_calls]:
  "keeps (orderly st N) m \<Longrightarrow> keeps (orderly st N) (boxed m)"
  "keeps (orderly st N) m' \<Longrightarrow> keeps (orderly st N) (boxed_lsw m')"
  unfolding boxed_def boxed_lsw_def by (rule orderly.keeps_map_error, assumption)+

lemma orderly_processes [orderly_calls]:
  "keeps (daemon_orderly st N) (managed name)" "keeps (daemon_orderly st N) (owns name)"
  "keeps (daemon_orderly st N) (remove_process name)" "keeps (daemon_orderly st N) (insert_process name vm)"
  "keeps (daemon_orderly st N) process_names"
  "keeps (daemon_orderly st N) (io_modify (\<lambda>d. d\<lparr>dm_last_policy_poll := now\<rparr>))"
  by (simp_all add: keeps_def managed_def owns_def remove_process_def insert_process_def process_names_def wp
      daemon_orderly_def orderly.refl)

text \<open>Fewer instances known to be present is the stronger statement.\<close>

lemma orderly_fewer: "N' \<subseteq> N \<Longrightarrow> orderly st N' h h' \<Longrightarrow> orderly st N h h'"
  unfolding orderly_def by blast

lemma keeps_fewer: "N' \<subseteq> N \<Longrightarrow> keeps (orderly st N') m \<Longrightarrow> keeps (orderly st N) m"
  by (auto simp: keeps_def intro: post_mono orderly_fewer)


section \<open>File system calls in the directory of an instance\<close>

text \<open>A call that changes nodes only at one path, of a file below a directory of the instance.\<close>

definition deep_path :: "StateStore \<Rightarrow> string \<Rightarrow> bool" where
  "deep_path st p \<longleftrightarrow> (\<exists>name q. valid_label 63 name \<and> p = idir st name @ CHR ''/'' # q \<and> CHR ''/'' \<in> set q)"

definition child_path :: "StateStore \<Rightarrow> string \<Rightarrow> string \<Rightarrow> bool" where
  "child_path st name p \<longleftrightarrow> valid_label 63 name \<and> (\<exists>q. p = idir st name @ CHR ''/'' # q \<and> q \<noteq> MANIFEST_FILE)"

lemma orderly_only_at:
  assumes p: "deep_path st p \<or> (\<exists>name \<in> N. child_path st name p)" and only: "only_at p h h'"
  shows "orderly st N h h'"
  unfolding orderly_def
proof (intro impI, elim conjE)
  assume ok: "store_ok st h" and N: "\<forall>name\<in>N. view st h name \<noteq> None"
  have "\<exists>name q. valid_label 63 name \<and> p = idir st name @ CHR ''/'' # q \<and> q \<noteq> MANIFEST_FILE
      \<and> (CHR ''/'' \<in> set q \<or> node_at h (idir st name) \<noteq> None)"
    using p
  proof
    assume "deep_path st p"
    moreover have "CHR ''/'' \<notin> set MANIFEST_FILE" by (simp add: MANIFEST_FILE_def)
    ultimately show ?thesis unfolding deep_path_def by blast
  next
    assume "\<exists>name \<in> N. child_path st name p"
    then obtain name where "name \<in> N" "child_path st name p" by blast
    moreover from N this(1) have "node_at h (idir st name) \<noteq> None" by (auto simp: view_Some)
    ultimately show ?thesis unfolding child_path_def by blast
  qed
  then obtain name q where name: "valid_label 63 name" and pq: "p = idir st name @ CHR ''/'' # q" "q \<noteq> MANIFEST_FILE"
    and home: "CHR ''/'' \<in> set q \<or> node_at h (idir st name) \<noteq> None" by blast
  have keep: "node_at h' r = node_at h r" if "r \<noteq> p" for r using only that by (simp add: only_at_def)
  have same: "node_at h' (idir st other) = node_at h (idir st other)"
    "node_at h' (manifest_path st other) = node_at h (manifest_path st other)" if "valid_label 63 other" for other
    by (rule keep, simp only: pq below_distinct [OF that name] not_False_eq_True)
      (rule keep, simp only: pq below_distinct [OF that name], use pq(2) in blast)
  have view: "view st h' = view st h" by (rule ext) (rule view_eq, (rule same, assumption)+)
  have tree: "store_tree st h" using ok by (simp add: store_ok_def)
  have "store_tree st h'"
  proof (rule store_tree_step [OF tree])
    show "wf_host h'" using only tree by (simp add: only_at_def store_tree_def)
    show "is_name (im_spec m) = other" if "view st h' other = Some m" for other m
      using that tree by (simp add: view store_tree_def)
    have root: "node_at h' (instances_root st) = node_at h (instances_root st)"
      using only pq by (simp add: only_at_def)
    show "\<exists>mode. node_at h' (instances_root st) = Some (Directory mode)"
      if "valid_label 63 other" "node_at h' (idir st other) \<noteq> None" for other
      using that tree unfolding root same(1) [OF that(1)] store_tree_def by blast
    show "node_at h' (idir st other @ CHR ''/'' # r) = None"
      if "valid_label 63 other" "node_at h' (idir st other) = None" "r \<noteq> []" "CHR ''/'' \<notin> set r" for other r
    proof -
      have "node_at h (idir st other @ CHR ''/'' # r) = None"
        using that tree same(1) [OF that(1)] unfolding store_tree_def by metis
      moreover have "idir st other @ CHR ''/'' # r \<noteq> p"
        using that(2,4) home unfolding pq(1) below_distinct(1) [OF that(1) name] same(1) [OF that(1)] by blast
      ultimately show ?thesis using keep by metis
    qed
  qed
  then show "store_ok st h' \<and> views_advanced (view st h) (view st h')"
    using ok by (simp add: store_ok_def ports_apart_def view views_advanced_refl)
qed

text \<open>Calls at such a path.\<close>

definition own_path :: "StateStore \<Rightarrow> string set \<Rightarrow> string \<Rightarrow> bool" where
  "own_path st N p \<longleftrightarrow> deep_path st p \<or> (\<exists>name \<in> N. child_path st name p)"

lemma post_open_append [fs_post]:
  assumes "\<And>e h'. unchanged h h' \<Longrightarrow> Q (Inl e) h'"
    and "\<And>h'. leaves h (node_at h) h' \<or> leaves h ((node_at h)(p \<mapsto> Regular 384 [])) h' \<Longrightarrow> Q (Inr ()) h'"
  shows "post (open_append os p) Q h"
  unfolding open_append_def
  by (rule post_fs_run) (auto intro: assms leaves_updates split: option.splits fs_node.splits)

lemma post_open_truncate [fs_post]:
  assumes "\<And>e h'. unchanged h h' \<Longrightarrow> Q (Inl e) h'"
    and "\<And>mode h'. leaves h (node_at h) h' \<or> leaves h ((node_at h)(p \<mapsto> Regular mode [])) h' \<Longrightarrow> Q (Inr ()) h'"
  shows "post (open_truncate os p) Q h"
  unfolding open_truncate_def
  by (rule post_fs_run) (auto intro: assms leaves_updates split: option.splits fs_node.splits)

lemma only_at_calls:
  "keeps (only_at p) (create_dir os p)" "keeps (only_at p) (open_create_new os p)" "keeps (only_at p) (set_permissions os p mode)"
  "keeps (only_at p) (write_contents os p s)" "keeps (only_at p) (unlink_file os p)" "keeps (only_at p) (remove_dir os p)"
  "keeps (only_at p) (open_append os p)" "keeps (only_at p) (open_truncate os p)"
  by (auto intro!: keepsI fs_post elim: only_at_leaves)

lemma orderly_at: "own_path st N p \<Longrightarrow> keeps (only_at p) m \<Longrightarrow> keeps (orderly st N) m"
  unfolding keeps_def own_path_def by (auto intro: post_mono orderly_only_at)

lemmas orderly_fs [orderly_calls] = only_at_calls [THEN orderly_at [rotated]]

lemma keeps_sync: "keeps unchanged (sync_file os p)"
  by (auto intro!: keepsI fs_post)

lemma orderly_questions [orderly_calls]:
  "keeps (orderly st N) (symlink_metadata os p)" "keeps (orderly st N) (read_file os p)" "keeps (orderly st N) (read_to_string os p)"
  "keeps (orderly st N) (read_dir os p)" "keeps (orderly st N) (read_entry os p)" "keeps (orderly st N) (path_exists os p)"
  "keeps (orderly st N) (path_is_file os p)" "keeps (orderly st N) (path_is_dir os p)" "keeps (orderly st N) (canonicalize os p)"
  "keeps (orderly st N) (metadata_uid os p)" "keeps (orderly st N) (open_read os p)" "keeps (orderly st N) (os_ask f)"
  "keeps (orderly st N) (sync_file os p)"
  by (rule orderly_looks, rule looks keeps_sync)+


section \<open>Other programs\<close>

text \<open>
  Every call to the system may find the host changed by other programs; they are assumed to leave
  the manifests alone.
\<close>

definition quiet :: "StateStore \<Rightarrow> 'w host \<Rightarrow> 'w host \<Rightarrow> bool" where
  "quiet st h h' \<longleftrightarrow> (store_ok st h \<longrightarrow> store_ok st h' \<and> view st h' = view st h)"

definition tame :: "StateStore \<Rightarrow> 'w daemon_os \<Rightarrow> bool" where
  "tame st os \<longleftrightarrow> (\<forall>h.
     (\<forall>program arguments. quiet st h (snd (ho_command (do_fs os) program arguments h)))
   \<and> (\<forall>path. quiet st h (snd (do_connect os path h))) \<and> (\<forall>c. quiet st h (snd (do_set_timeouts os c h)))
   \<and> (\<forall>c line. quiet st h (snd (do_write_line os c line h))) \<and> (\<forall>c n. quiet st h (snd (do_read_line os c n h)))
   \<and> (\<forall>program arguments. quiet st h (snd (do_spawn os program arguments h)))
   \<and> (\<forall>child. quiet st h (snd (do_try_wait os child h))) \<and> (\<forall>child. quiet st h (snd (do_kill os child h)))
   \<and> (\<forall>child. quiet st h (snd (do_wait os child h)))
   \<and> quiet st h (snd (do_now os h)) \<and> (\<forall>ms. quiet st h (do_sleep os ms h))
   \<and> (\<forall>port. quiet st h (snd (do_tcp_connect os port h))) \<and> (\<forall>c bs. quiet st h (snd (do_tcp_write os c bs h)))
   \<and> (\<forall>c. quiet st h (snd (do_tcp_input os c h))))"

lemma orderly_quiet: "quiet st h h' \<Longrightarrow> orderly st N h h'"
  by (auto simp: quiet_def orderly_def views_advanced_refl)

lemma orderly_sys: "(\<And>h. quiet st h (snd (f h))) \<Longrightarrow> keeps (orderly st N) (sys f)"
  and orderly_ask: "(\<And>h. quiet st h (snd (g h))) \<Longrightarrow> keeps (orderly st N) (ask g)"
proof -
  show "keeps (orderly st N) (sys f)" if "\<And>h. quiet st h (snd (f h))"
    unfolding keeps_def post_def sys_def using that by (auto intro!: orderly_quiet split: prod.splits) (metis snd_conv)
  show "keeps (orderly st N) (ask g)" if "\<And>h. quiet st h (snd (g h))"
    unfolding keeps_def post_def ask_def using that by (auto intro!: orderly_quiet split: prod.splits) (metis snd_conv)
qed

lemma orderly_tame [orderly_calls]:
  assumes "tame st os"
  shows "keeps (orderly st N) (run_command (do_fs os) program arguments)"
    "keeps (orderly st N) (sys (do_connect os path))" "keeps (orderly st N) (sys (do_set_timeouts os c))"
    "keeps (orderly st N) (sys (do_write_line os c line))" "keeps (orderly st N) (sys (do_read_line os c n))"
    "keeps (orderly st N) (sys (do_spawn os program arguments))" "keeps (orderly st N) (sys (do_try_wait os child))"
    "keeps (orderly st N) (sys (do_kill os child))" "keeps (orderly st N) (sys (do_wait os child))"
    "keeps (orderly st N) (ask (do_now os))" "keeps (orderly st N) (sleep os ms)"
    "keeps (orderly st N) (sys (do_tcp_connect os port))" "keeps (orderly st N) (sys (do_tcp_write os c bs))"
    "keeps (orderly st N) (ask (do_tcp_input os c))"
proof -
  have "run_command (do_fs os) program arguments = sys (ho_command (do_fs os) program arguments)"
    by (simp add: run_command_def sys_def)
  then show "keeps (orderly st N) (run_command (do_fs os) program arguments)"
    using assms by (auto simp: tame_def intro!: orderly_sys)
  show "keeps (orderly st N) (sleep os ms)"
    using assms by (auto simp: tame_def sleep_def keeps_def wp intro!: orderly_quiet)
qed (use assms in \<open>auto simp: tame_def intro!: orderly_sys orderly_ask\<close>)

section \<open>Instances\<close>

lemma orderly_load [orderly_calls]: "keeps (orderly st N) (load os st name)"
  by (rule orderly_looks, rule keepsI, rule post_mono [OF load_outcome]) simp

lemma boxed_load_outcome:
  "post (boxed_lsw (load os st name)) (\<lambda>r h'. unchanged h h' \<and> (\<forall>m. r = Inr m \<longrightarrow> view st h name = Some m)) h"
  unfolding boxed_lsw_def post_map_error
proof (rule post_mono [OF load_outcome])
  fix r :: "LswError + InstanceManifest" and t
  assume "unchanged h t \<and> (\<forall>m. r = Inr m \<longrightarrow> view st h name = Some m)"
  then show "unchanged h t \<and> (\<forall>m. map_error lsw_error_display r = Inr m \<longrightarrow> view st h name = Some m)" by (cases r) auto
qed

text \<open>After a manifest was read, its instance is known to be present.\<close>

lemma orderly_loaded:
  assumes "\<And>m. keeps (orderly st (insert name N)) (f m)"
  shows "keeps (orderly st N) (io_bind (boxed_lsw (load os st name)) f)"
proof (rule keepsI)
  fix h
  show "post (io_bind (boxed_lsw (load os st name)) f) (\<lambda>_. orderly st N h) h"
  proof (rule post_seq [OF boxed_load_outcome])
    show "orderly st N h t" if "unchanged h t \<and> (\<forall>m. Inl e = Inr m \<longrightarrow> view st h name = Some m)" for t and e :: message
      using that by (simp add: orderly_unchanged)
    fix m :: InstanceManifest and t
    assume t: "unchanged h t \<and> (\<forall>m'. Inr m = Inr m' \<longrightarrow> view st h name = Some m')"
    show "post (f m) (\<lambda>_. orderly st N h) t"
    proof (rule post_mono [OF keeps_post [OF assms]])
      fix u assume "orderly st (insert name N) t u"
      then show "orderly st N h u"
        using t store_ok_unchanged [of st h t] view_unchanged [of h t st] by (auto simp: orderly_def)
    qed
  qed
qed

lemma orderly_instance_dir:
  assumes "valid_label 63 name \<Longrightarrow> keeps (orderly st N) (f (idir st name))"
  shows "keeps (orderly st N) (io_bind (boxed_lsw (io_of (instance_dir st name))) f)"
proof (cases "valid_label 63 name")
  case True
  then have "io_bind (boxed_lsw (io_of (instance_dir st name))) f = f (idir st name)"
    by (simp add: boxed_lsw_def io_map_error_def io_of_def io_bind_def instance_dir_valid)
  with assms True show ?thesis by simp
next
  case False
  then have "io_bind (boxed_lsw (io_of (instance_dir st name))) f = io_fail (lsw_error_display (InvalidInstanceName name))"
    by (simp add: boxed_lsw_def io_map_error_def io_of_def io_bind_def io_fail_def instance_dir_invalid)
  then show ?thesis by (simp add: orderly.keeps_pure)
qed

lemma orderly_case_dir:
  assumes "keeps (orderly st N) m" and "valid_label 63 name \<Longrightarrow> keeps (orderly st N) (f (idir st name))"
  shows "keeps (orderly st N) (case instance_dir st name of Inl _ \<Rightarrow> m | Inr dir \<Rightarrow> f dir)"
  using assms by (cases "valid_label 63 name") (simp_all add: instance_dir_valid instance_dir_invalid)

text \<open>The paths of the runtime directory.\<close>

lemma path_is_absolute_Cons [simp]: "path_is_absolute (c # s) \<longleftrightarrow> c = CHR ''/''"
  by (auto simp: path_is_absolute_def)

lemma own_join:
  assumes "valid_label 63 name" and "\<not> path_is_absolute q" and "CHR ''/'' \<in> set q \<or> name \<in> N \<and> q \<noteq> MANIFEST_FILE"
  shows "own_path st N (path_join (idir st name) q)"
  unfolding own_path_def deep_path_def child_path_def path_join_instance [OF assms(1,2)] using assms(1,3) by blast

lemma own_join_run:
  assumes "valid_label 63 name" and "\<not> path_is_absolute file_name"
  shows "own_path st N (path_join (path_join (idir st name) ''run'') file_name)"
proof -
  have "path_join (path_join (idir st name) ''run'') file_name = idir st name @ CHR ''/'' # ''run/'' @ file_name"
    using assms(2) path_join_instance [OF assms(1), of "''run''" st] by (simp add: path_join_def)
  then have "deep_path st (path_join (path_join (idir st name) ''run'') file_name)"
    unfolding deep_path_def using assms(1) by (intro exI [of _ name] exI [of _ "''run/'' @ file_name"]) simp
  then show ?thesis by (simp add: own_path_def)
qed

lemmas orderly_rules = orderly_instance_dir orderly_case_dir orderly.keeps_rules orderly_daemon.keeps_rules own_join own_join_run


section \<open>Recording a state\<close>

lemma decoded_storable:
  assumes "manifest_decode s = Inr m" and "utf8_valid s"
  shows "storable m"
proof -
  obtain flds where read: "read_fields 1 (lines s) (\<lambda>_. None) = Inr flds" and m: "decode_fields flds = Inr m"
    using assms(1) by (auto simp: manifest_decode_def ok_iff)
  have "\<forall>k v. flds k = Some v \<longrightarrow> utf8_valid v"
    using read_fields_utf8 [OF read] utf8_valid_lines [OF assms(2)] by simp
  from decode_encodes [OF m this] decode_fields_ok(1,2,7) [OF m] show ?thesis by (simp add: storable_def)
qed

lemma view_storable: "view st h name = Some m \<Longrightarrow> storable m"
  by (auto simp: view_Some intro: decoded_storable)

lemma orderly_set_state [orderly_calls]:
  assumes "honest (do_fs os)" and "state \<noteq> Configured"
  shows "keeps (orderly (su_store su) N) (set_state os su name state)"
proof (rule keepsI)
  fix h
  let ?st = "su_store su"
  have update: "post (update_instance (do_fs os) ?st (m\<lparr>im_state := state, im_state_changed_unix_seconds := now\<rparr>)) (\<lambda>_. orderly ?st N h) t"
    if t: "unchanged h t" and m: "view ?st h name = Some m" for m t now
  proof (cases "store_ok ?st h")
    case True
    let ?m = "m\<lparr>im_state := state, im_state_changed_unix_seconds := now\<rparr>"
    have name: "is_name (im_spec m) = name" using True m by (auto simp: store_ok_def store_tree_def)
    have ok: "store_ok ?st t" and view: "view ?st t = view ?st h"
      using True t by (auto intro: store_ok_unchanged view_unchanged)
    have "storable ?m" using view_storable [OF m] by (simp add: storable_def manifest_utf8_def)
    from update_outcome [OF assms(1) ok this] show ?thesis
    proof (rule post_mono)
      fix r :: "LswError + unit" and u
      assume "map_updated ?st ?m t r u \<and> store_ok ?st u"
      moreover have "views_advanced (view ?st h) ((view ?st h)(name \<mapsto> ?m))"
        using m advanced_set [OF assms(2)] by (rule views_advanced_update)
      ultimately show "orderly ?st N h u"
        using name by (cases r) (auto simp: orderly_def map_updated_def view intro: views_advanced_refl)
    qed
  qed (simp add: orderly_def post_def split: option.splits prod.splits)
  show "post (set_state os su name state) (\<lambda>_. orderly ?st N h) h"
    unfolding set_state_def unix_seconds_def
  proof (rule post_seq [OF boxed_load_outcome])
    fix m :: InstanceManifest and t
    assume "unchanged h t \<and> (\<forall>m'. Inr m = Inr m' \<longrightarrow> view ?st h name = Some m')"
    then show "post (io_bind (os_ask (do_unix_seconds os)) (\<lambda>now. boxed_lsw
        (update_instance (do_fs os) ?st (m\<lparr>im_state := state, im_state_changed_unix_seconds := now\<rparr>)))) (\<lambda>_. orderly ?st N h) t"
      unfolding boxed_lsw_def by (auto simp: wp intro!: post_os_ask update elim: unchanged_trans)
  qed (simp add: orderly_unchanged)
qed

section \<open>The steps of the supervisor\<close>

subsection \<open>The control connection\<close>

lemma orderly_read_message [orderly_calls]: "tame st os \<Longrightarrow> keeps (orderly st N) (read_message os qmp)"
  unfolding read_message_def by (intro orderly_rules orderly_calls)

lemma orderly_read_responses [orderly_calls]:
  assumes "tame st os"
  shows "keeps (orderly st N) (read_responses n os qmp)"
  by (induction n) (simp_all only: read_responses.simps, (intro orderly_rules orderly_calls assms, assumption?)+)

lemma orderly_execute [orderly_calls]:
  assumes "tame st os"
  shows "keeps (orderly st N) (execute_document os qmp document)" "keeps (orderly st N) (qmp_send os qmp document)"
    "keeps (orderly st N) (read_response os qmp)"
  unfolding execute_document_def qmp_send_def read_response_def Let_def by (intro orderly_rules orderly_calls assms)+

lemma orderly_qmp [orderly_calls]:
  assumes "tame st os"
  shows "keeps (orderly st N) (qmp_connect os path)" "keeps (orderly st N) (qmp_query_status os qmp)"
    "keeps (orderly st N) (qmp_system_powerdown os qmp)" "keeps (orderly st N) (qmp_pause os qmp)"
    "keeps (orderly st N) (qmp_resume os qmp)" "keeps (orderly st N) (qmp_balloon os qmp target)"
    "keeps (orderly st N) (qmp_quit os qmp)"
  unfolding qmp_connect_def qmp_query_status_def qmp_system_powerdown_def qmp_pause_def qmp_resume_def qmp_balloon_def
    qmp_quit_def qmp_execute_def
  by (intro orderly_rules orderly_calls assms)+


subsection \<open>Files and processes of an instance\<close>

lemma orderly_marker [orderly_calls]: "own_path st N p \<Longrightarrow> keeps (orderly st N) (write_private_marker os p s)"
  unfolding write_private_marker_def by (intro orderly_rules orderly_calls)

lemma orderly_regular_file_at [orderly_calls]: "keeps (orderly st N) (regular_file_at os p)"
  unfolding regular_file_at_def by (intro orderly_rules orderly_calls)

lemma orderly_remove_regular [orderly_calls]: "own_path st N p \<Longrightarrow> keeps (orderly st N) (remove_regular os p)"
  unfolding remove_regular_def by (intro orderly_rules orderly_calls)

lemma orderly_requested [orderly_calls]:
  "keeps (orderly st N) (shutdown_was_requested os st name)" "keeps (orderly st N) (hibernate_was_requested os st name)"
  "keeps (orderly st N) (read_activity os st name)" "keeps (orderly st N) (unix_seconds os)" "keeps (orderly st N) (host_memory_pressure os)"
  unfolding shutdown_was_requested_def hibernate_was_requested_def requested_marker_exists_def read_activity_def
    unix_seconds_def host_memory_pressure_def Let_def
  by (intro orderly_rules orderly_calls)+

lemma orderly_remove_markers [orderly_calls]:
  "keeps (orderly st N) (remove_shutdown_marker os st name)" "keeps (orderly st N) (remove_hibernate_marker os st name)"
  unfolding remove_shutdown_marker_def remove_hibernate_marker_def remove_requested_marker_def
  by (intro orderly_rules orderly_calls; simp)+

lemma orderly_cleanup_sockets [orderly_calls]:
  assumes "valid_label 63 name"
  shows "keeps (orderly st N) (cleanup_runtime_sockets os (idir st name))"
proof -
  have "keeps (orderly st N) (io_bind (io_attempt (symlink_metadata (do_fs os) path)) (\<lambda>r.
      case r of
        Inr metadata \<Rightarrow>
          if metadata = SocketNode then boxed (unlink_file (do_fs os) path)
          else io_fail [Text ''refusing to replace non-socket path '', Disp (path_display path)]
      | Inl e \<Rightarrow> if e = NotFound then io_return () else io_fail [Disp (io_error_display e)]))"
    if "own_path st N path" for path
    using that by (intro orderly_rules orderly_calls)
  moreover have "own_path st N path" if "path \<in> set [path_join (idir st name) ''run/swtpm.sock'',
      path_join (idir st name) ''run/qmp.sock'', path_join (idir st name) ''run/recovery-vnc.sock'']" for path
    using that by (auto simp: MANIFEST_FILE_def intro!: own_join assms)
  ultimately show ?thesis unfolding cleanup_runtime_sockets_def by (intro orderly.keeps_for) blast
qed

lemma orderly_cleanup [orderly_calls]: "keeps (orderly st N) (cleanup_stopped_runtime_artifacts os st name)"
  unfolding cleanup_stopped_runtime_artifacts_def io_for.simps by (intro orderly_rules orderly_calls; simp)

lemma orderly_stop_helpers [orderly_calls]: 
  assumes "tame st os"
  shows "keeps (orderly st N) (stop_helpers os helpers)" "keeps (orderly st N) (check_helpers os helpers)"
  unfolding stop_helpers_def check_helpers_def by (intro orderly_rules orderly_calls assms)+

lemma orderly_any_exited [orderly_calls]: "tame st os \<Longrightarrow> keeps (orderly st N) (any_exited os helpers)"
  by (induction os helpers rule: any_exited.induct) (simp_all only: any_exited.simps, (intro orderly_rules orderly_calls; simp?)+)

lemma orderly_waits [orderly_calls]:
  assumes "tame st os"
  shows "keeps (orderly st N) (wait_for_socket_until n os socket helpers deadline)"
    "keeps (orderly st N) (wait_for_child_until n os child deadline)"
    "keeps (orderly st N) (wait_for_disconnect_until n os socket deadline)"
  by (induction n) (simp_all only: wait_for_socket_until.simps wait_for_child_until.simps wait_for_disconnect_until.simps,
    (intro orderly_rules orderly_calls assms, assumption?)+)

lemma orderly_waiting [orderly_calls]:
  assumes "tame st os"
  shows "keeps (orderly st N) (wait_for_socket os socket helpers timeout)" "keeps (orderly st N) (wait_for_child_exit os child timeout)"
    "keeps (orderly st N) (wait_or_kill os child timeout)" "keeps (orderly st N) (wait_for_qmp_disconnect os socket timeout)"
  unfolding wait_for_socket_def wait_for_child_exit_def wait_or_kill_def wait_for_qmp_disconnect_def
  by (intro orderly_rules orderly_calls assms)+

lemma orderly_agent [orderly_calls]:
  assumes "tame st os"
  shows "keeps (orderly st N) (request_guest_hibernate os m token)"
  unfolding request_guest_hibernate_def agent_write_def agent_read_def by (intro orderly_rules orderly_calls assms)

lemma orderly_status [orderly_calls]:
  assumes "tame (su_store su) os"
  shows "keeps (orderly (su_store su) N) (qmp_status os su name)" "keeps (orderly (su_store su) N) (record_activity os su name)"
    "keeps (orderly (su_store su) N) (set_balloon_target os su name memory_mib)"
  unfolding qmp_status_def record_activity_def set_balloon_target_def Let_def
  by (intro orderly_rules orderly_calls assms; simp)+

lemma orderly_remove_overlay [orderly_calls]: "keeps (orderly (su_store su) N) (remove_ephemeral_overlay os su name)"
  unfolding remove_ephemeral_overlay_def by (intro orderly_rules orderly_calls; simp)

lemma orderly_prepare_overlay [orderly_calls]:
  assumes "tame (su_store su) os" and "valid_label 63 name"
  shows "keeps (orderly (su_store su) N) (prepare_ephemeral_overlay os su (idir (su_store su) name) state)"
  unfolding prepare_ephemeral_overlay_def Let_def by (intro orderly_rules orderly_calls assms; simp)

lemma orderly_settle [orderly_calls]:
  assumes "honest (do_fs os)" and "state \<noteq> Configured"
  shows "keeps (orderly (su_store su) N) (settle os su name state)"
  unfolding settle_def by (intro orderly_rules orderly_calls assms)

lemma state_after_exit_not_configured [simp]: "state_after_qemu_exit a b c \<noteq> Configured"
  by (simp add: state_after_qemu_exit_def)

lemma orderly_poll_process [orderly_calls]:
  assumes "honest (do_fs os)" and "tame (su_store su) os"
  shows "keeps (daemon_orderly (su_store su) N) (poll_process os su name)"
  unfolding poll_process_def reap_exited_def reap_helperless_def
  by (intro orderly_rules orderly_calls assms; simp)

lemma orderly_wait_for_qmp [orderly_calls]:
  assumes "tame (su_store su) os"
  shows "keeps (daemon_orderly (su_store su) N) (wait_for_qmp_until n os su name deadline)"
    "keeps (daemon_orderly (su_store su) N) (wait_for_qmp os su name timeout)"
proof -
  show *: "keeps (daemon_orderly (su_store su) N) (wait_for_qmp_until n os su name deadline)" for n deadline
    by (induction n) (simp_all only: wait_for_qmp_until.simps, (intro orderly_rules orderly_calls assms, assumption?)+)
  show "keeps (daemon_orderly (su_store su) N) (wait_for_qmp os su name timeout)"
    unfolding wait_for_qmp_def by (intro orderly_rules orderly_calls assms *)
qed

subsection \<open>Reading and planning\<close>

lemma orderly_checks [orderly_calls]:
  "keeps (orderly st N) (node_check test os p)" "keeps (orderly st N) (is_real_directory os p)" "keeps (orderly st N) (is_regular_file os p)"
  "keeps (orderly st N) (require_regular_file os p field)" "keeps (orderly st N) (require_real_directory os p field)"
  "keeps (orderly st N) (require_directory os p field)" "keeps (orderly st N) (path_is_missing os p field)"
  "keeps (orderly st N) (real_directory_exists os p field)" "keeps (orderly st N) (require_missing_or_regular_file os p)"
  unfolding is_real_directory_def is_regular_file_def node_check_def require_regular_file_def require_real_directory_def
    require_directory_def path_is_missing_def real_directory_exists_def require_missing_or_regular_file_def
  by (intro orderly_rules orderly_calls)+

lemma orderly_reads [orderly_calls]:
  "keeps (orderly st N) (read_agent_token os st' name)" "keeps (orderly st N) (list_instances os st')"
  unfolding read_agent_token_def list_instances_def list_without_root_def list_entries_def list_entry_def Let_def
  by (intro orderly_rules orderly_calls)+

lemma orderly_roots [orderly_calls]:
  "keeps (orderly st N) (canonical_live_share_root os p)" "keeps (orderly st N) (canonical_share_root os p)"
  "keeps (orderly st N) (account_name_for_uid os uid)"
  unfolding canonical_live_share_root_def canonical_share_root_def account_name_for_uid_def by (intro orderly_rules orderly_calls)+

lemma orderly_plan [orderly_calls]: "keeps (orderly st N) (plan os qp m dir phase)"
  unfolding plan_def network_def plan_install_seed_def identity_seed_def plan_missing_capabilities_def Let_def
  by (intro orderly_rules orderly_calls)

lemma orderly_scan: "keeps (orderly st N) (scan_processes os proc_root dir name failed entries)"
proof (induction entries arbitrary: failed)
  case (Cons e entries)
  then show ?case by (cases e) (simp only: scan_processes.simps, intro orderly_rules orderly_calls Cons.IH)
qed (simp add: orderly.keeps_pure)

lemma orderly_evidence [orderly_calls]: "keeps (orderly st N) (qemu_process_evidence os dir name owned)"
  unfolding qemu_process_evidence_def qemu_process_evidence_with_proc_def scan_exact_qemu_process_def evidence_of_pid_def Let_def
  by (intro orderly_rules orderly_calls orderly_scan) (auto split: fs_node.splits intro!: orderly_rules orderly_calls)

subsection \<open>The files of a launch\<close>

lemma deep_path_join:
  assumes "deep_path st p" and "\<not> path_is_absolute q"
  shows "deep_path st (path_join p q)"
proof -
  obtain name r where "valid_label 63 name" and p: "p = idir st name @ CHR ''/'' # r" and r: "CHR ''/'' \<in> set r"
    using assms(1) unfolding deep_path_def by blast
  moreover have "path_join p q = idir st name @ CHR ''/'' # (if last p = CHR ''/'' then r @ q else r @ ''/'' @ q)"
    using assms(2) unfolding path_join_def p by simp
  ultimately show ?thesis
    unfolding deep_path_def by (intro exI [of _ name] exI [of _ "if last p = CHR ''/'' then r @ q else r @ ''/'' @ q"]) simp
qed

lemma deepI: "valid_label 63 name \<Longrightarrow> CHR ''/'' \<in> set q \<Longrightarrow> deep_path st (idir st name @ CHR ''/'' # q)"
  unfolding deep_path_def by blast

lemma deep_own: "deep_path st p \<Longrightarrow> own_path st N p"
  by (simp add: own_path_def)

lemma orderly_bind_value:
  fixes m :: "('w host, 'e, 'a) io"
  assumes "\<And>h. post m (\<lambda>r h'. orderly st N h h' \<and> (\<forall>x. r = Inr x \<longrightarrow> P x)) h" and "\<And>x. P x \<Longrightarrow> keeps (orderly st N) (f x)"
  shows "keeps (orderly st N) (io_bind m f)"
proof (rule keepsI, rule post_seq [OF assms(1)])
  fix h t :: "'w host" and x assume t: "orderly st N h t \<and> (\<forall>y. Inr x = Inr y \<longrightarrow> P y)"
  then have "keeps (orderly st N) (f x)" by (intro assms(2)) simp
  from keeps_post [OF this] show "post (f x) (\<lambda>_. orderly st N h) t"
    by (rule post_mono) (use t orderly.trans in blast)
qed simp

lemma entry_name: "(name, n) \<in> set (dir_entries ns p) \<Longrightarrow> \<not> path_is_absolute name"
  by (cases name) (auto simp: dir_entries_def)

lemma orderly_remove_children: "deep_path st p \<Longrightarrow> keeps (orderly st N) (remove_runtime_children depth os p)"
proof (induction depth arbitrary: p)
  case (Suc depth)
  have entry: "keeps (orderly st N) (case x of (name, _) \<Rightarrow>
      let entry = path_join p name in
      io_bind (io_lsw (read_entry os entry)) (\<lambda>_.
      io_bind (io_lsw (symlink_metadata os entry)) (\<lambda>metadata.
      if metadata = Symlink
      then io_fail (InvalidValue ''live folder runtime'' [Text ''refusing to remove symbolic link '', Disp (path_display entry)])
      else if is_dir metadata
      then io_bind (remove_runtime_children depth os entry) (\<lambda>_. io_lsw (remove_dir os entry))
      else io_lsw (unlink_file os entry))))" if "\<not> path_is_absolute (fst x)" for x
  proof -
    have "deep_path st (path_join p (fst x))" using Suc.prems that by (rule deep_path_join)
    then show ?thesis
      unfolding Let_def prod.case_eq_if by (intro orderly_rules orderly_calls Suc.IH deep_own)
  qed
  show ?case unfolding remove_runtime_children.simps
  proof (rule orderly_bind_value [where P = "\<lambda>es. \<forall>x \<in> set es. \<not> path_is_absolute (fst x)"])
    show "post (io_lsw (read_dir os p)) (\<lambda>r h'. orderly st N h h' \<and> (\<forall>es. r = Inr es \<longrightarrow> (\<forall>x \<in> set es. \<not> path_is_absolute (fst x)))) h" for h
      by (auto simp: wp intro!: post_read_dir orderly_unchanged dest: entry_name)
  qed (rule orderly.keeps_for, rule entry, blast)
qed (simp add: orderly.keeps_pure)

lemma orderly_remove_runtime [orderly_calls]: "deep_path st p \<Longrightarrow> keeps (orderly st N) (remove_runtime_if_present depth os p)"
  unfolding remove_runtime_if_present_def by (intro orderly_rules orderly_calls orderly_remove_children deep_own)

lemma orderly_rename:
  assumes "own_path st N p" and "own_path st N q"
  shows "keeps (orderly st N) (rename_path os p q)"
proof (rule keepsI, rule post_rename_path)
  fix h h' :: "'a host" and n
  assume "leaves h ((node_at h)(p := None, q \<mapsto> n)) h'"
  moreover let ?t = "\<lparr>h_nodes = AList.delete p (h_nodes h), h_rest = h_rest h\<rparr>"
  have "leaves h ((node_at h)(p := None)) ?t" by (rule leaves_updates)
  ultimately have only: "only_at p h ?t" "wf_host h \<Longrightarrow> only_at q ?t h'"
    by (auto simp: only_at_def leaves_def)
  show "orderly st N h h'"
  proof (cases "store_ok st h")
    case True
    then have "wf_host h" by (simp add: store_ok_def store_tree_def)
    from orderly.trans [OF orderly_only_at [OF _ only(1)] orderly_only_at [OF _ only(2) [OF this]]] assms
    show ?thesis by (simp add: own_path_def)
  qed (simp add: orderly_def)
qed (rule orderly_unchanged)

lemma orderly_write_atomic:
  assumes "own_path st N p" and "\<And>n. own_path st N (temporary_path os p n)"
  shows "keeps (orderly st N) (write_atomic os p s)"
  unfolding write_atomic_def set_private_file_permissions_def Let_def temporary_path_def [symmetric]
  by (intro orderly_rules orderly_calls orderly_rename assms)

lemma with_extension_below:
  assumes "CHR ''/'' \<notin> set f"
  shows "\<exists>stem. with_extension (d @ CHR ''/'' # f) e = d @ CHR ''/'' # stem"
proof -
  have "takeWhile (\<lambda>c. c \<noteq> CHR ''/'') (rev (d @ CHR ''/'' # f)) = rev f" using assms by (simp add: takeWhile_append takeWhile_tail)
  then show ?thesis by (auto simp: with_extension_def Let_def)
qed

lemma runtime_file_paths:
  fixes st :: StateStore
  assumes "valid_label 63 name" and "file_name \<in> {LIVE_SMB_USERNAME_MAP_FILE, LIVE_SMB_PASSWORD_FILE, LIVE_SMB_CONFIG_FILE}"
  defines "p \<equiv> path_join (path_join (path_join (idir st name) ''run'') LIVE_SMB_RUNTIME_DIRECTORY) file_name"
  shows "own_path st N p" "own_path st N (temporary_path os p n)"
proof -
  have run: "path_join (path_join (idir st name) ''run'') LIVE_SMB_RUNTIME_DIRECTORY = idir st name @ ''/run/live-smb''"
    using path_join_instance [OF assms(1), of "''run''" st] by (simp add: path_join_def LIVE_SMB_RUNTIME_DIRECTORY_def)
  have p: "p = idir st name @ CHR ''/'' # ''run/live-smb/'' @ file_name"
    unfolding p_def run using assms(2)
    by (auto simp: path_join_def LIVE_SMB_USERNAME_MAP_FILE_def LIVE_SMB_PASSWORD_FILE_def LIVE_SMB_CONFIG_FILE_def)
  show "own_path st N p" unfolding p by (rule deep_own, rule deepI [OF assms(1)]) simp
  have "CHR ''/'' \<notin> set file_name"
    using assms(2) by (auto simp: LIVE_SMB_USERNAME_MAP_FILE_def LIVE_SMB_PASSWORD_FILE_def LIVE_SMB_CONFIG_FILE_def)
  from with_extension_below [OF this, of "idir st name @ ''/run/live-smb''"]
  have "\<exists>stem. temporary_path os p n = idir st name @ CHR ''/'' # ''run/live-smb/'' @ stem"
    unfolding p temporary_path_def by simp
  then obtain stem where "temporary_path os p n = idir st name @ CHR ''/'' # ''run/live-smb/'' @ stem" ..
  moreover have "own_path st N (idir st name @ CHR ''/'' # ''run/live-smb/'' @ stem)"
    by (rule deep_own, rule deepI [OF assms(1)]) simp
  ultimately show "own_path st N (temporary_path os p n)" by (simp only:)
qed

lemma orderly_live_share [orderly_calls]:
  assumes "valid_label 63 name"
  shows "keeps (orderly st N) (prepare_live_share_runtime md4 depth os clock m (idir st name) credential)"
proof -
  have "deep_path st (path_join (path_join (idir st name) ''run'') LIVE_SMB_RUNTIME_DIRECTORY)"
    using own_join_run [OF assms, of LIVE_SMB_RUNTIME_DIRECTORY st "{}"]
    by (simp add: LIVE_SMB_RUNTIME_DIRECTORY_def own_path_def)
  then show ?thesis
    unfolding prepare_live_share_runtime_def Let_def ensure_private_runtime_directory_def
    by (intro orderly_rules orderly_calls orderly_write_atomic deep_own runtime_file_paths assms; simp)
qed

lemma orderly_apply_step:
  assumes "tame st os" and "own_path st N (step_target s)"
  shows "keeps (orderly st N) (apply_step (do_fs os) s)"
  using assms(2)
  by (cases s) (simp_all only: apply_step.simps step_target.simps create_directory_def copy_new_file_def create_disk_def
    set_private_directory_permissions_def set_private_file_permissions_def, (intro orderly_rules orderly_calls assms(1); assumption?)+)

lemma orderly_provision:
  fixes os :: "'w daemon_os"
  assumes "honest (do_fs os)" and "tame st os" and "valid_label 63 name" and "name \<in> N"
    and rest: "\<And>x. keeps (orderly st N) (f x)"
  shows "keeps (orderly st N) (io_bind (boxed_lsw (provision_plan (do_fs os) c m (idir st name))) (\<lambda>p.
    io_bind (boxed_lsw (provision_apply (do_fs os) p)) f))"
proof (rule orderly_bind_value [where P = "\<lambda>p. \<forall>s \<in> set (pp_steps p). own_path st N (step_target s)"])
  have own: "own_path st N (path_join (idir st name) ''run'')" "own_path st N (path_join (idir st name) ''swtpm-state'')"
    "own_path st N (path_join (idir st name) ''OVMF_VARS.fd'')" "own_path st N (path_join (idir st name) ''disk.qcow2'')"
    using assms(4) by (auto intro!: own_join assms(3) simp: MANIFEST_FILE_def)
  have steps: "\<forall>s \<in> set (pp_steps p). own_path st N (step_target s)" if "planned_places h (idir st name) p" for h :: "'w host" and p
    using that own unfolding planned_places_def planned_for_def by auto
  fix h :: "'w host"
  show "post (boxed_lsw (provision_plan (do_fs os) c m (idir st name)))
      (\<lambda>r h'. orderly st N h h' \<and> (\<forall>p. r = Inr p \<longrightarrow> (\<forall>s \<in> set (pp_steps p). own_path st N (step_target s)))) h"
    unfolding boxed_lsw_def post_map_error
  proof (rule post_mono [OF provision_plan_outcome [OF assms(1)]])
    fix r :: "LswError + PreparationPlan" and t
    assume "unchanged h t \<and> (\<forall>p. r = Inr p \<longrightarrow> planned_places h (idir st name) p)"
    then show "orderly st N h t \<and> (\<forall>p. map_error lsw_error_display r = Inr p \<longrightarrow> (\<forall>s \<in> set (pp_steps p). own_path st N (step_target s)))"
      using steps [of h] by (cases r) (auto simp: orderly_unchanged)
  qed
  fix p :: PreparationPlan assume "\<forall>s \<in> set (pp_steps p). own_path st N (step_target s)"
  then have "keeps (orderly st N) (provision_apply (do_fs os) p)"
    unfolding provision_apply_def by (intro orderly_rules orderly_calls orderly_apply_step assms(2)) blast
  then show "keeps (orderly st N) (io_bind (boxed_lsw (provision_apply (do_fs os) p)) f)"
    by (intro orderly_rules orderly_calls rest)
qed

lemma orderly_prepare_launch [orderly_calls]:
  assumes "honest (do_fs os)" and "tame (su_store su) os" and "valid_label 63 name" and "name \<in> N"
  shows "keeps (orderly (su_store su) N) (prepare_launch os su name phase m (idir (su_store su) name))"
  unfolding prepare_launch_def
  by (intro orderly_provision orderly_rules orderly_calls assms)

lemma orderly_spawn_command [orderly_calls]:
  assumes "tame st os" and "valid_label 63 name" and "name \<in> N" and "log_name \<in> {''helper.log'', ''qemu.log''}"
  shows "keeps (orderly st N) (spawn_command os invocation (idir st name) log_name)"
proof -
  have own: "own_path st N (path_join (idir st name) log_name)"
    using assms(3,4) by (auto intro!: own_join assms(2) simp: MANIFEST_FILE_def)
  show ?thesis unfolding spawn_command_def append_log_def by (intro own orderly_rules orderly_calls assms(1))
qed

lemma orderly_spawn_helpers [orderly_calls]:
  assumes "tame st os" and "valid_label 63 name" and "name \<in> N"
  shows "keeps (orderly st N) (spawn_helpers os (idir st name) helpers started)"
  by (induction helpers arbitrary: started)
    (simp_all only: spawn_helpers.simps, (intro orderly_rules orderly_calls assms; simp?)+)

lemma orderly_launch_processes [orderly_calls]:
  assumes "tame (su_store su) os" and "valid_label 63 name" and "name \<in> N"
  shows "keeps (orderly (su_store su) N) (launch_processes os su name p (idir (su_store su) name))"
  unfolding launch_processes_def abandon_launch_def
  by (intro orderly_rules orderly_calls assms; simp)

lemma orderly_finish_start [orderly_calls]:
  assumes "honest (do_fs os)" and "tame (su_store su) os"
  shows "keeps (daemon_orderly (su_store su) N) (finish_start os su name phase m dir)"
  unfolding finish_start_def give_up_start_def
  by (intro orderly_rules orderly_calls assms; simp split: LaunchPhase.splits)

section \<open>The operations\<close>

text \<open>The same rules on the daemon, after its host.\<close>

lemma orderly_daemon_dir:
  assumes "valid_label 63 name \<Longrightarrow> keeps (daemon_orderly st N) (f (idir st name))"
  shows "keeps (daemon_orderly st N) (io_bind (on_host (boxed_lsw (io_of (instance_dir st name)))) f)"
proof (cases "valid_label 63 name")
  case True
  then have "io_bind (on_host (boxed_lsw (io_of (instance_dir st name)))) f = f (idir st name)"
    by (simp add: fun_eq_iff on_host_def io_zoom_def boxed_lsw_def io_map_error_def io_of_def io_bind_def instance_dir_valid)
  with assms True show ?thesis by simp
next
  case False
  then have "io_bind (on_host (boxed_lsw (io_of (instance_dir st name)))) f = io_fail (lsw_error_display (InvalidInstanceName name))"
    by (simp add: fun_eq_iff on_host_def io_zoom_def boxed_lsw_def io_map_error_def io_of_def io_bind_def io_fail_def instance_dir_invalid)
  then show ?thesis by (simp add: orderly_daemon.keeps_pure)
qed

lemma orderly_daemon_loaded:
  fixes os :: "'w host_os"
  assumes "\<And>m. keeps (daemon_orderly st (insert name N)) (f m)"
  shows "keeps (daemon_orderly st N) (io_bind (on_host (boxed_lsw (load os st name))) f)"
proof (rule keepsI)
  fix d :: "'w daemon"
  let ?h = "dm_host d"
  have "post (on_host (boxed_lsw (load os st name)))
      (\<lambda>r e. unchanged ?h (dm_host e) \<and> (\<forall>m. r = Inr m \<longrightarrow> view st ?h name = Some m)) d"
    unfolding on_host_def post_zoom by (rule post_mono [OF boxed_load_outcome]) simp
  then show "post (io_bind (on_host (boxed_lsw (load os st name))) f) (\<lambda>_. daemon_orderly st N d) d"
  proof (rule post_seq)
    fix m :: InstanceManifest and e :: "'w daemon"
    assume e: "unchanged ?h (dm_host e) \<and> (\<forall>m'. Inr m = Inr m' \<longrightarrow> view st ?h name = Some m')"
    show "post (f m) (\<lambda>_. daemon_orderly st N d) e"
    proof (rule post_mono [OF keeps_post [OF assms]])
      fix u :: "'w daemon" assume "daemon_orderly st (insert name N) e u"
      then show "daemon_orderly st N d u"
        using e store_ok_unchanged [of st ?h "dm_host e"] view_unchanged [of ?h "dm_host e" st]
        by (auto simp: daemon_orderly_def orderly_def)
    qed
  qed (simp add: daemon_orderly_def orderly_unchanged)
qed

lemma orderly_launch:
  assumes "honest (do_fs os)" and "tame (su_store su) os" and "name \<in> N"
  shows "keeps (daemon_orderly (su_store su) N) (launch os su name phase m)"
  unfolding launch_def by (intro orderly_daemon_dir orderly_rules orderly_calls assms)

lemma orderly_start_body:
  assumes "honest (do_fs os)" and "tame (su_store su) os"
    and "keeps (daemon_orderly (su_store su) {}) polls" and "\<And>name. keeps (daemon_orderly (su_store su) {}) (resumes name)"
  shows "keeps (daemon_orderly (su_store su) {}) (start_body polls resumes os su name phase)"
proof -
  have start: "keeps (daemon_orderly (su_store su) {}) (io_bind (on_host (boxed_lsw (load (do_fs os) (su_store su) name)))
      (\<lambda>m. case launch_refusal (im_state m) phase of Some error \<Rightarrow> io_fail error | None \<Rightarrow> launch os su name phase m))"
    by (intro orderly_daemon_loaded orderly_rules orderly_calls orderly_launch assms) simp
  show ?thesis unfolding start_body_def by (intro start orderly_rules orderly_calls assms)
qed

lemma orderly_suspend_body:
  assumes "honest (do_fs os)" and "tame (su_store su) os" and "keeps (daemon_orderly (su_store su) N) polls"
  shows "keeps (daemon_orderly (su_store su) N) (suspend_body polls os su name)"
  unfolding suspend_body_def by (intro orderly_rules orderly_calls assms; simp)

lemma orderly_resume_body:
  assumes "honest (do_fs os)" and "tame (su_store su) os"
    and "keeps (daemon_orderly (su_store su) N) polls" and "\<And>name phase. keeps (daemon_orderly (su_store su) N) (starts name phase)"
  shows "keeps (daemon_orderly (su_store su) N) (resume_body polls starts os su name)"
  unfolding resume_body_def by (intro orderly_rules orderly_calls assms; simp)

lemma orderly_hibernate_body:
  assumes "honest (do_fs os)" and "tame (su_store su) os"
    and "keeps (daemon_orderly (su_store su) N) polls" and "\<And>name. keeps (daemon_orderly (su_store su) N) (resumes name)"
  shows "keeps (daemon_orderly (su_store su) N) (hibernate_body polls resumes os su name)"
  unfolding hibernate_body_def write_hibernate_marker_def by (intro orderly_rules orderly_calls assms; simp)

lemma orderly_stop_body:
  assumes "honest (do_fs os)" and "tame (su_store su) os" and "keeps (daemon_orderly (su_store su) N) polls"
  shows "keeps (daemon_orderly (su_store su) N) (stop_body polls os su name force)"
  unfolding stop_body_def force_stop_def end_process_def mark_stopped_def graceful_shutdown_def write_shutdown_marker_def Let_def
  by (intro orderly_daemon_dir orderly_rules orderly_calls assms; simp)

lemma orderly_status_body:
  assumes "honest (do_fs os)" and "tame (su_store su) os" and "keeps (daemon_orderly (su_store su) N) polls"
  shows "keeps (daemon_orderly (su_store su) N) (status_body polls os su name)"
proof -
  have reconcile: "keeps (daemon_orderly (su_store su) N)
      (if reconciled_state state qmp \<noteq> state then on_host (set_state os su name (reconciled_state state qmp)) else io_return ())" for state qmp
  proof (cases "reconciled_state state qmp = state")
    case False
    then have "reconciled_state state qmp \<noteq> Configured" by (auto simp: reconciled_state_def split: if_splits)
    then show ?thesis by (intro orderly_rules orderly_calls assms)
  qed (simp add: orderly_daemon.keeps_pure)
  show ?thesis
    unfolding status_body_def status_gone_def Let_def
    by (intro reconcile orderly_rules orderly_calls assms; simp)
qed

lemma orderly_idle_policies:
  assumes "honest (do_fs os)" and "tame (su_store su) os"
    and "\<And>name. keeps (daemon_orderly (su_store su) N) (suspends name)" and "\<And>name. keeps (daemon_orderly (su_store su) N) (hibernates name)"
  shows "keeps (daemon_orderly (su_store su) N) (poll_body suspends hibernates os su)"
  unfolding poll_body_def apply_idle_policies_def apply_idle_policy_def Let_def
  by (intro orderly_rules orderly_calls assms)

lemma orderly_knot:
  assumes "honest (do_fs os)" and "tame (su_store su) os"
  shows "keeps (daemon_orderly (su_store su) {}) (poll n os su)"
    and "\<And>name phase. keeps (daemon_orderly (su_store su) {}) (start n os su name phase)"
    and "\<And>name. keeps (daemon_orderly (su_store su) {}) (resume n os su name)"
proof (induction n)
  case (Suc n)
  { case 1 show ?case unfolding poll.simps
      by (intro orderly_idle_policies orderly_suspend_body orderly_hibernate_body assms Suc.IH) }
  { case 2 show ?case unfolding start.simps by (intro orderly_start_body assms Suc.IH) }
  { case 3 show ?case unfolding resume.simps by (intro orderly_resume_body assms Suc.IH) }
qed (simp_all add: orderly_daemon.keeps_pure)

lemma orderly_dispatch:
  assumes "honest (do_fs os)" and "tame (su_store su) os"
  shows "keeps (daemon_orderly (su_store su) {}) (dispatch n os su request)"
proof -
  note ops = orderly_knot [OF assms] orderly_suspend_body orderly_hibernate_body orderly_stop_body orderly_status_body
  show ?thesis
    unfolding dispatch_def current_rss_kib_def daemon_plan_def suspend_def hibernate_def stop_def status_def activity_def
      balloon_def Let_def
    by (cases request) (simp_all only: DaemonRequest.case, (intro ops orderly_rules orderly_calls assms)+)
qed

text \<open>
  A round of the daemon's loop, whoever connects and whatever is asked.
\<close>

lemma orderly_serve_round:
  assumes "honest (do_fs os)" and "tame (su_store su) os" and "\<And>reply h. quiet (su_store su) h (snd (send reply h))"
  shows "keeps (daemon_orderly (su_store su) {}) (serve_round n os su from_slice send idle_exit last_request accepted)"
proof -
  have active: "keeps (orderly (su_store su) {}) (any_active os su ms)" for ms
    by (induction ms) (simp_all only: any_active.simps, (intro orderly_rules orderly_calls assms; assumption?)+)
  have reply: "keeps (daemon_orderly (su_store su) {}) (connection_reply n os su from_slice stream)" for stream
    unfolding connection_reply_def by (intro orderly_dispatch orderly_rules orderly_calls assms)
  have work: "keeps (daemon_orderly (su_store su) {}) (has_active_work os su)"
    unfolding has_active_work_def by (intro active orderly_rules orderly_calls assms)
  show ?thesis
    unfolding serve_round_def
    by (cases accepted) (simp_all only: accepted.case,
      (intro reply work orderly_sys orderly_knot(1) orderly_rules orderly_calls assms)+)
qed

end
