(* ===== verification/Supervisor_Guards.thy ===== *)
theory Supervisor_Guards
  imports Supervisor_Safety
begin

text \<open>
  What the supervisor does when the control connection of an active instance fails: a forced stop
  and a status request take care not to lose a guest that may still be running, a start does not.
\<close>

section \<open>Evaluating operations\<close>

lemma on_host_result: "m (dm_host d) = Some (r, h) \<Longrightarrow> on_host m d = Some (r, d\<lparr>dm_host := h\<rparr>)"
  by (simp add: on_host_def io_zoom_def)

lemma on_host_again: "m h = Some (r, h') \<Longrightarrow> on_host m (d\<lparr>dm_host := h\<rparr>) = Some (r, d\<lparr>dm_host := h'\<rparr>)"
  by (simp add: on_host_def io_zoom_def)

lemma boxed_lsw_result: "m h = Some (r, h') \<Longrightarrow> boxed_lsw m h = Some (map_error lsw_error_display r, h')"
  by (simp add: boxed_lsw_def io_map_error_def)

lemma load_valid: "load os st name h = Some (Inr m, h') \<Longrightarrow> instance_dir st name = Inr (idir st name)"
  using postD [OF load_outcome] by (fastforce simp: view_Some instance_dir_valid)


section \<open>A host with one instance\<close>

text \<open>
  The world outside the file system is the list of the programs that were started.  QEMU never
  answers, other programs change nothing but this list, and a clock that stands still.
\<close>

definition log_fs :: "string list host_os" where
  "log_fs = \<lparr>ho_fault = (\<lambda>call w. (None, w)), ho_partial = (\<lambda>w. 0), ho_link_exists = (\<lambda>p w. False),
     ho_link_contents = (\<lambda>p w. Inl NotFound), ho_link_is_file = (\<lambda>p w. False), ho_link_is_dir = (\<lambda>p w. False),
     ho_canonical = (\<lambda>p w. Inr p), ho_owner = (\<lambda>p w. 1000), ho_file_mode = 420, ho_dir_mode = 493,
     ho_nanos = (\<lambda>w. (7, w)), ho_pid = 1,
     ho_random = (\<lambda>w. (Inr (replicate 32 (0xAB :: u8)), w)), ho_bind_port = (\<lambda>port w. (Inr (), w)),
     ho_command = (\<lambda>program arguments h. (Inr (Exited 0), h))\<rparr>"

definition deaf_os :: "string list daemon_os" where
  "deaf_os = \<lparr>do_fs = log_fs, do_loops = 3, do_connect = (\<lambda>path h. (Inl (OsError ''Connection refused (os error 111)''), h)),
     do_set_timeouts = (\<lambda>c h. (Inr (), h)), do_write_line = (\<lambda>c line h. (Inr (), h)), do_read_line = (\<lambda>c n h. (Inr [], h)),
     do_json_parse = (\<lambda>s. Inl ''eof''), do_json_text = (\<lambda>j. []),
     do_spawn = (\<lambda>program arguments h. (Inr (length (h_rest h)), h_rest_update (\<lambda>w. w @ [program]) h)),
     do_try_wait = (\<lambda>child h. (Inr (Some (Exited 1)), h)), do_kill = (\<lambda>child h. (Inr (), h)),
     do_wait = (\<lambda>child h. (Inr (Exited 1), h)), do_now = (\<lambda>h. (0, h)), do_sleep = (\<lambda>ms h. h),
     do_unix_seconds = (\<lambda>w. (9, w)), do_tcp_connect = (\<lambda>port h. (Inl (OsError ''Connection refused (os error 111)''), h)),
     do_tcp_write = (\<lambda>c bs h. (Inr (), h)), do_tcp_input = (\<lambda>c h. ([], h)), do_md4 = id, do_sha256 = id\<rparr>"

lemma quiet_unchanged: "unchanged h h' \<Longrightarrow> quiet st h h'"
  by (simp add: quiet_def store_ok_unchanged view_unchanged)

lemma deaf_os_tame: "tame st deaf_os" "honest (do_fs deaf_os)"
  by (auto simp: tame_def deaf_os_def log_fs_def honest_def leaves_def node_at_def fun_eq_iff wf_host_def intro!: quiet_unchanged)

text \<open>An instance \<open>w\<close> in a given state.\<close>

definition manifest_text :: "string \<Rightarrow> string" where
  "manifest_text state = concat (map (\<lambda>l. l @ [NL]) [''version=1'', ''name=w'', ''source_iso=/w.iso'', ''profile=standard'',
     ''cpus=2'', ''memory_mib=4096'', ''disk_gib=64'', ''license_accepted=true'',
     ''allow_unsupported_requirements=false'', ''state='' @ state, ''control_port=42886'', ''created_unix_seconds=7''])"

definition lone_host :: "string \<Rightarrow> node_list \<Rightarrow> string list host" where
  "lone_host state others = \<lparr>h_nodes = [(''/s/instances'', Directory 448), (''/s/instances/w'', Directory 448),
     (''/s/instances/w/instance.lsw'', Regular 384 (manifest_text state))] @ others, h_rest = []\<rparr>"

definition lone_supervisor :: Supervisor where
  "lone_supervisor = \<lparr>su_store = ''/s'', su_capabilities = sample_capabilities, su_cpu_tuning = Enlightened\<rparr>"

definition lone_daemon :: "string \<Rightarrow> node_list \<Rightarrow> string list daemon" where
  "lone_daemon state others = \<lparr>dm_host = lone_host state others, dm_processes = [], dm_last_policy_poll = 0\<rparr>"

text \<open>The nodes that a running guest and its preparation leave.\<close>

definition live_nodes :: node_list where
  "live_nodes = [(''/s/instances/w/run'', Directory 448), (''/s/instances/w/swtpm-state'', Directory 448),
     (''/s/instances/w/OVMF_VARS.fd'', Regular 384 []), (''/s/instances/w/disk.qcow2'', Regular 384 []),
     (''/s/instances/w/agent.token'', Regular 384 (replicate 64 (CHR ''0''))),
     (''/s/instances/w/run/qmp.sock'', SocketNode),
     (''/s/instances/w/run/qemu.pid'', Regular 384 ''77''),
     (''/proc/77/cmdline'', Regular 292 (proc_cmdline ''/usr/bin/qemu-system-x86_64'' [''-name'', ''w'',
        ''-qmp'', ''unix:/s/instances/w/run/qmp.sock,server=on,wait=off'', ''-pidfile'', ''/s/instances/w/run/qemu.pid'']))]"

lemma lone_host_nodes:
  "node_at (lone_host state []) p \<noteq> None \<longleftrightarrow> p \<in> {''/s/instances'', ''/s/instances/w'', ''/s/instances/w/instance.lsw''}"
  by (auto simp: node_at_def lone_host_def)

lemma lone_paths: "idir ''/s'' name = ''/s/instances/'' @ name" "instances_root ''/s'' = ''/s/instances''"
  by (simp_all add: instances_root_def path_join_def)

lemma lone_host_ok:
  assumes "manifest_decode (manifest_text state) = Inr m" and "is_name (im_spec m) = ''w''"
  shows "store_ok ''/s'' (lone_host state [])"
proof -
  have name: "name = ''w''" if "valid_label 63 name" "node_at (lone_host state []) (idir ''/s'' name) \<noteq> None" for name
    using that valid_label_plain(2) [OF that(1)] unfolding lone_host_nodes lone_paths by auto
  have view: "name = ''w'' \<and> x = m" if "view ''/s'' (lone_host state []) name = Some x" for name x
  proof -
    from that obtain mode mode' s where n: "valid_label 63 name" "node_at (lone_host state []) (idir ''/s'' name) = Some (Directory mode)"
      "node_at (lone_host state []) (manifest_path ''/s'' name) = Some (Regular mode' s)" "manifest_decode s = Inr x"
      unfolding view_Some by blast
    then have w: "name = ''w''" by (intro name) simp_all
    have "node_at (lone_host state []) (manifest_path ''/s'' ''w'') = Some (Regular 384 (manifest_text state))"
      unfolding lone_paths by (simp add: node_at_def lone_host_def MANIFEST_FILE_def)
    with n(3) w have "s = manifest_text state" by simp
    with n(4) assms(1) w show ?thesis by simp
  qed
  have none: "node_at (lone_host state []) (idir ''/s'' name @ CHR ''/'' # q) = None"
    if "valid_label 63 name" "node_at (lone_host state []) (idir ''/s'' name) = None" "CHR ''/'' \<notin> set q" for name q
  proof (rule ccontr)
    assume some: "node_at (lone_host state []) (idir ''/s'' name @ CHR ''/'' # q) \<noteq> None"
    have "name \<noteq> ''w''" using that(2) lone_host_nodes [of state "''/s/instances/w''"] by (auto simp: lone_paths)
    moreover have "CHR ''/'' \<notin> set name" using valid_label_plain(2) [OF that(1)] .
    then have "name @ CHR ''/'' # q \<noteq> ''w/instance.lsw''" using \<open>name \<noteq> ''w''\<close> first_part_eq [of "CHR ''/''" name "''w''" q "''instance.lsw''"] by auto
    moreover have "name @ CHR ''/'' # q \<noteq> ''w''" by (cases name) auto
    ultimately show False using some unfolding lone_host_nodes lone_paths by auto
  qed
  have "wf_host (lone_host state [])" by (simp add: wf_host_def lone_host_def)
  moreover have "node_at (lone_host state []) (instances_root ''/s'') = Some (Directory 448)"
    by (simp add: lone_paths node_at_def lone_host_def)
  ultimately show ?thesis
    unfolding store_ok_def store_tree_def ports_apart_def using view none assms(2) by blast
qed

lemma deaf_poll: "dm_processes d = [] \<Longrightarrow> poll (Suc n) deaf_os su d = Some (Inr (), d)"
  by (cases d) (simp add: poll_body_def process_names_def io_get_def io_bind_def io_return_def on_host_def io_zoom_def ask_def
      deaf_os_def POLICY_POLL_INTERVAL_def)

lemma lone_loads:
  obtains m where "load (do_fs deaf_os) ''/s'' ''w'' (lone_host ''running'' []) = Some (Inr m, lone_host ''running'' [])"
    and "im_state m = Running"
proof -
  have "case load (do_fs deaf_os) ''/s'' ''w'' (lone_host ''running'' []) of
      Some (Inr m, h) \<Rightarrow> im_state m = Running \<and> h = lone_host ''running'' [] | _ \<Rightarrow> False" by code_simp
  then show thesis by (auto split: option.splits prod.splits sum.splits intro!: that)
qed

lemma suspended_loads:
  obtains m where "load (do_fs deaf_os) ''/s'' ''w'' (lone_host ''suspended'' live_nodes) = Some (Inr m, lone_host ''suspended'' live_nodes)"
    and "im_state m = Suspended"
proof -
  have "case load (do_fs deaf_os) ''/s'' ''w'' (lone_host ''suspended'' live_nodes) of
      Some (Inr m, h) \<Rightarrow> im_state m = Suspended \<and> h = lone_host ''suspended'' live_nodes | _ \<Rightarrow> False" by code_simp
  then show thesis by (auto split: option.splits prod.splits sum.splits intro!: that)
qed

lemma suspended_lives:
  "qemu_process_evidence (do_fs deaf_os) ''/s/instances/w'' ''w'' False (lone_host ''suspended'' live_nodes) =
     Some (Inr Live :: message + QemuProcessEvidence, lone_host ''suspended'' live_nodes)"
proof -
  have "case qemu_process_evidence (do_fs deaf_os) ''/s/instances/w'' ''w'' False (lone_host ''suspended'' live_nodes) of
      Some (Inr e :: message + QemuProcessEvidence, h) \<Rightarrow> e = Live \<and> h = lone_host ''suspended'' live_nodes | _ \<Rightarrow> False" by code_simp
  then show ?thesis by (auto split: option.splits prod.splits sum.splits)
qed

lemma deaf_connect: "\<exists>e. qmp_connect deaf_os path h = Some (Inl e, h)"
  by (simp add: qmp_connect_def io_bind_def boxed_def io_map_error_def sys_def deaf_os_def)

lemma deaf_status:
  assumes "valid_label 63 name"
  shows "\<exists>e. qmp_status deaf_os su name h = Some (Inl e, h)"
proof -
  obtain e where "qmp_connect deaf_os (path_join (idir (su_store su) name) ''run/qmp.sock'') h = Some (Inl e, h)"
    using deaf_connect by blast
  with assms show ?thesis
    by (simp add: qmp_status_def io_bind_def boxed_lsw_def io_map_error_def io_of_def instance_dir_valid)
qed

lemma lone_parts [simp]:
  "su_store lone_supervisor = ''/s''" "dm_host (lone_daemon state others) = lone_host state others"
  "dm_processes (lone_daemon state others) = []"
  by (simp_all add: lone_supervisor_def lone_daemon_def)


section \<open>An unreachable guest\<close>

text \<open>
  C38: a forced stop does not declare an instance stopped that it cannot prove stopped: when the
  manifest says that it is active, its QEMU does not answer and the daemon does not own the process,
  the request fails, and nothing has changed but what the initial poll and the failed connection did.
\<close>

theorem unproven_force_stop_refused:
  assumes "poll n os su d = Some (Inr (), d1)" and "map_of (dm_processes d1) name = None"
    and "load (do_fs os) (su_store su) name (dm_host d1) = Some (Inr m, h2)" and "active_state (im_state m)"
    and "qmp_connect os (path_join (idir (su_store su) name) ''run/qmp.sock'') h2 = Some (Inl e, h3)"
  shows "\<exists>error. stop n os su name True d = Some (Inl error, d1\<lparr>dm_host := h3\<rparr>)"
proof -
  have dir: "on_host (boxed_lsw (io_of (instance_dir (su_store su) name))) d1 = Some (Inr (idir (su_store su) name), d1)"
    by (simp add: load_valid [OF assms(3)] on_host_def io_zoom_def boxed_lsw_def io_map_error_def io_of_def)
  have loaded: "on_host (boxed_lsw (load (do_fs os) (su_store su) name)) d1 = Some (Inr m, d1\<lparr>dm_host := h2\<rparr>)"
    using assms(3) by (simp add: on_host_result boxed_lsw_result)
  have "on_host (qmp_connect os (path_join (idir (su_store su) name) ''run/qmp.sock'')) (d1\<lparr>dm_host := h2\<rparr>)
      = Some (Inl e, d1\<lparr>dm_host := h3\<rparr>)"
    using assms(5) by (rule on_host_again)
  moreover have "im_state m \<noteq> Hibernated" using assms(4) by (auto simp: active_state_def)
  ultimately show ?thesis
    using assms(2,4) dir loaded
    by (simp add: stop_def stop_body_def io_bind_def io_attempt_def assms(1) Let_def force_stop_def owns_def io_get_def io_of_def io_return_def
        refuse_unproven_external_force_stop_def)
qed

theorem unproven_force_stop_refused_witness:
  "\<exists>error. stop 1 deaf_os lone_supervisor ''w'' True (lone_daemon ''running'' []) = Some (Inl error, lone_daemon ''running'' [])"
proof -
  let ?d = "lone_daemon ''running'' []" and ?h = "lone_host ''running'' []"
  obtain m where m: "load (do_fs deaf_os) (su_store lone_supervisor) ''w'' (dm_host ?d) = Some (Inr m, ?h)" "im_state m = Running"
    by (rule lone_loads) simp
  obtain e where e: "qmp_connect deaf_os (path_join (idir (su_store lone_supervisor) ''w'') ''run/qmp.sock'') ?h = Some (Inl e, ?h)"
    using deaf_connect by blast
  have "poll 1 deaf_os lone_supervisor ?d = Some (Inr (), ?d)" using deaf_poll [of ?d 0] by simp
  from unproven_force_stop_refused [OF this _ m(1) _ e] m(2)
  have "\<exists>error. stop 1 deaf_os lone_supervisor ''w'' True ?d = Some (Inl error, ?d\<lparr>dm_host := ?h\<rparr>)" by (simp add: active_state_def)
  then show ?thesis by (simp add: lone_daemon_def)
qed

text \<open>
  C39: a status request does not declare an active instance gone because of one failed connection:
  as long as the daemon owns the process, or its evidence (the pid file and the command lines of the
  processes, which mislead it about a path with a comma) does not say that the process is gone, the state
  of the manifest is reported and kept.
\<close>

theorem unreachable_guest_kept:
  assumes "poll n os su d = Some (Inr (), d1)"
    and "load (do_fs os) (su_store su) name (dm_host d1) = Some (Inr m, h2)" and "active_state (im_state m)"
    and "qmp_status os su name h2 = Some (Inl e, h3)"
    and "qemu_process_evidence (do_fs os) (idir (su_store su) name) name (map_of (dm_processes d1) name \<noteq> None) h3 =
           Some (Inr evidence :: message + QemuProcessEvidence, h4)"
    and "evidence \<noteq> Gone"
  shows "status n os su name d =
           Some (Inr \<lparr>st_state = im_state m, st_qmp = None, st_active = if evidence = Live then Active else UnknownLiveness\<rparr>,
                 d1\<lparr>dm_host := h4\<rparr>)"
proof -
  have loaded: "on_host (boxed_lsw (load (do_fs os) (su_store su) name)) d1 = Some (Inr m, d1\<lparr>dm_host := h2\<rparr>)"
    using assms(2) by (simp add: on_host_result boxed_lsw_result)
  have asked: "on_host (qmp_status os su name) (d1\<lparr>dm_host := h2\<rparr>) = Some (Inl e, d1\<lparr>dm_host := h3\<rparr>)"
    using assms(4) by (rule on_host_again)
  have dir: "on_host (boxed_lsw (io_of (instance_dir (su_store su) name))) (d1\<lparr>dm_host := h3\<rparr>)
      = Some (Inr (idir (su_store su) name), d1\<lparr>dm_host := h3\<rparr>)"
    by (simp add: load_valid [OF assms(2)] on_host_def io_zoom_def boxed_lsw_def io_map_error_def io_of_def)
  have evidence: "on_host (qemu_process_evidence (do_fs os) (idir (su_store su) name) name (map_of (dm_processes d1) name \<noteq> None))
      (d1\<lparr>dm_host := h3\<rparr>) = Some (Inr evidence :: message + QemuProcessEvidence, d1\<lparr>dm_host := h4\<rparr>)"
    using assms(5) by (rule on_host_again)
  show ?thesis
    using assms(3,6) loaded asked dir evidence
    by (simp add: status_def status_body_def io_bind_def io_attempt_def assms(1) owns_def io_get_def io_return_def)
qed

theorem unreachable_guest_kept_witness:
  "status 1 deaf_os lone_supervisor ''w'' (lone_daemon ''suspended'' live_nodes) =
     Some (Inr \<lparr>st_state = Suspended, st_qmp = None, st_active = Active\<rparr>, lone_daemon ''suspended'' live_nodes)"
proof -
  let ?d = "lone_daemon ''suspended'' live_nodes" and ?h = "lone_host ''suspended'' live_nodes"
  obtain m where m: "load (do_fs deaf_os) (su_store lone_supervisor) ''w'' (dm_host ?d) = Some (Inr m, ?h)" "im_state m = Suspended"
    by (rule suspended_loads) simp
  have "valid_label 63 ''w''" by code_simp
  then obtain e where e: "qmp_status deaf_os lone_supervisor ''w'' ?h = Some (Inl e, ?h)" using deaf_status by blast
  have dir: "idir (su_store lone_supervisor) ''w'' = ''/s/instances/w''" by code_simp
  have "poll 1 deaf_os lone_supervisor ?d = Some (Inr (), ?d)" using deaf_poll [of ?d 0] by simp
  from unreachable_guest_kept [OF this m(1) _ e, unfolded dir, of Live ?h] m(2) suspended_lives
  have "status 1 deaf_os lone_supervisor ''w'' ?d =
      Some (Inr \<lparr>st_state = Suspended, st_qmp = None, st_active = Active\<rparr>, ?d\<lparr>dm_host := ?h\<rparr>)" by (simp add: active_state_def)
  then show ?thesis by (simp add: lone_daemon_def)
qed

text \<open>
  C40: when the control connection of an instance fails, a start is refused for an instance that is running
  or being installed according to its manifest, for one in the run phase that has not been installed, and
  for one in the install phase that has been installed before, whose disk may hold data: no program is
  started, no process is added to the daemon's and no file changes after the failed connection, whichever
  file system calls fail.
\<close>

theorem unsafe_start_refused:
  assumes "poll n os su d = Some (Inr (), d1)" and "qmp_status os su name (dm_host d1) = Some (Inl e, h2)"
    and "view (su_store su) h2 name = Some m"
    and "im_state m \<in> {Running, Installing} \<or> phase = Run \<and> im_state m = Configured \<or> phase = Install \<and> im_state m \<noteq> Configured"
  shows "\<exists>error d'. start (Suc n) os su name phase d = Some (Inl error, d')
    \<and> dm_processes d' = dm_processes d1 \<and> node_at (dm_host d') = node_at h2"
proof -
  have asked: "on_host (qmp_status os su name) d1 = Some (Inl e, d1\<lparr>dm_host := h2\<rparr>)"
    using assms(2) by (rule on_host_result)
  obtain r h3 where l: "load (do_fs os) (su_store su) name h2 = Some (r, h3)" and same: "node_at h3 = node_at h2"
    and read: "\<And>m'. r = Inr m' \<Longrightarrow> m' = m"
    using returns_post [OF returns_store(5) load_outcome, of "do_fs os" "su_store su" name h2] assms(3) by (auto simp: leaves_def)
  have loaded: "on_host (boxed_lsw (load (do_fs os) (su_store su) name)) (d1\<lparr>dm_host := h2\<rparr>)
      = Some (map_error lsw_error_display r, d1\<lparr>dm_host := h3\<rparr>)"
    using l by (simp add: on_host_result boxed_lsw_result)
  show ?thesis
  proof (cases r)
    case (Inl err)
    with asked loaded same show ?thesis by (simp add: start_body_def io_bind_def io_attempt_def assms(1))
  next
    case (Inr m')
    have "launch_refusal (im_state m') phase \<noteq> None" using read [OF Inr] assms(4) by (auto simp: launch_refusal_def)
    then obtain error where "launch_refusal (im_state m') phase = Some error" by blast
    with asked loaded same Inr show ?thesis by (simp add: start_body_def io_bind_def io_attempt_def io_fail_def assms(1))
  qed
qed

theorem unsafe_start_refused_witness:
  "\<exists>error d'. start 2 deaf_os lone_supervisor ''w'' Install (lone_daemon ''running'' []) = Some (Inl error, d')
     \<and> dm_processes d' = [] \<and> node_at (dm_host d') = node_at (lone_host ''running'' [])"
proof -
  let ?d = "lone_daemon ''running'' []" and ?h = "lone_host ''running'' []"
  obtain m where m: "load (do_fs deaf_os) ''/s'' ''w'' ?h = Some (Inr m, ?h)" "im_state m = Running" by (rule lone_loads)
  then have view: "view (su_store lone_supervisor) ?h ''w'' = Some m"
    using postD [OF load_outcome m(1)] by (simp add: lone_supervisor_def)
  have "valid_label 63 ''w''" by code_simp
  then obtain e where e: "qmp_status deaf_os lone_supervisor ''w'' (dm_host ?d) = Some (Inl e, ?h)"
    using deaf_status [of "''w''" lone_supervisor ?h] by (auto simp: lone_daemon_def)
  have "poll 1 deaf_os lone_supervisor ?d = Some (Inr (), ?d)" using deaf_poll [of ?d 0] by (simp add: lone_daemon_def)
  from unsafe_start_refused [OF this e view, of Install] m(2) show ?thesis
    by (auto simp: numeral_2_eq_2 lone_daemon_def)
qed

text \<open>
  A suspended instance is not among those: in the same situation a start in the run phase goes on to
  launch it, whatever is known of its process.
\<close>

lemma suspended_instance_launched_again:
  assumes "poll n os su d = Some (Inr (), d1)" and "qmp_status os su name (dm_host d1) = Some (Inl e, h2)"
    and "load (do_fs os) (su_store su) name h2 = Some (Inr m, h3)" and "active_state (im_state m)"
  shows "start (Suc n) os su name Run d =
    (if im_state m = Suspended then launch os su name Run m (d1\<lparr>dm_host := h3\<rparr>)
     else Some (Inl [Text ''manifest says the instance is active but QMP is unavailable; inspect its logs before retrying''],
                d1\<lparr>dm_host := h3\<rparr>))"
proof -
  have asked: "on_host (qmp_status os su name) d1 = Some (Inl e, d1\<lparr>dm_host := h2\<rparr>)"
    using assms(2) by (rule on_host_result)
  have loaded: "on_host (boxed_lsw (load (do_fs os) (su_store su) name)) (d1\<lparr>dm_host := h2\<rparr>) = Some (Inr m, d1\<lparr>dm_host := h3\<rparr>)"
    using assms(3) by (simp add: on_host_result boxed_lsw_result)
  show ?thesis
    using assms(4) asked loaded
    by (auto simp: start_body_def io_bind_def io_attempt_def assms(1) launch_refusal_def active_state_def io_fail_def)
qed


section \<open>The store of the daemon\<close>

text \<open>
  C37: whatever request the daemon serves, or what it does while it is idle, every instance stays in
  the store with everything its user has chosen: only the state and the time of its change may
  differ, and an instance that has been installed never becomes one that may be installed again.
  The store stays well-formed, and no two instances share a host port.  File system calls may fail
  at any point; other programs are assumed not to touch the manifests meanwhile, and not to have
  planted links to them at the names of the daemon's logs and markers.
\<close>

theorem daemon_keeps_instances:
  assumes "honest (do_fs os)" and "tame (su_store su) os" and "\<forall>reply h. quiet (su_store su) h (snd (send reply h))"
    and "store_ok (su_store su) (dm_host d)"
    and "serve_round n os su from_slice send idle_exit last_request accepted d = Some (r, d')"
  shows "store_ok (su_store su) (dm_host d')
    \<and> (\<forall>name. rel_option advanced (view (su_store su) (dm_host d) name) (view (su_store su) (dm_host d') name))"
proof -
  have "keeps (daemon_orderly (su_store su) {}) (serve_round n os su from_slice send idle_exit last_request accepted)"
    using assms(3) by (intro orderly_serve_round assms(1,2)) blast
  from keepsD [OF this assms(5)] assms(4) show ?thesis by (simp add: daemon_orderly_def orderly_def views_advanced_def)
qed

lemma activity_served:
  "case serve_round 1 deaf_os lone_supervisor (\<lambda>_. Inr (DR_Activity ''w'')) (\<lambda>_ h. (Inr (), h)) 30 0 (Connection [10])
     (lone_daemon ''stopped'' []) of
     Some (r, d) \<Rightarrow> node_at (dm_host d) ''/s/instances/w/run/last-activity'' \<noteq> None | None \<Rightarrow> False"
  by code_simp

theorem daemon_keeps_instances_witness:
  "\<exists>r d. serve_round 1 deaf_os lone_supervisor (\<lambda>_. Inr (DR_Activity ''w'')) (\<lambda>_ h. (Inr (), h)) 30 0 (Connection [10])
       (lone_daemon ''stopped'' []) = Some (r, d)
     \<and> node_at (dm_host d) ''/s/instances/w/run/last-activity'' \<noteq> None \<and> store_ok ''/s'' (dm_host d)
     \<and> rel_option advanced (view ''/s'' (lone_host ''stopped'' []) ''w'') (view ''/s'' (dm_host d) ''w'')"
proof -
  obtain r d where served: "serve_round 1 deaf_os lone_supervisor (\<lambda>_. Inr (DR_Activity ''w'')) (\<lambda>_ h. (Inr (), h)) 30 0 (Connection [10])
      (lone_daemon ''stopped'' []) = Some (r, d)" and marked: "node_at (dm_host d) ''/s/instances/w/run/last-activity'' \<noteq> None"
    using activity_served by (auto split: option.splits)
  have "case manifest_decode (manifest_text ''stopped'') of Inr m \<Rightarrow> is_name (im_spec m) = ''w'' | _ \<Rightarrow> False" by code_simp
  then have "store_ok ''/s'' (lone_host ''stopped'' [])" by (auto intro: lone_host_ok split: sum.splits)
  with daemon_keeps_instances [OF deaf_os_tame(2,1) _ _ served] marked served show ?thesis
    by (auto simp: quiet_def)
qed

end
