(* ===== verification/Iso_Catalog.thy ===== *)
theory Iso_Catalog
  imports Supervisor_Runtime
begin

text \<open>
  Finding an installation medium on the pages of its publisher (\<open>iso_download.rs\<close> of \<open>lsw-core\<close>): the
  session with the download service, the scan of the page that lists the digests, and the checks of
  everything that comes from the network.  The HTTP client, the parsers of URLs and JSON and the
  digest are parameters.
\<close>

unbundle bit_operations_syntax

section \<open>Text\<close>

fun str_find :: "string \<Rightarrow> string \<Rightarrow> nat option" where
  "str_find [] needle = (if needle = [] then Some 0 else None)"
| "str_find (c # cs) needle =
     (if starts_with (c # cs) needle then Some 0 else map_option Suc (str_find cs needle))"

definition str_split_once :: "string \<Rightarrow> string \<Rightarrow> (string \<times> string) option" where
  "str_split_once s needle = map_option (\<lambda>i. (take i s, drop (i + length needle) s)) (str_find s needle)"

function str_replace :: "string \<Rightarrow> string \<Rightarrow> string \<Rightarrow> string" where
  "str_replace [] needle new = []"
| "str_replace (c # cs) needle new =
     (if needle \<noteq> [] \<and> starts_with (c # cs) needle then new @ str_replace (drop (length needle) (c # cs)) needle new
      else c # str_replace cs needle new)"
  by pat_completeness auto
termination by (relation "measure (\<lambda>(s, needle, new). length s)") auto

text \<open>\<open>str::split\<close> and \<open>next\<close>: what precedes the first of the given characters.\<close>

definition before_any :: "string \<Rightarrow> string \<Rightarrow> string" where
  "before_any stops s = takeWhile (\<lambda>c. c \<notin> set stops) s"

text \<open>A finite \<open>f64\<close>, as its mantissa and binary exponent; \<open>as u32\<close> cuts towards zero and saturates.\<close>

type_synonym f64 = "int \<times> int"

definition f64_as_u32 :: "f64 \<Rightarrow> nat" where
  "f64_as_u32 = (\<lambda>(m, e). let n = (if 0 \<le> e then m * 2 ^ nat e else m div 2 ^ nat (- e))
     in if m < 0 then 0 else min (2 ^ 32 - 1) (nat n))"

definition DQUOTE :: char where "DQUOTE = CHR 0x22"


section \<open>What is not part of the program\<close>

text \<open>A parsed URL, as its accessors show it.\<close>

record Url =
  url_text :: string
  url_scheme :: string
  url_host_str :: "string option"
  url_username :: string
  url_password :: "string option"
  url_fragment :: "string option"
  url_path_segments :: "string list option"

text \<open>A response whose body arrives in chunks and ends, or breaks off with an error.\<close>

record http_response =
  hr_status :: nat
  hr_url :: string
  hr_headers :: "(string \<times> string) list"
  hr_body :: "string list"
  hr_end :: "io_error option"

datatype http_failure = HttpStatus nat | HttpTransport string

definition header_values :: "http_response \<Rightarrow> string \<Rightarrow> string list" where
  "header_values r name = map snd (filter (\<lambda>(n, _). eq_ignore_ascii_case n name) (hr_headers r))"

definition http_header :: "http_response \<Rightarrow> string \<Rightarrow> string option" where
  "http_header r name = (case header_values r name of [] \<Rightarrow> None | v # _ \<Rightarrow> Some v)"

record MicrosoftLanguage =
  ml_id :: string
  ml_language :: string

record MicrosoftErrorEntry =
  me_error_type :: f64
  me_value :: string

record LanguageResponse =
  lr_skus :: "MicrosoftLanguage list"
  lr_errors :: "MicrosoftErrorEntry list"

record MicrosoftDownloadOption =
  mo_uri :: string
  mo_architecture :: "json option"
  mo_download_type :: "u8 option"

record MicrosoftDownloadResponse =
  mr_options :: "MicrosoftDownloadOption list"
  mr_errors :: "MicrosoftErrorEntry list"
  mr_expiration :: "string option"

text \<open>
  Requests name a method, a URL and headers.  A program that is run to its end is given its
  arguments, a directory and its input; how many seconds it took is part of the answer.
\<close>

record 'w iso_os =
  iso_fs :: "'w host_os"
  iso_call :: "string \<Rightarrow> string \<Rightarrow> (string \<times> string) list \<Rightarrow> 'w host \<Rightarrow> (http_failure + http_response) \<times> 'w host"
  iso_random :: "'w \<Rightarrow> (io_error + bytes) \<times> 'w"
  iso_millis :: "'w \<Rightarrow> nat \<times> 'w"
  iso_run :: "string \<Rightarrow> string list \<Rightarrow> string \<Rightarrow> string \<Rightarrow> 'w host \<Rightarrow> (io_error + ExitStatus \<times> nat) \<times> 'w host"
  iso_url_parse :: "string \<Rightarrow> Url option"
  iso_url_query :: "Url \<Rightarrow> (string \<times> string) list \<Rightarrow> string"
  iso_json_string :: "string \<Rightarrow> string option"
  iso_json_languages :: "string \<Rightarrow> LanguageResponse option"
  iso_json_download :: "string \<Rightarrow> MicrosoftDownloadResponse option"
  iso_sha256 :: "string \<Rightarrow> bytes"

definition http_call ::
  "'w iso_os \<Rightarrow> (http_failure \<Rightarrow> LswError) \<Rightarrow> string \<Rightarrow> string \<Rightarrow> (string \<times> string) list \<Rightarrow> ('w, http_response) store" where
  "http_call os wrap request_method url headers = io_map_error wrap (\<lambda>h. Some (iso_call os request_method url headers h))"


section \<open>Constants\<close>

definition MICROSOFT_DOWNLOAD_PAGE :: string where
  "MICROSOFT_DOWNLOAD_PAGE = ''https://www.microsoft.com/en-us/software-download/windows11''"
definition MICROSOFT_SKU_ENDPOINT :: string where
  "MICROSOFT_SKU_ENDPOINT = ''https://www.microsoft.com/software-download-connector/api/getskuinformationbyproductedition''"
definition MICROSOFT_LINK_ENDPOINT :: string where
  "MICROSOFT_LINK_ENDPOINT = ''https://www.microsoft.com/software-download-connector/api/GetProductDownloadLinksBySku''"
definition MICROSOFT_TAGS_ENDPOINT :: string where "MICROSOFT_TAGS_ENDPOINT = ''https://vlscppe.microsoft.com/tags''"
definition MICROSOFT_MDT_SCRIPT :: string where "MICROSOFT_MDT_SCRIPT = ''https://ov-df.microsoft.com/mdt.js''"
definition MICROSOFT_MDT_ENDPOINT :: string where "MICROSOFT_MDT_ENDPOINT = ''https://ov-df.microsoft.com/''"
definition MICROSOFT_USER_AGENT :: string where
  "MICROSOFT_USER_AGENT = ''Mozilla/5.0 (X11; Linux x86_64) AppleWebKit/537.36 (KHTML, like Gecko) Chrome/133.0.0.0 Safari/537.36''"
definition MICROSOFT_PROFILE :: string where "MICROSOFT_PROFILE = ''606624d44113''"
definition MICROSOFT_LOCALE :: string where "MICROSOFT_LOCALE = ''en-US''"
definition MICROSOFT_ORG_ID :: string where "MICROSOFT_ORG_ID = ''y6jn8c31''"
definition MICROSOFT_CUSTOMER_ID :: string where "MICROSOFT_CUSTOMER_ID = ''560dc9f3-1aa5-4a2f-b63c-9e18f8d0e175''"
definition MAX_MICROSOFT_RESPONSE_BYTES :: nat where "MAX_MICROSOFT_RESPONSE_BYTES = 8 * 1024 * 1024"
definition MAX_DOWNLOAD_ATTEMPTS :: nat where "MAX_DOWNLOAD_ATTEMPTS = 3"
definition MAX_CDN_CONNECTIONS :: nat where "MAX_CDN_CONNECTIONS = 4"


section \<open>Checks\<close>

record MicrosoftIsoRequest =
  mi_language :: string

definition request_default :: MicrosoftIsoRequest where
  "request_default = \<lparr>mi_language = ''English''\<rparr>"

definition validate_microsoft_cdn_url :: "Url \<Rightarrow> LswError + unit" where
  "validate_microsoft_cdn_url url =
     (let host = to_ascii_lowercase (case url_host_str url of Some host \<Rightarrow> host | None \<Rightarrow> []);
          allowed = list_ex (ends_with host)
            [''.download.prss.microsoft.com'', ''.dl.delivery.mp.microsoft.com'', ''.delivery.mp.microsoft.com'']
      in if url_scheme url = ''https'' \<and> allowed \<and> url_username url = [] \<and> url_password url = None \<and> url_fragment url = None
         then Inr ()
         else Inl (InvalidValue ''Microsoft download URL'' [Text ''URL is outside the Microsoft HTTPS CDN allowlist'']))"

definition validate_microsoft_api_url :: "'w iso_os \<Rightarrow> string \<Rightarrow> LswError + unit" where
  "validate_microsoft_api_url os text =
     and_then (ok_or (iso_url_parse os text) (InvalidValue ''Microsoft API endpoint'' [Text ''endpoint is invalid''])) (\<lambda>url.
     let allowed = map_option to_ascii_lowercase (url_host_str url) \<in>
           {Some ''www.microsoft.com'', Some ''vlscppe.microsoft.com'', Some ''ov-df.microsoft.com''}
     in if url_scheme url = ''https'' \<and> allowed \<and> url_username url = [] \<and> url_password url = None then Inr ()
        else Inl (InvalidValue ''Microsoft API endpoint'' [Text ''endpoint is outside the Microsoft HTTPS allowlist'']))"

text \<open>A signed address; it is only constructed by \<open>parse\<close>.\<close>

definition secret_url_parse :: "'w iso_os \<Rightarrow> string \<Rightarrow> LswError + Url" where
  "secret_url_parse os text =
     and_then (ok_or (iso_url_parse os text) (InvalidValue ''Microsoft download URL'' [Text ''Microsoft returned an invalid URL''])) (\<lambda>url.
     and_then (validate_microsoft_cdn_url url) (\<lambda>_. Inr url))"

definition iso_filename :: "Url \<Rightarrow> LswError + string" where
  "iso_filename url =
     (let filename = (case url_path_segments url of Some segments \<Rightarrow> if segments = [] then [] else last segments | None \<Rightarrow> [])
      in if length filename \<le> 200 \<and> ends_with (to_ascii_lowercase filename) ''.iso''
            \<and> list_all (\<lambda>c. is_ascii_alphanumeric c \<or> c \<in> set ''.-_'') filename
         then Inr filename
         else Inl (InvalidValue ''Microsoft ISO filename'' [Text ''Microsoft returned an unsafe ISO filename'']))"

definition query_url :: "'w iso_os \<Rightarrow> string \<Rightarrow> (string \<times> string) list \<Rightarrow> LswError + string" where
  "query_url os base pairs =
     and_then (validate_microsoft_api_url os base) (\<lambda>_.
     and_then (ok_or (iso_url_parse os base) (InvalidValue ''Microsoft API endpoint'' [Text ''internal endpoint is invalid''])) (\<lambda>url.
     Inr (iso_url_query os url pairs)))"

definition normalized_label :: "string \<Rightarrow> string" where
  "normalized_label s = filter is_ascii_alphanumeric (to_ascii_lowercase s)"

definition validate_language :: "string \<Rightarrow> LswError + unit" where
  "validate_language s =
     (if s \<noteq> [] \<and> length s \<le> 80 \<and> \<not> list_ex (\<lambda>c. c \<in> {CR, NL}) s
         \<and> list_all (\<lambda>c. is_ascii_alphanumeric c \<or> c \<in> set '' -(),'') s
      then Inr () else Inl (InvalidValue ''Windows ISO language'' [Text ''contains unsupported characters'']))"

definition is_sha256 :: "string \<Rightarrow> bool" where
  "is_sha256 s \<longleftrightarrow> length s = 64 \<and> list_all is_ascii_hexdigit s"

definition parse_set_cookie :: "string \<Rightarrow> (string \<times> string) option" where
  "parse_set_cookie s =
     (case split_once (CHR ''='') (before_any '';'' s) of
        None \<Rightarrow> None
      | Some (name, value) \<Rightarrow>
          if name = [] \<or> \<not> list_all (\<lambda>c. is_ascii_alphanumeric c \<or> c \<in> set ''-_'') name
             \<or> list_ex (\<lambda>c. c \<in> {CR, NL, CHR '';''}) value
          then None else Some (name, value))"

definition sanitize_remote_message :: "string \<Rightarrow> nat list" where
  "sanitize_remote_message s = take 240 (filter (\<lambda>c. \<not> char_is_control c) (str_chars s))"

definition check_microsoft_errors :: "MicrosoftErrorEntry list \<Rightarrow> LswError + unit" where
  "check_microsoft_errors errors =
     (case errors of
        [] \<Rightarrow> Inr ()
      | error # _ \<Rightarrow>
          let remote_message = to_ascii_lowercase (me_value error);
              reason = (if f64_as_u32 (me_error_type error) = 9 \<or> str_contains remote_message ''715-123130''
                           \<or> str_contains remote_message ''sentinel''
                        then [Text ''Microsoft temporarily rejected the ISO session (715-123130); retry later or use --iso'']
                        else if me_value error = [] then [Text ''Microsoft returned an ISO API error'']
                        else map Num (sanitize_remote_message (me_value error)))
          in Inl (InvalidValue ''Microsoft ISO session'' reason))"


section \<open>The page of downloads\<close>

fun strip_tags :: "bool \<Rightarrow> string \<Rightarrow> string" where
  "strip_tags in_tag [] = []"
| "strip_tags in_tag (c # cs) =
     (if c = CHR ''<'' then strip_tags True cs
      else if c = CHR ''>'' then strip_tags False cs
      else if \<not> in_tag then c # strip_tags in_tag cs
      else strip_tags in_tag cs)"

definition strip_html :: "string \<Rightarrow> string" where
  "strip_html s =
     trim (str_replace (str_replace (str_replace (strip_tags False s) ''&nbsp;'' '' '') ''&#160;'' '' '') ''&amp;'' ''&'')"

lemma str_find_bound: "str_find s needle = Some i \<Longrightarrow> i + length needle \<le> length s"
  by (induction s needle arbitrary: i rule: str_find.induct)
    (auto simp: starts_with_def split: if_splits dest: arg_cong [where f = length])

function html_cells :: "string \<Rightarrow> string list" where
  "html_cells remaining =
     (case str_find remaining ''<td'' of
        None \<Rightarrow> []
      | Some begins \<Rightarrow>
          let cell = drop begins remaining in
          (case str_find cell ''>'' of
             None \<Rightarrow> []
           | Some open_end \<Rightarrow>
               let content = drop (open_end + 1) cell in
               (case str_find content ''</td>'' of
                  None \<Rightarrow> []
                | Some ends \<Rightarrow> strip_html (take ends content) # html_cells (drop (ends + length ''</td>'') content))))"
  by pat_completeness auto

termination html_cells
  by (relation "measure length") (auto dest!: str_find_bound)

function page_hashes :: "string \<Rightarrow> (string \<times> string) list \<Rightarrow> (string \<times> string) list" where
  "page_hashes remaining hashes =
     (case str_find remaining ''<tr'' of
        None \<Rightarrow> hashes
      | Some row_start \<Rightarrow>
          let rows = drop row_start remaining in
          (case str_find rows ''</tr>'' of
             None \<Rightarrow> hashes
           | Some row_end \<Rightarrow>
               let cells = html_cells (take row_end rows);
                   remaining = drop (row_end + length ''</tr>'') rows
               in if length cells \<noteq> 2 then page_hashes remaining hashes
                  else let hash = to_ascii_uppercase (trim (cells ! 1))
                       in if is_sha256 hash
                          then page_hashes remaining (AList.update (normalized_label (cells ! 0)) hash hashes)
                          else page_hashes remaining hashes))"
  by pat_completeness auto

termination page_hashes
  by (relation "measure (\<lambda>(remaining, hashes). length remaining)") (auto dest!: str_find_bound)

declare html_cells.simps [simp del] page_hashes.simps [simp del]

definition option_value :: "string \<Rightarrow> char \<Rightarrow> string option" where
  "option_value tag quote =
     Option.bind (str_split_once tag (''value='' @ [quote])) (\<lambda>(_, rest).
     Option.bind (split_once quote rest) (\<lambda>(inner, _).
     let digits = trim inner
     in if digits \<noteq> [] \<and> list_all is_ascii_digit digits then Some digits else None))"

function first_numeric_option_value :: "string \<Rightarrow> LswError + string" where
  "first_numeric_option_value remaining =
     (let missing = Inl (InvalidValue ''Microsoft product ID'' [Text ''the current Windows 11 product ID is invalid'']) in
      case str_find remaining ''<option'' of
        None \<Rightarrow> missing
      | Some option_start \<Rightarrow>
          let option = drop option_start remaining in
          (case str_find option ''>'' of
             None \<Rightarrow> missing
           | Some tag_end \<Rightarrow>
               (case find_map (option_value (take tag_end option)) [DQUOTE, CHR 0x27] of
                  Some digits \<Rightarrow> Inr digits
                | None \<Rightarrow> first_numeric_option_value (drop (tag_end + 1) option))))"
  by pat_completeness auto

termination first_numeric_option_value
  by (relation "measure length") (auto dest!: str_find_bound)

declare first_numeric_option_value.simps [simp del]

record DownloadPageCatalog =
  dc_product_id :: string
  dc_hashes :: "(string \<times> string) list"

definition hash_for :: "DownloadPageCatalog \<Rightarrow> string \<Rightarrow> string \<Rightarrow> LswError + string" where
  "hash_for catalog language architecture =
     (let bits = (if eq_ignore_ascii_case architecture ''x64'' then ''64-bit'' else architecture);
          key = normalized_label (language @ '' '' @ bits)
      in ok_or (map_of (dc_hashes catalog) key)
           (InvalidValue ''Microsoft ISO SHA-256''
              [Text ''Microsoft's download page has no SHA-256 entry for '', Disp language, Text '' '', Disp architecture]))"

definition parse_download_page :: "string \<Rightarrow> LswError + DownloadPageCatalog" where
  "parse_download_page html =
     and_then (ok_or (Option.bind (str_find html (''id='' @ [DQUOTE] @ ''product-edition'' @ [DQUOTE])) (\<lambda>start.
                      map_option fst (str_split_once (drop start html) ''</select>'')))
                (InvalidValue ''Microsoft download page'' [Text ''could not find the current Windows 11 product selector''])) (\<lambda>select.
     and_then (first_numeric_option_value select) (\<lambda>product_id.
     let hashes = page_hashes html []
     in if hashes = []
        then Inl (InvalidValue ''Microsoft download page'' [Text ''could not find Microsoft's Windows ISO SHA-256 table''])
        else Inr \<lparr>dc_product_id = product_id, dc_hashes = hashes\<rparr>))"

definition select_language :: "MicrosoftLanguage list \<Rightarrow> string \<Rightarrow> LswError + MicrosoftLanguage" where
  "select_language languages requested =
     (case filter (\<lambda>language. normalized_label (ml_language language) = normalized_label requested) languages of
        [language] \<Rightarrow> Inr language
      | [] \<Rightarrow> Inl (InvalidValue ''Windows ISO language''
                 [Text ''language is unavailable; Microsoft offered '', Disp (join '', '' (map ml_language languages))])
      | _ \<Rightarrow> Inl (InvalidValue ''Windows ISO language'' [Text ''language selection is ambiguous'']))"


section \<open>Responses\<close>

definition microsoft_response_bytes :: "http_response \<Rightarrow> LswError + string" where
  "microsoft_response_bytes response =
     (let bytes = concat (takeWhile (\<lambda>chunk. chunk \<noteq> []) (hr_body response))
      in if MAX_MICROSOFT_RESPONSE_BYTES < length bytes then Inr (take (MAX_MICROSOFT_RESPONSE_BYTES + 1) bytes)
         else case hr_end response of Some e \<Rightarrow> Inl (LswIo e) | None \<Rightarrow> Inr bytes)"

definition read_response :: "http_response \<Rightarrow> string \<Rightarrow> LswError + string" where
  "read_response response field =
     and_then (microsoft_response_bytes response) (\<lambda>bytes.
     if MAX_MICROSOFT_RESPONSE_BYTES < length bytes then Inl (InvalidValue field [Text ''response exceeds 8 MiB''])
     else if utf8_valid bytes then Inr bytes
     else Inl (InvalidValue field [Text ''response is not valid UTF-8'']))"

fun http_error :: "string \<Rightarrow> http_failure \<Rightarrow> LswError" where
  "http_error context' (HttpStatus status) =
     InvalidValue ''Microsoft ISO request'' [Text context', Text '': Microsoft returned HTTP '', Num status]"
| "http_error context' (HttpTransport kind) =
     InvalidValue ''Microsoft ISO request'' [Text context', Text '': network transport '', Disp kind]"

definition unquote_json :: "'w iso_os \<Rightarrow> string \<Rightarrow> LswError + string" where
  "unquote_json os raw =
     (let trimmed = trim raw
      in if starts_with trimmed [DQUOTE]
         then ok_or (iso_json_string os trimmed)
                (InvalidValue ''Microsoft response'' [Text ''Microsoft returned an invalid quoted JSON payload''])
         else Inr trimmed)"

definition parse_languages :: "'w iso_os \<Rightarrow> string \<Rightarrow> LswError + MicrosoftLanguage list" where
  "parse_languages os raw =
     and_then (unquote_json os raw) (\<lambda>raw.
     and_then (ok_or (iso_json_languages os raw)
                (InvalidValue ''Microsoft SKU response'' [Text ''Microsoft returned invalid JSON''])) (\<lambda>response.
     and_then (check_microsoft_errors (lr_errors response)) (\<lambda>_.
     if lr_skus response = []
     then Inl (InvalidValue ''Microsoft SKU response'' [Text ''Microsoft returned no Windows ISO languages''])
     else Inr (lr_skus response))))"

definition parse_download_response :: "'w iso_os \<Rightarrow> string \<Rightarrow> LswError + MicrosoftDownloadResponse" where
  "parse_download_response os raw =
     and_then (unquote_json os raw) (\<lambda>raw.
     and_then (ok_or (iso_json_download os raw)
                (InvalidValue ''Microsoft download response'' [Text ''Microsoft returned invalid JSON''])) (\<lambda>response.
     and_then (check_microsoft_errors (mr_errors response)) (\<lambda>_.
     if mr_options response = []
     then Inl (InvalidValue ''Microsoft download response'' [Text ''Microsoft returned no Windows ISO download links''])
     else Inr response)))"

definition architecture_of :: "MicrosoftDownloadOption \<Rightarrow> string" where
  "architecture_of offer =
     (case (case mo_architecture offer of Some (JString s) \<Rightarrow> if s = [] then None else Some s | _ \<Rightarrow> None) of
        Some s \<Rightarrow> s
      | None \<Rightarrow>
          (case mo_download_type offer of
             Some n \<Rightarrow> if n = 0 then ''x86'' else if n = 1 then ''x64'' else if n = 2 then ''ARM64''
                       else ''type_'' @ decimal (unat n)
           | None \<Rightarrow> []))"

definition extract_mdt_w :: "string \<Rightarrow> string option" where
  "extract_mdt_w script =
     (case find_map (\<lambda>needle. map_option (\<lambda>i. drop (i + length needle) script) (str_find script needle)) [''&w='', ''?w=''] of
        None \<Rightarrow> None
      | Some rest \<Rightarrow>
          let w = before_any (''&'' @ [DQUOTE, CHR 0x27] @ ''<> '' @ [CR, NL]) rest
          in if w \<noteq> [] \<and> length w \<le> 512 then Some w else None)"

definition extract_rticks :: "string \<Rightarrow> string option" where
  "extract_rticks script =
     Option.bind (str_find script ''rticks'') (\<lambda>start.
     let digits = takeWhile is_ascii_digit
           (dropWhile (\<lambda>c. \<not> is_ascii_digit c) (drop (start + length ''rticks'') script))
     in if 10 \<le> length digits \<and> length digits \<le> 32 then Some digits else None)"


section \<open>The session\<close>

record MicrosoftSession =
  ms_session_id :: string
  ms_cookies :: "(string \<times> string) list"

text \<open>\<open>BTreeMap::insert\<close>; iteration follows the order of the names.\<close>

fun btree_insert :: "string \<Rightarrow> 'v \<Rightarrow> (string \<times> 'v) list \<Rightarrow> (string \<times> 'v) list" where
  "btree_insert k v [] = [(k, v)]"
| "btree_insert k v ((l, u) # rest) =
     (if k = l then (k, v) # rest
      else if map char_code k < map char_code l then (k, v) # (l, u) # rest
      else (l, u) # btree_insert k v rest)"

definition hex_bytes :: "bytes \<Rightarrow> string" where
  "hex_bytes bytes = concat (map (\<lambda>b. [''0123456789abcdef'' ! unat (drop_bit 4 b), ''0123456789abcdef'' ! unat (b AND 0x0F)]) bytes)"

definition session_id_of :: "bytes \<Rightarrow> string" where
  "session_id_of random =
     (let bytes = random[6 := (random ! 6 AND 0x0F) OR 0x40, 8 := (random ! 8 AND 0x3F) OR 0x80]
      in hex_bytes (take 4 bytes) @ ''-'' @ hex_bytes (take 2 (drop 4 bytes)) @ ''-''
         @ hex_bytes (take 2 (drop 6 bytes)) @ ''-'' @ hex_bytes (take 2 (drop 8 bytes)) @ ''-''
         @ hex_bytes (take 6 (drop 10 bytes)))"

definition new_session_id :: "'w iso_os \<Rightarrow> ('w, string) store" where
  "new_session_id os =
     io_bind (io_map_error (\<lambda>_. InvalidValue ''Microsoft ISO session''
                [Text ''could not obtain operating-system randomness'']) (os_try (iso_random os))) (\<lambda>bytes.
     io_return (session_id_of bytes))"

definition session_new :: "'w iso_os \<Rightarrow> ('w, MicrosoftSession) store" where
  "session_new os = io_bind (new_session_id os) (\<lambda>session_id. io_return \<lparr>ms_session_id = session_id, ms_cookies = []\<rparr>)"

definition cookie_header :: "(string \<times> string) list \<Rightarrow> string" where
  "cookie_header cookies = join ''; '' (map (\<lambda>(name, value). name @ ''='' @ value) cookies)"

definition session_headers :: "MicrosoftSession \<Rightarrow> string option \<Rightarrow> (string \<times> string) list" where
  "session_headers session referer =
     [(''User-Agent'', MICROSOFT_USER_AGENT), (''Accept'', ''application/json, text/javascript, */*; q=0.01'')]
     @ (case referer of Some referer \<Rightarrow> [(''Referer'', referer)] | None \<Rightarrow> [])
     @ (if ms_cookies session \<noteq> [] then [(''Cookie'', cookie_header (ms_cookies session))] else [])"

definition keep_cookies :: "string list \<Rightarrow> (string \<times> string) list \<Rightarrow> (string \<times> string) list" where
  "keep_cookies = fold (\<lambda>cookie cookies. case parse_set_cookie cookie of
     Some (name, value) \<Rightarrow> btree_insert name value cookies | None \<Rightarrow> cookies)"

text \<open>A failing request also ends the session, so a session is only returned with a body.\<close>

definition session_get ::
  "'w iso_os \<Rightarrow> MicrosoftSession \<Rightarrow> string \<Rightarrow> string option \<Rightarrow> string \<Rightarrow> ('w, string \<times> MicrosoftSession) store" where
  "session_get os session url referer context' =
     io_bind (io_of (validate_microsoft_api_url os url)) (\<lambda>_.
     io_bind (http_call os (http_error context') ''GET'' url (session_headers session referer)) (\<lambda>response.
     let session = session\<lparr>ms_cookies := keep_cookies (header_values response ''set-cookie'') (ms_cookies session)\<rparr> in
     io_bind (io_of (read_response response context')) (\<lambda>body.
     io_return (body, session))))"

definition session_register :: "'w iso_os \<Rightarrow> MicrosoftSession \<Rightarrow> ('w, MicrosoftSession) store" where
  "session_register os session =
     io_bind (io_of (query_url os MICROSOFT_TAGS_ENDPOINT
       [(''org_id'', MICROSOFT_ORG_ID), (''session_id'', ms_session_id session)])) (\<lambda>tags.
     io_bind (session_get os session tags None ''registering the Microsoft session'') (\<lambda>(_, session).
     io_bind (io_of (query_url os MICROSOFT_MDT_SCRIPT
       [(''instanceId'', MICROSOFT_CUSTOMER_ID), (''PageId'', ''si''), (''session_id'', ms_session_id session)])) (\<lambda>script.
     io_bind (session_get os session script None ''fetching the Microsoft session script'') (\<lambda>(body, session).
     case (extract_mdt_w body, extract_rticks body) of
       (Some w, Some rticks) \<Rightarrow>
         io_bind (os_ask (iso_millis os)) (\<lambda>millis.
         io_bind (io_of (query_url os MICROSOFT_MDT_ENDPOINT
           [(''session_id'', ms_session_id session), (''CustomerId'', MICROSOFT_CUSTOMER_ID), (''PageId'', ''si''),
            (''w'', w), (''mdt'', decimal millis), (''rticks'', rticks)])) (\<lambda>endpoint.
         io_bind (session_get os session endpoint None ''completing the Microsoft session'') (\<lambda>(_, session).
         io_return session)))
     | _ \<Rightarrow> io_return session))))"

definition fetch_languages ::
  "'w iso_os \<Rightarrow> MicrosoftSession \<Rightarrow> string \<Rightarrow> ('w, MicrosoftLanguage list \<times> MicrosoftSession) store" where
  "fetch_languages os session product_id =
     io_bind (io_of (query_url os MICROSOFT_SKU_ENDPOINT
       [(''profile'', MICROSOFT_PROFILE), (''productEditionId'', product_id), (''SKU'', ''undefined''),
        (''friendlyFileName'', ''undefined''), (''Locale'', MICROSOFT_LOCALE), (''sessionID'', ms_session_id session)])) (\<lambda>url.
     io_bind (session_get os session url (Some MICROSOFT_DOWNLOAD_PAGE) ''fetching Windows ISO languages'') (\<lambda>(raw, session).
     io_bind (io_of (parse_languages os raw)) (\<lambda>languages.
     io_return (languages, session))))"

definition fetch_download_links ::
  "'w iso_os \<Rightarrow> MicrosoftSession \<Rightarrow> string \<Rightarrow> string \<Rightarrow> ('w, MicrosoftDownloadResponse) store" where
  "fetch_download_links os session product_id sku_id =
     io_bind (fetch_languages os session product_id) (\<lambda>(_, session).
     io_bind (io_of (query_url os MICROSOFT_LINK_ENDPOINT
       [(''profile'', MICROSOFT_PROFILE), (''productEditionId'', ''undefined''), (''SKU'', sku_id),
        (''friendlyFileName'', ''undefined''), (''Locale'', MICROSOFT_LOCALE), (''sessionID'', ms_session_id session)])) (\<lambda>url.
     io_bind (session_get os session url (Some MICROSOFT_DOWNLOAD_PAGE) ''resolving the Windows ISO download'') (\<lambda>(raw, session).
     io_of (parse_download_response os raw))))"


section \<open>Resolution\<close>

record ResolvedWindowsIso =
  ri_product_id :: string
  ri_sku_id :: string
  ri_language :: string
  ri_architecture :: string
  ri_filename :: string
  ri_expected_sha256 :: string
  ri_expires_at :: "string option"
  ri_download_url :: Url

definition fetch_catalog :: "'w iso_os \<Rightarrow> ('w, DownloadPageCatalog) store" where
  "fetch_catalog os =
     io_bind (http_call os (http_error ''fetching the Microsoft download page'') ''GET'' MICROSOFT_DOWNLOAD_PAGE
                [(''User-Agent'', MICROSOFT_USER_AGENT), (''Accept'', ''text/html,application/xhtml+xml'')]) (\<lambda>response.
     io_bind (io_of (read_response response ''Microsoft download page'')) (\<lambda>page.
     io_of (parse_download_page page)))"

definition published_sha256 :: "'w iso_os \<Rightarrow> MicrosoftIsoRequest \<Rightarrow> ('w, string) store" where
  "published_sha256 os request =
     io_bind (io_of (validate_language (mi_language request))) (\<lambda>_.
     io_bind (fetch_catalog os) (\<lambda>catalog.
     io_of (hash_for catalog (mi_language request) ''x64'')))"

definition resolve :: "'w iso_os \<Rightarrow> MicrosoftIsoRequest \<Rightarrow> ('w, ResolvedWindowsIso) store" where
  "resolve os request =
     io_bind (io_of (validate_language (mi_language request))) (\<lambda>_.
     io_bind (fetch_catalog os) (\<lambda>catalog.
     io_bind (session_new os) (\<lambda>session.
     io_bind (session_register os session) (\<lambda>session.
     io_bind (fetch_languages os session (dc_product_id catalog)) (\<lambda>(languages, session).
     io_bind (io_of (select_language languages (mi_language request))) (\<lambda>language.
     io_bind (fetch_download_links os session (dc_product_id catalog) (ml_id language)) (\<lambda>response.
     io_bind (io_of (ok_or (find (\<lambda>offer. eq_ignore_ascii_case (architecture_of offer) ''x64'') (mr_options response))
       (InvalidValue ''Microsoft ISO response'' [Text ''Microsoft returned no x64 download option'']))) (\<lambda>offer.
     io_bind (io_of (secret_url_parse os (mo_uri offer))) (\<lambda>download_url.
     io_bind (io_of (iso_filename download_url)) (\<lambda>filename.
     io_bind (io_of (hash_for catalog (ml_language language) ''x64'')) (\<lambda>expected_sha256.
     io_return \<lparr>ri_product_id = dc_product_id catalog, ri_sku_id = ml_id language, ri_language = ml_language language,
       ri_architecture = ''x64'', ri_filename = filename, ri_expected_sha256 = expected_sha256,
       ri_expires_at = mr_expiration response, ri_download_url = download_url\<rparr>)))))))))))"


section \<open>What is resolved\<close>

lemma map_of_page_hashes:
  "map_of (page_hashes s hashes) k = Some v \<Longrightarrow> (\<And>k v. map_of hashes k = Some v \<Longrightarrow> is_sha256 v) \<Longrightarrow> is_sha256 v"
proof (induction "length s" arbitrary: s hashes rule: less_induct)
  case less
  have next_row: "is_sha256 v"
    if "map_of (page_hashes (drop (Suc (Suc (Suc (Suc (Suc j))))) (drop i s)) hashes') k = Some v"
      "str_find s ''<tr'' = Some i" "str_find (drop i s) ''</tr>'' = Some j" "\<forall>k v. map_of hashes' k = Some v \<longrightarrow> is_sha256 v"
    for i j hashes'
    using str_find_bound [OF that(2)] str_find_bound [OF that(3)] that(1,4)
    by (intro less.hyps [of "drop (Suc (Suc (Suc (Suc (Suc j))))) (drop i s)" hashes']) auto
  have known: "\<forall>k v. map_of hashes k = Some v \<longrightarrow> is_sha256 v" using less.prems(2) by blast
  from less.prems(1) show ?case
    by (subst (asm) page_hashes.simps)
       (auto simp: Let_def simp del: drop_drop split: option.splits if_splits elim!: next_row
             simp: known update_conv')
qed

lemma hash_for_page:
  assumes "parse_download_page html = Inr catalog" and "hash_for catalog language architecture = Inr digest"
  shows "is_sha256 digest"
  using assms map_of_page_hashes [of html "[]"]
  by (auto simp: parse_download_page_def hash_for_def Let_def ok_iff split: if_splits)

lemma ends_with_iff: "ends_with s t \<longleftrightarrow> (\<exists>p. s = p @ t)"
  unfolding ends_with_def by (metis append_take_drop_id append_eq_conv_conj length_append diff_add_inverse2 le_add2)

lemma cdn_url_host:
  assumes "validate_microsoft_cdn_url url = Inr ()"
  shows "\<exists>host. url_host_str url = Some host \<and> (ends_with (to_ascii_lowercase host) ''.download.prss.microsoft.com''
       \<or> ends_with (to_ascii_lowercase host) ''.dl.delivery.mp.microsoft.com''
       \<or> ends_with (to_ascii_lowercase host) ''.delivery.mp.microsoft.com'')"
proof (cases "url_host_str url")
  case None
  with assms show ?thesis by (simp add: validate_microsoft_cdn_url_def ends_with_def to_ascii_lowercase_def split: if_splits)
next
  case (Some host)
  with assms show ?thesis by (auto simp: validate_microsoft_cdn_url_def Let_def split: if_splits)
qed

lemma checked_ok: "(if P x then Inr x else Inl e) = Inr y \<longleftrightarrow> P x \<and> y = x"
  by auto

lemma iso_filename_plain:
  assumes "iso_filename url = Inr name"
  shows "length name \<le> 200" "ends_with (to_ascii_lowercase name) ''.iso''" "CHR ''/'' \<notin> set name"
proof -
  let ?safe = "\<lambda>name. length name \<le> 200 \<and> ends_with (to_ascii_lowercase name) ''.iso''
    \<and> list_all (\<lambda>c. is_ascii_alphanumeric c \<or> c \<in> set ''.-_'') name"
  have "?safe name" using assms unfolding iso_filename_def Let_def checked_ok [where P = ?safe] by blast
  moreover have "\<not> (is_ascii_alphanumeric (CHR ''/'') \<or> CHR ''/'' \<in> set ''.-_'')" by code_simp
  ultimately show "length name \<le> 200" "ends_with (to_ascii_lowercase name) ''.iso''" "CHR ''/'' \<notin> set name"
    unfolding list_all_iff by blast+
qed

text \<open>
  C35: whatever the network answers, a medium that is resolved has a digest of 64 hexadecimal
  digits to be checked against, an address over HTTPS on a host with one of the three names of the
  publisher's delivery network, without credentials or fragment, and a plain file name that ends in \<open>.iso\<close> and cannot leave the directory it is put in.
\<close>

theorem resolved_iso_trusted:
  assumes "resolve os request h = Some (Inr r, h')"
  shows "is_sha256 (ri_expected_sha256 r)
    \<and> url_scheme (ri_download_url r) = ''https''
    \<and> (\<exists>host. url_host_str (ri_download_url r) = Some host \<and> (ends_with (to_ascii_lowercase host) ''.download.prss.microsoft.com''
       \<or> ends_with (to_ascii_lowercase host) ''.dl.delivery.mp.microsoft.com''
       \<or> ends_with (to_ascii_lowercase host) ''.delivery.mp.microsoft.com''))
    \<and> url_username (ri_download_url r) = [] \<and> url_password (ri_download_url r) = None \<and> url_fragment (ri_download_url r) = None
    \<and> length (ri_filename r) \<le> 200 \<and> ends_with (to_ascii_lowercase (ri_filename r)) ''.iso''
    \<and> CHR ''/'' \<notin> set (ri_filename r)"
proof -
  obtain page catalog language architecture where
    "parse_download_page page = Inr catalog" "hash_for catalog language architecture = Inr (ri_expected_sha256 r)"
    and url: "validate_microsoft_cdn_url (ri_download_url r) = Inr ()" and name: "iso_filename (ri_download_url r) = Inr (ri_filename r)"
    using assms
    by (auto simp: resolve_def fetch_catalog_def io_bind_Some io_of_def io_return_def secret_url_parse_def ok_iff
        split: prod.splits)
  then have "is_sha256 (ri_expected_sha256 r)" by (blast intro: hash_for_page)
  then show ?thesis
    using url iso_filename_plain [OF name] cdn_url_host [OF url]
    by (simp add: validate_microsoft_cdn_url_def Let_def split: if_splits)
qed

section \<open>What is asked\<close>

text \<open>A log of requests has grown by requests that are all allowed.\<close>

definition asked :: "('r \<Rightarrow> bool) \<Rightarrow> ('w \<Rightarrow> 'r list) \<Rightarrow> 'w host \<Rightarrow> 'w host \<Rightarrow> bool" where
  "asked allowed log h h' \<longleftrightarrow> (\<exists>new. log (h_rest h') = new @ log (h_rest h) \<and> list_all allowed new)"

lemma asked_trans: "asked allowed log h i \<Longrightarrow> asked allowed log i j \<Longrightarrow> asked allowed log h j"
  unfolding asked_def by (metis append_assoc list_all_append)

interpretation asking: step_order "asked allowed log" for allowed log
  by unfold_locales (auto simp: asked_def intro: asked_trans [unfolded asked_def])

text \<open>
  A request may go to the page of downloads, without cookies, or to one of the publisher's interfaces.
\<close>

definition allowed_request :: "'w iso_os \<Rightarrow> string \<times> (string \<times> string) list \<Rightarrow> bool" where
  "allowed_request os = (\<lambda>(url, headers).
     validate_microsoft_api_url os url = Inr ()
     \<or> url = MICROSOFT_DOWNLOAD_PAGE \<and> ''Cookie'' \<notin> fst ` set headers)"

text \<open>The log holds every request, newest first; nothing else changes it.\<close>

definition logs_requests :: "'w iso_os \<Rightarrow> ('w \<Rightarrow> (string \<times> (string \<times> string) list) list) \<Rightarrow> bool" where
  "logs_requests os log \<longleftrightarrow>
     (\<forall>request url headers h. log (h_rest (snd (iso_call os request url headers h))) = (url, headers) # log (h_rest h))
     \<and> (\<forall>w. log (snd (iso_random os w)) = log w) \<and> (\<forall>w. log (snd (iso_millis os w)) = log w)"

lemma askedI: "log (h_rest h') = log (h_rest h) \<Longrightarrow> asked allowed log h h'"
  and asked_one: "log (h_rest h') = r # log (h_rest h) \<Longrightarrow> allowed r \<Longrightarrow> asked allowed log h h'"
  unfolding asked_def by (rule exI [of _ "[]"], simp) (rule exI [of _ "[r]"], simp)

lemma asked_http_call:
  assumes "logs_requests os log" and "allowed (url, headers)"
  shows "keeps (asked allowed log) (http_call os wrap request url headers)"
proof -
  have "asked allowed log h (snd (iso_call os request url headers h))" for h
    using assms by (intro asked_one [where r = "(url, headers)"]) (simp_all add: logs_requests_def)
  then have "keeps (asked allowed log) (\<lambda>h. Some (iso_call os request url headers h))"
    by (simp add: keeps_def post_def split_beta)
  then show ?thesis unfolding http_call_def by (rule asking.keeps_map_error)
qed

lemma asked_world:
  assumes "logs_requests os log"
  shows "keeps (asked allowed log) (os_try (iso_random os))" "keeps (asked allowed log) (os_ask (iso_millis os))"
  using assms by (simp_all add: keeps_def post_def os_try_def os_ask_def split_beta askedI logs_requests_def)

lemma asked_session_get:
  assumes "logs_requests os log"
  shows "keeps (asked (allowed_request os) log) (session_get os session url referer context')"
proof (cases "validate_microsoft_api_url os url")
  case (Inr u)
  then have "allowed_request os (url, headers)" for headers by (simp add: allowed_request_def)
  with assms show ?thesis
    unfolding session_get_def Let_def by (intro asking.keeps_rules asked_http_call)
qed (simp add: session_get_def io_bind_def io_of_def keeps_def post_def asking.refl)

lemmas asked_rules = asking.keeps_rules asked_session_get asked_world

lemma asked_resolve:
  assumes "logs_requests os log"
  shows "keeps (asked (allowed_request os) log) (resolve os request)"
proof -
  have register: "keeps (asked (allowed_request os) log) (session_register os session)" for session
    unfolding session_register_def by (intro asked_rules assms)
  have languages: "keeps (asked (allowed_request os) log) (fetch_languages os session product)" for session product
    unfolding fetch_languages_def by (intro asked_rules assms)
  have links: "keeps (asked (allowed_request os) log) (fetch_download_links os session product sku)" for session product sku
    unfolding fetch_download_links_def by (intro asked_rules languages assms)
  have catalog: "keeps (asked (allowed_request os) log) (fetch_catalog os)"
    unfolding fetch_catalog_def
    by (intro asking.keeps_rules asked_http_call assms) (simp add: allowed_request_def)
  show ?thesis
    unfolding resolve_def session_new_def new_session_id_def
    by (intro asked_rules register languages links catalog assms)
qed

text \<open>
  C36: however the network answers, resolving a medium only sends requests to the three hosts of the
  publisher's interfaces over HTTPS, or asks for the page of downloads without a cookie: the session
  and its cookies never reach another host.
\<close>

theorem requests_allowlisted:
  assumes "logs_requests os log" and "resolve os request h = Some (r, h')"
  shows "\<exists>new. log (h_rest h') = new @ log (h_rest h)
    \<and> (\<forall>(url, headers) \<in> set new. validate_microsoft_api_url os url = Inr ()
         \<or> url = MICROSOFT_DOWNLOAD_PAGE \<and> ''Cookie'' \<notin> fst ` set headers)"
  using keepsD [OF asked_resolve [OF assms(1)] assms(2)]
  by (auto simp: asked_def allowed_request_def list_all_iff)


section \<open>A download service\<close>

text \<open>A parser of plain HTTPS addresses, and a service that offers one medium.\<close>

definition plain_url :: "string \<Rightarrow> Url option" where
  "plain_url s = map_option (\<lambda>rest.
       \<lparr>url_text = s, url_scheme = ''https'', url_host_str = Some (before_any ''/'' rest), url_username = [], url_password = None,
        url_fragment = None, url_path_segments = Some (tl (split_char ''/'' (before_any ''?'' rest)))\<rparr>)
     (strip_prefix s ''https://'')"

definition demo_page :: string where
  "demo_page = ''<select id='' @ [DQUOTE] @ ''product-edition'' @ [DQUOTE] @ ''><option value='' @ [DQUOTE, DQUOTE] @ ''><option value=''
     @ [DQUOTE] @ ''3113'' @ [DQUOTE] @ ''></select><tr><td>English 64-bit</td><td>'' @ replicate 64 (CHR ''a'') @ ''</td></tr>''"

definition demo_link :: string where
  "demo_link = ''https://a.download.prss.microsoft.com/x/Win11.iso''"

definition demo_answer :: "string \<Rightarrow> http_response" where
  "demo_answer body = \<lparr>hr_status = 200, hr_url = [], hr_headers = [(''Set-Cookie'', ''a=b; path=/'')], hr_body = [body], hr_end = None\<rparr>"

type_synonym requests = "(string \<times> (string \<times> string) list) list"

definition demo_service :: "requests iso_os" where
  "demo_service = \<lparr>iso_fs = undefined,
     iso_call = (\<lambda>request url headers h. (Inr (demo_answer (if url = MICROSOFT_DOWNLOAD_PAGE then demo_page else ''{}'')),
       h\<lparr>h_rest := (url, headers) # h_rest h\<rparr>)),
     iso_random = (\<lambda>w. (Inr (replicate 16 0), w)), iso_millis = (\<lambda>w. (7, w)),
     iso_run = (\<lambda>program arguments dir input h. (Inl NotFound, h)),
     iso_url_parse = plain_url, iso_url_query = (\<lambda>url pairs. url_text url), iso_json_string = (\<lambda>_. None),
     iso_json_languages = (\<lambda>_. Some \<lparr>lr_skus = [\<lparr>ml_id = ''1'', ml_language = ''English''\<rparr>], lr_errors = []\<rparr>),
     iso_json_download = (\<lambda>_. Some \<lparr>mr_options = [\<lparr>mo_uri = demo_link, mo_architecture = None, mo_download_type = Some 1\<rparr>],
       mr_errors = [], mr_expiration = None\<rparr>),
     iso_sha256 = (\<lambda>_. replicate 32 0xAA)\<rparr>"

definition demo_resolved :: ResolvedWindowsIso where
  "demo_resolved = \<lparr>ri_product_id = ''3113'', ri_sku_id = ''1'', ri_language = ''English'', ri_architecture = ''x64'',
     ri_filename = ''Win11.iso'', ri_expected_sha256 = replicate 64 (CHR ''A''), ri_expires_at = None,
     ri_download_url = the (plain_url demo_link)\<rparr>"

text \<open>Text without white space at its ends is not searched for any.\<close>

lemma trim_solid: "solid s \<Longrightarrow> trim s = s"
proof -
  assume s: "solid s"
  then have ascii: "\<forall>c \<in> set s. char_code c < 0x80" by (simp add: solid_def)
  have tail: "is_blank (drop n s) \<longleftrightarrow> length s \<le> n" for n
  proof (cases "length s \<le> n")
    case False
    then have "last s \<in> set (drop n s)" using last_in_set [of "drop n s"] by simp
    then show ?thesis using s False by (auto simp: ascii_parts(2) [OF ascii] solid_def)
  qed (simp add: is_blank_def str_chars_ascii)
  have head: "is_blank (take n s) \<longleftrightarrow> n = 0" for n
  proof (cases n)
    case (Suc k)
    then have "hd s \<in> set (take n s)" using s by (cases s) (auto simp: solid_def)
    then show ?thesis using s Suc by (auto simp: ascii_parts(3) [OF ascii] solid_def)
  qed (simp add: is_blank_def str_chars_ascii)
  have "filter (\<lambda>n. char_boundary s n \<and> is_blank (take n s)) [0..<Suc (length s)] = [0]"
    by (simp add: ascii_parts(1) [OF ascii] head upt_rec [of 0])
  moreover have "filter (\<lambda>n. char_boundary s n \<and> is_blank (drop n s)) [0..<Suc (length s)] = [length s]"
    by (simp add: ascii_parts(1) [OF ascii] tail)
  ultimately show ?thesis by (simp add: trim_def trim_start_def trim_end_def)
qed

lemma trim_code [code]: "trim s = (if solid s then s else trim_start (trim_end s))"
  using trim_solid [of s] by (simp add: trim_def)

lemma demo_logs: "logs_requests demo_service (\<lambda>w. w)"
  by (simp add: logs_requests_def demo_service_def)

lemma demo_page_parsed:
  "parse_download_page demo_page = Inr \<lparr>dc_product_id = ''3113'', dc_hashes = [(''english64bit'', replicate 64 (CHR ''A''))]\<rparr>"
  by code_simp

lemma demo_resolves:
  "map_option fst (resolve demo_service request_default \<lparr>h_nodes = [], h_rest = []\<rparr>) = Some (Inr demo_resolved)"
  by code_simp

lemma demo_resolved_state:
  obtains h' where "resolve demo_service request_default \<lparr>h_nodes = [], h_rest = []\<rparr> = Some (Inr demo_resolved, h')"
  using demo_resolves by auto

theorem resolved_iso_trusted_witness:
  "is_sha256 (ri_expected_sha256 demo_resolved) \<and> CHR ''/'' \<notin> set (ri_filename demo_resolved)"
proof -
  obtain h' where "resolve demo_service request_default \<lparr>h_nodes = [], h_rest = []\<rparr> = Some (Inr demo_resolved, h')"
    by (rule demo_resolved_state)
  from resolved_iso_trusted [OF this] show ?thesis by blast
qed

theorem requests_allowlisted_witness:
  "\<exists>h'. resolve demo_service request_default \<lparr>h_nodes = [], h_rest = []\<rparr> = Some (Inr demo_resolved, h')
    \<and> list_all (allowed_request demo_service) (h_rest h')"
proof -
  obtain h' where r: "resolve demo_service request_default \<lparr>h_nodes = [], h_rest = []\<rparr> = Some (Inr demo_resolved, h')"
    by (rule demo_resolved_state)
  from requests_allowlisted [OF demo_logs r] have "list_all (allowed_request demo_service) (h_rest h')"
    by (auto simp: list_all_iff allowed_request_def)
  with r show ?thesis by blast
qed

end
