(* ===== verification/Iso_Download.thy ===== *)
theory Iso_Download
  imports Iso_Catalog Rust_Outcome
begin

text \<open>
  Downloading an installation medium (\<open>iso_download/downloader.rs\<close> of \<open>lsw-core\<close>): four ranges or the
  program aria2c, resumable, verified before the destination gets its name.  The workers of the
  ranges touch files of their own; they are run one after the other.
\<close>

section \<open>Definitions\<close>

datatype IsoDownloadEngine = Aria2 | Native

datatype IsoDownloadProgressStage = Transferring | Assembling | Verifying

record IsoDownloadProgress =
  ip_stage :: IsoDownloadProgressStage
  ip_completed_bytes :: "nat option"
  ip_total_bytes :: "nat option"

record IsoDownloadReport =
  rp_destination :: string
  rp_engine :: IsoDownloadEngine
  rp_bytes :: nat
  rp_sha256 :: string
  rp_resolutions :: nat

type_synonym 'w on_progress = "IsoDownloadProgress \<Rightarrow> 'w \<Rightarrow> 'w"

definition progress :: "'w on_progress \<Rightarrow> IsoDownloadProgressStage \<Rightarrow> nat option \<Rightarrow> nat option \<Rightarrow> ('w host, 'e, unit) io" where
  "progress on_progress stage completed total_bytes = io_modify (\<lambda>h. h\<lparr>h_rest := on_progress
     \<lparr>ip_stage = stage, ip_completed_bytes = completed, ip_total_bytes = total_bytes\<rparr> (h_rest h)\<rparr>)"


subsection \<open>Files\<close>

text \<open>The length in a file's metadata; it is only asked of regular files.\<close>

fun node_len :: "fs_node \<Rightarrow> nat" where
  "node_len (Regular mode contents) = length contents"
| "node_len _ = 0"

definition BUFFER :: nat where "BUFFER = 1024 * 1024"

function chunks :: "string \<Rightarrow> string list" where
  "chunks s = (if s = [] then [] else take BUFFER s # chunks (drop BUFFER s))"
  by pat_completeness auto

termination chunks
  by (relation "measure length") (auto simp: BUFFER_def)

declare chunks.simps [simp del]

text \<open>\<open>read\<close> on an open file, whose contents are known: it may fail before each chunk.\<close>

definition read_more :: "'w host_os \<Rightarrow> string \<Rightarrow> ('w, unit) fs" where
  "read_more os p = fs_run os (FsRead p) (\<lambda>w ns. (Inr (), ns))"

text \<open>\<open>OpenOptions\<close> with \<open>create\<close> and \<open>append\<close>, and with \<open>create\<close>, \<open>truncate\<close> and \<open>write\<close>.\<close>

definition open_part :: "'w host_os \<Rightarrow> string \<Rightarrow> ('w, unit) fs" where
  "open_part os p = fs_run os (FsOpen p) (\<lambda>w ns.
     case map_of ns p of
       None \<Rightarrow> (Inr (), AList.update p (Regular (ho_file_mode os) []) ns)
     | Some (Directory _) \<Rightarrow> (Inl (OsError ''Is a directory (os error 21)''), ns)
     | Some SocketNode \<Rightarrow> (Inl (OsError ''No such device or address (os error 6)''), ns)
     | Some _ \<Rightarrow> (Inr (), ns))"

definition open_assembly :: "'w host_os \<Rightarrow> string \<Rightarrow> ('w, unit) fs" where
  "open_assembly os p = fs_run os (FsOpen p) (\<lambda>w ns.
     case map_of ns p of
       None \<Rightarrow> (Inr (), AList.update p (Regular (ho_file_mode os) []) ns)
     | Some (Regular mode _) \<Rightarrow> (Inr (), AList.update p (Regular mode []) ns)
     | Some (Directory _) \<Rightarrow> (Inl (OsError ''Is a directory (os error 21)''), ns)
     | Some SocketNode \<Rightarrow> (Inl (OsError ''No such device or address (os error 6)''), ns)
     | Some _ \<Rightarrow> (Inr (), ns))"

definition set_private_iso_permissions :: "'w host_os \<Rightarrow> string \<Rightarrow> ('w, unit) store" where
  "set_private_iso_permissions os p = io_lsw (set_permissions os p 0x180)"

definition validate_destination :: "'w host_os \<Rightarrow> string \<Rightarrow> ('w, unit) store" where
  "validate_destination os p =
     io_bind (io_attempt (symlink_metadata os p)) (\<lambda>r.
     case r of
       Inr metadata \<Rightarrow>
         if metadata = Symlink
         then io_fail (InvalidValue ''ISO destination'' [Disp (path_display p), Text '' must not be a symbolic link''])
         else if \<not> is_regular metadata
         then io_fail (InvalidValue ''ISO destination'' [Disp (path_display p), Text '' is not a regular file''])
         else io_return ()
     | Inl e \<Rightarrow> if e = NotFound then io_return () else io_fail (LswIo e))"

definition validate_partial_file :: "'w host_os \<Rightarrow> string \<Rightarrow> ('w, unit) store" where
  "validate_partial_file os p =
     io_bind (io_attempt (symlink_metadata os p)) (\<lambda>r.
     case r of
       Inr metadata \<Rightarrow>
         if is_regular metadata then io_return ()
         else io_fail (InvalidValue ''ISO partial download'' [Disp (path_display p), Text '' is not a regular file''])
     | Inl e \<Rightarrow> if e = NotFound then io_return () else io_fail (LswIo e))"

definition partial_file_length :: "'w host_os \<Rightarrow> string \<Rightarrow> u64 \<Rightarrow> ('w, u64) store" where
  "partial_file_length os p expected =
     io_bind (io_attempt (symlink_metadata os p)) (\<lambda>r.
     case r of
       Inr metadata \<Rightarrow>
         if is_regular metadata \<and> node_len metadata \<le> unat expected then io_return (word_of_nat (node_len metadata))
         else if metadata = Symlink
         then io_fail (InvalidValue ''ISO range part'' [Disp (path_display p), Text '' must not be a symbolic link''])
         else io_fail (InvalidValue ''ISO range part'' [Disp (path_display p), Text '' has an invalid type or size''])
     | Inl e \<Rightarrow> if e = NotFound then io_return 0 else io_fail (LswIo e))"

definition utf8_file_name :: "string \<Rightarrow> string option" where
  "utf8_file_name p = (case path_file_name p of Some name \<Rightarrow> if utf8_valid name then Some name else None | None \<Rightarrow> None)"

definition download_temporary_path :: "string \<Rightarrow> LswError + string" where
  "download_temporary_path destination =
     and_then (ok_or (utf8_file_name destination)
       (InvalidValue ''ISO destination'' [Text ''filename must be valid UTF-8''])) (\<lambda>filename.
     Inr (with_file_name destination (''.'' @ filename @ ''.lsw-download'')))"

definition sidecar_path :: "string \<Rightarrow> string \<Rightarrow> LswError + string" where
  "sidecar_path p ending =
     and_then (ok_or (utf8_file_name p)
       (InvalidValue ''ISO partial download'' [Text ''filename must be valid UTF-8''])) (\<lambda>filename.
     Inr (with_file_name p (filename @ ''.'' @ ending)))"

definition part_suffix :: "nat \<Rightarrow> string" where
  "part_suffix i = ''part'' @ decimal i"

definition remove_private_regular_file :: "'w host_os \<Rightarrow> string \<Rightarrow> ('w, unit) store" where
  "remove_private_regular_file os p =
     io_bind (io_attempt (symlink_metadata os p)) (\<lambda>r.
     case r of
       Inr metadata \<Rightarrow>
         if is_regular metadata then io_lsw (unlink_file os p)
         else io_fail (InvalidValue ''ISO partial download'' [Text ''refusing to remove non-regular '', Disp (path_display p)])
     | Inl e \<Rightarrow> if e = NotFound then io_return () else io_fail (LswIo e))"

definition remove_sidecar :: "'w host_os \<Rightarrow> string \<Rightarrow> string \<Rightarrow> ('w, unit) store" where
  "remove_sidecar os temporary ending =
     (case sidecar_path temporary ending of
        Inr p \<Rightarrow> io_ignore (remove_private_regular_file os p)
      | Inl _ \<Rightarrow> io_return ())"

definition cleanup_download_sidecars :: "'w host_os \<Rightarrow> string \<Rightarrow> ('w, unit) store" where
  "cleanup_download_sidecars os temporary =
     io_bind (io_for (\<lambda>i. remove_sidecar os temporary (part_suffix i)) [0..<MAX_CDN_CONNECTIONS]) (\<lambda>_.
     io_for (remove_sidecar os temporary) [''assembling'', ''aria2''])"

definition create_private_truncated_file :: "'w host_os \<Rightarrow> string \<Rightarrow> ('w, unit) store" where
  "create_private_truncated_file os p =
     io_bind (validate_partial_file os p) (\<lambda>_.
     io_bind (io_lsw (open_assembly os p)) (\<lambda>_.
     set_private_iso_permissions os p))"


subsection \<open>Digests\<close>

fun hash_chunks :: "'w host_os \<Rightarrow> 'w on_progress \<Rightarrow> string \<Rightarrow> nat \<Rightarrow> nat \<Rightarrow> string list \<Rightarrow> ('w, unit) store" where
  "hash_chunks os on_progress p total_bytes completed [] = io_lsw (read_more os p)"
| "hash_chunks os on_progress p total_bytes completed (c # cs) =
     io_bind (io_lsw (read_more os p)) (\<lambda>_.
     io_bind (progress on_progress Verifying (Some (completed + length c)) (Some total_bytes)) (\<lambda>_.
     hash_chunks os on_progress p total_bytes (completed + length c) cs))"

definition sha256_file_with_progress :: "'w iso_os \<Rightarrow> 'w on_progress \<Rightarrow> string \<Rightarrow> ('w, string) store" where
  "sha256_file_with_progress os on_progress p =
     io_bind (require_regular_file (iso_fs os) p ''SHA-256 input'') (\<lambda>_.
     io_bind (io_lsw (symlink_metadata (iso_fs os) p)) (\<lambda>metadata.
     io_bind (io_lsw (open_read (iso_fs os) p)) (\<lambda>_.
     io_bind (progress on_progress Verifying (Some 0) (Some (node_len metadata))) (\<lambda>_.
     io_bind (io_lsw (read_file (iso_fs os) p)) (\<lambda>contents.
     io_bind (hash_chunks (iso_fs os) on_progress p (node_len metadata) 0 (chunks contents)) (\<lambda>_.
     io_return (hex_bytes (iso_sha256 os contents))))))))"

definition sha256_file :: "'w iso_os \<Rightarrow> string \<Rightarrow> ('w, string) store" where
  "sha256_file os = sha256_file_with_progress os (\<lambda>_ w. w)"

definition existing_verified_iso ::
  "'w iso_os \<Rightarrow> 'w on_progress \<Rightarrow> string \<Rightarrow> ResolvedWindowsIso \<Rightarrow> IsoDownloadEngine \<Rightarrow> ('w, IsoDownloadReport option) store" where
  "existing_verified_iso os on_progress destination resolved engine =
     io_bind (io_attempt (symlink_metadata (iso_fs os) destination)) (\<lambda>r.
     case r of
       Inl e \<Rightarrow> if e = NotFound then io_return None else io_fail (LswIo e)
     | Inr metadata \<Rightarrow>
         if \<not> is_regular metadata
         then io_fail (InvalidValue ''ISO destination'' [Disp (path_display destination), Text '' is not a regular file''])
         else io_bind (sha256_file_with_progress os on_progress destination) (\<lambda>actual.
              if \<not> eq_ignore_ascii_case actual (ri_expected_sha256 resolved)
              then io_fail (InvalidValue ''ISO destination'' [Disp (path_display destination),
                     Text '' already exists but its SHA-256 does not match Microsoft's expected hash''])
              else io_return (Some \<lparr>rp_destination = destination, rp_engine = engine, rp_bytes = node_len metadata,
                     rp_sha256 = actual, rp_resolutions = 1\<rparr>)))"

definition ensure_same_iso :: "ResolvedWindowsIso \<Rightarrow> ResolvedWindowsIso \<Rightarrow> LswError + unit" where
  "ensure_same_iso initial refreshed =
     (if ri_product_id initial = ri_product_id refreshed \<and> ri_sku_id initial = ri_sku_id refreshed
         \<and> ri_filename initial = ri_filename refreshed
         \<and> eq_ignore_ascii_case (ri_expected_sha256 initial) (ri_expected_sha256 refreshed)
      then Inr ()
      else Inl (InvalidValue ''Microsoft ISO refresh''
        [Text ''Microsoft changed the selected ISO while refreshing an expired URL; refusing to combine downloads'']))"

definition promote_download :: "'w host_os \<Rightarrow> string \<Rightarrow> string \<Rightarrow> ('w, unit) store" where
  "promote_download os temporary destination =
     io_bind (require_regular_file os temporary ''completed ISO download'') (\<lambda>_.
     io_bind (set_private_iso_permissions os temporary) (\<lambda>_.
     io_bind (io_attempt (hard_link os temporary destination)) (\<lambda>r.
     case r of
       Inr _ \<Rightarrow> io_lsw (unlink_file os temporary)
     | Inl e \<Rightarrow>
         if e = AlreadyExists
         then io_fail (InvalidValue ''ISO destination'' [Disp (path_display destination),
                Text '' appeared while the ISO was downloading; refusing to overwrite it''])
         else io_fail (LswIo e))))"


subsection \<open>The program aria2c\<close>

definition aria2_arguments :: "string list" where
  "aria2_arguments =
     [''--input-file=-'', ''--continue=true'', ''--max-connection-per-server=4'', ''--split=4'', ''--min-split-size=16M'',
      ''--max-tries=2'', ''--retry-wait=2'', ''--connect-timeout=20'', ''--timeout=60'', ''--file-allocation=none'',
      ''--allow-overwrite=false'', ''--auto-file-renaming=false'', ''--console-log-level=warn'', ''--summary-interval=0'',
      ''--quiet=true'']"

definition download_with_aria2 ::
  "'w iso_os \<Rightarrow> 'w on_progress \<Rightarrow> string \<Rightarrow> ResolvedWindowsIso \<Rightarrow> string \<Rightarrow> ('w, unit) store" where
  "download_with_aria2 os on_progress aria2c resolved temporary =
     io_bind (io_of (validate_microsoft_cdn_url (ri_download_url resolved))) (\<lambda>_.
     io_bind (io_of (ok_or (path_parent temporary)
       (InvalidValue ''ISO download'' [Text ''temporary destination has no parent'']))) (\<lambda>parent.
     io_bind (io_of (ok_or (path_file_name temporary)
       (InvalidValue ''ISO download'' [Text ''temporary destination has no filename'']))) (\<lambda>filename.
     if \<not> utf8_valid filename
     then io_fail (InvalidValue ''ISO download'' [Text ''aria2 requires a UTF-8 destination filename''])
     else if list_ex (\<lambda>c. c \<in> {CR, NL}) filename
     then io_fail (InvalidValue ''ISO download'' [Text ''aria2 destination filename contains a line break''])
     else
     io_bind (validate_partial_file (iso_fs os) temporary) (\<lambda>_.
     io_bind (progress on_progress Transferring None None) (\<lambda>_.
     io_bind (io_lsw (\<lambda>h. Some (iso_run os aria2c aria2_arguments parent
       (url_text (ri_download_url resolved) @ [NL] @ ''  out='' @ filename @ [NL]) h))) (\<lambda>(status, heartbeats).
     io_bind (io_for (\<lambda>_. progress on_progress Transferring None None) [0..<heartbeats]) (\<lambda>_.
     if \<not> exit_success status then io_fail (ExternalCommandFailed aria2c (exit_code status))
     else require_regular_file (iso_fs os) temporary ''aria2 ISO download'')))))))"


subsection \<open>Ranges\<close>

record ByteRange =
  br_start :: u64
  br_end :: u64

definition range_len :: "ByteRange \<Rightarrow> u64" where
  "range_len bounds = br_end bounds - br_start bounds + 1"

definition u64_div_ceil :: "u64 \<Rightarrow> u64 \<Rightarrow> u64" where
  "u64_div_ceil a b = (if a mod b = 0 then a div b else a div b + 1)"

text \<open>
  Plain operators: a build with overflow checks panics where one without them wraps.  The code that
  calls \<open>split_ranges\<close> is modelled without them; \<open>split_ranges_checked\<close> is the same code with them.
\<close>

definition split_ranges :: "u64 \<Rightarrow> LswError + ByteRange list" where
  "split_ranges iso_len =
     (if iso_len = 0 then Inl (InvalidValue ''Windows ISO download'' [Text ''Microsoft CDN reported an empty file''])
      else let connections = unat (min iso_len (word_of_nat MAX_CDN_CONNECTIONS));
               chunk = u64_div_ceil iso_len (word_of_nat connections)
           in Inr (filter (\<lambda>bounds. br_start bounds \<le> br_end bounds)
                (map (\<lambda>index. let start = word_of_nat index * chunk
                              in \<lparr>br_start = start, br_end = min (start + chunk - 1) (iso_len - 1)\<rparr>)
                     [0..<connections])))"

definition checked_range :: "u64 \<Rightarrow> u64 \<Rightarrow> nat \<Rightarrow> (LswError, ByteRange) outcome" where
  "checked_range iso_len chunk i =
     out_bind (mul_word (word_of_nat i) chunk) (\<lambda>start.
     out_bind (add_word start chunk) (\<lambda>next_start.
     out_bind (sub_word next_start 1) (\<lambda>last_byte.
     out_bind (sub_word iso_len 1) (\<lambda>iso_end.
     Returns \<lparr>br_start = start, br_end = min last_byte iso_end\<rparr>))))"

definition split_ranges_checked :: "u64 \<Rightarrow> (LswError, ByteRange list) outcome" where
  "split_ranges_checked iso_len =
     (if iso_len = 0 then Fails (InvalidValue ''Windows ISO download'' [Text ''Microsoft CDN reported an empty file''])
      else let connections = unat (min iso_len (word_of_nat MAX_CDN_CONNECTIONS));
               chunk = u64_div_ceil iso_len (word_of_nat connections)
           in out_bind (collect_each (checked_range iso_len chunk) [0..<connections]) (\<lambda>ranges.
              Returns (filter (\<lambda>bounds. br_start bounds \<le> br_end bounds) ranges)))"

fun download_http_error :: "string \<Rightarrow> http_failure \<Rightarrow> LswError" where
  "download_http_error context' (HttpStatus status) =
     InvalidValue ''Windows ISO download'' [Text context', Text '': CDN returned HTTP '', Num status]"
| "download_http_error context' (HttpTransport kind) =
     InvalidValue ''Windows ISO download'' [Text context', Text '': network transport '', Disp kind]"

definition validate_final_cdn_response :: "'w iso_os \<Rightarrow> http_response \<Rightarrow> LswError + unit" where
  "validate_final_cdn_response os response =
     and_then (ok_or (iso_url_parse os (hr_url response))
       (InvalidValue ''Windows ISO download'' [Text ''Microsoft CDN returned an invalid final URL''])) validate_microsoft_cdn_url"

definition cdn_content_length :: "'w iso_os \<Rightarrow> Url \<Rightarrow> ('w, u64) store" where
  "cdn_content_length os url =
     io_bind (http_call os (download_http_error ''checking ISO size'') ''HEAD'' (url_text url)
       [(''User-Agent'', MICROSOFT_USER_AGENT)]) (\<lambda>response.
     io_bind (io_of (validate_final_cdn_response os response)) (\<lambda>_.
     io_of (ok_or (case Option.bind (http_header response ''Content-Length'') parse_u64 of
                     Some iso_len \<Rightarrow> if 0 < iso_len then Some iso_len else None | None \<Rightarrow> None)
       (InvalidValue ''Windows ISO download'' [Text ''Microsoft CDN returned no valid Content-Length'']))))"

text \<open>
  What reading a body with a limit gives: the chunks up to the limit, and an error when the body
  breaks off before it.
\<close>

fun limited :: "nat \<Rightarrow> string list \<Rightarrow> io_error option \<Rightarrow> string list \<times> io_error option" where
  "limited n [] ending = ([], if n = 0 then None else ending)"
| "limited n (c # cs) ending =
     (if n = 0 \<or> c = [] then ([], None)
      else let (rest, e) = limited (n - length (take n c)) cs ending in (take n c # rest, e))"

text \<open>The sizes a worker reports are returned beside its result.\<close>

fun append_chunks :: "'w host_os \<Rightarrow> string \<Rightarrow> string list \<Rightarrow> ('w host, LswError \<times> nat list, nat list) io" where
  "append_chunks os p [] = io_return []"
| "append_chunks os p (c # cs) =
     io_bind (io_map_error (\<lambda>e. (LswIo e, [])) (write_contents os p c)) (\<lambda>_.
     io_bind (io_map_error (\<lambda>(e, sent). (e, length c # sent)) (append_chunks os p cs)) (\<lambda>sent.
     io_return (length c # sent)))"

abbreviation unsent :: "('w, 'a) store \<Rightarrow> ('w host, LswError \<times> nat list, 'a) io" where
  "unsent \<equiv> io_map_error (\<lambda>e. (e, []))"

definition store_range_body ::
  "'w host_os \<Rightarrow> string \<Rightarrow> nat \<Rightarrow> string list \<times> io_error option \<Rightarrow> ('w host, LswError \<times> nat list, nat list) io" where
  "store_range_body os p remaining = (\<lambda>(body, broken).
     io_bind (unsent (io_lsw (open_part os p))) (\<lambda>_.
     io_bind (unsent (set_private_iso_permissions os p)) (\<lambda>_.
     io_bind (append_chunks os p body) (\<lambda>sent.
     case broken of
       Some e \<Rightarrow> io_fail (LswIo e, sent)
     | None \<Rightarrow>
         io_bind (io_map_error (\<lambda>e. (LswIo e, sent)) (sync_file os p)) (\<lambda>_.
         if sum_list sent \<noteq> remaining
         then io_fail (InvalidValue ''Windows ISO download''
                [Text ''Microsoft CDN range ended early (expected '', Num remaining, Text '' bytes, received '',
                 Num (sum_list sent), Text '')''], sent)
         else io_return sent)))))"

definition fetch_range ::
  "'w iso_os \<Rightarrow> Url \<Rightarrow> ByteRange \<Rightarrow> string \<Rightarrow> u64 \<Rightarrow> ('w host, LswError \<times> nat list, nat list) io" where
  "fetch_range os url bounds p existing =
     (let start = br_start bounds + existing;
          wanted = decimal (unat start) @ ''-'' @ decimal (unat (br_end bounds)) in
     io_bind (unsent (http_call os (download_http_error ''downloading an ISO range'') ''GET'' (url_text url)
       [(''User-Agent'', MICROSOFT_USER_AGENT), (''Accept-Encoding'', ''identity''), (''Range'', ''bytes='' @ wanted)])) (\<lambda>response.
     io_bind (unsent (io_of (validate_final_cdn_response os response))) (\<lambda>_.
     if hr_status response \<noteq> 206
     then unsent (io_fail (InvalidValue ''Windows ISO download''
            [Text ''Microsoft CDN did not honor a Range request (HTTP '', Num (hr_status response), Text '')'']))
     else if \<not> (case http_header response ''Content-Range'' of
                   Some s \<Rightarrow> starts_with s (''bytes '' @ wanted @ ''/'') | None \<Rightarrow> False)
     then unsent (io_fail (InvalidValue ''Windows ISO download'' [Text ''Microsoft CDN returned an unexpected Content-Range'']))
     else let remaining = unat (range_len bounds - existing) in
          store_range_body (iso_fs os) p remaining (limited (remaining + 1) (hr_body response) (hr_end response)))))"

definition download_range :: "'w iso_os \<Rightarrow> Url \<Rightarrow> ByteRange \<Rightarrow> string \<Rightarrow> ('w host, LswError \<times> nat list, nat list) io" where
  "download_range os url bounds p =
     io_bind (unsent (partial_file_length (iso_fs os) p (range_len bounds))) (\<lambda>existing.
     if existing = range_len bounds then io_return [] else fetch_range os url bounds p existing)"

fun run_workers :: "'w iso_os \<Rightarrow> Url \<Rightarrow> (ByteRange \<times> string) list \<Rightarrow> ('w, nat list \<times> LswError option) store" where
  "run_workers os url [] = io_return ([], None)"
| "run_workers os url ((bounds, p) # rest) =
     io_bind (io_attempt (download_range os url bounds p)) (\<lambda>r.
     io_bind (run_workers os url rest) (\<lambda>(sent, error).
     io_return (case r of
         Inr mine \<Rightarrow> (mine @ sent, error)
       | Inl (e, mine) \<Rightarrow> (mine @ sent, Some e))))"

fun transfer_progress :: "'w on_progress \<Rightarrow> u64 \<Rightarrow> u64 \<Rightarrow> nat list \<Rightarrow> ('w, unit) store" where
  "transfer_progress on_progress iso_len downloaded [] = io_return ()"
| "transfer_progress on_progress iso_len downloaded (n # ns) =
     (let downloaded = min (saturating_add downloaded (word_of_nat n)) iso_len in
      io_bind (progress on_progress Transferring (Some (unat downloaded)) (Some (unat iso_len))) (\<lambda>_.
      transfer_progress on_progress iso_len downloaded ns))"

fun assemble_chunks ::
  "'w host_os \<Rightarrow> 'w on_progress \<Rightarrow> string \<Rightarrow> string \<Rightarrow> u64 \<Rightarrow> u64 \<Rightarrow> string list \<Rightarrow> ('w, u64) store" where
  "assemble_chunks os on_progress p assembly iso_len assembled [] =
     io_bind (io_lsw (read_more os p)) (\<lambda>_. io_return assembled)"
| "assemble_chunks os on_progress p assembly iso_len assembled (c # cs) =
     io_bind (io_lsw (read_more os p)) (\<lambda>_.
     io_bind (io_lsw (write_contents os assembly c)) (\<lambda>_.
     let assembled = assembled + word_of_nat (length c) in
     io_bind (progress on_progress Assembling (Some (unat (min assembled iso_len))) (Some (unat iso_len))) (\<lambda>_.
     assemble_chunks os on_progress p assembly iso_len assembled cs)))"

fun assemble_parts ::
  "'w host_os \<Rightarrow> 'w on_progress \<Rightarrow> string \<Rightarrow> u64 \<Rightarrow> u64 \<Rightarrow> (ByteRange \<times> string) list \<Rightarrow> ('w, u64) store" where
  "assemble_parts os on_progress assembly iso_len assembled [] = io_return assembled"
| "assemble_parts os on_progress assembly iso_len assembled ((bounds, p) # rest) =
     io_bind (require_regular_file os p ''ISO range part'') (\<lambda>_.
     io_bind (io_lsw (symlink_metadata os p)) (\<lambda>metadata.
     if node_len metadata \<noteq> unat (range_len bounds)
     then io_fail (InvalidValue ''Windows ISO download'' [Text ''a completed range has the wrong size''])
     else io_bind (io_lsw (open_read os p)) (\<lambda>_.
          io_bind (io_lsw (read_file os p)) (\<lambda>contents.
          io_bind (assemble_chunks os on_progress p assembly iso_len assembled (chunks contents)) (\<lambda>assembled.
          assemble_parts os on_progress assembly iso_len assembled rest)))))"

definition replace_temporary :: "'w host_os \<Rightarrow> string \<Rightarrow> string \<Rightarrow> ('w, unit) store" where
  "replace_temporary os assembly temporary =
     io_bind (io_attempt (symlink_metadata os temporary)) (\<lambda>r.
     io_bind (case r of
         Inr _ \<Rightarrow> io_bind (validate_partial_file os temporary) (\<lambda>_. io_lsw (unlink_file os temporary))
       | Inl _ \<Rightarrow> io_return ()) (\<lambda>_.
     io_bind (io_lsw (rename_path os assembly temporary)) (\<lambda>_.
     set_private_iso_permissions os temporary)))"

definition assemble_iso ::
  "'w host_os \<Rightarrow> 'w on_progress \<Rightarrow> u64 \<Rightarrow> (ByteRange \<times> string) list \<Rightarrow> string \<Rightarrow> ('w, unit) store" where
  "assemble_iso os on_progress iso_len parts temporary =
     io_bind (io_of (sidecar_path temporary ''assembling'')) (\<lambda>assembly.
     io_bind (create_private_truncated_file os assembly) (\<lambda>_.
     io_bind (progress on_progress Assembling (Some 0) (Some (unat iso_len))) (\<lambda>_.
     io_bind (assemble_parts os on_progress assembly iso_len 0 parts) (\<lambda>assembled.
     if assembled \<noteq> iso_len
     then io_fail (InvalidValue ''Windows ISO download'' [Text ''assembled ISO has the wrong size''])
     else io_bind (io_lsw (sync_file os assembly)) (\<lambda>_.
          replace_temporary os assembly temporary)))))"

definition download_with_ranges ::
  "'w iso_os \<Rightarrow> 'w on_progress \<Rightarrow> ResolvedWindowsIso \<Rightarrow> string \<Rightarrow> ('w, unit) store" where
  "download_with_ranges os on_progress resolved temporary =
     io_bind (io_of (validate_microsoft_cdn_url (ri_download_url resolved))) (\<lambda>_.
     io_bind (cdn_content_length os (ri_download_url resolved)) (\<lambda>iso_len.
     io_bind (io_of (split_ranges iso_len)) (\<lambda>ranges.
     io_bind (io_of (collect_results (map (\<lambda>i. sidecar_path temporary (part_suffix i)) [0..<length ranges]))) (\<lambda>part_paths.
     let parts = zip ranges part_paths in
     io_bind (io_collect (\<lambda>(bounds, p). partial_file_length (iso_fs os) p (range_len bounds)) parts) (\<lambda>present.
     let downloaded = sum_list present in
     io_bind (progress on_progress Transferring (Some (unat downloaded)) (Some (unat iso_len))) (\<lambda>_.
     io_bind (run_workers os (ri_download_url resolved) parts) (\<lambda>(sent, error).
     io_bind (transfer_progress on_progress iso_len downloaded sent) (\<lambda>_.
     case error of
       Some e \<Rightarrow> io_fail e
     | None \<Rightarrow> assemble_iso (iso_fs os) on_progress iso_len parts temporary))))))))"


subsection \<open>The download\<close>

record IsoDownloader =
  id_aria2c :: "string option"

definition iso_downloader_new :: "HostCapabilities \<Rightarrow> IsoDownloader" where
  "iso_downloader_new capabilities = \<lparr>id_aria2c = hc_aria2c capabilities\<rparr>"

definition download_engine :: "IsoDownloader \<Rightarrow> IsoDownloadEngine" where
  "download_engine downloader = (if id_aria2c downloader \<noteq> None then Aria2 else Native)"

definition download_attempt ::
  "'w iso_os \<Rightarrow> 'w on_progress \<Rightarrow> IsoDownloader \<Rightarrow> ResolvedWindowsIso \<Rightarrow> string \<Rightarrow> ('w, unit) store" where
  "download_attempt os on_progress downloader resolved temporary =
     (case id_aria2c downloader of
        Some aria2c \<Rightarrow> download_with_aria2 os on_progress aria2c resolved temporary
      | None \<Rightarrow> download_with_ranges os on_progress resolved temporary)"

definition finish_download ::
  "'w iso_os \<Rightarrow> 'w on_progress \<Rightarrow> IsoDownloadEngine \<Rightarrow> ResolvedWindowsIso \<Rightarrow> string \<Rightarrow> string \<Rightarrow> nat
     \<Rightarrow> ('w, IsoDownloadReport) store" where
  "finish_download os on_progress engine resolved temporary destination attempt =
     io_bind (sha256_file_with_progress os on_progress temporary) (\<lambda>actual.
     if \<not> eq_ignore_ascii_case actual (ri_expected_sha256 resolved)
     then io_fail (InvalidValue ''Windows ISO SHA-256''
            [Text ''downloaded ISO hash '', Disp actual, Text '' does not match Microsoft's expected '', Disp (ri_expected_sha256 resolved)])
     else io_bind (io_lsw (symlink_metadata (iso_fs os) temporary)) (\<lambda>metadata.
          io_bind (promote_download (iso_fs os) temporary destination) (\<lambda>_.
          io_bind (cleanup_download_sidecars (iso_fs os) temporary) (\<lambda>_.
          io_return \<lparr>rp_destination = destination, rp_engine = engine, rp_bytes = node_len metadata,
            rp_sha256 = actual, rp_resolutions = attempt + 1\<rparr>))))"

text \<open>The attempts; each but the first asks for a new address.\<close>

fun download_attempts ::
  "'w iso_os \<Rightarrow> 'w on_progress \<Rightarrow> IsoDownloader \<Rightarrow> MicrosoftIsoRequest \<Rightarrow> ResolvedWindowsIso \<Rightarrow> string \<Rightarrow> string
     \<Rightarrow> LswError option \<Rightarrow> nat list \<Rightarrow> ('w, IsoDownloadReport) store" where
  "download_attempts os on_progress downloader request initial temporary destination last_error [] =
     io_fail (case last_error of Some e \<Rightarrow> e
       | None \<Rightarrow> InvalidValue ''Windows ISO download'' [Text ''download failed without an error''])"
| "download_attempts os on_progress downloader request initial temporary destination last_error (attempt # attempts) =
     io_bind (if 0 < attempt
              then io_bind (resolve os request) (\<lambda>resolved.
                   io_bind (io_of (ensure_same_iso initial resolved)) (\<lambda>_. io_return resolved))
              else io_return initial) (\<lambda>resolved.
     io_bind (io_attempt (download_attempt os on_progress downloader resolved temporary)) (\<lambda>r.
     case r of
       Inr _ \<Rightarrow> finish_download os on_progress (download_engine downloader) resolved temporary destination attempt
     | Inl e \<Rightarrow> download_attempts os on_progress downloader request initial temporary destination (Some e) attempts))"

definition download_resolved_with_progress ::
  "'w iso_os \<Rightarrow> 'w on_progress \<Rightarrow> IsoDownloader \<Rightarrow> MicrosoftIsoRequest \<Rightarrow> ResolvedWindowsIso \<Rightarrow> string
     \<Rightarrow> ('w, IsoDownloadReport) store" where
  "download_resolved_with_progress os on_progress downloader request initial destination =
     io_bind (io_of (ok_or (path_parent destination)
       (InvalidValue ''ISO destination'' [Text ''destination has no parent directory'']))) (\<lambda>parent.
     io_bind (require_real_directory (iso_fs os) parent ''ISO destination directory'') (\<lambda>_.
     io_bind (validate_destination (iso_fs os) destination) (\<lambda>_.
     io_bind (existing_verified_iso os on_progress destination initial (download_engine downloader)) (\<lambda>existing.
     case existing of
       Some report \<Rightarrow> io_return report
     | None \<Rightarrow>
         io_bind (io_of (download_temporary_path destination)) (\<lambda>temporary.
         download_attempts os on_progress downloader request initial temporary destination None [0..<MAX_DOWNLOAD_ATTEMPTS])))))"

definition download_resolved ::
  "'w iso_os \<Rightarrow> IsoDownloader \<Rightarrow> MicrosoftIsoRequest \<Rightarrow> ResolvedWindowsIso \<Rightarrow> string \<Rightarrow> ('w, IsoDownloadReport) store" where
  "download_resolved os = download_resolved_with_progress os (\<lambda>_ w. w)"

definition download_iso ::
  "'w iso_os \<Rightarrow> IsoDownloader \<Rightarrow> MicrosoftIsoRequest \<Rightarrow> string \<Rightarrow> ('w, IsoDownloadReport) store" where
  "download_iso os downloader request destination =
     io_bind (resolve os request) (\<lambda>initial. download_resolved os downloader request initial destination)"

end
