(* ===== verification/Iso_Verified.thy ===== *)
theory Iso_Verified
  imports Iso_Download
begin

text \<open>
  What a download guarantees: the ranges cover the medium exactly, the destination only ever gets
  contents with the published digest, and parts that are left behind stay usable.
\<close>

section \<open>Ranges\<close>

lemma concat_ranges:
  assumes "0 < c"
  shows "concat (map (\<lambda>i. [i * c..<min (i * c + c) n]) (filter (\<lambda>i. i * c < n) [0..<k])) = [0..<min (k * c) n]"
proof (induction k)
  case (Suc k)
  have "[0..<k * c] @ [k * c..<min (k * c + c) n] = [0..<min (c + k * c) n]" if "k * c < n"
    using upt_add_eq_append [of 0 "k * c" "min (k * c + c) n - k * c"] that by (simp add: add.commute)
  with Suc show ?case by simp
qed simp

definition covered :: "ByteRange \<Rightarrow> nat list" where
  "covered bounds = [unat (br_start bounds)..<Suc (unat (br_end bounds))]"

definition nat_div_ceil :: "nat \<Rightarrow> nat \<Rightarrow> nat" where
  "nat_div_ceil a b = (if a mod b = 0 then a div b else a div b + 1)"

lemma nat_div_ceil_bounds:
  assumes "0 < b" and "0 < a"
  shows "a \<le> b * nat_div_ceil a b" "b * nat_div_ceil a b < a + b" "0 < nat_div_ceil a b"
proof -
  define q m where "q = a div b" and "m = a mod b"
  have "a = b * q + m" "m < b" "m = 0 \<Longrightarrow> 0 < q"
    using assms by (simp_all add: q_def m_def div_greater_zero_iff dvd_imp_le mod_eq_0_iff_dvd)
  then show "a \<le> b * nat_div_ceil a b" "b * nat_div_ceil a b < a + b" "0 < nat_div_ceil a b"
    unfolding nat_div_ceil_def q_def [symmetric] m_def [symmetric] by (auto simp: algebra_simps)
qed

lemma div_ceil_words: "u64_div_ceil a b = word_of_nat (nat_div_ceil (unat a) (unat b))"
  by (simp add: u64_div_ceil_def nat_div_ceil_def word_arith_nat_div unat_mod flip: unat_eq_zero)

text \<open>The bounds of the range with a given index, without a wrap.\<close>

lemma split_ranges_words:
  assumes "0 < n" and "n < 2 ^ 64" and "i < min n 4" and "iso_len = (word_of_nat n :: u64)"
  defines "c \<equiv> nat_div_ceil n (min n 4)"
  defines "start \<equiv> word_of_nat i * (word_of_nat c :: u64)"
  shows "unat start = i * c" "unat (min (start + word_of_nat c - 1) (iso_len - 1)) = min (i * c + c - 1) (n - 1)"
proof -
  have c: "0 < c" "min n 4 * c < n + min n 4"
    using nat_div_ceil_bounds [of "min n 4" n] assms(1) by (auto simp: c_def)
  have "i * c + c \<le> min n 4 * c" using mult_le_mono1 [of "Suc i" "min n 4" c] assms(3) by simp
  moreover have "min n 4 * c \<le> 2 ^ 64"
  proof (cases "n < 4")
    case False
    then have "4 * c < n + 4" using c(2) by simp
    with assms(2) have "c \<le> 2 ^ 62" by simp
    with False show ?thesis by simp
  qed (use c(2) in simp)
  ultimately have small: "i * c + c - 1 < 2 ^ 64" using c(1) by linarith
  show "unat start = i * c" unfolding start_def using small c(1)
    by (simp add: unat_word_of_nat_less flip: of_nat_mult)
  have "start + word_of_nat c - 1 = word_of_nat (i * c + c - 1)" using c(1) by (simp add: start_def of_nat_diff)
  moreover have "iso_len - 1 = word_of_nat (n - 1)" using assms(1,4) by (simp add: of_nat_diff)
  ultimately show "unat (min (start + word_of_nat c - 1) (iso_len - 1)) = min (i * c + c - 1) (n - 1)"
    using small assms(2) by (simp add: min_def word_le_nat_alt unat_word_of_nat_less)
qed

lemma ranges_cover:
  assumes "iso_len \<noteq> 0"
  shows "\<exists>ranges. split_ranges iso_len = Inr ranges \<and> ranges \<noteq> [] \<and> length ranges \<le> 4
    \<and> concat (map covered ranges) = [0..<unat iso_len]"
proof -
  define n where "n = unat iso_len"
  let ?k = "min n 4"
  define c where "c = nat_div_ceil n ?k"
  have n: "0 < n" "n < 2 ^ 64" and len: "iso_len = word_of_nat n"
    using assms unsigned_less [of iso_len, where 'a = nat] by (simp_all add: n_def unat_gt_0)
  have c: "0 < c" "n \<le> ?k * c" using nat_div_ceil_bounds [of ?k n] n(1) by (simp_all add: c_def)
  define bounds_of where "bounds_of i = (let start = word_of_nat i * word_of_nat c
      in \<lparr>br_start = start, br_end = min (start + word_of_nat c - 1) (iso_len - 1)\<rparr>)" for i
  have bounds: "unat (br_start (bounds_of i)) = i * c" "unat (br_end (bounds_of i)) = min (i * c + c - 1) (n - 1)" if "i < ?k" for i
    using split_ranges_words [OF n that len] by (simp_all add: bounds_of_def Let_def c_def)
  let ?is = "filter (\<lambda>i. i * c < n) [0..<?k]"
  have "unat (min iso_len (word_of_nat MAX_CDN_CONNECTIONS)) = ?k"
    by (simp add: MAX_CDN_CONNECTIONS_def min_def word_le_nat_alt n_def)
  then have "split_ranges iso_len = Inr (filter (\<lambda>b. br_start b \<le> br_end b) (map bounds_of [0..<?k]))"
    using assms n unfolding split_ranges_def by (simp add: div_ceil_words unat_word_of_nat_less n_def [symmetric] c_def bounds_of_def [abs_def] Let_def)
  also have "filter (\<lambda>b. br_start b \<le> br_end b) (map bounds_of [0..<?k]) = map bounds_of ?is"
    unfolding filter_map using bounds c(1) n(1) by (intro arg_cong [where f = "map bounds_of"] filter_cong) (auto simp: word_le_nat_alt)
  finally have "split_ranges iso_len = Inr (map bounds_of ?is)" .
  moreover have "concat (map covered (map bounds_of ?is)) = concat (map (\<lambda>i. [i * c..<min (i * c + c) n]) ?is)"
  proof -
    have "covered (bounds_of i) = [i * c..<min (i * c + c) n]" if "i \<in> set ?is" for i
    proof -
      have "Suc (unat (br_end (bounds_of i))) = min (i * c + c) n" using that bounds(2) [of i] c(1) n(1) by (auto simp: min_def)
      then show ?thesis unfolding covered_def using that bounds(1) [of i] by (simp del: upt_Suc)
    qed
    then have "map covered (map bounds_of ?is) = map (\<lambda>i. [i * c..<min (i * c + c) n]) ?is" unfolding map_map by (intro map_cong) auto
    then show ?thesis by (rule arg_cong)
  qed
  moreover have "\<dots> = [0..<n]" using concat_ranges [OF c(1), of n ?k] c(2) by (simp add: min_def)
  moreover have "length ?is \<le> 4" using length_filter_le [of "\<lambda>i. i * c < n" "[0..<?k]"] by simp
  moreover have "?is \<noteq> []" using n(1) by (auto simp: filter_empty_conv intro!: bexI [of _ 0])
  ultimately show ?thesis unfolding n_def [symmetric] by auto
qed


text \<open>With overflow checks, the end of the last range is out of reach for the three greatest lengths.\<close>

lemma checked_range_wraps:
  assumes "iso_len \<noteq> 0" and "i * unat chunk + unat chunk < 2 ^ 64" and "0 < unat chunk"
  shows "checked_range iso_len chunk i = Returns (let start = word_of_nat i * chunk
    in \<lparr>br_start = start, br_end = min (start + chunk - 1) (iso_len - 1)\<rparr>)"
proof -
  have "i \<le> i * unat chunk" using assms(3) by simp
  then have "i < 2 ^ 64" using assms(2) by linarith
  then have i: "unat (word_of_nat i :: u64) = i" by (simp add: unat_word_of_nat_less)
  have start: "unat (word_of_nat i * chunk) = i * unat chunk"
    using assms(2) i by (subst unat_mult_lem [THEN iffD1]) auto
  have "unat (word_of_nat i * chunk + chunk) = i * unat chunk + unat chunk"
    using assms(2) start by (subst unat_add_lem [THEN iffD1]) auto
  with assms i start show ?thesis
    by (simp add: checked_range_def mul_word_def add_word_def sub_word_def Let_def word_le_nat_alt Suc_le_eq flip: unat_gt_0)
qed

lemma checked_range_overflows:
  assumes "i < 2 ^ 64" and "2 ^ 64 \<le> i * unat chunk + unat chunk"
  shows "checked_range iso_len chunk i = Panics"
proof (cases "unat (word_of_nat i :: u64) * unat chunk < 2 ^ 64")
  case True
  then have "unat (word_of_nat i * chunk) = i * unat chunk"
    using assms(1) by (subst unat_mult_lem [THEN iffD1]) (auto simp: unat_word_of_nat_less)
  with True assms(2) show ?thesis by (simp add: checked_range_def mul_word_def add_word_def)
qed (simp add: checked_range_def mul_word_def)

lemma ranges_checked:
  assumes "iso_len \<noteq> 0" and "split_ranges iso_len = Inr ranges"
  shows "split_ranges_checked iso_len = (if unat iso_len \<le> 2 ^ 64 - 4 then Returns ranges else Panics)"
proof -
  define n where "n = unat iso_len"
  let ?k = "min n 4"
  define chunk where "chunk = u64_div_ceil iso_len (word_of_nat ?k)"
  define bounds_of where "bounds_of i = (let start = word_of_nat i * chunk
      in \<lparr>br_start = start, br_end = min (start + chunk - 1) (iso_len - 1)\<rparr>)" for i
  have n: "0 < n" "n < 2 ^ 64" using assms(1) unsigned_less [of iso_len, where 'a = nat] by (simp_all add: n_def unat_gt_0)
  have k: "unat (min iso_len (word_of_nat MAX_CDN_CONNECTIONS)) = ?k"
    by (simp add: MAX_CDN_CONNECTIONS_def min_def word_le_nat_alt n_def)
  have c: "n \<le> ?k * unat chunk" "?k * unat chunk < n + ?k" "0 < unat chunk"
  proof -
    have "nat_div_ceil n ?k < 2 ^ 64"
    proof (cases "n < 4")
      case True
      then have "?k = n" by simp
      then show ?thesis using n(1) by (simp add: nat_div_ceil_def)
    next
      case False
      then have "?k = 4" by simp
      then show ?thesis using n nat_div_ceil_bounds(2) [of 4 n] by simp
    qed
    then have "unat chunk = nat_div_ceil n ?k" by (simp add: chunk_def div_ceil_words unat_word_of_nat_less n_def)
    then show "n \<le> ?k * unat chunk" "?k * unat chunk < n + ?k" "0 < unat chunk"
      using nat_div_ceil_bounds [of ?k n] n(1) by simp_all
  qed
  have ok: "checked_range iso_len chunk i = Returns (bounds_of i)" if "Suc i * unat chunk < 2 ^ 64" for i
    unfolding bounds_of_def using that by (intro checked_range_wraps [OF assms(1) _ c(3)]) simp
  have ranges: "ranges = filter (\<lambda>b. br_start b \<le> br_end b) (map bounds_of [0..<?k])"
    using assms unfolding split_ranges_def k chunk_def [symmetric] bounds_of_def [abs_def] Let_def by simp
  have checked: "split_ranges_checked iso_len = out_bind (collect_each (checked_range iso_len chunk) [0..<?k])
      (\<lambda>ranges. Returns (filter (\<lambda>b. br_start b \<le> br_end b) ranges))"
    unfolding split_ranges_checked_def k chunk_def [symmetric] Let_def using assms(1) by simp
  show ?thesis
  proof (cases "n \<le> 2 ^ 64 - 4")
    case True
    have "Suc i * unat chunk < 2 ^ 64" if "i < ?k" for i
    proof -
      have "Suc i * unat chunk \<le> ?k * unat chunk" using that by (intro mult_le_mono1) simp
      also note c(2)
      also have "n + ?k \<le> 2 ^ 64" using True by simp
      finally show ?thesis .
    qed
    then have "collect_each (checked_range iso_len chunk) [0..<?k] = Returns (map bounds_of [0..<?k])"
      by (intro collect_each_Returns ok) simp
    with True checked ranges show ?thesis by (simp add: n_def)
  next
    case False
    then have four: "?k = 4" by simp
    have "n \<le> 4 * unat chunk" "4 * unat chunk < n + 4" using c(1,2) unfolding four by simp_all
    then have chunk: "unat chunk = 2 ^ 62" using False n(2) by simp
    have "[0..<4 :: nat] = [0..<3] @ 3 # []" by (simp add: upt_rec)
    moreover have "collect_each (checked_range iso_len chunk) ([0..<3] @ 3 # []) = Panics"
      by (rule collect_each_Panics [where g = bounds_of]) (auto intro!: ok checked_range_overflows simp: chunk)
    ultimately show ?thesis using False checked four by (simp add: n_def)
  qed
qed

text \<open>
  C34: a medium of any length that a \<open>u64\<close> can state is split into at most four ranges that cover each
  of its bytes exactly once and in order.  Up to a length of \<open>2 ^ 64 - 4\<close> no operation overflows, so that a
  build with overflow checks gives the same ranges.  For the three greater lengths the sum \<open>start + chunk\<close>
  of the last range overflows: a build with the checks panics, and one without them wraps twice and still
  gives the ranges.
\<close>

theorem split_ranges_cover:
  assumes "iso_len \<noteq> 0"
  shows "\<exists>ranges. split_ranges iso_len = Inr ranges \<and> ranges \<noteq> [] \<and> length ranges \<le> 4
    \<and> concat (map covered ranges) = [0..<unat iso_len]
    \<and> split_ranges_checked iso_len = (if unat iso_len \<le> 2 ^ 64 - 4 then Returns ranges else Panics)"
  using ranges_cover [OF assms] ranges_checked [OF assms] by metis

theorem split_ranges_cover_witness:
  "(\<exists>ranges. split_ranges (- 4) = Inr ranges \<and> concat (map covered ranges) = [0..<unat (- 4 :: u64)]
     \<and> split_ranges_checked (- 4) = Returns ranges)
   \<and> split_ranges_checked (- 3) = Panics"
proof -
  have "unat (- 4 :: u64) = 2 ^ 64 - 4" "unat (- 3 :: u64) = 2 ^ 64 - 3" by simp_all
  with split_ranges_cover [of "- 4"] split_ranges_cover [of "- 3"] show ?thesis by auto
qed


section \<open>Names\<close>

lemma sidecar_file_name:
  assumes "sidecar_path t ending = Inr p" and "path_file_name t = Some f" and "CHR ''/'' \<notin> set ending" and "2 < length ending"
  shows "path_file_name p = Some (f @ ''.'' @ ending)"
  using assms file_name_component [OF assms(2)]
  by (auto simp: sidecar_path_def utf8_file_name_def ok_iff split: if_splits intro!: file_name_with component_long)

lemma temporary_file_name:
  assumes "download_temporary_path destination = Inr t"
  obtains f where "path_file_name destination = Some f" "path_file_name t = Some (''.'' @ f @ ''.lsw-download'')"
proof -
  from assms obtain f where f: "path_file_name destination = Some f" "t = with_file_name destination (''.'' @ f @ ''.lsw-download'')"
    by (auto simp: download_temporary_path_def utf8_file_name_def ok_iff split: option.splits if_splits)
  moreover from f(1) have "component (''.'' @ f @ ''.lsw-download'')"
    by (intro component_long) (auto dest: file_name_component)
  ultimately show thesis using that by (simp add: file_name_with)
qed

text \<open>The files of a download have names of their own.\<close>

lemma temporary_apart: "download_temporary_path destination = Inr t \<Longrightarrow> t \<noteq> destination"
  by (erule temporary_file_name) auto

lemma sidecar_apart:
  assumes "download_temporary_path destination = Inr t" and "sidecar_path t ending = Inr p"
    and "CHR ''/'' \<notin> set ending" and "2 < length ending"
  shows "p \<noteq> destination" "p \<noteq> t"
proof -
  obtain f where f: "path_file_name destination = Some f" "path_file_name t = Some (''.'' @ f @ ''.lsw-download'')"
    using assms(1) by (rule temporary_file_name)
  have "path_file_name p = Some ((''.'' @ f @ ''.lsw-download'') @ ''.'' @ ending)"
    using assms(2) f(2) assms(3,4) by (rule sidecar_file_name)
  with f show "p \<noteq> destination" "p \<noteq> t" by (auto dest: arg_cong [where f = length])
qed

lemma suffixes_plain:
  "CHR ''/'' \<notin> set (part_suffix i)" "2 < length (part_suffix i)"
  "CHR ''/'' \<notin> set ''assembling''" "2 < length ''assembling''" "CHR ''/'' \<notin> set ''aria2''" "2 < length ''aria2''"
  using decimal_no_slash [of i] by (simp_all add: part_suffix_def)


section \<open>Outcomes of the calls\<close>

lemma post_read_more [fs_post]:
  assumes "\<And>e h'. unchanged h h' \<Longrightarrow> Q (Inl e) h'" and "\<And>h'. unchanged h h' \<Longrightarrow> Q (Inr ()) h'"
  shows "post (read_more os p) Q h"
  unfolding read_more_def by (rule post_read_only) (auto intro: assms)

lemma post_open_part [fs_post]:
  assumes "\<And>e h'. unchanged h h' \<Longrightarrow> Q (Inl e) h'"
    and "\<And>n h'. node_at h p = None \<and> n = Regular (ho_file_mode os) [] \<or> node_at h p = Some n \<Longrightarrow>
      leaves h ((node_at h)(p \<mapsto> n)) h' \<Longrightarrow> Q (Inr ()) h'"
  shows "post (open_part os p) Q h"
proof -
  have stays: "leaves h ((node_at h)(p \<mapsto> n)) \<lparr>h_nodes = h_nodes h, h_rest = w\<rparr>" if "node_at h p = Some n" for n w
    using leaves_updates(2) [of h w] that by (simp add: fun_upd_idem)
  show ?thesis
    unfolding open_part_def
    by (intro post_fs_run)
      (auto simp: node_at_def [symmetric] split: option.splits fs_node.splits
        intro: assms(1) leaves_updates(1,2) intro!: assms(2) [OF _ leaves_updates(3)] assms(2) [OF _ stays])
qed

fun emptied :: "fs_node \<Rightarrow> fs_node" where
  "emptied (Regular mode contents) = Regular mode []"
| "emptied n = n"

lemma post_open_assembly [fs_post]:
  assumes "\<And>e h'. unchanged h h' \<Longrightarrow> Q (Inl e) h'"
    and "\<And>n h'. node_at h p = None \<and> n = Regular (ho_file_mode os) [] \<or> (\<exists>m. node_at h p = Some m \<and> n = emptied m) \<Longrightarrow>
      leaves h ((node_at h)(p \<mapsto> n)) h' \<Longrightarrow> Q (Inr ()) h'"
  shows "post (open_assembly os p) Q h"
proof -
  have stays: "leaves h ((node_at h)(p \<mapsto> n)) \<lparr>h_nodes = h_nodes h, h_rest = w\<rparr>" if "node_at h p = Some n" for n w
    using leaves_updates(2) [of h w] that by (simp add: fun_upd_idem)
  show ?thesis
    unfolding open_assembly_def
    by (intro post_fs_run)
      (auto simp: node_at_def [symmetric] split: option.splits fs_node.splits
        intro: assms(1) leaves_updates(1,2) intro!: assms(2) [OF _ leaves_updates(3)] assms(2) [OF _ stays])
qed

lemma post_hard_link [fs_post]:
  assumes "\<And>e h'. unchanged h h' \<Longrightarrow> Q (Inl e) h'"
    and "\<And>n h'. node_at h p = Some n \<Longrightarrow> node_at h q = None \<Longrightarrow> leaves h ((node_at h)(q \<mapsto> n)) h' \<Longrightarrow> Q (Inr ()) h'"
  shows "post (hard_link os p q) Q h"
  unfolding hard_link_def
  by (rule post_fs_run) (auto intro: assms leaves_updates simp: node_at_def [symmetric] split: option.splits fs_node.splits)


section \<open>A file that is not touched\<close>

definition same_at :: "string \<Rightarrow> 'w host \<Rightarrow> 'w host \<Rightarrow> bool" where
  "same_at p h h' \<longleftrightarrow> node_at h' p = node_at h p"

interpretation spared: step_order "same_at p" for p
  by unfold_locales (auto simp: same_at_def)

named_theorems spared_calls \<open>calls that do not touch the file\<close>

lemma spared_looks [spared_calls]: "keeps unchanged m \<Longrightarrow> keeps (same_at q) m"
  by (auto simp: keeps_def post_iff same_at_def leaves_def)

lemma spared_fs [spared_calls]:
  assumes "p \<noteq> q"
  shows "keeps (same_at q) (open_part os p)" "keeps (same_at q) (open_assembly os p)"
    "keeps (same_at q) (set_permissions os p mode)" "keeps (same_at q) (write_contents os p s)"
    "keeps (same_at q) (unlink_file os p)"
    "r \<noteq> q \<Longrightarrow> keeps (same_at q) (rename_path os p r)"
  using assms by (auto intro!: keepsI fs_post simp: same_at_def leaves_def)

lemma looks_more: "keeps unchanged (read_more os p)" "keeps unchanged (progress on_progress stage c t)"
  by (auto intro!: keepsI fs_post simp: progress_def wp leaves_updates)

lemmas look_rules = looking.keeps_rules looks looks_more

lemma looks_checks:
  "keeps unchanged (require_regular_file os p field)" "keeps unchanged (require_real_directory os p field)"
  "keeps unchanged (validate_destination os p)" "keeps unchanged (validate_partial_file os p)"
  "keeps unchanged (partial_file_length os p n)"
  unfolding require_regular_file_def require_real_directory_def validate_destination_def validate_partial_file_def
    partial_file_length_def by (intro look_rules)+

lemma looks_hash: "keeps unchanged (hash_chunks os on_progress p n k cs)"
  by (induction os on_progress p n k cs rule: hash_chunks.induct) (unfold hash_chunks.simps, (intro look_rules | assumption)+)

lemma looks_sha256: "keeps unchanged (sha256_file_with_progress os on_progress p)"
  unfolding sha256_file_with_progress_def by (intro look_rules looks_checks looks_hash)

lemma looks_existing: "keeps unchanged (existing_verified_iso os on_progress p r engine)"
  unfolding existing_verified_iso_def by (intro look_rules looks_checks looks_sha256)

text \<open>The network and the programs that are run leave the file alone.\<close>

definition calls_aside :: "'w iso_os \<Rightarrow> string \<Rightarrow> bool" where
  "calls_aside os q \<longleftrightarrow> (\<forall>request url headers h. same_at q h (snd (iso_call os request url headers h)))"

definition aside :: "'w iso_os \<Rightarrow> string \<Rightarrow> bool" where
  "aside os q \<longleftrightarrow> calls_aside os q
     \<and> (\<forall>program arguments dir input h. same_at q h (snd (iso_run os program arguments dir input h)))"

lemma aside_calls: "aside os q \<Longrightarrow> calls_aside os q"
  by (simp add: aside_def)

lemma spared_http:
  assumes "calls_aside os q"
  shows "keeps (same_at q) (http_call os wrap request url headers)"
proof -
  have "keeps (same_at q) (\<lambda>h. Some (iso_call os request url headers h))"
    using assms by (simp add: calls_aside_def keeps_def post_def split_beta)
  then show ?thesis unfolding http_call_def by (rule spared.keeps_map_error)
qed

lemma spared_run: "aside os q \<Longrightarrow> keeps (same_at q) (\<lambda>h. Some (iso_run os program arguments dir input h))"
  by (simp add: aside_def keeps_def post_def split_beta)

lemma spared_looking:
  "keeps (same_at q) (symlink_metadata fs p)" "keeps (same_at q) (read_file fs p)" "keeps (same_at q) (open_read fs p)"
  "keeps (same_at q) (sync_file fs p)" "keeps (same_at q) (read_more fs p)" "keeps (same_at q) (progress on_progress stage c t)"
  "keeps (same_at q) (require_regular_file fs p field)" "keeps (same_at q) (validate_partial_file fs p)"
  "keeps (same_at q) (partial_file_length fs p n)" "keeps (same_at q) (os_try random)" "keeps (same_at q) (os_ask clock)"
proof -
  have "keeps unchanged (sync_file fs p)" "keeps unchanged (os_try random)" by (auto intro!: keepsI fs_post)
  then show "keeps (same_at q) (sync_file fs p)" "keeps (same_at q) (os_try random)" by (auto intro: spared_looks)
qed (rule spared_looks, rule looks looks_more looks_checks)+

text \<open>What follows a checked value may rely on the check.\<close>

lemma spared_checked: "(\<And>x. r = Inr x \<Longrightarrow> keeps (same_at q) (f x)) \<Longrightarrow> keeps (same_at q) (io_bind (io_of r) f)"
  by (cases r) (simp_all add: keeps_def post_def io_bind_def io_of_def same_at_def)

lemmas spared_rules = spared_checked spared.keeps_rules spared_looking

lemma spared_session_get: "calls_aside os q \<Longrightarrow> keeps (same_at q) (session_get os session url referer context')"
  unfolding session_get_def Let_def by (intro spared_rules spared_http)

lemma spared_resolve:
  assumes "aside os q"
  shows "keeps (same_at q) (resolve os request)"
  unfolding resolve_def session_new_def new_session_id_def session_register_def fetch_languages_def fetch_download_links_def
    fetch_catalog_def
  by (intro spared_rules spared_http spared_session_get aside_calls assms)

lemma spared_permissions: "p \<noteq> q \<Longrightarrow> keeps (same_at q) (set_private_iso_permissions fs p)"
  unfolding set_private_iso_permissions_def by (intro spared_rules spared_fs)

lemma spared_append_chunks: "p \<noteq> q \<Longrightarrow> keeps (same_at q) (append_chunks fs p cs)"
  by (induction fs p cs rule: append_chunks.induct) (unfold append_chunks.simps, (intro spared_rules spared_fs | assumption | simp)+)

lemma spared_download_range:
  assumes "calls_aside os q" and "p \<noteq> q"
  shows "keeps (same_at q) (download_range os url bounds p)"
  unfolding download_range_def fetch_range_def store_range_body_def Let_def
  by (intro spared_rules spared_http spared_fs spared_permissions spared_append_chunks assms)

lemma spared_run_workers:
  assumes "calls_aside os q" and "q \<notin> snd ` set parts"
  shows "keeps (same_at q) (run_workers os url parts)"
  using assms(2)
proof (induction parts)
  case (Cons part parts)
  obtain bounds p where "part = (bounds, p)" by (cases part)
  with Cons assms(1) show ?case
    by (auto intro!: spared_rules spared_download_range)
qed (simp add: spared_rules)

lemma spared_transfer_progress: "keeps (same_at q) (transfer_progress on_progress n k ns)"
  by (induction on_progress n k ns rule: transfer_progress.induct)
    (unfold transfer_progress.simps Let_def, (intro spared_rules | assumption | simp)+)

lemma spared_assemble_chunks: "a \<noteq> q \<Longrightarrow> keeps (same_at q) (assemble_chunks fs on_progress p a n k cs)"
  by (induction fs on_progress p a n k cs rule: assemble_chunks.induct)
    (unfold assemble_chunks.simps Let_def, (intro spared_rules spared_fs | assumption | simp)+)

lemma spared_assemble_parts: "a \<noteq> q \<Longrightarrow> keeps (same_at q) (assemble_parts fs on_progress a n k parts)"
proof (induction parts arbitrary: k)
  case (Cons part parts)
  obtain bounds p where "part = (bounds, p)" by (cases part)
  with Cons show ?case by (auto intro!: spared_rules spared_assemble_chunks)
qed (simp add: spared_rules)

lemma spared_replace: "a \<noteq> q \<Longrightarrow> t \<noteq> q \<Longrightarrow> keeps (same_at q) (replace_temporary fs a t)"
  unfolding replace_temporary_def by (intro spared_rules spared_fs spared_permissions)

lemma spared_remove_sidecar:
  assumes "\<And>p. sidecar_path t ending = Inr p \<Longrightarrow> p \<noteq> q"
  shows "keeps (same_at q) (remove_sidecar fs t ending)"
proof (cases "sidecar_path t ending")
  case (Inr p)
  with assms have "p \<noteq> q" by blast
  with Inr show ?thesis
    unfolding remove_sidecar_def remove_private_regular_file_def by (simp, intro spared_rules spared_fs)
qed (simp add: remove_sidecar_def spared_rules)

text \<open>Neither way of transferring the medium touches the destination.\<close>

lemma spared_attempt:
  assumes "aside os destination" and t: "download_temporary_path destination = Inr t"
  shows "keeps (same_at destination) (download_attempt os on_progress downloader resolved t)"
proof -
  have "t \<noteq> destination" using t by (rule temporary_apart)
  have aria2: "keeps (same_at destination) (download_with_aria2 os on_progress aria2c resolved t)" for aria2c
    unfolding download_with_aria2_def by (intro spared_rules spared_run assms)
  have parts: "destination \<notin> snd ` set (zip ranges paths)"
    if "collect_results (map (\<lambda>i. sidecar_path t (part_suffix i)) [0..<n]) = Inr paths" for ranges :: "ByteRange list" and n paths
  proof -
    have "\<exists>i. sidecar_path t (part_suffix i) = Inr p" if "p \<in> set paths" for p
    proof -
      have "Inr p \<in> set (map (\<lambda>i. sidecar_path t (part_suffix i)) [0..<n])"
        using that \<open>collect_results _ = Inr paths\<close> by (simp add: ok_iff)
      then show ?thesis by (metis (no_types, lifting) ex_map_conv)
    qed
    then have "destination \<notin> set paths" using sidecar_apart(1) [OF t _ suffixes_plain(1,2)] by blast
    then show ?thesis by (auto dest: set_zip_rightD)
  qed
  have assembly: "a \<noteq> destination" if "sidecar_path t ''assembling'' = Inr a" for a
    using sidecar_apart(1) [OF t that suffixes_plain(3,4)] .
  have "keeps (same_at destination) (download_with_ranges os on_progress resolved t)"
    unfolding download_with_ranges_def assemble_iso_def Let_def cdn_content_length_def create_private_truncated_file_def
    by (intro spared_rules spared_http spared_run_workers spared_transfer_progress spared_assemble_parts spared_replace
        spared_fs spared_permissions parts aside_calls assms) (assumption | rule \<open>t \<noteq> destination\<close> | erule assembly)+
  with aria2 show ?thesis unfolding download_attempt_def by (intro spared_rules)
qed

lemma spared_cleanup:
  assumes "download_temporary_path destination = Inr t"
  shows "keeps (same_at destination) (cleanup_download_sidecars fs t)"
  unfolding cleanup_download_sidecars_def
  by (intro spared_rules spared_remove_sidecar) (auto dest: sidecar_apart(1) [OF assms _ suffixes_plain(1,2)]
    sidecar_apart(1) [OF assms _ suffixes_plain(3,4)] sidecar_apart(1) [OF assms _ suffixes_plain(5,6)])


section \<open>The destination\<close>

definition verified :: "'w iso_os \<Rightarrow> string \<Rightarrow> string \<Rightarrow> bool" where
  "verified os expected contents \<longleftrightarrow> eq_ignore_ascii_case (hex_bytes (iso_sha256 os contents)) expected"

text \<open>The destination is as before, or it is new and verified; a report describes what is there.\<close>

definition delivered :: "'w iso_os \<Rightarrow> string \<Rightarrow> string \<Rightarrow> 'w host \<Rightarrow> LswError + IsoDownloadReport \<Rightarrow> 'w host \<Rightarrow> bool" where
  "delivered os expected destination h r h' \<longleftrightarrow>
     (node_at h' destination = node_at h destination
       \<or> node_at h destination = None
         \<and> (\<exists>contents. node_at h' destination = Some (Regular 0x180 contents) \<and> verified os expected contents))
     \<and> (case r of Inl _ \<Rightarrow> True
        | Inr report \<Rightarrow> \<exists>mode contents. node_at h' destination = Some (Regular mode contents) \<and> verified os expected contents
            \<and> rp_destination report = destination \<and> rp_bytes report = length contents
            \<and> rp_sha256 report = hex_bytes (iso_sha256 os contents))"

lemma post_looks: "keeps unchanged m \<Longrightarrow> (\<And>r h'. unchanged h h' \<Longrightarrow> Q r h') \<Longrightarrow> post m Q h"
  by (rule post_mono [OF keeps_post])

text \<open>A step that only looks, and what follows it.\<close>

lemma post_look_then:
  assumes "unchanged h h1" and "keeps unchanged m" and "\<And>e h'. unchanged h h' \<Longrightarrow> Q (Inl e) h'"
    and "\<And>x h'. unchanged h h' \<Longrightarrow> post (f x) Q h'"
  shows "post (io_bind m f) Q h1"
  using assms(2) by (rule post_seq [OF keeps_post]) (blast intro: assms(3,4) looking.trans [OF assms(1)])+

lemma post_require_regular:
  assumes "\<And>e h'. unchanged h h' \<Longrightarrow> Q (Inl e) h'"
    and "\<And>mode contents h'. node_at h p = Some (Regular mode contents) \<Longrightarrow> unchanged h h' \<Longrightarrow> Q (Inr ()) h'"
  shows "post (require_regular_file os p field) Q h"
proof -
  have regular: "\<exists>mode contents. n = Regular mode contents" if "is_regular n" for n using that by (cases n) simp_all
  show ?thesis
    unfolding require_regular_file_def
    by (simp only: wp, rule post_symlink_metadata) (auto simp: wp intro: assms(1) dest!: regular intro!: assms(2))
qed

lemma post_sha256:
  assumes "\<And>e h'. unchanged h h' \<Longrightarrow> Q (Inl e) h'"
    and "\<And>mode contents h'. node_at h p = Some (Regular mode contents) \<Longrightarrow> unchanged h h' \<Longrightarrow>
      Q (Inr (hex_bytes (iso_sha256 os contents))) h'"
  shows "post (sha256_file_with_progress os on_progress p) Q h"
  unfolding sha256_file_with_progress_def
proof (subst post_bind, rule post_require_regular, goal_cases)
  case (2 mode contents h1)
  note p = 2(1)
  show ?case unfolding on_ok_apply
  proof (rule post_look_then [OF 2(2)], goal_cases)
    case (3 metadata h2)
    show ?case
    proof (rule post_look_then [OF 3], goal_cases)
      case (3 _ h3)
      show ?case
      proof (rule post_look_then [OF 3], goal_cases)
        case (3 _ h4)
        have "post (io_lsw (read_file (iso_fs os) p)) (\<lambda>r t. unchanged h t \<and> (\<forall>c. r = Inr c \<longrightarrow> c = contents)) h4"
          by (simp only: wp, rule post_read_file) (use 3 p in \<open>auto simp: leaves_def\<close>)
        then show ?case
          by (rule post_seq) (auto intro!: post_look_then looks_hash intro: assms(1) assms(2) [OF p] simp: wp simp del: post_bind)
      qed (auto intro: look_rules assms(1))
    qed (auto intro: look_rules assms(1))
  qed (auto intro: look_rules assms(1))
qed (simp add: assms(1))

text \<open>The new name is given to the file that was verified, or not at all.\<close>

lemma post_promote:
  assumes "t \<noteq> destination" and t: "node_at h t = Some (Regular mode contents)"
  shows "post (promote_download fs t destination) (\<lambda>r h'.
    node_at h' destination = node_at h destination \<and> (\<exists>e. r = Inl e)
    \<or> node_at h destination = None \<and> node_at h' destination = Some (Regular 0x180 contents)) h"
    (is "post _ ?Q h")
  unfolding promote_download_def
proof (subst post_bind, rule post_require_regular, goal_cases)
  case (2 _ _ h1)
  then have h1: "node_at h1 = node_at h" by (simp add: leaves_def)
  have "post (set_private_iso_permissions fs t) (\<lambda>r h'. node_at h' destination = node_at h destination
      \<and> (r = Inr () \<longrightarrow> node_at h' t = Some (Regular 0x180 contents))) h1"
    unfolding set_private_iso_permissions_def
    by (simp only: wp, rule post_set_permissions) (use assms h1 in \<open>auto simp: leaves_def set_mode_def\<close>)
  then show ?case unfolding on_ok_apply
  proof (rule post_seq, goal_cases)
    case (2 u h2)
    then have h2: "node_at h2 destination = node_at h destination" "node_at h2 t = Some (Regular 0x180 contents)" by simp_all
    show ?case
      by (simp only: wp, rule post_hard_link)
        (use h2 assms(1) in \<open>auto simp: wp leaves_def intro!: fs_post split: sum.splits\<close>)
  qed auto
qed (simp add: leaves_def)

lemma post_finish:
  assumes t: "download_temporary_path destination = Inr t"
  shows "post (finish_download os on_progress engine resolved t destination attempt)
    (delivered os (ri_expected_sha256 resolved) destination h) h"
proof -
  let ?d = "delivered os (ri_expected_sha256 resolved) destination h"
  have apart: "t \<noteq> destination" using t by (rule temporary_apart)
  have kept: "?d (Inl e) h'" if "unchanged h h'" for e h' using that by (simp add: delivered_def leaves_def)
  show ?thesis
    unfolding finish_download_def
  proof (subst post_bind, rule post_sha256, goal_cases)
    case (1 e h1)
    then show ?case by (simp add: kept)
  next
    case (2 mode contents h1)
    let ?ok = "verified os (ri_expected_sha256 resolved) contents"
    have h1: "node_at h1 t = Some (Regular mode contents)" "node_at h1 destination = node_at h destination"
      using 2 by (simp_all add: leaves_def)
    show ?case unfolding on_ok_apply verified_def [symmetric]
    proof (subst post_if, split if_split, intro conjI impI)
      assume "\<not> \<not> ?ok"
      then have ok: ?ok by simp
      show "post (io_bind (io_lsw (symlink_metadata (iso_fs os) t)) (\<lambda>metadata.
          io_bind (promote_download (iso_fs os) t destination) (\<lambda>_.
          io_bind (cleanup_download_sidecars (iso_fs os) t) (\<lambda>_.
          io_return \<lparr>rp_destination = destination, rp_engine = engine, rp_bytes = node_len metadata,
            rp_sha256 = hex_bytes (iso_sha256 os contents), rp_resolutions = attempt + 1\<rparr>)))) ?d h1"
      proof (simp only: post_bind post_map_error, rule post_symlink_metadata, goal_cases)
        case (2 n h2)
        then have n: "node_len n = length contents" and h2: "node_at h2 = node_at h1" using h1 by (auto simp: leaves_def)
        show ?case
          unfolding map_error.simps on_ok_apply post_bind
        proof (rule post_mono [OF post_promote [OF apart, of h2 mode contents]], goal_cases)
          case (2 r h3)
          show ?case
          proof (cases r)
            case (Inr u)
            with 2 h1 h2 have h3: "node_at h destination = None" "node_at h3 destination = Some (Regular 0x180 contents)" by auto
            show ?thesis unfolding Inr on_ok_apply post_bind
              by (rule post_mono [OF keeps_post [OF spared_cleanup [OF t]]])
                (use h3 ok n in \<open>auto simp: on_ok_cases wp delivered_def same_at_def\<close>)
          qed (use 2 h1 h2 ok in \<open>auto simp: delivered_def\<close>)
        qed (use h1 h2 in simp)
      qed (use h1 in \<open>auto simp: delivered_def leaves_def\<close>)
    qed (use h1 in \<open>simp add: wp delivered_def\<close>)
  qed
qed

lemma delivered_cong:
  assumes "delivered os expected destination h1 r h'" and "same_at destination h h1" and "eq_ignore_ascii_case expected' expected"
  shows "delivered os expected' destination h r h'"
proof -
  have "verified os expected = verified os expected'"
    using assms(3) by (auto simp: verified_def eq_ignore_ascii_case_def)
  with assms(1,2) show ?thesis by (cases r) (simp_all add: delivered_def same_at_def)
qed

lemma delivered_error: "same_at destination h h' \<Longrightarrow> delivered os expected destination h (Inl e) h'"
  by (simp add: delivered_def same_at_def)

lemma post_refresh:
  assumes "aside os destination"
  shows "post (if 0 < (attempt :: nat)
      then io_bind (resolve os request) (\<lambda>resolved. io_bind (io_of (ensure_same_iso initial resolved)) (\<lambda>_. io_return resolved))
      else io_return initial)
    (\<lambda>r t. same_at destination h t \<and> (\<forall>x. r = Inr x \<longrightarrow> eq_ignore_ascii_case (ri_expected_sha256 initial) (ri_expected_sha256 x))) h"
proof (cases "0 < attempt")
  case True
  have "post (resolve os request) (\<lambda>_ t. same_at destination h t) h" by (rule keeps_post [OF spared_resolve [OF assms]])
  then show ?thesis unfolding if_P [OF True]
    by (rule post_seq) (auto simp: wp on_ok_cases ensure_same_iso_def)
qed (simp add: wp same_at_def eq_ignore_ascii_case_def)

lemma post_attempts:
  assumes "aside os destination" and t: "download_temporary_path destination = Inr t" and "same_at destination h h1"
  shows "post (download_attempts os on_progress downloader request initial t destination last_error attempts)
    (delivered os (ri_expected_sha256 initial) destination h) h1"
  using assms(3)
proof (induction attempts arbitrary: last_error h1)
  case (Cons attempt attempts)
  let ?Q = "delivered os (ri_expected_sha256 initial) destination h"
  show ?case unfolding download_attempts.simps
  proof (rule post_seq [OF post_refresh [OF assms(1), of attempt request initial h1]], goal_cases)
    case (1 e h2)
    with Cons.prems show ?case by (auto intro: delivered_error spared.trans)
  next
    case (2 resolved h2)
    then have h2: "same_at destination h h2" and same: "eq_ignore_ascii_case (ri_expected_sha256 initial) (ri_expected_sha256 resolved)"
      using Cons.prems by (auto intro: spared.trans)
    show ?case unfolding post_bind post_attempt
    proof (rule post_mono [OF keeps_post [OF spared_attempt [OF assms(1) t]]], goal_cases)
      case (1 r h3)
      then have h3: "same_at destination h h3" using h2 by (auto intro: spared.trans)
      show ?case
      proof (cases r)
        case (Inr u)
        show ?thesis unfolding Inr on_ok_apply sum.case
          by (rule post_mono [OF post_finish [OF t]]) (erule delivered_cong [OF _ h3 same])
      qed (use Cons.IH [OF h3] in simp)
    qed
  qed
qed (simp add: wp delivered_error)

lemma post_existing:
  "post (existing_verified_iso os on_progress destination resolved engine)
     (\<lambda>r t. unchanged h t \<and> (\<forall>report. r = Inr (Some report) \<longrightarrow>
       delivered os (ri_expected_sha256 resolved) destination h (Inr report) t)) h"
  unfolding existing_verified_iso_def
proof (simp only: post_bind post_attempt, rule post_symlink_metadata, goal_cases)
  case (2 n h1)
  show ?case
  proof (cases "is_regular n")
    case True
    with 2 show ?thesis
      by (cases n)
        (auto simp: post_bind wp verified_def [symmetric] delivered_def leaves_def intro!: post_sha256)
  qed (use 2 in \<open>simp add: wp\<close>)
qed (simp add: wp)

lemma download_delivers:
  assumes "aside os destination"
    and "download_resolved_with_progress os on_progress downloader request initial destination h = Some (r, h')"
  shows "delivered os (ri_expected_sha256 initial) destination h r h'"
proof -
  let ?Q = "delivered os (ri_expected_sha256 initial) destination h"
  have kept: "?Q (Inl e) t" if "unchanged h t" for e t using that by (simp add: delivered_error same_at_def leaves_def)
  have "post (download_resolved_with_progress os on_progress downloader request initial destination) ?Q h"
    unfolding download_resolved_with_progress_def
  proof (rule post_look_then [where h = h], goal_cases)
    case (4 parent h1)
    show ?case
    proof (rule post_look_then [OF 4], goal_cases)
      case (3 _ h2)
      show ?case
      proof (rule post_look_then [OF 3], goal_cases)
        case (3 _ h3)
        then have same: "node_at h3 = node_at h" by (simp add: leaves_def)
        show ?case
        proof (rule post_seq [OF post_existing [where h = h3]], goal_cases)
          case (2 existing h4)
          show ?case
          proof (cases existing)
            case None
            have "same_at destination h h4" using 2 same by (simp add: same_at_def leaves_def)
            then show ?thesis unfolding None option.case
              by (cases "download_temporary_path destination")
                (auto simp: post_bind post_simps delivered_error intro: post_attempts [OF assms(1)])
          qed (use 2 same in \<open>auto simp: wp delivered_def leaves_def\<close>)
        qed (use 3 same in \<open>auto intro!: kept simp: leaves_def\<close>)
      qed (auto intro: looks_checks kept)
    qed (auto intro: looks_checks kept)
  qed (auto intro: looking.refl looking.keeps_rules kept)
  with assms(2) show ?thesis by (rule postD [rotated])
qed

end
