(* ===== verification/Iso_Resume.thy ===== *)
theory Iso_Resume
  imports Iso_Verified
begin

text \<open>
  Resuming a download in ranges.  When the service sends the bytes of one medium, whatever else goes
  wrong, every part that is on the disk is the beginning of its range; so what a later attempt adds
  completes it, and a transfer that succeeds leaves the medium itself.
\<close>

section \<open>The service\<close>

text \<open>What a client reads of a body.\<close>

definition body_of :: "http_response \<Rightarrow> string" where
  "body_of response = concat (takeWhile (\<lambda>chunk. chunk \<noteq> []) (hr_body response))"

text \<open>The service answers a request for the length truthfully; its client leaves the files alone.\<close>

definition announces :: "'w iso_os \<Rightarrow> string \<Rightarrow> nat \<Rightarrow> bool" where
  "announces os url len \<longleftrightarrow>
     (\<forall>headers h response n. fst (iso_call os ''HEAD'' url headers h) = Inr response
        \<longrightarrow> Option.bind (http_header response ''Content-Length'') parse_u64 = Some n \<longrightarrow> unat n = len)
     \<and> (\<forall>request url headers h. node_at (snd (iso_call os request url headers h)) = node_at h)"

text \<open>A response with status 206 carries the bytes of the range that was asked for, though it may end early.\<close>

definition serves :: "'w iso_os \<Rightarrow> string \<Rightarrow> string \<Rightarrow> bool" where
  "serves os url medium \<longleftrightarrow> announces os url (length medium)
     \<and> (\<forall>headers h response a b. fst (iso_call os ''GET'' url headers h) = Inr response \<longrightarrow> hr_status response = 206
        \<longrightarrow> (''Range'', ''bytes='' @ decimal a @ ''-'' @ decimal b) \<in> set headers
        \<longrightarrow> prefix (body_of response) (take (Suc b - a) (drop a medium)))"

lemma limited_prefix: "prefix (concat (fst (limited n cs ending))) (concat (takeWhile (\<lambda>c. c \<noteq> []) cs))"
proof (induction cs arbitrary: n)
  case Nil
  show ?case by simp
next
  case (Cons c cs)
  have "prefix (take n c @ concat (fst (limited (n - length (take n c)) cs ending))) (c @ concat (takeWhile (\<lambda>c. c \<noteq> []) cs))"
  proof (cases "length c \<le> n")
    case False
    then show ?thesis using take_is_prefix [of n c] by (cases cs) (simp_all add: prefix_prefix)
  qed (use Cons.IH in simp)
  then show ?case by (auto simp: split_beta)
qed

lemma concat_chunks [simp]: "concat (chunks s) = s"
  by (induction s rule: chunks.induct) (subst chunks.simps, auto)


section \<open>Parts\<close>

definition bytes_in :: "string \<Rightarrow> ByteRange \<Rightarrow> string" where
  "bytes_in medium bounds = take (unat (range_len bounds)) (drop (unat (br_start bounds)) medium)"

definition within :: "nat \<Rightarrow> ByteRange \<Rightarrow> bool" where
  "within n bounds \<longleftrightarrow> br_start bounds \<le> br_end bounds \<and> unat (br_end bounds) < n \<and> n < 2 ^ 64"

lemma range_len_nat:
  assumes "within n bounds"
  shows "unat (range_len bounds) = Suc (unat (br_end bounds)) - unat (br_start bounds)"
proof -
  let ?s = "unat (br_start bounds)" and ?e = "unat (br_end bounds)"
  have "?s \<le> ?e" and "Suc ?e - ?s < 2 ^ 64" using assms by (auto simp: within_def word_le_nat_alt)
  have "range_len bounds = word_of_nat (Suc ?e - ?s)"
    using \<open>?s \<le> ?e\<close> by (simp add: range_len_def Suc_diff_le of_nat_diff)
  also have "unat \<dots> = Suc ?e - ?s" by (rule unat_word_of_nat_less) (use \<open>Suc ?e - ?s < 2 ^ 64\<close> in simp)
  finally show ?thesis .
qed

definition part_ok :: "string \<Rightarrow> ByteRange \<Rightarrow> fs_node option \<Rightarrow> bool" where
  "part_ok medium bounds n \<longleftrightarrow> (\<forall>mode contents. n = Some (Regular mode contents) \<longrightarrow> prefix contents (bytes_in medium bounds))"

lemma post_append_chunks:
  assumes "node_at h p = Some (Regular mode contents)" and "prefix (contents @ concat cs) s"
  shows "post (append_chunks fs p cs) (\<lambda>r t. \<exists>contents'. node_at t p = Some (Regular mode contents') \<and> prefix contents' s) h"
  using assms
proof (induction cs arbitrary: contents h)
  case Nil
  then show ?case by (auto simp: wp)
next
  case (Cons c cs)
  have part: "prefix (contents @ take k c) s" for k
    using Cons.prems(2) by (metis append_assoc append_take_drop_id append_prefixD concat.simps(2))
  show ?case unfolding append_chunks.simps
  proof (simp only: post_bind post_map_error, rule post_write_contents, goal_cases)
    case (1 e k h1)
    with part Cons.prems(1) show ?case by (auto simp: leaves_def)
  next
    case (2 h1)
    then have "node_at h1 p = Some (Regular mode (contents @ c))" using Cons.prems(1) by (auto simp: leaves_def)
    from Cons.IH [OF this] Cons.prems(2)
    show ?case unfolding map_error.simps on_ok_apply post_bind post_map_error by (auto simp: wp on_ok_cases elim!: post_mono)
  qed
qed

lemma post_partial_length:
  assumes "honest fs"
    and "\<And>e h'. unchanged h h' \<Longrightarrow> Q (Inl e) h'"
    and "\<And>h'. unchanged h h' \<Longrightarrow> node_at h p = None \<Longrightarrow> Q (Inr 0) h'"
    and "\<And>mode contents h'. unchanged h h' \<Longrightarrow> node_at h p = Some (Regular mode contents) \<Longrightarrow> length contents \<le> unat expected \<Longrightarrow>
      Q (Inr (word_of_nat (length contents))) h'"
  shows "post (partial_file_length fs p expected) Q h"
  unfolding partial_file_length_def
proof (simp only: post_bind post_attempt, rule post_symlink_metadata_honest [OF assms(1)], goal_cases)
  case (3 n h')
  then show ?case using assms(2,4) by (cases n) (auto simp: wp)
qed (auto simp: wp intro: assms(2,3))

lemma serves_announces: "serves os url medium \<Longrightarrow> announces os url (length medium)"
  by (simp add: serves_def)

lemma post_http:
  assumes "announces os url len"
    and "\<And>e t. node_at t = node_at h \<Longrightarrow> Q (Inl e) t"
    and "\<And>response t. fst (iso_call os request url' headers h) = Inr response \<Longrightarrow> node_at t = node_at h \<Longrightarrow> Q (Inr response) t"
  shows "post (http_call os wrap request url' headers) Q h"
proof -
  have "node_at (snd (iso_call os request url' headers h)) = node_at h" using assms(1) by (simp add: announces_def)
  then show ?thesis
    unfolding http_call_def post_map_error
    by (cases "iso_call os request url' headers h"; cases "fst (iso_call os request url' headers h)")
      (auto simp: post_def intro: assms(2,3))
qed

text \<open>The bytes that are asked for continue the ones that are there.\<close>

lemma continues:
  assumes "serves os url medium" and "within (length medium) bounds"
    and "prefix contents (bytes_in medium bounds)" and "length contents < unat (range_len bounds)"
    and "fst (iso_call os ''GET'' url headers h) = Inr response" and "hr_status response = 206"
    and "(''Range'', ''bytes='' @ decimal (unat (br_start bounds + word_of_nat (length contents))) @ ''-''
           @ decimal (unat (br_end bounds))) \<in> set headers"
  shows "prefix (contents @ concat (fst (limited n (hr_body response) ending))) (bytes_in medium bounds)"
proof -
  let ?s = "unat (br_start bounds)" and ?e = "unat (br_end bounds)" and ?k = "length contents"
  have len: "unat (range_len bounds) = Suc ?e - ?s" using assms(2) by (rule range_len_nat)
  have small: "?s + ?k < 2 ^ 64" using assms(2,4) len by (auto simp: within_def)
  have "unat (br_start bounds + word_of_nat ?k) = ?s + ?k"
  proof -
    have "br_start bounds + word_of_nat ?k = word_of_nat (?s + ?k)" by simp
    also have "unat \<dots> = ?s + ?k" by (rule unat_word_of_nat_less) (use small in simp)
    finally show ?thesis .
  qed
  then have "prefix (body_of response) (take (Suc ?e - (?s + ?k)) (drop (?s + ?k) medium))"
    using assms(1,5-7) unfolding serves_def by metis
  moreover have "take (Suc ?e - (?s + ?k)) (drop (?s + ?k) medium) = drop ?k (bytes_in medium bounds)"
    by (simp add: bytes_in_def len drop_take add.commute)
  ultimately have "prefix (concat (fst (limited n (hr_body response) ending))) (drop ?k (bytes_in medium bounds))"
    using limited_prefix [of n "hr_body response" ending] unfolding body_of_def by (metis prefix_order.trans)
  moreover have "bytes_in medium bounds = contents @ drop ?k (bytes_in medium bounds)"
    using assms(3) by (auto simp: prefix_def)
  ultimately show ?thesis by (metis same_prefix_prefix)
qed

text \<open>The worker of a range, from the moment it has its response.\<close>

lemma post_store_body:
  assumes "node_at h p = None \<and> contents = [] \<or> node_at h p = Some (Regular mode contents)"
    and pre: "prefix (contents @ concat (fst received)) (bytes_in medium bounds)"
  shows "post (store_range_body fs p remaining received) (\<lambda>r t. part_ok medium bounds (node_at t p)) h"
proof -
  have start: "prefix contents (bytes_in medium bounds)" using pre by (rule append_prefixD)
  have sync: "keeps unchanged (sync_file fs p)" by (auto intro!: keepsI fs_post)
  show ?thesis
    unfolding store_range_body_def split_beta post_bind post_map_error
  proof (rule post_open_part, goal_cases)
    case (1 e h1)
    with start assms(1) show ?case by (auto simp: part_ok_def leaves_def)
  next
    case (2 n h1)
    then obtain m where h1: "node_at h1 p = Some (Regular m contents)" using assms(1) by (auto simp: leaves_def)
    show ?case
      unfolding map_error.simps on_ok_apply post_bind post_map_error set_private_iso_permissions_def
    proof (rule post_set_permissions, goal_cases)
      case (1 e h2)
      with h1 start show ?case by (auto simp: part_ok_def leaves_def)
    next
      case (2 n h2)
      then have h2: "node_at h2 p = Some (Regular 0x180 contents)" using h1 by (auto simp: leaves_def set_mode_def)
      show ?case
        unfolding map_error.simps on_ok_apply
      proof (rule post_mono [OF post_append_chunks [OF h2 pre]], goal_cases)
        case (1 r h3)
        show ?case
        proof (cases r)
          case (Inr sent)
          show ?thesis unfolding Inr on_ok_apply
            by (rule post_looks) (use 1 in \<open>auto simp: part_ok_def leaves_def intro!: looking.keeps_rules sync\<close>)
        qed (use 1 in \<open>auto simp: part_ok_def\<close>)
      qed
    qed
  qed
qed

lemma post_fetch_range:
  assumes "serves os (url_text url) medium" and "within (length medium) bounds"
    and node: "node_at h p = None \<and> contents = [] \<or> node_at h p = Some (Regular mode contents)"
    and pre: "prefix contents (bytes_in medium bounds)" and "length contents < unat (range_len bounds)"
  shows "post (fetch_range os url bounds p (word_of_nat (length contents))) (\<lambda>r t. part_ok medium bounds (node_at t p)) h"
proof -
  have kept: "part_ok medium bounds (node_at t p)" if "node_at t = node_at h" for t
    using that node pre by (auto simp: part_ok_def)
  show ?thesis
    unfolding fetch_range_def Let_def post_bind post_map_error
  proof (rule post_http [OF serves_announces [OF assms(1)]], goal_cases)
    case (2 response t)
    have body: "post (store_range_body (iso_fs os) p remaining (limited n (hr_body response) (hr_end response)))
        (\<lambda>r t. part_ok medium bounds (node_at t p)) t" if "hr_status response = 206" for n remaining
      using node 2(2) continues [OF assms(1,2) pre assms(5) 2(1) that] by (intro post_store_body) simp_all
    show ?case unfolding map_error.simps on_ok_apply
      by (auto simp: wp kept 2(2) on_ok_cases intro!: body)
  qed (simp add: kept)
qed

lemma post_download_range:
  assumes "honest (iso_fs os)" and "serves os (url_text url) medium" and "within (length medium) bounds"
    and "part_ok medium bounds (node_at h p)"
  shows "post (download_range os url bounds p) (\<lambda>r t. part_ok medium bounds (node_at t p)) h"
  unfolding download_range_def post_bind post_map_error
proof (rule post_partial_length [OF assms(1)], goal_cases)
  case (2 h1)
  have "range_len bounds \<noteq> 0" using range_len_nat [OF assms(3)] assms(3) by (auto simp: within_def word_le_nat_alt)
  then have "0 < unat (range_len bounds)" by (simp add: unat_gt_0)
  then show ?case
    using 2 post_fetch_range [OF assms(2,3), of h1 p "[]" 0] \<open>range_len bounds \<noteq> 0\<close> by (simp add: leaves_def)
next
  case (3 mode contents h1)
  then have pre: "prefix contents (bytes_in medium bounds)" using assms(4) by (simp add: part_ok_def)
  show ?case
  proof (cases "word_of_nat (length contents) = range_len bounds")
    case False
    then have "length contents < unat (range_len bounds)" using 3(3) by (metis le_neq_implies_less of_nat_unat ucast_id)
    with False show ?thesis
      using post_fetch_range [OF assms(2,3) _ pre, of h1 p mode] 3(1,2) by (simp add: leaves_def)
  qed (use 3 assms(4) in \<open>simp add: wp leaves_def\<close>)
qed (use assms(4) in \<open>simp add: leaves_def\<close>)


section \<open>The transfer\<close>

definition parts_hold :: "(ByteRange \<Rightarrow> fs_node option \<Rightarrow> bool) \<Rightarrow> (ByteRange \<times> string) list \<Rightarrow> 'w host \<Rightarrow> bool" where
  "parts_hold P parts h \<longleftrightarrow> list_all (\<lambda>(bounds, p). P bounds (node_at h p)) parts"

abbreviation parts_ok :: "string \<Rightarrow> (ByteRange \<times> string) list \<Rightarrow> 'w host \<Rightarrow> bool" where
  "parts_ok medium \<equiv> parts_hold (part_ok medium)"

lemma serves_calls_aside: "serves os url medium \<Longrightarrow> calls_aside os q"
  by (simp add: serves_def announces_def calls_aside_def same_at_def)

lemma parts_same: "parts_hold P parts h \<Longrightarrow> (\<And>p. p \<in> snd ` set parts \<Longrightarrow> same_at p h t) \<Longrightarrow> parts_hold P parts t"
  by (force simp: parts_hold_def list_all_iff same_at_def)

lemma post_same_at: "(\<And>p. p \<in> A \<Longrightarrow> keeps (same_at p) m) \<Longrightarrow> post m (\<lambda>_ t. \<forall>p \<in> A. same_at p h t) h"
  by (auto simp: keeps_def post_iff)

lemma post_worker:
  assumes "honest (iso_fs os)" and "serves os (url_text url) medium" and "distinct (map snd parts)"
    and "(bounds, p) \<in> set parts" and "within (length medium) bounds" and ok: "parts_ok medium parts h"
  shows "post (download_range os url bounds p) (\<lambda>_. parts_ok medium parts) h"
proof -
  have "part_ok medium bounds (node_at h p)" using assms(4) ok by (auto simp: parts_hold_def list_all_iff)
  with assms(1,2,5) have "post (download_range os url bounds p) (\<lambda>_ t. part_ok medium bounds (node_at t p)) h"
    by (rule post_download_range)
  moreover have "post (download_range os url bounds p) (\<lambda>_ t. \<forall>q \<in> - {p}. same_at q h t) h"
    by (rule post_same_at) (use serves_calls_aside [OF assms(2)] in \<open>auto intro!: spared_download_range\<close>)
  ultimately show ?thesis
  proof (rule post_mono [OF post_conj], goal_cases)
    case (1 r t)
    have "part_ok medium b (node_at t q)" if "(b, q) \<in> set parts" for b q
    proof (cases "q = p")
      case True
      with that assms(3,4) have "b = bounds" by (metis distinct_map fst_conv inj_onD snd_conv)
      with True 1 show ?thesis by simp
    next
      case False
      with 1 have "node_at t q = node_at h q" by (simp add: same_at_def)
      with that ok show ?thesis by (auto simp: parts_hold_def list_all_iff)
    qed
    then show ?case by (auto simp: parts_hold_def list_all_iff)
  qed
qed

lemma post_workers:
  assumes "honest (iso_fs os)" and "serves os (url_text url) medium" and "distinct (map snd parts)"
    and "\<forall>(bounds, p) \<in> set parts. within (length medium) bounds" and "set ps \<subseteq> set parts" and "parts_ok medium parts h"
  shows "post (run_workers os url ps) (\<lambda>_. parts_ok medium parts) h"
  using assms(5,6)
proof (induction ps arbitrary: h)
  case (Cons part ps)
  obtain bounds p where part: "part = (bounds, p)" by (cases part)
  have "post (download_range os url bounds p) (\<lambda>_. parts_ok medium parts) h"
    using Cons.prems assms(4) part by (intro post_worker assms) auto
  then show ?case unfolding part run_workers.simps post_bind post_attempt
  proof (rule post_mono, goal_cases)
    case (1 r t)
    then have "post (run_workers os url ps) (\<lambda>_. parts_ok medium parts) t" using Cons.prems by (intro Cons.IH) auto
    then show ?case unfolding on_ok_apply post_bind by (rule post_mono) (auto simp: on_ok_cases wp)
  qed
qed (simp add: wp)

lemma post_assemble_chunks:
  assumes "node_at h a = Some (Regular mode contents)"
  shows "post (assemble_chunks fs on_progress p a n k cs)
    (\<lambda>r t. r \<in> range Inr \<longrightarrow> node_at t a = Some (Regular mode (contents @ concat cs))) h"
  using assms
proof (induction cs arbitrary: contents h k)
  case Nil
  then show ?case unfolding assemble_chunks.simps
    by (auto simp: wp on_ok_cases leaves_def intro!: fs_post)
next
  case (Cons c cs)
  show ?case unfolding assemble_chunks.simps
  proof (simp only: post_bind post_map_error, rule post_read_more, goal_cases)
    case (2 h1)
    show ?case unfolding map_error.simps on_ok_apply post_bind post_map_error
    proof (rule post_write_contents, goal_cases)
      case (2 h2)
      then have "node_at h2 a = Some (Regular mode (contents @ c))" using Cons.prems \<open>unchanged h h1\<close> by (auto simp: leaves_def)
      then have "node_at (h2\<lparr>h_rest := w\<rparr>) a = Some (Regular mode (contents @ c))" for w by (simp add: node_at_def)
      from Cons.IH [OF this] show ?case by (simp add: progress_def wp Let_def)
    qed auto
  qed auto
qed

lemma length_bytes_in: "within (length medium) bounds \<Longrightarrow> length (bytes_in medium bounds) = unat (range_len bounds)"
  by (auto simp: bytes_in_def range_len_nat within_def word_le_nat_alt)

lemma post_assemble_parts:
  assumes "\<forall>(bounds, p) \<in> set parts. within (length medium) bounds" and "a \<notin> snd ` set parts"
    and "parts_ok medium parts h" and "node_at h a = Some (Regular mode contents)"
  shows "post (assemble_parts fs on_progress a len k parts)
    (\<lambda>r t. r \<in> range Inr \<longrightarrow>
      node_at t a = Some (Regular mode (contents @ concat (map (\<lambda>(bounds, p). bytes_in medium bounds) parts)))) h"
  using assms
proof (induction parts arbitrary: contents h k)
  case (Cons part parts)
  obtain bounds p where part: "part = (bounds, p)" by (cases part)
  have p: "part_ok medium bounds (node_at h p)" and rest: "parts_ok medium parts h" and apart: "p \<noteq> a" "a \<notin> snd ` set parts"
    and inside: "within (length medium) bounds" "\<forall>(bounds, p) \<in> set parts. within (length medium) bounds"
    using Cons.prems part by (auto simp: parts_hold_def)
  let ?Q = "\<lambda>r t. r \<in> range Inr \<longrightarrow>
      node_at t a = Some (Regular mode (contents @ concat (map (\<lambda>(bounds, p). bytes_in medium bounds) (part # parts))))"
  show ?case unfolding part assemble_parts.simps
  proof (subst post_bind, rule post_require_regular, goal_cases)
    case (2 m c h1)
    have c: "c = bytes_in medium bounds" if "length c = unat (range_len bounds)"
      using p 2(1) that length_bytes_in [OF inside(1)] by (auto simp: part_ok_def prefix_def)
    show ?case unfolding on_ok_apply post_bind post_map_error
    proof (rule post_symlink_metadata, goal_cases)
      case (2 n h2)
      then have n: "n = Regular m c" and h2: "node_at h2 = node_at h" using \<open>node_at h p = _\<close> \<open>unchanged h h1\<close> by (auto simp: leaves_def)
      show ?case
      proof (cases "length c = unat (range_len bounds)")
        case True
        have "post (io_bind (io_lsw (open_read fs p)) (\<lambda>_. io_bind (io_lsw (read_file fs p)) (\<lambda>contents.
            io_bind (assemble_chunks fs on_progress p a len k (chunks contents)) (\<lambda>assembled.
            assemble_parts fs on_progress a len assembled parts)))) ?Q h2"
        proof (rule post_look_then [OF looking.refl [of h2]], goal_cases)
          case (3 u h3)
          have "post (io_lsw (read_file fs p)) (\<lambda>r t. unchanged h3 t \<and> (\<forall>x. r = Inr x \<longrightarrow> x = c)) h3"
            by (simp only: wp, rule post_read_file) (use 3 h2 \<open>node_at h p = _\<close> in \<open>auto simp: leaves_def\<close>)
          then show ?case
          proof (rule post_seq, goal_cases)
            case (2 x h4)
            with 3 h2 have h4: "node_at h4 = node_at h" "x = c" by (auto simp: leaves_def)
            then have "post (assemble_chunks fs on_progress p a len k (chunks x))
                (\<lambda>r t. r \<in> range Inr \<longrightarrow> node_at t a = Some (Regular mode (contents @ c))) h4"
              using post_assemble_chunks [of h4 a mode contents fs on_progress p len k "chunks x"] Cons.prems(4) by simp
            moreover have "post (assemble_chunks fs on_progress p a len k (chunks x)) (\<lambda>_ t. \<forall>q \<in> - {a}. same_at q h4 t) h4"
              by (rule post_same_at) (auto intro!: spared_assemble_chunks)
            ultimately show ?case
            proof (rule post_seq [OF post_conj], goal_cases)
              case (2 y h5)
              have "parts_ok medium parts h5"
                using rest by (rule parts_same) (use 2 h4 apart(2) in \<open>auto simp: same_at_def\<close>)
              from Cons.IH [OF inside(2) apart(2) this, of "contents @ c"] 2 c [OF True] show ?case by (simp add: part)
            qed auto
          qed auto
        qed (auto intro: look_rules)
        with True n show ?thesis by (simp add: part)
      qed (auto simp: n wp)
    qed auto
  qed auto
qed (auto simp: wp)

text \<open>The ranges of a medium are its bytes.\<close>

lemma bytes_in_covered: "within (length medium) bounds \<Longrightarrow> bytes_in medium bounds = map ((!) medium) (covered bounds)"
  by (rule nth_equalityI)
    (auto simp: bytes_in_def covered_def range_len_nat within_def word_le_nat_alt simp del: upt_Suc)

lemma split_ranges_bytes:
  assumes "split_ranges iso_len = Inr ranges" and "unat iso_len = length medium"
  shows "\<forall>bounds \<in> set ranges. within (length medium) bounds" "concat (map (bytes_in medium) ranges) = medium"
proof -
  have "iso_len \<noteq> 0" using assms(1) by (auto simp: split_ranges_def)
  then have cover: "concat (map covered ranges) = [0..<length medium]"
    using ranges_cover [of iso_len] assms by auto
  show inside: "\<forall>bounds \<in> set ranges. within (length medium) bounds"
  proof
    fix bounds assume b: "bounds \<in> set ranges"
    with assms(1) have le: "br_start bounds \<le> br_end bounds" by (auto simp: split_ranges_def Let_def split: if_splits)
    then have "unat (br_end bounds) \<in> set (covered bounds)" by (simp add: covered_def word_le_nat_alt)
    then have "unat (br_end bounds) \<in> set (concat (map covered ranges))" using b by auto
    then have "unat (br_end bounds) < length medium" unfolding cover by simp
    with le show "within (length medium) bounds"
      using unsigned_less [of iso_len, where 'a = nat] assms(2) by (simp add: within_def)
  qed
  have "map (bytes_in medium) ranges = map (\<lambda>b. map ((!) medium) (covered b)) ranges"
    using inside by (auto intro!: map_cong bytes_in_covered)
  then have "concat (map (bytes_in medium) ranges) = map ((!) medium) (concat (map covered ranges))"
    unfolding map_concat map_map comp_def by (rule arg_cong)
  then show "concat (map (bytes_in medium) ranges) = medium" by (simp add: cover map_nth)
qed

lemma post_create_private:
  assumes "honest fs"
  shows "post (create_private_truncated_file fs p) (\<lambda>r t. r = Inr () \<longrightarrow> node_at t p = Some (Regular 0x180 [])) h"
proof -
  have "post (validate_partial_file fs p) (\<lambda>r t. unchanged h t \<and> (r = Inr () \<longrightarrow> (\<forall>n. node_at h p = Some n \<longrightarrow> is_regular n))) h"
    unfolding validate_partial_file_def
    by (simp only: post_bind post_attempt, rule post_symlink_metadata_honest [OF assms]) (auto simp: wp)
  then show ?thesis
    unfolding create_private_truncated_file_def
  proof (rule post_seq, goal_cases)
    case (2 u h1)
    show ?case unfolding post_bind post_map_error
    proof (rule post_open_assembly, goal_cases)
      case (2 n h2)
      have "is_regular m" if "node_at h1 p = Some m" for m using that \<open>_ \<and> _\<close> by (auto simp: leaves_def)
      with 2 obtain mode where "node_at h2 p = Some (Regular mode [])"
        by (auto simp: leaves_def elim!: is_regular.elims)
      then show ?case unfolding map_error.simps on_ok_apply set_private_iso_permissions_def post_map_error
        by (intro post_set_permissions) (auto simp: leaves_def set_mode_def)
    qed auto
  qed auto
qed

lemma post_replace:
  assumes "node_at h a = Some (Regular 0x180 contents)" and "a \<noteq> t"
  shows "post (replace_temporary fs a t) (\<lambda>r h'. r = Inr () \<longrightarrow> node_at h' t = Some (Regular 0x180 contents)) h"
proof -
  have remove: "keeps (same_at a) (case r of Inr _ \<Rightarrow> io_bind (validate_partial_file fs t) (\<lambda>_. io_lsw (unlink_file fs t))
      | Inl _ \<Rightarrow> io_return ())" for r :: "io_error + fs_node"
    using assms(2) by (cases r) (auto intro!: spared_rules spared_fs)
  have look: "keeps (same_at a) (io_attempt (symlink_metadata fs t))" by (intro spared_rules)
  show ?thesis
    unfolding replace_temporary_def
  proof (rule post_seq [OF keeps_post [OF look]], goal_cases)
    case (2 r h1)
    show ?case
    proof (rule post_seq [OF keeps_post [OF remove]], goal_cases)
      case (2 u h2)
      then have "node_at h2 a = Some (Regular 0x180 contents)" using assms(1) \<open>same_at a h h1\<close> by (simp add: same_at_def)
      then show ?case unfolding post_bind post_map_error
        by (intro post_rename_path)
          (auto simp: leaves_def set_private_iso_permissions_def post_map_error set_mode_def intro!: post_set_permissions)
    qed auto
  qed auto
qed

lemma post_assemble:
  assumes "honest fs" and "\<forall>(bounds, p) \<in> set parts. within (length medium) bounds"
    and "sidecar_path t ''assembling'' = Inr a" and "a \<notin> snd ` set parts" and "a \<noteq> t" and "parts_ok medium parts h"
    and "concat (map (\<lambda>(bounds, p). bytes_in medium bounds) parts) = medium"
  shows "post (assemble_iso fs on_progress iso_len parts t) (\<lambda>r h'. r = Inr () \<longrightarrow> node_at h' t = Some (Regular 0x180 medium)) h"
proof -
  let ?P = "\<lambda>r h'. (r = Inr () \<longrightarrow> node_at h' a = Some (Regular 0x180 [])) \<and> (\<forall>q \<in> - {a}. same_at q h h')"
  have "post (create_private_truncated_file fs a) (\<lambda>_ t. \<forall>q \<in> - {a}. same_at q h t) h"
    unfolding create_private_truncated_file_def
    by (rule post_same_at) (auto intro!: spared_rules spared_fs spared_permissions)
  then have create: "post (create_private_truncated_file fs a) ?P h"
    using post_create_private [OF assms(1)] by (intro post_conj)
  show ?thesis
    unfolding assemble_iso_def assms(3)
  proof (subst post_bind, simp only: post_simps on_ok_apply, rule post_seq [OF create], goal_cases)
    case (2 u h1)
    then have a: "node_at h1 a = Some (Regular 0x180 [])" by simp
    have ok: "parts_ok medium parts h1"
      using assms(6) by (rule parts_same) (use 2 assms(4) in auto)
    show ?case
    proof (rule post_look_then [OF looking.refl [of h1]], goal_cases)
      case (3 v h2)
      then have "node_at h2 a = Some (Regular 0x180 [])" "parts_ok medium parts h2"
        using a ok by (auto simp: leaves_def parts_hold_def)
      note assembled = post_assemble_parts [OF assms(2,4) this(2,1), of fs on_progress iso_len 0, unfolded append_Nil assms(7)]
      show ?case
      proof (rule post_seq [OF assembled], goal_cases)
        case (2 n h3)
        then have h3: "node_at h3 a = Some (Regular 0x180 medium)" by simp
        have "post (io_bind (io_lsw (sync_file fs a)) (\<lambda>_. replace_temporary fs a t))
            (\<lambda>r h'. r = Inr () \<longrightarrow> node_at h' t = Some (Regular 0x180 medium)) h3"
          by (rule post_look_then [OF looking.refl [of h3]])
            (use h3 assms(5) in \<open>auto simp: leaves_def intro!: keepsI fs_post post_replace simp: wp\<close>)
        then show ?case by (simp add: wp)
      qed auto
    qed (auto intro: look_rules)
  qed auto
qed

lemma part_paths_apart:
  assumes "download_temporary_path destination = Inr t"
    and paths: "collect_results (map (\<lambda>i. sidecar_path t (part_suffix i)) [0..<n]) = Inr paths"
  shows "length paths = n" "distinct paths" "t \<notin> set paths" "sidecar_path t ''assembling'' = Inr a \<Longrightarrow> a \<notin> set paths"
proof -
  obtain d where f: "path_file_name t = Some (''.'' @ d @ ''.lsw-download'')"
    using assms(1) by (rule temporary_file_name)
  let ?f = "''.'' @ d @ ''.lsw-download''"
  have all: "map (\<lambda>i. sidecar_path t (part_suffix i)) [0..<n] = map Inr paths" using paths by (simp add: ok_iff)
  then show n: "length paths = n" by (metis length_map length_upt minus_nat.diff_0)
  have "sidecar_path t (part_suffix i) = Inr (paths ! i)" if "i < n" for i
    using arg_cong [OF all, where f = "\<lambda>xs. xs ! i"] that n by simp
  then have name: "path_file_name (paths ! i) = Some (?f @ ''.'' @ part_suffix i)" if "i < n" for i
    using that f suffixes_plain(1,2) by (blast intro: sidecar_file_name)
  show "distinct paths"
    unfolding distinct_conv_nth
  proof (intro allI impI)
    fix i j assume "i < length paths" "j < length paths" "i \<noteq> j"
    then show "paths ! i \<noteq> paths ! j" using name [of i] name [of j] n by (auto simp: part_suffix_def)
  qed
  show "t \<notin> set paths" using name f n by (auto simp: in_set_conv_nth)
  show "a \<notin> set paths" if "sidecar_path t ''assembling'' = Inr a"
  proof -
    have "path_file_name a = Some (?f @ ''.'' @ ''assembling'')"
      using that f suffixes_plain(3,4) by (rule sidecar_file_name)
    then show ?thesis using name n by (auto simp: in_set_conv_nth part_suffix_def)
  qed
qed

lemma post_content_length:
  assumes "announces os (url_text url) len"
  shows "post (cdn_content_length os url) (\<lambda>r t. node_at t = node_at h \<and> (\<forall>n. r = Inr n \<longrightarrow> unat n = len)) h"
  unfolding cdn_content_length_def post_bind
proof (rule post_http [OF assms], goal_cases)
  case (2 response t)
  have "unat n = len" if "Option.bind (http_header response ''Content-Length'') parse_u64 = Some n" for n
    using assms 2(1) that unfolding announces_def by blast
  with 2(2) show ?case by (auto simp: wp on_ok_cases ok_iff split: option.splits if_splits)
qed simp

definition part_files :: "string \<Rightarrow> string \<Rightarrow> (ByteRange \<times> string) list" where
  "part_files medium temporary =
     (case split_ranges (word_of_nat (length medium)) of
        Inl _ \<Rightarrow> []
      | Inr ranges \<Rightarrow>
          (case collect_results (map (\<lambda>i. sidecar_path temporary (part_suffix i)) [0..<length ranges]) of
             Inl _ \<Rightarrow> []
           | Inr paths \<Rightarrow> zip ranges paths))"

lemma looks_transfer_progress: "keeps unchanged (transfer_progress on_progress n k ns)"
  by (induction on_progress n k ns rule: transfer_progress.induct)
    (unfold transfer_progress.simps Let_def, (intro look_rules | assumption | simp)+)

lemma spared_assemble_iso:
  assumes "q \<noteq> t" and "\<And>a. sidecar_path t ''assembling'' = Inr a \<Longrightarrow> a \<noteq> q"
  shows "keeps (same_at q) (assemble_iso fs on_progress iso_len parts t)"
  unfolding assemble_iso_def create_private_truncated_file_def
  by (intro spared_rules spared_fs spared_permissions spared_assemble_parts spared_replace)
    (use assms in auto)

text \<open>The transfer once its ranges and their files are known.\<close>

lemma parts_mono: "(\<And>b n. P b n \<Longrightarrow> Q b n) \<Longrightarrow> parts_hold P parts h \<Longrightarrow> parts_hold Q parts h"
  by (auto simp: parts_hold_def list_all_iff)

lemma post_transfer:
  assumes "honest (iso_fs os)" and t: "download_temporary_path destination = Inr t"
    and ranges: "split_ranges iso_len = Inr ranges" "unat iso_len = length medium"
    and paths: "collect_results (map (\<lambda>i. sidecar_path t (part_suffix i)) [0..<length ranges]) = Inr paths"
    and parts: "parts = zip ranges paths" and workers: "post (run_workers os url parts) (\<lambda>_. parts_hold P parts) h"
    and P: "\<And>bounds n. P bounds n \<Longrightarrow> part_ok medium bounds n"
  shows "post (io_bind (run_workers os url parts) (\<lambda>(sent, error).
     io_bind (transfer_progress on_progress iso_len downloaded sent) (\<lambda>_.
     case error of
       Some e \<Rightarrow> io_fail e
     | None \<Rightarrow> assemble_iso (iso_fs os) on_progress iso_len parts t)))
    (\<lambda>r h'. parts_hold P parts h' \<and> (r = Inr () \<longrightarrow> node_at h' t = Some (Regular 0x180 medium))) h"
    (is "post _ ?Q h")
proof -
  note apart = part_paths_apart [OF t paths]
  have inside: "\<forall>(bounds, p) \<in> set parts. within (length medium) bounds"
    using split_ranges_bytes(1) [OF ranges] parts by (auto dest: set_zip_leftD)
  have names: "map snd parts = paths" "map fst parts = ranges" using apart(1) parts by simp_all
  have files: "snd ` set parts = set paths" using names(1) by (metis set_map)
  have bytes: "concat (map (\<lambda>(bounds, p). bytes_in medium bounds) parts) = medium"
    using split_ranges_bytes(2) [OF ranges] names(2) by (metis (no_types, lifting) case_prod_beta' comp_apply map_map map_cong)
  show ?thesis
  proof (rule post_seq [OF workers], goal_cases)
    case (2 result h1)
    obtain sent error where result: "result = (sent, error)" by (cases result)
    show ?case unfolding result case_prod_conv
    proof (rule post_look_then [OF looking.refl [of h1] looks_transfer_progress], goal_cases)
      case (2 u h2)
      then have h2: "parts_hold P parts h2" using \<open>parts_hold P parts h1\<close> by (simp add: leaves_def parts_hold_def)
      have "post (assemble_iso (iso_fs os) on_progress iso_len parts t) (\<lambda>_ h'. \<forall>q \<in> set paths. same_at q h2 h') h2"
        by (rule post_same_at) (use apart in \<open>auto intro!: spared_assemble_iso\<close>)
      then have kept: "post (assemble_iso (iso_fs os) on_progress iso_len parts t) (\<lambda>_. parts_hold P parts) h2"
        by (rule post_mono) (use h2 files in \<open>auto intro: parts_same\<close>)
      have "post (assemble_iso (iso_fs os) on_progress iso_len parts t)
          (\<lambda>r h'. r = Inr () \<longrightarrow> node_at h' t = Some (Regular 0x180 medium)) h2"
      proof (cases "sidecar_path t ''assembling''")
        case (Inr a)
        then show ?thesis
          using assms(1) inside apart files parts_mono [OF P h2] bytes sidecar_apart(2) [OF t Inr suffixes_plain(3,4)] by (intro post_assemble) auto
      qed (simp add: assemble_iso_def post_bind post_simps)
      with kept have "post (assemble_iso (iso_fs os) on_progress iso_len parts t) ?Q h2" by (rule post_conj)
      then show ?case using h2 by (cases error) (simp_all add: post_simps)
    qed (use \<open>parts_hold P parts h1\<close> in \<open>simp add: leaves_def parts_hold_def\<close>)
  qed auto
qed

lemma post_download_with_ranges:
  assumes "honest (iso_fs os)" and announces: "announces os (url_text (ri_download_url resolved)) (length medium)"
    and t: "download_temporary_path destination = Inr t" and ok: "parts_hold P (part_files medium t) h"
    and P: "\<And>bounds n. P bounds n \<Longrightarrow> part_ok medium bounds n"
    and workers: "\<And>h1. length medium < 2 ^ 64 \<Longrightarrow> parts_hold P (part_files medium t) h1 \<Longrightarrow>
      post (run_workers os (ri_download_url resolved) (part_files medium t)) (\<lambda>_. parts_hold P (part_files medium t)) h1"
  shows "post (download_with_ranges os on_progress resolved t) (\<lambda>r h'. parts_hold P (part_files medium t) h'
    \<and> (r = Inr () \<longrightarrow> node_at h' t = Some (Regular 0x180 medium))) h"
    (is "post _ ?Q h")
proof -
  have same: "parts_hold P (part_files medium t) h'" if "node_at h' = node_at h" for h' using ok that by (simp add: parts_hold_def)
  then have kept: "?Q (Inl e) h'" if "node_at h' = node_at h" for e h' using that by simp
  have lengths: "keeps unchanged (io_collect (\<lambda>(bounds, p). partial_file_length (iso_fs os) p (range_len bounds)) parts)" for parts
    by (intro look_rules looks_checks)
  show ?thesis
    unfolding download_with_ranges_def
  proof (rule post_look_then [OF looking.refl [of h]], goal_cases)
    case (3 u h1)
    then have h1: "node_at h1 = node_at h" by (simp add: leaves_def)
    show ?case
    proof (rule post_seq [OF post_content_length [OF announces, of h1]], goal_cases)
      case (2 iso_len h2)
      then have len: "unat iso_len = length medium" and h2: "node_at h2 = node_at h" using h1 by simp_all
      show ?case
      proof (cases "split_ranges iso_len")
        case (Inr ranges)
        note ranges = Inr
        show ?thesis
        proof (cases "collect_results (map (\<lambda>i. sidecar_path t (part_suffix i)) [0..<length ranges])")
          case (Inr paths)
          have files: "part_files medium t = zip ranges paths"
            using ranges Inr len by (simp add: part_files_def flip: len)
          have "parts_hold P (zip ranges paths) h3" if "unchanged h2 h3" for h3
            using that ok h2 by (simp add: files parts_hold_def leaves_def)
          then have "post (run_workers os (ri_download_url resolved) (zip ranges paths)) (\<lambda>_. parts_hold P (zip ranges paths)) h3"
            if "unchanged h2 h3" for h3
            using that workers unsigned_less [of iso_len, where 'a = nat] len unfolding files by simp
          note transfer = post_transfer [OF assms(1) t ranges len Inr refl this P]
          show ?thesis
            unfolding ranges Inr files post_bind [of "io_of _"] post_simps on_ok_apply Let_def
            by (rule post_look_then [OF looking.refl [of h2] lengths], use h2 ok files in \<open>simp add: leaves_def parts_hold_def\<close>)
              (rule post_look_then [OF _ looks_more(2)], assumption, use h2 ok files in \<open>simp add: leaves_def parts_hold_def\<close>, erule transfer)
        qed (use h2 in \<open>simp add: ranges post_bind post_simps kept\<close>)
      qed (use h2 in \<open>simp add: post_bind post_simps kept\<close>)
    qed (use h1 in \<open>auto simp: same\<close>)
  qed (auto intro: looking.keeps_rules simp: leaves_def same)
qed

lemma part_files_within:
  assumes "length medium < 2 ^ 64"
  shows "\<forall>(bounds, p) \<in> set (part_files medium t). within (length medium) bounds"
proof -
  have "unat (word_of_nat (length medium) :: u64) = length medium" using assms by (intro unat_word_of_nat_less) simp
  then have "\<forall>bounds \<in> set ranges. within (length medium) bounds" if "split_ranges (word_of_nat (length medium)) = Inr ranges" for ranges
    using split_ranges_bytes(1) [OF that] by blast
  then show ?thesis by (auto simp: part_files_def split: sum.splits dest!: set_zip_leftD) (metis)+
qed

lemma part_files_distinct:
  assumes "download_temporary_path destination = Inr t"
  shows "distinct (map snd (part_files medium t))"
  using part_paths_apart [OF assms] by (auto simp: part_files_def split: sum.splits)

lemma post_download_served:
  assumes "honest (iso_fs os)" and serves: "serves os (url_text (ri_download_url resolved)) medium"
    and t: "download_temporary_path destination = Inr t" and ok: "parts_ok medium (part_files medium t) h"
  shows "post (download_with_ranges os on_progress resolved t) (\<lambda>r h'. parts_ok medium (part_files medium t) h'
    \<and> (r = Inr () \<longrightarrow> node_at h' t = Some (Regular 0x180 medium))) h"
  using assms(1) serves_announces [OF serves] t ok
proof (rule post_download_with_ranges)
  fix h1 :: "'a host" assume "length medium < 2 ^ 64" "parts_ok medium (part_files medium t) h1"
  then show "post (run_workers os (ri_download_url resolved) (part_files medium t)) (\<lambda>_. parts_ok medium (part_files medium t)) h1"
    using assms(1) serves part_files_distinct [OF t] part_files_within [of medium t] by (intro post_workers) auto
qed

text \<open>
  C32: interrupted downloads can be resumed.  As long as the service sends bytes of the one medium,
  the parts on the disk are always the beginnings of their ranges, whatever calls fail and wherever
  a transfer or a write breaks off; and when a transfer succeeds, also one that continues what
  earlier attempts have left, the temporary file is the medium, byte for byte.
\<close>

theorem resumed_download_exact:
  assumes "honest (iso_fs os)" and "serves os (url_text (ri_download_url resolved)) medium"
    and "download_temporary_path destination = Inr t" and "parts_ok medium (part_files medium t) h"
    and "download_with_ranges os on_progress resolved t h = Some (r, h')"
  shows "parts_ok medium (part_files medium t) h' \<and> (r = Inr () \<longrightarrow> node_at h' t = Some (Regular 0x180 medium))"
  using post_download_served [OF assms(1-4)] assms(5) by (rule postD)


section \<open>Complete parts\<close>

definition full_part :: "string \<Rightarrow> ByteRange \<Rightarrow> fs_node option \<Rightarrow> bool" where
  "full_part contents bounds n \<longleftrightarrow> (\<exists>mode. n = Some (Regular mode (bytes_in contents bounds)))"

lemma full_part_ok: "full_part contents bounds n \<Longrightarrow> part_ok contents bounds n"
  by (auto simp: full_part_def part_ok_def)

lemma post_workers_full:
  assumes "honest (iso_fs os)" and "\<forall>(bounds, p) \<in> set ps. within (length contents) bounds"
    and "parts_hold (full_part contents) ps h"
  shows "post (run_workers os url ps) (\<lambda>_. unchanged h) h"
  using assms(2,3)
proof (induction ps arbitrary: h)
  case (Cons part ps)
  obtain bounds p where part: "part = (bounds, p)" by (cases part)
  have full: "full_part contents bounds (node_at h p)" "parts_hold (full_part contents) ps h" and inside: "within (length contents) bounds"
    using Cons.prems part by (auto simp: parts_hold_def)
  have "post (download_range os url bounds p) (\<lambda>_. unchanged h) h"
    unfolding download_range_def post_bind post_map_error
    by (rule post_partial_length [OF assms(1)])
      (use full(1) length_bytes_in [OF inside] in \<open>auto simp: full_part_def post_simps\<close>)
  then show ?case unfolding part run_workers.simps post_bind post_attempt
  proof (rule post_mono, goal_cases)
    case (1 r t)
    then have "parts_hold (full_part contents) ps t" using full(2) by (simp add: parts_hold_def leaves_def)
    with Cons have "post (run_workers os url ps) (\<lambda>_. unchanged t) t" by simp
    then show ?case unfolding on_ok_apply post_bind
      by (rule post_mono) (use 1 in \<open>auto simp: on_ok_cases wp intro: looking.trans\<close>)
  qed
qed (simp add: wp leaves_def)

text \<open>
  C33: complete parts are never fetched again.  Once the parts on the disk have their full lengths, an
  attempt only puts them together, whatever the service would send; when their digest is not the
  published one, the attempt fails and leaves the same parts, and so does every attempt after it.
\<close>

theorem corrupt_parts_kept:
  assumes "honest (iso_fs os)" and "announces os (url_text (ri_download_url resolved)) (length contents)"
    and t: "download_temporary_path destination = Inr t" and full: "parts_hold (full_part contents) (part_files contents t) h"
    and wrong: "\<not> verified os (ri_expected_sha256 resolved) contents"
    and "io_bind (download_with_ranges os on_progress resolved t)
      (\<lambda>_. finish_download os on_progress Native resolved t destination attempt) h = Some (r, h')"
  shows "(\<exists>e. r = Inl e) \<and> parts_hold (full_part contents) (part_files contents t) h'"
proof -
  let ?I = "parts_hold (full_part contents) (part_files contents t)"
  have "post (download_with_ranges os on_progress resolved t) (\<lambda>r h'. ?I h' \<and> (r = Inr () \<longrightarrow> node_at h' t = Some (Regular 0x180 contents))) h"
    using assms(1,2) t full full_part_ok
  proof (rule post_download_with_ranges)
    fix h1 :: "'a host" assume "length contents < 2 ^ 64" "?I h1"
    then show "post (run_workers os (ri_download_url resolved) (part_files contents t)) (\<lambda>_. ?I) h1"
      by (intro post_mono [OF post_workers_full [OF assms(1) part_files_within]]) (simp_all add: parts_hold_def leaves_def)
  qed
  then have "post (io_bind (download_with_ranges os on_progress resolved t)
      (\<lambda>_. finish_download os on_progress Native resolved t destination attempt)) (\<lambda>r h'. (\<exists>e. r = Inl e) \<and> ?I h') h"
  proof (rule post_seq, goal_cases)
    case (2 u h1)
    then have I: "?I h1" and temporary: "node_at h1 t = Some (Regular 0x180 contents)" by simp_all
    show ?case unfolding finish_download_def post_bind
      by (rule post_sha256) (use I temporary wrong in \<open>auto simp: wp verified_def parts_hold_def leaves_def\<close>)
  qed auto
  then show ?thesis using assms(6) by (rule postD)
qed


section \<open>A medium of two bytes\<close>

lemma chunks_code [code]:
  "chunks s = (if s = [] then [] else if length s \<le> BUFFER then [s] else take BUFFER s # chunks (drop BUFFER s))"
  by (subst chunks.simps) (simp add: chunks.simps)

definition tiny_ranges :: "(string \<times> string) list" where
  "tiny_ranges = [(''0-0'', ''x''), (''1-1'', ''y'')]"

definition range_headers :: "string \<Rightarrow> (string \<times> string) list" where
  "range_headers r = [(''User-Agent'', MICROSOFT_USER_AGENT), (''Accept-Encoding'', ''identity''), (''Range'', ''bytes='' @ r)]"

definition tiny_answer :: "nat \<Rightarrow> (string \<times> string) list \<Rightarrow> string \<Rightarrow> http_response" where
  "tiny_answer status headers body = \<lparr>hr_status = status, hr_url = demo_link, hr_headers = headers, hr_body = [body], hr_end = None\<rparr>"

definition tiny_service :: "unit iso_os" where
  "tiny_service = \<lparr>iso_fs = img_os,
     iso_call = (\<lambda>request url headers h.
       (if request = ''HEAD'' then Inr (tiny_answer 200 [(''Content-Length'', ''2'')] [])
        else case find (\<lambda>(r, body). headers = range_headers r) tiny_ranges of
          Some (r, body) \<Rightarrow> Inr (tiny_answer 206 [(''Content-Range'', ''bytes '' @ r @ ''/2'')] body)
        | None \<Rightarrow> Inl (HttpStatus 416), h)),
     iso_random = (\<lambda>w. (Inr (replicate 16 0), w)), iso_millis = (\<lambda>w. (7, w)),
     iso_run = (\<lambda>program arguments dir input h. (Inl NotFound, h)),
     iso_url_parse = plain_url, iso_url_query = (\<lambda>url pairs. url_text url), iso_json_string = (\<lambda>_. None),
     iso_json_languages = (\<lambda>_. None), iso_json_download = (\<lambda>_. None), iso_sha256 = (\<lambda>_. replicate 32 0xAA)\<rparr>"

text \<open>The first byte is on the disk from an earlier attempt.\<close>

definition tiny_host :: "unit host" where
  "tiny_host = \<lparr>h_nodes = [(''/d'', Directory 0x1C0), (''/d/.w.iso.lsw-download.part0'', Regular 0x180 ''x'')], h_rest = ()\<rparr>"

abbreviation tiny_temporary :: string where
  "tiny_temporary \<equiv> ''/d/.w.iso.lsw-download''"

lemma tiny_resumes:
  "map_option fst (download_with_ranges tiny_service (\<lambda>_ w. w) demo_resolved tiny_temporary tiny_host) = Some (Inr ())"
  by code_simp

lemma tiny_paths:
  "download_temporary_path ''/d/w.iso'' = Inr tiny_temporary"
  "part_files ''xy'' tiny_temporary = [(\<lparr>br_start = 0, br_end = 0\<rparr>, tiny_temporary @ ''.part0''), (\<lparr>br_start = 1, br_end = 1\<rparr>, tiny_temporary @ ''.part1'')]"
  by code_simp+

lemma digits_dash: "decimal a @ CHR ''-'' # s = decimal b @ CHR ''-'' # t \<longleftrightarrow> a = b \<and> s = t"
proof
  assume eq: "decimal a @ CHR ''-'' # s = decimal b @ CHR ''-'' # t"
  have "CHR ''-'' \<notin> set (decimal n)" for n by (rule decimal_no_char) code_simp
  then have "takeWhile (\<lambda>c. c \<noteq> CHR ''-'') (decimal n @ CHR ''-'' # u) = decimal n" for n u
    by (subst takeWhile_append2) auto
  from this [of a s] this [of b t] eq have "decimal a = decimal b" by simp
  with eq show "a = b \<and> s = t" by simp
qed auto

lemma tiny_serves: "serves tiny_service url ''xy''"
proof -
  have zero: "''0-0'' = decimal 0 @ CHR ''-'' # decimal 0" and one: "''1-1'' = decimal 1 @ CHR ''-'' # decimal 1" by code_simp+
  have "parse_u64 ''2'' = Some 2" by code_simp
  then show ?thesis
    unfolding serves_def announces_def
    by (auto simp: tiny_service_def tiny_answer_def http_header_def header_values_def eq_ignore_ascii_case_def
        range_headers_def tiny_ranges_def zero one body_of_def digits_dash split: if_splits option.splits)
qed

theorem resumed_download_exact_witness:
  "\<exists>h'. download_with_ranges tiny_service (\<lambda>_ w. w) demo_resolved tiny_temporary tiny_host = Some (Inr (), h')
    \<and> node_at h' tiny_temporary = Some (Regular 0x180 ''xy'')"
proof -
  obtain h' where r: "download_with_ranges tiny_service (\<lambda>_ w. w) demo_resolved tiny_temporary tiny_host = Some (Inr (), h')"
    using tiny_resumes by auto
  have "honest (iso_fs tiny_service)" by (simp add: tiny_service_def img_os_def sample_os_def honest_def)
  moreover have "parts_ok ''xy'' (part_files ''xy'' tiny_temporary) tiny_host" unfolding tiny_paths
    by (auto simp: parts_hold_def part_ok_def tiny_host_def node_at_def bytes_in_def range_len_def)
  ultimately show ?thesis
    using resumed_download_exact [OF _ tiny_serves tiny_paths(1) _ r] r by auto
qed

text \<open>The same with two bytes that are wrong and a digest that is not theirs.\<close>

definition stale_host :: "unit host" where
  "stale_host = \<lparr>h_nodes = [(''/d'', Directory 0x1C0), (''/d/.w.iso.lsw-download.part0'', Regular 0x180 ''z''),
     (''/d/.w.iso.lsw-download.part1'', Regular 0x180 ''z'')], h_rest = ()\<rparr>"

definition other_resolved :: ResolvedWindowsIso where
  "other_resolved = demo_resolved\<lparr>ri_expected_sha256 := replicate 64 (CHR ''B'')\<rparr>"

abbreviation stale_attempt :: "(unit, IsoDownloadReport) store" where
  "stale_attempt \<equiv> io_bind (download_with_ranges tiny_service (\<lambda>_ w. w) other_resolved tiny_temporary)
     (\<lambda>_. finish_download tiny_service (\<lambda>_ w. w) Native other_resolved tiny_temporary ''/d/w.iso'' 0)"

lemma stale_attempt_ends: "stale_attempt stale_host \<noteq> None"
  by code_simp

lemma stale_digest: "\<not> verified tiny_service (ri_expected_sha256 other_resolved) ''zz''"
  by code_simp

theorem corrupt_parts_kept_witness:
  "\<exists>e h'. stale_attempt stale_host = Some (Inl e, h') \<and> parts_hold (full_part ''zz'') (part_files ''zz'' tiny_temporary) h'"
proof -
  obtain r h' where r: "stale_attempt stale_host = Some (r, h')" using stale_attempt_ends by fastforce
  have "honest (iso_fs tiny_service)" by (simp add: tiny_service_def img_os_def sample_os_def honest_def)
  moreover have "announces tiny_service (url_text (ri_download_url other_resolved)) (length ''zz'')"
    using serves_announces [OF tiny_serves] by simp
  moreover have "part_files ''zz'' tiny_temporary = part_files ''xy'' tiny_temporary" by (simp add: part_files_def)
  then have "parts_hold (full_part ''zz'') (part_files ''zz'' tiny_temporary) stale_host" unfolding tiny_paths
    by (simp add: parts_hold_def full_part_def stale_host_def node_at_def bytes_in_def range_len_def)
  ultimately show ?thesis
    using corrupt_parts_kept [OF _ _ tiny_paths(1) _ stale_digest r] r by blast
qed


section \<open>The download as a whole\<close>

text \<open>
  C31: downloading a medium never changes a destination that exists, and a destination that is
  created holds contents with the digest the publisher states and is private to its owner; that
  holds however the download ends, and after a report the destination is there and verified.  The
  network may answer anything and every call may fail; only the network client and aria2c are
  assumed not to touch the destination themselves.
\<close>

theorem download_verified:
  assumes "aside os destination"
    and "download_resolved_with_progress os on_progress downloader request initial destination h = Some (r, h')"
  shows "delivered os (ri_expected_sha256 initial) destination h r h'"
  using assms by (rule download_delivers)

lemma tiny_download:
  "case download_resolved_with_progress tiny_service (\<lambda>_ w. w) \<lparr>id_aria2c = None\<rparr> request_default demo_resolved ''/d/w.iso'' tiny_host of
     Some (Inr report, h') \<Rightarrow> rp_bytes report = 2 \<and> node_at h' ''/d/w.iso'' = Some (Regular 0x180 ''xy'') | _ \<Rightarrow> False"
  by code_simp

theorem download_verified_witness:
  "\<exists>report h'. download_resolved_with_progress tiny_service (\<lambda>_ w. w) \<lparr>id_aria2c = None\<rparr> request_default demo_resolved ''/d/w.iso'' tiny_host
      = Some (Inr report, h')
    \<and> delivered tiny_service (ri_expected_sha256 demo_resolved) ''/d/w.iso'' tiny_host (Inr report) h'"
proof -
  have "aside tiny_service ''/d/w.iso''"
    by (simp add: aside_def calls_aside_def same_at_def tiny_service_def)
  moreover obtain report h' where r: "download_resolved_with_progress tiny_service (\<lambda>_ w. w) \<lparr>id_aria2c = None\<rparr> request_default
      demo_resolved ''/d/w.iso'' tiny_host = Some (Inr report, h')"
    using tiny_download by (auto split: option.splits sum.splits) (metis sumE)
  ultimately show ?thesis using download_verified [OF _ r] by blast
qed

end
