(* ===== verification/Command_Line.thy ===== *)
theory Command_Line
  imports Rust_Str
begin

text \<open>
  The Windows command line of a terminal session (\<open>windows_command_line\<close> of \<open>process_bridge.rs\<close>):
  Windows passes one string to a program, which splits it into arguments by documented rules; the
  agent quotes every argument so that the split returns it.  The locale \<open>argv_rules\<close> states those
  rules for a splitter.
\<close>

section \<open>Quoting\<close>

definition QUOTE :: char where "QUOTE = CHR 0x22"
definition BSL :: char where "BSL = CHR 0x5C"

text \<open>
  The loop over the characters of an argument, on its bytes: the bytes of a character outside ASCII
  are neither backslashes nor quotation marks, so they are pushed as they are.
\<close>

fun quote_chars :: "nat \<Rightarrow> string \<Rightarrow> string \<Rightarrow> string" where
  "quote_chars backslashes [] command_line = command_line @ replicate (backslashes * 2) BSL"
| "quote_chars backslashes (character # rest) command_line =
     (if character = BSL then quote_chars (backslashes + 1) rest command_line
      else if character = QUOTE
      then quote_chars 0 rest (command_line @ replicate (backslashes * 2 + 1) BSL @ [QUOTE])
      else quote_chars 0 rest (command_line @ replicate backslashes BSL @ [character]))"

definition needs_quotes :: "string \<Rightarrow> bool" where
  "needs_quotes argument \<longleftrightarrow>
     argument = [] \<or> list_ex (\<lambda>c. char_is_whitespace c \<or> c = char_code QUOTE) (str_chars argument)"

definition append_windows_quoted_argument :: "string \<Rightarrow> string \<Rightarrow> string" where
  "append_windows_quoted_argument command_line argument =
     (if \<not> needs_quotes argument then command_line @ argument
      else quote_chars 0 argument (command_line @ [QUOTE]) @ [QUOTE])"

fun append_arguments :: "string \<Rightarrow> string list \<Rightarrow> string" where
  "append_arguments command_line [] = command_line"
| "append_arguments command_line (argument # arguments) =
     append_arguments (append_windows_quoted_argument (command_line @ '' '') argument) arguments"

definition windows_command_line :: "string \<Rightarrow> string list \<Rightarrow> string" where
  "windows_command_line program arguments =
     append_arguments (append_windows_quoted_argument [] program) arguments"

lemma quote_chars_append: "quote_chars n s (a @ b) = a @ quote_chars n s b"
  by (induction n s b rule: quote_chars.induct) auto

lemma append_quoted: "append_windows_quoted_argument (a @ b) s = a @ append_windows_quoted_argument b s"
  using quote_chars_append [of 0 s a "b @ [QUOTE]"] by (simp add: append_windows_quoted_argument_def)

lemma append_arguments_append: "append_arguments (a @ b) ss = a @ append_arguments b ss"
proof (induction b ss rule: append_arguments.induct)
  case (2 b s ss)
  then show ?case using append_quoted [of a "b @ '' ''" s] by simp
qed simp

lemma leading_backslashes: "\<exists>n t. s = replicate n BSL @ t \<and> (t = [] \<or> hd t \<noteq> BSL)"
proof (induction s)
  case (Cons c s)
  then obtain n t where "s = replicate n BSL @ t" "t = [] \<or> hd t \<noteq> BSL" by blast
  then show ?case
    by (cases "c = BSL") (auto intro: exI [of _ "Suc n"] exI [of _ 0])
qed simp


section \<open>The rules of the splitter\<close>

definition BLANKS :: "char set" where "BLANKS = {CHR '' '', CHR 0x09}"

text \<open>
  \<open>start\<close> splits the text after an argument, \<open>scan quoted current\<close> the text inside one, of which
  \<open>current\<close> has been read.  A quotation mark after an even number of backslashes opens or closes
  quotation (two in a row inside quotation are not used here), after an odd number it is part of
  the argument; other backslashes stand for themselves.
\<close>

locale argv_rules =
  fixes start :: "string \<Rightarrow> string list"
    and scan :: "bool \<Rightarrow> string \<Rightarrow> string \<Rightarrow> string list"
  assumes start_end: "start [] = []"
    and start_blank: "c \<in> BLANKS \<Longrightarrow> start (c # r) = start r"
    and start_argument: "c \<notin> BLANKS \<Longrightarrow> start (c # r) = scan False [] (c # r)"
    and scan_end: "scan False a [] = [a]"
    and scan_blank: "c \<in> BLANKS \<Longrightarrow> scan False a (c # r) = a # start r"
    and scan_plain: "c \<notin> {QUOTE, BSL} \<Longrightarrow> q \<or> c \<notin> BLANKS \<Longrightarrow> scan q a (c # r) = scan q (a @ [c]) r"
    and scan_open: "scan False a (replicate (2 * n) BSL @ QUOTE # r) = scan True (a @ replicate n BSL) r"
    and scan_close: "r = [] \<or> hd r \<noteq> QUOTE \<Longrightarrow>
      scan True a (replicate (2 * n) BSL @ QUOTE # r) = scan False (a @ replicate n BSL) r"
    and scan_quote: "scan q a (replicate (2 * n + 1) BSL @ QUOTE # r) = scan q (a @ replicate n BSL @ [QUOTE]) r"
    and scan_backslashes: "r = [] \<or> hd r \<notin> {QUOTE, BSL} \<Longrightarrow>
      scan q a (replicate n BSL @ r) = scan q (a @ replicate n BSL) r"
begin

lemma scan_quoted:
  "r = [] \<or> hd r \<noteq> QUOTE \<Longrightarrow>
    scan True a (quote_chars n s [] @ QUOTE # r) = scan False (a @ replicate n BSL @ s) r"
proof (induction s arbitrary: n a)
  case Nil
  then show ?case using scan_close [of r a n] by (simp add: mult.commute)
next
  case (Cons c s)
  consider "c = BSL" | "c = QUOTE" | "c \<noteq> BSL" "c \<noteq> QUOTE" by blast
  then show ?case
  proof cases
    case 1
    then show ?thesis using Cons.IH [OF Cons.prems, of a "Suc n"] by (simp add: replicate_app_Cons_same)
  next
    case 2
    have "QUOTE \<noteq> BSL" by (simp add: QUOTE_def BSL_def)
    moreover have "scan True a (replicate (2 * n + 1) BSL @ QUOTE # quote_chars 0 s [] @ QUOTE # r)
        = scan True (a @ replicate n BSL @ [QUOTE]) (quote_chars 0 s [] @ QUOTE # r)" by (rule scan_quote)
    ultimately show ?thesis
      using 2 Cons.IH [OF Cons.prems, of "a @ replicate n BSL @ [QUOTE]" 0]
        quote_chars_append [of 0 s "replicate (n * 2 + 1) BSL @ [QUOTE]" "[]"] by (simp add: mult.commute)
  next
    case 3
    then have "scan True a (replicate n BSL @ c # quote_chars 0 s [] @ QUOTE # r)
        = scan True (a @ replicate n BSL @ [c]) (quote_chars 0 s [] @ QUOTE # r)"
      by (simp add: scan_backslashes scan_plain)
    then show ?thesis
      using 3 Cons.IH [OF Cons.prems, of "a @ replicate n BSL @ [c]" 0]
        quote_chars_append [of 0 s "replicate n BSL @ [c]" "[]"] by simp
  qed
qed

lemma scan_unquoted:
  "\<forall>c \<in> set s. c \<notin> insert QUOTE BLANKS \<Longrightarrow> r = [] \<or> hd r \<in> BLANKS \<Longrightarrow> scan False a (s @ r) = scan False (a @ s) r"
proof (induction "length s" arbitrary: s a rule: less_induct)
  case less
  obtain n t where s: "s = replicate n BSL @ t" and t: "t = [] \<or> hd t \<noteq> BSL"
    using leading_backslashes by blast
  show ?case
  proof (cases t)
    case Nil
    have "hd r \<notin> {QUOTE, BSL}" if "r \<noteq> []"
      using that less.prems(2) by (auto simp: BLANKS_def QUOTE_def BSL_def)
    then show ?thesis using scan_backslashes [of r False a n] Nil s by auto
  next
    case (Cons c u)
    have c: "c \<notin> {QUOTE, BSL}" "c \<notin> BLANKS" using Cons s t less.prems(1) by auto
    have "scan False a (replicate n BSL @ c # u @ r) = scan False (a @ replicate n BSL @ [c]) (u @ r)"
      using c by (simp add: scan_backslashes scan_plain)
    also have "\<dots> = scan False ((a @ replicate n BSL @ [c]) @ u) r"
      using s Cons less.prems by (intro less.hyps) auto
    finally show ?thesis using s Cons by simp
  qed
qed

text \<open>Every quoted argument is read back, and the splitter is then before the next one.\<close>

lemma scan_argument:
  assumes "utf8_valid s" and "r = [] \<or> hd r \<in> BLANKS"
  shows "start (CHR '' '' # append_windows_quoted_argument [] s @ r) = s # start r"
proof -
  have rest: "scan False s r = s # start r"
  proof (cases r)
    case Nil
    then show ?thesis by (simp add: scan_end start_end)
  next
    case (Cons c t)
    with assms(2) have "c \<in> BLANKS" by simp
    with Cons show ?thesis by (simp only: scan_blank start_blank)
  qed
  have blank: "start (CHR '' '' # u) = start u" for u by (simp add: start_blank BLANKS_def)
  show ?thesis
  proof (cases "needs_quotes s")
    case True
    have r: "r = [] \<or> hd r \<noteq> QUOTE" using assms(2) by (auto simp: BLANKS_def QUOTE_def)
    have "start (QUOTE # quote_chars 0 s [] @ QUOTE # r) = scan False [] (QUOTE # quote_chars 0 s [] @ QUOTE # r)"
      by (rule start_argument) (simp add: BLANKS_def QUOTE_def)
    also have "\<dots> = scan True [] (quote_chars 0 s [] @ QUOTE # r)" using scan_open [of "[]" 0] by simp
    also have "\<dots> = s # start r" using scan_quoted [OF r, of "[]" 0 s] rest by simp
    finally show ?thesis
      using True quote_chars_append [of 0 s "[QUOTE]" "[]"] blank by (simp add: append_windows_quoted_argument_def)
  next
    case False
    have plain: "\<forall>c \<in> set s. c \<notin> insert QUOTE BLANKS"
    proof
      fix c assume c: "c \<in> set s"
      show "c \<notin> insert QUOTE BLANKS"
      proof
        assume special: "c \<in> insert QUOTE BLANKS"
        then have "char_code c < 0x80" by (auto simp: QUOTE_def BLANKS_def char_code_def)
        from ascii_in_str_chars [OF assms(1) c this] have "char_code c \<in> set (str_chars s)" .
        moreover have "char_is_whitespace (char_code c) \<or> char_code c = char_code QUOTE"
          using special by (auto simp: char_is_whitespace_def BLANKS_def char_code_def)
        ultimately show False using False unfolding needs_quotes_def list_ex_iff by blast
      qed
    qed
    obtain c t where ct: "s = c # t" using False by (cases s) (auto simp: needs_quotes_def)
    have "start (s @ r) = scan False [] (s @ r)" unfolding ct append_Cons using plain ct by (intro start_argument) simp
    also have "\<dots> = s # start r" using scan_unquoted [OF plain assms(2), of "[]"] rest by simp
    finally show ?thesis using False blank by (simp add: append_windows_quoted_argument_def)
  qed
qed

lemma split_arguments: "list_all utf8_valid ss \<Longrightarrow> start (append_arguments [] ss) = ss"
proof (induction ss)
  case (Cons s ss)
  have "append_arguments [] (s # ss) = CHR '' '' # append_windows_quoted_argument [] s @ append_arguments [] ss"
    using append_quoted [of "'' ''" "[]" s] append_arguments_append [of "CHR '' '' # append_windows_quoted_argument [] s" "[]" ss]
    by simp
  moreover have "append_arguments [] ss = [] \<or> hd (append_arguments [] ss) \<in> BLANKS"
  proof (cases ss)
    case (Cons t ts)
    have "append_arguments [] (t # ts) = CHR '' '' # append_arguments (append_windows_quoted_argument [] t) ts"
      using append_quoted [of "'' ''" "[]" t] append_arguments_append [of "'' ''" "append_windows_quoted_argument [] t" ts]
      by simp
    with Cons show ?thesis by (simp add: BLANKS_def)
  qed simp
  ultimately show ?case using Cons by (simp add: scan_argument)
qed (simp add: start_end)

end


section \<open>A splitter that follows the rules\<close>

function (sequential) win_scan :: "bool \<Rightarrow> string \<Rightarrow> nat \<Rightarrow> string \<Rightarrow> string list"
  and win_start :: "string \<Rightarrow> string list" where
  "win_scan quoted a n [] = [a @ replicate n BSL]"
| "win_scan quoted a n (c # r) =
     (if c = BSL then win_scan quoted a (Suc n) r
      else if c = QUOTE
      then if even n then win_scan (\<not> quoted) (a @ replicate (n div 2) BSL) 0 r
           else win_scan quoted (a @ replicate (n div 2) BSL @ [QUOTE]) 0 r
      else if \<not> quoted \<and> c \<in> BLANKS then (a @ replicate n BSL) # win_start r
      else win_scan quoted (a @ replicate n BSL @ [c]) 0 r)"
| "win_start [] = []"
| "win_start (c # r) = (if c \<in> BLANKS then win_start r else win_scan False [] 0 (c # r))"
  by pat_completeness auto
termination
  by (relation "measure (\<lambda>x. case x of Inl (_, _, _, s) \<Rightarrow> 2 * length s | Inr s \<Rightarrow> 2 * length s + 1)") auto

lemma win_scan_backslashes: "win_scan q a k (replicate n BSL @ r) = win_scan q a (n + k) r"
  by (induction n arbitrary: k) simp_all

lemma win_scan_flush:
  "r = [] \<or> hd r \<notin> {QUOTE, BSL} \<Longrightarrow> win_scan q a n r = win_scan q (a @ replicate n BSL) 0 r"
  by (cases r) simp_all

interpretation win: argv_rules win_start "\<lambda>quoted a. win_scan quoted a 0"
proof
  have distinct: "QUOTE \<noteq> BSL" "BSL \<notin> BLANKS" "QUOTE \<notin> BLANKS" by (simp_all add: QUOTE_def BSL_def BLANKS_def)
  fix c a r q n
  show "c \<in> BLANKS \<Longrightarrow> win_scan False a 0 (c # r) = a # win_start r" using distinct by auto
  show "win_scan False a 0 (replicate (2 * n) BSL @ QUOTE # r) = win_scan True (a @ replicate n BSL) 0 r"
    "win_scan q a 0 (replicate (2 * n + 1) BSL @ QUOTE # r) = win_scan q (a @ replicate n BSL @ [QUOTE]) 0 r"
    unfolding win_scan_backslashes using distinct by simp_all
  show "win_scan True a 0 (replicate (2 * n) BSL @ QUOTE # r) = win_scan False (a @ replicate n BSL) 0 r"
    unfolding win_scan_backslashes using distinct by simp
  show "r = [] \<or> hd r \<notin> {QUOTE, BSL} \<Longrightarrow> win_scan q a 0 (replicate n BSL @ r) = win_scan q (a @ replicate n BSL) 0 r"
    unfolding win_scan_backslashes using win_scan_flush [of r q a n] by simp
qed auto


section \<open>Properties\<close>

text \<open>
  C23: no argument is split, merged or altered on its way to the program: a splitter that follows
  the documented rules of Windows finds, after the quoted program name, exactly the arguments the
  agent was given, whatever blanks, quotation marks and backslashes they contain, empty ones
  included.
\<close>

theorem command_line_arguments_recovered:
  assumes "argv_rules start scan" and "list_all utf8_valid arguments"
  shows "start (drop (length (append_windows_quoted_argument [] program)) (windows_command_line program arguments))
    = arguments"
  using argv_rules.split_arguments [OF assms]
    append_arguments_append [of "append_windows_quoted_argument [] program" "[]" arguments]
  by (simp add: windows_command_line_def)

theorem command_line_arguments_recovered_witness:
  "win_start (drop (length (append_windows_quoted_argument [] ''p''))
       (windows_command_line ''p'' [''a b'', [], [QUOTE, BSL], ''c'' @ [BSL]]))
     = [''a b'', [], [QUOTE, BSL], ''c'' @ [BSL]]"
proof (rule command_line_arguments_recovered)
  show "argv_rules win_start (\<lambda>quoted a. win_scan quoted a 0)" by (rule win.argv_rules_axioms)
  show "list_all utf8_valid [''a b'', [], [QUOTE, BSL], ''c'' @ [BSL]]" by code_simp
qed

end
