(* ===== verification/Spec2Isabelle.thy ===== *)
theory Spec2Isabelle
  imports File_Transfer Gui_Display Pe_Image Supervisor_Guards Iso_Resume Command_Line
begin

text \<open>
  A verification of LSW, which runs Windows in a virtual machine and makes its programs, files and
  windows usable from Linux.

  The program and its parts.  The command line \<open>lsw\<close> (\<open>crates/lsw-cli\<close>) and the daemon \<open>lswd\<close>
  (\<open>crates/lsw-daemon\<close>) run on the Linux host.  They keep the instances in a directory tree
  (\<open>crates/lsw-core\<close>: manifests, store, errors, inspection of executables) and start QEMU.  In the
  guest an agent (\<open>crates/lsw-agent\<close>) accepts connections from the host (\<open>crates/lsw-host\<close>), both
  speaking the frame protocol of \<open>crates/lsw-protocol\<close>: an authenticated session starts a process
  or a terminal, transfers a file, or opens a seamless window whose damage the agent sends and the
  presenter (\<open>crates/lswg\<close>) draws.

  The library theories.  \<open>Lsw_Prelude\<close> holds machine words, byte order, results as sums and the
  collection \<open>ok_iff\<close>; \<open>Rust_Text\<close> and \<open>Rust_Str\<close> the part of \<open>str\<close>, \<open>Path\<close> and UTF-8 that the
  code uses; \<open>Rust_Outcome\<close> code that may panic (indices, slices, arithmetic) with the weakest
  preconditions \<open>ends\<close>; \<open>Host_Io\<close> code with effects, errors and loops, with the weakest
  preconditions \<open>post\<close> and the locale \<open>step_order\<close>; \<open>Host_Fs\<close> the file system calls of the host and
  \<open>Path_Names\<close> the last names of paths.

  The components, in the order of the data flow, each with its file of the source and its
  properties.

  \<^item> \<open>Codec\<close> (\<open>codec.rs\<close>, \<open>constants.rs\<close>, \<open>error.rs\<close>): encoder, decoder and the constant-time token
    comparison.  The locale \<open>wire_codec\<close> is the contract of a message: exactly the encodings are
    decoded.  Every message theory interprets it.
  \<^item> \<open>Framing\<close> (\<open>frame.rs\<close>): frames on a stream that may break after any byte; round trip, bound of
    the payload, no delivery of a frame that was cut off.
  \<^item> \<open>Accounts\<close>, \<open>Contract\<close>, \<open>Integration\<close>, \<open>Session\<close>, \<open>Gui_Protocol\<close> (\<open>user.rs\<close>, \<open>role.rs\<close>,
    \<open>contract.rs\<close>, \<open>integration.rs\<close>, \<open>transfer.rs\<close>, \<open>session.rs\<close>, \<open>gui.rs\<close>): the messages; what is
    accepted, that it is what was sent, and the bounds of accepted values.
  \<^item> \<open>Session_Lease\<close>, \<open>Session_Child\<close>, \<open>Input_Bridge\<close>, \<open>Agent_Connection\<close> (\<open>process_session.rs\<close>,
    \<open>process_bridge.rs\<close>, \<open>requests.rs\<close>, \<open>server.rs\<close> of the agent): leases against the clock, the end
    of a session and the one call that terminates its process tree (on a system that records these
    calls, which simulates the system without the record), the input of processes and terminals, the handshake and the
    dispatch of requests.
  \<^item> \<open>File_Transfer\<close> (\<open>receive_file\<close>, \<open>send_file\<close>; \<open>put_file\<close>, \<open>get_file\<close> of the host): atomic
    publication, and the two ends together.
  \<^item> \<open>Gui_Damage\<close>, \<open>Frame_Buffer\<close>, \<open>Gui_Display\<close> (\<open>gui_damage.rs\<close>, \<open>presenter/render.rs\<close>): the
    damage the agent emits, the buffer the presenter paints, and that the two together show the
    captured frame.
  \<^item> \<open>Lsw_Error\<close>, \<open>Pe_Image\<close>, \<open>Manifest\<close>, \<open>Manifest_Codec\<close> (\<open>error.rs\<close>, \<open>pe.rs\<close>, \<open>manifest.rs\<close>,
    \<open>profile.rs\<close> of the core): inspection of executables without panics and within budgets; the
    stored form of instances.
  \<^item> \<open>State_Store\<close>, \<open>Store_View\<close>, \<open>Store_Access\<close> (\<open>store.rs\<close>): the store over a tree of file system
    nodes in which any call may fail.  \<open>view\<close> abstracts it to a map from names to manifests;
    creation, update and removal refine the operations of that map, and \<open>store_ok\<close> (well-formed
    tree, no host port used twice) is an invariant of every sequence of operations.
  \<^item> \<open>Command_Line\<close> (\<open>windows_command_line\<close>): quoting, against the documented splitting rules of
    Windows, the locale \<open>argv_rules\<close>.

  \<^item> \<open>Qemu_Backend\<close>, \<open>Qemu_Plan\<close> (\<open>backend.rs\<close>, \<open>capabilities.rs\<close>, \<open>qemu.rs\<close>): the choice of the
    accelerator and the QEMU command line of an instance.
  \<^item> \<open>Provision\<close> (\<open>preparation.rs\<close>, \<open>fs_checks.rs\<close>, \<open>samba.rs\<close>): the preparation of the directory of an
    instance, and the private Samba configuration.
  \<^item> \<open>Qemu_Evidence\<close>, \<open>Qmp_Client\<close>, \<open>Supervisor_Runtime\<close>, \<open>Supervisor\<close> (\<open>qmp.rs\<close>, \<open>supervisor.rs\<close>,
    \<open>supervisor/runtime.rs\<close> of the daemon): what the system knows of a foreign guest process, the
    control connection of QEMU, and every operation of the supervisor with its idle policies and its
    helper processes.
  \<^item> \<open>Iso_Catalog\<close>, \<open>Iso_Download\<close>, \<open>Iso_Verified\<close>, \<open>Iso_Resume\<close> (\<open>iso_download.rs\<close>,
    \<open>iso_download/downloader.rs\<close> of the core): resolving an installation medium with its publisher, and
    downloading it.  What is resolved and which hosts are asked; that the ranges cover the medium, that
    the destination only gets verified contents (\<open>delivered\<close>), that interrupted parts stay beginnings of
    their ranges so that a resumed transfer is exact, and the case of complete but wrong parts.
  \<^item> \<open>Daemon_Protocol\<close>, \<open>Daemon\<close> (\<open>daemon_protocol.rs\<close>; \<open>main.rs\<close>, \<open>runtime_config.rs\<close> of the daemon):
    requests and responses, bounded lines, dispatch, and a round of the daemon's loop.
  \<^item> \<open>Supervisor_Safety\<close>, \<open>Supervisor_Guards\<close>: what every call of the supervisor keeps.  \<open>orderly\<close>
    is a step order of the host's state, and one lemma per call of the supervisor puts it in that
    order; the daemon as a whole then keeps every instance with all its user has chosen, and never
    sets its state back to the one before the installation.  The guards against stopping a process that is not proven to be the guest.

  Parameters.  What the sources only call is an argument of the definitions: \<open>to_uppercase\<close> of the
  Unicode tables, the digest SHA-256 (assumed to be free of collisions where that is needed), the
  operating system of a session (\<open>session_os\<close>: process, tree, clock, control channel), the file
  system of a transfer (\<open>file_system\<close>), the handlers that forward to Windows services, the answers
  of the host's operating system (\<open>host_os\<close>: which calls fail and how, clock, randomness, ports),
  and of the network (\<open>iso_os\<close>: responses, parsers of URLs and JSON, programs).
  Errors are values; their texts are kept as the pieces of their format strings.  Two hypotheses
  speak about the host's system: \<open>honest\<close> (a call fails with \<open>NotFound\<close> or \<open>AlreadyExists\<close> only
  when that is the case) and \<open>calm\<close> (no call fails), used for what a later undisturbed read finds.

  Loops.  A loop over data is a terminating function.  The loop that waits for the end of a session
  depends on the clock and carries fuel; its theorem shows that as many iterations as the lease has
  milliseconds, plus two, are enough.

  Findings.  These theorems show behaviour the code does not mean to have: a window exactly one
  pixel wider than the guest's makes the presenter panic; a manifest with more than 64 shares is
  stored and can never be read; a share below the root of the live drive is accepted; a creation
  that fails while the token is written leaves a name that can be neither created nor removed; a
  guest whose store lies below a path with a comma is taken for gone while it runs; a start of a
  suspended instance whose QEMU does not answer is not refused, but goes on to launch it; a download whose parts are
  complete but wrong can never succeed again; the last range of a download of nearly \<open>2 ^ 64\<close> bytes
  overflows.

  Not modelled.  The Windows side of the agent (capture, input injection, desktop companion,
  services: calls of the Windows API through FFI), the window system calls of the presenter, the
  command line's parsing and printing, the preparation of installation media (WinPE, DISM:
  external programs and scripts), serde's JSON text (a parameter of \<open>Daemon_Protocol\<close>), and the scripts.
  The interleaving of two host programs that change the same store is not modelled: operations of
  the store are taken one at a time.
\<close>

end
